(* ===== verification/Protocol.thy ===== *)
theory Protocol
  imports Prelude
begin

text \<open>
  The frozen v1 data contract of \<open>protocol/common.py\<close>, \<open>protocol/workflow.py\<close>,
  \<open>protocol/change_set.py\<close> and \<open>protocol/api.py\<close>: one datatype per \<open>StrEnum\<close> with
  its wire value, one record per model, and the shape predicates of the constrained scalars.
  Constructor names are the source's; where two enums share one, the datatype's name
  qualifies it (\<open>NodeRunStatus.FAILED\<close>). Risk levels are put in the \<open>linorder\<close>
  class by the order table the components share.
\<close>

subsection \<open>Constrained scalars\<close>

definition entity_id_tail :: "char \<Rightarrow> bool" where
  "entity_id_tail c \<longleftrightarrow> is_alnum c \<or> c \<in> set ''._:-''"

definition is_entity_id :: "string \<Rightarrow> bool" where
  "is_entity_id s \<longleftrightarrow>
     (case s of [] \<Rightarrow> False
      | c # cs \<Rightarrow> length s \<le> 128 \<and> is_alnum c \<and> list_all entity_id_tail cs)"

definition is_hex_lower :: "char \<Rightarrow> bool" where
  "is_hex_lower c \<longleftrightarrow> is_digit c \<or> (97 \<le> char_code c \<and> char_code c \<le> 102)"

definition is_sha256_hex :: "string \<Rightarrow> bool" where
  "is_sha256_hex s \<longleftrightarrow> length s = 64 \<and> list_all is_hex_lower s"

definition is_git_object_id :: "string \<Rightarrow> bool" where
  "is_git_object_id s \<longleftrightarrow> (length s = 40 \<or> length s = 64) \<and> list_all is_hex_lower s"

subsection \<open>Enumerations\<close>

datatype RiskLevel = L0 | L1 | L2 | L3 | L4

fun RiskLevel_value :: "RiskLevel \<Rightarrow> string" where
  "RiskLevel_value L0 = ''L0''"
| "RiskLevel_value L1 = ''L1''"
| "RiskLevel_value L2 = ''L2''"
| "RiskLevel_value L3 = ''L3''"
| "RiskLevel_value L4 = ''L4''"

fun RISK_ORDER :: "RiskLevel \<Rightarrow> nat" where
  "RISK_ORDER L0 = 0"
| "RISK_ORDER L1 = 1"
| "RISK_ORDER L2 = 2"
| "RISK_ORDER L3 = 3"
| "RISK_ORDER L4 = 4"

definition max_risk :: "RiskLevel \<Rightarrow> RiskLevel \<Rightarrow> RiskLevel" where
  "max_risk left right = (if RISK_ORDER left \<ge> RISK_ORDER right then left else right)"

datatype TaskStatus =
  PENDING | RUNNING | SUCCEEDED | PRIVILEGE_REQUESTED | FAILED | TIMED_OUT | CANCELLED
  | BLOCKED_BY_GUARD | PARSE_FAILED | ORPHANED

datatype ChangeSetStatus =
  CAPTURED | GUARD_PASSED | GUARD_REJECTED | TEST_PASSED | TEST_FAILED | POLICY_REJECTED
  | PENDING_APPROVAL | APPROVED | REJECTED | CANCELLED | STALE | MERGED | ABANDONED_PARTIAL
  | QUARANTINED

datatype PrivilegeAction = EDIT_DEPENDENCY_MANIFEST | EDIT_PROJECT_CONFIG

datatype NodeType =
  INPUT | AGENT_TASK | CONTEXT_BUILDER | PATCH_GUARD | COMMAND_GUARD | TEST | RISK_CLASSIFIER
  | APPROVAL | MERGE_PATCH | OUTPUT | IF

fun NodeType_value :: "NodeType \<Rightarrow> string" where
  "NodeType_value INPUT = ''input''"
| "NodeType_value AGENT_TASK = ''agent_task''"
| "NodeType_value CONTEXT_BUILDER = ''context_builder''"
| "NodeType_value PATCH_GUARD = ''patch_guard''"
| "NodeType_value COMMAND_GUARD = ''command_guard''"
| "NodeType_value TEST = ''test''"
| "NodeType_value RISK_CLASSIFIER = ''risk_classifier''"
| "NodeType_value APPROVAL = ''approval''"
| "NodeType_value MERGE_PATCH = ''merge_patch''"
| "NodeType_value OUTPUT = ''output''"
| "NodeType_value IF = ''if''"

datatype TaskKind = ANALYZE | IMPLEMENT | REVIEW | DOCS | TEST_FIX

fun TaskKind_value :: "TaskKind \<Rightarrow> string" where
  "TaskKind_value ANALYZE = ''analyze''"
| "TaskKind_value IMPLEMENT = ''implement''"
| "TaskKind_value REVIEW = ''review''"
| "TaskKind_value DOCS = ''docs''"
| "TaskKind_value TEST_FIX = ''test_fix''"

datatype TestKind = COMMAND | DOCS_STATIC

fun TestKind_value :: "TestKind \<Rightarrow> string" where
  "TestKind_value COMMAND = ''command''"
| "TestKind_value DOCS_STATIC = ''docs_static''"

datatype IfOperator = EQ | NE | IN | IS_TRUE | IS_FALSE

fun IfOperator_value :: "IfOperator \<Rightarrow> string" where
  "IfOperator_value EQ = ''eq''"
| "IfOperator_value NE = ''ne''"
| "IfOperator_value IN = ''in''"
| "IfOperator_value IS_TRUE = ''is_true''"
| "IfOperator_value IS_FALSE = ''is_false''"

datatype AssignmentMode = AUTO | MANUAL | LOCKED

fun AssignmentMode_value :: "AssignmentMode \<Rightarrow> string" where
  "AssignmentMode_value AUTO = ''auto''"
| "AssignmentMode_value MANUAL = ''manual''"
| "AssignmentMode_value LOCKED = ''locked''"

datatype NodeRunStatus =
  PENDING | READY | RUNNING | WAITING_APPROVAL | BLOCKED_BY_GUARD | FAILED | COMPLETED | SKIPPED
  | SUPERSEDED | CANCELLED | ORPHANED

fun NodeRunStatus_value :: "NodeRunStatus \<Rightarrow> string" where
  "NodeRunStatus_value PENDING = ''pending''"
| "NodeRunStatus_value READY = ''ready''"
| "NodeRunStatus_value RUNNING = ''running''"
| "NodeRunStatus_value WAITING_APPROVAL = ''waiting_approval''"
| "NodeRunStatus_value BLOCKED_BY_GUARD = ''blocked_by_guard''"
| "NodeRunStatus_value FAILED = ''failed''"
| "NodeRunStatus_value COMPLETED = ''completed''"
| "NodeRunStatus_value SKIPPED = ''skipped''"
| "NodeRunStatus_value SUPERSEDED = ''superseded''"
| "NodeRunStatus_value CANCELLED = ''cancelled''"
| "NodeRunStatus_value ORPHANED = ''orphaned''"

definition NodeRunStatus_members :: "NodeRunStatus list" where
  "NodeRunStatus_members =
     [PENDING, READY, RUNNING, WAITING_APPROVAL, BLOCKED_BY_GUARD, FAILED, COMPLETED, SKIPPED,
      SUPERSEDED, CANCELLED, ORPHANED]"

datatype WorkflowRunStatus =
  PENDING | RUNNING | WAITING_APPROVAL | PAUSED | BLOCKED | FAILED | COMPLETED | CANCELLED
  | ORPHANED

datatype NodeOutcome =
  SUCCESS | FAILURE | MATCHED | NOT_MATCHED | APPROVED | REJECTED | BLOCKED | CANCELLED

fun NodeOutcome_value :: "NodeOutcome \<Rightarrow> string" where
  "NodeOutcome_value SUCCESS = ''success''"
| "NodeOutcome_value FAILURE = ''failure''"
| "NodeOutcome_value MATCHED = ''matched''"
| "NodeOutcome_value NOT_MATCHED = ''not_matched''"
| "NodeOutcome_value APPROVED = ''approved''"
| "NodeOutcome_value REJECTED = ''rejected''"
| "NodeOutcome_value BLOCKED = ''blocked''"
| "NodeOutcome_value CANCELLED = ''cancelled''"

definition NodeOutcome_members :: "NodeOutcome list" where
  "NodeOutcome_members =
     [SUCCESS, FAILURE, MATCHED, NOT_MATCHED, APPROVED, REJECTED, BLOCKED, CANCELLED]"

datatype EdgeCondition = SUCCESS | FAILURE | MATCHED | NOT_MATCHED | APPROVED | REJECTED

fun EdgeCondition_value :: "EdgeCondition \<Rightarrow> string" where
  "EdgeCondition_value SUCCESS = ''success''"
| "EdgeCondition_value FAILURE = ''failure''"
| "EdgeCondition_value MATCHED = ''matched''"
| "EdgeCondition_value NOT_MATCHED = ''not_matched''"
| "EdgeCondition_value APPROVED = ''approved''"
| "EdgeCondition_value REJECTED = ''rejected''"

subsection \<open>The order on risk levels\<close>

instantiation RiskLevel :: linorder
begin

definition less_eq_RiskLevel :: "RiskLevel \<Rightarrow> RiskLevel \<Rightarrow> bool" where
  "less_eq_RiskLevel a b \<longleftrightarrow> RISK_ORDER a \<le> RISK_ORDER b"

definition less_RiskLevel :: "RiskLevel \<Rightarrow> RiskLevel \<Rightarrow> bool" where
  "less_RiskLevel a b \<longleftrightarrow> RISK_ORDER a < RISK_ORDER b"

instance
proof
  fix a b :: RiskLevel
  assume "a \<le> b" and "b \<le> a"
  then show "a = b"
    by (cases a; cases b) (simp_all add: less_eq_RiskLevel_def)
qed (auto simp: less_eq_RiskLevel_def less_RiskLevel_def)

end

lemma max_risk_max [simp]: "max_risk a b = max a b"
  by (cases a; cases b) (simp_all add: max_risk_def max_def less_eq_RiskLevel_def)

lemma RISK_ORDER_less [simp]: "RISK_ORDER a < RISK_ORDER b \<longleftrightarrow> a < b"
  by (simp add: less_RiskLevel_def)

lemma RiskLevel_bounds [simp]: "L0 \<le> r" "r \<le> L4"
  by (cases r; simp add: less_eq_RiskLevel_def)+

lemma RiskLevel_le_simps [simp]:
  "L1 \<le> L0 \<longleftrightarrow> False" "L2 \<le> L1 \<longleftrightarrow> False" "L3 \<le> L2 \<longleftrightarrow> False"
  "L3 \<le> L1 \<longleftrightarrow> False" "L1 \<le> L2" "L1 \<le> L3" "L2 \<le> L3"
  "L4 \<le> r \<longleftrightarrow> r = L4" "r \<le> L0 \<longleftrightarrow> r = L0"
  by (cases r; simp add: less_eq_RiskLevel_def)+

subsection \<open>Workflow graphs\<close>

record AgentRecommendation =
  rec_agent_id :: string
  rec_score :: int
  rec_reason :: string

datatype if_value = IfStr string | IfBool bool | IfList "string list"

record IfCondition =
  upstream_node_id :: string
  if_field :: string
  operator :: IfOperator
  if_value :: "if_value option"

record WorkflowNode =
  node_id :: string
  node_type :: NodeType
  task_kind :: "TaskKind option"
  title :: string
  description :: "string option"
  instruction :: "string option"
  assigned_agent :: "string option"
  assignment_mode :: AssignmentMode
  resolved_agent_id :: "string option"
  resolved_agent_spec_sha256 :: "string option"
  recommended_agents :: "AgentRecommendation list"
  allowed_files_candidate :: "string list"
  new_files_candidate :: "string list"
  allowed_commands_candidate :: "string list list"
  effective_allowed_files :: "string list option"
  effective_new_files :: "string list option"
  effective_allowed_commands :: "string list list option"
  policy_risk_floor :: "RiskLevel option"
  requires_changeset_approval :: "bool option"
  test_kind :: "TestKind option"
  test_argv :: "string list option"
  if_condition :: "IfCondition option"
  risk_level_hint :: RiskLevel
  requires_write :: bool
  system_managed :: bool
  source_node_id :: "string option"
  system_rule_id :: "string option"

record WorkflowEdge =
  edge_id :: string
  from_node :: string
  to_node :: string
  condition :: EdgeCondition
  edge_system_managed :: bool

record AuthorGraph =
  schema_version :: string
  nodes :: "WorkflowNode list"
  edges :: "WorkflowEdge list"

record CompiledGraph =
  compiled_schema_version :: string
  source_author_hash :: string
  integration_base_commit :: string
  policy_version :: string
  agent_catalog_snapshot_hash :: string
  compiled_nodes :: "WorkflowNode list"
  compiled_edges :: "WorkflowEdge list"

definition CONTRACT_VERSION :: string where
  "CONTRACT_VERSION = ''1''"

definition new_node :: "string \<Rightarrow> NodeType \<Rightarrow> string \<Rightarrow> WorkflowNode" where
  \<comment> \<open>\<open>WorkflowNode(id=..., node_type=..., title=...)\<close>: every other field at its default\<close>
  "new_node i t ttl = \<lparr>
     node_id = i, node_type = t, task_kind = None, title = ttl, description = None,
     instruction = None, assigned_agent = None, assignment_mode = AUTO,
     resolved_agent_id = None, resolved_agent_spec_sha256 = None, recommended_agents = [],
     allowed_files_candidate = [], new_files_candidate = [], allowed_commands_candidate = [],
     effective_allowed_files = None, effective_new_files = None,
     effective_allowed_commands = None, policy_risk_floor = None,
     requires_changeset_approval = None, test_kind = None, test_argv = None,
     if_condition = None, risk_level_hint = L1, requires_write = False,
     system_managed = False, source_node_id = None, system_rule_id = None \<rparr>"

subsection \<open>Validation issues\<close>

record ValidationIssue =
  issue_code :: string
  issue_message :: string
  issue_node_id :: "string option"
  issue_edge_id :: "string option"

definition issue_constructible :: "ValidationIssue \<Rightarrow> bool" where
  \<comment> \<open>the field constraints pydantic checks when a \<open>ValidationIssue\<close> is constructed\<close>
  "issue_constructible i \<longleftrightarrow>
     1 \<le> length (issue_code i) \<and> length (issue_code i) \<le> 100 \<and>
     1 \<le> length (issue_message i) \<and> length (issue_message i) \<le> 2000 \<and>
     (case issue_node_id i of None \<Rightarrow> True | Some n \<Rightarrow> is_entity_id n) \<and>
     (case issue_edge_id i of None \<Rightarrow> True | Some e \<Rightarrow> is_entity_id e)"

abbreviation opt_list :: "'a list option \<Rightarrow> 'a list" where
  \<comment> \<open>\<open>xs or []\<close>\<close>
  "opt_list xs \<equiv> (case xs of None \<Rightarrow> [] | Some ys \<Rightarrow> ys)"

abbreviation edge_pair :: "WorkflowEdge \<Rightarrow> string \<times> string" where
  "edge_pair e \<equiv> (from_node e, to_node e)"

end
