(* ===== verification/Path_Rules.thy ===== *)
theory Path_Rules
  imports Protocol
begin

text \<open>
  \<open>path_rules.py\<close>: the path rules shared by workspace and capability gates, with what they use
  of \<open>pathlib\<close> and \<open>re\<close>, and \<open>workflow/capability_policy.py\<close>, the closed-world
  table of resources that a capability grant may open.
\<close>

subsection \<open>\<open>PurePosixPath\<close> and \<open>PureWindowsPath\<close>\<close>

definition posix_root :: "string \<Rightarrow> string" where
  "posix_root s =
     (if \<not> startswith s ''/'' then []
      else if startswith s ''//'' \<and> \<not> startswith s ''///'' then ''//'' else ''/'')"

definition posix_tail :: "string \<Rightarrow> string list" where
  "posix_tail s = filter (\<lambda>w. w \<noteq> [] \<and> w \<noteq> ''.'') (split_on CHR ''/'' s)"

definition posix_parts :: "string \<Rightarrow> string list" where
  "posix_parts s = (if posix_root s = [] then posix_tail s else posix_root s # posix_tail s)"

definition as_posix :: "string \<Rightarrow> string" where
  "as_posix s =
     (let body = posix_root s @ join_with ''/'' (posix_tail s)
      in if body = [] then ''.'' else body)"

definition posix_name :: "string \<Rightarrow> string" where
  "posix_name s = (if posix_tail s = [] then [] else last (posix_tail s))"

definition dot_suffix :: "string \<Rightarrow> bool" where
  \<comment> \<open>\<open>0 < name.rfind('.') < len(name) - 1\<close>\<close>
  "dot_suffix name \<longleftrightarrow>
     CHR ''.'' \<in> set name \<and> before_last CHR ''.'' name \<noteq> [] \<and> after_last CHR ''.'' name \<noteq> []"

definition posix_suffix :: "string \<Rightarrow> string" where
  "posix_suffix s =
     (let name = posix_name s
      in if dot_suffix name then CHR ''.'' # after_last CHR ''.'' name else [])"

definition posix_stem :: "string \<Rightarrow> string" where
  "posix_stem s =
     (let name = posix_name s in if dot_suffix name then before_last CHR ''.'' name else name)"

fun has_drive :: "string \<Rightarrow> bool" where
  "has_drive (c # d # s) = (d = CHR '':'')"
| "has_drive _ = False"

definition win_is_absolute :: "string \<Rightarrow> bool" where
  "win_is_absolute s \<longleftrightarrow> startswith s ''//'' \<or> (has_drive s \<and> startswith (drop 2 s) ''/'')"

subsection \<open>Tables\<close>

definition GLOB_CHARS :: "char list" where
  "GLOB_CHARS = ''*?[]''"

definition DOS_RESERVED_NAMES :: "string list" where
  "DOS_RESERVED_NAMES =
     [''CON'', ''PRN'', ''AUX'', ''NUL''] @
     map (\<lambda>i. ''COM'' @ nat_str i) [1, 2, 3, 4, 5, 6, 7, 8, 9] @
     map (\<lambda>i. ''LPT'' @ nat_str i) [1, 2, 3, 4, 5, 6, 7, 8, 9]"

definition SECRET_BASENAMES :: "string list" where
  "SECRET_BASENAMES =
     [''.envrc'', ''.netrc'', ''.npmrc'', ''.terraformrc'', ''.pypirc'', ''.yarnrc'',
      ''.yarnrc.yml'', ''_netrc'', ''application_default_credentials.json'', ''auth.json'',
      ''api-key.json'', ''apikey.json'', ''apikeys.json'', ''access-token.json'', ''id_rsa'',
      ''id_dsa'', ''id_ecdsa'', ''id_ed25519'', ''credentials'', ''credentials.json'',
      ''credentials.toml'', ''credentials.tfrc.json'', ''gradle.properties'', ''nuget.config'',
      ''pip.conf'', ''pip.ini'', ''jwt.json'', ''oauth.json'', ''password.json'',
      ''passwords.json'', ''private.json'', ''secret.json'', ''secrets.json'',
      ''service-account.json'', ''settings-security.xml'', ''token.json'', ''tokens.json'']"

definition SECRET_COMPONENTS :: "string list" where
  "SECRET_COMPONENTS =
     [''.aws'', ''.azure'', ''.cargo'', ''.docker'', ''.gradle'', ''.kube'', ''.m2'',
      ''.terraform.d'', ''gcloud'']"

definition SECRET_PATH_PREFIXES :: "string list list" where
  "SECRET_PATH_PREFIXES =
     [[''.config'', ''gh''], [''.config'', ''glab''], [''.config'', ''gcloud''],
      [''.config'', ''pypoetry''], [''.config'', ''rclone'']]"

definition FORBIDDEN_COMPONENTS :: "string list" where
  "FORBIDDEN_COMPONENTS =
     [''.agent-hub'', ''.aider'', ''.claude'', ''.codex'', ''.git'', ''.opencode'', ''.ssh'']"

definition FORBIDDEN_BASENAMES :: "string list" where
  "FORBIDDEN_BASENAMES =
     [''.aider.conf.yml'', ''.gitattributes'', ''.gitmodules'', ''agents.md'', ''claude.md'',
      ''opencode.json'', ''opencode.jsonc'']"

definition SENSITIVE_NAME_WORDS :: "string list" where
  "SENSITIVE_NAME_WORDS =
     [''access'', ''auth'', ''credential'', ''credentials'', ''key'', ''pass'', ''passwd'',
      ''password'', ''private'', ''pwd'', ''secret'', ''secrets'', ''security'', ''token'',
      ''tokens'']"

definition SENSITIVE_DIRECTORY_TERMINALS :: "string list" where
  "SENSITIVE_DIRECTORY_TERMINALS =
     [''access'', ''credential'', ''credentials'', ''key'', ''pass'', ''passwd'', ''password'',
      ''private'', ''secret'', ''secrets'', ''token'', ''tokens'']"

definition SENSITIVE_NAME_SEQUENCES :: "string list list" where
  "SENSITIVE_NAME_SEQUENCES = [[''service'', ''account''], [''settings'', ''security'']]"

subsection \<open>Regular expressions\<close>

definition short_name_tail :: "string \<Rightarrow> bool" where
  \<comment> \<open>\<open>[0-9]+(?:\..*)?$\<close>\<close>
  "short_name_tail s \<longleftrightarrow>
     takeWhile is_digit s \<noteq> [] \<and>
     (dropWhile is_digit s = [] \<or> startswith (dropWhile is_digit s) ''.'')"

fun short_name_after :: "string \<Rightarrow> bool" where
  \<comment> \<open>some \<open>~\<close> in the text is followed by a short-name tail\<close>
  "short_name_after [] = False"
| "short_name_after (c # s) = ((c = CHR ''~'' \<and> short_name_tail s) \<or> short_name_after s)"

definition is_short_name :: "string \<Rightarrow> bool" where
  \<comment> \<open>\<open>^.+~[0-9]+(?:\..*)?$\<close>, on text without line breaks\<close>
  "is_short_name s \<longleftrightarrow> (case s of [] \<Rightarrow> False | c # cs \<Rightarrow> short_name_after cs)"

fun camel_boundary_2 :: "string \<Rightarrow> string" where
  \<comment> \<open>a space at every \<open>(?<=[A-Z])(?=[A-Z][a-z])\<close>\<close>
  "camel_boundary_2 (a # b # c # s) =
     (if is_upper a \<and> is_upper b \<and> is_lower c then a # CHR '' '' # camel_boundary_2 (b # c # s)
      else a # camel_boundary_2 (b # c # s))"
| "camel_boundary_2 s = s"

fun camel_boundary_1 :: "string \<Rightarrow> string" where
  \<comment> \<open>a space at every \<open>(?<=[a-z0-9])(?=[A-Z])\<close>\<close>
  "camel_boundary_1 (a # b # s) =
     (if (is_lower a \<or> is_digit a) \<and> is_upper b then a # CHR '' '' # camel_boundary_1 (b # s)
      else a # camel_boundary_1 (b # s))"
| "camel_boundary_1 s = s"

fun alnum_words :: "string \<Rightarrow> string \<Rightarrow> string list" where
  \<comment> \<open>the maximal alphanumeric runs, as \<open>re.sub(r"[^A-Za-z0-9]+", " ", s).split()\<close>\<close>
  "alnum_words run [] = (if run = [] then [] else [rev run])"
| "alnum_words run (c # s) =
     (if is_alnum c then alnum_words (c # run) s
      else if run = [] then alnum_words [] s else rev run # alnum_words [] s)"

definition name_words :: "string \<Rightarrow> string list" where
  "name_words name = map casefold (alnum_words [] (camel_boundary_1 (camel_boundary_2 name)))"

definition has_slice :: "string list \<Rightarrow> string list \<Rightarrow> bool" where
  \<comment> \<open>\<open>any(xs[i : i + len(seq)] == seq for i in range(len(xs) - len(seq) + 1))\<close>\<close>
  "has_slice xs sq \<longleftrightarrow>
     list_ex (\<lambda>i. take (length sq) (drop i xs) = sq) [0 ..< length xs + 1 - length sq]"

subsection \<open>The rules\<close>

definition control_char :: "char \<Rightarrow> bool" where
  "control_char c \<longleftrightarrow> char_code c < 32 \<or> char_code c = 127"

definition part_rejected :: "string \<Rightarrow> bool" where
  "part_rejected part \<longleftrightarrow>
     endswith part ''.'' \<or> endswith part '' '' \<or> CHR '':'' \<in> set part \<or>
     upper (before_last CHR ''.'' part) \<in> set DOS_RESERVED_NAMES \<or> is_short_name part"

definition relative_parts :: "string \<Rightarrow> string list option" where
  "relative_parts candidate =
     (if candidate = [] \<or> CHR 0x5C \<in> set candidate then None
      else if list_ex control_char candidate \<or> list_ex (\<lambda>c. c \<in> set GLOB_CHARS) candidate then None
      else if startswith candidate ''/'' \<or> win_is_absolute candidate then None
      else let parts = posix_parts candidate in
        if parts = [] \<or> list_ex (\<lambda>p. p \<in> {[], ''.'', ''..''}) parts then None
        else if list_ex part_rejected parts then None
        else Some parts)"

definition sensitive_basename :: "string \<Rightarrow> bool" where
  "sensitive_basename raw_name \<longleftrightarrow>
     (let name = casefold raw_name in
      name = ''.env'' \<or> startswith name ''.env.'' \<or> startswith name ''.envrc.'' \<or>
      name \<in> set SECRET_BASENAMES \<or>
      list_ex (endswith name) [''.pem'', ''.key'', ''.p12'', ''.pfx''] \<or>
      (let words = name_words (before_last CHR ''.'' raw_name) in
       list_ex (\<lambda>w. w \<in> set SENSITIVE_NAME_WORDS) words \<or>
       list_ex (has_slice words) SENSITIVE_NAME_SEQUENCES))"

definition sensitive_directory :: "string list \<Rightarrow> bool" where
  "sensitive_directory parts \<longleftrightarrow>
     (let lowered = map casefold parts in
      list_ex (\<lambda>p. p \<in> set SECRET_COMPONENTS \<or> p \<in> set FORBIDDEN_COMPONENTS) lowered \<or>
      list_ex (has_slice lowered) SECRET_PATH_PREFIXES \<or>
      list_ex
        (\<lambda>component. let words = name_words component in
           words \<noteq> [] \<and> last words \<in> set SENSITIVE_DIRECTORY_TERMINALS)
        (butlast parts))"

definition restricted_parts :: "string list \<Rightarrow> bool" where
  "restricted_parts parts \<longleftrightarrow>
     sensitive_directory parts \<or>
     casefold (last parts) \<in> set FORBIDDEN_BASENAMES \<or>
     sensitive_basename (last parts)"

definition is_restricted_relative_path :: "string \<Rightarrow> bool" where
  "is_restricted_relative_path candidate \<longleftrightarrow>
     (case relative_parts candidate of None \<Rightarrow> True | Some parts \<Rightarrow> restricted_parts parts)"

definition is_sensitive_relative_path :: "string \<Rightarrow> bool" where
  "is_sensitive_relative_path candidate = is_restricted_relative_path candidate"

subsection \<open>What an accepted path looks like\<close>

lemma split_on_word: "d \<notin> set w \<Longrightarrow> split_on d (w @ d # s) = w # split_on d s"
  by (induction w) auto

lemma split_join:
  "ps \<noteq> [] \<Longrightarrow> \<forall>p \<in> set ps. d \<notin> set p \<Longrightarrow> split_on d (join_with [d] ps) = ps"
proof (induction ps rule: induct_list012)
  case (2 p)
  then show ?case by (simp add: split_on_no_sep_id)
next
  case (3 p q ps)
  then show ?case by (simp add: split_on_word)
qed simp

lemma set_join: "set (join_with sep ps) \<subseteq> set sep \<union> (\<Union>p \<in> set ps. set p)"
  by (induction sep ps rule: join_with.induct) auto

definition safe_component :: "string \<Rightarrow> bool" where
  \<comment> \<open>what every component of an accepted path satisfies\<close>
  "safe_component p \<longleftrightarrow>
     p \<noteq> [] \<and> p \<noteq> ''.'' \<and> p \<noteq> ''..'' \<and>
     (\<forall>c \<in> set p. c \<noteq> CHR ''/'' \<and> c \<noteq> CHR 0x5C \<and> c \<noteq> CHR '':'' \<and> \<not> control_char c \<and>
        c \<notin> set GLOB_CHARS) \<and>
     \<not> part_rejected p"

lemma posix_tail_part:
  assumes "p \<in> set (posix_tail s)"
  shows "p \<noteq> []" and "p \<noteq> ''.''" and "CHR ''/'' \<notin> set p" and "set p \<subseteq> set s"
proof -
  have p: "p \<in> set (split_on CHR ''/'' s)" "p \<noteq> []" "p \<noteq> ''.''"
    using assms unfolding posix_tail_def by simp_all
  then show "p \<noteq> []" and "p \<noteq> ''.''" by simp_all
  show "CHR ''/'' \<notin> set p" by (rule split_on_no_sep [OF p(1)])
  show "set p \<subseteq> set s" by (rule set_split_on [OF p(1)])
qed

lemma relative_parts_SomeD:
  assumes "relative_parts s = Some ps"
  shows "ps = posix_tail s" and "ps \<noteq> []" and "\<forall>p \<in> set ps. safe_component p"
proof -
  have *: "CHR 0x5C \<notin> set s" "\<not> list_ex control_char s" "\<not> list_ex (\<lambda>c. c \<in> set GLOB_CHARS) s"
      "\<not> startswith s ''/''" "posix_parts s \<noteq> []" "posix_parts s = ps"
      "\<not> list_ex (\<lambda>p. p \<in> {[], ''.'', ''..''}) (posix_parts s)"
      "\<not> list_ex part_rejected (posix_parts s)"
    using assms unfolding relative_parts_def Let_def by (auto split: if_splits)
  then show ps: "ps = posix_tail s" and "ps \<noteq> []"
    by (auto simp: posix_parts_def posix_root_def)
  show "\<forall>p \<in> set ps. safe_component p"
  proof
    fix p
    assume p: "p \<in> set ps"
    note tail = posix_tail_part [OF p [unfolded ps]]
    have "p \<notin> {[], ''.'', ''..''}" and rej: "\<not> part_rejected p"
      using * p by (auto simp: list_ex_iff)
    moreover have "CHR '':'' \<notin> set p" using rej by (simp add: part_rejected_def)
    moreover have "c \<noteq> CHR 0x5C \<and> \<not> control_char c \<and> c \<notin> set GLOB_CHARS" if "c \<in> set p" for c
    proof -
      have "c \<in> set s" using that tail(4) by auto
      then show ?thesis using *(1-3) by (auto simp: list_ex_iff)
    qed
    ultimately show "safe_component p"
      using tail(3) unfolding safe_component_def by auto
  qed
qed

lemma has_drive_nth: "has_drive s \<Longrightarrow> CHR '':'' \<in> set s"
  by (cases s rule: has_drive.cases) auto

lemma startswith_slash_join:
  assumes "ps \<noteq> []" and "\<forall>p \<in> set ps. safe_component p"
  shows "\<not> startswith (join_with ''/'' ps) ''/''"
proof -
  obtain p qs where ps: "ps = p # qs" using assms(1) by (cases ps) auto
  obtain c cs where p: "p = c # cs" and c: "c \<noteq> CHR ''/''"
    using assms(2) ps by (cases p) (auto simp: safe_component_def)
  show ?thesis by (cases qs) (simp_all add: ps p c)
qed

lemma join_chars:
  assumes "\<forall>p \<in> set ps. safe_component p" and "c \<in> set (join_with ''/'' ps)"
  shows "c \<noteq> CHR 0x5C" and "c \<noteq> CHR '':''" and "\<not> control_char c" and "c \<notin> set GLOB_CHARS"
proof -
  have "c = CHR ''/'' \<or> (\<exists>p \<in> set ps. c \<in> set p)"
    using assms(2) set_join [of "''/''" ps] by auto
  then have "c \<noteq> CHR 0x5C \<and> c \<noteq> CHR '':'' \<and> \<not> control_char c \<and> c \<notin> set GLOB_CHARS"
  proof
    assume "c = CHR ''/''"
    then show ?thesis by (simp add: control_char_def GLOB_CHARS_def)
  next
    assume "\<exists>p \<in> set ps. c \<in> set p"
    then obtain p where "safe_component p" "c \<in> set p" using assms(1) by blast
    then show ?thesis unfolding safe_component_def by blast
  qed
  then show "c \<noteq> CHR 0x5C" and "c \<noteq> CHR '':''" and "\<not> control_char c" and "c \<notin> set GLOB_CHARS"
    by auto
qed

lemma posix_tail_join:
  assumes "ps \<noteq> []" and "\<forall>p \<in> set ps. safe_component p"
  shows "posix_tail (join_with ''/'' ps) = ps"
proof -
  have "split_on CHR ''/'' (join_with ''/'' ps) = ps"
    using assms by (intro split_join) (auto simp: safe_component_def)
  then show ?thesis
    using assms(2) unfolding posix_tail_def by (auto simp: safe_component_def filter_id_conv)
qed

lemma relative_parts_join:
  assumes "ps \<noteq> []" and ok: "\<forall>p \<in> set ps. safe_component p"
  shows "relative_parts (join_with ''/'' ps) = Some ps"
proof -
  let ?s = "join_with ''/'' ps"
  note slash = startswith_slash_join [OF assms]
  note chars = join_chars [OF ok]
  have tail: "posix_tail ?s = ps" by (rule posix_tail_join [OF assms])
  then have "?s \<noteq> []" using assms(1) by (auto simp: posix_tail_def)
  moreover have "CHR 0x5C \<notin> set ?s" using chars(1) by blast
  moreover have "\<not> list_ex control_char ?s" using chars(3) by (auto simp: list_ex_iff)
  moreover have "\<not> list_ex (\<lambda>c. c \<in> set GLOB_CHARS) ?s" using chars(4) by (auto simp: list_ex_iff)
  moreover have "\<not> win_is_absolute ?s"
  proof -
    have "\<not> startswith ?s ''//''" using slash by (cases ?s) auto
    moreover have "\<not> has_drive ?s" using has_drive_nth [of ?s] chars(2) by blast
    ultimately show ?thesis by (simp add: win_is_absolute_def)
  qed
  moreover have "posix_parts ?s = ps" using slash tail by (simp add: posix_parts_def posix_root_def)
  moreover have "\<not> list_ex (\<lambda>p. p \<in> {[], ''.'', ''..''}) ps" "\<not> list_ex part_rejected ps"
    using ok by (auto simp: list_ex_iff safe_component_def)
  ultimately show ?thesis
    unfolding relative_parts_def Let_def using slash assms(1) by simp
qed

lemma restricted_join:
  assumes "relative_parts s = Some ps"
  shows "is_restricted_relative_path (join_with ''/'' ps) = is_restricted_relative_path s"
  using assms relative_parts_join [of ps] relative_parts_SomeD [OF assms]
  by (simp add: is_restricted_relative_path_def)

lemma unrestricted_component:
  assumes "\<not> is_restricted_relative_path s" and "relative_parts s = Some ps" and "p \<in> set ps"
  shows "casefold p \<notin> set FORBIDDEN_COMPONENTS" and "casefold p \<notin> set SECRET_COMPONENTS"
  using assms
  by (auto simp: is_restricted_relative_path_def restricted_parts_def sensitive_directory_def
      list_ex_iff Let_def)

subsection \<open>Capability policy\<close>

definition DEPENDENCY_NAMES :: "string list" where
  "DEPENDENCY_NAMES =
     [''cargo.toml'', ''cargo.lock'', ''composer.json'', ''composer.lock'', ''go.mod'', ''go.sum'',
      ''gemfile'', ''gemfile.lock'', ''package.json'', ''package-lock.json'',
      ''npm-shrinkwrap.json'', ''pnpm-lock.yaml'', ''poetry.lock'', ''pyproject.toml'',
      ''requirements.txt'', ''pipfile'', ''pipfile.lock'', ''yarn.lock'']"

definition CONFIG_SUFFIXES :: "string list" where
  "CONFIG_SUFFIXES =
     [''.cfg'', ''.conf'', ''.config'', ''.csproj'', ''.ini'', ''.json'', ''.props'',
      ''.targets'', ''.toml'', ''.xml'', ''.yaml'', ''.yml'']"

definition capability_parts :: "string \<Rightarrow> string list option" where
  "capability_parts path =
     (if path = [] \<or> CHR 0x5C \<in> set path then None
      else if startswith path ''/'' \<or> list_ex (\<lambda>p. p \<in> {[], ''.'', ''..''}) (posix_parts path)
      then None
      else Some (map casefold (posix_parts path)))"

definition dependency_manifest :: "string \<Rightarrow> bool" where
  "dependency_manifest name \<longleftrightarrow>
     name \<in> set DEPENDENCY_NAMES \<or>
     (startswith name ''requirements'' \<and> (endswith name ''.txt'' \<or> endswith name ''.in'')) \<or>
     list_ex (endswith name) [''.csproj'', ''.fsproj'', ''.vbproj'']"

definition project_config :: "string \<Rightarrow> bool" where
  "project_config name \<longleftrightarrow>
     list_ex (endswith name) CONFIG_SUFFIXES \<or>
     name \<in> {''editorconfig'', ''makefile'', ''dockerfile'', ''tox.ini'', ''setup.cfg''}"

definition eligible_actions :: "string \<Rightarrow> PrivilegeAction list" where
  "eligible_actions path =
     (if is_restricted_relative_path path then []
      else case capability_parts path of
        None \<Rightarrow> []
      | Some parts \<Rightarrow>
          (let name = last parts in
           (if dependency_manifest name then [EDIT_DEPENDENCY_MANIFEST] else []) @
           (if project_config name then [EDIT_PROJECT_CONFIG] else [])))"

definition is_eligible_resource :: "PrivilegeAction \<Rightarrow> string \<Rightarrow> bool" where
  "is_eligible_resource action path \<longleftrightarrow> action \<in> set (eligible_actions path)"

end
