(* ===== verification/Path_Policy.thy ===== *)
theory Path_Policy
  imports Path_Rules
begin

text \<open>
  \<open>security/path_policy.py\<close>: exact validation of repository-relative scopes against the
  repository's file tree. A tree maps the components of a path below the root to what
  \<open>lstat\<close> reports there, so symbolic links and reparse points are entries of their own. Python's
  \<open>exists\<close> follows both, and \<open>is_symlink\<close> is false of a reparse point: one that leads nowhere is
  invisible to the two tests, and so is everything below it. A path whose every prefix is a
  directory resolves to itself; what an entry that is a link resolves to is a parameter. A raised
  \<open>PathPolicyViolation\<close> is its message.
\<close>

subsection \<open>The file tree\<close>

datatype fs_entry =
    Regular_File nat \<comment> \<open>its hard-link count\<close>
  | Directory
  | Symlink
  | Reparse_Point bool \<comment> \<open>whether following it reaches an entry\<close>

type_synonym file_tree = "string list \<Rightarrow> fs_entry option"

record ValidatedScope =
  existing_files :: "string list"
  new_files :: "string list"

definition all_files :: "ValidatedScope \<Rightarrow> string list" where
  "all_files s = existing_files s @ new_files s"

definition entry_at :: "file_tree \<Rightarrow> string list \<Rightarrow> fs_entry option" where
  \<comment> \<open>what \<open>lstat\<close> finds when it has to walk there: nothing below a reparse point that leads nowhere\<close>
  "entry_at fs parts =
     (if list_ex (\<lambda>n. fs (take n parts) = Some (Reparse_Point False)) [0 ..< length parts] then None else fs parts)"

definition present :: "file_tree \<Rightarrow> string list \<Rightarrow> bool" where
  \<comment> \<open>\<open>exists() or is_symlink()\<close>\<close>
  "present fs parts \<longleftrightarrow> entry_at fs parts \<noteq> None \<and> entry_at fs parts \<noteq> Some (Reparse_Point False)"

definition link_problem :: "string \<Rightarrow> fs_entry option \<Rightarrow> string option" where
  \<comment> \<open>\<open>_assert_not_link_or_reparse\<close>\<close>
  "link_problem label e =
     (case e of
        Some Symlink \<Rightarrow> Some (''symlink paths are not allowed: '' @ label)
      | Some (Reparse_Point _) \<Rightarrow> Some (''reparse/junction paths are not allowed: '' @ label)
      | _ \<Rightarrow> None)"

fun first_Some :: "'a option list \<Rightarrow> 'a option" where
  "first_Some [] = None"
| "first_Some (None # xs) = first_Some xs"
| "first_Some (Some x # xs) = Some x"

definition ancestors_problem :: "file_tree \<Rightarrow> string list \<Rightarrow> bool \<Rightarrow> string option" where
  \<comment> \<open>\<open>_assert_ancestors_safe\<close>: the root, then every prefix of the path that is present\<close>
  "ancestors_problem fs parts include_target =
     first_Some (link_problem ''repository root'' (fs []) #
       map (\<lambda>n. if present fs (take n parts)
                 then link_problem (join_with ''/'' parts) (entry_at fs (take n parts)) else None)
         [1 ..< (if include_target then length parts + 1 else length parts)])"

fun nearest_existing :: "file_tree \<Rightarrow> string list \<Rightarrow> string list" where
  "nearest_existing fs ps =
     (if ps = [] \<or> present fs ps then ps else nearest_existing fs (butlast ps))"

declare nearest_existing.simps [simp del]

subsection \<open>The shape of a path\<close>

definition part_problem :: "string \<Rightarrow> string option" where
  "part_problem part =
     (if endswith part '' '' \<or> endswith part ''.''
      then Some ''path components cannot end with a dot or space''
      else if CHR '':'' \<in> set part
      then Some ''NTFS alternate data streams are not allowed''
      else if upper (before_first CHR ''.'' part) \<in> set DOS_RESERVED_NAMES
      then Some (''reserved Windows path component: '' @ part)
      else if is_short_name part
      then Some (''ambiguous Windows short-name component: '' @ part)
      else None)"

definition char_problem :: "string \<Rightarrow> string option" where
  "char_problem candidate =
     (if candidate = [] \<or> 1024 < length candidate
      then Some ''path length must be within 1..1024 characters''
      else if list_ex control_char candidate
      then Some ''path contains a control character''
      else if CHR 0x5C \<in> set candidate
      then Some ''repo-relative paths must use '/' separators''
      else if list_ex (\<lambda>c. c \<in> set GLOB_CHARS) candidate
      then Some ''glob patterns are not allowed''
      else if startswith candidate ''/'' \<or> has_drive candidate
      then Some ''absolute, drive, UNC, and device paths are not allowed''
      else None)"

definition policy_problem :: "bool \<Rightarrow> bool \<Rightarrow> string \<Rightarrow> string list \<Rightarrow> string option" where
  "policy_problem allow_sensitive allow_control candidate parts =
     (let lowered = map casefold parts in
      if list_ex (\<lambda>p. p \<in> set FORBIDDEN_COMPONENTS) lowered
      then Some ''Git/runtime metadata and SSH paths are forbidden''
      else if \<not> allow_sensitive \<and> is_restricted_relative_path candidate
      then (if last lowered \<in> set FORBIDDEN_BASENAMES
            then Some ''Git/Agent control files are forbidden''
            else Some ''sensitive file paths are forbidden'')
      else if \<not> allow_control \<and> last lowered \<in> set FORBIDDEN_BASENAMES
      then Some ''Git/Agent control files are forbidden''
      else None)"

definition validate_shape ::
  "bool \<Rightarrow> bool \<Rightarrow> string \<Rightarrow> string + (string \<times> string list)" where
  "validate_shape allow_sensitive allow_control candidate =
     (case char_problem candidate of
        Some m \<Rightarrow> Inl m
      | None \<Rightarrow>
          (let parts = posix_parts candidate in
           if parts = [] \<or> list_ex (\<lambda>p. p \<in> {[], ''.'', ''..''}) parts
           then Inl (''path must be canonical and cannot contain '.' or '..'' @ [CHR 0x27])
           else case first_Some (map part_problem parts) of
             Some m \<Rightarrow> Inl m
           | None \<Rightarrow>
               (case policy_problem allow_sensitive allow_control candidate parts of
                  Some m \<Rightarrow> Inl m
                | None \<Rightarrow> Inr (join_with ''/'' parts, parts))))"

subsection \<open>Validation against the tree\<close>

definition validate_existing :: "file_tree \<Rightarrow> string \<Rightarrow> string + string" where
  "validate_existing fs candidate =
     (case validate_shape False False candidate of
        Inl m \<Rightarrow> Inl m
      | Inr (normalized, parts) \<Rightarrow>
          (case ancestors_problem fs parts True of
             Some m \<Rightarrow> Inl m
           | None \<Rightarrow>
               (case if present fs parts then entry_at fs parts else None of
                  None \<Rightarrow> Inl (''existing path does not exist: '' @ normalized)
                | Some (Regular_File links) \<Rightarrow>
                    (if 1 < links then Inl (''hard-linked files are not allowed: '' @ normalized)
                     else Inr normalized)
                | Some _ \<Rightarrow> Inl (''existing scope must name a regular file: '' @ normalized))))"

definition validate_new :: "file_tree \<Rightarrow> string \<Rightarrow> string + string" where
  "validate_new fs candidate =
     (case validate_shape False False candidate of
        Inl m \<Rightarrow> Inl m
      | Inr (normalized, parts) \<Rightarrow>
          (case ancestors_problem fs parts False of
             Some m \<Rightarrow> Inl m
           | None \<Rightarrow>
               (if present fs parts then Inl (''new path already exists: '' @ normalized)
                else let nearest = nearest_existing fs (butlast parts) in
                  if entry_at fs nearest \<noteq> Some Directory
                  then Inl (''new path has no safe directory ancestor: '' @ normalized)
                  else Inr normalized)))"

type_synonym link_resolver = "string list \<Rightarrow> bool \<times> bool"
  \<comment> \<open>what the operating system says of a link: whether following it reaches an entry (of a symbolic
      link), and whether the place it leads to is below the root\<close>

definition exists_at :: "file_tree \<Rightarrow> link_resolver \<Rightarrow> string list \<Rightarrow> bool" where
  \<comment> \<open>\<open>target.exists()\<close> of a path without symbolic links on the way\<close>
  "exists_at fs resolves parts \<longleftrightarrow>
     (if entry_at fs parts = Some Symlink then fst (resolves parts) else present fs parts)"

definition linked_entry :: "fs_entry option \<Rightarrow> bool" where
  "linked_entry e \<longleftrightarrow> (case e of Some Symlink \<Rightarrow> True | Some (Reparse_Point _) \<Rightarrow> True | _ \<Rightarrow> False)"

definition containment_problem :: "file_tree \<Rightarrow> link_resolver \<Rightarrow> string list \<Rightarrow> string option" where
  \<comment> \<open>\<open>_assert_contained(target.resolve(strict=False))\<close>: the first link on the way decides\<close>
  "containment_problem fs resolves parts =
     (case find (\<lambda>n. linked_entry (fs (take n parts))) [1 ..< length parts + 1] of
        None \<Rightarrow> None
      | Some n \<Rightarrow> (if snd (resolves (take n parts)) then None else Some ''path is outside the repository''))"

definition validate_captured_path :: "file_tree \<Rightarrow> link_resolver \<Rightarrow> string \<Rightarrow> bool \<Rightarrow> string + string" where
  "validate_captured_path fs resolves candidate must_exist =
     (if must_exist then validate_existing fs candidate
      else case validate_shape False False candidate of
        Inl m \<Rightarrow> Inl m
      | Inr (normalized, parts) \<Rightarrow>
          (case ancestors_problem fs parts (exists_at fs resolves parts) of
             Some m \<Rightarrow> Inl m
           | None \<Rightarrow>
               (case containment_problem fs resolves parts of Some m \<Rightarrow> Inl m | None \<Rightarrow> Inr normalized)))"

definition validate_cleanup_path :: "file_tree \<Rightarrow> link_resolver \<Rightarrow> string \<Rightarrow> string + string" where
  "validate_cleanup_path fs resolves candidate =
     (case validate_shape True True candidate of
        Inl m \<Rightarrow> Inl m
      | Inr (normalized, parts) \<Rightarrow>
          (case ancestors_problem fs parts (exists_at fs resolves parts \<or> entry_at fs parts = Some Symlink) of
             Some m \<Rightarrow> Inl m
           | None \<Rightarrow>
               (case containment_problem fs resolves parts of Some m \<Rightarrow> Inl m | None \<Rightarrow> Inr normalized)))"

definition comparison_key :: "bool \<Rightarrow> string \<Rightarrow> string" where
  \<comment> \<open>\<open>nt\<close> says whether \<open>os.name == "nt"\<close>\<close>
  "comparison_key nt path = (if nt then casefold path else path)"

fun repr_char :: "char \<Rightarrow> char \<Rightarrow> string" where
  "repr_char q c =
     (if c = q \<or> c = CHR 0x5C then [CHR 0x5C, c]
      else if c = CHR 0x0A then [CHR 0x5C, CHR ''n'']
      else if c = CHR 0x0D then [CHR 0x5C, CHR ''r'']
      else if c = CHR 0x09 then [CHR 0x5C, CHR ''t'']
      else if control_char c
      then [CHR 0x5C, CHR ''x'',
            (''0123456789abcdef'' ! (char_code c div 16)),
            (''0123456789abcdef'' ! (char_code c mod 16))]
      else [c])"

definition py_repr :: "string \<Rightarrow> string" where
  "py_repr s =
     (let q = (if CHR 0x27 \<in> set s \<and> CHR 0x22 \<notin> set s then CHR 0x22 else CHR 0x27)
      in [q] @ concat (map (repr_char q) s) @ [q])"

definition register_path ::
  "bool \<Rightarrow> (string \<Rightarrow> string option) \<Rightarrow> string \<Rightarrow> string + (string \<Rightarrow> string option)" where
  "register_path nt seen path =
     (let key = comparison_key nt path in
      case seen key of
        Some previous \<Rightarrow>
          Inl (''scope contains duplicate or case/Unicode-equivalent paths: '' @
            py_repr previous @ '', '' @ py_repr path)
      | None \<Rightarrow> Inr (seen(key \<mapsto> path)))"

fun scope_existing ::
  "bool \<Rightarrow> file_tree \<Rightarrow> (string \<Rightarrow> string option) \<Rightarrow> string list \<Rightarrow>
     string + ((string \<Rightarrow> string option) \<times> string list)" where
  "scope_existing nt fs seen [] = Inr (seen, [])"
| "scope_existing nt fs seen (c # cs) =
     (case validate_existing fs c of
        Inl m \<Rightarrow> Inl m
      | Inr path \<Rightarrow>
          (case register_path nt seen path of
             Inl m \<Rightarrow> Inl m
           | Inr seen' \<Rightarrow>
               (case scope_existing nt fs seen' cs of
                  Inl m \<Rightarrow> Inl m
                | Inr (seen'', ps) \<Rightarrow> Inr (seen'', path # ps))))"

fun scope_new ::
  "bool \<Rightarrow> file_tree \<Rightarrow> (string \<Rightarrow> string option) \<Rightarrow> string list \<Rightarrow>
     string + ((string \<Rightarrow> string option) \<times> string list)" where
  "scope_new nt fs seen [] = Inr (seen, [])"
| "scope_new nt fs seen (c # cs) =
     (case validate_shape False False c of
        Inl m \<Rightarrow> Inl m
      | Inr (normalized, _) \<Rightarrow>
          (case register_path nt seen normalized of
             Inl m \<Rightarrow> Inl m
           | Inr seen' \<Rightarrow>
               (case validate_new fs normalized of
                  Inl m \<Rightarrow> Inl m
                | Inr path \<Rightarrow>
                    (case scope_new nt fs seen' cs of
                       Inl m \<Rightarrow> Inl m
                     | Inr (seen'', ps) \<Rightarrow> Inr (seen'', path # ps)))))"

definition validate_scope ::
  "bool \<Rightarrow> file_tree \<Rightarrow> nat \<Rightarrow> string list \<Rightarrow> string list \<Rightarrow> string + ValidatedScope" where
  "validate_scope nt fs max_scope_files existing new =
     (if max_scope_files < length existing + length new
      then Inl (''effective scope exceeds '' @ nat_str max_scope_files @ '' exact files'')
      else case scope_existing nt fs Map.empty existing of
        Inl m \<Rightarrow> Inl m
      | Inr (seen, ex) \<Rightarrow>
          (case scope_new nt fs seen new of
             Inl m \<Rightarrow> Inl m
           | Inr (_, nw) \<Rightarrow>
               Inr \<lparr> existing_files = sort_key (comparison_key nt) ex,
                     new_files = sort_key (comparison_key nt) nw \<rparr>))"

subsection \<open>Accepted shapes\<close>

lemma first_Some_None [simp]: "first_Some xs = None \<longleftrightarrow> (\<forall>x \<in> set xs. x = None)"
  by (induction xs rule: first_Some.induct) auto

lemma validate_shape_InrD:
  assumes "validate_shape a b s = Inr (n, ps)"
  shows "char_problem s = None" and "ps = posix_parts s" and "ps \<noteq> []"
    and "\<forall>p \<in> set ps. p \<noteq> [] \<and> p \<noteq> ''.'' \<and> p \<noteq> ''..'' \<and> part_problem p = None"
    and "policy_problem a b s ps = None" and "n = join_with ''/'' ps"
  using assms unfolding validate_shape_def Let_def
  by (auto split: option.splits if_splits simp: list_ex_iff)

lemma validate_shape_unrestricted:
  assumes "validate_shape False b s = Inr (n, ps)"
  shows "\<not> is_restricted_relative_path s" and "relative_parts s = Some ps"
    and "restricted_parts ps = False"
proof -
  note D = validate_shape_InrD [OF assms]
  show r: "\<not> is_restricted_relative_path s"
    using D(5) by (auto simp: policy_problem_def Let_def split: if_splits)
  then obtain qs where qs: "relative_parts s = Some qs"
    by (auto simp: is_restricted_relative_path_def split: option.splits)
  moreover have "qs = posix_parts s"
    using qs unfolding relative_parts_def Let_def by (auto split: if_splits)
  ultimately show "relative_parts s = Some ps" using D(2) by simp
  then show "restricted_parts ps = False"
    using r by (simp add: is_restricted_relative_path_def)
qed

lemma length_join_filter:
  "length (join_with ''/'' (filter P ws)) \<le> length (join_with ''/'' ws)"
proof (induction ws rule: induct_list012)
  case (3 p q ws)
  have cons: "length (join_with ''/'' (p # xs)) \<le> length p + 1 + length (join_with ''/'' xs)" for xs
    by (cases xs) auto
  show ?case
    using 3(2) cons [of "filter P (q # ws)"] by auto
qed auto

lemma length_posix_tail: "length (join_with ''/'' (posix_tail s)) \<le> length s"
  using length_join_filter [of "\<lambda>w. w \<noteq> [] \<and> w \<noteq> ''.''" "split_on CHR ''/'' s"]
  by (simp add: posix_tail_def join_split_on)

lemma shape_unchanged:
  assumes "validate_shape False b s = Inr (n, ps)"
  shows "validate_shape False b n = Inr (n, ps)"
proof -
  note D = validate_shape_InrD [OF assms] and U = validate_shape_unrestricted [OF assms]
  note R = relative_parts_SomeD [OF U(2)]
  note slash = startswith_slash_join [OF R(2,3)] and chars = join_chars [OF R(3)]
  have n: "n = join_with ''/'' ps" by (rule D(6))
  have parts: "posix_parts n = ps"
    using posix_tail_join [OF R(2,3)] slash by (simp add: n posix_parts_def posix_root_def)
  have "n \<noteq> []" using parts D(3) by (auto simp: posix_parts_def posix_root_def posix_tail_def)
  moreover have "length n \<le> 1024"
    using length_posix_tail [of s] D(1) R(1) by (auto simp: n char_problem_def split: if_splits)
  moreover have "\<not> list_ex control_char n" "CHR 0x5C \<notin> set n" "\<not> list_ex (\<lambda>c. c \<in> set GLOB_CHARS) n"
    using chars by (auto simp: n list_ex_iff)
  moreover have "\<not> has_drive n" using has_drive_nth [of n] chars(2) n by blast
  ultimately have "char_problem n = None" using slash by (simp add: char_problem_def n)
  moreover have "policy_problem False b n ps = None"
    using D(5) unfolding policy_problem_def n restricted_join [OF U(2)] .
  moreover have "\<not> list_ex (\<lambda>p. p \<in> {[], ''.'', ''..''}) ps" using D(4) by (auto simp: list_ex_iff)
  moreover have "first_Some (map part_problem ps) = None" using D(4) by simp
  ultimately show ?thesis
    unfolding validate_shape_def Let_def parts n [symmetric]
    using D(3) by (simp only: option.simps if_False simp_thms)
qed

subsection \<open>Accepted scopes\<close>

definition unlinked :: "file_tree \<Rightarrow> string list \<Rightarrow> bool" where
  \<comment> \<open>no proper prefix of the path is a symbolic link or a reparse point\<close>
  "unlinked fs parts \<longleftrightarrow> (\<forall>n < length parts. \<not> linked_entry (fs (take n parts)))"

definition granted_existing :: "file_tree \<Rightarrow> string \<Rightarrow> bool" where
  "granted_existing fs f \<longleftrightarrow>
     (\<exists>ps k. relative_parts f = Some ps \<and> f = join_with ''/'' ps \<and> \<not> is_restricted_relative_path f \<and>
        unlinked fs ps \<and> fs ps = Some (Regular_File k) \<and> k \<le> 1)"

definition granted_new :: "file_tree \<Rightarrow> string \<Rightarrow> bool" where
  \<comment> \<open>the path leaves the tree at a directory that is reached without a link; from there on nothing is present\<close>
  "granted_new fs f \<longleftrightarrow>
     (\<exists>ps k. relative_parts f = Some ps \<and> f = join_with ''/'' ps \<and> \<not> is_restricted_relative_path f \<and>
        k < length ps \<and> unlinked fs (take k ps) \<and> fs (take k ps) = Some Directory \<and>
        (\<forall>m. k < m \<and> m \<le> length ps \<longrightarrow> \<not> present fs (take m ps)))"

lemma link_problem_None [simp]: "link_problem l e = None \<longleftrightarrow> \<not> linked_entry e"
  by (auto simp: link_problem_def linked_entry_def split: option.splits fs_entry.splits)

lemma entry_at_Some: "entry_at fs ps = Some e \<longleftrightarrow>
    fs ps = Some e \<and> (\<forall>n < length ps. fs (take n ps) \<noteq> Some (Reparse_Point False))"
  by (auto simp: entry_at_def list_ex_iff)

lemma entry_at_prefix:
  assumes "entry_at fs ps \<noteq> None" and "n < length ps"
  shows "entry_at fs (take n ps) = fs (take n ps)" and "fs (take n ps) \<noteq> Some (Reparse_Point False)"
  using assms by (auto simp: entry_at_def list_ex_iff min_def split: if_splits)

lemma ancestors_Some:
  assumes "ancestors_problem fs ps t = None"
  shows "\<not> linked_entry (fs [])"
    and "n \<in> set [1 ..< (if t then length ps + 1 else length ps)] \<Longrightarrow> present fs (take n ps) \<Longrightarrow>
      \<not> linked_entry (entry_at fs (take n ps))"
proof -
  let ?ns = "[1 ..< (if t then length ps + 1 else length ps)]"
  have n: "(if present fs (take n ps) then link_problem (join_with ''/'' ps) (entry_at fs (take n ps)) else None) = None"
    if "n \<in> set ?ns" for n
    using assms that unfolding ancestors_problem_def first_Some_None by (simp only: set_simps set_map) blast
  show "\<not> linked_entry (fs [])" using assms unfolding ancestors_problem_def by (simp only: first_Some_None) simp
  show "\<not> linked_entry (entry_at fs (take n ps))" if "n \<in> set ?ns" "present fs (take n ps)"
    using n [OF that(1)] that(2) by simp
qed

lemma ancestors_unlinked:
  assumes "ancestors_problem fs ps t = None" and "entry_at fs (take k ps) \<noteq> None" and "k \<le> length ps"
  shows "unlinked fs (take k ps)"
  unfolding unlinked_def
proof (intro allI impI notI)
  fix n
  assume n: "n < length (take k ps)" and l: "linked_entry (fs (take n (take k ps)))"
  have e: "entry_at fs (take n ps) = fs (take n ps)" "fs (take n ps) \<noteq> Some (Reparse_Point False)"
    using entry_at_prefix [OF assms(2), of n] n by (simp_all add: min_def split: if_splits)
  have "n < k" using n by simp
  then have m: "linked_entry (fs (take n ps))" using l by (simp add: min_def)
  then have "present fs (take n ps)" using e by (cases "fs (take n ps)") (auto simp: present_def linked_entry_def)
  moreover have "n = 0 \<or> n \<in> set [1 ..< (if t then length ps + 1 else length ps)]" using n assms(3) by auto
  ultimately show False
    using m e(1) ancestors_Some(1) [OF assms(1)] ancestors_Some(2) [OF assms(1), of n] by fastforce
qed

lemma nearest_existing_take:
  "\<exists>k \<le> length ps. nearest_existing fs ps = take k ps \<and> (\<forall>m. k < m \<and> m \<le> length ps \<longrightarrow> \<not> present fs (take m ps))"
proof (induction fs ps rule: nearest_existing.induct)
  case (1 fs ps)
  show ?case
  proof (cases "ps = [] \<or> present fs ps")
    case True
    then show ?thesis by (intro exI [of _ "length ps"]) (auto simp: nearest_existing.simps)
  next
    case False
    with 1 obtain k where k: "k \<le> length (butlast ps)" "nearest_existing fs (butlast ps) = take k (butlast ps)"
      "\<forall>m. k < m \<and> m \<le> length (butlast ps) \<longrightarrow> \<not> present fs (take m (butlast ps))"
      by blast
    have t: "take m (butlast ps) = take m ps" if "m \<le> length ps - 1" for m
      using that by (simp add: butlast_conv_take min_def)
    have "\<not> present fs (take m ps)" if "k < m" "m \<le> length ps" for m
      using that k(3) t [of m] False by (cases "m = length ps") auto
    moreover have "nearest_existing fs ps = take k ps"
      using k(1,2) t [of k] False by (subst nearest_existing.simps) simp
    ultimately show ?thesis using k(1) by (intro exI [of _ k]) auto
  qed
qed

lemma shape_join:
  assumes "validate_shape False b s = Inr (n, ps)"
  shows "relative_parts n = Some ps" and "n = join_with ''/'' ps"
    and "\<not> is_restricted_relative_path n"
  using validate_shape_unrestricted [OF shape_unchanged [OF assms]] validate_shape_InrD(6) [OF assms]
  by auto

lemma validate_existing_granted:
  assumes "validate_existing fs c = Inr f"
  shows "granted_existing fs f"
proof -
  from assms obtain ps k where s: "validate_shape False False c = Inr (f, ps)"
    and a: "ancestors_problem fs ps True = None" and e: "entry_at fs ps = Some (Regular_File k)" "\<not> 1 < k"
    unfolding validate_existing_def
    by (auto split: sum.splits option.splits fs_entry.splits if_splits)
  have "unlinked fs ps" using ancestors_unlinked [OF a, of "length ps"] e(1) by simp
  then show ?thesis
    using shape_join [OF s] e unfolding granted_existing_def entry_at_Some by force
qed

lemma validate_new_granted:
  assumes "validate_new fs c = Inr f"
  shows "granted_new fs f"
proof -
  from assms obtain ps where s: "validate_shape False False c = Inr (f, ps)"
    and a: "ancestors_problem fs ps False = None" and p: "\<not> present fs ps"
    and d: "entry_at fs (nearest_existing fs (butlast ps)) = Some Directory"
    unfolding validate_new_def Let_def
    by (auto split: sum.splits option.splits if_splits)
  have ne: "ps \<noteq> []" using validate_shape_InrD(3) [OF s] .
  obtain k where k: "k \<le> length (butlast ps)" "nearest_existing fs (butlast ps) = take k (butlast ps)"
    "\<forall>m. k < m \<and> m \<le> length (butlast ps) \<longrightarrow> \<not> present fs (take m (butlast ps))"
    using nearest_existing_take by blast
  have t: "take m (butlast ps) = take m ps" if "m \<le> length ps - 1" for m
    using that by (simp add: butlast_conv_take min_def)
  have "entry_at fs (take k ps) = Some Directory" using d k(1,2) t [of k] by simp
  moreover from this have "unlinked fs (take k ps)" using ancestors_unlinked [OF a, of k] k(1) by simp
  moreover have "\<not> present fs (take m ps)" if "k < m" "m \<le> length ps" for m
    using that k(3) t [of m] p by (cases "m = length ps") auto
  moreover have "k < length ps" using k(1) ne by (cases ps rule: rev_cases) auto
  ultimately show ?thesis
    using shape_join [OF s] unfolding granted_new_def entry_at_Some by blast
qed

lemma register_path_Inr:
  "register_path nt seen p = Inr seen' \<longleftrightarrow>
     comparison_key nt p \<notin> dom seen \<and> seen' = seen(comparison_key nt p \<mapsto> p)"
  by (auto simp: register_path_def Let_def split: option.splits)

lemma register_path_dom:
  assumes "register_path nt seen p = Inr seen'"
  shows "comparison_key nt p \<notin> dom seen" and "dom seen' = insert (comparison_key nt p) (dom seen)"
  using assms by (auto simp: register_path_Inr)

lemma scope_existing_spec:
  "scope_existing nt fs seen cs = Inr (seen', ps) \<Longrightarrow>
     length ps = length cs \<and> (\<forall>p \<in> set ps. granted_existing fs p) \<and>
     distinct (map (comparison_key nt) ps) \<and> dom seen \<inter> comparison_key nt ` set ps = {} \<and>
     dom seen' = dom seen \<union> comparison_key nt ` set ps"
proof (induction cs arbitrary: seen ps)
  case (Cons c cs)
  from Cons.prems obtain p s2 qs where p: "validate_existing fs c = Inr p"
    and r: "register_path nt seen p = Inr s2" and qs: "scope_existing nt fs s2 cs = Inr (seen', qs)"
    and ps: "ps = p # qs"
    by (auto split: sum.splits)
  show ?case
    using Cons.IH [OF qs] validate_existing_granted [OF p] register_path_dom [OF r]
    by (auto simp: ps)
qed simp

lemma scope_new_spec:
  "scope_new nt fs seen cs = Inr (seen', ps) \<Longrightarrow>
     length ps = length cs \<and> (\<forall>p \<in> set ps. granted_new fs p) \<and>
     distinct (map (comparison_key nt) ps) \<and> dom seen \<inter> comparison_key nt ` set ps = {} \<and>
     dom seen' = dom seen \<union> comparison_key nt ` set ps"
proof (induction cs arbitrary: seen ps)
  case (Cons c cs)
  from Cons.prems obtain n xs p s2 qs where n: "validate_shape False False c = Inr (n, xs)"
    and p: "validate_new fs n = Inr p" and r: "register_path nt seen n = Inr s2"
    and qs: "scope_new nt fs s2 cs = Inr (seen', qs)" and ps: "ps = p # qs"
    by (auto split: sum.splits)
  have "p = n"
    using p shape_unchanged [OF n] unfolding validate_new_def Let_def
    by (auto split: option.splits if_splits)
  then show ?case
    using Cons.IH [OF qs] validate_new_granted [OF p] register_path_dom [OF r] \<open>p = n\<close>
    by (auto simp: ps)
qed simp

lemma validate_scope_spec:
  assumes "validate_scope nt fs m ex nw = Inr sc"
  shows "(\<forall>f \<in> set (existing_files sc). granted_existing fs f) \<and>
    (\<forall>f \<in> set (new_files sc). granted_new fs f) \<and>
    distinct (map (comparison_key nt) (all_files sc)) \<and> length (all_files sc) \<le> m"
proof -
  from assms obtain seen es seen' ns where
      len: "length ex + length nw \<le> m"
    and es: "scope_existing nt fs Map.empty ex = Inr (seen, es)"
    and ns: "scope_new nt fs seen nw = Inr (seen', ns)"
    and sc: "sc = \<lparr>existing_files = sort_key (comparison_key nt) es,
                   new_files = sort_key (comparison_key nt) ns\<rparr>"
    unfolding validate_scope_def by (auto split: if_splits sum.splits)
  note E = scope_existing_spec [OF es] and N = scope_new_spec [OF ns]
  have keys: "distinct (map f (sort_key g xs)) = distinct (map f xs)" for f g :: "string \<Rightarrow> string" and xs
    by (auto simp: distinct_map)
  have "comparison_key nt ` set es \<inter> comparison_key nt ` set ns = {}" using E N by simp
  then show ?thesis using E N len by (auto simp: sc all_files_def keys)
qed

text \<open>
  C5: a scope that \<open>PathPolicy.validate_scope\<close> accepts grants only canonical relative names: no
  entry is restricted (secrets, keys, runtime metadata); every existing entry is a regular file with
  a single hard link, reached through no symbolic link or reparse point; every new entry leaves the
  tree at a directory that is reached through no symbolic link or reparse point, and nothing on the
  rest of its path is present, neither as an entry that exists nor as a symbolic link (a reparse
  point that leads nowhere is neither); no two entries compare equal on the host, and the entries
  are at most \<open>max_scope_files\<close>.
\<close>

theorem accepted_scope_is_safe:
  assumes "validate_scope nt fs m ex nw = Inr sc"
  shows "(\<forall>f \<in> set (existing_files sc). granted_existing fs f) \<and>
    (\<forall>f \<in> set (new_files sc). granted_new fs f) \<and>
    distinct (map (comparison_key nt) (all_files sc)) \<and> length (all_files sc) \<le> m"
  using validate_scope_spec [OF assms] .

definition sample_tree :: file_tree where
  "sample_tree p =
     (if p = [] then Some Directory else if p = [''a''] then Some (Regular_File 1) else None)"

lemma accepted_scope_is_safe_witness:
  "validate_scope True sample_tree 2 [''./a''] [''b''] =
     Inr \<lparr>existing_files = [''a''], new_files = [''b'']\<rparr> \<and>
   granted_existing sample_tree ''a'' \<and> granted_new sample_tree ''b''"
proof -
  have *: "validate_scope True sample_tree 2 [''./a''] [''b''] =
     Inr \<lparr>existing_files = [''a''], new_files = [''b'']\<rparr>"
    by code_simp
  show ?thesis using * accepted_scope_is_safe [OF *] by simp
qed

definition sample_junction :: file_tree where
  "sample_junction p = (if p = [] then Some Directory else if p = [''j''] then Some (Reparse_Point False) else None)"

text \<open>
  A junction whose target does not exist passes both as a new file and on the way to one, although
  the policy means to refuse reparse points; one whose target exists is refused.
\<close>

lemma dangling_junctions_are_accepted:
  "validate_scope True sample_junction 2 [] [''j''] = Inr \<lparr>existing_files = [], new_files = [''j'']\<rparr> \<and>
   validate_scope True sample_junction 2 [] [''j/a''] = Inr \<lparr>existing_files = [], new_files = [''j/a'']\<rparr> \<and>
   validate_scope True (sample_junction([''j''] \<mapsto> Reparse_Point True)) 2 [] [''j/a''] =
     Inl ''reparse/junction paths are not allowed: j/a''"
  by code_simp

text \<open>
  Validating a path's shape is idempotent: the name \<open>_validate_shape\<close> returns has the same
  components and is accepted unchanged, whatever the caller's casing, repeated separators or
  \<open>.\<close> components were.
\<close>

theorem shape_is_canonical:
  assumes "validate_shape False b s = Inr (n, ps)"
  shows "validate_shape False b n = Inr (n, ps) \<and> n = join_with ''/'' ps \<and> relative_parts n = Some ps"
  using shape_unchanged [OF assms] shape_join [OF assms] by blast

lemma shape_is_canonical_witness:
  "validate_shape False False ''b//./a'' = Inr (''b/a'', [''b'', ''a'']) \<and>
   validate_shape False False ''b/a'' = Inr (''b/a'', [''b'', ''a''])"
proof -
  have *: "validate_shape False False ''b//./a'' = Inr (''b/a'', [''b'', ''a''])"
    by code_simp
  show ?thesis using * shape_is_canonical [OF *] by blast
qed

text \<open>
  The two gates disagree on reserved device names. \<open>path_rules.relative_parts\<close> tests the
  name before the last dot, \<open>PathPolicy\<close> the name before the first, so \<open>con.a.json\<close> is an
  eligible resource for a project-configuration grant although \<open>PathPolicy\<close> refuses it as the
  device \<open>CON\<close>.
\<close>

theorem capability_gate_admits_a_device_name:
  "is_eligible_resource EDIT_PROJECT_CONFIG ''con.a.json'' \<and>
   validate_shape False False ''con.a.json'' = Inl ''reserved Windows path component: con.a.json''"
  by code_simp

end
