(* ===== verification/Canonical_Json.thy ===== *)
theory Canonical_Json
  imports Protocol
begin

text \<open>
  \<open>canonical_json\<close> of \<open>protocol/common.py\<close>: what \<open>json.dumps\<close> with sorted keys, compact
  separators and \<open>ensure_ascii=False\<close> writes for a dumped model, and the dump
  (\<open>model_dump(mode="json")\<close>) of the graph models. Hash values are computed from these bytes;
  the theory shows that the bytes determine the value.
\<close>

datatype json =
    JNull
  | JBool bool
  | JInt int
  | JStr string
  | JArr "json list"
  | JObj "(string \<times> json) list"

subsection \<open>Text\<close>

definition hex_digit :: "nat \<Rightarrow> char" where
  "hex_digit n = ''0123456789abcdef'' ! n"

definition escape_char :: "char \<Rightarrow> string" where
  \<comment> \<open>\<open>ESCAPE_DCT\<close> of the standard library's encoder\<close>
  "escape_char c =
     (if c = CHR 0x22 then [CHR 0x5C, CHR 0x22]
      else if c = CHR 0x5C then [CHR 0x5C, CHR 0x5C]
      else if c = CHR 0x0A then [CHR 0x5C, CHR ''n'']
      else if c = CHR 0x0D then [CHR 0x5C, CHR ''r'']
      else if c = CHR 0x09 then [CHR 0x5C, CHR ''t'']
      else if c = CHR 0x08 then [CHR 0x5C, CHR ''b'']
      else if c = CHR 0x0C then [CHR 0x5C, CHR ''f'']
      else if char_code c < 32
      then [CHR 0x5C, CHR ''u'', CHR ''0'', CHR ''0'',
            hex_digit (char_code c div 16), hex_digit (char_code c mod 16)]
      else [c])"

definition quoted :: "string \<Rightarrow> string" where
  "quoted s = CHR 0x22 # concat (map escape_char s) @ [CHR 0x22]"

definition int_str :: "int \<Rightarrow> string" where
  "int_str i = (if i < 0 then CHR ''-'' # nat_str (nat (- i)) else nat_str (nat i))"

fun members :: "string list \<Rightarrow> string" where
  \<comment> \<open>the elements of an array or object after the first, with the closing bracket to follow\<close>
  "members [] = []"
| "members (s # ss) = CHR '','' # s @ members ss"

fun sequence :: "string list \<Rightarrow> string" where
  "sequence [] = []"
| "sequence (s # ss) = s @ members ss"

fun render :: "json \<Rightarrow> string" where
  "render JNull = ''null''"
| "render (JBool b) = (if b then ''true'' else ''false'')"
| "render (JInt i) = int_str i"
| "render (JStr s) = quoted s"
| "render (JArr js) = CHR ''['' # sequence (map render js) @ '']''"
| "render (JObj kvs) =
     CHR ''{'' # sequence (map (\<lambda>kv. quoted (fst kv) @ CHR '':'' # render (snd kv)) kvs) @ ''}''"

fun sort_keys :: "json \<Rightarrow> json" where
  "sort_keys (JArr js) = JArr (map sort_keys js)"
| "sort_keys (JObj kvs) = JObj (sort_key fst (map (\<lambda>kv. (fst kv, sort_keys (snd kv))) kvs))"
| "sort_keys j = j"

definition dumps :: "json \<Rightarrow> string" where
  "dumps j = render (sort_keys j)"

subsection \<open>The dump of a graph\<close>

abbreviation opt_json :: "('a \<Rightarrow> json) \<Rightarrow> 'a option \<Rightarrow> json" where
  "opt_json f x \<equiv> (case x of None \<Rightarrow> JNull | Some y \<Rightarrow> f y)"

abbreviation strs_json :: "string list \<Rightarrow> json" where
  "strs_json xs \<equiv> JArr (map JStr xs)"

abbreviation argvs_json :: "string list list \<Rightarrow> json" where
  "argvs_json xs \<equiv> JArr (map strs_json xs)"

definition recommendation_json :: "AgentRecommendation \<Rightarrow> json" where
  "recommendation_json r =
     JObj [(''agent_id'', JStr (rec_agent_id r)), (''score'', JInt (rec_score r)),
           (''reason'', JStr (rec_reason r))]"

fun if_value_json :: "if_value \<Rightarrow> json" where
  "if_value_json (IfStr s) = JStr s"
| "if_value_json (IfBool b) = JBool b"
| "if_value_json (IfList xs) = strs_json xs"

definition condition_json :: "IfCondition \<Rightarrow> json" where
  "condition_json c =
     JObj [(''upstream_node_id'', JStr (upstream_node_id c)), (''field'', JStr (if_field c)),
           (''operator'', JStr (IfOperator_value (operator c))),
           (''value'', opt_json if_value_json (if_value c))]"

definition node_json :: "WorkflowNode \<Rightarrow> json" where
  "node_json n =
     JObj [(''id'', JStr (node_id n)),
       (''node_type'', JStr (NodeType_value (node_type n))),
       (''task_kind'', opt_json (\<lambda>k. JStr (TaskKind_value k)) (task_kind n)),
       (''title'', JStr (title n)),
       (''description'', opt_json JStr (description n)),
       (''instruction'', opt_json JStr (instruction n)),
       (''assigned_agent'', opt_json JStr (assigned_agent n)),
       (''assignment_mode'', JStr (AssignmentMode_value (assignment_mode n))),
       (''resolved_agent_id'', opt_json JStr (resolved_agent_id n)),
       (''resolved_agent_spec_sha256'', opt_json JStr (resolved_agent_spec_sha256 n)),
       (''recommended_agents'', JArr (map recommendation_json (recommended_agents n))),
       (''allowed_files_candidate'', strs_json (allowed_files_candidate n)),
       (''new_files_candidate'', strs_json (new_files_candidate n)),
       (''allowed_commands_candidate'', argvs_json (allowed_commands_candidate n)),
       (''effective_allowed_files'', opt_json strs_json (effective_allowed_files n)),
       (''effective_new_files'', opt_json strs_json (effective_new_files n)),
       (''effective_allowed_commands'', opt_json argvs_json (effective_allowed_commands n)),
       (''policy_risk_floor'', opt_json (\<lambda>r. JStr (RiskLevel_value r)) (policy_risk_floor n)),
       (''requires_changeset_approval'', opt_json JBool (requires_changeset_approval n)),
       (''test_kind'', opt_json (\<lambda>k. JStr (TestKind_value k)) (test_kind n)),
       (''test_argv'', opt_json strs_json (test_argv n)),
       (''if_condition'', opt_json condition_json (if_condition n)),
       (''risk_level_hint'', JStr (RiskLevel_value (risk_level_hint n))),
       (''requires_write'', JBool (requires_write n)),
       (''system_managed'', JBool (system_managed n)),
       (''source_node_id'', opt_json JStr (source_node_id n)),
       (''system_rule_id'', opt_json JStr (system_rule_id n))]"

definition edge_json :: "WorkflowEdge \<Rightarrow> json" where
  "edge_json e =
     JObj [(''id'', JStr (edge_id e)), (''from_node'', JStr (from_node e)),
           (''to_node'', JStr (to_node e)),
           (''condition'', JStr (EdgeCondition_value (condition e))),
           (''system_managed'', JBool (edge_system_managed e))]"

definition author_json :: "AuthorGraph \<Rightarrow> json" where
  "author_json g =
     JObj [(''schema_version'', JStr (schema_version g)),
           (''nodes'', JArr (map node_json (nodes g))),
           (''edges'', JArr (map edge_json (edges g)))]"

definition compiled_json :: "CompiledGraph \<Rightarrow> json" where
  "compiled_json g =
     JObj [(''schema_version'', JStr (compiled_schema_version g)),
           (''source_author_hash'', JStr (source_author_hash g)),
           (''integration_base_commit'', JStr (integration_base_commit g)),
           (''policy_version'', JStr (policy_version g)),
           (''agent_catalog_snapshot_hash'', JStr (agent_catalog_snapshot_hash g)),
           (''nodes'', JArr (map node_json (compiled_nodes g))),
           (''edges'', JArr (map edge_json (compiled_edges g)))]"

definition canonical_author :: "AuthorGraph \<Rightarrow> string" where
  \<comment> \<open>\<open>canonical_json(graph)\<close> of an \<open>AuthorGraph\<close>\<close>
  "canonical_author g = dumps (author_json g)"

definition canonical_compiled :: "CompiledGraph \<Rightarrow> string" where
  "canonical_compiled g = dumps (compiled_json g)"

subsection \<open>Unique readability\<close>

definition hex_value :: "char \<Rightarrow> nat" where
  "hex_value c = (if is_digit c then char_code c - 48 else char_code c - 87)"

fun unescape :: "string \<Rightarrow> char \<times> string" where
  \<comment> \<open>reads one escaped character back\<close>
  "unescape (c # d # s) =
     (if c \<noteq> CHR 0x5C then (c, d # s)
      else if d = CHR ''n'' then (CHR 0x0A, s)
      else if d = CHR ''r'' then (CHR 0x0D, s)
      else if d = CHR ''t'' then (CHR 0x09, s)
      else if d = CHR ''b'' then (CHR 0x08, s)
      else if d = CHR ''f'' then (CHR 0x0C, s)
      else if d = CHR ''u''
      then (char_of (16 * hex_value (s ! 2) + hex_value (s ! 3)), drop 4 s)
      else (d, s))"
| "unescape (c # []) = (c, [])"
| "unescape [] = (CHR 0x00, [])"

lemma hex_value_digit: "n < 16 \<Longrightarrow> hex_value (hex_digit n) = n"
proof -
  assume "n < 16"
  then have "n \<in> set [0 ..< 16]" by simp
  moreover have "\<forall>n \<in> set [0 ..< 16]. hex_value (hex_digit n) = n"
    by code_simp
  ultimately show ?thesis by blast
qed

lemma unescape_char: "unescape (escape_char c @ x) = (c, x)"
proof (cases "char_code c < 32")
  case True
  have "char_code c div 16 < 16" "char_code c mod 16 < 16" using True by auto
  then show ?thesis using True
    by (cases x) (simp_all add: escape_char_def hex_value_digit)
next
  case False
  then show ?thesis by (cases x) (simp_all add: escape_char_def)
qed

lemma escape_char_inject: "escape_char c @ x = escape_char d @ y \<Longrightarrow> c = d \<and> x = y"
  by (metis Pair_inject unescape_char)

lemma escape_char_head: "\<exists>d ds. escape_char c = d # ds \<and> d \<noteq> CHR 0x22"
proof -
  have "escape_char c \<noteq> [] \<and> hd (escape_char c) \<noteq> CHR 0x22"
    by (simp only: escape_char_def split: if_split) simp
  then show ?thesis by (cases "escape_char c") auto
qed

lemma escaped_inject:
  "concat (map escape_char s) @ CHR 0x22 # x = concat (map escape_char t) @ CHR 0x22 # y \<Longrightarrow>
     s = t \<and> x = y"
proof (induction s arbitrary: t)
  case Nil
  then show ?case using escape_char_head [of "hd t"] by (cases t) auto
next
  case (Cons c s)
  show ?case
  proof (cases t)
    case Nil
    then show ?thesis using Cons.prems escape_char_head [of c] by auto
  next
    case t: (Cons d t')
    have "c = d \<and> concat (map escape_char s) @ CHR 0x22 # x = concat (map escape_char t') @ CHR 0x22 # y"
      using Cons.prems unfolding t by (intro escape_char_inject) simp
    then show ?thesis using Cons.IH t by blast
  qed
qed

lemma quoted_inject: "quoted s @ x = quoted t @ y \<longleftrightarrow> s = t \<and> x = y"
  using escaped_inject [of s x t y] by (auto simp: quoted_def)

definition delimited :: "string \<Rightarrow> bool" where
  \<comment> \<open>what follows a value in a document does not start with a digit\<close>
  "delimited x \<longleftrightarrow> (case x of [] \<Rightarrow> True | c # _ \<Rightarrow> \<not> is_digit c)"

lemma nat_str_prefix:
  assumes "nat_str m @ x = nat_str n @ y" "delimited x" "delimited y"
  shows "m = n \<and> x = y"
proof -
  have *: "takeWhile is_digit (nat_str k @ z) = nat_str k" if "delimited z" for k z
  proof -
    have "takeWhile is_digit z = []" using that by (cases z) (auto simp: delimited_def)
    then show ?thesis using nat_str_digits by (simp add: takeWhile_append2)
  qed
  then have "nat_str m = nat_str n" using assms by metis
  then show ?thesis using assms by simp
qed

lemma nat_str_head: "\<exists>d ds. nat_str n = d # ds \<and> is_digit d"
  using nat_str_digits [of n] by (cases "nat_str n") auto

lemma int_str_prefix:
  assumes "int_str i @ x = int_str j @ y" "delimited x" "delimited y"
  shows "i = j \<and> x = y"
proof -
  have minus: "\<not> is_digit CHR ''-''" by (simp add: is_digit_def)
  have head: "(hd (int_str k @ z) = CHR ''-'') = (k < 0)" for k z
    using nat_str_head [of "nat k"] minus by (auto simp: int_str_def)
  have "(i < 0) = (j < 0)" using assms(1) head by metis
  then show ?thesis
    using assms nat_str_prefix [of "nat i" x "nat j" y] nat_str_prefix [of "nat (- i)" x "nat (- j)" y]
    by (cases "i < 0") (simp_all add: int_str_def eq_nat_nat_iff)
qed

definition readable :: "('a \<Rightarrow> string) \<Rightarrow> 'a \<Rightarrow> bool" where
  \<comment> \<open>the text of this value can be read off a document it starts\<close>
  "readable f a \<longleftrightarrow>
     (\<forall>b x y. f a @ x = f b @ y \<longrightarrow> delimited x \<longrightarrow> delimited y \<longrightarrow> a = b \<and> x = y)"

lemma readableD:
  "readable f a \<Longrightarrow> f a @ x = f b @ y \<Longrightarrow> delimited x \<Longrightarrow> delimited y \<Longrightarrow> a = b \<and> x = y"
  by (simp add: readable_def)

lemma delimited_close [simp]:
  "delimited (CHR '']'' # x)" "delimited (CHR ''}'' # x)" "delimited (CHR '','' # x)"
  by (simp_all add: delimited_def is_digit_def)

lemma delimited_members: "delimited (c # x) \<Longrightarrow> delimited (members ss @ c # x)"
  by (cases ss) simp_all

lemma members_inject:
  assumes "\<And>a. a \<in> set as \<Longrightarrow> readable f a" and c: "delimited (c # x)" "delimited (c # y)" "c \<noteq> CHR '',''"
    and "members (map f as) @ c # x = members (map f bs) @ c # y"
  shows "as = bs \<and> x = y"
  using assms(1,5)
proof (induction as arbitrary: bs)
  case Nil
  then show ?case using c(3) by (cases bs) auto
next
  case (Cons a as)
  obtain b bs' where bs: "bs = b # bs'" using Cons.prems(2) c(3) by (cases bs) auto
  have "a = b \<and> members (map f as) @ c # x = members (map f bs') @ c # y"
    using Cons.prems bs c by (intro readableD [of f a]) (auto intro: delimited_members)
  then show ?case using Cons.IH [of bs'] Cons.prems(1) bs by auto
qed

lemma sequence_inject:
  assumes "\<And>a. a \<in> set as \<Longrightarrow> readable f a" and c: "delimited (c # x)" "delimited (c # y)" "c \<noteq> CHR '',''"
    and nc: "\<And>a z. f a @ z \<noteq> c # x" "\<And>a z. f a @ z \<noteq> c # y"
    and eq: "sequence (map f as) @ c # x = sequence (map f bs) @ c # y"
  shows "as = bs \<and> x = y"
proof (cases as)
  case Nil
  then show ?thesis using eq nc by (cases bs) auto
next
  case (Cons a as')
  obtain b bs' where bs: "bs = b # bs'"
    using eq nc(2) [of a "members (map f as') @ c # x"] Cons by (cases bs) auto
  have "a = b \<and> members (map f as') @ c # x = members (map f bs') @ c # y"
    using assms(1) [of a] Cons eq bs c by (intro readableD [of f a]) (auto intro: delimited_members)
  then show ?thesis using members_inject [of as' f c x y bs'] assms(1) Cons bs c by auto
qed

fun shape :: "json \<Rightarrow> nat" where
  "shape JNull = 0" | "shape (JBool _) = 1" | "shape (JInt _) = 2" | "shape (JStr _) = 3"
| "shape (JArr _) = 4" | "shape (JObj _) = 5"

definition head_shape :: "char \<Rightarrow> nat" where
  "head_shape c =
     (if c = CHR ''n'' then 0 else if c = CHR ''t'' \<or> c = CHR ''f'' then 1
      else if c = CHR 0x22 then 3 else if c = CHR ''['' then 4 else if c = CHR ''{'' then 5
      else if c = CHR '']'' \<or> c = CHR ''}'' then 6 else 2)"

lemma head_shape_render: "\<exists>c cs. render j = c # cs \<and> head_shape c = shape j"
proof (cases j)
  case (JInt i)
  have "head_shape d = 2" if d: "is_digit d" for d
  proof -
    have "d \<notin> set ''ntf[{]}'' \<and> d \<noteq> CHR 0x22" using d by (auto simp: is_digit_def)
    then show ?thesis by (simp add: head_shape_def)
  qed
  moreover have "head_shape CHR ''-'' = 2" by (simp add: head_shape_def)
  ultimately show ?thesis
    using nat_str_head [of "nat i"] JInt by (cases "i < 0") (auto simp: int_str_def)
qed (simp_all add: head_shape_def quoted_def)

lemma render_shape: "render a @ x = render b @ y \<Longrightarrow> shape a = shape b"
  using head_shape_render [of a] head_shape_render [of b] by auto

lemma render_not_close: "render a @ z \<noteq> CHR '']'' # x"
  using head_shape_render [of a] by (cases a) (auto simp: head_shape_def)

lemma object_not_close: "(quoted k @ CHR '':'' # v) @ z \<noteq> CHR ''}'' # x"
  by (simp add: quoted_def)

lemma render_readable: "readable render a"
proof (induction a rule: render.induct)
  case 1
  have "c = JNull \<and> x = y" if "render JNull @ x = render c @ y" for c x y
    using that render_shape [OF that] by (cases c) auto
  then show ?case unfolding readable_def by blast
next
  case (2 b)
  have "c = JBool b \<and> x = y" if "render (JBool b) @ x = render c @ y" for c x y
    using that render_shape [OF that] by (cases c) (auto split: if_splits)
  then show ?case unfolding readable_def by blast
next
  case (3 i)
  have "c = JInt i \<and> x = y"
    if "render (JInt i) @ x = render c @ y" "delimited x" "delimited y" for c x y
    using that render_shape [OF that(1)] int_str_prefix [of i x _ y] by (cases c) auto
  then show ?case unfolding readable_def by blast
next
  case (4 s)
  have "c = JStr s \<and> x = y" if "render (JStr s) @ x = render c @ y" for c x y
    using that render_shape [OF that] by (cases c) (auto simp: quoted_inject)
  then show ?case unfolding readable_def by blast
next
  case (5 js)
  have "c = JArr js \<and> x = y" if eq: "render (JArr js) @ x = render c @ y" for c x y
  proof -
    obtain ks where c: "c = JArr ks" using render_shape [OF eq] by (cases c) auto
    have "js = ks \<and> x = y"
      using eq 5 by (intro sequence_inject [of js render "CHR '']''"]) (auto simp: c render_not_close)
    then show ?thesis by (simp add: c)
  qed
  then show ?case unfolding readable_def by blast
next
  case (6 kvs)
  let ?f = "\<lambda>kv. quoted (fst kv) @ CHR '':'' # render (snd kv)"
  have each: "readable ?f kv" if "kv \<in> set kvs" for kv
    unfolding readable_def
    using readableD [OF 6 [OF that]] by (auto simp: quoted_inject prod_eq_iff)
  have "c = JObj kvs \<and> x = y" if eq: "render (JObj kvs) @ x = render c @ y" for c x y
  proof -
    obtain ks where c: "c = JObj ks" using render_shape [OF eq] by (cases c) auto
    have "kvs = ks \<and> x = y"
      using eq each
      by (intro sequence_inject [of kvs ?f "CHR ''}''"]) (auto simp: c quoted_def)
    then show ?thesis by (simp add: c)
  qed
  then show ?case unfolding readable_def by blast
qed

lemma dumps_inject: "dumps a = dumps b \<longleftrightarrow> sort_keys a = sort_keys b"
  using readableD [OF render_readable, of "sort_keys a" "[]" "sort_keys b" "[]"]
  by (auto simp: dumps_def delimited_def)

lemma sort_keys_object:
  assumes "sort_keys (JObj xs) = sort_keys (JObj ys)"
    and "map fst xs = map fst ys" and "distinct (map fst xs)"
  shows "map (\<lambda>kv. sort_keys (snd kv)) xs = map (\<lambda>kv. sort_keys (snd kv)) ys"
proof -
  let ?g = "\<lambda>kv. (fst kv, sort_keys (snd kv))"
  have eq: "sort_key fst (map ?g xs) = sort_key fst (map ?g ys)" using assms(1) by simp
  have d: "distinct (map fst (map ?g xs))" "distinct (map fst (map ?g ys))"
    unfolding map_map comp_def fst_conv using assms(3) unfolding assms(2) by simp_all
  have s: "set (map ?g xs) = set (map ?g ys)" 
    using arg_cong [OF eq, of set] by (simp only: set_sort)
  have "length xs = length ys" using assms(2) by (metis length_map)
  moreover have "sort_keys (snd (xs ! i)) = sort_keys (snd (ys ! i))" if i: "i < length xs" for i
  proof -
    have "(fst (xs ! i), sort_keys (snd (xs ! i))) \<in> set (map ?g xs)"
      "(fst (ys ! i), sort_keys (snd (ys ! i))) \<in> set (map ?g ys)"
      using i \<open>length xs = length ys\<close> by (auto intro!: rev_image_eqI nth_mem)
    moreover have "fst (xs ! i) = fst (ys ! i)"
      using assms(2) i \<open>length xs = length ys\<close> by (metis nth_map)
    ultimately show ?thesis using d s by (metis eq_key_imp_eq_value)
  qed
  ultimately show ?thesis by (intro nth_equalityI) auto
qed

subsection \<open>Graphs are determined by their canonical JSON\<close>

lemma value_inject:
  "NodeType_value a = NodeType_value b \<longleftrightarrow> a = b"
  "TaskKind_value k = TaskKind_value l \<longleftrightarrow> k = l"
  "AssignmentMode_value m = AssignmentMode_value n \<longleftrightarrow> m = n"
  "RiskLevel_value r = RiskLevel_value s \<longleftrightarrow> r = s"
  "TestKind_value t = TestKind_value u \<longleftrightarrow> t = u"
  "IfOperator_value p = IfOperator_value q \<longleftrightarrow> p = q"
  "EdgeCondition_value c = EdgeCondition_value d \<longleftrightarrow> c = d"
proof -
  show "NodeType_value a = NodeType_value b \<longleftrightarrow> a = b" by (cases a; cases b) simp_all
  show "TaskKind_value k = TaskKind_value l \<longleftrightarrow> k = l" by (cases k; cases l) simp_all
  show "AssignmentMode_value m = AssignmentMode_value n \<longleftrightarrow> m = n" by (cases m; cases n) simp_all
  show "RiskLevel_value r = RiskLevel_value s \<longleftrightarrow> r = s" by (cases r; cases s) simp_all
  show "TestKind_value t = TestKind_value u \<longleftrightarrow> t = u" by (cases t; cases u) simp_all
  show "IfOperator_value p = IfOperator_value q \<longleftrightarrow> p = q" by (cases p; cases q) simp_all
  show "EdgeCondition_value c = EdgeCondition_value d \<longleftrightarrow> c = d" by (cases c; cases d) simp_all
qed

lemma map_sort_keys_inject:
  assumes "\<And>a b. sort_keys (f a) = sort_keys (f b) \<Longrightarrow> a = b"
    and "map (\<lambda>a. sort_keys (f a)) xs = map (\<lambda>a. sort_keys (f a)) ys"
  shows "xs = ys"
  using assms(2) by (metis assms(1) injI inj_map_eq_map)

lemma opt_json_inject:
  assumes "\<And>a b. sort_keys (f a) = sort_keys (f b) \<Longrightarrow> a = b" and "\<And>a. sort_keys (f a) \<noteq> JNull"
    and "sort_keys (opt_json f x) = sort_keys (opt_json f y)"
  shows "x = y"
  using assms(3) assms(2) [THEN not_sym] assms(1,2) by (cases x; cases y) auto

lemma strs_json_inject [simp]: "sort_keys (strs_json xs) = sort_keys (strs_json ys) \<longleftrightarrow> xs = ys"
proof -
  have "inj JStr" by (simp add: inj_def)
  then show ?thesis by (auto simp: comp_def dest: map_injective)
qed

lemma argvs_json_inject [simp]:
  "sort_keys (argvs_json xs) = sort_keys (argvs_json ys) \<longleftrightarrow> xs = ys"
proof
  assume "sort_keys (argvs_json xs) = sort_keys (argvs_json ys)"
  then have "map (\<lambda>a. sort_keys (strs_json a)) xs = map (\<lambda>a. sort_keys (strs_json a)) ys"
    by (simp add: comp_def)
  then show "xs = ys" by (rule map_sort_keys_inject [rotated]) (simp only: strs_json_inject)
qed simp

lemma opt_str_inject [simp]:
  "sort_keys (opt_json JStr x) = sort_keys (opt_json JStr y) \<longleftrightarrow> x = y"
  by (cases x; cases y) auto

lemma opt_value_inject:
  assumes "\<And>a b. f a = f b \<longleftrightarrow> a = b"
  shows "sort_keys (opt_json (\<lambda>k. JStr (f k)) x) = sort_keys (opt_json (\<lambda>k. JStr (f k)) y) \<longleftrightarrow> x = y"
  using assms by (cases x; cases y) auto

lemma opt_bool_inject [simp]:
  "sort_keys (opt_json JBool x) = sort_keys (opt_json JBool y) \<longleftrightarrow> x = y"
  by (cases x; cases y) auto

lemma opt_strs_inject [simp]:
  "sort_keys (opt_json strs_json x) = sort_keys (opt_json strs_json y) \<longleftrightarrow> x = y"
  using opt_json_inject [of strs_json x y] by (auto simp only: strs_json_inject) simp_all

lemma opt_argvs_inject [simp]:
  "sort_keys (opt_json argvs_json x) = sort_keys (opt_json argvs_json y) \<longleftrightarrow> x = y"
  using opt_json_inject [of argvs_json x y] by (auto simp only: argvs_json_inject) simp_all

lemma recommendation_inject:
  assumes "sort_keys (recommendation_json a) = sort_keys (recommendation_json b)"
  shows "a = b"
  using sort_keys_object [OF assms [unfolded recommendation_json_def]]
  by (simp add: recommendation_json_def)

lemma if_value_inject: "sort_keys (if_value_json a) = sort_keys (if_value_json b) \<Longrightarrow> a = b"
proof -
  have "inj JStr" by (simp add: inj_def)
  then show "sort_keys (if_value_json a) = sort_keys (if_value_json b) \<Longrightarrow> a = b"
    by (cases a; cases b) (auto simp: comp_def dest: map_injective)
qed

lemma condition_inject:
  assumes "sort_keys (condition_json a) = sort_keys (condition_json b)"
  shows "a = b"
proof -
  have "sort_keys (if_value_json v) \<noteq> JNull" for v by (cases v) simp_all
  from opt_json_inject [of if_value_json, OF if_value_inject this]
  have v: "sort_keys (opt_json if_value_json x) = sort_keys (opt_json if_value_json y) \<Longrightarrow> x = y" for x y
    by blast
  show ?thesis
    using sort_keys_object [OF assms [unfolded condition_json_def]] v
    by (simp add: value_inject)
qed

lemma edge_inject: "sort_keys (edge_json a) = sort_keys (edge_json b) \<Longrightarrow> a = b"
proof -
  assume "sort_keys (edge_json a) = sort_keys (edge_json b)"
  from sort_keys_object [OF this [unfolded edge_json_def]]
  show "a = b" by (simp add: value_inject)
qed

lemma node_inject:
  assumes "sort_keys (node_json a) = sort_keys (node_json b)"
  shows "a = b"
proof -
  from condition_inject
  have "sort_keys (opt_json condition_json x) = sort_keys (opt_json condition_json y) \<Longrightarrow> x = y" for x y
    by (rule opt_json_inject) (simp_all add: condition_json_def)
  moreover have "sort_keys (JArr (map recommendation_json x)) = sort_keys (JArr (map recommendation_json y)) \<Longrightarrow>
      x = y" for x y
    using map_sort_keys_inject [of recommendation_json x y, OF recommendation_inject]
    by (simp add: comp_def)
  ultimately show ?thesis
    using sort_keys_object [OF assms [unfolded node_json_def]]
    by (simp add: value_inject opt_value_inject [OF value_inject(2)]
        opt_value_inject [OF value_inject(4)] opt_value_inject [OF value_inject(5)]
        del: sort_keys.simps(1))
qed

lemma node_list_inject:
  "sort_keys (JArr (map node_json xs)) = sort_keys (JArr (map node_json ys)) \<Longrightarrow> xs = ys"
  using map_sort_keys_inject [of node_json xs ys, OF node_inject] by (simp add: comp_def)

lemma edge_list_inject:
  "sort_keys (JArr (map edge_json xs)) = sort_keys (JArr (map edge_json ys)) \<Longrightarrow> xs = ys"
  using map_sort_keys_inject [of edge_json xs ys, OF edge_inject] by (simp add: comp_def)

lemma author_json_inject:
  assumes "sort_keys (author_json g) = sort_keys (author_json h)"
  shows "g = h"
  using sort_keys_object [OF assms [unfolded author_json_def]] node_list_inject edge_list_inject
  by (simp del: sort_keys.simps(1))

lemma compiled_json_inject:
  assumes "sort_keys (compiled_json g) = sort_keys (compiled_json h)"
  shows "g = h"
  using sort_keys_object [OF assms [unfolded compiled_json_def]] node_list_inject edge_list_inject
  by (simp del: sort_keys.simps(1))

lemma canonical_inject:
  "canonical_author g = canonical_author h \<Longrightarrow> g = h"
  "canonical_compiled c = canonical_compiled d \<Longrightarrow> c = d"
  unfolding canonical_author_def canonical_compiled_def dumps_inject
  using author_json_inject compiled_json_inject by blast+

text \<open>
  C39: canonical JSON is unambiguous: two author graphs (or two compiled graphs) are written as
  the same bytes only when every field of every node and edge is the same, whatever quotes,
  separators or control characters their texts contain. What is hashed is therefore the graph.
\<close>

theorem canonical_json_is_unambiguous:
  "(canonical_author g = canonical_author h) = (g = h) \<and>
   (canonical_compiled c = canonical_compiled d) = (c = d)"
  using canonical_inject by blast

end
