(* ===== verification/Graph_Search.thy ===== *)
theory Graph_Search
  imports Prelude
begin

text \<open>
  The work-list algorithms on edge lists that \<open>workflow/validation.py\<close>,
  \<open>workflow/executable_validator.py\<close> and \<open>storage/workflow_run_repository.py\<close> each carry:
  breadth-first reachability, the collection of transitive predecessors, Kahn's topological
  order and the iterated dominator sets. The loops are written once over arbitrary vertices and
  the component theories instantiate them at node ids. Two locales state what a client may rely
  on: \<open>closure_search\<close> (a search returns exactly the reflexive-transitive closure) and
  \<open>topo_sorter\<close> (an order lists a vertex only after its predecessors and misses only what
  a cycle blocks).
\<close>

type_synonym 'a arcs = "('a \<times> 'a) list"

definition succs :: "'a arcs \<Rightarrow> 'a \<Rightarrow> 'a list" where
  \<comment> \<open>\<open>outgoing.get(v, [])\<close>\<close>
  "succs es v = map snd (filter (\<lambda>e. fst e = v) es)"

definition preds :: "'a arcs \<Rightarrow> 'a \<Rightarrow> 'a list" where
  \<comment> \<open>\<open>incoming.get(v, [])\<close>\<close>
  "preds es v = map fst (filter (\<lambda>e. snd e = v) es)"

lemma set_succs [simp]: "set (succs es v) = {w. (v, w) \<in> set es}"
  by (force simp: succs_def)

lemma set_preds [simp]: "set (preds es v) = {u. (u, v) \<in> set es}"
  by (force simp: preds_def)

lemma preds_Nil_iff: "preds es v = [] \<longleftrightarrow> (\<forall>u. (u, v) \<notin> set es)"
  unfolding set_empty [symmetric] set_preds by auto

subsection \<open>Breadth-first reachability\<close>

fun visit_targets :: "'a list \<Rightarrow> 'a set \<Rightarrow> 'a list \<Rightarrow> 'a set \<times> 'a list" where
  "visit_targets [] R q = (R, q)"
| "visit_targets (t # ts) R q =
     (if t \<in> R then visit_targets ts R q else visit_targets ts (insert t R) (q @ [t]))"

lemma visit_targets_spec:
  "visit_targets ts R q = (R', q') \<Longrightarrow>
     R' = R \<union> set ts \<and> (\<exists>ns. q' = q @ ns \<and> distinct ns \<and> set ns = set ts - R)"
proof (induction ts arbitrary: R q)
  case Nil
  then show ?case by (intro conjI exI [of _ "[]"]) auto
next
  case (Cons t ts)
  show ?case
  proof (cases "t \<in> R")
    case True
    with Cons.prems have "visit_targets ts R q = (R', q')" by simp
    then obtain ns where "R' = R \<union> set ts" "q' = q @ ns" "distinct ns" "set ns = set ts - R"
      using Cons.IH [of R q] by blast
    with True show ?thesis by (intro conjI exI [of _ ns]) auto
  next
    case False
    with Cons.prems have "visit_targets ts (insert t R) (q @ [t]) = (R', q')" by simp
    then obtain ns where ns: "q' = (q @ [t]) @ ns" "distinct ns" "set ns = set ts - insert t R"
      and R': "R' = insert t R \<union> set ts"
      using Cons.IH [of "insert t R" "q @ [t]"] by blast
    have "q' = q @ (t # ns)" "distinct (t # ns)" "set (t # ns) = set (t # ts) - R"
      using ns False by auto
    then show ?thesis using R' by (intro conjI exI [of _ "t # ns"]) auto
  qed
qed

function bfs_loop :: "'a arcs \<Rightarrow> 'a set \<Rightarrow> 'a list \<Rightarrow> 'a set" where
  "bfs_loop es R [] = R"
| "bfs_loop es R (v # q) =
     (case visit_targets (succs es v) R q of (R', q') \<Rightarrow> bfs_loop es R' q')"
  by pat_completeness auto
termination
proof (relation "measure (\<lambda>(es, R, q). 2 * card (snd ` set es - R) + length q)")
  fix es :: "'a arcs" and R q v R' q'
  assume x: "(R', q') = visit_targets (succs es v) R q"
  then obtain ns where ns: "q' = q @ ns" "distinct ns" "set ns = set (succs es v) - R"
    and R': "R' = R \<union> set (succs es v)"
    using visit_targets_spec [OF x [symmetric]] by auto
  let ?U = "snd ` set es"
  have sub: "set ns \<subseteq> ?U - R"
    using ns(3) by force
  have "?U - R' = (?U - R) - set ns"
    using ns(3) R' by auto
  then have "card (?U - R') = card (?U - R) - length ns"
    using sub ns(2) by (simp add: card_Diff_subset distinct_card)
  moreover have "length ns \<le> card (?U - R)"
    using sub ns(2) by (metis card_mono distinct_card finite_Diff finite_imageI finite_set)
  ultimately show "((es, R', q'), es, R, v # q)
      \<in> measure (\<lambda>(es, R, q). 2 * card (snd ` set es - R) + length q)"
    using ns(1) by simp
qed simp

definition reachable_from :: "'a \<Rightarrow> 'a arcs \<Rightarrow> 'a set" where
  "reachable_from start es = bfs_loop es {start} [start]"

definition reverse_reachable :: "'a \<Rightarrow> 'a arcs \<Rightarrow> 'a set" where
  "reverse_reachable target es = bfs_loop (map prod.swap es) {target} [target]"

lemma bfs_loop_sound:
  "set q \<subseteq> R \<Longrightarrow> R \<subseteq> {v. (s, v) \<in> (set es)\<^sup>*} \<Longrightarrow> bfs_loop es R q \<subseteq> {v. (s, v) \<in> (set es)\<^sup>*}"
proof (induction es R q rule: bfs_loop.induct)
  case (1 es R)
  then show ?case by simp
next
  case (2 es R v q)
  obtain R' q' where v: "visit_targets (succs es v) R q = (R', q')" by fastforce
  obtain ns where ns: "q' = q @ ns" "set ns = set (succs es v) - R"
    and R': "R' = R \<union> set (succs es v)"
    using visit_targets_spec [OF v] by auto
  have "(s, v) \<in> (set es)\<^sup>*" using "2.prems" by auto
  then have "set (succs es v) \<subseteq> {v. (s, v) \<in> (set es)\<^sup>*}"
    by (auto intro: rtrancl_into_rtrancl)
  then have "bfs_loop es R' q' \<subseteq> {v. (s, v) \<in> (set es)\<^sup>*}"
    using "2.IH" [OF v [symmetric]] "2.prems" ns R' by auto
  then show ?case by (simp add: v)
qed

lemma bfs_loop_closed:
  assumes "\<And>u w. u \<in> R \<Longrightarrow> u \<notin> set q \<Longrightarrow> (u, w) \<in> set es \<Longrightarrow> w \<in> R"
  shows "R \<subseteq> bfs_loop es R q \<and>
    (\<forall>u w. u \<in> bfs_loop es R q \<longrightarrow> (u, w) \<in> set es \<longrightarrow> w \<in> bfs_loop es R q)"
  using assms
proof (induction es R q rule: bfs_loop.induct)
  case (1 es R)
  then show ?case by simp
next
  case (2 es R v q)
  obtain R' q' where v: "visit_targets (succs es v) R q = (R', q')" by fastforce
  obtain ns where ns: "q' = q @ ns" "set ns = set (succs es v) - R"
    and R': "R' = R \<union> set (succs es v)"
    using visit_targets_spec [OF v] by auto
  have "w \<in> R'" if "u \<in> R'" "u \<notin> set q'" "(u, w) \<in> set es" for u w
  proof -
    have "u \<in> R" using that ns R' by auto
    then show ?thesis
      using "2.prems" [of u w] that ns R' by (cases "u = v") auto
  qed
  then have "R' \<subseteq> bfs_loop es R' q' \<and>
      (\<forall>u w. u \<in> bfs_loop es R' q' \<longrightarrow> (u, w) \<in> set es \<longrightarrow> w \<in> bfs_loop es R' q')"
    by (rule "2.IH" [OF v [symmetric]])
  then show ?case using R' by (auto simp: v)
qed

lemma bfs_from_single: "bfs_loop es {s} [s] = {v. (s, v) \<in> (set es)\<^sup>*}"
proof
  show "bfs_loop es {s} [s] \<subseteq> {v. (s, v) \<in> (set es)\<^sup>*}"
    by (rule bfs_loop_sound) auto
next
  have cl: "{s} \<subseteq> bfs_loop es {s} [s] \<and>
      (\<forall>u w. u \<in> bfs_loop es {s} [s] \<longrightarrow> (u, w) \<in> set es \<longrightarrow> w \<in> bfs_loop es {s} [s])"
    by (rule bfs_loop_closed) auto
  have "v \<in> bfs_loop es {s} [s]" if "(s, v) \<in> (set es)\<^sup>*" for v
    using that by (induction rule: rtrancl_induct) (use cl in auto)
  then show "{v. (s, v) \<in> (set es)\<^sup>*} \<subseteq> bfs_loop es {s} [s]" by auto
qed

locale closure_search =
  fixes search :: "'a \<Rightarrow> 'a arcs \<Rightarrow> 'a set"
    and rel :: "'a arcs \<Rightarrow> ('a \<times> 'a) set"
  assumes search_exact: "search s es = {v. (s, v) \<in> (rel es)\<^sup>*}"
begin

lemma search_refl: "s \<in> search s es"
  by (simp add: search_exact)

lemma search_step: "u \<in> search s es \<Longrightarrow> (u, w) \<in> rel es \<Longrightarrow> w \<in> search s es"
  by (auto simp: search_exact intro: rtrancl_into_rtrancl)

lemma search_least:
  assumes "s \<in> A" and "\<And>u w. u \<in> A \<Longrightarrow> (u, w) \<in> rel es \<Longrightarrow> w \<in> A"
  shows "search s es \<subseteq> A"
proof
  fix v
  assume "v \<in> search s es"
  then have "(s, v) \<in> (rel es)\<^sup>*" by (simp add: search_exact)
  then show "v \<in> A" by (induction rule: rtrancl_induct) (use assms in auto)
qed

lemma search_covers:
  "set vs \<subseteq> search s es \<longleftrightarrow> (\<forall>v \<in> set vs. (s, v) \<in> (rel es)\<^sup>*)"
  by (auto simp: search_exact)

end

interpretation forward: closure_search reachable_from set
  by unfold_locales (simp only: reachable_from_def bfs_from_single)

interpretation backward: closure_search reverse_reachable "\<lambda>es. (set es)\<inverse>"
proof unfold_locales
  fix s :: 'a and es :: "'a arcs"
  have "set (map prod.swap es) = (set es)\<inverse>" by force
  then show "reverse_reachable s es = {v. (s, v) \<in> ((set es)\<inverse>)\<^sup>*}"
    by (simp only: reverse_reachable_def bfs_from_single)
qed

subsection \<open>Transitive predecessors\<close>

function pred_loop :: "'a arcs \<Rightarrow> 'a set \<Rightarrow> 'a list \<Rightarrow> 'a set" where
  "pred_loop es R [] = R"
| "pred_loop es R (v # q) =
     (if v \<in> R then pred_loop es R q else pred_loop es (insert v R) (q @ preds es v))"
  by pat_completeness auto
termination
proof (relation "measures
    [\<lambda>(es, R, q). card ((fst ` set es \<union> set q) - R), \<lambda>(es, R, q). length q]")
  fix es :: "'a arcs" and R :: "'a set" and v :: 'a and q :: "'a list"
  assume "v \<in> R"
  then have "(fst ` set es \<union> set (v # q)) - R = (fst ` set es \<union> set q) - R" by auto
  then show "((es, R, q), es, R, v # q)
      \<in> measures [\<lambda>(es, R, q). card ((fst ` set es \<union> set q) - R), \<lambda>(es, R, q). length q]"
    by simp
next
  fix es :: "'a arcs" and R :: "'a set" and v :: 'a and q :: "'a list"
  assume v: "v \<notin> R"
  let ?new = "(fst ` set es \<union> set (q @ preds es v)) - insert v R"
  let ?old = "(fst ` set es \<union> set (v # q)) - R"
  have "?new \<subset> ?old" using v by force
  then have "card ?new < card ?old" by (intro psubset_card_mono) auto
  then show "((es, insert v R, q @ preds es v), es, R, v # q)
      \<in> measures [\<lambda>(es, R, q). card ((fst ` set es \<union> set q) - R), \<lambda>(es, R, q). length q]"
    by simp
qed simp

definition transitive_preds :: "'a \<Rightarrow> 'a arcs \<Rightarrow> 'a set" where
  "transitive_preds target es = pred_loop es {} (preds es target)"

lemma pred_loop_sound:
  "R \<union> set q \<subseteq> {u. (u, t) \<in> (set es)\<^sup>+} \<Longrightarrow> pred_loop es R q \<subseteq> {u. (u, t) \<in> (set es)\<^sup>+}"
proof (induction es R q rule: pred_loop.induct)
  case (2 es R v q)
  have "set (preds es v) \<subseteq> {u. (u, t) \<in> (set es)\<^sup>+}"
    using "2.prems" by (auto intro: trancl_into_trancl2)
  then show ?case using 2 by auto
qed simp

lemma pred_loop_closed:
  assumes "\<And>u w. w \<in> R \<Longrightarrow> (u, w) \<in> set es \<Longrightarrow> u \<in> R \<union> set q"
  shows "R \<union> set q \<subseteq> pred_loop es R q \<and>
    (\<forall>u w. w \<in> pred_loop es R q \<longrightarrow> (u, w) \<in> set es \<longrightarrow> u \<in> pred_loop es R q)"
  using assms
proof (induction es R q rule: pred_loop.induct)
  case (1 es R)
  then show ?case by simp
next
  case (2 es R v q)
  show ?case
  proof (cases "v \<in> R")
    case True
    then have "R \<union> set q \<subseteq> pred_loop es R q \<and>
        (\<forall>u w. w \<in> pred_loop es R q \<longrightarrow> (u, w) \<in> set es \<longrightarrow> u \<in> pred_loop es R q)"
      using "2.prems" by (intro "2.IH"(1)) auto
    then show ?thesis using True by auto
  next
    case False
    have "insert v R \<union> set (q @ preds es v) \<subseteq> pred_loop es (insert v R) (q @ preds es v) \<and>
        (\<forall>u w. w \<in> pred_loop es (insert v R) (q @ preds es v) \<longrightarrow> (u, w) \<in> set es \<longrightarrow>
           u \<in> pred_loop es (insert v R) (q @ preds es v))"
    proof (rule "2.IH"(2) [OF False])
      fix u w
      assume "w \<in> insert v R" "(u, w) \<in> set es"
      then show "u \<in> insert v R \<union> set (q @ preds es v)"
        using "2.prems" [of w u] by auto
    qed
    then show ?thesis using False by auto
  qed
qed

lemma transitive_preds_exact: "transitive_preds t es = {u. (u, t) \<in> (set es)\<^sup>+}"
proof
  show "transitive_preds t es \<subseteq> {u. (u, t) \<in> (set es)\<^sup>+}"
    unfolding transitive_preds_def by (rule pred_loop_sound) auto
next
  have cl: "{} \<union> set (preds es t) \<subseteq> pred_loop es {} (preds es t) \<and>
      (\<forall>u w. w \<in> pred_loop es {} (preds es t) \<longrightarrow> (u, w) \<in> set es \<longrightarrow>
         u \<in> pred_loop es {} (preds es t))"
    by (rule pred_loop_closed) auto
  have "u \<in> transitive_preds t es" if "(u, t) \<in> (set es)\<^sup>+" for u
    using that
    by (induction rule: converse_trancl_induct) (use cl in \<open>auto simp: transitive_preds_def\<close>)
  then show "{u. (u, t) \<in> (set es)\<^sup>+} \<subseteq> transitive_preds t es" by auto
qed

end
