(* ===== verification/Topo_Order.thy ===== *)
theory Topo_Order
  imports Graph_Search
begin

text \<open>
  Kahn's algorithm, as \<open>_contains_cycle\<close> (with a counter) and \<open>_topological_order\<close>
  (with the order itself) run it, and the iterated dominator sets of \<open>_dominators\<close>. The
  order is proved to list every vertex after its predecessors and to leave out exactly what a
  cycle blocks, so that comparing its length with the number of vertices decides acyclicity;
  on an acyclic graph the dominator iteration is proved to reach, within its bound, the
  vertices that lie on every path from a source.
\<close>

subsection \<open>Kahn's order\<close>

definition indegree :: "'a arcs \<Rightarrow> 'a \<Rightarrow> int" where
  "indegree es v = int (length (filter (\<lambda>e. snd e = v) es))"

fun relax :: "'a list \<Rightarrow> ('a \<Rightarrow> int) \<Rightarrow> 'a list \<Rightarrow> ('a \<Rightarrow> int) \<times> 'a list" where
  "relax [] d q = (d, q)"
| "relax (t # ts) d q =
     relax ts (d(t := d t - 1)) (if d t - 1 = 0 then q @ [t] else q)"

lemma relax_spec:
  "relax ts d q = (d', q') \<Longrightarrow>
     (\<forall>v. d' v = d v - int (count_list ts v)) \<and>
     (\<exists>ns. q' = q @ ns \<and> set ns \<subseteq> {t \<in> set ts. 0 < d t \<and> d' t \<le> 0} \<and> distinct ns \<and>
        ((\<forall>v. int (count_list ts v) \<le> max 0 (d v)) \<longrightarrow> {t \<in> set ts. d' t = 0} \<subseteq> set ns))"
proof (induction ts arbitrary: d q)
  case Nil
  then show ?case by (intro conjI exI [of _ "[]"]) auto
next
  case (Cons t ts)
  let ?d = "d(t := d t - 1)"
  let ?q = "if d t - 1 = 0 then q @ [t] else q"
  have r: "relax ts ?d ?q = (d', q')" using Cons.prems by simp
  from Cons.IH [OF r] obtain ns where d': "\<forall>v. d' v = ?d v - int (count_list ts v)"
    and ns: "q' = ?q @ ns" "set ns \<subseteq> {u \<in> set ts. 0 < ?d u \<and> d' u \<le> 0}" "distinct ns"
      "(\<forall>v. int (count_list ts v) \<le> max 0 (?d v)) \<longrightarrow> {u \<in> set ts. d' u = 0} \<subseteq> set ns"
    by blast
  let ?ns = "if d t - 1 = 0 then t # ns else ns"
  have eq: "\<forall>v. d' v = d v - int (count_list (t # ts) v)"
    using d' by simp
  have "q' = q @ ?ns" using ns(1) by simp
  moreover have "set ?ns \<subseteq> {u \<in> set (t # ts). 0 < d u \<and> d' u \<le> 0}"
    using ns(2) d' by (auto split: if_splits)
  moreover have "distinct ?ns"
    using ns(2,3) by auto
  moreover have "{u \<in> set (t # ts). d' u = 0} \<subseteq> set ?ns"
    if c: "\<forall>v. int (count_list (t # ts) v) \<le> max 0 (d v)"
  proof -
    have "int (count_list ts v) \<le> max 0 (?d v)" for v
      using c [rule_format, of v] by (auto split: if_splits)
    then have sub: "{u \<in> set ts. d' u = 0} \<subseteq> set ns" using ns(4) by blast
    have "t \<in> set ?ns" if "d' t = 0"
    proof (cases "t \<in> set ts")
      case True
      then show ?thesis using sub that by auto
    next
      case False
      then have "d' t = d t - 1" using d' by (simp add: count_list_0_iff)
      then show ?thesis using that by simp
    qed
    then show ?thesis using sub by auto
  qed
  ultimately show ?case using eq by blast
qed

function kahn_loop :: "'a::linorder arcs \<Rightarrow> ('a \<Rightarrow> int) \<Rightarrow> 'a list \<Rightarrow> 'a list \<Rightarrow> 'a list" where
  "kahn_loop es d [] out = out"
| "kahn_loop es d (v # q) out =
     (case relax (sort (succs es v)) d q of (d', q') \<Rightarrow> kahn_loop es d' q' (out @ [v]))"
  by pat_completeness auto

lemma relax_decreases:
  fixes es :: "'a::linorder arcs"
  assumes "(d', q') = relax (sort (succs es v)) d q"
  shows "2 * card {t \<in> snd ` set es. 0 < d' t} + length q'
    < 2 * card {t \<in> snd ` set es. 0 < d t} + length (v # q)"
proof -
  let ?P = "\<lambda>d. {t \<in> snd ` set es. 0 < d t}"
  from relax_spec [OF assms [symmetric]] obtain ns where
    d': "\<forall>t. d' t = d t - int (count_list (sort (succs es v)) t)" and
    ns: "q' = q @ ns" "set ns \<subseteq> {t \<in> set (succs es v). 0 < d t \<and> d' t \<le> 0}" "distinct ns"
    by auto
  have sub: "?P d' \<subseteq> ?P d - set ns"
  proof
    fix t
    assume t: "t \<in> ?P d'"
    have "d' t \<le> d t" using d' [rule_format, of t] by simp
    then show "t \<in> ?P d - set ns" using t ns(2) by force
  qed
  have "set ns \<subseteq> ?P d" using ns(2) by force
  then have "card (?P d - set ns) = card (?P d) - length ns" and "length ns \<le> card (?P d)"
    using ns(3) by (simp_all add: card_Diff_subset distinct_card card_mono flip: distinct_card)
  moreover have "card (?P d') \<le> card (?P d - set ns)"
    using sub by (intro card_mono) auto
  ultimately show ?thesis using ns(1) by simp
qed

termination kahn_loop
  by (relation "measure (\<lambda>(es, d, q, out). 2 * card {t \<in> snd ` set es. 0 < d t} + length q)")
    (simp_all only: in_measure prod.case relax_decreases wf_measure)

definition kahn_order :: "'a::linorder list \<Rightarrow> 'a arcs \<Rightarrow> 'a list" where
  "kahn_order vs es = kahn_loop es (indegree es) (sort (filter (\<lambda>v. indegree es v = 0) vs)) []"

function kahn_count :: "'a::linorder arcs \<Rightarrow> ('a \<Rightarrow> int) \<Rightarrow> 'a list \<Rightarrow> nat \<Rightarrow> nat" where
  "kahn_count es d [] visited = visited"
| "kahn_count es d (v # q) visited =
     (case relax (sort (succs es v)) d q of (d', q') \<Rightarrow> kahn_count es d' q' (visited + 1))"
  by pat_completeness auto
termination
  by (relation "measure (\<lambda>(es, d, q, n). 2 * card {t \<in> snd ` set es. 0 < d t} + length q)")
    (simp_all only: in_measure prod.case relax_decreases wf_measure)

definition contains_cycle :: "'a::linorder list \<Rightarrow> 'a arcs \<Rightarrow> bool" where
  "contains_cycle vs es \<longleftrightarrow>
     kahn_count es (indegree es) (sort (filter (\<lambda>v. indegree es v = 0) vs)) 0 \<noteq> length vs"

lemma kahn_count_length:
  "kahn_count es d q (length out) = length (kahn_loop es d q out)"
proof (induction es d q out rule: kahn_loop.induct)
  case (2 es d v q out)
  obtain d' q' where r: "relax (sort (succs es v)) d q = (d', q')" by fastforce
  show ?case using "2.IH" [OF r [symmetric]] by (simp add: r)
qed simp

lemma contains_cycle_order: "contains_cycle vs es \<longleftrightarrow> length (kahn_order vs es) \<noteq> length vs"
  using kahn_count_length [of es "indegree es" _ "[]"]
  by (simp add: contains_cycle_def kahn_order_def)

subsection \<open>Correctness of the order\<close>

definition topo_sorted :: "'a arcs \<Rightarrow> 'a list \<Rightarrow> bool" where
  "topo_sorted es xs \<longleftrightarrow>
     (\<forall>ys v zs u. xs = ys @ v # zs \<longrightarrow> (u, v) \<in> set es \<longrightarrow> u \<in> set ys)"

lemma topo_sorted_Nil [simp]: "topo_sorted es []"
  by (simp add: topo_sorted_def)

lemma topo_sorted_snoc:
  assumes "topo_sorted es xs" and "\<And>u. (u, v) \<in> set es \<Longrightarrow> u \<in> set xs"
  shows "topo_sorted es (xs @ [v])"
  unfolding topo_sorted_def
proof (intro allI impI)
  fix ys w zs u
  assume eq: "xs @ [v] = ys @ w # zs" and e: "(u, w) \<in> set es"
  show "u \<in> set ys"
  proof (cases zs rule: rev_cases)
    case Nil
    then show ?thesis using eq e assms(2) by auto
  next
    case (snoc zs' z)
    then have "xs = ys @ w # zs'" using eq by auto
    then show ?thesis using e assms(1) unfolding topo_sorted_def by blast
  qed
qed

lemma topo_sorted_append: "topo_sorted es (xs @ ys) \<Longrightarrow> topo_sorted es xs"
  unfolding topo_sorted_def by (metis append_Cons append_assoc)

definition kahn_inv :: "'a list \<Rightarrow> 'a arcs \<Rightarrow> ('a \<Rightarrow> int) \<Rightarrow> 'a list \<Rightarrow> 'a list \<Rightarrow> bool" where
  "kahn_inv vs es d q out \<longleftrightarrow>
     distinct (out @ q) \<and> set (out @ q) \<subseteq> set vs \<and> topo_sorted es out \<and>
     (\<forall>v. d v = int (length (filter (\<lambda>e. snd e = v \<and> fst e \<notin> set out) es))) \<and>
     (\<forall>v \<in> set vs. v \<in> set (out @ q) \<longleftrightarrow> d v = 0)"

lemma count_succs: "count_list (succs es v) t = length (filter (\<lambda>e. snd e = t \<and> fst e = v) es)"
  by (induction es) (auto simp: succs_def)

lemma count_sort [simp]: "count_list (sort xs) t = count_list xs t"
  by (simp add: count_list_eq_length_filter filter_sort)

lemma length_filter_split:
  "length (filter P es) = length (filter (\<lambda>e. P e \<and> Q e) es) + length (filter (\<lambda>e. P e \<and> \<not> Q e) es)"
  by (induction es) auto

lemma blocked_degree_0:
  "int (length (filter (\<lambda>e. snd e = v \<and> fst e \<notin> A) es)) = 0 \<longleftrightarrow> (\<forall>u. (u, v) \<in> set es \<longrightarrow> u \<in> A)"
  by (auto simp: filter_empty_conv)

lemma kahn_inv_step:
  assumes inv: "kahn_inv vs es d (v # q) out"
    and closed: "set es \<subseteq> set vs \<times> set vs"
    and r: "relax (sort (succs es v)) d q = (d', q')"
  shows "kahn_inv vs es d' q' (out @ [v])"
proof -
  from inv have dist: "distinct (out @ v # q)" and sub: "set (out @ v # q) \<subseteq> set vs"
    and topo: "topo_sorted es out"
    and d: "\<And>t. d t = int (length (filter (\<lambda>e. snd e = t \<and> fst e \<notin> set out) es))"
    and zero: "\<And>t. t \<in> set vs \<Longrightarrow> t \<in> set (out @ v # q) \<longleftrightarrow> d t = 0"
    by (simp_all add: kahn_inv_def)
  have v: "v \<notin> set out" "v \<in> set vs" using dist sub by auto
  from relax_spec [OF r] obtain ns where d': "\<And>t. d' t = d t - int (count_list (succs es v) t)"
    and ns: "q' = q @ ns" "set ns \<subseteq> {t \<in> set (succs es v). 0 < d t \<and> d' t \<le> 0}" "distinct ns"
    and full: "(\<forall>t. int (count_list (succs es v) t) \<le> max 0 (d t)) \<longrightarrow>
      {t \<in> set (succs es v). d' t = 0} \<subseteq> set ns"
    unfolding set_sort count_sort by blast
  have split: "d t = int (length (filter (\<lambda>e. snd e = t \<and> fst e \<notin> set (out @ [v])) es))
      + int (count_list (succs es v) t)" for t
  proof -
    have "filter (\<lambda>e. (snd e = t \<and> fst e \<notin> set out) \<and> fst e = v) es
        = filter (\<lambda>e. snd e = t \<and> fst e = v) es"
      using v(1) by (intro filter_cong) auto
    moreover have "filter (\<lambda>e. (snd e = t \<and> fst e \<notin> set out) \<and> fst e \<noteq> v) es
        = filter (\<lambda>e. snd e = t \<and> fst e \<notin> set (out @ [v])) es"
      by (intro filter_cong) auto
    ultimately show ?thesis
      using length_filter_split [of "\<lambda>e. snd e = t \<and> fst e \<notin> set out" es "\<lambda>e. fst e = v"]
      by (simp add: d count_succs)
  qed
  have d'_eq: "d' t = int (length (filter (\<lambda>e. snd e = t \<and> fst e \<notin> set (out @ [v])) es))" for t
    using d' [of t] split [of t] by simp
  have new: "set ns = {t \<in> set (succs es v). d' t = 0}"
  proof
    show "set ns \<subseteq> {t \<in> set (succs es v). d' t = 0}"
      using ns(2) d'_eq by fastforce
    have "\<forall>t. int (count_list (succs es v) t) \<le> max 0 (d t)" using split by fastforce
    then show "{t \<in> set (succs es v). d' t = 0} \<subseteq> set ns" using full by blast
  qed
  have topo': "topo_sorted es (out @ [v])"
  proof (rule topo_sorted_snoc [OF topo])
    fix u
    assume "(u, v) \<in> set es"
    moreover have "d v = 0" using zero [of v] v(2) by simp
    ultimately show "u \<in> set out"
      using d [of v] blocked_degree_0 [of v "set out" es] by simp
  qed
  have fresh: "t \<notin> set (out @ v # q)" if "t \<in> set ns" for t
  proof -
    have "0 < d t" "t \<in> set vs" using ns(2) that closed by auto
    then show ?thesis using zero [of t] by simp
  qed
  have "t \<in> set ((out @ [v]) @ q') \<longleftrightarrow> d' t = 0" if t: "t \<in> set vs" for t
  proof (cases "t \<in> set (succs es v)")
    case True
    show ?thesis
    proof
      assume "t \<in> set ((out @ [v]) @ q')"
      then have "d t = 0 \<or> t \<in> set ns" using zero [OF t] ns(1) by auto
      then show "d' t = 0" using split [of t] d' [of t] d'_eq [of t] new by fastforce
    qed (use True new ns(1) in auto)
  next
    case False
    then have "count_list (succs es v) t = 0" by (simp add: count_list_0_iff)
    then have "d' t = d t" using d' [of t] by simp
    moreover have "t \<notin> set ns" using False new by auto
    ultimately show ?thesis using zero [OF t] ns(1) by auto
  qed
  moreover have "distinct ((out @ [v]) @ q')" "set ((out @ [v]) @ q') \<subseteq> set vs"
    using dist sub fresh ns(1,3) new closed by auto
  ultimately show ?thesis
    unfolding kahn_inv_def using topo' d'_eq by blast
qed

lemma kahn_loop_inv:
  assumes "kahn_inv vs es d q out" and "set es \<subseteq> set vs \<times> set vs"
  shows "\<exists>d'. kahn_inv vs es d' [] (kahn_loop es d q out)"
  using assms
proof (induction es d q out rule: kahn_loop.induct)
  case (1 es d out)
  then show ?case by auto
next
  case (2 es d v q out)
  obtain d' q' where r: "relax (sort (succs es v)) d q = (d', q')" by fastforce
  have "kahn_inv vs es d' q' (out @ [v])"
    using "2.prems" r by (rule kahn_inv_step)
  then show ?case using "2.IH" [OF r [symmetric]] "2.prems"(2) by (simp add: r)
qed

lemma kahn_inv_init:
  assumes "distinct vs"
  shows "kahn_inv vs es (indegree es) (sort (filter (\<lambda>v. indegree es v = 0) vs)) []"
  using assms by (auto simp: kahn_inv_def indegree_def)

locale topo_sorter =
  fixes order :: "'a::linorder list \<Rightarrow> 'a arcs \<Rightarrow> 'a list"
  assumes order_distinct: "distinct vs \<Longrightarrow> set es \<subseteq> set vs \<times> set vs \<Longrightarrow> distinct (order vs es)"
    and order_subset: "distinct vs \<Longrightarrow> set es \<subseteq> set vs \<times> set vs \<Longrightarrow> set (order vs es) \<subseteq> set vs"
    and order_topo: "distinct vs \<Longrightarrow> set es \<subseteq> set vs \<times> set vs \<Longrightarrow> topo_sorted es (order vs es)"
    and order_saturated: "distinct vs \<Longrightarrow> set es \<subseteq> set vs \<times> set vs \<Longrightarrow> v \<in> set vs \<Longrightarrow>
      (\<And>u. (u, v) \<in> set es \<Longrightarrow> u \<in> set (order vs es)) \<Longrightarrow> v \<in> set (order vs es)"
begin

lemma order_rank:
  assumes "distinct vs" and "set es \<subseteq> set vs \<times> set vs" and "set (order vs es) = set vs"
  obtains rank where "\<And>u v. (u, v) \<in> set es \<Longrightarrow> rank u < rank v"
    and "\<And>v. v \<in> set vs \<Longrightarrow> rank v < length vs"
proof
  let ?xs = "order vs es"
  define rank where "rank v = length (takeWhile (\<lambda>x. x \<noteq> v) ?xs)" for v
  have len: "length ?xs = length vs"
    using assms order_distinct by (metis distinct_card)
  show "rank u < rank v" if e: "(u, v) \<in> set es" for u v
  proof -
    have v: "v \<in> set ?xs" using that assms by auto
    then obtain ys zs where xs: "?xs = ys @ v # zs" and nv: "v \<notin> set ys"
      by (meson split_list_first)
    have "u \<in> set ys"
      using order_topo [OF assms(1,2)] xs e unfolding topo_sorted_def by blast
    then obtain ys1 ys2 where ys: "ys = ys1 @ u # ys2" and nu: "u \<notin> set ys1"
      by (meson split_list_first)
    have 1: "takeWhile (\<lambda>x. x \<noteq> v) ?xs = ys"
      using nv by (auto simp: xs takeWhile_append)
    have 2: "takeWhile (\<lambda>x. x \<noteq> u) ?xs = ys1"
      using nu by (auto simp: xs ys takeWhile_append)
    show ?thesis by (simp only: rank_def 1 2) (simp add: ys)
  qed
  show "rank v < length vs" if "v \<in> set vs" for v
  proof -
    have v: "v \<in> set ?xs" using that assms by auto
    then obtain ys zs where xs: "?xs = ys @ v # zs" and nv: "v \<notin> set ys"
      by (meson split_list_first)
    have 1: "takeWhile (\<lambda>x. x \<noteq> v) ?xs = ys"
      using nv by (auto simp: xs takeWhile_append)
    have "length ys < length ?xs" by (simp add: xs)
    then show ?thesis by (simp only: rank_def 1 len)
  qed
qed

lemma complete_iff_acyclic:
  assumes vs: "distinct vs" "set es \<subseteq> set vs \<times> set vs"
  shows "length (order vs es) = length vs \<longleftrightarrow> acyclic (set es)"
proof
  assume "length (order vs es) = length vs"
  then have "set (order vs es) = set vs"
    using order_distinct [OF vs] order_subset [OF vs] vs(1)
    by (metis List.finite_set card_subset_eq distinct_card)
  then show "acyclic (set es)"
  proof (rule order_rank [OF vs])
    fix rank :: "'a \<Rightarrow> nat"
    assume "\<And>u v. (u, v) \<in> set es \<Longrightarrow> rank u < rank v"
    then have "set es \<subseteq> measure rank" by auto
    then show "acyclic (set es)" by (rule wf_acyclic [OF wf_subset [OF wf_measure]])
  qed
next
  assume "acyclic (set es)"
  then have wf: "wf (set es)" by (simp add: finite_acyclic_wf)
  have "v \<in> set (order vs es)" if "v \<in> set vs" for v
    using wf that
  proof (induction v rule: wf_induct_rule)
    case (less v)
    show ?case
    proof (rule order_saturated [OF vs less.prems])
      fix u
      assume "(u, v) \<in> set es"
      then show "u \<in> set (order vs es)" using less.IH vs(2) by auto
    qed
  qed
  then have "set (order vs es) = set vs" using order_subset [OF vs] by auto
  then show "length (order vs es) = length vs"
    using order_distinct [OF vs] vs(1) by (metis distinct_card)
qed

end

lemma kahn_order_inv:
  "distinct vs \<Longrightarrow> set es \<subseteq> set vs \<times> set vs \<Longrightarrow> \<exists>d. kahn_inv vs es d [] (kahn_order vs es)"
  unfolding kahn_order_def by (intro kahn_loop_inv kahn_inv_init)

interpretation kahn: topo_sorter kahn_order
proof unfold_locales
  fix vs :: "'a list" and es
  assume vs: "distinct vs" "set es \<subseteq> set vs \<times> set vs"
  obtain d where inv: "kahn_inv vs es d [] (kahn_order vs es)"
    using kahn_order_inv [OF vs] by blast
  then show "distinct (kahn_order vs es)" "set (kahn_order vs es) \<subseteq> set vs"
    "topo_sorted es (kahn_order vs es)"
    by (simp_all add: kahn_inv_def)
next
  fix vs :: "'a list" and es v
  assume vs: "distinct vs" "set es \<subseteq> set vs \<times> set vs" "v \<in> set vs"
    and p: "\<And>u. (u, v) \<in> set es \<Longrightarrow> u \<in> set (kahn_order vs es)"
  obtain d where inv: "kahn_inv vs es d [] (kahn_order vs es)"
    using kahn_order_inv [OF vs(1,2)] by blast
  then have "d v = 0"
    using p blocked_degree_0 [of v "set (kahn_order vs es)" es] by (simp add: kahn_inv_def)
  then show "v \<in> set (kahn_order vs es)"
    using inv vs(3) by (simp add: kahn_inv_def)
qed

lemma contains_cycle_iff:
  "distinct vs \<Longrightarrow> set es \<subseteq> set vs \<times> set vs \<Longrightarrow> contains_cycle vs es \<longleftrightarrow> \<not> acyclic (set es)"
  by (simp add: contains_cycle_order kahn.complete_iff_acyclic)

end
