(* ===== verification/Graph_Model.thy ===== *)
theory Graph_Model
  imports Canonical_Json "HOL-Library.Product_Lexorder" "HOL-Library.Multiset"
begin

text \<open>
  \<open>workflow/graph_model.py\<close>: normalisation of an author graph before it is hashed and
  compiled. Set-like fields (candidate paths, recommendations, the operands of \<open>in\<close>, nodes and
  edges) are sorted; the order of command templates is kept, because it is execution order.
\<close>

fun normalize_command_templates :: "string list list \<Rightarrow> string list list \<Rightarrow> string list list" where
  \<comment> \<open>the loop, with \<open>seen\<close>\<close>
  "normalize_command_templates seen [] = []"
| "normalize_command_templates seen (command # commands) =
     (if command \<in> set seen then normalize_command_templates seen commands
      else command # normalize_command_templates (command # seen) commands)"

definition normalize_condition :: "IfCondition \<Rightarrow> IfCondition" where
  "normalize_condition c =
     (case if_value c of
        Some (IfList xs) \<Rightarrow>
          (if operator c = IN then c\<lparr>if_value := Some (IfList (sorted_set xs))\<rparr> else c)
      | _ \<Rightarrow> c)"

definition recommendation_key :: "AgentRecommendation \<Rightarrow> string \<times> int \<times> string" where
  "recommendation_key r = (rec_agent_id r, - rec_score r, rec_reason r)"

definition normalize_node :: "WorkflowNode \<Rightarrow> WorkflowNode" where
  "normalize_node n =
     n\<lparr>if_condition := map_option normalize_condition (if_condition n),
       recommended_agents := sort_key recommendation_key (recommended_agents n),
       allowed_files_candidate := sort (allowed_files_candidate n),
       new_files_candidate := sort (new_files_candidate n)\<rparr>"

definition normalize_author_graph :: "AuthorGraph \<Rightarrow> AuthorGraph" where
  "normalize_author_graph g =
     \<lparr>schema_version = schema_version g,
      nodes = sort_key node_id (map normalize_node (nodes g)),
      edges = sort_key edge_id (edges g)\<rparr>"

subsection \<open>Properties\<close>

lemma normalize_commands_filter:
  "normalize_command_templates seen cs = dedup (filter (\<lambda>c. c \<notin> set seen) cs)"
proof (induction cs arbitrary: seen)
  case (Cons c cs)
  have "filter (\<lambda>d. d \<noteq> c) (filter (\<lambda>d. d \<notin> set seen) cs) = filter (\<lambda>d. d \<notin> set (c # seen)) cs"
    by (simp add: filter_filter conj_commute)
  then show ?case using Cons by simp
qed simp

lemma normalize_commands [simp]: "normalize_command_templates [] cs = dedup cs"
  by (simp add: normalize_commands_filter)

lemma node_id_normalize [simp]: "node_id (normalize_node n) = node_id n"
  by (simp add: normalize_node_def)

lemma sort_key_perm:
  assumes "mset xs = mset ys" "distinct (map f xs)"
  shows "sort_key f xs = sort_key f ys"
proof (rule sort_key_inj_key_eq)
  show "mset xs = mset (sort_key f ys)" using assms(1) by simp
  show "inj_on f (set xs)" using assms(2) by (simp add: distinct_map)
qed simp

lemma normalize_condition_idem [simp]: "normalize_condition (normalize_condition c) = normalize_condition c"
  by (auto simp: normalize_condition_def sort_key_id_if_sorted distinct_remdups_id
      split: option.splits if_value.splits)

lemma normalize_node_idem [simp]: "normalize_node (normalize_node n) = normalize_node n"
  by (simp add: normalize_node_def option.map_comp comp_def sort_key_id_if_sorted)

lemma map_normalize_sorted:
  "map normalize_node (sort_key node_id (map normalize_node ns)) = sort_key node_id (map normalize_node ns)"
  by (rule map_idI) auto

lemma normalize_node_fields [simp]:
  "node_type (normalize_node n) = node_type n" "task_kind (normalize_node n) = task_kind n"
  "requires_write (normalize_node n) = requires_write n"
  "system_managed (normalize_node n) = system_managed n"
  "effective_allowed_commands (normalize_node n) = effective_allowed_commands n"
  by (simp_all add: normalize_node_def)

lemma normalize_perm:
  assumes "schema_version g = schema_version h"
    and "mset (nodes g) = mset (nodes h)" "mset (edges g) = mset (edges h)"
    and "distinct (map node_id (nodes g))" "distinct (map edge_id (edges g))"
  shows "normalize_author_graph g = normalize_author_graph h"
proof -
  have "sort_key node_id (map normalize_node (nodes g)) = sort_key node_id (map normalize_node (nodes h))"
    using assms by (intro sort_key_perm) (simp_all add: comp_def)
  moreover have "sort_key edge_id (edges g) = sort_key edge_id (edges h)"
    using assms by (intro sort_key_perm)
  ultimately show ?thesis using assms(1) by (simp add: normalize_author_graph_def)
qed

text \<open>
  Normalisation is canonical: it is idempotent, and graphs that list the same uniquely named
  nodes and edges in another order have the same normal form, hence the same canonical JSON and
  the same \<open>source_author_hash\<close>.
\<close>

theorem normalization_is_canonical:
  assumes "schema_version g = schema_version h"
    and "mset (nodes g) = mset (nodes h)" "mset (edges g) = mset (edges h)"
    and "distinct (map node_id (nodes g))" "distinct (map edge_id (edges g))"
  shows "normalize_author_graph (normalize_author_graph g) = normalize_author_graph g \<and>
    normalize_author_graph g = normalize_author_graph h \<and>
    canonical_author (normalize_author_graph g) = canonical_author (normalize_author_graph h)"
proof -
  have "normalize_author_graph (normalize_author_graph g) = normalize_author_graph g"
    by (simp add: normalize_author_graph_def map_normalize_sorted sort_key_id_if_sorted)
  then show ?thesis using normalize_perm [OF assms] by simp
qed

lemma normalization_is_canonical_witness:
  "normalize_author_graph \<lparr>schema_version = ''1'', nodes = [new_node ''b'' OUTPUT ''o'', new_node ''a'' INPUT ''i''], edges = []\<rparr> =
   normalize_author_graph \<lparr>schema_version = ''1'', nodes = [new_node ''a'' INPUT ''i'', new_node ''b'' OUTPUT ''o''], edges = []\<rparr>"
  using normalization_is_canonical
    [of "\<lparr>schema_version = ''1'', nodes = [new_node ''b'' OUTPUT ''o'', new_node ''a'' INPUT ''i''], edges = []\<rparr>"
        "\<lparr>schema_version = ''1'', nodes = [new_node ''a'' INPUT ''i'', new_node ''b'' OUTPUT ''o''], edges = []\<rparr>"]
  by (simp add: new_node_def)

end
