(* ===== verification/Router.thy ===== *)
theory Router
  imports Graph_Model
begin

text \<open>
  \<open>master/router.py\<close>: assignment of an agent to a task node from an immutable catalog
  snapshot, with the ranking it records, and the consistency checks of its result type.
\<close>

subsection \<open>The catalog\<close>

datatype AgentCapability =
  READ_CODE | ANALYZE | IMPLEMENT | WRITE_FILES | GENERATE_PATCH | RUN_TESTS | REVIEW | DOCS
  | RISK_REVIEW

fun AgentCapability_value :: "AgentCapability \<Rightarrow> string" where
  "AgentCapability_value READ_CODE = ''read_code''"
| "AgentCapability_value ANALYZE = ''analyze''"
| "AgentCapability_value IMPLEMENT = ''implement''"
| "AgentCapability_value WRITE_FILES = ''write_files''"
| "AgentCapability_value GENERATE_PATCH = ''generate_patch''"
| "AgentCapability_value RUN_TESTS = ''run_tests''"
| "AgentCapability_value REVIEW = ''review''"
| "AgentCapability_value DOCS = ''docs''"
| "AgentCapability_value RISK_REVIEW = ''risk_review''"

datatype RoutingDecision = ASSIGNED | BLOCKED_UNAVAILABLE | NOT_APPLICABLE

record AgentSpec =
  agent_id :: string
  display_name :: string
  adapter_type :: string
  spec_sha256 :: string
  capabilities :: "AgentCapability set"
  enabled :: bool
  available :: bool
  auto_assignable :: bool
  unavailable_reason :: "string option"

definition can_run :: "AgentSpec \<Rightarrow> bool" where
  "can_run a \<longleftrightarrow> enabled a \<and> available a"

record AgentCatalog =
  agents :: "AgentSpec list"
  catalog_hash :: string

definition valid_catalog :: "AgentCatalog \<Rightarrow> bool" where
  \<comment> \<open>\<open>validate_unique_agent_ids\<close> and the bound of the field\<close>
  "valid_catalog c \<longleftrightarrow>
     length (agents c) \<le> 100 \<and>
     length (map agent_id (agents c)) = length (remdups (map agent_id (agents c)))"

definition find_by_id :: "AgentCatalog \<Rightarrow> string \<Rightarrow> AgentSpec option" where
  "find_by_id c i = List.find (\<lambda>a. agent_id a = i) (agents c)"

definition find_available_by_type :: "AgentCatalog \<Rightarrow> string \<Rightarrow> AgentSpec option" where
  "find_available_by_type c t =
     (case sort_key agent_id (filter (\<lambda>a. adapter_type a = t \<and> can_run a) (agents c)) of
        [] \<Rightarrow> None | a # _ \<Rightarrow> Some a)"

record AgentScore =
  score_agent_id :: string
  score_spec_sha256 :: string
  score_value :: int
  score_reason :: string

record RoutingResult =
  decision :: RoutingDecision
  result_agent_id :: "string option"
  result_spec_sha256 :: "string option"
  result_score :: "int option"
  result_reason :: "string option"
  blocked_reason :: "string option"
  ranked_candidates :: "AgentScore list"

definition validate_decision_shape :: "RoutingResult \<Rightarrow> bool" where
  "validate_decision_shape r \<longleftrightarrow>
     (decision r = ASSIGNED \<longrightarrow> result_agent_id r \<noteq> None \<and> result_spec_sha256 r \<noteq> None) \<and>
     (decision r \<noteq> ASSIGNED \<longrightarrow> result_agent_id r = None \<and> result_spec_sha256 r = None) \<and>
     (decision r = BLOCKED_UNAVAILABLE \<longrightarrow>
        (case blocked_reason r of None \<Rightarrow> False | Some m \<Rightarrow> m \<noteq> []))"

definition blocked_result :: "string \<Rightarrow> RoutingResult" where
  "blocked_result m =
     \<lparr>decision = BLOCKED_UNAVAILABLE, result_agent_id = None, result_spec_sha256 = None,
      result_score = None, result_reason = None, blocked_reason = Some m, ranked_candidates = []\<rparr>"

subsection \<open>Requirements and scores\<close>

fun task_capability :: "TaskKind \<Rightarrow> AgentCapability" where
  "task_capability TaskKind.ANALYZE = ANALYZE"
| "task_capability TaskKind.IMPLEMENT = IMPLEMENT"
| "task_capability TaskKind.REVIEW = REVIEW"
| "task_capability TaskKind.DOCS = DOCS"
| "task_capability TEST_FIX = RUN_TESTS"

fun capability_weight :: "AgentCapability \<Rightarrow> int" where
  "capability_weight READ_CODE = 10"
| "capability_weight ANALYZE = 15"
| "capability_weight IMPLEMENT = 20"
| "capability_weight WRITE_FILES = 20"
| "capability_weight GENERATE_PATCH = 20"
| "capability_weight RUN_TESTS = 15"
| "capability_weight REVIEW = 15"
| "capability_weight DOCS = 15"
| "capability_weight RISK_REVIEW = 10"

definition requirements :: "TaskKind \<Rightarrow> bool \<Rightarrow> AgentCapability list" where
  \<comment> \<open>the set, each member once\<close>
  "requirements kind writes =
     remdups ([READ_CODE, task_capability kind] @ (if writes then [WRITE_FILES, GENERATE_PATCH] else []))"

definition capability_names :: "AgentCapability list \<Rightarrow> string" where
  "capability_names cs =
     join_with '', '' (map AgentCapability_value (sort_key AgentCapability_value cs))"

definition agent_score :: "WorkflowNode \<Rightarrow> AgentCapability list \<Rightarrow> AgentSpec \<Rightarrow> AgentScore" where
  "agent_score n reqs a =
     (let base = 20 + sum_list (map capability_weight reqs);
          bonus = (risk_level_hint n \<in> set [L2, L3, L4] \<and> RISK_REVIEW \<in> capabilities a)
      in \<lparr>score_agent_id = agent_id a, score_spec_sha256 = spec_sha256 a,
          score_value = min 100 (base + (if bonus then capability_weight RISK_REVIEW else 0)),
          score_reason = ''matches required capabilities: '' @ capability_names reqs @
            (if bonus then ''; elevated-risk review capability bonus'' else [])\<rparr>)"

definition missing :: "AgentCapability list \<Rightarrow> AgentSpec \<Rightarrow> AgentCapability list" where
  "missing reqs a = filter (\<lambda>c. c \<notin> capabilities a) reqs"

definition eligible :: "AgentCapability list \<Rightarrow> AgentSpec \<Rightarrow> bool" where
  "eligible reqs a \<longleftrightarrow> can_run a \<and> auto_assignable a \<and> missing reqs a = []"

definition rank_key :: "AgentScore \<Rightarrow> int \<times> string" where
  "rank_key s = (- score_value s, score_agent_id s)"

subsection \<open>Routing\<close>

definition route_auto :: "AgentCatalog \<Rightarrow> WorkflowNode \<Rightarrow> RoutingResult" where
  "route_auto c n =
     (case task_kind n of
        None \<Rightarrow> blocked_result ''auto agent_task requires task_kind''
      | Some kind \<Rightarrow>
          (let reqs = requirements kind (requires_write n);
               ranked = sort_key rank_key (map (agent_score n reqs) (filter (eligible reqs) (agents c)))
           in case ranked of
                [] \<Rightarrow> blocked_result
                  (''no enabled, available, auto-assignable agent satisfies required capabilities: '' @
                   capability_names reqs)
              | selected # _ \<Rightarrow>
                  \<lparr>decision = ASSIGNED, result_agent_id = Some (score_agent_id selected),
                   result_spec_sha256 = Some (score_spec_sha256 selected),
                   result_score = Some (score_value selected),
                   result_reason = Some (score_reason selected), blocked_reason = None,
                   ranked_candidates = ranked\<rparr>))"

definition route_explicit :: "AgentCatalog \<Rightarrow> WorkflowNode \<Rightarrow> RoutingResult" where
  "route_explicit c n =
     (let mode = AssignmentMode_value (assignment_mode n) in
      case task_kind n of
        None \<Rightarrow> blocked_result (mode @ '' agent_task requires task_kind'')
      | Some kind \<Rightarrow>
          (case assigned_agent n of
             None \<Rightarrow> blocked_result (mode @ '' assignment requires assigned_agent'')
           | Some i \<Rightarrow>
               (case find_by_id c i of
                  None \<Rightarrow> blocked_result (''assigned agent '' @ i @ '' not in catalog'')
                | Some a \<Rightarrow>
                    (if \<not> enabled a
                     then blocked_result (''assigned agent '' @ agent_id a @ '' is disabled'')
                     else if \<not> available a
                     then blocked_result (''assigned agent '' @ agent_id a @ '' is unavailable: '' @
                       (case unavailable_reason a of
                          Some (x # xs) \<Rightarrow> x # xs
                        | _ \<Rightarrow> ''availability probe failed''))
                     else let lacking = missing (requirements kind (requires_write n)) a in
                       if lacking \<noteq> []
                       then blocked_result (''assigned agent '' @ agent_id a @
                         '' lacks required capabilities: '' @ capability_names lacking)
                       else \<lparr>decision = ASSIGNED, result_agent_id = Some (agent_id a),
                             result_spec_sha256 = Some (spec_sha256 a), result_score = None,
                             result_reason = Some (''preserved '' @ mode @ '' assignment''),
                             blocked_reason = None, ranked_candidates = []\<rparr>))))"

definition route :: "AgentCatalog \<Rightarrow> WorkflowNode \<Rightarrow> RoutingResult" where
  "route c n =
     (if node_type n \<noteq> AGENT_TASK
      then \<lparr>decision = NOT_APPLICABLE, result_agent_id = None, result_spec_sha256 = None,
            result_score = None,
            result_reason = Some (NodeType_value (node_type n) @ '' nodes are executed by Master''),
            blocked_reason = None, ranked_candidates = []\<rparr>
      else if assignment_mode n = AUTO then route_auto c n
      else route_explicit c n)"

subsection \<open>Properties\<close>

definition satisfies :: "AgentSpec \<Rightarrow> WorkflowNode \<Rightarrow> bool" where
  "satisfies a n \<longleftrightarrow>
     can_run a \<and> (\<exists>kind. task_kind n = Some kind \<and>
       set (requirements kind (requires_write n)) \<subseteq> capabilities a)"

lemma missing_Nil: "missing reqs a = [] \<longleftrightarrow> set reqs \<subseteq> capabilities a"
  by (auto simp: missing_def filter_empty_conv)

lemma sort_key_hd_le:
  assumes "sort_key f xs = y # ys" and "x \<in> set xs"
  shows "f y \<le> f x"
proof -
  have "sorted (map f (y # ys))" using sorted_sort_key [of f xs] assms(1) by simp
  moreover have "x \<in> set (y # ys)" using assms by (metis set_sort)
  ultimately show ?thesis by auto
qed

lemma agent_score_id [simp]: "score_agent_id (agent_score n reqs a) = agent_id a"
  "score_spec_sha256 (agent_score n reqs a) = spec_sha256 a"
  by (simp_all add: agent_score_def Let_def)

lemma find_by_id_SomeD: "find_by_id c i = Some a \<Longrightarrow> a \<in> set (agents c) \<and> agent_id a = i"
  by (auto simp: find_by_id_def find_Some_iff)

lemma route_auto_assigned:
  assumes "decision (route_auto c n) = ASSIGNED"
  obtains kind a where "task_kind n = Some kind" "a \<in> set (agents c)"
    "eligible (requirements kind (requires_write n)) a"
    "result_agent_id (route_auto c n) = Some (agent_id a)"
    "result_spec_sha256 (route_auto c n) = Some (spec_sha256 a)"
    "\<And>b. b \<in> set (agents c) \<Longrightarrow> eligible (requirements kind (requires_write n)) b \<Longrightarrow>
       rank_key (agent_score n (requirements kind (requires_write n)) a) \<le>
       rank_key (agent_score n (requirements kind (requires_write n)) b)"
proof -
  obtain kind where k: "task_kind n = Some kind"
    using assms by (cases "task_kind n") (auto simp: route_auto_def blocked_result_def)
  let ?r = "requirements kind (requires_write n)"
  let ?xs = "map (agent_score n ?r) (filter (eligible ?r) (agents c))"
  obtain s ss where s: "sort_key rank_key ?xs = s # ss"
    using assms k by (cases "sort_key rank_key ?xs") (auto simp: route_auto_def blocked_result_def Let_def)
  have "s \<in> set ?xs" using s by (metis list.set_intros(1) set_sort)
  then obtain a where a: "a \<in> set (agents c)" "eligible ?r a" "s = agent_score n ?r a" by auto
  show ?thesis
  proof (rule that [OF k a(1,2)])
    show "result_agent_id (route_auto c n) = Some (agent_id a)"
      "result_spec_sha256 (route_auto c n) = Some (spec_sha256 a)"
      unfolding route_auto_def Let_def k option.case s list.case by (simp_all add: a(3))
    show "rank_key (agent_score n ?r a) \<le> rank_key (agent_score n ?r b)"
      if "b \<in> set (agents c)" "eligible ?r b" for b
      using sort_key_hd_le [OF s, of "agent_score n ?r b"] that a(3) by auto
  qed
qed

lemma route_explicit_assigned:
  assumes "decision (route_explicit c n) = ASSIGNED"
  obtains kind a i where "task_kind n = Some kind" "assigned_agent n = Some i" "a \<in> set (agents c)"
    "agent_id a = i" "can_run a" "set (requirements kind (requires_write n)) \<subseteq> capabilities a"
    "result_agent_id (route_explicit c n) = Some (agent_id a)"
    "result_spec_sha256 (route_explicit c n) = Some (spec_sha256 a)"
proof -
  have "\<exists>kind i a. task_kind n = Some kind \<and> assigned_agent n = Some i \<and> find_by_id c i = Some a \<and>
      can_run a \<and> missing (requirements kind (requires_write n)) a = []"
    using assms unfolding route_explicit_def Let_def blocked_result_def can_run_def
    by (simp split: option.splits if_splits)
  then obtain kind i a where k: "task_kind n = Some kind" "assigned_agent n = Some i"
      "find_by_id c i = Some a" "can_run a" "missing (requirements kind (requires_write n)) a = []"
    by blast
  show ?thesis
  proof (rule that [OF k(1,2) _ _ k(4)])
    show "a \<in> set (agents c)" "agent_id a = i" using find_by_id_SomeD [OF k(3)] by simp_all
    show "set (requirements kind (requires_write n)) \<subseteq> capabilities a"
      using k(5) by (simp only: missing_Nil)
    show "result_agent_id (route_explicit c n) = Some (agent_id a)"
      "result_spec_sha256 (route_explicit c n) = Some (spec_sha256 a)"
      using k by (simp_all add: route_explicit_def can_run_def)
  qed
qed

lemma requirements_weight:
  "sum_list (map capability_weight (requirements kind w)) \<in> {25, 30, 65, 70}"
  by (cases kind; cases w) (simp_all add: requirements_def)

lemma find_by_id_perm:
  assumes "mset (agents c) = mset (agents d)" "distinct (map agent_id (agents c))"
  shows "find_by_id c i = find_by_id d i"
proof -
  have s: "set (agents c) = set (agents d)" using assms(1) by (metis set_mset_mset)
  have d: "distinct (map agent_id (agents d))"
    using assms by (metis mset_map mset_eq_imp_distinct_iff)
  have *: "List.find (\<lambda>a. agent_id a = i) xs = Some a"
    if "a \<in> set xs" "agent_id a = i" "distinct (map agent_id xs)" for a and xs :: "AgentSpec list"
    using that by (induction xs) auto
  show ?thesis
  proof (cases "\<exists>a \<in> set (agents c). agent_id a = i")
    case True
    then obtain a where a: "a \<in> set (agents c)" "agent_id a = i" by blast
    then have "a \<in> set (agents d)" using s by simp
    then show ?thesis
      unfolding find_by_id_def using * [OF a assms(2)] * [OF _ a(2) d] by simp
  next
    case False
    then have "List.find (\<lambda>a. agent_id a = i) (agents c) = None"
      "List.find (\<lambda>a. agent_id a = i) (agents d) = None"
      unfolding find_None_iff s [symmetric] by blast+
    then show ?thesis by (simp add: find_by_id_def)
  qed
qed

lemma ranked_perm:
  assumes "mset (agents c) = mset (agents d)" "distinct (map agent_id (agents c))"
  shows "sort_key rank_key (map (agent_score n reqs) (filter (eligible reqs) (agents c))) =
    sort_key rank_key (map (agent_score n reqs) (filter (eligible reqs) (agents d)))"
proof (rule sort_key_perm)
  show "mset (map (agent_score n reqs) (filter (eligible reqs) (agents c))) =
    mset (map (agent_score n reqs) (filter (eligible reqs) (agents d)))"
    using assms(1) by simp
  have "distinct (map agent_id (filter (eligible reqs) (agents c)))"
    using assms(2) by (rule distinct_map_filter)
  then show "distinct (map rank_key (map (agent_score n reqs) (filter (eligible reqs) (agents c))))"
    by (auto simp: distinct_map inj_on_def rank_key_def)
qed

lemma route_assigned:
  assumes "decision (route c n) = ASSIGNED"
  shows "\<exists>a \<in> set (agents c). result_agent_id (route c n) = Some (agent_id a) \<and>
    result_spec_sha256 (route c n) = Some (spec_sha256 a) \<and> satisfies a n \<and>
    (if assignment_mode n = AUTO
     then auto_assignable a \<and> (\<forall>kind b. task_kind n = Some kind \<longrightarrow> b \<in> set (agents c) \<longrightarrow>
       eligible (requirements kind (requires_write n)) b \<longrightarrow>
       rank_key (agent_score n (requirements kind (requires_write n)) a) \<le>
       rank_key (agent_score n (requirements kind (requires_write n)) b))
     else assigned_agent n = Some (agent_id a))"
proof (cases "assignment_mode n = AUTO")
  case True
  have r: "route c n = route_auto c n" using assms True by (auto simp: route_def split: if_splits)
  then have "decision (route_auto c n) = ASSIGNED" using assms by simp
  then obtain kind a where k: "task_kind n = Some kind" and a: "a \<in> set (agents c)"
      "eligible (requirements kind (requires_write n)) a"
      "result_agent_id (route_auto c n) = Some (agent_id a)"
      "result_spec_sha256 (route_auto c n) = Some (spec_sha256 a)"
    and best: "\<And>b. b \<in> set (agents c) \<Longrightarrow> eligible (requirements kind (requires_write n)) b \<Longrightarrow>
       rank_key (agent_score n (requirements kind (requires_write n)) a) \<le>
       rank_key (agent_score n (requirements kind (requires_write n)) b)"
    by (rule route_auto_assigned) blast
  have "satisfies a n" "auto_assignable a"
    using a(2) k by (simp_all add: satisfies_def eligible_def missing_Nil)
  then show ?thesis unfolding r using True a best k by (intro bexI [of _ a]) auto
next
  case False
  have r: "route c n = route_explicit c n" using assms False by (auto simp: route_def split: if_splits)
  then have "decision (route_explicit c n) = ASSIGNED" using assms by simp
  then obtain kind a i where k: "task_kind n = Some kind" "assigned_agent n = Some i"
      "agent_id a = i" "can_run a" "set (requirements kind (requires_write n)) \<subseteq> capabilities a"
    and a: "a \<in> set (agents c)" "result_agent_id (route_explicit c n) = Some (agent_id a)"
      "result_spec_sha256 (route_explicit c n) = Some (spec_sha256 a)"
    by (rule route_explicit_assigned) blast
  have "satisfies a n" using k by (simp add: satisfies_def)
  then show ?thesis unfolding r using False a k by (intro bexI [of _ a]) auto
qed

text \<open>
  A node that the router assigns goes to an agent of the catalog, with that agent's own
  specification hash, which is enabled, available and has every capability the task requires.
  In automatic mode no eligible agent ranks better (a higher score, or the same score and a
  smaller id); in manual and locked mode it is the agent the author named, never another.
\<close>

theorem assigned_agent_is_capable:
  assumes "decision (route c n) = ASSIGNED"
  shows "\<exists>a \<in> set (agents c). result_agent_id (route c n) = Some (agent_id a) \<and>
    result_spec_sha256 (route c n) = Some (spec_sha256 a) \<and> satisfies a n \<and>
    (if assignment_mode n = AUTO
     then auto_assignable a \<and> (\<forall>kind b. task_kind n = Some kind \<longrightarrow> b \<in> set (agents c) \<longrightarrow>
       eligible (requirements kind (requires_write n)) b \<longrightarrow>
       rank_key (agent_score n (requirements kind (requires_write n)) a) \<le>
       rank_key (agent_score n (requirements kind (requires_write n)) b))
     else assigned_agent n = Some (agent_id a))"
  by (rule route_assigned [OF assms])

text \<open>
  The ordering of the catalog never changes a routing outcome: over two catalogs that list
  the same uniquely named agents, the whole result is the same, ranking and reasons included.
\<close>

theorem routing_ignores_catalog_order:
  assumes "valid_catalog c" and "mset (agents c) = mset (agents d)"
  shows "route c n = route d n"
proof -
  have d: "distinct (map agent_id (agents c))"
    using assms(1) unfolding valid_catalog_def by (metis length_remdups_card_conv card_distinct)
  have "route_auto c n = route_auto d n"
    unfolding route_auto_def ranked_perm [OF assms(2) d] ..
  moreover have "route_explicit c n = route_explicit d n"
    unfolding route_explicit_def find_by_id_perm [OF assms(2) d] ..
  ultimately show ?thesis by (simp add: route_def)
qed

text \<open>
  Every routing result passes the checks of its own constructor: an assignment carries a
  complete identity, a refusal none and always a reason, and every recorded score is between 0
  and 100, where the cap at 100 never has to cut a score.
\<close>

theorem routing_results_are_well_formed:
  "validate_decision_shape (route c n) \<and>
   (\<forall>s \<in> set (ranked_candidates (route c n)). 0 \<le> score_value s \<and> score_value s \<le> 100) \<and>
   20 + sum_list (map capability_weight (requirements kind w)) + capability_weight RISK_REVIEW \<le> 100"
proof (intro conjI)
  have score: "0 \<le> score_value (agent_score n (requirements k w) a) \<and>
      score_value (agent_score n (requirements k w) a) \<le> 100" for k w a
    using requirements_weight [of k w] by (auto simp: agent_score_def Let_def)
  have "validate_decision_shape (route_auto c n)"
    unfolding route_auto_def Let_def validate_decision_shape_def blocked_result_def
    by (simp split: option.split list.split)
  moreover have "validate_decision_shape (route_explicit c n)"
    unfolding route_explicit_def Let_def validate_decision_shape_def blocked_result_def
    by (simp split: option.split list.split)
  ultimately show "validate_decision_shape (route c n)"
    unfolding route_def by (simp add: validate_decision_shape_def)
  have "\<exists>k w a. s = agent_score n (requirements k w) a"
    if s: "s \<in> set (ranked_candidates (route_auto c n))" for s
  proof (cases "task_kind n")
    case (Some kind)
    let ?xs = "map (agent_score n (requirements kind (requires_write n)))
      (filter (eligible (requirements kind (requires_write n))) (agents c))"
    have "ranked_candidates (route_auto c n) = [] \<or>
        ranked_candidates (route_auto c n) = sort_key rank_key ?xs"
      unfolding route_auto_def Let_def blocked_result_def Some by (simp split: list.split)
    then have "s \<in> set ?xs" using s by (auto simp del: set_map)
    then show ?thesis by auto
  qed (use s in \<open>simp add: route_auto_def blocked_result_def\<close>)
  moreover have "ranked_candidates (route_explicit c n) = []"
    unfolding route_explicit_def Let_def blocked_result_def by (simp split: option.split)
  ultimately show "\<forall>s \<in> set (ranked_candidates (route c n)). 0 \<le> score_value s \<and> score_value s \<le> 100"
    using score unfolding route_def by (auto split: if_splits)
  show "20 + sum_list (map capability_weight (requirements kind w)) + capability_weight RISK_REVIEW \<le> 100"
    using requirements_weight [of kind w] by auto
qed

subsection \<open>Instances\<close>

definition sample_agent :: "string \<Rightarrow> AgentSpec" where
  "sample_agent i = \<lparr>agent_id = i, display_name = i, adapter_type = ''cli'', spec_sha256 = ''h'',
     capabilities = {READ_CODE, ANALYZE, DOCS}, enabled = True, available = True,
     auto_assignable = True, unavailable_reason = None\<rparr>"

definition sample_catalog :: "string list \<Rightarrow> AgentCatalog" where
  "sample_catalog ids = \<lparr>agents = map sample_agent ids, catalog_hash = ''c''\<rparr>"

definition sample_task :: WorkflowNode where
  "sample_task = (new_node ''t'' AGENT_TASK ''t'')\<lparr>task_kind := Some TaskKind.DOCS\<rparr>"

lemma assigned_agent_is_capable_witness:
  "result_agent_id (route (sample_catalog [''b'', ''a'']) sample_task) = Some ''a'' \<and>
   (\<exists>a \<in> set (agents (sample_catalog [''b'', ''a''])). satisfies a sample_task)"
proof -
  have "decision (route (sample_catalog [''b'', ''a'']) sample_task) = ASSIGNED"
    "result_agent_id (route (sample_catalog [''b'', ''a'']) sample_task) = Some ''a''"
    by code_simp+
  then show ?thesis using assigned_agent_is_capable by blast
qed

lemma routing_ignores_catalog_order_witness:
  "route (sample_catalog [''b'', ''a'']) sample_task = route (sample_catalog [''a'', ''b'']) sample_task"
  by (rule routing_ignores_catalog_order) (simp_all add: valid_catalog_def sample_catalog_def sample_agent_def)

lemma routing_results_are_well_formed_witness:
  "ranked_candidates (route (sample_catalog [''b'', ''a'']) sample_task) \<noteq> [] \<and>
   (\<exists>s \<in> set (ranked_candidates (route (sample_catalog [''b'', ''a'']) sample_task)).
      0 \<le> score_value s \<and> score_value s \<le> 100)"
proof -
  have "ranked_candidates (route (sample_catalog [''b'', ''a'']) sample_task) \<noteq> []" by code_simp
  then show ?thesis using routing_results_are_well_formed by (meson ex_in_conv set_empty)
qed

end
