(* ===== verification/Leases.thy ===== *)
theory Leases
  imports Protocol
begin

text \<open>
  \<open>storage/leases.py\<close>: the singleton scheduler lease and the workspace leases, each a row with
  a fencing token, and the transactions that read and update them. A table is a map from its
  primary key to its row, an \<open>UPDATE \<dots> WHERE\<close> changes the row only when its condition holds
  and reports how many rows it changed. Times are integers, in microseconds: \<open>utc_now_text\<close>
  writes fixed-width text with six decimals whose lexical order is time order. The end of the
  calendar (an \<open>OverflowError\<close> of \<open>timedelta\<close>) is not modelled.
\<close>

datatype lease_error = LeaseUnavailable | LeaseLost | BadArgument py_error

type_synonym time = int

definition seconds :: "int \<Rightarrow> time" where
  "seconds n = n * 1000000"

definition owner_id_ok :: "string \<Rightarrow> bool" where
  "owner_id_ok v \<longleftrightarrow> is_entity_id v"

subsection \<open>The scheduler lease\<close>

record MasterLease =
  lease_key :: string
  instance_id :: string
  process_id :: int
  fencing_token :: int
  heartbeat_at :: time
  expires_at :: time

type_synonym master_table = "string \<Rightarrow> MasterLease option"
  \<comment> \<open>a row of \<open>master_leases\<close> has the fields of the lease read from it\<close>

definition holds_row :: "master_table \<Rightarrow> MasterLease \<Rightarrow> time \<Rightarrow> bool" where
  \<comment> \<open>the \<open>WHERE\<close> of the fencing checks\<close>
  "holds_row tab l now =
     (case tab (lease_key l) of
        None \<Rightarrow> False
      | Some row \<Rightarrow> instance_id row = instance_id l \<and> process_id row = process_id l \<and>
          fencing_token row = fencing_token l \<and> now < expires_at row)"

definition master_repository :: "string \<Rightarrow> lease_error + string" where
  \<comment> \<open>the constructor: the only state of a repository is the key of its row\<close>
  "master_repository key =
     (if key = [] \<or> 128 < length key then Inl (BadArgument ValueError) else Inr key)"

definition master_acquire ::
  "string \<Rightarrow> master_table \<Rightarrow> string \<Rightarrow> int \<Rightarrow> int \<Rightarrow> time \<Rightarrow> lease_error + (master_table \<times> MasterLease)" where
  "master_acquire key tab owner pid ttl now =
     (if \<not> owner_id_ok owner then Inl (BadArgument ValidationError)
      else if pid < 1 \<or> ttl < 1 then Inl (BadArgument ValueError)
      else case tab key of
        None \<Rightarrow>
          (let row = \<lparr>lease_key = key, instance_id = owner, process_id = pid, fencing_token = 1,
                      heartbeat_at = now, expires_at = now + seconds ttl\<rparr>
           in Inr (tab(key \<mapsto> row), row))
      | Some row \<Rightarrow>
          (if now < expires_at row
           then if instance_id row \<noteq> owner \<or> process_id row \<noteq> pid then Inl LeaseUnavailable
             else let row' = row\<lparr>heartbeat_at := now, expires_at := now + seconds ttl\<rparr>
               in Inr (tab(key \<mapsto> row'), row')
           else let row' = row\<lparr>instance_id := owner, process_id := pid,
                  fencing_token := fencing_token row + 1, heartbeat_at := now,
                  expires_at := now + seconds ttl\<rparr>
             in Inr (tab(key \<mapsto> row'), row')))"

definition master_heartbeat ::
  "master_table \<Rightarrow> MasterLease \<Rightarrow> int \<Rightarrow> time \<Rightarrow> lease_error + (master_table \<times> MasterLease)" where
  "master_heartbeat tab l ttl now =
     (if ttl < 1 then Inl (BadArgument ValueError)
      else if \<not> holds_row tab l now then Inl LeaseLost
      else let row' = (the (tab (lease_key l)))\<lparr>heartbeat_at := now, expires_at := now + seconds ttl\<rparr>
        in Inr (tab(lease_key l \<mapsto> row'), row'))"

definition master_release :: "master_table \<Rightarrow> MasterLease \<Rightarrow> time \<Rightarrow> lease_error + master_table" where
  "master_release tab l now =
     (if \<not> holds_row tab l now then Inl LeaseLost
      else Inr (tab(lease_key l \<mapsto>
        (the (tab (lease_key l)))\<lparr>heartbeat_at := now, expires_at := now\<rparr>)))"

definition master_assert_valid :: "master_table \<Rightarrow> MasterLease \<Rightarrow> time \<Rightarrow> lease_error option" where
  "master_assert_valid tab l now = (if holds_row tab l now then None else Some LeaseLost)"

inductive master_step :: "master_table \<Rightarrow> MasterLease option \<Rightarrow> master_table \<Rightarrow> bool" where
  acquire: "master_acquire key tab owner pid ttl now = Inr (tab', l) \<Longrightarrow> master_step tab (Some l) tab'"
| heartbeat: "master_heartbeat tab l ttl now = Inr (tab', l') \<Longrightarrow> master_step tab (Some l') tab'"
| release: "master_release tab l now = Inr tab' \<Longrightarrow> master_step tab None tab'"

subsection \<open>Workspace leases\<close>

record WorkspaceLease =
  resource_key :: string
  owner_kind :: string
  owner_operation_id :: string
  owner_process_id :: int
  ws_fencing_token :: int
  acquired_at :: time
  ws_heartbeat_at :: time
  ws_expires_at :: time

type_synonym lock_table = "string \<Rightarrow> (WorkspaceLease \<times> time option) option"
  \<comment> \<open>a row of \<open>file_locks\<close>: the lease's fields and \<open>released_at\<close>\<close>

definition same_owner :: "WorkspaceLease \<Rightarrow> WorkspaceLease \<Rightarrow> bool" where
  "same_owner a b \<longleftrightarrow> owner_kind a = owner_kind b \<and> owner_operation_id a = owner_operation_id b \<and>
     owner_process_id a = owner_process_id b"

definition holds_lock :: "lock_table \<Rightarrow> WorkspaceLease \<Rightarrow> time \<Rightarrow> bool" where
  "holds_lock tab l now =
     (case tab (resource_key l) of
        None \<Rightarrow> False
      | Some (row, released_at) \<Rightarrow> same_owner row l \<and> ws_fencing_token row = ws_fencing_token l \<and>
          released_at = None \<and> now < ws_expires_at row)"

definition workspace_acquire ::
  "lock_table \<Rightarrow> string \<Rightarrow> string \<Rightarrow> string \<Rightarrow> int \<Rightarrow> int \<Rightarrow> time \<Rightarrow>
     lease_error + (lock_table \<times> WorkspaceLease)" where
  "workspace_acquire tab key kind operation_id pid ttl now =
     (if key = [] \<or> 1024 < length key then Inl (BadArgument ValueError)
      else if kind = [] \<or> 64 < length kind then Inl (BadArgument ValueError)
      else if \<not> owner_id_ok operation_id then Inl (BadArgument ValidationError)
      else if pid < 1 \<or> ttl < 1 then Inl (BadArgument ValueError)
      else let fresh = \<lparr>resource_key = key, owner_kind = kind, owner_operation_id = operation_id,
                        owner_process_id = pid, ws_fencing_token = 1, acquired_at = now,
                        ws_heartbeat_at = now, ws_expires_at = now + seconds ttl\<rparr>
        in case tab key of
          None \<Rightarrow> Inr (tab(key \<mapsto> (fresh, None)), fresh)
        | Some (row, released_at) \<Rightarrow>
            (if released_at = None \<and> now < ws_expires_at row
             then if \<not> same_owner row fresh then Inl LeaseUnavailable
               else let row' = row\<lparr>ws_heartbeat_at := now, ws_expires_at := now + seconds ttl\<rparr>
                 in Inr (tab(key \<mapsto> (row', None)), row')
             else let row' = fresh\<lparr>resource_key := resource_key row,
                    ws_fencing_token := ws_fencing_token row + 1\<rparr>
               in Inr (tab(key \<mapsto> (row', None)), row')))"

definition workspace_heartbeat ::
  "lock_table \<Rightarrow> WorkspaceLease \<Rightarrow> int \<Rightarrow> time \<Rightarrow> lease_error + (lock_table \<times> WorkspaceLease)" where
  "workspace_heartbeat tab l ttl now =
     (if ttl < 1 then Inl (BadArgument ValueError)
      else if \<not> holds_lock tab l now then Inl LeaseLost
      else let row' = (fst (the (tab (resource_key l))))\<lparr>ws_heartbeat_at := now, ws_expires_at := now + seconds ttl\<rparr>
        in Inr (tab(resource_key l \<mapsto> (row', None)), row'))"

definition workspace_release :: "lock_table \<Rightarrow> WorkspaceLease \<Rightarrow> time \<Rightarrow> lease_error + lock_table" where
  "workspace_release tab l now =
     (if \<not> holds_lock tab l now then Inl LeaseLost
      else let row' = (fst (the (tab (resource_key l))))\<lparr>ws_heartbeat_at := now, ws_expires_at := now\<rparr>
        in Inr (tab(resource_key l \<mapsto> (row', Some now))))"

definition workspace_assert_valid :: "lock_table \<Rightarrow> WorkspaceLease \<Rightarrow> time \<Rightarrow> lease_error option" where
  "workspace_assert_valid tab l now = (if holds_lock tab l now then None else Some LeaseLost)"

definition run_fenced ::
  "lock_table \<Rightarrow> WorkspaceLease \<Rightarrow> 'a \<Rightarrow> int \<Rightarrow> time \<Rightarrow> time \<Rightarrow>
     lease_error + ('a \<times> lock_table \<times> WorkspaceLease)" where
  \<comment> \<open>\<open>result\<close> is what the operation returns, \<open>started\<close> and \<open>renewed\<close> the two readings of the
      clock around it (equal when \<open>now\<close> is given)\<close>
  "run_fenced tab l result ttl started renewed =
     (case workspace_assert_valid tab l started of
        Some e \<Rightarrow> Inl e
      | None \<Rightarrow>
          (case workspace_heartbeat tab l ttl renewed of
             Inl e \<Rightarrow> Inl e
           | Inr (tab', l') \<Rightarrow> Inr (result, tab', l')))"

inductive workspace_step :: "lock_table \<Rightarrow> WorkspaceLease option \<Rightarrow> lock_table \<Rightarrow> bool" where
  acquire: "workspace_acquire tab key kind opid pid ttl now = Inr (tab', l) \<Longrightarrow>
    workspace_step tab (Some l) tab'"
| heartbeat: "workspace_heartbeat tab l ttl now = Inr (tab', l') \<Longrightarrow> workspace_step tab (Some l') tab'"
| release: "workspace_release tab l now = Inr tab' \<Longrightarrow> workspace_step tab None tab'"
| fenced: "run_fenced tab l () ttl now now' = Inr (r, tab', l') \<Longrightarrow> workspace_step tab (Some l') tab'"

subsection \<open>Fencing\<close>

inductive history :: "('s \<Rightarrow> 'l option \<Rightarrow> 's \<Rightarrow> bool) \<Rightarrow> 's \<Rightarrow> 'l list \<Rightarrow> 's \<Rightarrow> bool"
  for step s0 where
  start: "history step s0 [] s0"
| issuing: "history step s0 ls s \<Longrightarrow> step s (Some l) s' \<Longrightarrow> history step s0 (l # ls) s'"
| silent: "history step s0 ls s \<Longrightarrow> step s None s' \<Longrightarrow> history step s0 ls s'"

locale fenced_lease =
  fixes step :: "'s \<Rightarrow> 'l option \<Rightarrow> 's \<Rightarrow> bool"
    and inv :: "'s \<Rightarrow> bool"
    and current :: "'s \<Rightarrow> 'k \<Rightarrow> ('o \<times> int) option"
    and key :: "'l \<Rightarrow> 'k" and holder :: "'l \<Rightarrow> 'o" and token :: "'l \<Rightarrow> int"
  assumes inv_step: "inv s \<Longrightarrow> step s x s' \<Longrightarrow> inv s'"
    and issued: "inv s \<Longrightarrow> step s (Some l) s' \<Longrightarrow> current s' (key l) = Some (holder l, token l)"
    and advance: "inv s \<Longrightarrow> step s x s' \<Longrightarrow> current s k = Some (a, t) \<Longrightarrow>
      \<exists>b u. current s' k = Some (b, u) \<and> (b = a \<and> u = t \<or> t < u)"
begin

lemma inv_history: "history step s0 ls s \<Longrightarrow> inv s0 \<Longrightarrow> inv s"
  by (induction rule: history.induct) (auto intro: inv_step)

lemma token_monotone:
  assumes "history step s0 ls s" "inv s0" "current s0 k = Some (a, t)"
  shows "\<exists>b u. current s k = Some (b, u) \<and> (b = a \<and> u = t \<or> t < u)"
  using assms
proof (induction rule: history.induct)
  case (issuing ls s l s')
  then obtain b u where b: "current s k = Some (b, u)" "b = a \<and> u = t \<or> t < u" by blast
  show ?case using advance [OF inv_history [OF issuing(1) assms(2)] issuing(2) b(1)] b(2) by force
next
  case (silent ls s s')
  then obtain b u where b: "current s k = Some (b, u)" "b = a \<and> u = t \<or> t < u" by blast
  show ?case using advance [OF inv_history [OF silent(1) assms(2)] silent(2) b(1)] b(2) by force
qed simp

definition recorded :: "'s \<Rightarrow> 'l \<Rightarrow> bool" where
  "recorded s l \<longleftrightarrow> (\<exists>b u. current s (key l) = Some (b, u) \<and> (b = holder l \<and> u = token l \<or> token l < u))"

lemma recorded_step: "inv s \<Longrightarrow> step s x s' \<Longrightarrow> recorded s l \<Longrightarrow> recorded s' l"
  unfolding recorded_def using advance by fastforce

lemma all_recorded:
  "history step s0 ls s \<Longrightarrow> inv s0 \<Longrightarrow> l \<in> set ls \<Longrightarrow> recorded s l"
proof (induction rule: history.induct)
  case (issuing ls s m s')
  note i = inv_history [OF issuing(1,4)]
  show ?case
  proof (cases "l = m")
    case True
    then show ?thesis using issued [OF i issuing(2)] by (simp add: recorded_def)
  next
    case False
    then show ?thesis using issuing recorded_step [OF i issuing(2)] by simp
  qed
next
  case (silent ls s s')
  then show ?case using recorded_step [OF inv_history [OF silent(1,4)] silent(2)] by simp
qed simp

lemma one_holder_per_token:
  "history step s0 ls s \<Longrightarrow> inv s0 \<Longrightarrow> l \<in> set ls \<Longrightarrow> m \<in> set ls \<Longrightarrow> key l = key m \<Longrightarrow>
     token l = token m \<Longrightarrow> holder l = holder m"
proof (induction rule: history.induct)
  case (issuing ls s n s')
  note i = inv_history [OF issuing(1,4)]
  have new: "holder p = holder n" if p: "p \<in> set ls" "key p = key n" "token p = token n" for p
  proof -
    have "recorded s' p"
      using all_recorded [OF issuing(1,4) p(1)] recorded_step [OF i issuing(2)] by blast
    then show ?thesis using issued [OF i issuing(2)] p by (simp add: recorded_def)
  qed
  show ?case
    using issuing new [of l] new [of m] by (cases "l = n"; cases "m = n") auto
qed auto

lemma stale_forever:
  assumes "history step s0 ls s" "inv s0" "current s0 (key l) = Some (b, u)" "token l < u"
  shows "current s (key l) \<noteq> Some (a, token l)"
  using token_monotone [OF assms(1,2,3)] assms(4) by auto

end

subsection \<open>Both tables are fenced\<close>

definition master_current :: "master_table \<Rightarrow> string \<Rightarrow> ((string \<times> int) \<times> int) option" where
  "master_current tab k =
     map_option (\<lambda>r. ((instance_id r, process_id r), fencing_token r)) (tab k)"

definition master_keyed :: "master_table \<Rightarrow> bool" where
  \<comment> \<open>every row is stored under its own primary key\<close>
  "master_keyed tab \<longleftrightarrow> (\<forall>k r. tab k = Some r \<longrightarrow> lease_key r = k)"

definition lock_current :: "lock_table \<Rightarrow> string \<Rightarrow> ((string \<times> string \<times> int) \<times> int) option" where
  "lock_current tab k =
     map_option (\<lambda>(r, _). ((owner_kind r, owner_operation_id r, owner_process_id r), ws_fencing_token r))
       (tab k)"

definition lock_keyed :: "lock_table \<Rightarrow> bool" where
  "lock_keyed tab \<longleftrightarrow> (\<forall>k r d. tab k = Some (r, d) \<longrightarrow> resource_key r = k)"

lemma master_acquire_cases:
  assumes "master_acquire key tab owner pid ttl now = Inr (tab', l)" and "master_keyed tab"
  shows "tab' = tab(key \<mapsto> l) \<and> lease_key l = key \<and> instance_id l = owner \<and> process_id l = pid \<and>
    (case tab key of
       None \<Rightarrow> fencing_token l = 1
     | Some r \<Rightarrow> (if now < expires_at r
         then instance_id r = owner \<and> process_id r = pid \<and> fencing_token l = fencing_token r
         else fencing_token l = fencing_token r + 1))"
  using assms unfolding master_acquire_def Let_def master_keyed_def
  by (cases "tab key") (auto split: if_splits)

lemma holds_rowD:
  assumes "holds_row tab l now"
  shows "\<exists>r. tab (lease_key l) = Some r \<and> instance_id r = instance_id l \<and>
    process_id r = process_id l \<and> fencing_token r = fencing_token l \<and> now < expires_at r"
  using assms by (auto simp: holds_row_def split: option.splits)

lemma master_step_cases:
  assumes "master_step tab x tab'" and "master_keyed tab"
  obtains k r where "tab' = tab(k \<mapsto> r)" "lease_key r = k" "x \<noteq> None \<longrightarrow> x = Some r"
    "\<forall>q. tab k = Some q \<longrightarrow>
       (instance_id r = instance_id q \<and> process_id r = process_id q \<and> fencing_token r = fencing_token q) \<or>
       fencing_token q < fencing_token r"
  using assms(1)
proof cases
  case (acquire key owner pid ttl now l)
  have "\<forall>q. tab key = Some q \<longrightarrow>
       (instance_id l = instance_id q \<and> process_id l = process_id q \<and> fencing_token l = fencing_token q) \<or>
       fencing_token q < fencing_token l"
    using master_acquire_cases [OF acquire(2) assms(2)] by (auto split: if_splits)
  then show ?thesis
    by (intro that [of key l]) (use master_acquire_cases [OF acquire(2) assms(2)] acquire(1) in \<open>auto\<close>)
next
  case (heartbeat l ttl now l')
  then have h: "holds_row tab l now" "tab' = tab(lease_key l \<mapsto> l')"
      "l' = (the (tab (lease_key l)))\<lparr>heartbeat_at := now, expires_at := now + seconds ttl\<rparr>"
    by (auto simp: master_heartbeat_def Let_def split: if_splits)
  obtain r where "tab (lease_key l) = Some r" using holds_rowD [OF h(1)] by blast
  then show ?thesis
    using that [of "lease_key l" l'] h heartbeat(1) assms(2) by (simp add: master_keyed_def)
next
  case (release l now)
  then have h: "holds_row tab l now"
      "tab' = tab(lease_key l \<mapsto> (the (tab (lease_key l)))\<lparr>heartbeat_at := now, expires_at := now\<rparr>)"
    by (auto simp: master_release_def split: if_splits)
  obtain r where "tab (lease_key l) = Some r" using holds_rowD [OF h(1)] by blast
  then show ?thesis
    using that [OF h(2)] release(1) assms(2) by (simp add: master_keyed_def)
qed

interpretation master: fenced_lease master_step master_keyed master_current lease_key
  "\<lambda>l. (instance_id l, process_id l)" fencing_token
proof unfold_locales
  fix tab tab' :: master_table and x and l :: MasterLease and k :: string and a :: "string \<times> int" and t :: int
  assume inv: "master_keyed tab"
  show "master_keyed tab'" if "master_step tab x tab'"
    using inv by (rule_tac master_step_cases [OF that inv]) (simp add: master_keyed_def)
  show "master_current tab' (lease_key l) = Some ((instance_id l, process_id l), fencing_token l)"
    if "master_step tab (Some l) tab'"
    by (rule_tac master_step_cases [OF that inv]) (simp add: master_current_def)
  show "\<exists>b u. master_current tab' k = Some (b, u) \<and> (b = a \<and> u = t \<or> t < u)"
    if st: "master_step tab x tab'" and cur: "master_current tab k = Some (a, t)"
  proof -
    obtain q where q: "tab k = Some q" "a = (instance_id q, process_id q)" "t = fencing_token q"
      using cur by (auto simp: master_current_def)
    obtain j r where r: "tab' = tab(j \<mapsto> r)"
      "\<forall>q. tab j = Some q \<longrightarrow>
       (instance_id r = instance_id q \<and> process_id r = process_id q \<and> fencing_token r = fencing_token q) \<or>
       fencing_token q < fencing_token r"
      by (rule master_step_cases [OF st inv]) blast
    show ?thesis
      using q r by (cases "k = j") (auto simp: master_current_def)
  qed
qed

lemma workspace_acquire_cases:
  assumes "workspace_acquire tab key kind opid pid ttl now = Inr (tab', l)" and "lock_keyed tab"
  shows "tab' = tab(key \<mapsto> (l, None)) \<and> resource_key l = key \<and> owner_kind l = kind \<and>
    owner_operation_id l = opid \<and> owner_process_id l = pid \<and>
    (case tab key of
       None \<Rightarrow> ws_fencing_token l = 1
     | Some (r, d) \<Rightarrow> (if d = None \<and> now < ws_expires_at r
         then same_owner r l \<and> ws_fencing_token l = ws_fencing_token r
         else ws_fencing_token l = ws_fencing_token r + 1))"
  using assms unfolding workspace_acquire_def Let_def lock_keyed_def
  by (cases "tab key") (auto simp: same_owner_def split: if_splits)

lemma holds_lockD:
  assumes "holds_lock tab l now"
  shows "\<exists>r. tab (resource_key l) = Some (r, None) \<and> same_owner r l \<and>
    ws_fencing_token r = ws_fencing_token l \<and> now < ws_expires_at r"
  using assms by (auto simp: holds_lock_def split: option.splits)

lemma workspace_heartbeatD:
  assumes "workspace_heartbeat tab l ttl now = Inr (tab', l')"
  shows "\<exists>r. tab (resource_key l) = Some (r, None) \<and> holds_lock tab l now \<and>
    l' = r\<lparr>ws_heartbeat_at := now, ws_expires_at := now + seconds ttl\<rparr> \<and>
    tab' = tab(resource_key l \<mapsto> (l', None))"
  using assms holds_lockD [of tab l now]
  by (auto simp: workspace_heartbeat_def Let_def split: if_splits)

lemma run_fencedD:
  assumes "run_fenced tab l res ttl now now' = Inr (r, tab', l')"
  shows "r = res \<and> holds_lock tab l now \<and> workspace_heartbeat tab l ttl now' = Inr (tab', l')"
  using assms
  by (auto simp: run_fenced_def workspace_assert_valid_def split: option.splits sum.splits if_splits)

lemma workspace_releaseD:
  assumes "workspace_release tab l now = Inr tab'"
  shows "\<exists>r. tab (resource_key l) = Some (r, None) \<and> holds_lock tab l now \<and>
    tab' = tab(resource_key l \<mapsto>
      (r\<lparr>ws_heartbeat_at := now, ws_expires_at := now\<rparr>, Some now))"
  using assms holds_lockD [of tab l now]
  by (auto simp: workspace_release_def Let_def split: if_splits)

lemma workspace_step_cases:
  assumes "workspace_step tab x tab'" and "lock_keyed tab"
  obtains k r d where "tab' = tab(k \<mapsto> (r, d))" "resource_key r = k" "x \<noteq> None \<longrightarrow> x = Some r"
    "\<forall>q c. tab k = Some (q, c) \<longrightarrow>
       (same_owner r q \<and> ws_fencing_token r = ws_fencing_token q) \<or>
       ws_fencing_token q < ws_fencing_token r"
  using assms(1)
proof cases
  case (acquire key kind opid pid ttl now l)
  note a = workspace_acquire_cases [OF acquire(2) assms(2)]
  have "\<forall>q c. tab key = Some (q, c) \<longrightarrow>
       (same_owner l q \<and> ws_fencing_token l = ws_fencing_token q) \<or>
       ws_fencing_token q < ws_fencing_token l"
    using a by (auto simp: same_owner_def split: if_splits)
  then show ?thesis using that [of key l None] a acquire(1) by blast
next
  case (heartbeat l ttl now l')
  obtain r where "tab (resource_key l) = Some (r, None)"
    "l' = r\<lparr>ws_heartbeat_at := now, ws_expires_at := now + seconds ttl\<rparr>"
    "tab' = tab(resource_key l \<mapsto> (l', None))"
    using workspace_heartbeatD [OF heartbeat(2)] by blast
  then show ?thesis
    using that [of "resource_key l" l' None] heartbeat(1) assms(2)
    by (simp add: lock_keyed_def same_owner_def)
next
  case (release l now)
  obtain r where "tab (resource_key l) = Some (r, None)"
    "tab' = tab(resource_key l \<mapsto> (r\<lparr>ws_heartbeat_at := now, ws_expires_at := now\<rparr>, Some now))"
    using workspace_releaseD [OF release(2)] by blast
  then show ?thesis
    using that [of "resource_key l" "r\<lparr>ws_heartbeat_at := now, ws_expires_at := now\<rparr>" "Some now"]
      release(1) assms(2) by (simp add: lock_keyed_def same_owner_def)
next
  case (fenced l ttl now now' r l')
  obtain r where "tab (resource_key l) = Some (r, None)"
    "l' = r\<lparr>ws_heartbeat_at := now', ws_expires_at := now' + seconds ttl\<rparr>"
    "tab' = tab(resource_key l \<mapsto> (l', None))"
    using workspace_heartbeatD run_fencedD [OF fenced(2)] by blast
  then show ?thesis
    using that [of "resource_key l" l' None] fenced(1) assms(2)
    by (simp add: lock_keyed_def same_owner_def)
qed

interpretation workspace: fenced_lease workspace_step lock_keyed lock_current resource_key
  "\<lambda>l. (owner_kind l, owner_operation_id l, owner_process_id l)" ws_fencing_token
proof unfold_locales
  fix tab tab' :: lock_table and x and l :: WorkspaceLease and k :: string and a and t :: int
  assume inv: "lock_keyed tab"
  show "lock_keyed tab'" if "workspace_step tab x tab'"
    using inv by (rule_tac workspace_step_cases [OF that inv]) (simp add: lock_keyed_def)
  show "lock_current tab' (resource_key l) =
      Some ((owner_kind l, owner_operation_id l, owner_process_id l), ws_fencing_token l)"
    if "workspace_step tab (Some l) tab'"
    by (rule_tac workspace_step_cases [OF that inv]) (simp add: lock_current_def)
  show "\<exists>b u. lock_current tab' k = Some (b, u) \<and> (b = a \<and> u = t \<or> t < u)"
    if st: "workspace_step tab x tab'" and cur: "lock_current tab k = Some (a, t)"
  proof -
    obtain q c where q: "tab k = Some (q, c)" "t = ws_fencing_token q"
        "a = (owner_kind q, owner_operation_id q, owner_process_id q)"
      using cur by (auto simp: lock_current_def)
    obtain j r d where r: "tab' = tab(j \<mapsto> (r, d))"
      "\<forall>q c. tab j = Some (q, c) \<longrightarrow>
       (same_owner r q \<and> ws_fencing_token r = ws_fencing_token q) \<or>
       ws_fencing_token q < ws_fencing_token r"
      by (rule workspace_step_cases [OF st inv]) blast
    show ?thesis
      using q r by (cases "k = j") (auto simp: lock_current_def same_owner_def)
  qed
qed

subsection \<open>What the fences promise\<close>

lemma lost_lock_rejects:
  assumes "\<And>now. \<not> holds_lock tab l now"
  shows "workspace_assert_valid tab l now = Some LeaseLost"
    "run_fenced tab l res ttl now now' = Inl LeaseLost"
    "workspace_release tab l now = Inl LeaseLost"
    "workspace_heartbeat tab l ttl now = Inl (if ttl < 1 then BadArgument ValueError else LeaseLost)"
  using assms by (simp_all add: workspace_assert_valid_def run_fenced_def workspace_release_def
      workspace_heartbeat_def)

lemma lock_keyed_empty [simp]: "lock_keyed (\<lambda>_. None)"
  by (simp add: lock_keyed_def)

lemma master_keyed_empty [simp]: "master_keyed (\<lambda>_. None)"
  by (simp add: master_keyed_def)

lemma overtaken_lock_not_held:
  assumes "history workspace_step (\<lambda>_. None) ls tab" and "l \<in> set ls"
    and "workspace_step tab (Some m) tab'" "resource_key m = resource_key l" "\<not> same_owner m l"
    and "history workspace_step tab' ls' tab''"
  shows "\<not> holds_lock tab'' l now"
proof
  assume h: "holds_lock tab'' l now"
  note k = workspace.inv_history [OF assms(1) lock_keyed_empty]
  note k' = workspace.inv_step [OF k assms(3)]
  note c = workspace.issued [OF k assms(3)]
  have "workspace.recorded tab' l"
    using workspace.recorded_step [OF k assms(3) workspace.all_recorded [OF assms(1) _ assms(2)]]
    by simp
  then have "ws_fencing_token l < ws_fencing_token m"
    using c assms(4,5) by (auto simp: workspace.recorded_def same_owner_def)
  then obtain b u where "lock_current tab'' (resource_key l) = Some (b, u)" "ws_fencing_token l < u"
    using workspace.token_monotone [OF assms(6) k' c] assms(4) by force
  then show False using holds_lockD [OF h] by (auto simp: lock_current_def)
qed

lemma overtaken_master_not_held:
  assumes "history master_step (\<lambda>_. None) ls tab" and "l \<in> set ls"
    and "master_step tab (Some m) tab'" "lease_key m = lease_key l"
      "(instance_id m, process_id m) \<noteq> (instance_id l, process_id l)"
    and "history master_step tab' ls' tab''"
  shows "\<not> holds_row tab'' l now"
proof
  assume h: "holds_row tab'' l now"
  note k = master.inv_history [OF assms(1) master_keyed_empty]
  note k' = master.inv_step [OF k assms(3)]
  note c = master.issued [OF k assms(3)]
  have "master.recorded tab' l"
    using master.recorded_step [OF k assms(3) master.all_recorded [OF assms(1) _ assms(2)]]
    by simp
  then have "fencing_token l < fencing_token m"
    using c assms(4,5) by (auto simp: master.recorded_def)
  then obtain b u where "master_current tab'' (lease_key l) = Some (b, u)" "fencing_token l < u"
    using master.token_monotone [OF assms(6) k' c] assms(4) by force
  then show False using holds_rowD [OF h] by (auto simp: master_current_def)
qed

definition sample_lock :: "string \<Rightarrow> string \<Rightarrow> time \<Rightarrow> int \<Rightarrow> WorkspaceLease" where
  "sample_lock key owner now token = \<lparr>resource_key = key, owner_kind = ''run'',
     owner_operation_id = owner, owner_process_id = 7, ws_fencing_token = token, acquired_at = now,
     ws_heartbeat_at = now, ws_expires_at = now + seconds 30\<rparr>"

lemma sample_ids [simp]: "owner_id_ok ''alice''" "owner_id_ok ''bob''"
  by code_simp+

lemma sample_first_acquire:
  "workspace_acquire (\<lambda>_. None) ''w'' ''run'' ''alice'' 7 30 0 =
    Inr ([''w'' \<mapsto> (sample_lock ''w'' ''alice'' 0 1, None)], sample_lock ''w'' ''alice'' 0 1)"
  by (simp add: workspace_acquire_def sample_lock_def Let_def)

lemma sample_takeover:
  "workspace_acquire [''w'' \<mapsto> (sample_lock ''w'' ''alice'' 0 1, None)] ''w'' ''run'' ''bob'' 7 30
     (seconds 60) =
    Inr ([''w'' \<mapsto> (sample_lock ''w'' ''bob'' (seconds 60) 2, None)],
      sample_lock ''w'' ''bob'' (seconds 60) 2)"
  by (simp add: workspace_acquire_def sample_lock_def same_owner_def seconds_def Let_def)

lemma sample_history:
  "history workspace_step (\<lambda>_. None) [sample_lock ''w'' ''alice'' 0 1]
     [''w'' \<mapsto> (sample_lock ''w'' ''alice'' 0 1, None)]"
  by (rule history.issuing, rule history.start, rule workspace_step.acquire, rule sample_first_acquire)

text \<open>
  C20: Once another owner has acquired a workspace resource, every lease that was ever issued for
  that resource to somebody else is rejected for good: however the transactions continue, it
  fails the validity check, cannot be renewed, cannot be released and cannot run fenced work.
\<close>

theorem stale_workspace_lease_is_fenced_out:
  assumes "history workspace_step (\<lambda>_. None) ls tab" and "l \<in> set ls"
    and "workspace_acquire tab (resource_key l) kind opid pid ttl now = Inr (tab', m)"
    and "\<not> same_owner m l" and "history workspace_step tab' ls' tab''"
  shows "workspace_assert_valid tab'' l t = Some LeaseLost \<and>
    run_fenced tab'' l res ttl' t t' = Inl LeaseLost \<and> workspace_release tab'' l t = Inl LeaseLost \<and>
    (\<exists>e. workspace_heartbeat tab'' l ttl' t = Inl e)"
proof -
  have "resource_key m = resource_key l"
    using workspace_acquire_cases [OF assms(3) workspace.inv_history [OF assms(1)]] by simp
  then have "\<And>t. \<not> holds_lock tab'' l t"
    using overtaken_lock_not_held [OF assms(1,2) workspace_step.acquire [OF assms(3)] _ assms(4,5)]
    by blast
  then show ?thesis by (simp add: lost_lock_rejects)
qed

lemma stale_workspace_lease_is_fenced_out_witness:
  "workspace_assert_valid [''w'' \<mapsto> (sample_lock ''w'' ''bob'' (seconds 60) 2, None)]
      (sample_lock ''w'' ''alice'' 0 1) 5 = Some LeaseLost"
proof (rule stale_workspace_lease_is_fenced_out [THEN conjunct1, OF sample_history])
  show "workspace_acquire [''w'' \<mapsto> (sample_lock ''w'' ''alice'' 0 1, None)]
      (resource_key (sample_lock ''w'' ''alice'' 0 1)) ''run'' ''bob'' 7 30 (seconds 60) =
    Inr ([''w'' \<mapsto> (sample_lock ''w'' ''bob'' (seconds 60) 2, None)],
      sample_lock ''w'' ''bob'' (seconds 60) 2)"
    using sample_takeover by (simp add: sample_lock_def)
qed (rule history.start | simp add: sample_lock_def same_owner_def)+

text \<open>
  While a lease of a workspace resource is valid nobody else can acquire the resource: the
  attempt is refused with \<open>LeaseUnavailable\<close> and changes nothing; the holder itself
  acquires it again with the same fencing token, so its lease stays valid until the new expiry.
\<close>

theorem live_workspace_lease_is_exclusive:
  assumes "holds_lock tab l now" and "lock_keyed tab"
    and "resource_key l \<noteq> [] \<and> length (resource_key l) \<le> 1024" and "kind \<noteq> [] \<and> length kind \<le> 64"
    and "owner_id_ok opid" and "1 \<le> pid" and "1 \<le> ttl"
  shows "if kind = owner_kind l \<and> opid = owner_operation_id l \<and> pid = owner_process_id l
    then \<exists>tab' m. workspace_acquire tab (resource_key l) kind opid pid ttl now = Inr (tab', m) \<and>
      ws_fencing_token m = ws_fencing_token l \<and>
      (\<forall>t. holds_lock tab' l t \<longleftrightarrow> t < now + seconds ttl)
    else workspace_acquire tab (resource_key l) kind opid pid ttl now = Inl LeaseUnavailable"
proof -
  obtain r where r: "tab (resource_key l) = Some (r, None)" "same_owner r l"
      "ws_fencing_token r = ws_fencing_token l" "now < ws_expires_at r"
    using holds_lockD [OF assms(1)] by blast
  have "resource_key r = resource_key l" using r(1) assms(2) by (simp add: lock_keyed_def)
  then show ?thesis
    using r assms(3-7) by (auto simp: workspace_acquire_def same_owner_def Let_def holds_lock_def)
qed

lemma live_workspace_lease_is_exclusive_witness:
  "workspace_acquire [''w'' \<mapsto> (sample_lock ''w'' ''alice'' 0 1, None)] ''w'' ''run'' ''bob'' 7 30 5 =
     Inl LeaseUnavailable"
  using live_workspace_lease_is_exclusive [of "[''w'' \<mapsto> (sample_lock ''w'' ''alice'' 0 1, None)]"
      "sample_lock ''w'' ''alice'' 0 1" 5 "''run''" "''bob''" 7 30]
  by (simp add: holds_lock_def lock_keyed_def sample_lock_def same_owner_def seconds_def)

definition sample_master :: "string \<Rightarrow> time \<Rightarrow> int \<Rightarrow> MasterLease" where
  "sample_master owner now token = \<lparr>lease_key = ''scheduler'', instance_id = owner, process_id = 7,
     fencing_token = token, heartbeat_at = now, expires_at = now + seconds 30\<rparr>"

lemma sample_master_first:
  "master_acquire ''scheduler'' (\<lambda>_. None) ''alice'' 7 30 0 =
    Inr ([''scheduler'' \<mapsto> sample_master ''alice'' 0 1], sample_master ''alice'' 0 1)"
  by (simp add: master_acquire_def sample_master_def Let_def)

lemma sample_master_takeover:
  "master_acquire ''scheduler'' [''scheduler'' \<mapsto> sample_master ''alice'' 0 1] ''bob'' 7 30 (seconds 60) =
    Inr ([''scheduler'' \<mapsto> sample_master ''bob'' (seconds 60) 2], sample_master ''bob'' (seconds 60) 2)"
  by (simp add: master_acquire_def sample_master_def seconds_def Let_def)

lemma sample_master_history:
  "history master_step (\<lambda>_. None) [sample_master ''alice'' 0 1]
     [''scheduler'' \<mapsto> sample_master ''alice'' 0 1]"
  by (rule history.issuing, rule history.start, rule master_step.acquire, rule sample_master_first)

text \<open>
  At most one scheduler instance can act as the master. Once another instance has acquired
  the master lease, every lease issued before to a different instance is rejected for good, in
  the validity check that fences the master's mutations, in the heartbeat and in the release.
\<close>

theorem stale_master_is_fenced_out:
  assumes "history master_step (\<lambda>_. None) ls tab" and "l \<in> set ls"
    and "master_acquire (lease_key l) tab owner pid ttl now = Inr (tab', m)"
    and "(owner, pid) \<noteq> (instance_id l, process_id l)" and "history master_step tab' ls' tab''"
  shows "master_assert_valid tab'' l t = Some LeaseLost \<and> master_release tab'' l t = Inl LeaseLost \<and>
    (\<exists>e. master_heartbeat tab'' l ttl' t = Inl e)"
proof -
  have "lease_key m = lease_key l \<and> instance_id m = owner \<and> process_id m = pid"
    using master_acquire_cases [OF assms(3) master.inv_history [OF assms(1)]] by simp
  then have "\<And>t. \<not> holds_row tab'' l t"
    using overtaken_master_not_held [OF assms(1,2) master_step.acquire [OF assms(3)] _ _ assms(5)]
      assms(4) by simp
  then show ?thesis by (simp add: master_assert_valid_def master_release_def master_heartbeat_def)
qed

lemma stale_master_is_fenced_out_witness:
  "master_assert_valid [''scheduler'' \<mapsto> sample_master ''bob'' (seconds 60) 2]
      (sample_master ''alice'' 0 1) 5 = Some LeaseLost"
proof (rule stale_master_is_fenced_out [THEN conjunct1, OF sample_master_history])
  show "master_acquire (lease_key (sample_master ''alice'' 0 1))
      [''scheduler'' \<mapsto> sample_master ''alice'' 0 1] ''bob'' 7 30 (seconds 60) =
    Inr ([''scheduler'' \<mapsto> sample_master ''bob'' (seconds 60) 2], sample_master ''bob'' (seconds 60) 2)"
    using sample_master_takeover by (simp add: sample_master_def)
qed (rule history.start | simp add: sample_master_def)+

text \<open>
  A fencing token identifies the holder. In every sequence of transactions on the lease
  tables that starts with empty tables, two leases of one key that carry the same token were
  issued to the same owner; so a store that checks the token never mixes up two owners.
\<close>

theorem fencing_tokens_are_unambiguous:
  shows "history workspace_step (\<lambda>_. None) ls tab \<Longrightarrow> l \<in> set ls \<Longrightarrow> m \<in> set ls \<Longrightarrow>
      resource_key l = resource_key m \<Longrightarrow> ws_fencing_token l = ws_fencing_token m \<Longrightarrow> same_owner l m"
  using workspace.one_holder_per_token [of "\<lambda>_. None" ls tab l m] by (simp add: same_owner_def)

lemma fencing_tokens_are_unambiguous_witness:
  "same_owner (sample_lock ''w'' ''alice'' 0 1) (sample_lock ''w'' ''alice'' 0 1)"
  using fencing_tokens_are_unambiguous [OF sample_history, of "sample_lock ''w'' ''alice'' 0 1"
      "sample_lock ''w'' ''alice'' 0 1"] by simp

end
