(* ===== verification/Run_State.thy ===== *)
theory Run_State
  imports Canonical_Json Topo_Order Router Leases
begin

text \<open>
  The durable state of one workflow run as \<open>storage/workflow_run_repository.py\<close> keeps it, and
  the functions on it that are not transactions of their own: the topological order of the
  snapshot, the reconciliation of pending nodes, and the end of a run. A store holds the rows of
  one run: no operation touches the rows of another. The rows of \<open>node_runs\<close> are listed in the
  order in which a query returns them, and new attempts come after old ones.
\<close>

subsection \<open>Errors and rows\<close>

datatype run_error =
    RecordNotFound | ConcurrencyConflict | SnapshotIntegrityError
  | LeaseError lease_error | PyError py_error | RuntimeError
  | IntegrityError \<comment> \<open>SQLite refuses a row that breaks a constraint of the schema\<close>
  | OperationalError
      \<comment> \<open>SQLite refuses a statement, here one that names an unknown or an ambiguous column\<close>
  | IdempotencyConflict | ChangeSetIntegrityError

definition and_then :: "'e + 'a \<Rightarrow> ('a \<Rightarrow> 'e + 'b) \<Rightarrow> 'e + 'b" where
  \<comment> \<open>an exception of the first part propagates\<close>
  "and_then m k = (case m of Inl e \<Rightarrow> Inl e | Inr x \<Rightarrow> k x)"

definition NODE_TERMINAL :: "NodeRunStatus list" where
  "NODE_TERMINAL = [NodeRunStatus.BLOCKED_BY_GUARD, NodeRunStatus.FAILED, NodeRunStatus.COMPLETED,
     NodeRunStatus.SKIPPED, NodeRunStatus.SUPERSEDED, NodeRunStatus.CANCELLED, NodeRunStatus.ORPHANED]"

definition RUN_TERMINAL :: "WorkflowRunStatus list" where
  "RUN_TERMINAL = [WorkflowRunStatus.BLOCKED, WorkflowRunStatus.FAILED, WorkflowRunStatus.COMPLETED,
     WorkflowRunStatus.CANCELLED, WorkflowRunStatus.ORPHANED]"

record NodeRun =
  node_run_id :: string
  nr_node_id :: string
  nr_node_type :: NodeType
  attempt :: nat
  nr_status :: NodeRunStatus
  nr_outcome :: "NodeOutcome option"
  assigned_agent_id :: "string option"
  output_artifact_id :: "string option"
  nr_error_code :: "string option"
  nr_created_at :: time
  nr_started_at :: "time option"
  nr_finished_at :: "time option"

record WorkflowRun =
  workflow_run_id :: string
  run_session_id :: string
  run_base_commit :: string
  current_commit :: string
  author_snapshot :: AuthorGraph
  author_snapshot_hash :: string
  compiled_snapshot :: CompiledGraph
  compiled_snapshot_hash :: string
  layout_digest :: string \<comment> \<open>the digest of the stored layout JSON\<close>
  layout_snapshot_hash :: string
  run_policy_version :: string
  catalog_snapshot :: AgentCatalog
  catalog_snapshot_hash :: string
  run_status :: WorkflowRunStatus
  run_started_at :: "time option"
  run_finished_at :: "time option"
  cancel_requested_at :: "time option"
  merge_finalizing_at :: "time option"

record TaskRow =
  task_id :: string
  task_node_run_id :: string
  task_agent_id :: string
  base_commit_of :: string
  runtime_policy_artifact :: "string option"
  task_status :: TaskStatus
  task_finished_at :: "time option"

record ArtifactRow =
  artifact_id :: string
  artifact_session_id :: string
  artifact_task_id :: "string option"
  artifact_planner_run_id :: "string option"
  artifact_type :: string
  artifact_redacted :: bool

record ChangeSetRow =
  change_set_id :: string
  change_set_task_id :: string
  change_set_base :: string
  change_set_patch :: string \<comment> \<open>the digest of the canonical patch\<close>
  change_set_status :: ChangeSetStatus

datatype RunEvent =
    RunCreated int string "string option" "string option" "string option"
      \<comment> \<open>master token, hash of the snapshot, planner run, planner, model\<close>
  | RunStateChanged int WorkflowRunStatus WorkflowRunStatus
      \<comment> \<open>master token, previous status, status\<close>
  | NodeStateChanged int string string NodeRunStatus NodeRunStatus "NodeOutcome option" string
      "string option"
      \<comment> \<open>master token, node run, node, previous status, status, outcome, summary, error code\<close>
  | TaskStateChanged int "int option" string string "TaskStatus option" TaskStatus "string option"
      \<comment> \<open>master token, workspace token, node run, task, previous status, status, error code\<close>
  | RecoveryAction int string string string
      \<comment> \<open>master token, action, outcome, reason\<close>
  | ChangeSetStateChanged int "int option" string string string "ChangeSetStatus option" ChangeSetStatus
      string "string option"
      \<comment> \<open>master token, workspace token, node run, task, change set, previous status, status, patch,
          reason\<close>
  | ApprovalStateChanged int string string string "string option" string int string "string option"
      \<comment> \<open>master token, node run, approval, subject type, previous status, status, version, subject
          hash, reason\<close>
  | PrivilegeRequestStateChanged int string string string "string option" string "string option"
      \<comment> \<open>master token, node run, task, request, previous status, status, reason\<close>
  | CapabilityGrantStateChanged int string string string string string string "int option" string
      \<comment> \<open>master token, node run, request, grant, target task, action, resource, token that consumed
          it, reason\<close>

record RunStore =
  run :: WorkflowRun
  node_runs :: "NodeRun list"
  tasks :: "TaskRow list"
  artifacts :: "ArtifactRow list"
  change_sets :: "ChangeSetRow list"
  approval_status :: "string \<Rightarrow> string option" \<comment> \<open>the \<open>status\<close> of every row of \<open>approvals\<close>\<close>
  session_status :: string
  integration_head_commit :: string
  master_leases :: master_table
  file_locks :: lock_table
  run_events :: "RunEvent list" \<comment> \<open>newest last\<close>

definition emit :: "RunEvent \<Rightarrow> RunStore \<Rightarrow> RunStore" where
  "emit ev st = st\<lparr>run_events := run_events st @ [ev]\<rparr>"

definition append_run_state ::
  "MasterLease \<Rightarrow> WorkflowRunStatus \<Rightarrow> WorkflowRunStatus \<Rightarrow> RunStore \<Rightarrow> RunStore" where
  "append_run_state lease previous target = emit (RunStateChanged (fencing_token lease) previous target)"

definition append_node_state ::
  "MasterLease \<Rightarrow> NodeRun \<Rightarrow> NodeRunStatus \<Rightarrow> NodeOutcome option \<Rightarrow> string \<Rightarrow> string option \<Rightarrow>
     RunStore \<Rightarrow> RunStore" where
  \<comment> \<open>\<open>r\<close> is the row before the update: its status is \<open>previous_status\<close>\<close>
  "append_node_state lease r target oc summary error =
     emit (NodeStateChanged (fencing_token lease) (node_run_id r) (nr_node_id r) (nr_status r) target
             oc summary error)"

definition append_task_state ::
  "MasterLease \<Rightarrow> int option \<Rightarrow> string \<Rightarrow> string \<Rightarrow> TaskStatus option \<Rightarrow> TaskStatus \<Rightarrow> string option \<Rightarrow>
     RunStore \<Rightarrow> RunStore" where
  "append_task_state lease workspace_token nr_id t_id previous target error =
     emit (TaskStateChanged (fencing_token lease) workspace_token nr_id t_id previous target error)"

subsection \<open>Updates that check what they change\<close>

definition find_node_run :: "RunStore \<Rightarrow> string \<Rightarrow> NodeRun option" where
  "find_node_run st i = find (\<lambda>r. node_run_id r = i) (node_runs st)"

definition update_node ::
  "string \<Rightarrow> NodeRunStatus list \<Rightarrow> (NodeRun \<Rightarrow> NodeRun) \<Rightarrow> RunStore \<Rightarrow> run_error + RunStore" where
  \<comment> \<open>\<open>UPDATE node_runs SET \<dots> WHERE id = i AND status IN (\<dots>)\<close>, then \<open>if changed != 1\<close>\<close>
  "update_node i allowed f st =
     (if length (filter (\<lambda>r. node_run_id r = i \<and> nr_status r \<in> set allowed) (node_runs st)) \<noteq> 1
      then Inl ConcurrencyConflict
      else Inr (st\<lparr>node_runs := map (\<lambda>r. if node_run_id r = i \<and> nr_status r \<in> set allowed then f r else r)
             (node_runs st)\<rparr>))"

definition update_run ::
  "(WorkflowRun \<Rightarrow> bool) \<Rightarrow> (WorkflowRun \<Rightarrow> WorkflowRun) \<Rightarrow> RunStore \<Rightarrow> run_error + RunStore" where
  "update_run allowed f st =
     (if \<not> allowed (run st) then Inl ConcurrencyConflict else Inr (st\<lparr>run := f (run st)\<rparr>))"

definition update_task ::
  "string \<Rightarrow> TaskStatus list \<Rightarrow> (TaskRow \<Rightarrow> TaskRow) \<Rightarrow> RunStore \<Rightarrow> run_error + RunStore" where
  "update_task i allowed f st =
     (if length (filter (\<lambda>t. task_id t = i \<and> task_status t \<in> set allowed) (tasks st)) \<noteq> 1
      then Inl ConcurrencyConflict
      else Inr (st\<lparr>tasks := map (\<lambda>t. if task_id t = i \<and> task_status t \<in> set allowed then f t else t)
             (tasks st)\<rparr>))"

definition master_valid :: "RunStore \<Rightarrow> MasterLease \<Rightarrow> time \<Rightarrow> bool" where
  \<comment> \<open>\<open>MasterLeaseRepository.assert_valid_in\<close> inside the transaction\<close>
  "master_valid st lease now \<longleftrightarrow> master_assert_valid (master_leases st) lease now = None"

definition workspace_valid :: "RunStore \<Rightarrow> WorkspaceLease \<Rightarrow> time \<Rightarrow> bool" where
  "workspace_valid st lease now \<longleftrightarrow> workspace_assert_valid (file_locks st) lease now = None"

definition integration_resource :: "RunStore \<Rightarrow> string" where
  "integration_resource st = ''session:'' @ run_session_id (run st) @ '':integration''"

subsection \<open>The snapshot\<close>

definition snapshots_intact :: "(string \<Rightarrow> string) \<Rightarrow> (AgentSpec list \<Rightarrow> string) \<Rightarrow> WorkflowRun \<Rightarrow> bool" where
  \<comment> \<open>\<open>_validated_snapshot_models\<close>; \<open>catalog_digest\<close> is \<open>compute_agent_catalog_hash\<close>\<close>
  "snapshots_intact H catalog_digest w \<longleftrightarrow>
     (let author_hash = H (canonical_author (author_snapshot w));
          catalog_digest_now = catalog_digest (agents (catalog_snapshot w))
      in author_snapshot_hash w = author_hash \<and>
         compiled_snapshot_hash w = H (canonical_compiled (compiled_snapshot w)) \<and>
         layout_snapshot_hash w = layout_digest w \<and>
         catalog_snapshot_hash w = catalog_digest_now \<and>
         catalog_hash (catalog_snapshot w) = catalog_digest_now \<and>
         source_author_hash (compiled_snapshot w) = author_hash \<and>
         agent_catalog_snapshot_hash (compiled_snapshot w) = catalog_digest_now \<and>
         integration_base_commit (compiled_snapshot w) = run_base_commit w \<and>
         policy_version (compiled_snapshot w) = run_policy_version w)"

definition topological_order :: "CompiledGraph \<Rightarrow> run_error + string list" where
  \<comment> \<open>\<open>_topological_order\<close>: \<open>indegree[edge.to_node] += 1\<close> needs the target to be a node\<close>
  "topological_order g =
     (let ids = dedup (map node_id (compiled_nodes g)); order = kahn_order ids (map edge_pair (compiled_edges g))
      in if \<not> list_all (\<lambda>e. to_node e \<in> set ids) (compiled_edges g) then Inl (PyError KeyError)
         else if length order \<noteq> length (compiled_nodes g) then Inl (PyError ValueError)
         else Inr order)"

fun expected_outcomes :: "EdgeCondition \<Rightarrow> NodeOutcome list" where
  "expected_outcomes EdgeCondition.SUCCESS = [NodeOutcome.SUCCESS]"
| "expected_outcomes EdgeCondition.FAILURE = [NodeOutcome.FAILURE, NodeOutcome.BLOCKED]"
| "expected_outcomes EdgeCondition.MATCHED = [NodeOutcome.MATCHED]"
| "expected_outcomes EdgeCondition.NOT_MATCHED = [NodeOutcome.NOT_MATCHED]"
| "expected_outcomes EdgeCondition.APPROVED = [NodeOutcome.APPROVED]"
| "expected_outcomes EdgeCondition.REJECTED = [NodeOutcome.REJECTED]"

definition edge_satisfied :: "EdgeCondition \<Rightarrow> NodeRunStatus \<Rightarrow> NodeOutcome option \<Rightarrow> bool" where
  "edge_satisfied c upstream oc \<longleftrightarrow>
     (if upstream = NodeRunStatus.SKIPPED \<or> upstream = NodeRunStatus.SUPERSEDED then False
      else case oc of None \<Rightarrow> False | Some x \<Rightarrow> x \<in> set (expected_outcomes c))"

subsection \<open>Reconciliation\<close>

fun incoming_state ::
  "(string \<Rightarrow> NodeRun option) \<Rightarrow> WorkflowEdge list \<Rightarrow> bool \<Rightarrow> run_error + bool option" where
  \<comment> \<open>the loop over the incoming edges: \<open>None\<close> when an upstream node is not terminal, else whether
      an edge is satisfied\<close>
  "incoming_state by_node [] satisfied = Inr (Some satisfied)"
| "incoming_state by_node (e # es) satisfied =
     (case by_node (from_node e) of
        None \<Rightarrow> Inl (PyError KeyError)
      | Some upstream \<Rightarrow>
          (if nr_status upstream \<notin> set NODE_TERMINAL then Inr None
           else incoming_state by_node es
             (satisfied \<or> edge_satisfied (condition e) (nr_status upstream) (nr_outcome upstream))))"

definition pending_target ::
  "CompiledGraph \<Rightarrow> (string \<Rightarrow> NodeRun option) \<Rightarrow> string \<Rightarrow> run_error + NodeRunStatus option" where
  \<comment> \<open>what becomes of a pending node, if anything\<close>
  "pending_target g by_node i =
     (case find (\<lambda>n. node_id n = i) (compiled_nodes g) of
        None \<Rightarrow> Inl RuntimeError \<comment> \<open>\<open>StopIteration\<close> inside a coroutine\<close>
      | Some node \<Rightarrow>
          (if node_type node = INPUT then Inr (Some NodeRunStatus.READY)
           else and_then (incoming_state by_node (filter (\<lambda>e. to_node e = i) (compiled_edges g)) False)
             (\<lambda>s. Inr (map_option (\<lambda>b. if b then NodeRunStatus.READY else NodeRunStatus.SKIPPED) s))))"

definition reconcile_node ::
  "CompiledGraph \<Rightarrow> (string \<Rightarrow> NodeRun option) \<Rightarrow> MasterLease \<Rightarrow> time \<Rightarrow> string \<Rightarrow> RunStore \<times> bool \<Rightarrow>
     run_error + (RunStore \<times> bool)" where
  \<comment> \<open>the body of the loop over the order; \<open>by_node\<close> was read before the loop\<close>
  "reconcile_node g by_node lease now i = (\<lambda>(st, changed_any).
     (case by_node i of
        None \<Rightarrow> Inl (PyError KeyError)
      | Some row \<Rightarrow>
          (if nr_status row \<noteq> NodeRunStatus.PENDING then Inr (st, changed_any)
           else and_then (pending_target g by_node i) (\<lambda>t. case t of
             None \<Rightarrow> Inr (st, changed_any)
           | Some target \<Rightarrow>
               and_then
                 (update_node (node_run_id row) [NodeRunStatus.PENDING]
                   (\<lambda>r. r\<lparr>nr_status := target,
                      nr_finished_at := (if target = NodeRunStatus.SKIPPED then Some now else None)\<rparr>) st)
                 (\<lambda>st'. Inr (append_node_state lease row target None
                    (if target = NodeRunStatus.SKIPPED then ''inactive branch'' else ''ready'') None st',
                    True))))))"

fun reconcile_pass ::
  "CompiledGraph \<Rightarrow> (string \<Rightarrow> NodeRun option) \<Rightarrow> MasterLease \<Rightarrow> time \<Rightarrow> string list \<Rightarrow> RunStore \<times> bool \<Rightarrow>
     run_error + (RunStore \<times> bool)" where
  "reconcile_pass g by_node lease now [] s = Inr s"
| "reconcile_pass g by_node lease now (i # is) s =
     and_then (reconcile_node g by_node lease now i s) (reconcile_pass g by_node lease now is)"

abbreviation pending_count :: "RunStore \<Rightarrow> nat" where
  "pending_count st \<equiv> length (filter (\<lambda>r. nr_status r = NodeRunStatus.PENDING) (node_runs st))"

lemma update_node_pending_count:
  assumes "update_node i [NodeRunStatus.PENDING] f st = Inr st'" and "\<And>r. nr_status (f r) \<noteq> NodeRunStatus.PENDING"
  shows "pending_count st' < pending_count st"
proof -
  let ?P = "\<lambda>r. node_run_id r = i \<and> nr_status r = NodeRunStatus.PENDING"
  have one: "length (filter ?P (node_runs st)) = 1"
    and st': "node_runs st' = map (\<lambda>r. if ?P r then f r else r) (node_runs st)"
    using assms(1) by (auto simp: update_node_def split: if_splits)
  have "length (filter (\<lambda>r. nr_status r = NodeRunStatus.PENDING) (map (\<lambda>r. if ?P r then f r else r) rs)) +
      length (filter ?P rs) = length (filter (\<lambda>r. nr_status r = NodeRunStatus.PENDING) rs)" for rs
    using assms(2) by (induction rs) auto
  from this [of "node_runs st"] show ?thesis using one by (simp add: st')
qed

lemma and_then_Inr: "and_then m k = Inr y \<longleftrightarrow> (\<exists>x. m = Inr x \<and> k x = Inr y)"
  by (simp add: and_then_def split: sum.splits)

lemma reconcile_node_count:
  assumes "reconcile_node g by_node lease now i (st, c) = Inr (st', c')"
  shows "pending_count st' \<le> pending_count st \<and> (c' \<noteq> c \<longrightarrow> pending_count st' < pending_count st)"
proof (cases "by_node i")
  case (Some row)
  show ?thesis
  proof (cases "nr_status row = NodeRunStatus.PENDING")
    case True
    then obtain t where t: "pending_target g by_node i = Inr t"
      using assms Some by (auto simp: reconcile_node_def and_then_Inr)
    show ?thesis
    proof (cases t)
      case None
      then show ?thesis using assms Some True t by (simp add: reconcile_node_def and_then_def)
    next
      case (Some target)
      have "target \<noteq> NodeRunStatus.PENDING"
        using t Some by (auto simp: pending_target_def and_then_Inr split: option.splits if_splits)
      moreover obtain st1 where u: "update_node (node_run_id row) [NodeRunStatus.PENDING]
          (\<lambda>r. r\<lparr>nr_status := target,
             nr_finished_at := (if target = NodeRunStatus.SKIPPED then Some now else None)\<rparr>) st = Inr st1"
        and "node_runs st' = node_runs st1"
        using assms \<open>by_node i = Some row\<close> True t Some
        by (auto simp: reconcile_node_def and_then_Inr append_node_state_def emit_def)
      ultimately show ?thesis using update_node_pending_count [OF u] by simp
    qed
  qed (use assms Some in \<open>simp add: reconcile_node_def\<close>)
qed (use assms in \<open>simp add: reconcile_node_def\<close>)

lemma reconcile_pass_count:
  "reconcile_pass g by_node lease now is (st, c) = Inr (st', c') \<Longrightarrow>
     pending_count st' \<le> pending_count st \<and> (c' \<noteq> c \<longrightarrow> pending_count st' < pending_count st)"
proof (induction "is" arbitrary: st c)
  case (Cons i "is")
  then obtain st1 c1 where 1: "reconcile_node g by_node lease now i (st, c) = Inr (st1, c1)"
    "reconcile_pass g by_node lease now is (st1, c1) = Inr (st', c')"
    by (auto simp: and_then_Inr)
  show ?case using reconcile_node_count [OF 1(1)] Cons.IH [OF 1(2)] by auto
qed simp

function reconcile_loop ::
  "CompiledGraph \<Rightarrow> string list \<Rightarrow> MasterLease \<Rightarrow> time \<Rightarrow> RunStore \<Rightarrow> run_error + RunStore" where
  \<comment> \<open>the \<open>while True\<close> loop; a pass that changes something leaves fewer pending rows\<close>
  "reconcile_loop g order lease now st =
     (case reconcile_pass g (dict_by nr_node_id (node_runs st)) lease now order (st, False) of
        Inl e \<Rightarrow> Inl e
      | Inr (st', changed_any) \<Rightarrow>
          (if changed_any then reconcile_loop g order lease now st' else Inr st'))"
  by pat_completeness auto

termination
  by (relation "measure (\<lambda>(g, order, lease, now, st). pending_count st)")
    (use reconcile_pass_count in fastforce)+

declare reconcile_loop.simps [simp del]

definition run_target :: "NodeRun \<Rightarrow> NodeRun list \<Rightarrow> WorkflowRunStatus" where
  \<comment> \<open>how a run ends whose nodes are all terminal\<close>
  "run_target out rows =
     (if nr_status out = NodeRunStatus.COMPLETED \<and>
         (nr_outcome out = Some NodeOutcome.SUCCESS \<or> nr_outcome out = Some NodeOutcome.REJECTED)
      then WorkflowRunStatus.COMPLETED
      else if nr_status out = NodeRunStatus.BLOCKED_BY_GUARD \<or>
         list_ex (\<lambda>r. nr_status r = NodeRunStatus.BLOCKED_BY_GUARD) rows
      then WorkflowRunStatus.BLOCKED
      else WorkflowRunStatus.FAILED)"

definition finish_run :: "MasterLease \<Rightarrow> WorkflowRunStatus \<Rightarrow> time \<Rightarrow> RunStore \<Rightarrow> run_error + RunStore" where
  \<comment> \<open>\<open>_finish_run_in\<close>\<close>
  "finish_run lease target now st =
     and_then
       (update_run (\<lambda>w. run_status w = WorkflowRunStatus.RUNNING)
         (\<lambda>w. w\<lparr>run_status := target, run_finished_at := Some now\<rparr>) st)
       (\<lambda>st'. Inr (append_run_state lease WorkflowRunStatus.RUNNING target st'))"

definition reconcile :: "MasterLease \<Rightarrow> time \<Rightarrow> RunStore \<Rightarrow> run_error + RunStore" where
  \<comment> \<open>\<open>_reconcile_in\<close>\<close>
  "reconcile lease now st =
     (let g = compiled_snapshot (run st) in
      and_then (topological_order g) (\<lambda>order.
      and_then (reconcile_loop g order lease now st) (\<lambda>st'.
        if \<not> list_all (\<lambda>r. nr_status r \<in> set NODE_TERMINAL) (node_runs st') then Inr st'
        else case find (\<lambda>n. node_type n = OUTPUT) (compiled_nodes g) of
          None \<Rightarrow> Inl RuntimeError
        | Some n \<Rightarrow>
            (case find (\<lambda>r. nr_node_id r = node_id n) (node_runs st') of
               None \<Rightarrow> Inl RuntimeError
             | Some out \<Rightarrow> finish_run lease (run_target out (node_runs st')) now st'))))"

end
