(* ===== verification/Run_Repository.thy ===== *)
theory Run_Repository
  imports Run_State
begin

text \<open>
  The transactions of \<open>storage/workflow_run_repository.py\<close> on the state of one run. Each is a
  function from the store to the new store or to the exception that rolls it back. What a method
  returns is the row read back from the new store (\<open>run_record\<close> and \<open>find_node_run\<close>), which is
  left out where it is only that.
\<close>

definition run_record ::
  "(string \<Rightarrow> string) \<Rightarrow> (AgentSpec list \<Rightarrow> string) \<Rightarrow> RunStore \<Rightarrow> run_error + WorkflowRun" where
  "run_record H cd st = (if snapshots_intact H cd (run st) then Inr (run st) else Inl SnapshotIntegrityError)"

definition fenced :: "RunStore \<Rightarrow> MasterLease \<Rightarrow> time \<Rightarrow> run_error + 'a \<Rightarrow> run_error + 'a" where
  \<comment> \<open>every transaction starts with \<open>assert_valid_in\<close>\<close>
  "fenced st lease now k = (if \<not> master_valid st lease now then Inl (LeaseError LeaseLost) else k)"

definition known_run :: "RunStore \<Rightarrow> string \<Rightarrow> run_error + 'a \<Rightarrow> run_error + 'a" where
  \<comment> \<open>\<open>_run_row\<close>\<close>
  "known_run st wid k = (if workflow_run_id (run st) \<noteq> wid then Inl RecordNotFound else k)"

definition with_node ::
  "RunStore \<Rightarrow> string \<Rightarrow> (NodeRun \<Rightarrow> run_error + 'a) \<Rightarrow> run_error + 'a" where
  "with_node st i k = (case find_node_run st i of None \<Rightarrow> Inl RecordNotFound | Some r \<Rightarrow> k r)"

abbreviation cancelling :: "RunStore \<Rightarrow> bool" where
  "cancelling st \<equiv> cancel_requested_at (run st) \<noteq> None"

subsection \<open>Starting, claiming, completing\<close>

definition start_run :: "MasterLease \<Rightarrow> time \<Rightarrow> RunStore \<Rightarrow> run_error + RunStore" where
  "start_run lease now st =
     (if run_status (run st) \<noteq> WorkflowRunStatus.PENDING then Inr st
      else and_then
        (update_run (\<lambda>w. run_status w = WorkflowRunStatus.PENDING \<and> cancel_requested_at w = None)
          (\<lambda>w. w\<lparr>run_status := WorkflowRunStatus.RUNNING, run_started_at := Some now\<rparr>) st)
        (\<lambda>st'. Inr (append_run_state lease WorkflowRunStatus.PENDING WorkflowRunStatus.RUNNING st')))"

definition start_and_reconcile ::
  "(string \<Rightarrow> string) \<Rightarrow> (AgentSpec list \<Rightarrow> string) \<Rightarrow> string \<Rightarrow> MasterLease \<Rightarrow> time \<Rightarrow> RunStore \<Rightarrow>
     run_error + RunStore" where
  "start_and_reconcile H cd wid lease now st =
     fenced st lease now (known_run st wid
       (if \<not> snapshots_intact H cd (run st) then Inl SnapshotIntegrityError
        else and_then (start_run lease now st) (\<lambda>st'.
          if run_status (run st') = WorkflowRunStatus.RUNNING then reconcile lease now st' else Inr st')))"

definition next_ready :: "(string \<Rightarrow> NodeRun option) \<Rightarrow> string list \<Rightarrow> run_error + NodeRun option" where
  \<comment> \<open>the first ready row in topological order; every node looked at must have a row\<close>
  "next_ready by_node order =
     foldr (\<lambda>i rest. case by_node i of
         None \<Rightarrow> Inl (PyError KeyError)
       | Some r \<Rightarrow> (if nr_status r = NodeRunStatus.READY then Inr (Some r) else rest))
       order (Inr None)"

definition claim_next ::
  "(string \<Rightarrow> string) \<Rightarrow> (AgentSpec list \<Rightarrow> string) \<Rightarrow> string \<Rightarrow> MasterLease \<Rightarrow> time \<Rightarrow> RunStore \<Rightarrow>
     run_error + (RunStore \<times> NodeRun option)" where
  "claim_next H cd wid lease now st =
     fenced st lease now (known_run st wid
       (if \<not> snapshots_intact H cd (run st) then Inl SnapshotIntegrityError
        else if run_status (run st) \<noteq> WorkflowRunStatus.RUNNING then Inr (st, None)
        else if cancelling st then Inr (st, None)
        else and_then (topological_order (compiled_snapshot (run st))) (\<lambda>order.
          and_then (next_ready (dict_by nr_node_id (node_runs st)) order) (\<lambda>selected.
            case selected of
              None \<Rightarrow> Inr (st, None)
            | Some r \<Rightarrow>
                and_then
                  (update_node (node_run_id r) [NodeRunStatus.READY]
                    (\<lambda>q. q\<lparr>nr_status := NodeRunStatus.RUNNING, nr_started_at := Some now\<rparr>) st)
                  (\<lambda>st'. let st'' = append_node_state lease r NodeRunStatus.RUNNING None [] None st'
                    in Inr (st'', find_node_run st'' (node_run_id r)))))))"

fun allowed_outcomes :: "NodeRunStatus \<Rightarrow> NodeOutcome list" where
  "allowed_outcomes NodeRunStatus.COMPLETED =
     [NodeOutcome.SUCCESS, NodeOutcome.MATCHED, NodeOutcome.NOT_MATCHED, NodeOutcome.APPROVED,
      NodeOutcome.REJECTED]"
| "allowed_outcomes NodeRunStatus.FAILED = [NodeOutcome.FAILURE]"
| "allowed_outcomes NodeRunStatus.BLOCKED_BY_GUARD = [NodeOutcome.BLOCKED]"
| "allowed_outcomes _ = []"

definition compiled_node_of ::
  "(string \<Rightarrow> string) \<Rightarrow> RunStore \<Rightarrow> string \<Rightarrow> run_error + WorkflowNode" where
  \<comment> \<open>the node of the snapshot, after the check of the snapshot's hash\<close>
  "compiled_node_of H st i =
     (if H (canonical_compiled (compiled_snapshot (run st))) \<noteq> compiled_snapshot_hash (run st)
      then Inl SnapshotIntegrityError
      else case find (\<lambda>n. node_id n = i) (compiled_nodes (compiled_snapshot (run st))) of
        None \<Rightarrow> Inl SnapshotIntegrityError
      | Some n \<Rightarrow> Inr n)"

definition latest_attempt :: "RunStore \<Rightarrow> string \<Rightarrow> NodeRun option" where
  \<comment> \<open>\<open>ORDER BY attempt DESC LIMIT 1\<close>\<close>
  "latest_attempt st i =
     (let rows = filter (\<lambda>r. nr_node_id r = i) (node_runs st) in
      find (\<lambda>r. list_all (\<lambda>q. attempt q \<le> attempt r) rows) rows)"

definition task_of :: "RunStore \<Rightarrow> string \<Rightarrow> TaskRow option" where
  "task_of st nr_id = find (\<lambda>t. task_node_run_id t = nr_id) (tasks st)"

definition owned_artifact ::
  "RunStore \<Rightarrow> NodeRunStatus \<Rightarrow> ArtifactRow \<Rightarrow> NodeType \<Rightarrow> bool \<Rightarrow> TaskRow option \<Rightarrow> run_error option" where
  \<comment> \<open>the ownership rules of an output artifact\<close>
  "owned_artifact st target a ntype source_bound owner =
     (let expected = map_option task_id owner in
      if owner = None \<and> (source_bound \<or> ntype = AGENT_TASK \<and> target = NodeRunStatus.COMPLETED)
      then Some SnapshotIntegrityError
      else if artifact_session_id a \<noteq> run_session_id (run st) \<or> \<not> artifact_redacted a \<or>
        artifact_planner_run_id a \<noteq> None \<or>
        (artifact_task_id a \<noteq> None \<and> artifact_task_id a \<noteq> expected)
      then Some (PyError ValueError)
      else if (target = NodeRunStatus.COMPLETED \<and> ntype = AGENT_TASK \<or>
          source_bound \<and> target \<noteq> NodeRunStatus.FAILED) \<and> artifact_task_id a \<noteq> expected
      then Some (PyError ValueError)
      else None)"

definition check_output_artifact ::
  "(string \<Rightarrow> string) \<Rightarrow> RunStore \<Rightarrow> NodeRun \<Rightarrow> NodeRunStatus \<Rightarrow> string option \<Rightarrow> run_error + unit" where
  "check_output_artifact H st r target output =
     (case output of
        None \<Rightarrow> Inr ()
      | Some i \<Rightarrow>
          (case find (\<lambda>a. artifact_id a = i) (artifacts st) of
             None \<Rightarrow> Inl RecordNotFound
           | Some a \<Rightarrow>
               and_then (compiled_node_of H st (nr_node_id r)) (\<lambda>n.
                 let source_bound = system_managed n \<and> source_node_id n \<noteq> None in
                 and_then
                   (if source_bound
                    then (case latest_attempt st (the (source_node_id n)) of
                            None \<Rightarrow> Inl SnapshotIntegrityError | Some q \<Rightarrow> Inr (node_run_id q))
                    else Inr (node_run_id r))
                   (\<lambda>owner_id.
                     case owned_artifact st target a (nr_node_type r) source_bound (task_of st owner_id) of
                       Some e \<Rightarrow> Inl e | None \<Rightarrow> Inr ()))))"

fun latest_task_event :: "RunEvent list \<Rightarrow> string \<Rightarrow> (TaskStatus \<times> int option) option" where
  \<comment> \<open>of the newest event of the task: its status and workspace token\<close>
  "latest_task_event [] t = None"
| "latest_task_event (ev # evs) t =
     (case latest_task_event evs t of
        Some x \<Rightarrow> Some x
      | None \<Rightarrow>
          (case ev of
             TaskStateChanged _ wt _ i _ status _ \<Rightarrow> (if i = t then Some (status, wt) else None)
           | _ \<Rightarrow> None))"

definition check_write_task ::
  "(string \<Rightarrow> string) \<Rightarrow> RunStore \<Rightarrow> NodeRun \<Rightarrow> NodeRunStatus \<Rightarrow> run_error + unit" where
  \<comment> \<open>a write task completes only with a captured change set and the fence it was made under\<close>
  "check_write_task H st r target =
     (if nr_node_type r \<noteq> AGENT_TASK then Inr ()
      else and_then (compiled_node_of H st (nr_node_id r)) (\<lambda>n.
        if \<not> requires_write n then Inr ()
        else case task_of st (node_run_id r) of
          None \<Rightarrow> (if target = NodeRunStatus.COMPLETED then Inl SnapshotIntegrityError else Inr ())
        | Some t \<Rightarrow>
            (let captured = (map_option change_set_status
                   (find (\<lambda>c. change_set_task_id c = task_id t) (change_sets st)) = Some CAPTURED)
             in if (if target = NodeRunStatus.COMPLETED
                    then task_status t \<noteq> TaskStatus.SUCCEEDED \<or> \<not> captured
                    else task_status t \<in> {TaskStatus.PENDING, TaskStatus.RUNNING, TaskStatus.SUCCEEDED} \<or>
                      captured)
                then Inl SnapshotIntegrityError
                else case latest_task_event (run_events st) (task_id t) of
                  Some (status, Some token) \<Rightarrow>
                    (if status \<noteq> task_status t then Inl SnapshotIntegrityError
                     else case file_locks st (integration_resource st) of
                       None \<Rightarrow> Inl SnapshotIntegrityError
                     | Some (lock, _) \<Rightarrow>
                         (if owner_kind lock \<noteq> ''agent_task'' \<or> owner_operation_id lock \<noteq> task_id t \<or>
                             ws_fencing_token lock \<noteq> token
                          then Inl SnapshotIntegrityError else Inr ()))
                | _ \<Rightarrow> Inl SnapshotIntegrityError)))"

definition complete_node ::
  "(string \<Rightarrow> string) \<Rightarrow> string \<Rightarrow> NodeRunStatus \<Rightarrow> NodeOutcome \<Rightarrow> string \<Rightarrow> MasterLease \<Rightarrow>
     string option \<Rightarrow> string option \<Rightarrow> time \<Rightarrow> RunStore \<Rightarrow> run_error + RunStore" where
  "complete_node H i target oc summary lease output error now st =
     (if target \<notin> {NodeRunStatus.COMPLETED, NodeRunStatus.FAILED, NodeRunStatus.BLOCKED_BY_GUARD}
      then Inl (PyError ValueError)
      else if oc \<notin> set (allowed_outcomes target) then Inl (PyError ValueError)
      else if target \<noteq> NodeRunStatus.COMPLETED \<and> opt_list error = [] then Inl (PyError ValueError)
      else fenced st lease now (with_node st i (\<lambda>r.
        if cancelling st then Inl ConcurrencyConflict
        else if run_status (run st) \<noteq> WorkflowRunStatus.RUNNING then Inl ConcurrencyConflict
        else and_then (check_output_artifact H st r target output) (\<lambda>_.
          and_then (check_write_task H st r target) (\<lambda>_.
            and_then
              (update_node i [NodeRunStatus.RUNNING]
                (\<lambda>q. q\<lparr>nr_status := target, nr_outcome := Some oc, output_artifact_id := output,
                   nr_error_code := error, nr_finished_at := Some now\<rparr>) st)
              (\<lambda>st'. Inr (append_node_state lease (r\<lparr>nr_status := NodeRunStatus.RUNNING\<rparr>) target
                 (Some oc) summary error st')))))))"

definition attach_completed_node_artifact ::
  "string \<Rightarrow> string \<Rightarrow> MasterLease \<Rightarrow> time \<Rightarrow> RunStore \<Rightarrow> run_error + RunStore" where
  "attach_completed_node_artifact i art lease now st =
     fenced st lease now (with_node st i (\<lambda>r.
       if nr_status r \<noteq> NodeRunStatus.COMPLETED then Inl ConcurrencyConflict
       else case output_artifact_id r of
         Some a \<Rightarrow> (if a \<noteq> art then Inl ConcurrencyConflict else Inr st)
       | None \<Rightarrow>
           (if art \<notin> artifact_id ` set (artifacts st) then Inl IntegrityError \<comment> \<open>a foreign key\<close>
            else update_node i [NodeRunStatus.COMPLETED] (\<lambda>q. q\<lparr>output_artifact_id := Some art\<rparr>) st)))"

subsection \<open>Cancellation and quarantine\<close>

definition request_cancel :: "string \<Rightarrow> MasterLease \<Rightarrow> time \<Rightarrow> RunStore \<Rightarrow> run_error + RunStore" where
  "request_cancel wid lease now st =
     fenced st lease now (known_run st wid
       (if run_status (run st) \<in> set RUN_TERMINAL then Inr st
        else if merge_finalizing_at (run st) \<noteq> None then Inl ConcurrencyConflict
        else if cancelling st then Inr st
        else update_run (\<lambda>w. cancel_requested_at w = None \<and> merge_finalizing_at w = None)
          (\<lambda>w. w\<lparr>cancel_requested_at := Some now\<rparr>) st))"

definition NODE_LIVE :: "NodeRunStatus list" where
  "NODE_LIVE = [NodeRunStatus.PENDING, NodeRunStatus.READY, NodeRunStatus.RUNNING,
     NodeRunStatus.WAITING_APPROVAL]"

definition cancel_tasks_of :: "string \<Rightarrow> time \<Rightarrow> TaskRow list \<Rightarrow> TaskRow list" where
  "cancel_tasks_of i now =
     map (\<lambda>t. if task_node_run_id t = i \<and>
         task_status t \<in> {TaskStatus.PENDING, TaskStatus.RUNNING, TaskStatus.PRIVILEGE_REQUESTED}
       then t\<lparr>task_status := TaskStatus.CANCELLED, task_finished_at := Some now\<rparr> else t)"

fun cancel_nodes :: "MasterLease \<Rightarrow> time \<Rightarrow> NodeRun list \<Rightarrow> RunStore \<Rightarrow> run_error + RunStore" where
  "cancel_nodes lease now [] st = Inr st"
| "cancel_nodes lease now (r # rs) st =
     and_then
       (update_node (node_run_id r) NODE_LIVE
         (\<lambda>q. q\<lparr>nr_status := NodeRunStatus.CANCELLED, nr_outcome := Some NodeOutcome.CANCELLED,
            nr_error_code := Some ''workflow_cancelled'', nr_finished_at := Some now\<rparr>) st)
       (\<lambda>st'. cancel_nodes lease now rs
          (append_node_state lease r NodeRunStatus.CANCELLED (Some NodeOutcome.CANCELLED)
             ''Workflow cancellation completed.'' (Some ''workflow_cancelled'')
             (st'\<lparr>tasks := cancel_tasks_of (node_run_id r) now (tasks st')\<rparr>)))"

definition complete_cancel_in :: "MasterLease \<Rightarrow> time \<Rightarrow> RunStore \<Rightarrow> run_error + RunStore" where
  \<comment> \<open>\<open>_complete_cancel_in\<close>, and \<open>complete_cancel\<close> after its fence\<close>
  "complete_cancel_in lease now st =
     (if run_status (run st) \<in> set RUN_TERMINAL then Inr st
      else if merge_finalizing_at (run st) \<noteq> None then Inl ConcurrencyConflict
      else and_then
        (cancel_nodes lease now (filter (\<lambda>r. nr_status r \<in> set NODE_LIVE) (node_runs st)) st)
        (\<lambda>st1. and_then
           (update_run (\<lambda>w. run_status w \<notin> set RUN_TERMINAL \<and> merge_finalizing_at w = None)
             (\<lambda>w. w\<lparr>run_status := WorkflowRunStatus.CANCELLED, run_finished_at := Some now\<rparr>) st1)
           (\<lambda>st2. Inr (append_run_state lease (run_status (run st)) WorkflowRunStatus.CANCELLED st2))))"

definition complete_cancel :: "string \<Rightarrow> MasterLease \<Rightarrow> time \<Rightarrow> RunStore \<Rightarrow> run_error + RunStore" where
  "complete_cancel wid lease now st =
     fenced st lease now (known_run st wid (complete_cancel_in lease now st))"

definition cancel_with_cleanup ::
  "(RunStore \<Rightarrow> run_error + RunStore) \<Rightarrow> (RunStore \<Rightarrow> run_error + RunStore) \<Rightarrow> string \<Rightarrow> MasterLease \<Rightarrow>
     time \<Rightarrow> RunStore \<Rightarrow> run_error + RunStore" where
  \<comment> \<open>\<open>invalidate\<close> and \<open>revoke\<close> are the hooks looked up in the objects that are passed in\<close>
  "cancel_with_cleanup invalidate revoke wid lease now st =
     fenced st lease now (known_run st wid
       (if run_status (run st) \<in> set RUN_TERMINAL \<and> \<not> cancelling st then Inr st
        else if merge_finalizing_at (run st) \<noteq> None then Inl ConcurrencyConflict
        else and_then
          (if cancelling st then Inr st
           else update_run (\<lambda>w. cancel_requested_at w = None \<and> merge_finalizing_at w = None)
             (\<lambda>w. w\<lparr>cancel_requested_at := Some now\<rparr>) st)
          (\<lambda>st1. and_then (invalidate st1) (\<lambda>st2. and_then (revoke st2) (\<lambda>st3.
             and_then (complete_cancel_in lease now st3) (\<lambda>st4.
               Inr (emit (RecoveryAction (fencing_token lease) ''cancel'' ''cancelled''
                 ''cancellation and all dependent authorization state committed atomically'') st4)))))))"

fun orphan_nodes :: "MasterLease \<Rightarrow> string \<Rightarrow> time \<Rightarrow> NodeRun list \<Rightarrow> RunStore \<Rightarrow> RunStore" where
  "orphan_nodes lease reason now [] st = st"
| "orphan_nodes lease reason now (r # rs) st =
     orphan_nodes lease reason now rs
       (append_node_state lease r NodeRunStatus.ORPHANED None
          ''Recovery quarantined an uncertain node.'' (Some (take 200 reason))
          (st\<lparr>node_runs := map (\<lambda>q. if node_run_id q = node_run_id r \<and>
               nr_status q \<in> {NodeRunStatus.RUNNING, NodeRunStatus.WAITING_APPROVAL}
             then q\<lparr>nr_status := NodeRunStatus.ORPHANED, nr_error_code := Some (take 200 reason),
               nr_finished_at := (case nr_finished_at q of None \<Rightarrow> Some now | t \<Rightarrow> t)\<rparr>
             else q) (node_runs st)\<rparr>))"

definition orphan_run :: "MasterLease \<Rightarrow> time \<Rightarrow> RunStore \<Rightarrow> RunStore" where
  "orphan_run lease now st =
     append_run_state lease (run_status (run st)) WorkflowRunStatus.ORPHANED
       (st\<lparr>session_status := ''blocked'',
          run := (if run_status (run st) \<in> {WorkflowRunStatus.PENDING, WorkflowRunStatus.RUNNING,
              WorkflowRunStatus.WAITING_APPROVAL, WorkflowRunStatus.PAUSED}
            then (run st)\<lparr>run_status := WorkflowRunStatus.ORPHANED,
              run_finished_at := (case run_finished_at (run st) of None \<Rightarrow> Some now | t \<Rightarrow> t)\<rparr>
            else run st)\<rparr>)"

definition mark_orphaned ::
  "string \<Rightarrow> MasterLease \<Rightarrow> string \<Rightarrow> string option \<Rightarrow> time \<Rightarrow> RunStore \<Rightarrow> run_error + RunStore" where
  "mark_orphaned wid lease reason only now st =
     fenced st lease now (known_run st wid
       (let previous = run_status (run st) in
        if previous \<in> set RUN_TERMINAL \<and> previous \<noteq> WorkflowRunStatus.ORPHANED then Inr st
        else let uncertain = filter (\<lambda>r. nr_status r \<in> {NodeRunStatus.RUNNING, NodeRunStatus.WAITING_APPROVAL} \<and>
                 (case only of None \<Rightarrow> True | Some i \<Rightarrow> node_run_id r = i)) (node_runs st);
               st1 = orphan_nodes lease reason now uncertain st
          in Inr (if previous = WorkflowRunStatus.ORPHANED then st1 else orphan_run lease now st1)))"

subsection \<open>Waiting for an approval\<close>

definition wait_for_approval ::
  "string \<Rightarrow> string \<Rightarrow> string \<Rightarrow> MasterLease \<Rightarrow> NodeRun \<Rightarrow> RunStore \<Rightarrow> run_error + RunStore" where
  \<comment> \<open>node and run wait; shared by the change-set and the privilege gate\<close>
  "wait_for_approval i error summary lease r st =
     and_then
       (update_node i [NodeRunStatus.RUNNING]
         (\<lambda>q. q\<lparr>nr_status := NodeRunStatus.WAITING_APPROVAL, nr_error_code := Some error,
            nr_finished_at := None\<rparr>) st)
       (\<lambda>st1. and_then
          (update_run (\<lambda>w. run_status w = WorkflowRunStatus.RUNNING \<and> cancel_requested_at w = None)
            (\<lambda>w. w\<lparr>run_status := WorkflowRunStatus.WAITING_APPROVAL\<rparr>) st1)
          (\<lambda>st2. Inr (append_run_state lease WorkflowRunStatus.RUNNING WorkflowRunStatus.WAITING_APPROVAL
             (append_node_state lease r NodeRunStatus.WAITING_APPROVAL None summary (Some error) st2))))"

definition resume_waiting ::
  "MasterLease \<Rightarrow> bool \<Rightarrow> time \<Rightarrow> NodeRun \<Rightarrow> RunStore \<Rightarrow> run_error + RunStore" where
  \<comment> \<open>the branch the two \<open>resume_after_approval\<close> methods share\<close>
  "resume_waiting lease approved now r st =
     (let target = (if approved then NodeRunStatus.READY else NodeRunStatus.COMPLETED);
          oc = (if approved then None else Some NodeOutcome.REJECTED);
          error = (if approved then None else Some ''approval_rejected'')
      in if cancelling st then Inl ConcurrencyConflict
         else and_then
           (update_node (node_run_id r) [NodeRunStatus.WAITING_APPROVAL]
             (\<lambda>q. q\<lparr>nr_status := target, nr_outcome := oc, nr_error_code := error,
                nr_finished_at := (if approved then None else Some now)\<rparr>) st)
           (\<lambda>st1. and_then
              (update_run (\<lambda>w. run_status w = WorkflowRunStatus.WAITING_APPROVAL \<and> cancel_requested_at w = None)
                (\<lambda>w. w\<lparr>run_status := WorkflowRunStatus.RUNNING\<rparr>) st1)
              (\<lambda>st2. let st3 = append_run_state lease WorkflowRunStatus.WAITING_APPROVAL WorkflowRunStatus.RUNNING
                     (append_node_state lease r target oc
                       (if approved then ''Approval granted.'' else ''Approval rejected.'') error st2)
                 in if approved then Inr st3 else reconcile lease now st3)))"

definition resume_after_approval ::
  "string \<Rightarrow> string \<Rightarrow> bool \<Rightarrow> MasterLease \<Rightarrow> time \<Rightarrow> RunStore \<Rightarrow> run_error + RunStore" where
  "resume_after_approval wid i approved lease now st =
     fenced st lease now (known_run st wid (with_node st i (\<lambda>r.
       if nr_status r \<noteq> NodeRunStatus.WAITING_APPROVAL \<or>
         run_status (run st) \<noteq> WorkflowRunStatus.WAITING_APPROVAL
       then Inl ConcurrencyConflict
       else resume_waiting lease approved now r st)))"

definition resume_after_approval_in ::
  "string \<Rightarrow> string \<Rightarrow> bool \<Rightarrow> MasterLease \<Rightarrow> time \<Rightarrow> RunStore \<Rightarrow> run_error + RunStore" where
  "resume_after_approval_in wid i approved lease now st =
     known_run st wid (with_node st i (\<lambda>r.
       if nr_status r = NodeRunStatus.WAITING_APPROVAL \<and>
         run_status (run st) = WorkflowRunStatus.WAITING_APPROVAL
       then resume_waiting lease approved now r st
       else if nr_status r = NodeRunStatus.RUNNING \<and> run_status (run st) = WorkflowRunStatus.RUNNING
       then (if approved then Inr st
             else if cancelling st then Inl ConcurrencyConflict
             else and_then
               (update_node i [NodeRunStatus.RUNNING]
                 (\<lambda>q. q\<lparr>nr_status := NodeRunStatus.COMPLETED, nr_outcome := Some NodeOutcome.REJECTED,
                    nr_error_code := Some ''approval_rejected'', nr_finished_at := Some now\<rparr>) st)
               (\<lambda>st1. reconcile lease now
                  (append_node_state lease r NodeRunStatus.COMPLETED (Some NodeOutcome.REJECTED)
                    ''Approval rejected.'' (Some ''approval_rejected'') st1)))
       else Inl ConcurrencyConflict))"

definition enter_waiting_approval ::
  "string \<Rightarrow> string \<Rightarrow> MasterLease \<Rightarrow> time \<Rightarrow> RunStore \<Rightarrow> run_error + RunStore" where
  "enter_waiting_approval i approval_id lease now st =
     fenced st lease now (with_node st i (\<lambda>r.
       if nr_status r \<noteq> NodeRunStatus.RUNNING \<or> run_status (run st) \<noteq> WorkflowRunStatus.RUNNING
       then Inl ConcurrencyConflict
       else if cancelling st then Inl ConcurrencyConflict
       else case approval_status st approval_id of
         Some s \<Rightarrow>
           (if s = ''approved'' \<or> s = ''rejected''
            then resume_after_approval_in (workflow_run_id (run st)) i (s = ''approved'') lease now st
            else wait_for_approval i (''approval_pending:'' @ approval_id)
              ''Waiting for durable approval.'' lease r st)
       | None \<Rightarrow> wait_for_approval i (''approval_pending:'' @ approval_id)
              ''Waiting for durable approval.'' lease r st))"

end
