(* ===== verification/Dominators.thy ===== *)
theory Dominators
  imports Topo_Order
begin

text \<open>
  The iterated dominator sets of \<open>_dominators\<close> in \<open>workflow/validation.py\<close>: every
  vertex starts with all vertices (a source with itself only), and at most as many rounds as
  there are vertices intersect the sets of the predecessors, in place and in sorted order,
  stopping at the first round that changes nothing. On an acyclic graph that bound is enough:
  the result is exactly the set of vertices on every path from a source.
\<close>

subsection \<open>The iteration\<close>

fun meet_over :: "('a \<Rightarrow> 'a set) \<Rightarrow> 'a list \<Rightarrow> 'a set" where
  \<comment> \<open>\<open>set.intersection(*(dominators[item] for item in predecessors))\<close>, a non-empty list\<close>
  "meet_over D [] = {}"
| "meet_over D [p] = D p"
| "meet_over D (p # ps) = D p \<inter> meet_over D ps"

definition dom_updated :: "'a arcs \<Rightarrow> ('a \<Rightarrow> 'a set) \<Rightarrow> 'a \<Rightarrow> 'a set" where
  "dom_updated es D v =
     (if preds es v = [] then {v} else insert v (meet_over D (preds es v)))"

fun dom_round :: "'a arcs \<Rightarrow> ('a \<Rightarrow> 'a set) \<Rightarrow> bool \<Rightarrow> 'a list \<Rightarrow> ('a \<Rightarrow> 'a set) \<times> bool" where
  "dom_round es D changed [] = (D, changed)"
| "dom_round es D changed (v # vs) =
     (if dom_updated es D v \<noteq> D v then dom_round es (D(v := dom_updated es D v)) True vs
      else dom_round es D changed vs)"

fun dom_rounds :: "nat \<Rightarrow> 'a arcs \<Rightarrow> 'a list \<Rightarrow> ('a \<Rightarrow> 'a set) \<Rightarrow> ('a \<Rightarrow> 'a set)" where
  "dom_rounds 0 es vs D = D"
| "dom_rounds (Suc n) es vs D =
     (case dom_round es D False vs of (D', changed) \<Rightarrow>
        if changed then dom_rounds n es vs D' else D')"

definition dominators :: "'a::linorder list \<Rightarrow> 'a arcs \<Rightarrow> 'a \<Rightarrow> 'a set" where
  "dominators vs es =
     dom_rounds (max 1 (length vs)) es (sort vs)
       (\<lambda>v. if preds es v = [] then {v} else set vs)"

subsection \<open>Paths from a source\<close>

inductive source_path :: "'a arcs \<Rightarrow> 'a \<Rightarrow> 'a list \<Rightarrow> bool" where
  source: "preds es v = [] \<Longrightarrow> source_path es v [v]"
| extend: "source_path es u xs \<Longrightarrow> (u, v) \<in> set es \<Longrightarrow> source_path es v (xs @ [v])"

definition on_every_path :: "'a arcs \<Rightarrow> 'a \<Rightarrow> 'a \<Rightarrow> bool" where
  "on_every_path es u v \<longleftrightarrow> (\<forall>xs. source_path es v xs \<longrightarrow> u \<in> set xs)"

definition exact_dom :: "'a arcs \<Rightarrow> 'a \<Rightarrow> 'a set" where
  "exact_dom es v = {u. on_every_path es u v}"

lemma set_meet_over: "ps \<noteq> [] \<Longrightarrow> meet_over D ps = (\<Inter>p \<in> set ps. D p)"
  by (induction D ps rule: meet_over.induct) auto

lemma source_path_last: "source_path es v xs \<Longrightarrow> v \<in> set xs"
  by (cases rule: source_path.cases) auto

lemma exact_dom_source: "preds es v = [] \<Longrightarrow> exact_dom es v = {v}"
proof
  assume p: "preds es v = []"
  show "exact_dom es v \<subseteq> {v}"
    using source_path.source [OF p] by (auto simp: exact_dom_def on_every_path_def)
  show "{v} \<subseteq> exact_dom es v"
    by (auto simp: exact_dom_def on_every_path_def source_path_last)
qed

lemma exact_dom_step:
  assumes "preds es v \<noteq> []"
  shows "exact_dom es v = insert v (\<Inter>p \<in> set (preds es v). exact_dom es p)"
proof
  show "exact_dom es v \<subseteq> insert v (\<Inter>p \<in> set (preds es v). exact_dom es p)"
  proof
    fix u
    assume u: "u \<in> exact_dom es v"
    have "u \<in> exact_dom es p" if "u \<noteq> v" "(p, v) \<in> set es" for p
      using u that source_path.extend [of es p _ v]
      by (fastforce simp: exact_dom_def on_every_path_def)
    then show "u \<in> insert v (\<Inter>p \<in> set (preds es v). exact_dom es p)" by auto
  qed
  show "insert v (\<Inter>p \<in> set (preds es v). exact_dom es p) \<subseteq> exact_dom es v"
  proof
    fix u
    assume u: "u \<in> insert v (\<Inter>p \<in> set (preds es v). exact_dom es p)"
    have "u \<in> set xs" if "source_path es v xs" for xs
      using that
    proof (cases rule: source_path.cases)
      case source
      with assms show ?thesis by simp
    next
      case (extend p ys)
      then show ?thesis using u by (auto simp: exact_dom_def on_every_path_def)
    qed
    then show "u \<in> exact_dom es v" by (simp add: exact_dom_def on_every_path_def)
  qed
qed

lemma dom_updated_exact:
  assumes "\<And>p. (p, v) \<in> set es \<Longrightarrow> D p = exact_dom es p"
  shows "dom_updated es D v = exact_dom es v"
proof (cases "preds es v = []")
  case True
  then show ?thesis by (simp add: dom_updated_def exact_dom_source)
next
  case False
  then have "dom_updated es D v = insert v (\<Inter>p \<in> set (preds es v). D p)"
    by (simp add: dom_updated_def set_meet_over del: set_preds)
  also have "(\<Inter>p \<in> set (preds es v). D p) = (\<Inter>p \<in> set (preds es v). exact_dom es p)"
    using assms by simp
  finally show ?thesis using exact_dom_step [OF False] by simp
qed

subsection \<open>Convergence within the bound\<close>

text \<open>
  With a rank that increases along edges, one round makes the vertices of the next rank exact
  and keeps those that are; a round that changes nothing has reached the only fixed point.
\<close>

lemma dom_round_exact:
  assumes rank: "\<And>u v. (u, v) \<in> set es \<Longrightarrow> (rank u :: nat) < rank v"
    and "dom_round es D c vs = (D', c')"
    and "\<And>v. v \<in> A \<Longrightarrow> rank v < k \<or> (rank v = k \<and> v \<in> S) \<Longrightarrow> D v = exact_dom es v"
    and "set es \<subseteq> A \<times> A" and "set vs \<subseteq> A"
  shows "\<forall>v \<in> A. rank v < k \<or> (rank v = k \<and> v \<in> S \<union> set vs) \<longrightarrow> D' v = exact_dom es v"
  using assms(2-)
proof (induction vs arbitrary: D c S)
  case Nil
  then show ?case by auto
next
  case (Cons w vs)
  let ?D = "if dom_updated es D w \<noteq> D w then D(w := dom_updated es D w) else D"
  have "\<exists>c. dom_round es ?D c vs = (D', c')"
    using Cons.prems(1) by (auto split: if_splits)
  then obtain c1 where r: "dom_round es ?D c1 vs = (D', c')" by blast
  have w: "dom_updated es D w = exact_dom es w" if "rank w \<le> k"
  proof (rule dom_updated_exact)
    fix p
    assume e: "(p, w) \<in> set es"
    then show "D p = exact_dom es p"
      using rank [OF e] that Cons.prems(2) [of p] Cons.prems(3) by auto
  qed
  have "?D v = exact_dom es v"
    if "v \<in> A" "rank v < k \<or> (rank v = k \<and> v \<in> insert w S)" for v
  proof (cases "v = w")
    case True
    then have "dom_updated es D v = exact_dom es v" using w that(2) by auto
    then show ?thesis using True by (cases "dom_updated es D v = D v") auto
  next
    case False
    then have "D v = exact_dom es v" using Cons.prems(2) that by blast
    then show ?thesis using False by simp
  qed
  then have "\<forall>v \<in> A. rank v < k \<or> (rank v = k \<and> v \<in> insert w S \<union> set vs) \<longrightarrow>
      D' v = exact_dom es v"
    using Cons.prems(3,4) by (intro Cons.IH [OF r]) auto
  then show ?case by auto
qed

lemma dom_round_changed: "snd (dom_round es D True vs)"
  by (induction vs arbitrary: D) simp_all

lemma dom_round_unchanged:
  "dom_round es D False vs = (D', False) \<Longrightarrow> D' = D \<and> (\<forall>v \<in> set vs. dom_updated es D v = D v)"
proof (induction vs)
  case (Cons v vs)
  show ?case
  proof (cases "dom_updated es D v = D v")
    case True
    with Cons show ?thesis by simp
  next
    case False
    then show ?thesis
      using Cons.prems dom_round_changed [of es "D(v := dom_updated es D v)" vs] by simp
  qed
qed simp

lemma dom_rounds_exact:
  assumes rank: "\<And>u v. (u, v) \<in> set es \<Longrightarrow> (rank u :: nat) < rank v"
    and es: "set es \<subseteq> set vs \<times> set vs"
    and D: "\<And>v. v \<in> set vs \<Longrightarrow> rank v < k \<Longrightarrow> D v = exact_dom es v"
    and bound: "\<And>v. v \<in> set vs \<Longrightarrow> rank v < k + n"
    and v: "v \<in> set vs"
  shows "dom_rounds n es vs D v = exact_dom es v"
  using D bound
proof (induction n arbitrary: D k)
  case 0
  then show ?case using v by simp
next
  case (Suc n)
  obtain D' c where r: "dom_round es D False vs = (D', c)" by fastforce
  show ?case
  proof (cases c)
    case True
    have "\<forall>v \<in> set vs. rank v < k \<or> (rank v = k \<and> v \<in> {} \<union> set vs) \<longrightarrow> D' v = exact_dom es v"
      using Suc.prems(1) es by (intro dom_round_exact [OF rank r]) auto
    then have "D' w = exact_dom es w" if "w \<in> set vs" "rank w < Suc k" for w
      using that by (auto simp: less_Suc_eq)
    then have "dom_rounds n es vs D' v = exact_dom es v"
      using Suc.prems(2) by (intro Suc.IH [of "Suc k"]) auto
    then show ?thesis using r True by simp
  next
    case False
    then have fix_D: "D' = D" "\<And>w. w \<in> set vs \<Longrightarrow> dom_updated es D w = D w"
      using r dom_round_unchanged [of es D vs D'] by simp_all
    have "D w = exact_dom es w" if "w \<in> set vs" for w
      using that
    proof (induction "rank w" arbitrary: w rule: less_induct)
      case less
      have "dom_updated es D w = exact_dom es w"
      proof (rule dom_updated_exact)
        fix p
        assume e: "(p, w) \<in> set es"
        then show "D p = exact_dom es p" using less.hyps [OF rank [OF e]] es by auto
      qed
      then show ?case using fix_D(2) less.prems by simp
    qed
    then show ?thesis using r False fix_D(1) v by simp
  qed
qed

theorem dominators_exact:
  assumes vs: "distinct vs" "set es \<subseteq> set vs \<times> set vs" and ac: "acyclic (set es)"
    and v: "v \<in> set vs"
  shows "u \<in> dominators vs es v \<longleftrightarrow> on_every_path es u v"
proof -
  have "length (kahn_order vs es) = length vs"
    using kahn.complete_iff_acyclic [OF vs] ac by simp
  then have all: "set (kahn_order vs es) = set vs"
    using kahn.order_distinct [OF vs] kahn.order_subset [OF vs] vs(1)
    by (metis List.finite_set card_subset_eq distinct_card)
  have "dominators vs es v = exact_dom es v"
  proof (rule kahn.order_rank [OF vs all])
    fix rank :: "'a \<Rightarrow> nat"
    assume rank: "\<And>u v. (u, v) \<in> set es \<Longrightarrow> rank u < rank v"
      and bound: "\<And>v. v \<in> set vs \<Longrightarrow> rank v < length vs"
    show ?thesis
      unfolding dominators_def
      by (rule dom_rounds_exact [where rank = rank and k = 0])
        (use rank bound vs(2) v in \<open>auto simp: less_max_iff_disj\<close>)
  qed
  then show ?thesis by (simp add: exact_dom_def)
qed

end
