(* ===== verification/Draft_Validation.thy ===== *)
theory Draft_Validation
  imports Graph_Model Graph_Search Dominators Path_Policy
begin

text \<open>
  \<open>workflow/validation.py\<close>: the structural validation of an untrusted author graph. Every
  check appends \<open>ValidationIssue\<close>s in the source's order, messages included, because the
  constructor of an issue can itself refuse one (a message of more than 2000 characters), and
  then the exception replaces the report.
\<close>

definition MAX_AUTHOR_GRAPH_BYTES :: nat where
  "MAX_AUTHOR_GRAPH_BYTES = 2 * 1024 * 1024"

definition MAX_AUTHOR_NODES :: nat where
  "MAX_AUTHOR_NODES = 100"

definition MAX_AUTHOR_EDGES :: nat where
  "MAX_AUTHOR_EDGES = 300"

definition AUTHOR_NODE_TYPES :: "NodeType list" where
  "AUTHOR_NODE_TYPES = [INPUT, AGENT_TASK, CONTEXT_BUILDER, IF, OUTPUT]"

record ValidationReport =
  report_errors :: "ValidationIssue list"
  report_warnings :: "ValidationIssue list"

definition ok :: "ValidationReport \<Rightarrow> bool" where
  "ok r \<longleftrightarrow> report_errors r = []"

definition issue :: "string \<Rightarrow> string \<Rightarrow> string option \<Rightarrow> string option \<Rightarrow> ValidationIssue" where
  "issue code message node edge =
     \<lparr>issue_code = code, issue_message = message, issue_node_id = node, issue_edge_id = edge\<rparr>"

abbreviation node_issue :: "string \<Rightarrow> string \<Rightarrow> WorkflowNode \<Rightarrow> ValidationIssue" where
  "node_issue code message n \<equiv> issue code message (Some (node_id n)) None"

abbreviation edge_issue :: "string \<Rightarrow> string \<Rightarrow> WorkflowEdge \<Rightarrow> ValidationIssue" where
  "edge_issue code message e \<equiv> issue code message None (Some (edge_id e))"

subsection \<open>Candidate paths and commands\<close>

definition WILDCARD_CHARS :: "char list" where
  "WILDCARD_CHARS = ''*?[]{}''"

definition drive_path :: "string \<Rightarrow> bool" where
  \<comment> \<open>\<open>^[A-Za-z]:\<close>\<close>
  "drive_path s \<longleftrightarrow> has_drive s \<and> (is_upper (hd s) \<or> is_lower (hd s))"

definition invalid_repo_path_reason :: "string \<Rightarrow> string option" where
  "invalid_repo_path_reason value =
     (if list_ex (\<lambda>c. char_code c < 32) value then Some ''control characters are forbidden''
      else if CHR 0x5C \<in> set value then Some ''use canonical forward slashes''
      else if startswith value ''/'' \<or> drive_path value then Some ''absolute paths are forbidden''
      else if list_ex (\<lambda>c. c \<in> set value) WILDCARD_CHARS then Some ''wildcards are forbidden''
      else if list_ex (\<lambda>p. p \<in> set [[], ''.'', ''..'']) (posix_parts value)
      then Some ''dot and parent segments are forbidden''
      else if endswith value ''/'' then Some ''file paths cannot end with a slash''
      else if as_posix value \<noteq> value then Some ''path is not canonical''
      else None)"

definition candidate_list_issues :: "WorkflowNode \<Rightarrow> string \<Rightarrow> string list \<Rightarrow> ValidationIssue list" where
  "candidate_list_issues n field_name values =
     report_if (length values \<noteq> length (remdups values))
       (node_issue ''duplicate_candidate_path'' (field_name @ '' contains duplicate paths'') n) @
     concat (map (\<lambda>v. case invalid_repo_path_reason v of
        None \<Rightarrow> []
      | Some reason \<Rightarrow>
          [node_issue ''invalid_candidate_path''
             (''invalid '' @ field_name @ '' path '' @ py_repr v @ '': '' @ reason) n]) values)"

definition validate_candidate_paths :: "WorkflowNode \<Rightarrow> ValidationIssue list" where
  "validate_candidate_paths n =
     candidate_list_issues n ''allowed_files_candidate'' (allowed_files_candidate n) @
     candidate_list_issues n ''new_files_candidate'' (new_files_candidate n) @
     (case sorted_set (filter (\<lambda>p. p \<in> set (new_files_candidate n)) (allowed_files_candidate n)) of
        [] \<Rightarrow> []
      | p # _ \<Rightarrow>
          [node_issue ''candidate_scope_overlap''
             (''existing and new candidate paths overlap: '' @ p) n])"

definition bad_token :: "string \<Rightarrow> bool" where
  "bad_token t \<longleftrightarrow> CHR 0x00 \<in> set t \<or> CHR 0x0D \<in> set t \<or> CHR 0x0A \<in> set t"

fun candidate_command_issues ::
  "WorkflowNode \<Rightarrow> string list list \<Rightarrow> string list list \<Rightarrow> ValidationIssue list" where
  "candidate_command_issues n seen [] = []"
| "candidate_command_issues n seen (av # avs) =
     report_if (av \<in> set seen)
       (node_issue ''duplicate_command_candidate'' ''allowed command candidates must be unique'' n) @
     report_if (list_ex bad_token av)
       (node_issue ''invalid_command_token''
          ''command argv tokens cannot contain NUL or newlines'' n) @
     candidate_command_issues n (av # seen) avs"

definition validate_candidate_commands :: "WorkflowNode \<Rightarrow> ValidationIssue list" where
  "validate_candidate_commands n = candidate_command_issues n [] (allowed_commands_candidate n)"

subsection \<open>One node\<close>

definition compiler_only_fields :: "WorkflowNode \<Rightarrow> (string \<times> bool) list" where
  \<comment> \<open>\<open>_COMPILER_ONLY_FIELDS\<close>, each with whether the node sets it\<close>
  "compiler_only_fields n =
     [(''resolved_agent_id'', resolved_agent_id n \<noteq> None),
      (''resolved_agent_spec_sha256'', resolved_agent_spec_sha256 n \<noteq> None),
      (''effective_allowed_files'', effective_allowed_files n \<noteq> None),
      (''effective_new_files'', effective_new_files n \<noteq> None),
      (''effective_allowed_commands'', effective_allowed_commands n \<noteq> None),
      (''policy_risk_floor'', policy_risk_floor n \<noteq> None),
      (''requires_changeset_approval'', requires_changeset_approval n \<noteq> None),
      (''test_kind'', test_kind n \<noteq> None),
      (''test_argv'', test_argv n \<noteq> None),
      (''source_node_id'', source_node_id n \<noteq> None),
      (''system_rule_id'', system_rule_id n \<noteq> None)]"

definition agent_task_issues :: "WorkflowNode \<Rightarrow> ValidationIssue list" where
  "agent_task_issues n =
     report_if (task_kind n = None)
       (node_issue ''agent_task_kind_missing'' ''agent_task requires task_kind'' n) @
     report_if (instruction n = None)
       (node_issue ''agent_instruction_missing'' ''agent_task requires instruction'' n) @
     report_if (assignment_mode n = AUTO \<and> assigned_agent n \<noteq> None)
       (node_issue ''auto_assignment_has_agent'' ''auto assignment cannot pin assigned_agent'' n) @
     report_if (assignment_mode n \<in> set [MANUAL, LOCKED] \<and> assigned_agent n = None)
       (node_issue ''explicit_assignment_missing_agent''
          (AssignmentMode_value (assignment_mode n) @ '' assignment requires assigned_agent'') n) @
     validate_candidate_paths n @
     validate_candidate_commands n @
     report_if (\<not> requires_write n \<and>
         (new_files_candidate n \<noteq> [] \<or> allowed_commands_candidate n \<noteq> []))
       (node_issue ''write_candidates_on_readonly_task''
          ''new files and command candidates require requires_write=true'' n)"

definition non_agent_issues :: "WorkflowNode \<Rightarrow> ValidationIssue list" where
  "non_agent_issues n =
     report_if (task_kind n \<noteq> None)
       (node_issue ''task_kind_on_non_agent'' ''task_kind is only valid on agent_task'' n) @
     report_if (assigned_agent n \<noteq> None \<or> recommended_agents n \<noteq> [])
       (node_issue ''agent_assignment_on_system_node''
          ''Agent assignment is only valid on agent_task'' n) @
     report_if (allowed_files_candidate n \<noteq> [] \<or> new_files_candidate n \<noteq> [] \<or>
         allowed_commands_candidate n \<noteq> [] \<or> requires_write n)
       (node_issue ''scope_on_non_agent''
          ''candidate permissions are only valid on agent_task'' n)"

definition validate_node :: "WorkflowNode \<Rightarrow> ValidationIssue list" where
  "validate_node n =
     report_if (node_type n \<notin> set AUTHOR_NODE_TYPES)
       (node_issue ''author_system_node_type''
          (NodeType_value (node_type n) @ '' is compiler-only'') n) @
     report_if (system_managed n)
       (node_issue ''author_system_node'' ''AuthorGraph nodes cannot be system-managed'' n) @
     concat (map (\<lambda>(field_name, present). report_if present
       (node_issue ''compiler_only_field''
          (field_name @ '' can only be set by WorkflowCompiler'') n)) (compiler_only_fields n)) @
     (if node_type n = AGENT_TASK then agent_task_issues n else non_agent_issues n) @
     (if node_type n = IF
      then report_if (if_condition n = None)
        (node_issue ''if_condition_missing'' ''if node requires if_condition'' n)
      else report_if (if_condition n \<noteq> None)
        (node_issue ''if_condition_on_non_if'' ''if_condition is only valid on if nodes'' n))"

subsection \<open>Conditions\<close>

definition author_conditions :: "NodeType \<Rightarrow> EdgeCondition list" where
  "author_conditions t =
     (if t = IF then [MATCHED, NOT_MATCHED, FAILURE] else [SUCCESS, FAILURE])"

definition validate_edge_condition :: "WorkflowEdge \<Rightarrow> WorkflowNode \<Rightarrow> ValidationIssue list" where
  "validate_edge_condition e source =
     (if condition e \<in> set (author_conditions (node_type source)) then []
      else [issue ''invalid_edge_condition''
              (NodeType_value (node_type source) @ '' cannot emit '' @
               EdgeCondition_value (condition e))
              (Some (node_id source)) (Some (edge_id e))])"

definition expected_values :: "string \<Rightarrow> string list option" where
  "expected_values field =
     (if field = ''status'' then Some (map NodeRunStatus_value NodeRunStatus_members)
      else if field = ''outcome'' then Some (map NodeOutcome_value NodeOutcome_members)
      else if field = ''effective_risk'' then Some (map RiskLevel_value [L0, L1, L2, L3, L4])
      else None)"

definition unknown_operand :: "WorkflowNode \<Rightarrow> IfCondition \<Rightarrow> ValidationIssue" where
  "unknown_operand n c =
     node_issue ''if_operand_unknown''
       (''if condition contains an unknown '' @ if_field c @ '' value'') n"

definition operand_issues :: "WorkflowNode \<Rightarrow> IfCondition \<Rightarrow> ValidationIssue list" where
  "operand_issues n c =
     (let expected = expected_values (if_field c); tests = (if_field c = ''tests_passed'') in
      case operator c of
        IS_TRUE \<Rightarrow> report_if (\<not> tests \<or> if_value c \<noteq> None)
          (node_issue ''if_operand_invalid'' ''is_true/is_false require tests_passed with no value'' n)
      | IS_FALSE \<Rightarrow> report_if (\<not> tests \<or> if_value c \<noteq> None)
          (node_issue ''if_operand_invalid'' ''is_true/is_false require tests_passed with no value'' n)
      | IN \<Rightarrow>
          (case if_value c of
             Some (IfList xs) \<Rightarrow>
               (if tests
                then [node_issue ''if_operand_invalid''
                        ''in requires a non-boolean field and a non-empty value list'' n]
                else case expected of
                  None \<Rightarrow> []
                | Some vs \<Rightarrow> report_if (list_ex (\<lambda>x. x \<notin> set vs) xs) (unknown_operand n c))
           | _ \<Rightarrow> [node_issue ''if_operand_invalid''
                        ''in requires a non-boolean field and a non-empty value list'' n])
      | _ \<Rightarrow>
          (let scalar = (if tests then (case if_value c of Some (IfBool _) \<Rightarrow> True | _ \<Rightarrow> False)
                         else (case if_value c of Some (IfStr _) \<Rightarrow> expected \<noteq> None | _ \<Rightarrow> False))
           in if \<not> scalar
              then [node_issue ''if_operand_invalid''
                      ''eq/ne require a scalar value matching the selected field'' n]
              else case (expected, if_value c) of
                (Some vs, Some (IfStr x)) \<Rightarrow> report_if (x \<notin> set vs) (unknown_operand n c)
              | _ \<Rightarrow> []))"

definition validate_if_condition ::
  "WorkflowNode \<Rightarrow> IfCondition \<Rightarrow> string list \<Rightarrow> WorkflowEdge list \<Rightarrow> ValidationIssue list" where
  "validate_if_condition n c node_ids es =
     (let upstream = upstream_node_id c; arcs = map edge_pair es in
      if upstream \<notin> set node_ids
      then [node_issue ''if_upstream_unknown''
              ''if condition references an unknown upstream node'' n]
      else
        (if upstream \<notin> transitive_preds (node_id n) arcs
         then [node_issue ''if_upstream_not_predecessor''
                 ''if condition must reference a transitive predecessor'' n]
         else report_if (upstream \<notin> dominators node_ids arcs (node_id n))
           (node_issue ''if_upstream_not_dominating''
              ''if condition upstream must be completed on every path to the if node'' n)) @
        operand_issues n c)"

definition condition_count :: "WorkflowNode \<Rightarrow> EdgeCondition \<Rightarrow> WorkflowEdge list \<Rightarrow> nat" where
  "condition_count n c es = length (filter (\<lambda>e. from_node e = node_id n \<and> condition e = c) es)"

definition if_branch_issues :: "WorkflowNode \<Rightarrow> WorkflowEdge list \<Rightarrow> ValidationIssue list" where
  "if_branch_issues n es =
     (if node_type n \<noteq> IF then []
      else concat (map (\<lambda>required.
          report_if (condition_count n required es \<noteq> 1)
            (node_issue ''if_branch_missing''
              (''if node requires exactly one '' @ EdgeCondition_value required @ '' edge'') n))
          [MATCHED, NOT_MATCHED]) @
        report_if (1 < condition_count n FAILURE es)
          (node_issue ''if_failure_fanout'' ''if node may have at most one failure edge'' n))"

definition validate_if_branches ::
  "WorkflowNode list \<Rightarrow> WorkflowEdge list \<Rightarrow> ValidationIssue list" where
  "validate_if_branches ns es = concat (map (\<lambda>n. if_branch_issues n es) ns)"

subsection \<open>The whole graph\<close>

definition degree_of :: "(WorkflowEdge \<Rightarrow> string) \<Rightarrow> WorkflowEdge list \<Rightarrow> string \<Rightarrow> nat" where
  \<comment> \<open>\<open>Counter(key(edge) for edge in edges)[id]\<close>\<close>
  "degree_of key es i = length (filter (\<lambda>e. key e = i) es)"

definition dead_end_issues :: "WorkflowNode list \<Rightarrow> WorkflowEdge list \<Rightarrow> WorkflowNode \<Rightarrow> ValidationIssue list" where
  "dead_end_issues ns es n =
     report_if (node_type n \<noteq> OUTPUT \<and> degree_of from_node es (node_id n) = 0)
       (node_issue ''dead_end_node'' ''every non-output node requires an outgoing edge'' n) @
     report_if (1 < length ns \<and> degree_of to_node es (node_id n) = 0 \<and>
         degree_of from_node es (node_id n) = 0)
       (node_issue ''isolated_node'' ''complete workflow cannot contain isolated nodes'' n)"

definition validate_complete_graph ::
  "WorkflowNode list \<Rightarrow> WorkflowEdge list \<Rightarrow> string list \<Rightarrow> ValidationIssue list" where
  "validate_complete_graph ns es node_ids =
     (let inputs = filter (\<lambda>n. node_type n = INPUT) ns;
          outputs = filter (\<lambda>n. node_type n = OUTPUT) ns
      in report_if (length inputs \<noteq> 1)
           (issue ''input_count'' ''workflow requires exactly one input node'' None None) @
         report_if (length outputs \<noteq> 1)
           (issue ''output_count'' ''workflow requires exactly one output node'' None None) @
         report_if (length inputs = 1 \<and> degree_of to_node es (node_id (hd inputs)) \<noteq> 0)
           (node_issue ''input_has_incoming'' ''input node cannot have incoming edges'' (hd inputs)) @
         report_if (length outputs = 1 \<and> degree_of from_node es (node_id (hd outputs)) \<noteq> 0)
           (node_issue ''output_has_outgoing''
              ''output node cannot have outgoing edges'' (hd outputs)) @
         concat (map (dead_end_issues ns es) ns) @
         (if length inputs = 1 \<and> length node_ids = length ns
          then map (\<lambda>i. issue ''unreachable_node'' ''node is not reachable from input'' (Some i) None)
            (sort (filter
               (\<lambda>i. i \<notin> reachable_from (node_id (hd inputs)) (map edge_pair es)) node_ids))
          else []))"

definition repeated :: "string list \<Rightarrow> string list" where
  \<comment> \<open>the keys of \<open>sorted(Counter(xs).items())\<close> counted more than once\<close>
  "repeated xs = filter (\<lambda>x. 1 < count_list xs x) (sorted_set xs)"

definition edge_known :: "string list \<Rightarrow> WorkflowEdge \<Rightarrow> bool" where
  "edge_known node_ids e \<longleftrightarrow> from_node e \<in> set node_ids \<and> to_node e \<in> set node_ids"

definition edge_issues ::
  "string list \<Rightarrow> (string \<Rightarrow> WorkflowNode option) \<Rightarrow> WorkflowEdge \<Rightarrow> ValidationIssue list" where
  "edge_issues node_ids node_of e =
     report_if (from_node e \<notin> set node_ids)
       (edge_issue ''unknown_edge_source'' (''edge source does not exist: '' @ from_node e) e) @
     report_if (to_node e \<notin> set node_ids)
       (edge_issue ''unknown_edge_target'' (''edge target does not exist: '' @ to_node e) e) @
     report_if (from_node e = to_node e)
       (edge_issue ''self_edge'' ''self edges are not allowed'' e) @
     report_if (edge_system_managed e)
       (edge_issue ''author_system_edge''
          ''AuthorGraph cannot contain system-managed edges'' e) @
     (if edge_known node_ids e
      then (case node_of (from_node e) of
              None \<Rightarrow> [] | Some source \<Rightarrow> validate_edge_condition e source)
      else [])"

definition size_issues :: "AuthorGraph \<Rightarrow> ValidationIssue list" where
  "size_issues g =
     report_if (MAX_AUTHOR_NODES < length (nodes g))
       (issue ''graph_too_many_nodes'' ''author graph exceeds 100 nodes'' None None) @
     report_if (MAX_AUTHOR_EDGES < length (edges g))
       (issue ''graph_too_many_edges'' ''author graph exceeds 300 edges'' None None) @
     report_if (MAX_AUTHOR_GRAPH_BYTES < length (canonical_author g))
       (issue ''graph_too_large'' ''author graph canonical JSON exceeds 2 MiB'' None None)"

definition duplicate_issues :: "AuthorGraph \<Rightarrow> ValidationIssue list" where
  "duplicate_issues g =
     map (\<lambda>i. issue ''duplicate_node_id'' (''duplicate node id: '' @ i) (Some i) None)
       (repeated (map node_id (nodes g))) @
     map (\<lambda>i. issue ''duplicate_edge_id'' (''duplicate edge id: '' @ i) None (Some i))
       (repeated (map edge_id (edges g)))"

definition graph_node_ids :: "AuthorGraph \<Rightarrow> string list" where
  \<comment> \<open>the keys of the dictionary \<open>nodes\<close>\<close>
  "graph_node_ids g = dedup (map node_id (nodes g))"

definition valid_edges :: "AuthorGraph \<Rightarrow> WorkflowEdge list" where
  "valid_edges g = filter (edge_known (graph_node_ids g)) (sort_key edge_id (edges g))"

definition if_node_issues :: "AuthorGraph \<Rightarrow> WorkflowNode \<Rightarrow> ValidationIssue list" where
  "if_node_issues g n =
     (case if_condition n of
        None \<Rightarrow> []
      | Some c \<Rightarrow>
          (if node_type n \<noteq> IF then []
           else validate_if_condition n c (graph_node_ids g) (valid_edges g)))"

definition cycle_issues :: "AuthorGraph \<Rightarrow> ValidationIssue list" where
  "cycle_issues g =
     report_if (length (graph_node_ids g) = length (nodes g) \<and>
         contains_cycle (graph_node_ids g) (map edge_pair (valid_edges g)))
       (issue ''graph_cycle'' ''Demo workflows must be acyclic'' None None)"

definition draft_errors :: "AuthorGraph \<Rightarrow> bool \<Rightarrow> ValidationIssue list" where
  "draft_errors g require_complete =
     size_issues g @ duplicate_issues g @
     concat (map validate_node (sort_key node_id (nodes g))) @
     concat (map (edge_issues (graph_node_ids g) (dict_by node_id (nodes g)))
       (sort_key edge_id (edges g))) @
     concat (map (if_node_issues g) (nodes g)) @
     validate_if_branches (nodes g) (valid_edges g) @
     cycle_issues g @
     (if require_complete
      then validate_complete_graph (nodes g) (valid_edges g) (graph_node_ids g) else [])"

definition draft_warnings :: "AuthorGraph \<Rightarrow> bool \<Rightarrow> ValidationIssue list" where
  "draft_warnings g require_complete =
     report_if (\<not> require_complete \<and> nodes g = [])
       (issue ''draft_empty'' ''draft has no nodes'' None None)"

definition validate_draft :: "AuthorGraph \<Rightarrow> bool \<Rightarrow> py_error + ValidationReport" where
  \<comment> \<open>\<open>DraftValidator.validate\<close>\<close>
  "validate_draft g require_complete =
     (let errors = draft_errors g require_complete; warnings = draft_warnings g require_complete in
      if list_all issue_constructible (errors @ warnings)
      then Inr \<lparr>report_errors = errors, report_warnings = warnings\<rparr>
      else Inl ValidationError)"

subsection \<open>What an accepted draft satisfies\<close>

lemma validate_draft_okD:
  assumes "validate_draft g c = Inr r" and "ok r"
  shows "draft_errors g c = []"
  using assms by (auto simp: validate_draft_def ok_def Let_def split: if_splits)

lemma count_list_distinct: "(\<forall>x \<in> set xs. count_list xs x \<le> 1) \<longleftrightarrow> distinct xs"
proof (induction xs)
  case (Cons x xs)
  have "count_list xs y \<le> 1" if "y \<noteq> x" "count_list (x # xs) y \<le> 1" for y using that by simp
  then show ?case using Cons by (auto simp: count_list_0_iff)
qed simp

lemma repeated_Nil: "repeated xs = [] \<longleftrightarrow> distinct xs"
  unfolding repeated_def filter_empty_conv using count_list_distinct [of xs] by auto

lemma ok_parts:
  assumes "draft_errors g True = []"
  shows "duplicate_issues g = []" and "\<forall>n \<in> set (nodes g). validate_node n = []"
    and "\<forall>e \<in> set (edges g). edge_issues (graph_node_ids g) (dict_by node_id (nodes g)) e = []"
    and "\<forall>n \<in> set (nodes g). if_node_issues g n = [] \<and> if_branch_issues n (valid_edges g) = []"
    and "cycle_issues g = []"
    and "validate_complete_graph (nodes g) (valid_edges g) (graph_node_ids g) = []"
    and "size_issues g = []"
  using assms
  by (simp_all add: draft_errors_def validate_if_branches_def concat_map_Nil del: concat_eq_Nil_conv)

lemma ok_distinct:
  assumes "draft_errors g True = []"
  shows "distinct (map node_id (nodes g))" and "distinct (map edge_id (edges g))"
    and "graph_node_ids g = map node_id (nodes g)"
proof -
  show d: "distinct (map node_id (nodes g))" "distinct (map edge_id (edges g))"
    using ok_parts(1) [OF assms] by (simp_all add: duplicate_issues_def repeated_Nil)
  show "graph_node_ids g = map node_id (nodes g)" by (simp add: graph_node_ids_def dedup_distinct d(1))
qed

lemma ok_edges:
  assumes "draft_errors g True = []" and "e \<in> set (edges g)"
  shows "from_node e \<in> node_id ` set (nodes g)" and "to_node e \<in> node_id ` set (nodes g)"
    and "from_node e \<noteq> to_node e" and "\<not> edge_system_managed e"
    and "\<exists>n \<in> set (nodes g). node_id n = from_node e \<and> condition e \<in> set (author_conditions (node_type n))"
proof -
  have e: "edge_issues (graph_node_ids g) (dict_by node_id (nodes g)) e = []"
    using ok_parts(3) [OF assms(1)] assms(2) by blast
  have k: "from_node e \<in> node_id ` set (nodes g)" "to_node e \<in> node_id ` set (nodes g)"
    using e by (auto simp: edge_issues_def ok_distinct(3) [OF assms(1)] split: if_splits)
  then show "from_node e \<in> node_id ` set (nodes g)" "to_node e \<in> node_id ` set (nodes g)" .
  show "from_node e \<noteq> to_node e" "\<not> edge_system_managed e"
    using e by (auto simp: edge_issues_def split: if_splits)
  obtain n where n: "dict_by node_id (nodes g) (from_node e) = Some n"
    using k(1) dict_by_None [of node_id "nodes g" "from_node e"] by (cases "dict_by node_id (nodes g) (from_node e)") auto
  then have "validate_edge_condition e n = []"
    using e k by (simp add: edge_issues_def edge_known_def ok_distinct(3) [OF assms(1)])
  then show "\<exists>n \<in> set (nodes g). node_id n = from_node e \<and> condition e \<in> set (author_conditions (node_type n))"
    using dict_by_SomeD [OF n] by (auto simp: validate_edge_condition_def split: if_splits)
qed

lemma ok_valid_edges:
  assumes "draft_errors g True = []"
  shows "valid_edges g = sort_key edge_id (edges g)"
  using ok_edges(1,2) [OF assms] unfolding valid_edges_def filter_id_conv
  by (auto simp: edge_known_def graph_node_ids_def)

abbreviation arcs_of :: "WorkflowEdge list \<Rightarrow> (string \<times> string) list" where
  "arcs_of es \<equiv> map edge_pair es"

lemma set_valid_arcs:
  assumes "draft_errors g True = []"
  shows "set (arcs_of (valid_edges g)) = set (arcs_of (edges g))"
  by (simp add: ok_valid_edges [OF assms])

lemma ok_arcs_closed:
  assumes "draft_errors g True = []"
  shows "set (arcs_of (valid_edges g)) \<subseteq> set (graph_node_ids g) \<times> set (graph_node_ids g)"
  unfolding set_valid_arcs [OF assms] ok_distinct(3) [OF assms]
  using ok_edges(1,2) [OF assms] by auto

lemma ok_acyclic:
  assumes "draft_errors g True = []"
  shows "acyclic (set (arcs_of (edges g)))"
proof -
  have "distinct (graph_node_ids g)" using ok_distinct [OF assms] by simp
  note iff = contains_cycle_iff [OF this ok_arcs_closed [OF assms]]
  have "\<not> contains_cycle (graph_node_ids g) (arcs_of (valid_edges g))"
    using ok_parts(5) [OF assms] ok_distinct(3) [OF assms] by (auto simp: cycle_issues_def)
  then show ?thesis unfolding iff set_valid_arcs [OF assms] by simp
qed

lemma degree_of_0: "degree_of key es i = 0 \<longleftrightarrow> (\<forall>e \<in> set es. key e \<noteq> i)"
  by (simp add: degree_of_def filter_empty_conv)

lemma ok_complete:
  assumes "draft_errors g True = []"
  obtains i out where
    "filter (\<lambda>n. node_type n = INPUT) (nodes g) = [i]"
    "filter (\<lambda>n. node_type n = OUTPUT) (nodes g) = [out]"
    "\<forall>n \<in> set (nodes g). (node_id i, node_id n) \<in> (set (arcs_of (edges g)))\<^sup>*"
    "\<forall>e \<in> set (edges g). to_node e \<noteq> node_id i \<and> from_node e \<noteq> node_id out"
    "\<forall>n \<in> set (nodes g). node_type n \<noteq> OUTPUT \<longrightarrow> (\<exists>e \<in> set (edges g). from_node e = node_id n)"
proof -
  let ?ins = "filter (\<lambda>n. node_type n = INPUT) (nodes g)"
  let ?outs = "filter (\<lambda>n. node_type n = OUTPUT) (nodes g)"
  note c = ok_parts(6) [OF assms, unfolded validate_complete_graph_def Let_def append_is_Nil_conv]
  have len: "length ?ins = 1" "length ?outs = 1" using c by (simp_all split: if_splits)
  then obtain i out where io: "?ins = [i]" "?outs = [out]"
    by (auto simp: length_Suc_conv)
  have ids: "graph_node_ids g = map node_id (nodes g)" by (rule ok_distinct(3) [OF assms])
  have "filter (\<lambda>j. j \<notin> reachable_from (node_id i) (arcs_of (valid_edges g))) (graph_node_ids g) = []"
    using c len by (simp add: io ids)
  then have "set (graph_node_ids g) \<subseteq> reachable_from (node_id i) (arcs_of (valid_edges g))"
    by (auto simp: filter_empty_conv)
  then have reach: "\<forall>n \<in> set (nodes g). (node_id i, node_id n) \<in> (set (arcs_of (edges g)))\<^sup>*"
    unfolding forward.search_covers set_valid_arcs [OF assms] ids by simp
  have es: "set (valid_edges g) = set (edges g)" by (simp add: ok_valid_edges [OF assms])
  have ends: "\<forall>e \<in> set (edges g). to_node e \<noteq> node_id i \<and> from_node e \<noteq> node_id out"
    using c len by (simp add: io degree_of_0 es split: if_splits)
  have dead: "\<forall>n \<in> set (nodes g). dead_end_issues (nodes g) (valid_edges g) n = []"
    using c unfolding concat_map_Nil by blast
  have "\<forall>n \<in> set (nodes g). node_type n \<noteq> OUTPUT \<longrightarrow> (\<exists>e \<in> set (edges g). from_node e = node_id n)"
    using dead by (auto simp: dead_end_issues_def degree_of_0 es split: if_splits)
  then show ?thesis using that io reach ends by blast
qed

lemma all_reach_sink:
  assumes "finite E" "acyclic E" "E \<subseteq> N \<times> N"
    and step: "\<And>v. v \<in> N \<Longrightarrow> v \<noteq> out \<Longrightarrow> \<exists>w. (v, w) \<in> E" and "v \<in> N"
  shows "(v, out) \<in> E\<^sup>*"
proof -
  have "wf (E\<inverse>)" by (rule finite_acyclic_wf_converse [OF assms(1,2)])
  then show ?thesis using \<open>v \<in> N\<close>
  proof (induction v rule: wf_induct_rule)
    case (less v)
    show ?case
    proof (cases "v = out")
      case False
      then obtain w where w: "(v, w) \<in> E" using step less.prems by blast
      then have "(w, out) \<in> E\<^sup>*" using less.IH assms(3) by blast
      then show ?thesis using w by (rule converse_rtrancl_into_rtrancl [rotated])
    qed simp
  qed
qed

lemma ok_reaches_output:
  assumes "draft_errors g True = []" and "filter (\<lambda>n. node_type n = OUTPUT) (nodes g) = [out]"
    and "n \<in> set (nodes g)"
  shows "(node_id n, node_id out) \<in> (set (arcs_of (edges g)))\<^sup>*"
proof (rule all_reach_sink)
  show "set (arcs_of (edges g)) \<subseteq> node_id ` set (nodes g) \<times> node_id ` set (nodes g)"
    using ok_edges(1,2) [OF assms(1)] by auto
  show "\<exists>w. (v, w) \<in> set (arcs_of (edges g))"
    if v: "v \<in> node_id ` set (nodes g)" "v \<noteq> node_id out" for v
  proof -
    obtain m where m: "m \<in> set (nodes g)" "v = node_id m" using v(1) by blast
    have "node_type m \<noteq> OUTPUT"
    proof
      assume "node_type m = OUTPUT"
      then have "m \<in> set (filter (\<lambda>n. node_type n = OUTPUT) (nodes g))" using m by simp
      then show False using m(2) v(2) by (simp add: assms(2))
    qed
    moreover obtain i out' where "\<forall>n \<in> set (nodes g). node_type n \<noteq> OUTPUT \<longrightarrow>
        (\<exists>e \<in> set (edges g). from_node e = node_id n)"
      by (rule ok_complete [OF assms(1)]) blast
    ultimately obtain e where "e \<in> set (edges g)" "from_node e = v" using m by blast
    then show ?thesis by force
  qed
qed (use ok_acyclic [OF assms(1)] assms(3) in auto)

lemma validate_node_Nil:
  assumes "validate_node n = []"
  shows "node_type n \<in> set AUTHOR_NODE_TYPES" and "\<not> system_managed n"
    and "list_all (\<lambda>f. \<not> snd f) (compiler_only_fields n)"
    and "node_type n = AGENT_TASK \<Longrightarrow> agent_task_issues n = []"
    and "node_type n \<noteq> AGENT_TASK \<Longrightarrow> non_agent_issues n = []"
    and "node_type n = IF \<longleftrightarrow> if_condition n \<noteq> None"
  using assms unfolding validate_node_def
  by (auto simp: list_all_iff split: if_splits)

lemma validate_if_conditionD:
  assumes "validate_if_condition n c ids es = []"
  shows "upstream_node_id c \<in> set ids" and "upstream_node_id c \<in> transitive_preds (node_id n) (arcs_of es)"
    and "upstream_node_id c \<in> dominators ids (arcs_of es) (node_id n)"
    and "operand_issues n c = []"
  using assms by (auto simp: validate_if_condition_def Let_def split: if_splits)

lemma source_path_set:
  "source_path es v xs \<Longrightarrow> set es = set es' \<Longrightarrow> source_path es' v xs"
  by (induction rule: source_path.induct)
    (auto intro: source_path.intros simp: preds_Nil_iff)

lemma on_every_path_set: "set es = set es' \<Longrightarrow> on_every_path es u v = on_every_path es' u v"
  unfolding on_every_path_def using source_path_set [of es v _ es'] source_path_set [of es' v _ es] by metis

lemma ok_if_node:
  assumes ok: "draft_errors g True = []" and n: "n \<in> set (nodes g)" "node_type n = IF"
  shows "\<exists>c. if_condition n = Some c \<and> operand_issues n c = [] \<and>
    (upstream_node_id c, node_id n) \<in> (set (arcs_of (edges g)))\<^sup>+ \<and>
    on_every_path (arcs_of (edges g)) (upstream_node_id c) (node_id n)"
proof -
  have "validate_node n = []" "if_node_issues g n = []"
    using ok_parts(2,4) [OF ok] n(1) by blast+
  then obtain c where c: "if_condition n = Some c"
    and v: "validate_if_condition n c (graph_node_ids g) (valid_edges g) = []"
    using validate_node_Nil(6) n(2) by (auto simp: if_node_issues_def)
  note D = validate_if_conditionD [OF v]
  have vs: "distinct (graph_node_ids g)" "node_id n \<in> set (graph_node_ids g)"
    using ok_distinct [OF ok] n(1) by auto
  have ac: "acyclic (set (arcs_of (valid_edges g)))"
    unfolding set_valid_arcs [OF ok] by (rule ok_acyclic [OF ok])
  have "on_every_path (arcs_of (valid_edges g)) (upstream_node_id c) (node_id n)"
    using D(3) unfolding dominators_exact [OF vs(1) ok_arcs_closed [OF ok] ac vs(2)] .
  then show ?thesis
    using c D(2,4) set_valid_arcs [OF ok]
      on_every_path_set [OF set_valid_arcs [OF ok]] by (simp add: transitive_preds_exact)
qed

lemma length_repr:
  assumes "\<forall>c \<in> set p. char_code c < 32 \<and> c \<noteq> CHR 0x09 \<and> c \<noteq> CHR 0x0A \<and> c \<noteq> CHR 0x0D"
  shows "length (py_repr p) = 4 * length p + 2"
proof -
  have each: "length (repr_char CHR 0x27 c) = 4"
    if "char_code c < 32" "c \<noteq> CHR 0x09" "c \<noteq> CHR 0x0A" "c \<noteq> CHR 0x0D" for c
  proof -
    have "c \<noteq> CHR 0x27" "c \<noteq> CHR 0x5C" using that(1) by auto
    then show ?thesis
      unfolding repr_char.simps control_char_def using that
      by (simp only: simp_thms if_False if_True list.size)
  qed
  have "\<not> char_code (CHR 0x27) < 32" by simp
  then have "CHR 0x27 \<notin> set p" using assms by blast
  moreover have "length (concat (map (repr_char CHR 0x27) p)) = 4 * length p"
    using assms
  proof (induction p)
    case (Cons c p)
    then show ?case using each [of c] by simp
  qed simp
  ultimately show ?thesis by (simp add: py_repr_def Let_def)
qed

lemma long_path_issue:
  assumes "n \<in> set (nodes g)" "node_type n = AGENT_TASK" "p \<in> set (allowed_files_candidate n)"
    and "500 \<le> length p"
    and c: "\<forall>c \<in> set p. char_code c < 32 \<and> c \<noteq> CHR 0x09 \<and> c \<noteq> CHR 0x0A \<and> c \<noteq> CHR 0x0D"
  shows "\<exists>i \<in> set (draft_errors g b). 2000 < length (issue_message i)"
proof -
  let ?m = "''invalid '' @ ''allowed_files_candidate'' @ '' path '' @ py_repr p @ '': '' @
      ''control characters are forbidden''"
  let ?i = "node_issue ''invalid_candidate_path'' ?m n"
  have "hd p \<in> set p" using \<open>500 \<le> length p\<close> by (cases p) auto
  then have "list_ex (\<lambda>c. char_code c < 32) p" using c by (auto simp: list_ex_iff)
  then have "invalid_repo_path_reason p = Some ''control characters are forbidden''"
    by (simp only: invalid_repo_path_reason_def if_True)
  then have "?i \<in> set (candidate_list_issues n ''allowed_files_candidate'' (allowed_files_candidate n))"
    unfolding candidate_list_issues_def using assms(3) by force
  then have "?i \<in> set (validate_node n)"
    unfolding validate_node_def agent_task_issues_def validate_candidate_paths_def
    using assms(2) by simp
  then have "?i \<in> set (concat (map validate_node (sort_key node_id (nodes g))))"
    using assms(1) by auto
  then have "?i \<in> set (draft_errors g b)"
    unfolding draft_errors_def set_append by blast
  moreover have "2000 < length (issue_message ?i)"
    using length_repr [OF c] assms(4) by (simp add: issue_def)
  ultimately show ?thesis by blast
qed

subsection \<open>Properties\<close>

text \<open>
  C4: an author graph that \<open>DraftValidator\<close> accepts as complete is a single-source,
  single-sink dag: node and edge ids are unique, every edge joins two different nodes of the
  graph, there is no cycle, and every node lies on a path from the one input, which nothing
  enters, to the one output, which nothing leaves.
\<close>

theorem accepted_draft_is_input_output_dag:
  assumes "validate_draft g True = Inr r" and "ok r"
  shows "distinct (map node_id (nodes g)) \<and> distinct (map edge_id (edges g)) \<and>
    (\<forall>e \<in> set (edges g). from_node e \<in> node_id ` set (nodes g) \<and>
       to_node e \<in> node_id ` set (nodes g) \<and> from_node e \<noteq> to_node e) \<and>
    acyclic (set (arcs_of (edges g))) \<and>
    (\<exists>i out. filter (\<lambda>n. node_type n = INPUT) (nodes g) = [i] \<and>
       filter (\<lambda>n. node_type n = OUTPUT) (nodes g) = [out] \<and>
       (\<forall>e \<in> set (edges g). to_node e \<noteq> node_id i \<and> from_node e \<noteq> node_id out) \<and>
       (\<forall>n \<in> set (nodes g).
          (node_id i, node_id n) \<in> (set (arcs_of (edges g)))\<^sup>* \<and>
          (node_id n, node_id out) \<in> (set (arcs_of (edges g)))\<^sup>*))"
proof -
  note ok = validate_draft_okD [OF assms]
  obtain i out where io: "filter (\<lambda>n. node_type n = INPUT) (nodes g) = [i]"
      "filter (\<lambda>n. node_type n = OUTPUT) (nodes g) = [out]"
    and reach: "\<forall>n \<in> set (nodes g). (node_id i, node_id n) \<in> (set (arcs_of (edges g)))\<^sup>*"
    and ends: "\<forall>e \<in> set (edges g). to_node e \<noteq> node_id i \<and> from_node e \<noteq> node_id out"
    by (rule ok_complete [OF ok]) blast
  show ?thesis
    using ok_distinct(1,2) [OF ok] ok_edges(1,2,3) [OF ok] ok_acyclic [OF ok]
      io reach ends ok_reaches_output [OF ok io(2)] by blast
qed

text \<open>
  An accepted draft cannot smuggle in a permission: no node has a compiler-only type or
  field, none is marked system-managed, only agent tasks carry candidate scopes or write, and
  no edge is system-managed or has a condition its source cannot emit, approval outcomes
  included.
\<close>

theorem accepted_draft_grants_nothing:
  assumes "validate_draft g c = Inr r" and "ok r" and "c"
  shows "(\<forall>n \<in> set (nodes g). node_type n \<in> set AUTHOR_NODE_TYPES \<and> \<not> system_managed n \<and>
      list_all (\<lambda>f. \<not> snd f) (compiler_only_fields n) \<and>
      (node_type n = AGENT_TASK \<longrightarrow> task_kind n \<noteq> None \<and> instruction n \<noteq> None) \<and>
      (node_type n \<noteq> AGENT_TASK \<longrightarrow> \<not> requires_write n \<and> allowed_files_candidate n = [] \<and>
         new_files_candidate n = [] \<and> allowed_commands_candidate n = [] \<and>
         assigned_agent n = None)) \<and>
    (\<forall>e \<in> set (edges g). \<not> edge_system_managed e \<and> condition e \<noteq> APPROVED \<and> condition e \<noteq> REJECTED)"
proof -
  have ok: "draft_errors g True = []" using validate_draft_okD [OF assms(1,2)] assms(3) by simp
  have "task_kind n \<noteq> None \<and> instruction n \<noteq> None" if "agent_task_issues n = []" for n
    using that by (simp add: agent_task_issues_def split: if_splits)
  moreover have "\<not> requires_write n \<and> allowed_files_candidate n = [] \<and> new_files_candidate n = [] \<and>
      allowed_commands_candidate n = [] \<and> assigned_agent n = None" if "non_agent_issues n = []" for n
    using that by (simp add: non_agent_issues_def split: if_splits)
  moreover have "condition e \<noteq> APPROVED \<and> condition e \<noteq> REJECTED" if "e \<in> set (edges g)" for e
    using ok_edges(5) [OF ok that] by (auto simp: author_conditions_def split: if_splits)
  ultimately show ?thesis
    using ok_parts(2) [OF ok] validate_node_Nil(1-5) ok_edges(4) [OF ok] by blast
qed

text \<open>
  C3: in an accepted draft every \<open>if\<close> node has its condition, exactly one matched and one
  not-matched branch, and reads a node that is a strict ancestor of it and lies on every path
  from a source to it, so the value it tests has been produced whichever way it is reached.
\<close>

theorem accepted_conditions_are_dominated:
  assumes "validate_draft g True = Inr r" and "ok r" and "n \<in> set (nodes g)" and "node_type n = IF"
  shows "\<exists>c. if_condition n = Some c \<and>
    (upstream_node_id c, node_id n) \<in> (set (arcs_of (edges g)))\<^sup>+ \<and>
    on_every_path (arcs_of (edges g)) (upstream_node_id c) (node_id n) \<and>
    condition_count n MATCHED (edges g) = 1 \<and> condition_count n NOT_MATCHED (edges g) = 1 \<and>
    condition_count n FAILURE (edges g) \<le> 1"
proof -
  note ok = validate_draft_okD [OF assms(1,2)]
  have "if_branch_issues n (valid_edges g) = []" using ok_parts(4) [OF ok] assms(3) by blast
  moreover have "condition_count n c (valid_edges g) = condition_count n c (edges g)" for c
    unfolding ok_valid_edges [OF ok] condition_count_def
    by (simp add: filter_sort)
  ultimately have "condition_count n MATCHED (edges g) = 1 \<and> condition_count n NOT_MATCHED (edges g) = 1 \<and>
      condition_count n FAILURE (edges g) \<le> 1"
    using assms(4) by (simp add: if_branch_issues_def split: if_splits)
  then show ?thesis using ok_if_node [OF ok assms(3,4)] by blast
qed

text \<open>
  The report itself can fail: a draft within every limit of its model, with one candidate
  path of at least 500 control characters, is not answered with a report, because the message
  that quotes the path exceeds the 2000 characters an issue may hold; the validation raises
  pydantic's \<open>ValidationError\<close>.
\<close>

theorem long_control_path_escapes_the_report:
  assumes "n \<in> set (nodes g)" "node_type n = AGENT_TASK" "p \<in> set (allowed_files_candidate n)"
    and "500 \<le> length p"
    and "\<forall>c \<in> set p. char_code c < 32 \<and> c \<noteq> CHR 0x09 \<and> c \<noteq> CHR 0x0A \<and> c \<noteq> CHR 0x0D"
  shows "validate_draft g complete = Inl ValidationError"
proof -
  obtain i where "i \<in> set (draft_errors g complete)" "2000 < length (issue_message i)"
    using long_path_issue [OF assms] by blast
  moreover from this have "\<not> issue_constructible i" by (simp add: issue_constructible_def)
  ultimately have "\<not> list_all issue_constructible (draft_errors g complete @ draft_warnings g complete)"
    unfolding list_all_iff by auto
  then show ?thesis unfolding validate_draft_def Let_def by (simp only: if_False)
qed

subsection \<open>Instances\<close>

definition sample_edge :: "string \<Rightarrow> string \<Rightarrow> string \<Rightarrow> EdgeCondition \<Rightarrow> WorkflowEdge" where
  "sample_edge i a b c =
     \<lparr>edge_id = i, from_node = a, to_node = b, condition = c, edge_system_managed = False\<rparr>"

definition sample_if :: WorkflowNode where
  "sample_if = (new_node ''f'' IF ''if'')\<lparr>if_condition := Some
     \<lparr>upstream_node_id = ''i'', if_field = ''tests_passed'', operator = IS_TRUE, if_value = None\<rparr>\<rparr>"

definition sample_graph :: AuthorGraph where
  "sample_graph = \<lparr>schema_version = ''1'',
     nodes = [new_node ''i'' INPUT ''in'', sample_if, new_node ''o'' OUTPUT ''out''],
     edges = [sample_edge ''e1'' ''i'' ''f'' SUCCESS, sample_edge ''e2'' ''f'' ''o'' MATCHED,
              sample_edge ''e3'' ''f'' ''o'' NOT_MATCHED]\<rparr>"

fun text_bound :: "json \<Rightarrow> nat" where
  \<comment> \<open>no text of the value is longer, whatever the order of its keys\<close>
  "text_bound JNull = 4"
| "text_bound (JBool b) = 5"
| "text_bound (JInt i) = length (int_str i)"
| "text_bound (JStr s) = 6 * length s + 2"
| "text_bound (JArr js) = 2 + sum_list (map (\<lambda>j. 1 + text_bound j) js)"
| "text_bound (JObj kvs) = 2 + sum_list (map (\<lambda>kv. 6 * length (fst kv) + 4 + text_bound (snd kv)) kvs)"

lemma quoted_length: "length (quoted s) \<le> 6 * length s + 2"
proof -
  have "length (escape_char c) \<le> 6" for c by (simp add: escape_char_def)
  then have "length (concat (map escape_char s)) \<le> 6 * length s"
    by (induction s) (simp_all add: add_le_mono)
  then show ?thesis by (simp add: quoted_def)
qed

lemma members_length: "length (members ss) = sum_list (map (\<lambda>s. 1 + length s) ss)"
  by (induction ss) auto

lemma sequence_length: "length (sequence ss) \<le> sum_list (map (\<lambda>s. 1 + length s) ss)"
  by (cases ss) (simp_all add: members_length)

lemma sum_list_map_sort: "sum_list (map f (sort_key k xs)) = (sum_list (map f xs) :: nat)"
proof -
  have "mset (map f (sort_key k xs)) = mset (map f xs)" by (simp only: mset_map mset_sort)
  then show ?thesis by (metis sum_mset_sum_list)
qed

lemma render_length: "length (render j) \<le> text_bound j"
proof (induction j rule: render.induct)
  case (5 js)
  have "sum_list (map (\<lambda>s. 1 + length s) (map render js)) \<le> sum_list (map (\<lambda>j. 1 + text_bound j) js)"
    unfolding map_map comp_def using 5 by (intro sum_list_mono) simp
  then show ?case using sequence_length [of "map render js"] by simp
next
  case (6 kvs)
  let ?r = "\<lambda>kv. quoted (fst kv) @ CHR '':'' # render (snd kv)"
  have "1 + length (?r kv) \<le> 6 * length (fst kv) + 4 + text_bound (snd kv)" if "kv \<in> set kvs" for kv
    using quoted_length [of "fst kv"] 6 [OF that] by simp
  then have "sum_list (map (\<lambda>s. 1 + length s) (map ?r kvs)) \<le>
      sum_list (map (\<lambda>kv. 6 * length (fst kv) + 4 + text_bound (snd kv)) kvs)"
    unfolding map_map comp_def by (intro sum_list_mono)
  then show ?case using sequence_length [of "map ?r kvs"] by simp
qed (use quoted_length in simp_all)

lemma sorted_bound: "text_bound (sort_keys j) = text_bound j"
proof (induction j rule: sort_keys.induct)
  case (1 js)
  then have "map (\<lambda>j. 1 + text_bound j) (map sort_keys js) = map (\<lambda>j. 1 + text_bound j) js" by simp
  then show ?case by (simp only: sort_keys.simps text_bound.simps)
next
  case (2 kvs)
  have "map (\<lambda>kv. 6 * length (fst kv) + 4 + text_bound (snd kv)) (map (\<lambda>kv. (fst kv, sort_keys (snd kv))) kvs) =
      map (\<lambda>kv. 6 * length (fst kv) + 4 + text_bound (snd kv)) kvs"
    using 2 by auto
  then show ?case by (simp only: sort_keys.simps text_bound.simps sum_list_map_sort)
qed simp_all

lemma dumps_length: "length (dumps j) \<le> text_bound j"
  unfolding dumps_def by (metis render_length sorted_bound)

lemmas author_text = author_json_def node_json_def edge_json_def condition_json_def new_node_def
  sample_edge_def sample_if_def sample_graph_def

lemma small_draft: "text_bound (author_json g) \<le> 100000 \<Longrightarrow> length (nodes g) \<le> 3 \<Longrightarrow> length (edges g) \<le> 3 \<Longrightarrow>
  size_issues g = []"
  using dumps_length [of "author_json g"]
  by (simp add: size_issues_def canonical_author_def MAX_AUTHOR_GRAPH_BYTES_def MAX_AUTHOR_NODES_def MAX_AUTHOR_EDGES_def)

lemma silent_draft_accepted:
  assumes "size_issues g = []" and "duplicate_issues g = []"
    and "concat (map validate_node (sort_key node_id (nodes g))) = []"
    and "concat (map (edge_issues (graph_node_ids g) (dict_by node_id (nodes g))) (sort_key edge_id (edges g))) = []"
    and "concat (map (if_node_issues g) (nodes g)) = []"
    and "validate_if_branches (nodes g) (valid_edges g) = []" and "cycle_issues g = []"
    and "validate_complete_graph (nodes g) (valid_edges g) (graph_node_ids g) = []"
  shows "validate_draft g True = Inr \<lparr>report_errors = [], report_warnings = []\<rparr>"
  using assms by (simp add: validate_draft_def draft_errors_def draft_warnings_def del: concat_eq_Nil_conv)

lemma sample_accepted:
  "validate_draft sample_graph True = Inr \<lparr>report_errors = [], report_warnings = []\<rparr>"
proof (rule silent_draft_accepted)
  show "size_issues sample_graph = []" by (rule small_draft) (simp_all add: author_text)
qed code_simp+

lemma accepted_draft_is_input_output_dag_witness:
  "acyclic (set (arcs_of (edges sample_graph))) \<and>
   (\<exists>out. filter (\<lambda>n. node_type n = OUTPUT) (nodes sample_graph) = [out])"
  using accepted_draft_is_input_output_dag [OF sample_accepted] by (auto simp: ok_def)

lemma accepted_draft_grants_nothing_witness:
  "list_all (\<lambda>e. condition e \<noteq> APPROVED) (edges sample_graph)"
  using accepted_draft_grants_nothing [OF sample_accepted] by (simp add: ok_def list_all_iff)

lemma accepted_conditions_are_dominated_witness:
  "on_every_path (arcs_of (edges sample_graph)) ''i'' ''f''"
proof -
  have "sample_if \<in> set (nodes sample_graph)" "node_type sample_if = IF" "node_id sample_if = ''f''"
    "if_condition sample_if = Some \<lparr>upstream_node_id = ''i'', if_field = ''tests_passed'',
       operator = IS_TRUE, if_value = None\<rparr>"
    by (simp_all add: sample_graph_def sample_if_def new_node_def)
  then show ?thesis
    using accepted_conditions_are_dominated [OF sample_accepted, of sample_if] by (auto simp: ok_def)
qed

definition sample_long_path :: WorkflowNode where
  "sample_long_path =
     (new_node ''t'' AGENT_TASK ''t'')\<lparr>allowed_files_candidate := [replicate 500 (CHR 0x01)]\<rparr>"

lemma long_control_path_escapes_the_report_witness:
  "validate_draft \<lparr>schema_version = ''1'', nodes = [sample_long_path], edges = []\<rparr> False =
     Inl ValidationError"
  by (rule long_control_path_escapes_the_report [of sample_long_path _ "replicate 500 (CHR 0x01)"])
    (simp_all add: sample_long_path_def new_node_def)

end
