(* ===== verification/Node_Handlers.thy ===== *)
theory Node_Handlers
  imports Run_Repository Draft_Validation
begin

text \<open>
  The execution boundary of a node (\<open>workflow/handlers/base.py\<close>) and the handlers without side
  effects (\<open>workflow/handlers/deterministic.py\<close>, the end of \<open>approval.py\<close>). A handler is a
  function of its context; building its result may fail, as the constructor of
  \<open>NodeHandlerResult\<close> does. What an accepted draft promises about the conditions it contains is
  proved here against the handler that evaluates them.
\<close>

subsection \<open>Results and contexts\<close>

record ArtifactRef =
  ref_artifact_id :: string
  ref_artifact_type :: string
  ref_relative_path :: string
  ref_sha256 :: string
  ref_size_bytes :: nat

record NodeHandlerResult =
  hr_status :: NodeRunStatus
  hr_outcome :: NodeOutcome
  hr_summary :: string
  artifact_refs :: "ArtifactRef list"
  hr_error_code :: "string option"

definition validate_terminal_shape :: "NodeHandlerResult \<Rightarrow> bool" where
  \<comment> \<open>the validator, whose table is that of \<open>complete_node\<close>, and the bounds of the fields\<close>
  "validate_terminal_shape r \<longleftrightarrow>
     hr_outcome r \<in> set (allowed_outcomes (hr_status r)) \<and>
     (hr_status r \<in> {NodeRunStatus.FAILED, NodeRunStatus.BLOCKED_BY_GUARD} \<longrightarrow> opt_list (hr_error_code r) \<noteq> []) \<and>
     length (hr_summary r) \<le> 8000 \<and> length (artifact_refs r) \<le> 500 \<and>
     length (opt_list (hr_error_code r)) \<le> 200"

definition make_result ::
  "NodeRunStatus \<Rightarrow> NodeOutcome \<Rightarrow> string \<Rightarrow> string option \<Rightarrow> py_error + NodeHandlerResult" where
  "make_result s oc summary error =
     (let r = \<lparr>hr_status = s, hr_outcome = oc, hr_summary = summary, artifact_refs = [], hr_error_code = error\<rparr>
      in if validate_terminal_shape r then Inr r else Inl ValidationError)"

record NodeExecutionContext =
  ctx_run :: WorkflowRun
  ctx_node_run :: NodeRun
  ctx_node :: WorkflowNode
  predecessors :: "NodeRun list"
  active_predecessors :: "NodeRun list"
  condition_upstream :: "NodeRun option"

subsection \<open>The deterministic handlers\<close>

definition input_handler :: "NodeExecutionContext \<Rightarrow> py_error + NodeHandlerResult" where
  "input_handler ctx = make_result NodeRunStatus.COMPLETED NodeOutcome.SUCCESS
     (''Accepted session goal for '' @ workflow_run_id (ctx_run ctx) @ ''.'') None"

definition context_builder_handler :: "NodeExecutionContext \<Rightarrow> py_error + NodeHandlerResult" where
  "context_builder_handler ctx = make_result NodeRunStatus.COMPLETED NodeOutcome.SUCCESS
     (''Prepared bounded context for node '' @ node_id (ctx_node ctx) @ ''.'') None"

definition failed :: "string \<Rightarrow> string \<Rightarrow> py_error + NodeHandlerResult" where
  "failed code summary = make_result NodeRunStatus.FAILED NodeOutcome.FAILURE summary (Some code)"

datatype actual = AStr string | ABool bool | ANone

fun same_value :: "actual \<Rightarrow> if_value option \<Rightarrow> bool" where
  \<comment> \<open>\<open>actual == expected\<close>\<close>
  "same_value (AStr s) (Some (IfStr t)) \<longleftrightarrow> s = t"
| "same_value (ABool a) (Some (IfBool b)) \<longleftrightarrow> a = b"
| "same_value ANone None \<longleftrightarrow> True"
| "same_value _ _ \<longleftrightarrow> False"

fun evaluate :: "actual \<Rightarrow> IfOperator \<Rightarrow> if_value option \<Rightarrow> py_error + bool" where
  "evaluate a EQ v = Inr (same_value a v)"
| "evaluate a NE v = Inr (\<not> same_value a v)"
| "evaluate a IN v =
     (case v of Some (IfList xs) \<Rightarrow> Inr (case a of AStr s \<Rightarrow> s \<in> set xs | _ \<Rightarrow> False) | _ \<Rightarrow> Inl TypeError)"
| "evaluate a IS_TRUE v = (case a of ABool b \<Rightarrow> Inr b | _ \<Rightarrow> Inl TypeError)"
| "evaluate a IS_FALSE v = (case a of ABool b \<Rightarrow> Inr (\<not> b) | _ \<Rightarrow> Inl TypeError)"

definition actual_value ::
  "NodeExecutionContext \<Rightarrow> IfCondition \<Rightarrow> NodeRun \<Rightarrow> string + actual" where
  \<comment> \<open>the value of the condition's field, or the summary of the failure\<close>
  "actual_value ctx c upstream =
     (if if_field c = ''status'' then Inr (AStr (NodeRunStatus_value (nr_status upstream)))
      else if if_field c = ''outcome''
      then Inr (case nr_outcome upstream of Some oc \<Rightarrow> AStr (NodeOutcome_value oc) | None \<Rightarrow> ANone)
      else if if_field c = ''effective_risk''
      then (case find (\<lambda>n. node_id n = upstream_node_id c) (compiled_nodes (compiled_snapshot (ctx_run ctx))) of
              None \<Rightarrow> Inl ''The referenced node has no frozen effective risk.''
            | Some n \<Rightarrow>
                (case policy_risk_floor n of
                   None \<Rightarrow> Inl ''The referenced node has no frozen effective risk.''
                 | Some r \<Rightarrow> Inr (AStr (RiskLevel_value r))))
      else if if_field c = ''tests_passed''
      then (if nr_node_type upstream \<noteq> TEST then Inl ''tests_passed is only available for a test node.''
            else Inr (ABool (nr_status upstream = NodeRunStatus.COMPLETED \<and>
              nr_outcome upstream = Some NodeOutcome.SUCCESS)))
      else Inl (''If field '' @ if_field c @ '' is not available in HUB-110.''))"

definition if_handler :: "NodeExecutionContext \<Rightarrow> py_error + NodeHandlerResult" where
  "if_handler ctx =
     (case if_condition (ctx_node ctx) of
        None \<Rightarrow> failed ''if_condition_missing'' ''If node has no structured condition.''
      | Some c \<Rightarrow>
          (case condition_upstream ctx of
             None \<Rightarrow> failed ''if_upstream_missing'' ''If condition upstream result is unavailable.''
           | Some upstream \<Rightarrow>
               (case actual_value ctx c upstream of
                  Inl summary \<Rightarrow> failed ''if_field_unavailable'' summary
                | Inr a \<Rightarrow>
                    (case evaluate a (operator c) (if_value c) of
                       Inl _ \<Rightarrow> failed ''if_evaluation_failed'' ''Structured condition could not be evaluated.''
                     | Inr matched \<Rightarrow>
                         (let oc = (if matched then NodeOutcome.MATCHED else NodeOutcome.NOT_MATCHED) in
                          make_result NodeRunStatus.COMPLETED oc
                            (''Condition evaluated to '' @ NodeOutcome_value oc @ ''.'') None)))))"

definition output_handler :: "NodeExecutionContext \<Rightarrow> py_error + NodeHandlerResult" where
  "output_handler ctx =
     (let outcomes = map nr_outcome (active_predecessors ctx) in
      if Some NodeOutcome.BLOCKED \<in> set outcomes
      then make_result NodeRunStatus.BLOCKED_BY_GUARD NodeOutcome.BLOCKED
             ''Workflow reached output through a blocked branch.'' (Some ''upstream_blocked'')
      else if Some NodeOutcome.FAILURE \<in> set outcomes
      then failed ''upstream_failed'' ''Workflow reached output through a failure branch.''
      else if Some NodeOutcome.REJECTED \<in> set outcomes
      then make_result NodeRunStatus.COMPLETED NodeOutcome.REJECTED
             ''Workflow ended after explicit rejection; no change was merged.'' None
      else make_result NodeRunStatus.COMPLETED NodeOutcome.SUCCESS
             ''Workflow completed successfully with no repository side effects.'' None)"

definition unavailable_handler :: "NodeExecutionContext \<Rightarrow> py_error + NodeHandlerResult" where
  "unavailable_handler ctx = make_result NodeRunStatus.BLOCKED_BY_GUARD NodeOutcome.BLOCKED
     (NodeType_value (node_type (ctx_node ctx)) @ '' requires the HUB-200/210 runtime.'')
     (Some ''write_runtime_unavailable'')"

definition approval_result :: "string \<Rightarrow> py_error + NodeHandlerResult" where
  \<comment> \<open>\<open>ApprovalNodeHandler.execute\<close> once the manager has returned a record with this status\<close>
  "approval_result status =
     (if status = ''approved''
      then make_result NodeRunStatus.COMPLETED NodeOutcome.APPROVED ''ChangeSet approval was confirmed.'' None
      else if status = ''rejected''
      then make_result NodeRunStatus.COMPLETED NodeOutcome.REJECTED ''ChangeSet approval was rejected.'' None
      else make_result NodeRunStatus.BLOCKED_BY_GUARD NodeOutcome.BLOCKED
             (''ChangeSet approval is '' @ status @ ''.'') (Some (''approval_'' @ status)))"

subsection \<open>Lemmas\<close>

lemma make_result_Inr:
  "make_result s oc summary error = Inr r \<longleftrightarrow>
     r = \<lparr>hr_status = s, hr_outcome = oc, hr_summary = summary, artifact_refs = [], hr_error_code = error\<rparr> \<and>
     validate_terminal_shape r"
  by (auto simp: make_result_def Let_def)

lemma make_result_ok:
  assumes "oc \<in> set (allowed_outcomes s)" "length summary \<le> 8000"
    and "s \<in> {NodeRunStatus.FAILED, NodeRunStatus.BLOCKED_BY_GUARD} \<longrightarrow> opt_list error \<noteq> []"
    and "length (opt_list error) \<le> 200"
  shows "make_result s oc summary error =
    Inr \<lparr>hr_status = s, hr_outcome = oc, hr_summary = summary, artifact_refs = [], hr_error_code = error\<rparr>"
  using assms by (simp add: make_result_def validate_terminal_shape_def Let_def)

lemma outcome_value_short: "length (NodeOutcome_value oc) \<le> 11"
  by (cases oc) simp_all

lemma type_value_short: "length (NodeType_value t) \<le> 20"
  by (cases t) simp_all

lemma failed_ok:
  assumes "length summary \<le> 8000" "code \<noteq> []" "length code \<le> 200"
  shows "failed code summary = Inr \<lparr>hr_status = NodeRunStatus.FAILED, hr_outcome = NodeOutcome.FAILURE,
    hr_summary = summary, artifact_refs = [], hr_error_code = Some code\<rparr>"
  unfolding failed_def using assms by (intro make_result_ok) auto

definition if_fields :: "string list" where
  \<comment> \<open>the pattern of the model's field\<close>
  "if_fields = [''status'', ''outcome'', ''effective_risk'', ''tests_passed'']"

lemma decided_ok:
  "make_result NodeRunStatus.COMPLETED NodeOutcome.MATCHED ''Condition evaluated to matched.'' None =
     Inr \<lparr>hr_status = NodeRunStatus.COMPLETED, hr_outcome = NodeOutcome.MATCHED,
       hr_summary = ''Condition evaluated to matched.'', artifact_refs = [], hr_error_code = None\<rparr>"
  "make_result NodeRunStatus.COMPLETED NodeOutcome.NOT_MATCHED ''Condition evaluated to not_matched.'' None =
     Inr \<lparr>hr_status = NodeRunStatus.COMPLETED, hr_outcome = NodeOutcome.NOT_MATCHED,
       hr_summary = ''Condition evaluated to not_matched.'', artifact_refs = [], hr_error_code = None\<rparr>"
  by (simp_all add: make_result_def validate_terminal_shape_def)

lemma actual_value_summary:
  "actual_value ctx c u = Inl s \<Longrightarrow> if_field c \<in> set if_fields \<Longrightarrow> length s \<le> 200"
  by (auto simp: actual_value_def if_fields_def split: if_splits option.splits)

lemma if_handler_total:
  assumes "\<And>c. if_condition (ctx_node ctx) = Some c \<Longrightarrow> if_field c \<in> set if_fields"
  shows "\<exists>r. if_handler ctx = Inr r"
proof (cases "if_condition (ctx_node ctx)")
  case (Some c)
  show ?thesis
  proof (cases "condition_upstream ctx")
    case None
    then show ?thesis using Some by (simp add: if_handler_def failed_ok)
  next
    case u: (Some u)
    show ?thesis
    proof (cases "actual_value ctx c u")
      case (Inl s)
      then have "length s \<le> 200" using actual_value_summary assms Some by blast
      then show ?thesis using Some u Inl by (simp add: if_handler_def failed_ok)
    next
      case (Inr a)
      then show ?thesis
        using Some u by (cases "evaluate a (operator c) (if_value c)")
          (simp_all add: if_handler_def failed_ok decided_ok Let_def)
    qed
  qed
qed (simp add: if_handler_def failed_ok)

lemma made_result: "make_result s oc summary error = Inr r \<Longrightarrow> validate_terminal_shape r"
  using make_result_Inr by blast

lemma made_failed: "failed code summary = Inr r \<Longrightarrow> validate_terminal_shape r"
  unfolding failed_def by (rule made_result)

lemma made_shape:
  assumes "h \<in> {input_handler, context_builder_handler, if_handler, output_handler, unavailable_handler}"
    and "h ctx = Inr r"
  shows "validate_terminal_shape r"
proof -
  have "if_handler ctx = Inr r \<Longrightarrow> validate_terminal_shape r"
    unfolding if_handler_def Let_def
    by (simp split: option.split_asm sum.split_asm) (blast dest: made_result made_failed)+
  moreover have "output_handler ctx = Inr r \<Longrightarrow> validate_terminal_shape r"
    unfolding output_handler_def Let_def
    by (simp split: if_split_asm) (blast dest: made_result made_failed)+
  ultimately show ?thesis
    using assms unfolding input_handler_def context_builder_handler_def unavailable_handler_def
    by (blast dest: made_result)
qed

subsection \<open>What an accepted draft promises about its conditions\<close>

definition observed :: "IfCondition \<Rightarrow> NodeRun \<Rightarrow> string option" where
  "observed c u = (if if_field c = ''status'' then Some (NodeRunStatus_value (nr_status u))
     else map_option NodeOutcome_value (nr_outcome u))"

definition condition_holds :: "IfCondition \<Rightarrow> string option \<Rightarrow> bool" where
  \<comment> \<open>the meaning of a condition on a text\<close>
  "condition_holds c x \<longleftrightarrow>
     (case (operator c, if_value c) of
        (EQ, Some (IfStr v)) \<Rightarrow> x = Some v
      | (NE, Some (IfStr v)) \<Rightarrow> x \<noteq> Some v
      | (IN, Some (IfList vs)) \<Rightarrow> x \<in> Some ` set vs
      | _ \<Rightarrow> False)"

lemma accepted_operand:
  assumes "operand_issues n c = []" and "if_field c \<noteq> ''tests_passed''"
  shows "operator c \<in> {EQ, NE} \<and> (\<exists>v. if_value c = Some (IfStr v)) \<or>
    operator c = IN \<and> (\<exists>vs. if_value c = Some (IfList vs))"
  using assms by (auto simp: operand_issues_def Let_def
      split: IfOperator.splits option.splits if_value.splits if_splits)

lemma evaluate_text:
  assumes "operator c \<in> {EQ, NE} \<and> (\<exists>v. if_value c = Some (IfStr v)) \<or>
      operator c = IN \<and> (\<exists>vs. if_value c = Some (IfList vs))"
  shows "evaluate (case x of Some t \<Rightarrow> AStr t | None \<Rightarrow> ANone) (operator c) (if_value c) = Inr (condition_holds c x)"
  using assms by (auto simp: condition_holds_def split: option.splits)

lemma if_handler_decides:
  assumes "if_condition (ctx_node ctx) = Some c" and "condition_upstream ctx = Some u"
    and "if_field c = ''status'' \<or> if_field c = ''outcome''" and "operand_issues n c = []"
  shows "\<exists>r. if_handler ctx = Inr r \<and> hr_status r = NodeRunStatus.COMPLETED \<and>
    hr_outcome r = (if condition_holds c (observed c u) then NodeOutcome.MATCHED else NodeOutcome.NOT_MATCHED)"
proof -
  have "actual_value ctx c u = Inr (case observed c u of Some t \<Rightarrow> AStr t | None \<Rightarrow> ANone)"
    using assms(3) by (auto simp: actual_value_def observed_def split: option.splits)
  moreover have "if_field c \<noteq> ''tests_passed''" using assms(3) by auto
  ultimately show ?thesis
    using assms(1,2) evaluate_text [OF accepted_operand [OF assms(4)]]
    by (simp add: if_handler_def Let_def decided_ok)
qed

subsection \<open>Properties\<close>

text \<open>
  The deterministic handlers are total and well typed: on any context whose ids are entity
  ids and whose condition has a field its model allows, each returns a result (its constructor
  does not raise), with a terminal status, an outcome that \<open>complete_node\<close> accepts for it and an
  error code unless it completed.
\<close>

lemma deterministic_handlers_are_total:
  assumes "is_entity_id (workflow_run_id (ctx_run ctx))" and "is_entity_id (node_id (ctx_node ctx))"
    and "\<forall>c. if_condition (ctx_node ctx) = Some c \<longrightarrow> if_field c \<in> set if_fields"
    and "h \<in> {input_handler, context_builder_handler, if_handler, output_handler, unavailable_handler}"
  shows "\<exists>r. h ctx = Inr r \<and>
    hr_status r \<in> {NodeRunStatus.COMPLETED, NodeRunStatus.FAILED, NodeRunStatus.BLOCKED_BY_GUARD} \<and>
    hr_outcome r \<in> set (allowed_outcomes (hr_status r)) \<and>
    (hr_status r \<noteq> NodeRunStatus.COMPLETED \<longrightarrow> opt_list (hr_error_code r) \<noteq> [])"
proof -
  have l: "length (workflow_run_id (ctx_run ctx)) \<le> 128" "length (node_id (ctx_node ctx)) \<le> 128"
    using assms(1,2) by (auto simp: is_entity_id_def split: list.split_asm)
  have t: "length (NodeType_value (node_type (ctx_node ctx))) \<le> 20" by (rule type_value_short)
  have "\<exists>r. input_handler ctx = Inr r" "\<exists>r. context_builder_handler ctx = Inr r"
    "\<exists>r. unavailable_handler ctx = Inr r"
    using l t by (simp_all add: input_handler_def context_builder_handler_def unavailable_handler_def make_result_ok)
  moreover have "\<exists>r. output_handler ctx = Inr r" by (simp add: output_handler_def Let_def make_result_ok failed_ok)
  moreover have "\<exists>r. if_handler ctx = Inr r" using if_handler_total assms(3) by blast
  ultimately obtain r where r1: "h ctx = Inr r" using assms(4) by auto
  have r: "h ctx = Inr r" "validate_terminal_shape r"
    using r1 made_shape [OF assms(4) r1] by blast+
  have "hr_status r \<in> {NodeRunStatus.COMPLETED, NodeRunStatus.FAILED, NodeRunStatus.BLOCKED_BY_GUARD}"
    using r(2) by (cases "hr_status r") (auto simp: validate_terminal_shape_def)
  then show ?thesis using r by (auto simp: validate_terminal_shape_def)
qed

abbreviation sample_context :: "WorkflowRun \<Rightarrow> NodeRun \<Rightarrow> WorkflowNode \<Rightarrow> NodeRun option \<Rightarrow> NodeExecutionContext" where
  "sample_context w q n u \<equiv> \<lparr>ctx_run = w\<lparr>workflow_run_id := ''r''\<rparr>, ctx_node_run = q, ctx_node = n,
     predecessors = [], active_predecessors = [], condition_upstream = u\<rparr>"

lemma deterministic_handlers_are_total_witness:
  "\<forall>w q. \<exists>r. if_handler (sample_context w q sample_if None) = Inr r \<and>
     hr_outcome r \<in> set (allowed_outcomes (hr_status r))"
proof (intro allI)
  fix w q
  have "is_entity_id ''r''" "is_entity_id (node_id sample_if)"
    by code_simp+
  then show "\<exists>r. if_handler (sample_context w q sample_if None) = Inr r \<and>
     hr_outcome r \<in> set (allowed_outcomes (hr_status r))"
    using deterministic_handlers_are_total [of "sample_context w q sample_if None" if_handler]
    by (auto simp: sample_if_def new_node_def if_fields_def)
qed

text \<open>
  The conditions of an accepted draft mean what they say. When an \<open>if\<close> node of a draft the
  validator accepts tests the status or the outcome of its upstream node, its handler completes
  (it can neither fail nor raise) and takes the matched branch exactly when the recorded value
  satisfies the comparison.
\<close>

lemma accepted_conditions_decide:
  assumes "validate_draft g True = Inr rep" and "ok rep"
    and "n \<in> set (nodes g)" and "node_type n = IF" and "if_condition n = Some c"
    and "if_condition (ctx_node ctx) = Some c" and "condition_upstream ctx = Some u"
    and "if_field c = ''status'' \<or> if_field c = ''outcome''"
  shows "\<exists>r. if_handler ctx = Inr r \<and> hr_status r = NodeRunStatus.COMPLETED \<and>
    hr_outcome r = (if condition_holds c (observed c u) then NodeOutcome.MATCHED else NodeOutcome.NOT_MATCHED)"
proof -
  have "operand_issues n c = []"
    using ok_if_node [OF validate_draft_okD [OF assms(1,2)] assms(3,4)] assms(5) by auto
  then show ?thesis using if_handler_decides [OF assms(6-8)] by blast
qed

definition status_condition :: IfCondition where
  "status_condition = \<lparr>upstream_node_id = ''i'', if_field = ''status'', operator = EQ,
     if_value = Some (IfStr ''completed'')\<rparr>"

definition status_graph :: AuthorGraph where
  "status_graph = sample_graph\<lparr>nodes := [new_node ''i'' INPUT ''in'',
     sample_if\<lparr>if_condition := Some status_condition\<rparr>, new_node ''o'' OUTPUT ''out'']\<rparr>"

lemma status_graph_accepted:
  "validate_draft status_graph True = Inr \<lparr>report_errors = [], report_warnings = []\<rparr>"
proof (rule silent_draft_accepted)
  show "size_issues status_graph = []" 
    by (rule small_draft) (simp_all add: author_text status_graph_def status_condition_def)
qed code_simp+

lemma accepted_conditions_decide_witness:
  "\<forall>w q. \<exists>r. if_handler (sample_context w q (sample_if\<lparr>if_condition := Some status_condition\<rparr>)
       (Some (q\<lparr>nr_status := NodeRunStatus.COMPLETED\<rparr>))) = Inr r \<and> hr_outcome r = NodeOutcome.MATCHED"
proof (intro allI)
  fix w :: WorkflowRun and q :: NodeRun
  let ?n = "sample_if\<lparr>if_condition := Some status_condition\<rparr>"
  let ?u = "q\<lparr>nr_status := NodeRunStatus.COMPLETED\<rparr>"
  have "ok \<lparr>report_errors = [], report_warnings = []\<rparr>" "?n \<in> set (nodes status_graph)"
    "node_type ?n = IF" "if_condition ?n = Some status_condition"
    "if_condition (ctx_node (sample_context w q ?n (Some ?u))) = Some status_condition"
    "condition_upstream (sample_context w q ?n (Some ?u)) = Some ?u"
    "if_field status_condition = ''status'' \<or> if_field status_condition = ''outcome''"
    by (simp_all add: ok_def status_graph_def sample_if_def new_node_def status_condition_def)
  from accepted_conditions_decide [OF status_graph_accepted this]
  show "\<exists>r. if_handler (sample_context w q ?n (Some ?u)) = Inr r \<and> hr_outcome r = NodeOutcome.MATCHED"
    by (simp add: condition_holds_def observed_def status_condition_def) blast
qed

text \<open>
  A condition on \<open>tests_passed\<close>, which the draft validator accepts, can never be evaluated:
  whichever node of the draft it reads, that node is not a test node (the validator only admits
  author node types), so the handler fails with \<open>if_field_unavailable\<close> and neither branch of the
  \<open>if\<close> is taken.
\<close>

theorem tests_passed_is_never_available:
  assumes "validate_draft g True = Inr rep" and "ok rep" and "m \<in> set (nodes g)"
    and "if_condition (ctx_node ctx) = Some c" and "if_field c = ''tests_passed''"
    and "condition_upstream ctx = Some u" and "nr_node_type u = node_type m"
  shows "if_handler ctx = Inr \<lparr>hr_status = NodeRunStatus.FAILED, hr_outcome = NodeOutcome.FAILURE,
    hr_summary = ''tests_passed is only available for a test node.'', artifact_refs = [],
    hr_error_code = Some ''if_field_unavailable''\<rparr>"
proof -
  have "node_type m \<in> set AUTHOR_NODE_TYPES"
    using ok_parts(2) [OF validate_draft_okD [OF assms(1,2)]] assms(3) validate_node_Nil(1) by blast
  then have "nr_node_type u \<noteq> TEST" using assms(7) by (auto simp: AUTHOR_NODE_TYPES_def)
  then show ?thesis using assms(4-6) by (simp add: if_handler_def actual_value_def failed_ok)
qed

lemma tests_passed_is_never_available_witness:
  "\<forall>w q. \<exists>r. if_handler (sample_context w q sample_if (Some (q\<lparr>nr_node_type := INPUT\<rparr>))) = Inr r \<and>
     hr_error_code r = Some ''if_field_unavailable''"
proof (intro allI)
  fix w :: WorkflowRun and q :: NodeRun
  let ?ctx = "sample_context w q sample_if (Some (q\<lparr>nr_node_type := INPUT\<rparr>))"
  have "ok \<lparr>report_errors = [], report_warnings = []\<rparr>" "new_node ''i'' INPUT ''in'' \<in> set (nodes sample_graph)"
    "if_condition (ctx_node ?ctx) = Some (the (if_condition sample_if))"
    "if_field (the (if_condition sample_if)) = ''tests_passed''"
    "condition_upstream ?ctx = Some (q\<lparr>nr_node_type := INPUT\<rparr>)"
    "nr_node_type (q\<lparr>nr_node_type := INPUT\<rparr>) = node_type (new_node ''i'' INPUT ''in'')"
    by (simp_all add: ok_def sample_graph_def sample_if_def new_node_def)
  from tests_passed_is_never_available [OF sample_accepted this]
  show "\<exists>r. if_handler ?ctx = Inr r \<and> hr_error_code r = Some ''if_field_unavailable''" by simp
qed

end
