(* ===== verification/Risk.thy ===== *)
theory Risk
  imports Path_Policy
begin

text \<open>
  \<open>workspace/change_set.py\<close>, the manifest a capture writes down, with the validators its
  constructors run, and \<open>security/risk_classifier.py\<close>, the runtime risk derived from it.
\<close>

subsection \<open>Change-set manifests\<close>

datatype FileAction = CREATED | MODIFIED | DELETED | RENAMED

record FileChange =
  action :: FileAction
  path :: string
  old_path :: "string option"
  before_sha256 :: "string option"
  after_sha256 :: "string option"
  before_size :: "int option"
  after_size :: "int option"
  binary :: bool

record ChangeSetManifest =
  base_commit :: string
  pre_state_hash :: string
  post_state_hash :: string
  changes :: "FileChange list"
  created_directories :: "string list"
  ignored_files_touched :: "string list"
  staged_evidence_sha256 :: string
  unstaged_evidence_sha256 :: string
  status_evidence_sha256 :: string

definition validate_action_shape :: "FileChange \<Rightarrow> string option" where
  "validate_action_shape c =
     (case action c of
        CREATED \<Rightarrow>
          (if old_path c \<noteq> None \<or> before_sha256 c \<noteq> None
           then Some ''created files cannot carry old_path or before_sha256''
           else if after_sha256 c = None \<or> after_size c = None
           then Some ''created files require after hash and size'' else None)
      | DELETED \<Rightarrow>
          (if old_path c \<noteq> None \<or> after_sha256 c \<noteq> None
           then Some ''deleted files cannot carry old_path or after_sha256''
           else if before_sha256 c = None \<or> before_size c = None
           then Some ''deleted files require before hash and size'' else None)
      | MODIFIED \<Rightarrow>
          (if old_path c \<noteq> None then Some ''modified files cannot carry old_path''
           else if before_sha256 c = None \<or> after_sha256 c = None \<or>
                   before_size c = None \<or> after_size c = None
           then Some ''modified files require before and after metadata'' else None)
      | RENAMED \<Rightarrow>
          (if old_path c = None \<or> old_path c = Some (path c)
           then Some ''renamed files require a distinct old_path''
           else if before_sha256 c = None \<or> after_sha256 c = None \<or>
                   before_size c = None \<or> after_size c = None
           then Some ''renamed files require before and after metadata'' else None))"

abbreviation opt_all :: "('a \<Rightarrow> bool) \<Rightarrow> 'a option \<Rightarrow> bool" where
  "opt_all P x \<equiv> (case x of None \<Rightarrow> True | Some y \<Rightarrow> P y)"

definition is_repo_relative_path :: "string \<Rightarrow> bool" where
  "is_repo_relative_path p \<longleftrightarrow> 1 \<le> length p \<and> length p \<le> 1024"

definition valid_file_change :: "FileChange \<Rightarrow> bool" where
  \<comment> \<open>the values a \<open>FileChange\<close> constructor accepts\<close>
  "valid_file_change c \<longleftrightarrow>
     is_repo_relative_path (path c) \<and> opt_all is_repo_relative_path (old_path c) \<and>
     opt_all is_sha256_hex (before_sha256 c) \<and> opt_all is_sha256_hex (after_sha256 c) \<and>
     opt_all ((\<le>) 0) (before_size c) \<and> opt_all ((\<le>) 0) (after_size c) \<and>
     validate_action_shape c = None"

definition manifest_paths :: "ChangeSetManifest \<Rightarrow> string list" where
  \<comment> \<open>the list \<open>reject_duplicate_paths\<close> builds\<close>
  "manifest_paths m =
     concat (map (\<lambda>c. path c # (case old_path c of None \<Rightarrow> [] | Some p \<Rightarrow> [p])) (changes m))"

definition valid_manifest :: "ChangeSetManifest \<Rightarrow> bool" where
  "valid_manifest m \<longleftrightarrow>
     is_git_object_id (base_commit m) \<and> is_sha256_hex (pre_state_hash m) \<and>
     is_sha256_hex (post_state_hash m) \<and>
     list_all valid_file_change (changes m) \<and> length (changes m) \<le> 500 \<and>
     list_all is_repo_relative_path (created_directories m) \<and>
     length (created_directories m) \<le> 500 \<and>
     list_all is_repo_relative_path (ignored_files_touched m) \<and>
     length (ignored_files_touched m) \<le> 500 \<and>
     is_sha256_hex (staged_evidence_sha256 m) \<and> is_sha256_hex (unstaged_evidence_sha256 m) \<and>
     is_sha256_hex (status_evidence_sha256 m) \<and>
     length (manifest_paths m) = length (remdups (manifest_paths m))"

subsection \<open>Tables\<close>

definition BINARY_EXTENSIONS :: "string list" where
  "BINARY_EXTENSIONS =
     [''.7z'', ''.bin'', ''.dll'', ''.dylib'', ''.exe'', ''.gif'', ''.gz'', ''.ico'', ''.jar'',
      ''.jpeg'', ''.jpg'', ''.pdf'', ''.png'', ''.so'', ''.tar'', ''.wasm'', ''.zip'']"

definition L3_COMPONENTS :: "string list" where
  "L3_COMPONENTS =
     [''auth'', ''authentication'', ''authorization'', ''payment'', ''payments'', ''permission'',
      ''permissions'', ''security'']"

definition L2_COMPONENTS :: "string list" where
  "L2_COMPONENTS =
     [''.github'', ''ci'', ''config'', ''configs'', ''migration'', ''migrations'', ''schema'',
      ''schemas'', ''script'', ''scripts'', ''test'', ''tests'']"

definition L2_BASENAMES :: "string list" where
  "L2_BASENAMES =
     [''.gitignore'', ''dockerfile'', ''package-lock.json'', ''package.json'', ''pnpm-lock.yaml'',
      ''pyproject.toml'', ''requirements.txt'', ''requirements.lock'', ''uv.lock'',
      ''yarn.lock'']"

definition L4_COMPONENTS :: "string list" where
  "L4_COMPONENTS = [''.agent-hub'', ''.git'', ''.ssh'']"

record RiskAssessment =
  runtime_risk :: RiskLevel
  effective_risk :: RiskLevel
  reasons :: "string list"

definition blocked :: "RiskAssessment \<Rightarrow> bool" where
  "blocked a \<longleftrightarrow> effective_risk a = L4"

definition requires_approval :: "RiskAssessment \<Rightarrow> bool" where
  "requires_approval a \<longleftrightarrow> RISK_ORDER (effective_risk a) \<ge> RISK_ORDER L2"

subsection \<open>One path\<close>

definition forbidden_path :: "string \<Rightarrow> bool" where
  \<comment> \<open>the first test of \<open>_classify_path\<close>\<close>
  "forbidden_path p \<longleftrightarrow>
     (let components = map casefold (posix_parts p);
          basename = (if components = [] then [] else last components);
          suffix = casefold (posix_suffix p)
      in list_ex (\<lambda>part. part \<in> set L4_COMPONENTS) components \<or>
         basename = ''.env'' \<or> startswith basename ''.env.'' \<or>
         basename \<in> set [''id_rsa'', ''id_dsa'', ''id_ecdsa'', ''id_ed25519''] \<or>
         suffix \<in> set [''.key'', ''.pem'', ''.p12'', ''.pfx''])"

definition security_path :: "string \<Rightarrow> bool" where
  "security_path p \<longleftrightarrow>
     (let components = map casefold (posix_parts p); stem = casefold (posix_stem p)
      in list_ex (\<lambda>part. part \<in> set L3_COMPONENTS) components \<or> stem \<in> set L3_COMPONENTS \<or>
         list_ex (startswith stem) [''auth_'', ''payment_'', ''permission_'', ''security_''])"

definition configuration_path :: "string \<Rightarrow> bool" where
  "configuration_path p \<longleftrightarrow>
     (let components = map casefold (posix_parts p);
          basename = (if components = [] then [] else last components)
      in basename \<in> set L2_BASENAMES \<or>
         list_ex (\<lambda>part. part \<in> set L2_COMPONENTS) components \<or>
         list_ex (startswith basename) [''dockerfile.'', ''requirements.'', ''constraints.''])"

definition classify_path :: "string \<Rightarrow> RiskLevel \<times> string option" where
  "classify_path p =
     (if forbidden_path p then (L4, Some (''forbidden_or_sensitive_path:'' @ p))
      else if security_path p then (L3, Some (''security_sensitive_component:'' @ p))
      else if casefold (posix_suffix p) \<in> set BINARY_EXTENSIONS
      then (L3, Some (''binary_extension:'' @ p))
      else if configuration_path p then (L2, Some (''configuration_or_test_path:'' @ p))
      else (L1, None))"

fun classify_each :: "RiskLevel \<Rightarrow> string list \<Rightarrow> RiskLevel \<times> string list" where
  \<comment> \<open>the loops over the paths: the risk so far, and the reasons found\<close>
  "classify_each runtime [] = (runtime, [])"
| "classify_each runtime (p # ps) =
     (let (path_risk, reason) = classify_path p;
          (r, rs) = classify_each (max_risk runtime path_risk) ps
      in (r, case reason of None \<Rightarrow> rs | Some m \<Rightarrow> m # rs))"

definition count_risk :: "nat \<Rightarrow> RiskLevel" where
  "count_risk n = (if 20 < n then L3 else if 6 \<le> n then L2 else L0)"

definition count_reason :: "nat \<Rightarrow> string list" where
  "count_reason n =
     (if 20 < n then [''more_than_20_changed_paths'']
      else if 6 \<le> n then [''six_to_20_changed_paths'']
      else if 0 < n then [''one_to_five_changed_paths''] else [])"

definition classify_paths :: "string list \<Rightarrow> RiskAssessment" where
  "classify_paths paths =
     (let unique_paths = dedup paths in
      if unique_paths = [] then \<lparr>runtime_risk = L0, effective_risk = L0, reasons = []\<rparr>
      else let (runtime0, reasons0) = classify_each L1 unique_paths;
               runtime = max_risk runtime0 (count_risk (length unique_paths))
        in \<lparr>runtime_risk = runtime, effective_risk = runtime,
            reasons = dedup (reasons0 @ count_reason (length unique_paths))\<rparr>)"

subsection \<open>A manifest\<close>

definition changed_paths :: "ChangeSetManifest \<Rightarrow> string list" where
  "changed_paths m =
     concat (map (\<lambda>c. case old_path c of
                        Some p \<Rightarrow> (if p \<noteq> [] then [p, path c] else [path c])
                      | None \<Rightarrow> [path c]) (changes m))"

fun raise_hints :: "RiskLevel \<Rightarrow> (string \<times> RiskLevel) list \<Rightarrow> RiskLevel \<times> string list" where
  "raise_hints effective [] = (effective, [])"
| "raise_hints effective ((source, risk) # hints) =
     (if RISK_ORDER effective < RISK_ORDER risk
      then let (e, rs) = raise_hints risk hints in (e, (source @ ''_raised_risk'') # rs)
      else raise_hints effective hints)"

definition raised :: "bool \<Rightarrow> RiskLevel \<Rightarrow> RiskLevel \<Rightarrow> RiskLevel" where
  \<comment> \<open>\<open>if c: runtime = _max_risk(runtime, floor)\<close>\<close>
  "raised c floor runtime = (if c then max_risk runtime floor else runtime)"

definition start_risk :: "ChangeSetManifest \<Rightarrow> bool \<Rightarrow> RiskLevel" where
  "start_risk m bypass_intent =
     (if bypass_intent then L4 else if changed_paths m = [] then L0 else L1)"

definition removes_paths :: "ChangeSetManifest \<Rightarrow> bool" where
  "removes_paths m \<longleftrightarrow> list_ex (\<lambda>c. action c = DELETED \<or> action c = RENAMED) (changes m)"

definition runtime_assessment :: "ChangeSetManifest \<Rightarrow> bool \<Rightarrow> RiskLevel \<times> string list" where
  \<comment> \<open>the part of \<open>classify\<close> before the hints\<close>
  "runtime_assessment m bypass_intent =
     (let (risk0, path_reasons) =
            classify_each (start_risk m bypass_intent) (changed_paths m @ ignored_files_touched m);
          risk1 = (if ignored_files_touched m \<noteq> [] then L4 else risk0);
          risk2 = raised (list_ex binary (changes m)) L3 risk1;
          risk3 = raised (removes_paths m) L3 risk2
      in (max_risk risk3 (count_risk (length (changes m))),
          report_if bypass_intent ''runtime_policy_bypass_intent'' @ path_reasons @
          report_if (ignored_files_touched m \<noteq> []) ''ignored_workspace_mutation'' @
          report_if (list_ex binary (changes m)) ''binary_change'' @
          report_if (removes_paths m) ''delete_or_rename'' @
          count_reason (length (changes m))))"

definition classify ::
  "ChangeSetManifest \<Rightarrow> RiskLevel \<Rightarrow> RiskLevel \<Rightarrow> RiskLevel \<Rightarrow> RiskLevel \<Rightarrow> bool \<Rightarrow> RiskAssessment" where
  "classify m policy_floor user_hint planner_hint agent_hint bypass_intent =
     (let (runtime, runtime_reasons) = runtime_assessment m bypass_intent;
          (effective, hint_reasons) = raise_hints runtime
            [(''policy_floor'', policy_floor), (''user_hint'', user_hint),
             (''planner_hint'', planner_hint), (''agent_hint'', agent_hint)]
      in \<lparr>runtime_risk = runtime, effective_risk = effective,
          reasons = dedup (runtime_reasons @ hint_reasons)\<rparr>)"

subsection \<open>What the classifier computes\<close>

abbreviation max_of :: "RiskLevel \<Rightarrow> RiskLevel list \<Rightarrow> RiskLevel" where
  "max_of r rs \<equiv> fold max rs r"

lemma max_of_le_iff: "max_of r rs \<le> b \<longleftrightarrow> r \<le> b \<and> (\<forall>x \<in> set rs. x \<le> b)"
  by (induction rs arbitrary: r) auto

lemma classify_each_risk:
  "fst (classify_each r ps) = max_of r (map (\<lambda>p. fst (classify_path p)) ps)"
proof (induction ps arbitrary: r)
  case (Cons p ps)
  from Cons.IH [of "max r (fst (classify_path p))"] show ?case
    by (simp add: Let_def case_prod_unfold max.commute)
qed simp

lemma classify_each_le:
  "classify_each r ps = (r', rs) \<Longrightarrow>
     r' \<le> b \<longleftrightarrow> r \<le> b \<and> (\<forall>p \<in> set ps. fst (classify_path p) \<le> b)"
  using classify_each_risk [of r ps] by (auto simp: max_of_le_iff)

lemma raise_hints_risk: "fst (raise_hints r hs) = max_of r (map snd hs)"
proof (induction r hs rule: raise_hints.induct)
  case (2 e source risk hints)
  show ?case
  proof (cases "e < risk")
    case True
    then have "max risk e = risk" by simp
    then show ?thesis using True 2 by (simp add: Let_def case_prod_unfold)
  next
    case False
    then have "max risk e = e" by (intro max_absorb2) simp
    then show ?thesis using False 2 by simp
  qed
qed simp

lemma raised_le [simp]: "raised c floor r \<le> x \<longleftrightarrow> r \<le> x \<and> (c \<longrightarrow> floor \<le> x)"
  by (auto simp: raised_def)

lemma runtime_assessment_le:
  "fst (runtime_assessment m b) \<le> r \<longleftrightarrow>
     (changed_paths m \<noteq> [] \<longrightarrow> L1 \<le> r) \<and>
     (\<forall>p \<in> set (changed_paths m @ ignored_files_touched m). fst (classify_path p) \<le> r) \<and>
     count_risk (length (changes m)) \<le> r \<and>
     (b \<or> ignored_files_touched m \<noteq> [] \<longrightarrow> r = L4) \<and>
     (list_ex binary (changes m) \<or> removes_paths m \<longrightarrow> L3 \<le> r)"
proof -
  have start: "start_risk m b \<le> r \<longleftrightarrow> (changed_paths m \<noteq> [] \<longrightarrow> L1 \<le> r) \<and> (b \<longrightarrow> r = L4)"
    by (cases r) (simp_all add: start_risk_def)
  have touched: "(if c then L4 else q) \<le> r \<longleftrightarrow> q \<le> r \<and> (c \<longrightarrow> r = L4)" for c q
    by (cases c) auto
  then show ?thesis
    unfolding runtime_assessment_def Let_def case_prod_unfold fst_conv classify_each_risk
      max_risk_max max.bounded_iff raised_le max_of_le_iff touched start
      set_map ball_simps
    by blast
qed

lemma classify_runtime:
  "runtime_risk (classify m pf uh ph ah b) = fst (runtime_assessment m b)"
  unfolding classify_def Let_def case_prod_unfold RiskAssessment.simps ..

lemma classify_effective:
  "effective_risk (classify m pf uh ph ah b) =
     max_of (fst (runtime_assessment m b)) [pf, uh, ph, ah]"
  unfolding classify_def Let_def case_prod_unfold RiskAssessment.simps raise_hints_risk by simp

lemma length_dedup: "length (dedup xs) = card (set xs)"
  by (metis distinct_card distinct_dedup set_dedup)

lemma count_risk_le: "count_risk n \<le> r \<longleftrightarrow> (6 \<le> n \<longrightarrow> L2 \<le> r) \<and> (20 < n \<longrightarrow> L3 \<le> r)"
  by (cases r) (auto simp: count_risk_def)

lemma count_risk_mono: "a \<le> b \<Longrightarrow> count_risk a \<le> count_risk b"
  by (simp add: count_risk_def)

lemma dedup_Nil [simp]: "dedup xs = [] \<longleftrightarrow> xs = []"
  by (cases xs) auto

lemma classify_paths_le:
  "effective_risk (classify_paths ps) \<le> r \<longleftrightarrow>
     ps = [] \<or> L1 \<le> r \<and> (\<forall>p \<in> set ps. fst (classify_path p) \<le> r) \<and> count_risk (card (set ps)) \<le> r"
proof (cases "ps = []")
  case False
  then show ?thesis
    unfolding classify_paths_def Let_def case_prod_unfold
    by (simp add: classify_each_risk max_of_le_iff length_dedup)
qed (simp add: classify_paths_def)

lemma classify_path_cases:
  "fst (classify_path p) \<le> L1 \<longleftrightarrow>
     \<not> forbidden_path p \<and> \<not> security_path p \<and>
     casefold (posix_suffix p) \<notin> set BINARY_EXTENSIONS \<and> \<not> configuration_path p"
  by (simp add: classify_path_def)

lemma not_requires_approval: "\<not> requires_approval a \<longleftrightarrow> effective_risk a \<le> L1"
  unfolding requires_approval_def by (cases "effective_risk a") simp_all

subsection \<open>Properties\<close>

text \<open>
  C31: the runtime risk of a captured manifest is exactly the least level that covers every
  reason the source names (each changed or ignored path's own level, the number of changes,
  binary, deleted and renamed files, ignored files that were touched, an intent to bypass the
  policy), and the effective risk is the maximum of it and the four hints, which can therefore
  only raise it.
\<close>

theorem risk_is_least_cover:
  "(\<forall>r. runtime_risk (classify m floor user planner agent bypass) \<le> r \<longleftrightarrow>
     (changed_paths m \<noteq> [] \<longrightarrow> L1 \<le> r) \<and>
     (\<forall>p \<in> set (changed_paths m @ ignored_files_touched m). fst (classify_path p) \<le> r) \<and>
     (6 \<le> length (changes m) \<longrightarrow> L2 \<le> r) \<and> (20 < length (changes m) \<longrightarrow> L3 \<le> r) \<and>
     (bypass \<or> ignored_files_touched m \<noteq> [] \<longrightarrow> r = L4) \<and>
     (list_ex binary (changes m) \<or> removes_paths m \<longrightarrow> L3 \<le> r)) \<and>
   effective_risk (classify m floor user planner agent bypass) =
     Max {runtime_risk (classify m floor user planner agent bypass), floor, user, planner, agent}"
  unfolding classify_runtime classify_effective runtime_assessment_le count_risk_le
  by (simp add: ac_simps)

definition sample_change :: "string \<Rightarrow> FileChange" where
  "sample_change p = \<lparr>action = MODIFIED, path = p, old_path = None, before_sha256 = None,
     after_sha256 = None, before_size = None, after_size = None, binary = False\<rparr>"

definition sample_manifest :: "string list \<Rightarrow> ChangeSetManifest" where
  "sample_manifest ps = \<lparr>base_commit = [], pre_state_hash = [], post_state_hash = [],
     changes = map sample_change ps, created_directories = [], ignored_files_touched = [],
     staged_evidence_sha256 = [], unstaged_evidence_sha256 = [], status_evidence_sha256 = []\<rparr>"

lemma risk_is_least_cover_witness:
  "runtime_risk (classify (sample_manifest [''auth/a'']) L0 L0 L0 L0 False) \<le> L3 \<and>
   effective_risk (classify (sample_manifest [''auth/a'']) L0 L4 L0 L0 False) = L4"
proof -
  have "changed_paths (sample_manifest [''auth/a'']) = [''auth/a'']"
    "ignored_files_touched (sample_manifest [''auth/a'']) = []"
    "fst (classify_path ''auth/a'') = L3"
    "list_ex binary (changes (sample_manifest [''auth/a''])) = False"
    "removes_paths (sample_manifest [''auth/a'']) = False"
    "length (changes (sample_manifest [''auth/a''])) = 1"
    by code_simp+
  then have le: "runtime_risk (classify (sample_manifest [''auth/a'']) L0 u L0 L0 False) \<le> L3" for u
    using risk_is_least_cover [of "sample_manifest [''auth/a'']" L0 u L0 L0 False]
    by simp
  moreover have "effective_risk (classify (sample_manifest [''auth/a'']) L0 L4 L0 L0 False) = L4"
    using risk_is_least_cover [of "sample_manifest [''auth/a'']" L0 L4 L0 L0 False]
    by (simp add: max_absorb1 max_absorb2)
  ultimately show ?thesis by blast
qed

text \<open>
  A change that needs no approval is harmless by every rule: fewer than six changed files,
  none binary, deleted or renamed, no ignored file touched and no bypass intent, no hint above
  \<open>L1\<close>, and no path, old or new, that is secret, security-sensitive, binary by its
  extension, configuration, schema, script or test.
\<close>

theorem unapproved_change_is_harmless:
  assumes "\<not> requires_approval (classify m floor user planner agent bypass)"
  shows "length (changes m) < 6 \<and> \<not> list_ex binary (changes m) \<and> \<not> removes_paths m \<and>
    ignored_files_touched m = [] \<and> \<not> bypass \<and> max_of floor [user, planner, agent] \<le> L1 \<and>
    (\<forall>p \<in> set (changed_paths m).
       \<not> forbidden_path p \<and> \<not> security_path p \<and> \<not> configuration_path p \<and>
       casefold (posix_suffix p) \<notin> set BINARY_EXTENSIONS)"
proof -
  let ?a = "classify m floor user planner agent bypass"
  have e: "effective_risk ?a \<le> L1" using assms by (simp only: not_requires_approval)
  then have r: "runtime_risk ?a \<le> L1" and h: "max_of floor [user, planner, agent] \<le> L1"
    unfolding classify_effective classify_runtime by (simp_all add: max_of_le_iff)
  have "count_risk (length (changes m)) \<le> L1 \<Longrightarrow> length (changes m) < 6"
    by (simp add: count_risk_def split: if_splits)
  moreover have "\<not> L3 \<le> L1" "L1 \<noteq> L4" by (simp_all add: less_eq_RiskLevel_def)
  ultimately show ?thesis
    using r h unfolding classify_runtime runtime_assessment_le
    by (simp add: classify_path_cases)
qed

lemma unapproved_change_is_harmless_witness:
  "\<not> requires_approval (classify (sample_manifest [''src/a'']) L0 L0 L0 L0 False) \<and>
   \<not> removes_paths (sample_manifest [''src/a''])"
proof -
  have *: "\<not> requires_approval (classify (sample_manifest [''src/a'']) L0 L0 L0 L0 False)"
    by code_simp
  show ?thesis using * unapproved_change_is_harmless [OF *] by blast
qed

text \<open>
  The compile-time risk of a scope is monotone: adding files to the scope never lowers it,
  and neither the order nor the repetition of the files matters.
\<close>

theorem classify_paths_monotone:
  assumes "set ps \<subseteq> set qs"
  shows "effective_risk (classify_paths ps) \<le> effective_risk (classify_paths qs)"
proof -
  have "count_risk (card (set ps)) \<le> count_risk (card (set qs))"
    using assms by (intro count_risk_mono card_mono) auto
  moreover have "effective_risk (classify_paths qs) \<le> effective_risk (classify_paths qs)" by simp
  ultimately show ?thesis
    using assms unfolding classify_paths_le [of ps] classify_paths_le [of qs]
    by (cases "qs = []") (auto intro: order_trans)
qed

lemma classify_paths_monotone_witness:
  "effective_risk (classify_paths [''a'', ''a'']) \<le> effective_risk (classify_paths [''ci'', ''a''])"
  by (rule classify_paths_monotone) simp

end
