(* ===== verification/Command_Guard.thy ===== *)
theory Command_Guard
  imports Protocol
begin

text \<open>
  \<open>security/command_guard.py\<close>: the parameter-level allowlist of test commands. A raised
  \<open>CommandGuardViolation\<close> is its message. Tokens are strings (the type tests on bytes and
  other objects have no counterpart), and \<open>_SAFE_SELECTOR\<close> is the predicate of its language.
\<close>

definition SHELL_METACHARACTERS :: "char list" where
  "SHELL_METACHARACTERS = '';&|><`'' @ [CHR 0x0D, CHR 0x0A]"

definition selector_char :: "char \<Rightarrow> bool" where
  "selector_char c \<longleftrightarrow> is_alnum c \<or> c \<in> set ''_./:+@=-''"

definition SAFE_SELECTOR :: "string \<Rightarrow> bool" where
  \<comment> \<open>\<open>^[A-Za-z0-9_./:+@=-]{1,512}$\<close> with \<open>fullmatch\<close>\<close>
  "SAFE_SELECTOR s \<longleftrightarrow> 1 \<le> length s \<and> length s \<le> 512 \<and> list_all selector_char s"

definition PYTEST_FLAGS :: "string list" where
  "PYTEST_FLAGS =
     [''-q'', ''--quiet'', ''-x'', ''--strict-config'', ''--strict-markers'', ''--disable-warnings'']"

definition NPM_FORWARDED_FLAGS :: "string list" where
  "NPM_FORWARDED_FLAGS = [''--passWithNoTests'', ''--run'', ''--runInBand'', ''--watch=false'']"

record ApprovedCommand =
  template_id :: string
  argv :: "string list"

subsection \<open>Selectors\<close>

definition safe_relative_selector :: "string \<Rightarrow> bool" where
  "safe_relative_selector selector \<longleftrightarrow>
     (if selector = [] \<or> \<not> SAFE_SELECTOR selector then False
      else if list_ex (startswith selector) [''/'', [CHR 0x5C], ''-''] \<or> CHR 0x5C \<in> set selector
      then False
      else \<not> list_ex (\<lambda>part. part \<in> set [[], ''..'']) (split_on CHR ''/'' selector))"

fun before_colons :: "string \<Rightarrow> string" where
  \<comment> \<open>\<open>s.split("::", 1)[0]\<close>\<close>
  "before_colons (c # d # s) =
     (if c = CHR '':'' \<and> d = CHR '':'' then [] else c # before_colons (d # s))"
| "before_colons s = s"

definition test_selector_problem :: "string \<Rightarrow> string option" where
  \<comment> \<open>\<open>_validate_test_selector\<close>\<close>
  "test_selector_problem selector =
     (let path = before_colons selector in
      if CHR '':'' \<in> set path \<or> \<not> safe_relative_selector path
      then Some (''unsafe test selector: '' @ selector)
      else let lowered = casefold path; basename = after_last CHR ''/'' lowered in
        if lowered = ''.'' \<or> lowered = ''tests'' \<or> startswith lowered ''tests/'' \<or>
           startswith basename ''test_'' \<or>
           list_ex (endswith basename)
             [''_test.py'', ''.test.ts'', ''.test.tsx'', ''.spec.ts'', ''.spec.tsx'']
        then None
        else Some (''test selector is outside registered test paths: '' @ selector))"

subsection \<open>The three families of commands\<close>

definition pytest_option :: "string \<Rightarrow> bool" where
  \<comment> \<open>the tokens \<open>_validate_pytest\<close> lets through with \<open>continue\<close>\<close>
  "pytest_option token \<longleftrightarrow>
     token \<in> set PYTEST_FLAGS \<or>
     (startswith token ''--maxfail='' \<and>
        (let value = drop 10 token in
         value \<noteq> [] \<and> list_all is_digit value \<and>
         1 \<le> nat_of_digits 0 value \<and> nat_of_digits 0 value \<le> 20)) \<or>
     (startswith token ''--tb='' \<and>
        drop 5 token \<in> set [''short'', ''line'', ''native'', ''no'']) \<or>
     (startswith token ''--color='' \<and> drop 8 token \<in> set [''yes'', ''no'', ''auto''])"

fun pytest_problem :: "string list \<Rightarrow> string option" where
  "pytest_problem [] = None"
| "pytest_problem (token # args) =
     (if pytest_option token then pytest_problem args
      else if startswith token ''-''
      then Some (''pytest argument is not allowlisted: '' @ token)
      else case test_selector_problem token of
        Some m \<Rightarrow> Some m
      | None \<Rightarrow> pytest_problem args)"

fun forwarded_problem :: "string list \<Rightarrow> string option" where
  \<comment> \<open>the loop of \<open>_validate_package_test\<close>\<close>
  "forwarded_problem [] = None"
| "forwarded_problem (token # args) =
     (if token \<in> set NPM_FORWARDED_FLAGS then forwarded_problem args
      else if startswith token ''-''
      then Some (''test runner argument is not allowlisted: '' @ token)
      else case test_selector_problem token of
        Some m \<Rightarrow> Some m
      | None \<Rightarrow> forwarded_problem args)"

definition package_test_problem :: "string list \<Rightarrow> string option" where
  "package_test_problem av =
     (if length av < 2 \<or> av ! 1 \<noteq> ''test''
      then Some ''package managers are only allowed with the test script''
      else if length av = 2 then None
      else if av ! 2 \<noteq> ''--''
      then Some (''test script arguments must follow an explicit '--'' @ [CHR 0x27])
      else forwarded_problem (drop 3 av))"

definition go_package :: "string \<Rightarrow> bool" where
  "go_package token \<longleftrightarrow>
     token = ''./...'' \<or>
     (startswith token ''./'' \<and> endswith token ''/...'' \<and>
      safe_relative_selector (take (length token - 4 - 2) (drop 2 token)))"

fun go_args_problem :: "bool \<Rightarrow> string list \<Rightarrow> string option" where
  \<comment> \<open>the loop of \<open>_validate_go_test\<close>, with \<open>package_seen\<close>\<close>
  "go_args_problem package_seen [] =
     (if package_seen then None else Some ''go test requires an explicit package selector'')"
| "go_args_problem package_seen (token # args) =
     (if token = ''-count=1'' then go_args_problem package_seen args
      else if startswith token ''-''
      then Some (''go test argument is not allowlisted: '' @ token)
      else if package_seen then Some ''go test accepts one package selector in demo mode''
      else if go_package token then go_args_problem True args
      else Some (''go test package must be './...' or './path/...'' @ [CHR 0x27]))"

definition go_test_problem :: "string list \<Rightarrow> string option" where
  "go_test_problem av =
     (if length av < 3 \<or> av ! 1 \<noteq> ''test''
      then Some ''go is only allowed with the test subcommand''
      else go_args_problem False (drop 2 av))"

subsection \<open>Normalisation and dispatch\<close>

definition shell_syntax :: "string \<Rightarrow> bool" where
  "shell_syntax token \<longleftrightarrow>
     CHR 0x00 \<in> set token \<or> contains_sub ''$('' token \<or>
     list_ex (\<lambda>c. c \<in> set SHELL_METACHARACTERS) token"

fun token_problem :: "string list \<Rightarrow> string option" where
  "token_problem [] = None"
| "token_problem (token # av) =
     (if \<not> (1 \<le> length token \<and> length token \<le> 4096)
      then Some ''every argv token must be a bounded string''
      else if shell_syntax token then Some ''shell syntax is not allowed in argv tokens''
      else token_problem av)"

definition bare_name :: "string \<Rightarrow> bool" where
  "bare_name executable \<longleftrightarrow>
     \<not> (list_ex (startswith executable) [''-'', ''@''] \<or> CHR ''/'' \<in> set executable \<or>
        CHR 0x5C \<in> set executable \<or> CHR '':'' \<in> set executable)"

definition normalize :: "string list \<Rightarrow> string + string list" where
  "normalize av =
     (if \<not> (1 \<le> length av \<and> length av \<le> 64) then Inl ''argv must contain 1..64 tokens''
      else case token_problem av of
        Some m \<Rightarrow> Inl m
      | None \<Rightarrow>
          (if \<not> bare_name (hd av) then Inl ''executable must be a registered bare name''
           else Inr av))"

definition approve :: "string option \<Rightarrow> string \<Rightarrow> string list \<Rightarrow> string + ApprovedCommand" where
  "approve problem template av =
     (case problem of Some m \<Rightarrow> Inl m | None \<Rightarrow> Inr \<lparr>template_id = template, argv = av\<rparr>)"

definition validate :: "string list \<Rightarrow> string + ApprovedCommand" where
  "validate av =
     (case normalize av of
        Inl m \<Rightarrow> Inl m
      | Inr normalized \<Rightarrow>
          (let executable = casefold (hd normalized) in
           if executable = ''pytest''
           then approve (pytest_problem (drop 1 normalized)) ''pytest'' normalized
           else if executable = ''python'' \<or> executable = ''python3''
           then (if length normalized < 3 \<or> take 2 (drop 1 normalized) \<noteq> [''-m'', ''pytest'']
                 then Inl (''python is only allowed as 'python -m pytest'' @ [CHR 0x27])
                 else approve (pytest_problem (drop 3 normalized)) ''python-pytest'' normalized)
           else if executable = ''npm'' \<or> executable = ''pnpm''
           then approve (package_test_problem normalized) (executable @ ''-test'') normalized
           else if executable = ''go''
           then approve (go_test_problem normalized) ''go-test'' normalized
           else Inl (''unregistered test executable: '' @ hd normalized)))"

fun validate_each :: "string list list \<Rightarrow> string list list \<Rightarrow> string + ApprovedCommand list" where
  \<comment> \<open>the loop of \<open>validate_many\<close>, with \<open>seen\<close>\<close>
  "validate_each seen [] = Inr []"
| "validate_each seen (candidate # candidates) =
     (case validate candidate of
        Inl m \<Rightarrow> Inl m
      | Inr command \<Rightarrow>
          (if argv command \<in> set seen then Inl ''duplicate command templates are not allowed''
           else case validate_each (argv command # seen) candidates of
             Inl m \<Rightarrow> Inl m
           | Inr approved \<Rightarrow> Inr (command # approved)))"

definition validate_many :: "nat \<Rightarrow> string list list \<Rightarrow> string + ApprovedCommand list" where
  "validate_many max_commands candidates =
     (if max_commands < length candidates
      then Inl (''command list exceeds '' @ nat_str max_commands @ '' entries'')
      else validate_each [] candidates)"

subsection \<open>The contract of a command gate\<close>

locale command_gate =
  fixes check :: "string list \<Rightarrow> string + ApprovedCommand"
    and many :: "nat \<Rightarrow> string list list \<Rightarrow> string + ApprovedCommand list"
  assumes check_argv: "check a = Inr c \<Longrightarrow> argv c = a"
    and many_iff: "many m cs = Inr out \<longleftrightarrow>
      length cs \<le> m \<and> distinct cs \<and> map check cs = map Inr out"
begin

lemma checked_argv: "map check cs = map Inr out \<Longrightarrow> map argv out = cs"
proof (induction cs arbitrary: out)
  case (Cons a cs)
  then show ?case using check_argv [of a] by (cases out) auto
qed simp

lemma many_argv: "many m cs = Inr out \<Longrightarrow> map argv out = cs"
  by (simp add: many_iff checked_argv)

lemma many_checked:
  assumes "many m cs = Inr out" and "a \<in> set cs"
  shows "\<exists>c \<in> set out. check a = Inr c \<and> argv c = a"
proof -
  have "check a \<in> set (map Inr out)" using assms unfolding many_iff by (metis image_eqI set_map)
  then show ?thesis using check_argv by auto
qed

lemma many_again: "many m cs = Inr out \<Longrightarrow> many m (map argv out) = Inr out"
  by (simp add: many_argv)

lemma many_total:
  assumes "length cs \<le> m" "distinct cs" "\<And>a. a \<in> set cs \<Longrightarrow> \<exists>c. check a = Inr c"
  shows "\<exists>out. many m cs = Inr out \<and> map argv out = cs"
proof -
  define out where "out = map (\<lambda>a. projr (check a)) cs"
  have "map check cs = map Inr out" unfolding out_def using assms(3) by fastforce
  then have "many m cs = Inr out" using assms by (simp add: many_iff)
  then show ?thesis using many_argv by blast
qed

lemma many_subset:
  assumes "many m cs = Inr out" "set ds \<subseteq> set cs" "distinct ds"
  shows "\<exists>out'. many m ds = Inr out' \<and> map argv out' = ds"
proof (rule many_total)
  have "distinct cs" "length cs \<le> m" using assms(1) by (simp_all add: many_iff)
  moreover have "card (set ds) \<le> card (set cs)" using assms(2) by (intro card_mono) auto
  ultimately show "length ds \<le> m" using assms(3) by (simp add: distinct_card)
  show "\<exists>c. check a = Inr c" if "a \<in> set ds" for a
    using many_checked [OF assms(1)] that assms(2) by blast
qed (rule assms(3))

end

lemma approve_Inr [simp]:
  "approve p t av = Inr c \<longleftrightarrow> p = None \<and> c = \<lparr>template_id = t, argv = av\<rparr>"
  by (auto simp: approve_def split: option.splits)

lemma normalize_Inr:
  "normalize av = Inr bv \<longleftrightarrow>
     bv = av \<and> 1 \<le> length av \<and> length av \<le> 64 \<and> token_problem av = None \<and> bare_name (hd av)"
  unfolding normalize_def by (auto split: option.splits)

lemma validate_InrD:
  assumes "validate av = Inr c"
  shows "normalize av = Inr av" and "argv c = av"
    and "casefold (hd av) \<in> {''pytest'', ''python'', ''python3'', ''npm'', ''pnpm'', ''go''}"
  using assms unfolding validate_def Let_def
  by (auto split: sum.splits if_splits simp: normalize_Inr simp del: casefold_idem)

lemma validate_each_iff:
  "validate_each seen cs = Inr out \<longleftrightarrow>
     distinct cs \<and> set cs \<inter> set seen = {} \<and> map validate cs = map Inr out"
proof (induction cs arbitrary: seen out)
  case (Cons a cs)
  show ?case
  proof (cases "validate a")
    case (Inr c)
    then show ?thesis
      using validate_InrD(2) [OF Inr] Cons.IH [of "a # seen" "tl out"]
      by (cases out; cases "validate_each (a # seen) cs") auto
  qed (auto simp: Cons_eq_map_conv)
qed auto

interpretation commands: command_gate validate validate_many
proof unfold_locales
  show "argv c = a" if "validate a = Inr c" for a c by (rule validate_InrD(2) [OF that])
  show "validate_many m cs = Inr out \<longleftrightarrow>
      length cs \<le> m \<and> distinct cs \<and> map validate cs = map Inr out" for m cs out
    by (auto simp: validate_many_def validate_each_iff)
qed

subsection \<open>What an accepted command can contain\<close>

definition contained_path :: "string \<Rightarrow> bool" where
  \<comment> \<open>the path stays below the directory the command runs in, and is not an option\<close>
  "contained_path path \<longleftrightarrow>
     path \<noteq> [] \<and> \<not> startswith path ''/'' \<and> \<not> startswith path ''-'' \<and> CHR 0x5C \<notin> set path \<and>
     (\<forall>part \<in> set (split_on CHR ''/'' path). part \<noteq> [] \<and> part \<noteq> ''..'')"

definition allowlisted_flag :: "string \<Rightarrow> bool" where
  "allowlisted_flag t \<longleftrightarrow>
     t \<in> set [''-m'', ''--'', ''-count=1''] \<or> t \<in> set NPM_FORWARDED_FLAGS \<or> pytest_option t"

definition harmless_argument :: "string \<Rightarrow> bool" where
  "harmless_argument t \<longleftrightarrow>
     allowlisted_flag t \<or> t \<in> set [''pytest'', ''test''] \<or>
     contained_path (before_colons t) \<or> contained_path t"

lemma safe_contained: "safe_relative_selector s \<Longrightarrow> contained_path s"
  unfolding safe_relative_selector_def contained_path_def
  by (auto split: if_splits simp: list_ex_iff)

lemma harmlessI:
  "pytest_option t \<Longrightarrow> harmless_argument t"
  "t \<in> set NPM_FORWARDED_FLAGS \<Longrightarrow> harmless_argument t"
  "test_selector_problem t = None \<Longrightarrow> harmless_argument t"
  "contained_path t \<Longrightarrow> harmless_argument t"
  unfolding harmless_argument_def allowlisted_flag_def test_selector_problem_def Let_def
  using safe_contained [of "before_colons t"] by (simp_all split: if_splits)

lemma harmless_words:
  "harmless_argument ''-m''" "harmless_argument ''--''" "harmless_argument ''-count=1''"
  "harmless_argument ''pytest''" "harmless_argument ''test''"
  by (simp_all add: harmless_argument_def allowlisted_flag_def)

lemma pytest_harmless: "pytest_problem ts = None \<Longrightarrow> list_all harmless_argument ts"
  by (induction ts) (auto split: if_splits option.splits intro: harmlessI)

lemma forwarded_harmless: "forwarded_problem ts = None \<Longrightarrow> list_all harmless_argument ts"
  by (induction ts) (auto split: if_splits option.splits intro: harmlessI)

lemma go_package_contained:
  assumes "go_package t"
  shows "contained_path t"
proof (cases "t = ''./...''")
  case True
  then show ?thesis by (simp add: contained_path_def)
next
  case False
  define mid where "mid = take (length t - 4 - 2) (drop 2 t)"
  have pre: "startswith t ''./''" "endswith t ''/...''" and safe: "safe_relative_selector mid"
    using assms False by (auto simp: go_package_def mid_def)
  from pre(2) obtain u where u: "t = u @ ''/...''" by (auto simp: endswith_iff)
  have "mid \<noteq> []" using safe by (auto simp: safe_relative_selector_def)
  then have "2 < length u" unfolding mid_def u by auto
  then obtain v where v: "u = ''./'' @ v" "mid = v"
    using pre(1) unfolding mid_def u by (cases u; cases "tl u") (auto simp: startswith_def)
  have t: "t = CHR ''.'' # CHR ''/'' # mid @ CHR ''/'' # ''...''" using u v by simp
  have "split_on CHR ''/'' t = [''.''] @ split_on CHR ''/'' mid @ [''...'']"
    using split_on_append [of "CHR ''/''" "''.''" "mid @ CHR ''/'' # ''...''"]
      split_on_append [of "CHR ''/''" mid "''...''"]
    unfolding t by simp
  then show ?thesis
    using safe_contained [OF safe] unfolding contained_path_def by (auto simp: t)
qed

lemma go_args_harmless: "go_args_problem b ts = None \<Longrightarrow> list_all harmless_argument ts"
  by (induction b ts rule: go_args_problem.induct)
    (auto split: if_splits intro: harmlessI(4) go_package_contained harmless_words)

lemma package_test_harmless:
  assumes "package_test_problem av = None"
  shows "list_all harmless_argument (tl av)"
proof -
  from assms obtain x rest where av: "av = x # ''test'' # rest"
    by (cases av; cases "tl av") (auto simp: package_test_problem_def split: if_splits)
  then show ?thesis
    using assms forwarded_harmless [of "tl rest"] harmless_words
    by (cases rest) (auto simp: package_test_problem_def split: if_splits)
qed

lemma go_test_harmless:
  assumes "go_test_problem av = None"
  shows "list_all harmless_argument (tl av)"
proof -
  from assms obtain x rest where av: "av = x # ''test'' # rest"
    by (cases av; cases "tl av") (auto simp: go_test_problem_def split: if_splits)
  then show ?thesis
    using assms go_args_harmless [of False rest] harmless_words
    by (auto simp: go_test_problem_def split: if_splits)
qed

lemma token_problem_None:
  "token_problem av = None \<longleftrightarrow>
     (\<forall>t \<in> set av. 1 \<le> length t \<and> length t \<le> 4096 \<and> \<not> shell_syntax t)"
  by (induction av) auto

lemma validate_harmless:
  assumes "validate av = Inr c"
  shows "list_all harmless_argument (tl av)"
proof -
  have n: "normalize av = Inr av" by (rule validate_InrD(1) [OF assms])
  have "pytest_problem (tl av) = None \<or>
      (3 \<le> length av \<and> take 2 (tl av) = [''-m'', ''pytest''] \<and> pytest_problem (drop 3 av) = None) \<or>
      package_test_problem av = None \<or> go_test_problem av = None"
    using assms unfolding validate_def n Let_def sum.case
    by (simp add: drop_Suc split: if_splits)
  then show ?thesis
  proof (elim disjE conjE)
    assume len: "3 \<le> length av" and two: "take 2 (tl av) = [''-m'', ''pytest'']"
      and rest: "pytest_problem (drop 3 av) = None"
    have "tl av = take 2 (tl av) @ drop 3 av"
      by (metis append_take_drop_id drop_Suc numeral_3_eq_3 numeral_2_eq_2)
    then have "tl av = [''-m'', ''pytest''] @ drop 3 av" using two by simp
    then show ?thesis using pytest_harmless [OF rest] harmless_words by simp
  qed (use pytest_harmless package_test_harmless go_test_harmless in auto)
qed

subsection \<open>Properties\<close>

definition registered_executables :: "string list" where
  "registered_executables = [''pytest'', ''python'', ''python3'', ''npm'', ''pnpm'', ''go'']"

text \<open>
  C32: the commands \<open>CommandGuard.validate_many\<close> accepts are the candidates themselves, in
  order, pairwise different and at most \<open>max_commands\<close>; each runs a registered bare
  executable, has 1 to 64 bounded tokens free of shell syntax, and every argument is an
  allowlisted flag, the test subcommand, or a selector that cannot leave the directory it runs
  in.
\<close>

theorem accepted_commands_are_safe:
  assumes "validate_many m cs = Inr out"
  shows "map argv out = cs \<and> length cs \<le> m \<and> distinct cs \<and>
    (\<forall>a \<in> set cs. 1 \<le> length a \<and> length a \<le> 64 \<and> bare_name (hd a) \<and>
       casefold (hd a) \<in> set registered_executables \<and>
       (\<forall>t \<in> set a. 1 \<le> length t \<and> length t \<le> 4096 \<and> \<not> shell_syntax t) \<and>
       list_all harmless_argument (tl a))"
proof -
  have "1 \<le> length a \<and> length a \<le> 64 \<and> bare_name (hd a) \<and>
       casefold (hd a) \<in> set registered_executables \<and>
       (\<forall>t \<in> set a. 1 \<le> length t \<and> length t \<le> 4096 \<and> \<not> shell_syntax t) \<and>
       list_all harmless_argument (tl a)" if in_cs: "a \<in> set cs" for a
  proof -
    obtain c where c: "validate a = Inr c" using commands.many_checked [OF assms in_cs] by blast
    show ?thesis
      using validate_InrD [OF c] validate_harmless [OF c]
      by (simp only: normalize_Inr token_problem_None registered_executables_def) simp
  qed
  then show ?thesis
    using commands.many_argv [OF assms] assms by (simp only: commands.many_iff) blast
qed

lemma accepted_commands_are_safe_witness:
  "validate_many 20 [[''pytest'', ''-q''], [''go'', ''test'', ''./...'']] =
     Inr [\<lparr>template_id = ''pytest'', argv = [''pytest'', ''-q'']\<rparr>,
          \<lparr>template_id = ''go-test'', argv = [''go'', ''test'', ''./...'']\<rparr>] \<and>
   list_all harmless_argument [''test'', ''./...'']"
proof -
  have *: "validate_many 20 [[''pytest'', ''-q''], [''go'', ''test'', ''./...'']] =
     Inr [\<lparr>template_id = ''pytest'', argv = [''pytest'', ''-q'']\<rparr>,
          \<lparr>template_id = ''go-test'', argv = [''go'', ''test'', ''./...'']\<rparr>]"
    by code_simp
  have "[''go'', ''test'', ''./...''] \<in> set [[''pytest'', ''-q''], [''go'', ''test'', ''./...'']]"
    by simp
  then have "list_all harmless_argument (tl [''go'', ''test'', ''./...''])"
    using accepted_commands_are_safe [OF *] by blast
  then show ?thesis using * by simp
qed

text \<open>
  A selection of accepted commands is accepted again: any repetition-free sub-list of a list
  \<open>validate_many\<close> accepted passes it, unchanged, which is what the compiler and the executable
  validator rely on when they check the same templates a second time.
\<close>

theorem accepted_commands_stay_accepted:
  assumes "validate_many m cs = Inr out" and "set ds \<subseteq> set cs" and "distinct ds"
  shows "\<exists>out'. validate_many m ds = Inr out' \<and> map argv out' = ds"
  by (rule commands.many_subset [OF assms])

lemma accepted_commands_stay_accepted_witness:
  "\<exists>out'. validate_many 20 [[''go'', ''test'', ''./...'']] = Inr out' \<and>
     map argv out' = [[''go'', ''test'', ''./...'']]"
proof (rule accepted_commands_stay_accepted)
  show "validate_many 20 [[''pytest'', ''-q''], [''go'', ''test'', ''./...'']] =
     Inr [\<lparr>template_id = ''pytest'', argv = [''pytest'', ''-q'']\<rparr>,
          \<lparr>template_id = ''go-test'', argv = [''go'', ''test'', ''./...'']\<rparr>]"
    by code_simp
qed simp_all

end
