(* ===== verification/Compiler.thy ===== *)
theory Compiler
  imports Draft_Validation Router Risk Command_Guard
begin

text \<open>
  \<open>workflow/compiler.py\<close>: the compilation of a validated author graph into an executable one,
  and the injector that seals every write task into a chain of guard, test, risk, approval and
  merge nodes. SHA-256 is a parameter \<open>H\<close> from text to its hexadecimal digest; the ids of
  injected nodes and edges are taken from it exactly as the code does.
\<close>

subsection \<open>System ids, nodes and edges\<close>

definition NUL :: string where
  "NUL = [CHR 0x00]"

definition system_id :: "(string \<Rightarrow> string) \<Rightarrow> string \<Rightarrow> string \<Rightarrow> nat \<Rightarrow> string" where
  "system_id H source_id rule ordinal =
     ''sys-'' @ take 20 (H (source_id @ NUL @ rule @ NUL @ nat_str ordinal))"

definition system_edge ::
  "(string \<Rightarrow> string) \<Rightarrow> string \<Rightarrow> string \<Rightarrow> string \<Rightarrow> string \<Rightarrow> nat \<Rightarrow> EdgeCondition \<Rightarrow> WorkflowEdge" where
  "system_edge H from_id to_id source_id rule ordinal cond =
     \<lparr>edge_id = ''sys-edge-'' @ take 20 (H (source_id @ NUL @ rule @ NUL @ nat_str ordinal @ NUL @
        from_id @ NUL @ to_id @ NUL @ EdgeCondition_value cond)),
      from_node = from_id, to_node = to_id, condition = cond, edge_system_managed = True\<rparr>"

subsection \<open>Documentation-only tasks\<close>

definition DOC_EXTENSIONS :: "string list" where
  "DOC_EXTENSIONS = [''.md'', ''.mdx'', ''.rst'', ''.txt'']"

definition SENSITIVE_DOC_STEMS :: "string list" where
  "SENSITIVE_DOC_STEMS = [''requirements'', ''constraints'', ''manifest'', ''config'', ''policy'']"

definition SENSITIVE_DOC_NAMES :: "string list" where
  "SENSITIVE_DOC_NAMES = [''package.json'', ''pyproject.toml'']"

definition is_doc_path :: "string \<Rightarrow> bool" where
  "is_doc_path value \<longleftrightarrow>
     (let stem = casefold (posix_stem value) in
      casefold (posix_suffix value) \<in> set DOC_EXTENSIONS \<and>
      \<not> (casefold (posix_name value) \<in> set SENSITIVE_DOC_NAMES \<or>
         list_ex (\<lambda>token. stem = token \<or> startswith stem (token @ ''-'') \<or>
                    startswith stem (token @ ''_'')) SENSITIVE_DOC_STEMS))"

definition effective_paths :: "WorkflowNode \<Rightarrow> string list" where
  "effective_paths n = opt_list (effective_allowed_files n) @ opt_list (effective_new_files n)"

definition is_docs_static :: "WorkflowNode \<Rightarrow> bool" where
  "is_docs_static n \<longleftrightarrow>
     (if task_kind n \<noteq> Some TaskKind.DOCS then False
      else if opt_list (effective_allowed_commands n) \<noteq> [] then False
      else if effective_paths n = [] then False
      else list_all is_doc_path (effective_paths n))"

subsection \<open>The chain of one write task\<close>

record ChainStep =
  step_type :: NodeType
  step_rule :: string
  step_title :: string
  step_test_kind :: "TestKind option"
  step_test_argv :: "string list option"

definition plain_step :: "NodeType \<Rightarrow> string \<Rightarrow> string \<Rightarrow> ChainStep" where
  "plain_step t rule ttl =
     \<lparr>step_type = t, step_rule = rule, step_title = ttl, step_test_kind = None, step_test_argv = None\<rparr>"

definition command_steps :: "nat \<Rightarrow> string list \<Rightarrow> ChainStep list" where
  "command_steps index av =
     [plain_step COMMAND_GUARD (''write.command_guard.'' @ nat_str index @ ''.v1'')
        (''Validate test command '' @ nat_str index),
      \<lparr>step_type = TEST, step_rule = ''write.command_test.'' @ nat_str index @ ''.v1'',
       step_title = ''Run approved test '' @ nat_str index,
       step_test_kind = Some COMMAND, step_test_argv = Some av\<rparr>]"

fun commands_steps :: "nat \<Rightarrow> string list list \<Rightarrow> ChainStep list" where
  \<comment> \<open>\<open>enumerate(commands, start=index)\<close>\<close>
  "commands_steps index [] = []"
| "commands_steps index (av # avs) = command_steps index av @ commands_steps (index + 1) avs"

definition test_steps :: "WorkflowNode \<Rightarrow> ChainStep list" where
  "test_steps source =
     (let commands = opt_list (effective_allowed_commands source) in
      if is_docs_static source
      then [\<lparr>step_type = TEST, step_rule = ''write.docs_static_test.v1'',
             step_title = ''Validate documentation files'',
             step_test_kind = Some DOCS_STATIC, step_test_argv = None\<rparr>]
      else if commands \<noteq> [] then commands_steps 1 commands
      else [plain_step COMMAND_GUARD ''write.command_guard.missing.v1''
              ''Require an approved test command'',
            \<lparr>step_type = TEST, step_rule = ''write.command_test.missing.v1'',
             step_title = ''Blocked: approved test command missing'',
             step_test_kind = Some COMMAND, step_test_argv = None\<rparr>])"

definition chain_steps :: "WorkflowNode \<Rightarrow> ChainStep list" where
  "chain_steps source =
     [plain_step PATCH_GUARD ''write.patch_guard.v1'' ''Validate task patch''] @
     test_steps source @
     [plain_step RISK_CLASSIFIER ''write.risk_classifier.v1'' ''Classify final change risk'',
      plain_step APPROVAL ''write.changeset_approval.v1'' ''Approve final change set'',
      plain_step MERGE_PATCH ''write.merge_patch.v1'' ''Merge approved patch'']"

definition chain_node :: "(string \<Rightarrow> string) \<Rightarrow> WorkflowNode \<Rightarrow> nat \<Rightarrow> ChainStep \<Rightarrow> WorkflowNode" where
  \<comment> \<open>\<open>add_node\<close>\<close>
  "chain_node H source ordinal s =
     (new_node (system_id H (node_id source) (step_rule s) ordinal) (step_type s) (step_title s))
       \<lparr>system_managed := True, source_node_id := Some (node_id source),
        system_rule_id := Some (step_rule s), policy_risk_floor := policy_risk_floor source,
        test_kind := step_test_kind s, test_argv := step_test_argv s\<rparr>"

fun number_steps ::
  "(string \<Rightarrow> string) \<Rightarrow> WorkflowNode \<Rightarrow> nat \<Rightarrow> ChainStep list \<Rightarrow> WorkflowNode list" where
  "number_steps H source ordinal [] = []"
| "number_steps H source ordinal (s # ss) =
     chain_node H source ordinal s # number_steps H source (ordinal + 1) ss"

definition chain_nodes :: "(string \<Rightarrow> string) \<Rightarrow> WorkflowNode \<Rightarrow> WorkflowNode list" where
  "chain_nodes H source = number_steps H source 1 (chain_steps source)"

fun pair_edges :: "(string \<Rightarrow> string) \<Rightarrow> string \<Rightarrow> nat \<Rightarrow> WorkflowNode list \<Rightarrow> WorkflowEdge list" where
  \<comment> \<open>\<open>enumerate(pairwise(sequence), start=index)\<close>\<close>
  "pair_edges H source_id index (l # r # ns) =
     system_edge H (node_id l) (node_id r) source_id ''chain'' index
       (if node_type l = APPROVAL then APPROVED else SUCCESS) #
     pair_edges H source_id (index + 1) (r # ns)"
| "pair_edges H source_id index _ = []"

fun failure_edges ::
  "(string \<Rightarrow> string) \<Rightarrow> string \<Rightarrow> string \<Rightarrow> nat \<Rightarrow> WorkflowNode list \<Rightarrow> WorkflowEdge list" where
  "failure_edges H source_id output_id index [] = []"
| "failure_edges H source_id output_id index (n # ns) =
     (if node_type n = APPROVAL then []
      else [system_edge H (node_id n) output_id source_id ''failure-output'' index FAILURE]) @
     failure_edges H source_id output_id (index + 1) ns"

fun resume_edges ::
  "(string \<Rightarrow> string) \<Rightarrow> string \<Rightarrow> string \<Rightarrow> nat \<Rightarrow> WorkflowEdge list \<Rightarrow> WorkflowEdge list" where
  "resume_edges H source_id merge_id index [] = []"
| "resume_edges H source_id merge_id index (e # es) =
     system_edge H merge_id (to_node e) source_id ''resume-success'' index SUCCESS #
     resume_edges H source_id merge_id (index + 1) es"

definition chain_edges ::
  "(string \<Rightarrow> string) \<Rightarrow> WorkflowNode \<Rightarrow> WorkflowEdge list \<Rightarrow> string \<Rightarrow> WorkflowEdge list" where
  "chain_edges H source original_success output_id =
     (let chain = chain_nodes H source; i = node_id source;
          merge = last chain; approval = last (butlast chain)
      in [system_edge H i (node_id (hd chain)) i ''enter'' 0 SUCCESS] @
         pair_edges H i 1 chain @
         [system_edge H (node_id approval) output_id i ''approval-rejected'' 0 REJECTED] @
         failure_edges H i output_id 1 chain @
         (if original_success \<noteq> [] then resume_edges H i (node_id merge) 1 original_success
          else [system_edge H (node_id merge) output_id i ''finish'' 0 SUCCESS]))"

definition chain_errors :: "WorkflowNode \<Rightarrow> ValidationIssue list" where
  "chain_errors source =
     report_if (\<not> is_docs_static source \<and> opt_list (effective_allowed_commands source) = [])
       (node_issue ''test_command_missing''
          ''write task has no approved test command candidate'' source)"

definition build_chain ::
  "(string \<Rightarrow> string) \<Rightarrow> WorkflowNode \<Rightarrow> WorkflowEdge list \<Rightarrow> string \<Rightarrow>
     py_error + (WorkflowNode list \<times> WorkflowEdge list \<times> ValidationIssue list)" where
  "build_chain H source original_success output_id =
     (if task_kind source = None then Inl AssertionError
      else Inr (chain_nodes H source, chain_edges H source original_success output_id,
                chain_errors source))"

subsection \<open>The injector\<close>

definition is_write_task :: "WorkflowNode \<Rightarrow> bool" where
  "is_write_task n \<longleftrightarrow> node_type n = AGENT_TASK \<and> requires_write n"

definition success_edges :: "string \<Rightarrow> WorkflowEdge list \<Rightarrow> WorkflowEdge list" where
  "success_edges i es = sort_key edge_id (filter (\<lambda>e. from_node e = i \<and> condition e = SUCCESS) es)"

fun inject_each ::
  "(string \<Rightarrow> string) \<Rightarrow> string \<Rightarrow> WorkflowNode list \<Rightarrow> WorkflowNode list \<Rightarrow> WorkflowEdge list \<Rightarrow>
     ValidationIssue list \<Rightarrow>
     py_error + (WorkflowNode list \<times> WorkflowEdge list \<times> ValidationIssue list)" where
  "inject_each H output_id [] ns es errs = Inr (ns, es, errs)"
| "inject_each H output_id (source # sources) ns es errs =
     (let original_success = success_edges (node_id source) es;
          kept = filter (\<lambda>e. e \<notin> set original_success) es
      in case build_chain H source original_success output_id of
           Inl x \<Rightarrow> Inl x
         | Inr (cn, ce, cerr) \<Rightarrow>
             inject_each H output_id sources (ns @ cn) (kept @ ce) (errs @ cerr))"

definition inject ::
  "(string \<Rightarrow> string) \<Rightarrow> WorkflowNode list \<Rightarrow> WorkflowEdge list \<Rightarrow>
     py_error + (WorkflowNode list \<times> WorkflowEdge list \<times> ValidationIssue list)" where
  "inject H ns es =
     (case filter (\<lambda>n. node_type n = OUTPUT) ns of
        [out] \<Rightarrow> inject_each H (node_id out) (sort_key node_id (filter is_write_task ns)) ns es []
      | _ \<Rightarrow> Inr (ns, es, []))"

subsection \<open>Compilation\<close>

record CompilerConfig =
  cfg_catalog :: AgentCatalog
  cfg_policy_version :: string
  cfg_path_policy :: "(string list \<Rightarrow> string list \<Rightarrow> string + ValidatedScope) option"
  cfg_command_guard :: bool

definition valid_config :: "CompilerConfig \<Rightarrow> bool" where
  \<comment> \<open>the \<open>ValueError\<close> of \<open>__init__\<close>\<close>
  "valid_config cfg \<longleftrightarrow> cfg_policy_version cfg \<noteq> [] \<and> length (cfg_policy_version cfg) \<le> 64"

record CompilationResult =
  result_graph :: "CompiledGraph option"
  compiled_hash :: "string option"
  result_source_hash :: string
  result_errors :: "ValidationIssue list"
  result_warnings :: "ValidationIssue list"

definition compilation_ok :: "CompilationResult \<Rightarrow> bool" where
  "compilation_ok r \<longleftrightarrow> result_graph r \<noteq> None \<and> result_errors r = []"

definition compile_scope ::
  "CompilerConfig \<Rightarrow> WorkflowNode \<Rightarrow> string + (string list \<times> string list)" where
  "compile_scope cfg n =
     (case cfg_path_policy cfg of
        None \<Rightarrow> Inr (sorted_set (allowed_files_candidate n), sorted_set (new_files_candidate n))
      | Some policy \<Rightarrow>
          (case policy (allowed_files_candidate n) (new_files_candidate n) of
             Inl m \<Rightarrow> Inl m
           | Inr scope \<Rightarrow> Inr (existing_files scope, new_files scope)))"

definition compile_commands ::
  "CompilerConfig \<Rightarrow> WorkflowNode \<Rightarrow> ValidationIssue + string list list" where
  "compile_commands cfg n =
     (let commands = normalize_command_templates [] (allowed_commands_candidate n) in
      if cfg_command_guard cfg
      then (case validate_many 20 commands of
              Inl m \<Rightarrow> Inl (node_issue ''command_guard_rejected'' m n)
            | Inr approved \<Rightarrow> Inr (map argv approved))
      else if 20 < length commands
      then Inl (node_issue ''effective_command_scope_limit''
             ''compiled command scope cannot exceed 20 argv templates'' n)
      else Inr commands)"

definition policy_floor :: "WorkflowNode \<Rightarrow> string list \<Rightarrow> RiskLevel" where
  "policy_floor n paths =
     max_risk
       (max_risk (risk_level_hint n)
         (if requires_write n then effective_risk (classify_paths paths) else L0))
       (if requires_write n then L1 else L0)"

definition recommendations :: "RoutingResult \<Rightarrow> AgentRecommendation list" where
  "recommendations r =
     sort_key rec_agent_id
       (map (\<lambda>s. \<lparr>rec_agent_id = score_agent_id s, rec_score = score_value s,
                  rec_reason = score_reason s\<rparr>) (ranked_candidates r))"

definition compile_node ::
  "CompilerConfig \<Rightarrow> WorkflowNode \<Rightarrow> ValidationIssue list \<times> WorkflowNode list" where
  \<comment> \<open>the body of the loop over the nodes: the issues it appends, the node it keeps\<close>
  "compile_node cfg n =
     (if node_type n \<noteq> AGENT_TASK then ([], [n])
      else let routed = route (cfg_catalog cfg) n in
        if decision routed \<noteq> ASSIGNED
        then ([node_issue ''agent_unavailable''
                 (case blocked_reason routed of
                    Some (x # xs) \<Rightarrow> x # xs | _ \<Rightarrow> ''agent routing failed'') n], [])
        else case compile_scope cfg n of
          Inl m \<Rightarrow> ([node_issue ''path_policy_rejected'' m n], [])
        | Inr (existing, new) \<Rightarrow>
            (if 100 < length existing + length new
             then ([node_issue ''effective_file_scope_limit''
                      ''compiled file scope cannot exceed 100 exact paths'' n], [])
             else case compile_commands cfg n of
               Inl i \<Rightarrow> ([i], [])
             | Inr commands \<Rightarrow>
                 (let floor = policy_floor n (existing @ new) in
                  (report_if (requires_write n \<and> existing = [] \<and> new = [])
                     (node_issue ''write_scope_empty''
                        ''write task requires at least one exact existing or new file'' n) @
                   report_if (floor = L4)
                     (node_issue ''l4_risk_rejected'' ''L4 tasks are rejected by policy'' n),
                   [n\<lparr>resolved_agent_id := result_agent_id routed,
                      resolved_agent_spec_sha256 := result_spec_sha256 routed,
                      recommended_agents := recommendations routed,
                      effective_allowed_files := Some existing,
                      effective_new_files := Some new,
                      effective_allowed_commands := Some commands,
                      policy_risk_floor := Some floor,
                      requires_changeset_approval := Some (requires_write n)\<rparr>]))))"

definition compiled_constructible :: "CompiledGraph \<Rightarrow> bool" where
  \<comment> \<open>what the constructor of \<open>CompiledGraph\<close> checks; the nodes and edges are instances already\<close>
  "compiled_constructible g \<longleftrightarrow>
     is_sha256_hex (source_author_hash g) \<and> is_git_object_id (integration_base_commit g) \<and>
     1 \<le> length (policy_version g) \<and> length (policy_version g) \<le> 64 \<and>
     is_sha256_hex (agent_catalog_snapshot_hash g) \<and>
     length (compiled_nodes g) \<le> 300 \<and> length (compiled_edges g) \<le> 600"

definition seal ::
  "(string \<Rightarrow> string) \<Rightarrow> CompilerConfig \<Rightarrow> string \<Rightarrow> string \<Rightarrow> AuthorGraph \<Rightarrow> WorkflowNode list \<Rightarrow>
     ValidationIssue list \<Rightarrow> py_error + CompilationResult" where
  \<comment> \<open>the end of \<open>compile\<close>: injection and construction of the compiled graph\<close>
  "seal H cfg base_commit_id source_hash author ns warnings =
     (case inject H ns (edges author) of
        Inl x \<Rightarrow> Inl x
      | Inr (injected_nodes, injected_edges, injection_errors) \<Rightarrow>
          (let graph =
             \<lparr>compiled_schema_version = CONTRACT_VERSION, source_author_hash = source_hash,
              integration_base_commit = base_commit_id, policy_version = cfg_policy_version cfg,
              agent_catalog_snapshot_hash = catalog_hash (cfg_catalog cfg),
              compiled_nodes = sort_key node_id injected_nodes,
              compiled_edges = sort_key edge_id injected_edges\<rparr>
           in if \<not> list_all issue_constructible injection_errors \<or> \<not> compiled_constructible graph
              then Inl ValidationError
              else Inr \<lparr>result_graph = Some graph,
                        compiled_hash = Some (H (canonical_compiled graph)),
                        result_source_hash = source_hash, result_errors = injection_errors,
                        result_warnings = warnings\<rparr>))"

definition compile ::
  "(string \<Rightarrow> string) \<Rightarrow> CompilerConfig \<Rightarrow> AuthorGraph \<Rightarrow> string \<Rightarrow> py_error + CompilationResult" where
  "compile H cfg author base_commit_id =
     (case validate_draft author True of
        Inl x \<Rightarrow> Inl x
      | Inr report \<Rightarrow>
          (let normalized = normalize_author_graph author;
               source_hash = H (canonical_author normalized)
           in if \<not> ok report
              then Inr \<lparr>result_graph = None, compiled_hash = None, result_source_hash = source_hash,
                        result_errors = report_errors report,
                        result_warnings = report_warnings report\<rparr>
              else let steps = map (compile_node cfg) (nodes normalized);
                       errors = concat (map fst steps)
                in if \<not> list_all issue_constructible errors then Inl ValidationError
                   else if errors \<noteq> []
                   then Inr \<lparr>result_graph = None, compiled_hash = None,
                             result_source_hash = source_hash, result_errors = errors,
                             result_warnings = report_warnings report\<rparr>
                   else seal H cfg base_commit_id source_hash normalized (concat (map snd steps))
                          (report_warnings report)))"

subsection \<open>What compilation guarantees\<close>

lemma number_steps_types: "map node_type (number_steps H s k steps) = map step_type steps"
  by (induction steps arbitrary: k) (simp_all add: chain_node_def new_node_def)

definition chain_types :: "NodeType list" where
  "chain_types = [PATCH_GUARD, COMMAND_GUARD, TEST, RISK_CLASSIFIER, APPROVAL, MERGE_PATCH]"

lemma commands_steps_types: "step_type ` set (commands_steps k cs) \<subseteq> {COMMAND_GUARD, TEST}"
  by (induction k cs rule: commands_steps.induct) (auto simp: command_steps_def plain_step_def)

lemma chain_nodes_types: "n \<in> set (chain_nodes H s) \<Longrightarrow> node_type n \<in> set chain_types"
proof -
  assume "n \<in> set (chain_nodes H s)"
  then have "node_type n \<in> set (map node_type (chain_nodes H s))" by simp
  then have "node_type n \<in> step_type ` set (chain_steps s)"
    unfolding chain_nodes_def number_steps_types by simp
  then show ?thesis
    using commands_steps_types [of 1 "opt_list (effective_allowed_commands s)"]
    by (auto simp: chain_steps_def test_steps_def plain_step_def Let_def chain_types_def split: if_splits)
qed

lemma inject_each_nodes:
  "inject_each H out ss ns es errs = Inr (ns', es', errs') \<Longrightarrow>
     \<exists>cs. ns' = ns @ cs \<and> (\<forall>n \<in> set cs. node_type n \<in> set chain_types)"
proof (induction ss arbitrary: ns es errs)
  case (Cons s ss)
  then obtain cn ce cerr where b: "build_chain H s (success_edges (node_id s) es) out = Inr (cn, ce, cerr)"
    by (cases "build_chain H s (success_edges (node_id s) es) out") (auto simp: Let_def)
  then have cn: "cn = chain_nodes H s" by (simp add: build_chain_def split: if_splits)
  from Cons.prems b obtain cs where "ns' = (ns @ cn) @ cs" "\<forall>n \<in> set cs. node_type n \<in> set chain_types"
    using Cons.IH by (fastforce simp: Let_def)
  then show ?case using cn chain_nodes_types by auto
qed simp

lemma inject_nodes:
  assumes "inject H ns es = Inr (ns', es', errs)" and "n \<in> set ns'" and "node_type n = AGENT_TASK"
  shows "n \<in> set ns"
proof -
  have "\<exists>cs. ns' = ns @ cs \<and> (\<forall>n \<in> set cs. node_type n \<in> set chain_types)"
    using assms(1) inject_each_nodes by (auto simp: inject_def split: list.splits)
  moreover have "AGENT_TASK \<notin> set chain_types" by (simp add: chain_types_def)
  ultimately show ?thesis using assms(2,3) by (metis Un_iff set_append)
qed

lemma compile_graphD:
  assumes "compile H cfg author b = Inr r" and "result_graph r = Some g"
  obtains rep where "validate_draft author True = Inr rep" "ok rep"
    "\<forall>n \<in> set (nodes (normalize_author_graph author)). fst (compile_node cfg n) = []"
    "seal H cfg b (H (canonical_author (normalize_author_graph author))) (normalize_author_graph author)
       (concat (map (\<lambda>n. snd (compile_node cfg n)) (nodes (normalize_author_graph author))))
       (report_warnings rep) = Inr r"
  using assms unfolding compile_def Let_def
  by (auto split: sum.splits if_splits simp: comp_def)

lemma seal_graphD:
  assumes "seal H cfg b h author ns w = Inr r" and "result_graph r = Some g"
  obtains ns' es' errs where "inject H ns (edges author) = Inr (ns', es', errs)"
    "compiled_nodes g = sort_key node_id ns'" "compiled_edges g = sort_key edge_id es'"
    "result_errors r = errs" "compiled_constructible g"
  using assms unfolding seal_def Let_def
  by (auto split: sum.splits if_splits prod.splits)

lemma compile_node_agent:
  assumes "fst (compile_node cfg n) = []" and "m \<in> set (snd (compile_node cfg n))" and "node_type n = AGENT_TASK"
  shows "\<exists>existing new commands. decision (route (cfg_catalog cfg) n) = ASSIGNED \<and>
    compile_scope cfg n = Inr (existing, new) \<and> length existing + length new \<le> 100 \<and>
    compile_commands cfg n = Inr commands \<and> policy_floor n (existing @ new) \<noteq> L4 \<and>
    (requires_write n \<longrightarrow> existing @ new \<noteq> []) \<and>
    m = n\<lparr>resolved_agent_id := result_agent_id (route (cfg_catalog cfg) n),
          resolved_agent_spec_sha256 := result_spec_sha256 (route (cfg_catalog cfg) n),
          recommended_agents := recommendations (route (cfg_catalog cfg) n),
          effective_allowed_files := Some existing, effective_new_files := Some new,
          effective_allowed_commands := Some commands,
          policy_risk_floor := Some (policy_floor n (existing @ new)),
          requires_changeset_approval := Some (requires_write n)\<rparr>"
proof -
  have a: "decision (route (cfg_catalog cfg) n) = ASSIGNED"
    using assms by (simp add: compile_node_def Let_def split: if_splits)
  obtain existing new where sc: "compile_scope cfg n = Inr (existing, new)"
    using assms a by (cases "compile_scope cfg n") (auto simp: compile_node_def Let_def)
  have len: "length existing + length new \<le> 100"
    using assms a sc by (simp add: compile_node_def Let_def split: if_splits)
  obtain commands where c: "compile_commands cfg n = Inr commands"
    using assms a sc len by (cases "compile_commands cfg n") (simp_all add: compile_node_def Let_def)
  show ?thesis
    using assms a sc len c by (simp add: compile_node_def Let_def split: if_splits)
qed

lemma policy_floor_le:
  "policy_floor n ps \<le> r \<longleftrightarrow> risk_level_hint n \<le> r \<and>
     (requires_write n \<longrightarrow> effective_risk (classify_paths ps) \<le> r \<and> L1 \<le> r)"
  by (simp add: policy_floor_def)

lemma compile_commands_Inr:
  assumes "compile_commands cfg n = Inr commands"
  shows "set commands \<subseteq> set (allowed_commands_candidate n)" "length commands \<le> 20" "distinct commands"
    and "cfg_command_guard cfg \<Longrightarrow> \<exists>out. validate_many 20 commands = Inr out"
proof -
  have "commands = dedup (allowed_commands_candidate n) \<and> length commands \<le> 20 \<and>
      (cfg_command_guard cfg \<longrightarrow> (\<exists>out. validate_many 20 commands = Inr out))"
  proof (cases "cfg_command_guard cfg")
    case True
    then obtain out where out: "validate_many 20 (dedup (allowed_commands_candidate n)) = Inr out"
      and c: "commands = map argv out"
      using assms by (cases "validate_many 20 (dedup (allowed_commands_candidate n))")
        (simp_all add: compile_commands_def)
    have "commands = dedup (allowed_commands_candidate n)" using commands.many_argv [OF out] c by simp
    then show ?thesis using out commands.many_iff [of 20 commands out] by simp
  next
    case False
    then show ?thesis using assms by (simp add: compile_commands_def Let_def split: if_splits)
  qed
  then show "set commands \<subseteq> set (allowed_commands_candidate n)" "length commands \<le> 20"
    "distinct commands" "cfg_command_guard cfg \<Longrightarrow> \<exists>out. validate_many 20 commands = Inr out"
    by auto
qed

lemma compiled_agent_node:
  assumes "compile H cfg author b = Inr r" and "result_graph r = Some g"
    and "m \<in> set (compiled_nodes g)" and "node_type m = AGENT_TASK"
  obtains n where "n \<in> set (nodes (normalize_author_graph author))" "node_type n = AGENT_TASK"
    "fst (compile_node cfg n) = []" "m \<in> set (snd (compile_node cfg n))"
proof -
  obtain rep :: ValidationReport where nil: "\<forall>n \<in> set (nodes (normalize_author_graph author)). fst (compile_node cfg n) = []"
    and sl: "seal H cfg b (H (canonical_author (normalize_author_graph author))) (normalize_author_graph author)
       (concat (map (\<lambda>n. snd (compile_node cfg n)) (nodes (normalize_author_graph author))))
       (report_warnings rep) = Inr r"
    by (rule compile_graphD [OF assms(1,2)]) blast
  obtain ns' es' errs where inj: "inject H (concat (map (\<lambda>n. snd (compile_node cfg n))
      (nodes (normalize_author_graph author)))) (edges (normalize_author_graph author)) = Inr (ns', es', errs)"
    and "compiled_nodes g = sort_key node_id ns'"
    by (rule seal_graphD [OF sl assms(2)]) blast
  then have "m \<in> set ns'" using assms(3) by simp
  then have "m \<in> set (concat (map (\<lambda>n. snd (compile_node cfg n)) (nodes (normalize_author_graph author))))"
    using inject_nodes [OF inj _ assms(4)] by blast
  then obtain n where n: "n \<in> set (nodes (normalize_author_graph author))" "m \<in> set (snd (compile_node cfg n))"
    by auto
  moreover have "node_type n = AGENT_TASK"
  proof (rule ccontr)
    assume "node_type n \<noteq> AGENT_TASK"
    then show False using n(2) assms(4) by (simp add: compile_node_def)
  qed
  ultimately show ?thesis using that nil by blast
qed

subsection \<open>Properties\<close>

text \<open>
  C2: every task of a compiled graph is authorised: it is frozen to an agent of the catalog
  that can run and has the required capabilities, its risk floor is below \<open>L4\<close> and at least the
  author's hint and the risk of its own file scope, a writing task has between 1 and 100 files
  and requires a change-set approval, and its commands are candidates of the author that the
  command guard, when configured, accepts.
\<close>

theorem compiled_tasks_are_authorised:
  assumes "compile H cfg author b = Inr r" and "result_graph r = Some g"
    and "m \<in> set (compiled_nodes g)" and "node_type m = AGENT_TASK"
  shows "(\<exists>a \<in> set (agents (cfg_catalog cfg)). resolved_agent_id m = Some (agent_id a) \<and>
      resolved_agent_spec_sha256 m = Some (spec_sha256 a) \<and> satisfies a m) \<and>
    (\<exists>f. policy_risk_floor m = Some f \<and> f \<noteq> L4 \<and> risk_level_hint m \<le> f \<and>
      (requires_write m \<longrightarrow> L1 \<le> f \<and> effective_risk (classify_paths (effective_paths m)) \<le> f)) \<and>
    length (effective_paths m) \<le> 100 \<and> (requires_write m \<longrightarrow> effective_paths m \<noteq> []) \<and>
    requires_changeset_approval m = Some (requires_write m) \<and>
    set (opt_list (effective_allowed_commands m)) \<subseteq> set (allowed_commands_candidate m) \<and>
    (cfg_command_guard cfg \<longrightarrow>
      (\<exists>out. validate_many 20 (opt_list (effective_allowed_commands m)) = Inr out))"
proof -
  obtain n where n: "node_type n = AGENT_TASK" "fst (compile_node cfg n) = []" "m \<in> set (snd (compile_node cfg n))"
    by (rule compiled_agent_node [OF assms]) blast
  obtain existing new commands where c: "decision (route (cfg_catalog cfg) n) = ASSIGNED"
      "length existing + length new \<le> 100" "compile_commands cfg n = Inr commands"
      "policy_floor n (existing @ new) \<noteq> L4" "requires_write n \<longrightarrow> existing @ new \<noteq> []"
    and m: "m = n\<lparr>resolved_agent_id := result_agent_id (route (cfg_catalog cfg) n),
          resolved_agent_spec_sha256 := result_spec_sha256 (route (cfg_catalog cfg) n),
          recommended_agents := recommendations (route (cfg_catalog cfg) n),
          effective_allowed_files := Some existing, effective_new_files := Some new,
          effective_allowed_commands := Some commands,
          policy_risk_floor := Some (policy_floor n (existing @ new)),
          requires_changeset_approval := Some (requires_write n)\<rparr>"
    using compile_node_agent [OF n(2,3,1)] by blast
  obtain a where a: "a \<in> set (agents (cfg_catalog cfg))" "satisfies a n"
      "result_agent_id (route (cfg_catalog cfg) n) = Some (agent_id a)"
      "result_spec_sha256 (route (cfg_catalog cfg) n) = Some (spec_sha256 a)"
    using route_assigned [OF c(1)] by blast
  have "satisfies a m" using a(2) by (simp add: satisfies_def m)
  moreover have "policy_floor n (existing @ new) \<le> policy_floor n (existing @ new)" by simp
  note this [unfolded policy_floor_le [of n "existing @ new" "policy_floor n (existing @ new)"]]
  ultimately show ?thesis
    using a c compile_commands_Inr [OF c(3)] by (auto simp: m effective_paths_def)
qed

text \<open>
  Compilation depends on the graph, not on how its lists are ordered: two accepted drafts
  that list the same nodes and edges compile to the same result, compiled hash included.
\<close>

theorem compilation_ignores_order:
  assumes "validate_draft g True = Inr rep" "ok rep" "validate_draft h True = Inr rep'" "ok rep'"
    and "schema_version g = schema_version h"
    and "mset (nodes g) = mset (nodes h)" "mset (edges g) = mset (edges h)"
  shows "compile H cfg g b = compile H cfg h b"
proof -
  have d: "distinct (map node_id (nodes g))" "distinct (map edge_id (edges g))"
    using ok_distinct [OF validate_draft_okD [OF assms(1,2)]] by simp_all
  have n: "normalize_author_graph g = normalize_author_graph h"
    by (rule normalize_perm [OF assms(5,6,7) d])
  have "report_warnings rep = []" "report_warnings rep' = []"
    using assms(1,3) by (auto simp: validate_draft_def draft_warnings_def Let_def split: if_splits)
  then show ?thesis
    unfolding compile_def assms(1,3) sum.case Let_def n using assms(2,4) by simp
qed

subsection \<open>Instances\<close>

definition sample_author :: AuthorGraph where
  "sample_author = \<lparr>schema_version = ''1'',
     nodes = [new_node ''i'' INPUT ''i'', sample_task\<lparr>instruction := Some ''x''\<rparr>,
              new_node ''o'' OUTPUT ''o''],
     edges = [sample_edge ''e1'' ''i'' ''t'' SUCCESS, sample_edge ''e2'' ''t'' ''o'' SUCCESS]\<rparr>"

definition sample_config :: CompilerConfig where
  "sample_config = \<lparr>cfg_catalog = (sample_catalog [''a''])\<lparr>catalog_hash := replicate 64 CHR ''0''\<rparr>,
     cfg_policy_version = ''p'', cfg_path_policy = None, cfg_command_guard = True\<rparr>"

lemma sample_author_accepted:
  "validate_draft sample_author True = Inr \<lparr>report_errors = [], report_warnings = []\<rparr>"
proof (rule silent_draft_accepted)
  show "size_issues sample_author = []"
    by (rule small_draft) (simp_all add: author_text sample_author_def sample_task_def)
qed code_simp+

definition sample_author_rev :: AuthorGraph where
  "sample_author_rev = \<lparr>schema_version = ''1'', nodes = rev (nodes sample_author),
     edges = rev (edges sample_author)\<rparr>"

lemma sample_author_rev_accepted:
  "validate_draft sample_author_rev True = Inr \<lparr>report_errors = [], report_warnings = []\<rparr>"
proof (rule silent_draft_accepted)
  show "size_issues sample_author_rev = []"
    by (rule small_draft) (simp_all add: author_text sample_author_rev_def sample_author_def sample_task_def)
qed code_simp+

lemma compiled_tasks_are_authorised_witness:
  "\<exists>r g. compile (\<lambda>_. replicate 64 CHR ''0'') sample_config sample_author (replicate 40 CHR ''0'') = Inr r \<and>
     result_graph r = Some g \<and>
     (\<forall>m \<in> set (compiled_nodes g). node_type m = AGENT_TASK \<longrightarrow> length (effective_paths m) \<le> 100)"
proof -
  have "concat (map fst (map (compile_node sample_config) (nodes (normalize_author_graph sample_author)))) = []"
    by code_simp
  then have c: "compile (\<lambda>_. replicate 64 CHR ''0'') sample_config sample_author (replicate 40 CHR ''0'') =
     seal (\<lambda>_. replicate 64 CHR ''0'') sample_config (replicate 40 CHR ''0'') (replicate 64 CHR ''0'')
       (normalize_author_graph sample_author)
       (concat (map snd (map (compile_node sample_config) (nodes (normalize_author_graph sample_author))))) []"
    unfolding compile_def sample_author_accepted sum.case Let_def
    by (simp add: ok_def del: concat_eq_Nil_conv map_map)
  have "(case seal (\<lambda>_. replicate 64 CHR ''0'') sample_config (replicate 40 CHR ''0'') (replicate 64 CHR ''0'')
       (normalize_author_graph sample_author)
       (concat (map snd (map (compile_node sample_config) (nodes (normalize_author_graph sample_author))))) [] of
     Inl _ \<Rightarrow> False | Inr r \<Rightarrow> result_graph r \<noteq> None)"
    by code_simp
  then obtain r g where rg: "compile (\<lambda>_. replicate 64 CHR ''0'') sample_config sample_author
      (replicate 40 CHR ''0'') = Inr r" "result_graph r = Some g"
    unfolding c by (auto split: sum.splits)
  then show ?thesis using compiled_tasks_are_authorised [OF rg] by blast
qed

lemma compilation_ignores_order_witness:
  "compile (\<lambda>_. replicate 64 CHR ''0'') sample_config sample_author (replicate 40 CHR ''0'') =
   compile (\<lambda>_. replicate 64 CHR ''0'') sample_config sample_author_rev (replicate 40 CHR ''0'')"
  by (rule compilation_ignores_order [OF sample_author_accepted _ sample_author_rev_accepted])
    (simp_all add: ok_def sample_author_rev_def sample_author_def)

end
