(* ===== verification/Run_Tasks.thy ===== *)
theory Run_Tasks
  imports Run_Repository Compiler
begin

text \<open>
  The rest of \<open>storage/workflow_run_repository.py\<close>: merge finalization, tasks, and the retry of a
  task whose privilege request was approved. The conventions are those of \<open>Run_Repository\<close>.
\<close>

subsection \<open>Merge finalization\<close>

definition running_merge :: "RunStore \<Rightarrow> NodeRun option" where
  \<comment> \<open>\<open>node_type = 'merge_patch' AND status = 'running' ORDER BY attempt DESC LIMIT 1\<close>\<close>
  "running_merge st =
     (let rows = filter (\<lambda>r. nr_node_type r = MERGE_PATCH \<and> nr_status r = NodeRunStatus.RUNNING) (node_runs st)
      in find (\<lambda>r. list_all (\<lambda>q. attempt q \<le> attempt r) rows) rows)"

definition begin_merge_finalizing ::
  "string \<Rightarrow> WorkspaceLease \<Rightarrow> MasterLease \<Rightarrow> time \<Rightarrow> RunStore \<Rightarrow> run_error + RunStore" where
  "begin_merge_finalizing wid wl lease now st =
     fenced st lease now (known_run st wid
       (if resource_key wl \<noteq> integration_resource st \<or> owner_kind wl \<noteq> ''merge''
        then Inl (PyError ValueError)
        else if map_option node_run_id (running_merge st) \<noteq> Some (owner_operation_id wl)
        then Inl (PyError ValueError)
        else if \<not> workspace_valid st wl now then Inl (LeaseError LeaseLost)
        else if run_status (run st) \<noteq> WorkflowRunStatus.RUNNING then Inl ConcurrencyConflict
        else if cancelling st then Inl ConcurrencyConflict
        else update_run (\<lambda>w. run_status w = WorkflowRunStatus.RUNNING \<and> cancel_requested_at w = None \<and>
            merge_finalizing_at w = None) (\<lambda>w. w\<lparr>merge_finalizing_at := Some now\<rparr>) st))"

definition clear_merge_finalizing ::
  "string \<Rightarrow> WorkspaceLease \<Rightarrow> MasterLease \<Rightarrow> time \<Rightarrow> RunStore \<Rightarrow> run_error + RunStore" where
  "clear_merge_finalizing wid wl lease now st =
     fenced st lease now (known_run st wid
       (if resource_key wl \<noteq> integration_resource st then Inl (PyError ValueError)
        else if owner_kind wl \<notin> {''merge'', ''recovery''} \<or>
          (owner_operation_id wl \<noteq> ''recovery-'' @ wid \<and>
           map_option node_run_id (running_merge st) \<noteq> Some (owner_operation_id wl))
        then Inl (PyError ValueError)
        else if \<not> workspace_valid st wl now then Inl (LeaseError LeaseLost)
        else Inr (st\<lparr>run := (run st)\<lparr>merge_finalizing_at := None\<rparr>\<rparr>)))"

definition mark_merged :: "string \<Rightarrow> ChangeSetRow list \<Rightarrow> run_error + ChangeSetRow list" where
  "mark_merged cs rows =
     (let hit = (\<lambda>c. change_set_id c = cs \<and> change_set_status c = ChangeSetStatus.APPROVED) in
      if length (filter hit rows) \<noteq> 1 then Inl ConcurrencyConflict
      else Inr (map (\<lambda>c. if hit c then c\<lparr>change_set_status := ChangeSetStatus.MERGED\<rparr> else c) rows))"

definition finalize_merge ::
  "string \<Rightarrow> string \<Rightarrow> string \<Rightarrow> WorkspaceLease \<Rightarrow> MasterLease \<Rightarrow> string \<Rightarrow> time \<Rightarrow> RunStore \<Rightarrow>
     run_error + RunStore" where
  "finalize_merge i cs new_commit wl lease summary now st =
     fenced st lease now
       (if \<not> workspace_valid st wl now then Inl (LeaseError LeaseLost)
        else with_node st i (\<lambda>r.
          if nr_status r \<noteq> NodeRunStatus.RUNNING \<or> run_status (run st) \<noteq> WorkflowRunStatus.RUNNING \<or>
            merge_finalizing_at (run st) = None \<or> cancelling st
          then Inl ConcurrencyConflict
          else if resource_key wl \<noteq> integration_resource st then Inl (PyError ValueError)
          else if owner_kind wl \<notin> {''merge'', ''recovery''} \<or>
            owner_operation_id wl \<noteq>
              (if owner_kind wl = ''merge'' then node_run_id r
               else ''recovery-'' @ workflow_run_id (run st))
          then Inl (PyError ValueError)
          else if integration_head_commit st \<noteq> current_commit (run st) then Inl ConcurrencyConflict
          else and_then
            (update_run (\<lambda>w. run_status w = WorkflowRunStatus.RUNNING \<and> merge_finalizing_at w \<noteq> None)
              (\<lambda>w. w\<lparr>current_commit := new_commit, merge_finalizing_at := None\<rparr>)
              (st\<lparr>integration_head_commit := new_commit\<rparr>))
            (\<lambda>st1. and_then (mark_merged cs (change_sets st1)) (\<lambda>rows.
              and_then
                (update_node i [NodeRunStatus.RUNNING]
                  (\<lambda>q. q\<lparr>nr_status := NodeRunStatus.COMPLETED, nr_outcome := Some NodeOutcome.SUCCESS,
                     nr_error_code := None, nr_finished_at := Some now\<rparr>)
                  (st1\<lparr>change_sets := rows\<rparr>))
                (\<lambda>st2. reconcile lease now
                   (append_node_state lease r NodeRunStatus.COMPLETED (Some NodeOutcome.SUCCESS) summary
                      None st2))))))"

subsection \<open>Tasks\<close>

definition make_node_run_id :: "(string \<Rightarrow> string) \<Rightarrow> string \<Rightarrow> string \<Rightarrow> nat \<Rightarrow> string" where
  \<comment> \<open>\<open>node_run_id\<close>\<close>
  "make_node_run_id H wid i k = ''nr-'' @ take 24 (H (wid @ [CHR 0x00] @ i @ [CHR 0x00] @ nat_str k))"

definition task_id_for_node :: "(string \<Rightarrow> string) \<Rightarrow> string \<Rightarrow> string" where
  "task_id_for_node H i = ''task-'' @ take 24 (H (''task'' @ [CHR 0x00] @ i))"

definition opt_str :: "string option \<Rightarrow> string" where
  \<comment> \<open>\<open>str\<close> of a nullable column\<close>
  "opt_str v = (case v of None \<Rightarrow> ''None'' | Some s \<Rightarrow> s)"

definition task_creation_problem :: "RunStore \<Rightarrow> NodeRun \<Rightarrow> string \<Rightarrow> string \<Rightarrow> run_error option" where
  "task_creation_problem st r agent base =
     (if nr_status r \<noteq> NodeRunStatus.RUNNING then Some ConcurrencyConflict
      else if cancelling st then Some ConcurrencyConflict
      else if run_status (run st) \<noteq> WorkflowRunStatus.RUNNING then Some ConcurrencyConflict
      else if opt_str (assigned_agent_id r) \<noteq> agent then Some (PyError ValueError)
      else if current_commit (run st) \<noteq> base then Some (PyError ValueError)
      else None)"

definition insert_task :: "TaskRow \<Rightarrow> RunStore \<Rightarrow> run_error + RunStore" where
  \<comment> \<open>\<open>id\<close> is the primary key, \<open>node_run_id\<close> unique\<close>
  "insert_task t st =
     (if task_id t \<in> task_id ` set (tasks st) \<or> task_node_run_id t \<in> task_node_run_id ` set (tasks st)
      then Inl IntegrityError else Inr (st\<lparr>tasks := tasks st @ [t]\<rparr>))"

definition new_task :: "string \<Rightarrow> string \<Rightarrow> string \<Rightarrow> string \<Rightarrow> string option \<Rightarrow> TaskStatus \<Rightarrow> TaskRow" where
  "new_task t_id i agent base policy status =
     \<lparr>task_id = t_id, task_node_run_id = i, task_agent_id = agent, base_commit_of = base,
      runtime_policy_artifact = policy, task_status = status,
      task_finished_at = None\<rparr>"

definition create_task ::
  "string \<Rightarrow> string \<Rightarrow> string \<Rightarrow> string \<Rightarrow> MasterLease \<Rightarrow> time \<Rightarrow> RunStore \<Rightarrow> run_error + RunStore" where
  "create_task t_id i agent base lease now st =
     fenced st lease now (with_node st i (\<lambda>r.
       case task_creation_problem st r agent base of
         Some e \<Rightarrow> Inl e
       | None \<Rightarrow> and_then (insert_task (new_task t_id i agent base None TaskStatus.PENDING) st)
           (\<lambda>st'. Inr (append_task_state lease None i t_id None TaskStatus.PENDING None st'))))"

definition policy_problem_of :: "RunStore \<Rightarrow> string \<Rightarrow> string \<Rightarrow> run_error option" where
  "policy_problem_of st t_id policy =
     (case find (\<lambda>a. artifact_id a = policy) (artifacts st) of
        None \<Rightarrow> Some RecordNotFound
      | Some a \<Rightarrow>
          (if artifact_session_id a \<noteq> run_session_id (run st) \<or>
             (artifact_task_id a \<noteq> None \<and> artifact_task_id a \<noteq> Some t_id) \<or>
             artifact_planner_run_id a \<noteq> None \<or> artifact_type a \<noteq> ''runtime_policy'' \<or>
             \<not> artifact_redacted a
           then Some (PyError ValueError) else None))"

definition claim_policy :: "string \<Rightarrow> string \<Rightarrow> RunStore \<Rightarrow> run_error + RunStore" where
  \<comment> \<open>\<open>UPDATE artifacts SET task_id = ? WHERE id = ? AND task_id IS NULL AND planner_run_id IS NULL\<close>\<close>
  "claim_policy t_id policy st =
     (let hit = (\<lambda>a. artifact_id a = policy \<and> artifact_task_id a = None \<and> artifact_planner_run_id a = None) in
      if length (filter hit (artifacts st)) \<noteq> 1 then Inl ConcurrencyConflict
      else Inr (st\<lparr>artifacts := map (\<lambda>a. if hit a then a\<lparr>artifact_task_id := Some t_id\<rparr> else a)
             (artifacts st)\<rparr>))"

definition bind_policy :: "TaskRow \<Rightarrow> string \<Rightarrow> RunStore \<Rightarrow> run_error + RunStore" where
  \<comment> \<open>a precreated retry task without a policy gets this one\<close>
  "bind_policy t policy st =
     (if runtime_policy_artifact t \<noteq> None then Inr st
      else and_then (claim_policy (task_id t) policy st) (\<lambda>st'.
        Inr (st'\<lparr>tasks := map (\<lambda>q. if task_id q = task_id t \<and> runtime_policy_artifact q = None
               then q\<lparr>runtime_policy_artifact := Some policy\<rparr> else q) (tasks st')\<rparr>)))"

definition start_precreated ::
  "TaskRow \<Rightarrow> string \<Rightarrow> string \<Rightarrow> string \<Rightarrow> string \<Rightarrow> MasterLease \<Rightarrow> RunStore \<Rightarrow> run_error + RunStore" where
  "start_precreated t i agent base policy lease st =
     (if task_node_run_id t \<noteq> i \<or> task_agent_id t \<noteq> agent \<or> base_commit_of t \<noteq> base \<or>
        (runtime_policy_artifact t \<noteq> None \<and> runtime_policy_artifact t \<noteq> Some policy) \<or>
        task_status t \<noteq> TaskStatus.PENDING
      then Inl ConcurrencyConflict
      else and_then (bind_policy t policy st) (\<lambda>st1.
        and_then
          (update_task (task_id t) [TaskStatus.PENDING]
            (\<lambda>q. q\<lparr>task_status := TaskStatus.RUNNING, task_finished_at := None\<rparr>) st1)
          (\<lambda>st2. Inr (append_task_state lease None i (task_id t) (Some TaskStatus.PENDING)
             TaskStatus.RUNNING None st2))))"

definition create_and_start_task ::
  "string \<Rightarrow> string \<Rightarrow> string \<Rightarrow> string \<Rightarrow> string \<Rightarrow> MasterLease \<Rightarrow> time \<Rightarrow> RunStore \<Rightarrow>
     run_error + RunStore" where
  "create_and_start_task t_id i agent base policy lease now st =
     fenced st lease now (with_node st i (\<lambda>r.
       case task_creation_problem st r agent base of
         Some e \<Rightarrow> Inl e
       | None \<Rightarrow>
           (case policy_problem_of st t_id policy of
              Some e \<Rightarrow> Inl e
            | None \<Rightarrow>
                (case find (\<lambda>t. task_id t = t_id) (tasks st) of
                   Some t \<Rightarrow> start_precreated t i agent base policy lease st
                 | None \<Rightarrow>
                     and_then (insert_task (new_task t_id i agent base (Some policy) TaskStatus.RUNNING) st)
                       (\<lambda>st1. and_then (claim_policy t_id policy st1) (\<lambda>st2.
                          Inr (append_task_state lease None i t_id (Some TaskStatus.PENDING)
                                TaskStatus.RUNNING None
                            (append_task_state lease None i t_id None TaskStatus.PENDING None st2))))))))"

definition write_task_problem ::
  "RunStore \<Rightarrow> TaskRow \<Rightarrow> TaskStatus \<Rightarrow> WorkspaceLease option \<Rightarrow> time \<Rightarrow> run_error option" where
  \<comment> \<open>what a write task needs to finish: its own workspace lease and a consistent change set\<close>
  "write_task_problem st t target wl now =
     (case wl of
        None \<Rightarrow> Some (PyError ValueError)
      | Some l \<Rightarrow>
          (if resource_key l \<noteq> integration_resource st \<or> owner_kind l \<noteq> ''agent_task'' \<or>
             owner_operation_id l \<noteq> task_id t
           then Some (PyError ValueError)
           else if \<not> workspace_valid st l now then Some (LeaseError LeaseLost)
           else let captured = (map_option change_set_status
                  (find (\<lambda>c. change_set_task_id c = task_id t) (change_sets st)) = Some CAPTURED)
             in if target = TaskStatus.SUCCEEDED
                then (if \<not> captured then Some SnapshotIntegrityError else None)
                else if captured then Some SnapshotIntegrityError else None))"

definition transition_task ::
  "(string \<Rightarrow> string) \<Rightarrow> string \<Rightarrow> TaskStatus \<Rightarrow> TaskStatus \<Rightarrow> MasterLease \<Rightarrow> string option \<Rightarrow>
     WorkspaceLease option \<Rightarrow> time \<Rightarrow> RunStore \<Rightarrow> run_error + RunStore" where
  "transition_task H t_id expected target lease error wl now st =
     fenced st lease now
       (case find (\<lambda>t. task_id t = t_id) (tasks st) of
          None \<Rightarrow> Inl RecordNotFound
        | Some t \<Rightarrow> with_node st (task_node_run_id t) (\<lambda>r.
            if cancelling st then Inl ConcurrencyConflict
            else if run_status (run st) \<noteq> WorkflowRunStatus.RUNNING then Inl ConcurrencyConflict
            else if nr_status r \<noteq> NodeRunStatus.RUNNING then Inl ConcurrencyConflict
            else and_then (compiled_node_of H st (nr_node_id r)) (\<lambda>n.
              case (if is_write_task n then write_task_problem st t target wl now
                    else if wl \<noteq> None then Some (PyError ValueError) else None) of
                Some e \<Rightarrow> Inl e
              | None \<Rightarrow>
                  and_then
                    (update_task t_id [expected]
                      (\<lambda>q. q\<lparr>task_status := target, task_finished_at :=
                         (if target = TaskStatus.RUNNING then None else Some now)\<rparr>) st)
                    (\<lambda>st'. Inr (append_task_state lease (map_option ws_fencing_token wl) (node_run_id r)
                       t_id (Some expected) target error st')))))"

definition finish_task ::
  "(string \<Rightarrow> string) \<Rightarrow> string \<Rightarrow> TaskStatus \<Rightarrow> MasterLease \<Rightarrow> WorkspaceLease option \<Rightarrow> string option \<Rightarrow>
     time \<Rightarrow> RunStore \<Rightarrow> run_error + RunStore" where
  "finish_task H t_id target lease wl error now st =
     (if target \<in> {TaskStatus.PENDING, TaskStatus.RUNNING} then Inl (PyError ValueError)
      else if target \<notin> {TaskStatus.SUCCEEDED, TaskStatus.PRIVILEGE_REQUESTED} \<and> opt_list error = []
      then Inl (PyError ValueError)
      else transition_task H t_id TaskStatus.RUNNING target lease error wl now st)"

subsection \<open>Retrying with a privilege\<close>

definition has_later_attempt :: "RunStore \<Rightarrow> NodeRun \<Rightarrow> bool" where
  "has_later_attempt st r \<longleftrightarrow>
     list_ex (\<lambda>q. nr_node_id q = nr_node_id r \<and> attempt r < attempt q) (node_runs st)"

definition retry_row :: "(string \<Rightarrow> string) \<Rightarrow> string \<Rightarrow> NodeRun \<Rightarrow> string \<Rightarrow> time \<Rightarrow> NodeRun" where
  "retry_row H wid r approval_id now =
     \<lparr>node_run_id = make_node_run_id H wid (nr_node_id r) (attempt r + 1), nr_node_id = nr_node_id r,
      nr_node_type = nr_node_type r, attempt = attempt r + 1, nr_status = NodeRunStatus.PENDING,
      nr_outcome = None, assigned_agent_id = Some (opt_str (assigned_agent_id r)),
      output_artifact_id = None, nr_error_code = Some (''privilege_retry_for:'' @ approval_id),
      nr_created_at = now, nr_started_at = None, nr_finished_at = None\<rparr>"

definition create_privilege_retry_target ::
  "(string \<Rightarrow> string) \<Rightarrow> string \<Rightarrow> NodeRun \<Rightarrow> TaskRow \<Rightarrow> string \<Rightarrow> time \<Rightarrow> RunStore \<Rightarrow>
     run_error + (RunStore \<times> string)" where
  \<comment> \<open>\<open>_create_privilege_retry_target_in\<close>; the id of the task is what its callers use\<close>
  "create_privilege_retry_target H wid r t approval_id now st =
     (if 2 \<le> attempt r then Inl ConcurrencyConflict
      else if has_later_attempt st r then Inl ConcurrencyConflict
      else let new = retry_row H wid r approval_id now;
               new_id = task_id_for_node H (node_run_id new)
        in if node_run_id new \<in> node_run_id ` set (node_runs st) then Inl IntegrityError
           else and_then
             (insert_task (new_task new_id (node_run_id new) (task_agent_id t) (base_commit_of t) None
                TaskStatus.PENDING) (st\<lparr>node_runs := node_runs st @ [new]\<rparr>))
             (\<lambda>st'. Inr (st', new_id)))"

definition with_source ::
  "RunStore \<Rightarrow> string \<Rightarrow> string \<Rightarrow> (NodeRun \<Rightarrow> TaskRow \<Rightarrow> run_error + 'a) \<Rightarrow> run_error + 'a" where
  \<comment> \<open>the node run of this workflow run joined with its task\<close>
  "with_source st wid i k =
     known_run st wid (with_node st i (\<lambda>r.
       case task_of st i of None \<Rightarrow> Inl RecordNotFound | Some t \<Rightarrow> k r t))"

definition prepare_privilege_retry ::
  "(string \<Rightarrow> string) \<Rightarrow> string \<Rightarrow> string \<Rightarrow> string \<Rightarrow> MasterLease \<Rightarrow> WorkspaceLease \<Rightarrow> time \<Rightarrow> RunStore \<Rightarrow>
     run_error + (RunStore \<times> string)" where
  "prepare_privilege_retry H wid i approval_id lease wl now st =
     fenced st lease now (with_source st wid i (\<lambda>r t.
       if resource_key wl \<noteq> integration_resource st \<or> owner_kind wl \<noteq> ''agent_task'' \<or>
         owner_operation_id wl \<noteq> task_id t
       then Inl (PyError ValueError)
       else if \<not> workspace_valid st wl now then Inl (LeaseError LeaseLost)
       else if cancelling st then Inl ConcurrencyConflict
       else if nr_status r \<noteq> NodeRunStatus.RUNNING \<or> run_status (run st) \<noteq> WorkflowRunStatus.RUNNING \<or>
         task_status t \<notin> {TaskStatus.RUNNING, TaskStatus.PRIVILEGE_REQUESTED}
       then Inl ConcurrencyConflict
       else if 2 \<le> attempt r \<or> has_later_attempt st r then Inl ConcurrencyConflict
       else let error = ''privilege_pending:'' @ approval_id in
         and_then
           (if task_status t \<noteq> TaskStatus.RUNNING then Inr st
            else and_then
              (update_task (task_id t) [TaskStatus.RUNNING]
                (\<lambda>q. q\<lparr>task_status := TaskStatus.PRIVILEGE_REQUESTED, task_finished_at := Some now\<rparr>) st)
              (\<lambda>st1. Inr (append_task_state lease (Some (ws_fencing_token wl)) i (task_id t)
                 (Some TaskStatus.RUNNING) TaskStatus.PRIVILEGE_REQUESTED (Some error) st1)))
           (\<lambda>st2. and_then
              (wait_for_approval i error ''Waiting for privilege approval.'' lease r st2)
              (\<lambda>st3. Inr (st3, task_id_for_node H (make_node_run_id H wid (nr_node_id r) (attempt r + 1)))))))"

definition supersede :: "MasterLease \<Rightarrow> time \<Rightarrow> NodeRun \<Rightarrow> RunStore \<Rightarrow> run_error + RunStore" where
  "supersede lease now r st =
     and_then
       (update_node (node_run_id r) [NodeRunStatus.WAITING_APPROVAL]
         (\<lambda>q. q\<lparr>nr_status := NodeRunStatus.SUPERSEDED, nr_outcome := Some NodeOutcome.CANCELLED,
            nr_error_code := Some ''privilege_retry_approved'', nr_finished_at := Some now\<rparr>) st)
       (\<lambda>st'. Inr (append_node_state lease r NodeRunStatus.SUPERSEDED (Some NodeOutcome.CANCELLED)
          ''Privilege approval created a new task attempt.'' (Some ''privilege_retry_approved'') st'))"

definition tasks_columns :: "string list" where
  \<comment> \<open>of the table \<open>tasks\<close> in \<open>migrations/init.sql\<close>; no later migration alters it\<close>
  "tasks_columns = [''id'', ''node_run_id'', ''agent_id'', ''base_commit'', ''runtime_policy_artifact_id'',
     ''active_capability_grant_id'', ''status'', ''created_at'', ''finished_at'']"

definition end_source_task ::
  "TaskRow \<Rightarrow> TaskStatus \<Rightarrow> string \<Rightarrow> MasterLease \<Rightarrow> time \<Rightarrow> RunStore \<Rightarrow> run_error + RunStore" where
  "end_source_task t target error lease now st =
     and_then
       (if set [''status'', ''error_code'', ''finished_at''] \<subseteq> set tasks_columns
        then update_task (task_id t) [TaskStatus.PRIVILEGE_REQUESTED]
          (\<lambda>q. q\<lparr>task_status := target, task_finished_at := Some now\<rparr>) st
        else Inl OperationalError)
       (\<lambda>st'. Inr (append_task_state lease None (task_node_run_id t) (task_id t)
          (Some TaskStatus.PRIVILEGE_REQUESTED) target (Some error) st'))"

definition approve_privilege_in ::
  "(string \<Rightarrow> string) \<Rightarrow> string \<Rightarrow> string \<Rightarrow> string \<Rightarrow> MasterLease \<Rightarrow> time \<Rightarrow> RunStore \<Rightarrow>
     run_error + (RunStore \<times> string)" where
  "approve_privilege_in H wid i approval_id lease now st =
     with_source st wid i (\<lambda>r t.
       if nr_status r \<noteq> NodeRunStatus.WAITING_APPROVAL \<or>
         run_status (run st) \<noteq> WorkflowRunStatus.WAITING_APPROVAL \<or> cancelling st \<or>
         task_status t \<noteq> TaskStatus.PRIVILEGE_REQUESTED
       then Inl ConcurrencyConflict
       else and_then (create_privilege_retry_target H wid r t approval_id now st) (\<lambda>(st1, new_id).
         and_then (end_source_task t TaskStatus.CANCELLED ''privilege_retry_approved'' lease now st1) (\<lambda>st2.
           and_then (supersede lease now r st2) (\<lambda>st3. Inr (st3, new_id)))))"

definition next_attempt :: "RunStore \<Rightarrow> NodeRun \<Rightarrow> (NodeRun \<times> TaskRow) option" where
  \<comment> \<open>the next attempt that has a task: \<open>ORDER BY attempt ASC LIMIT 1\<close>\<close>
  "next_attempt st r =
     (let rows = filter (\<lambda>q. nr_node_id q = nr_node_id r \<and> attempt r < attempt q \<and>
            task_of st (node_run_id q) \<noteq> None) (node_runs st)
      in case find (\<lambda>q. list_all (\<lambda>p. attempt q \<le> attempt p) rows) rows of
           None \<Rightarrow> None
         | Some q \<Rightarrow> map_option (Pair q) (task_of st (node_run_id q)))"

definition skip_retry_target ::
  "NodeRun \<times> TaskRow \<Rightarrow> time \<Rightarrow> RunStore \<Rightarrow> run_error + RunStore" where
  \<comment> \<open>of a rejected request: the task update may change no row, the node update must\<close>
  "skip_retry_target qt now st =
     update_node (node_run_id (fst qt)) [NodeRunStatus.PENDING]
       (\<lambda>q. q\<lparr>nr_status := NodeRunStatus.SKIPPED, nr_outcome := None,
          nr_error_code := Some ''privilege_rejected'', nr_finished_at := Some now\<rparr>)
       (st\<lparr>tasks := map (\<lambda>t. if task_id t = task_id (snd qt) \<and> task_status t = TaskStatus.PENDING
             then t\<lparr>task_status := TaskStatus.CANCELLED, task_finished_at := Some now\<rparr> else t) (tasks st)\<rparr>)"

definition reject_privilege ::
  "NodeRun \<Rightarrow> TaskRow \<Rightarrow> MasterLease \<Rightarrow> time \<Rightarrow> RunStore \<Rightarrow> run_error + RunStore" where
  "reject_privilege r t lease now st =
     (let target = next_attempt st r in
      and_then (end_source_task t TaskStatus.FAILED ''privilege_rejected'' lease now st) (\<lambda>st1.
      and_then
        (update_node (node_run_id r) [NodeRunStatus.WAITING_APPROVAL]
          (\<lambda>q. q\<lparr>nr_status := NodeRunStatus.COMPLETED, nr_outcome := Some NodeOutcome.REJECTED,
             nr_error_code := Some ''privilege_rejected'', nr_finished_at := Some now\<rparr>) st1) (\<lambda>st2.
      and_then
        (case target of
           None \<Rightarrow> Inr (append_node_state lease r NodeRunStatus.COMPLETED (Some NodeOutcome.REJECTED)
             ''Privilege request was rejected.'' (Some ''privilege_rejected'') st2)
         | Some qt \<Rightarrow> and_then (skip_retry_target qt now st2) (\<lambda>st3.
             Inr (append_node_state lease ((fst qt)\<lparr>nr_status := NodeRunStatus.PENDING\<rparr>)
                    NodeRunStatus.SKIPPED None ''Privilege retry was rejected.'' (Some ''privilege_rejected'')
               (append_node_state lease r NodeRunStatus.COMPLETED (Some NodeOutcome.REJECTED)
                 ''Privilege request was rejected.'' (Some ''privilege_rejected'') st3)))) (\<lambda>st4.
      and_then
        (update_run (\<lambda>w. run_status w = WorkflowRunStatus.WAITING_APPROVAL \<and> cancel_requested_at w = None)
          (\<lambda>w. w\<lparr>run_status := WorkflowRunStatus.RUNNING\<rparr>) st4) (\<lambda>st5.
        reconcile lease now
          (append_run_state lease WorkflowRunStatus.WAITING_APPROVAL WorkflowRunStatus.RUNNING st5))))))"

definition resume_privilege_after_approval_in ::
  "(string \<Rightarrow> string) \<Rightarrow> string \<Rightarrow> string \<Rightarrow> bool \<Rightarrow> MasterLease \<Rightarrow> time \<Rightarrow> RunStore \<Rightarrow>
     run_error + RunStore" where
  "resume_privilege_after_approval_in H wid i approved lease now st =
     with_source st wid i (\<lambda>r t.
       if nr_status r \<noteq> NodeRunStatus.WAITING_APPROVAL \<or>
         run_status (run st) \<noteq> WorkflowRunStatus.WAITING_APPROVAL \<or> cancelling st
       then Inl ConcurrencyConflict
       else if approved
       then and_then
         (if next_attempt st r \<noteq> None then Inr st
          else map_sum id fst (create_privilege_retry_target H wid r t ''legacy-approval'' now st))
         (supersede lease now r)
       else reject_privilege r t lease now st)"

definition activate_capability_target_in ::
  "string \<Rightarrow> MasterLease \<Rightarrow> time \<Rightarrow> RunStore \<Rightarrow> run_error + RunStore" where
  "activate_capability_target_in t_id lease now st =
     (case find (\<lambda>t. task_id t = t_id) (tasks st) of
        None \<Rightarrow> Inl RecordNotFound
      | Some t \<Rightarrow> with_node st (task_node_run_id t) (\<lambda>r.
          if nr_status r = NodeRunStatus.READY then Inr st
          else if nr_status r \<noteq> NodeRunStatus.PENDING \<or> task_status t \<noteq> TaskStatus.PENDING \<or> cancelling st
          then Inl ConcurrencyConflict
          else and_then
            (update_node (node_run_id r) [NodeRunStatus.PENDING]
              (\<lambda>q. q\<lparr>nr_status := NodeRunStatus.READY, nr_error_code := None\<rparr>) st)
            (\<lambda>st1. let st2 = append_node_state lease r NodeRunStatus.READY None
                    ''Capability grant activated the retry task.'' None st1
              in if run_status (run st2) = WorkflowRunStatus.WAITING_APPROVAL \<and> \<not> cancelling st2
                 then Inr (append_run_state lease WorkflowRunStatus.WAITING_APPROVAL
                   WorkflowRunStatus.RUNNING
                   (st2\<lparr>run := (run st2)\<lparr>run_status := WorkflowRunStatus.RUNNING\<rparr>\<rparr>))
                 else Inr st2)))"

subsection \<open>Privilege decisions\<close>

lemma end_source_task_fails: "end_source_task t target error lease now st = Inl OperationalError"
  by (simp add: end_source_task_def tasks_columns_def and_then_def)

text \<open>
  Approving a privilege request and rejecting one both update \<open>tasks.error_code\<close>, a column the
  schema does not have, so neither transaction ever commits, in any state; and a rejection ends in
  one of the two refusals of its guards or in the error of that statement.
\<close>

lemma privilege_decisions_never_commit:
  shows "approve_privilege_in H wid i approval_id lease now st \<noteq> Inr x \<and>
    resume_privilege_after_approval_in H wid i False lease now st \<noteq> Inr st' \<and>
    resume_privilege_after_approval_in H wid i False lease now st \<in>
      Inl ` {RecordNotFound, ConcurrencyConflict, OperationalError}"
proof -
  have "reject_privilege r t lease now st = Inl OperationalError" for r t
    by (simp add: reject_privilege_def end_source_task_fails and_then_def Let_def)
  then have r: "resume_privilege_after_approval_in H wid i False lease now st \<in>
      Inl ` {RecordNotFound, ConcurrencyConflict, OperationalError}"
    by (auto simp: resume_privilege_after_approval_in_def with_source_def with_node_def known_run_def
        split: option.split)
  then have "resume_privilege_after_approval_in H wid i False lease now st \<noteq> Inr st'" by auto
  moreover have "approve_privilege_in H wid i approval_id lease now st \<noteq> Inr x"
    by (auto simp: approve_privilege_in_def with_source_def with_node_def known_run_def end_source_task_fails
        and_then_def split: option.split sum.split)
  ultimately show ?thesis using r by blast
qed

end
