(* ===== verification/Run_Machine.thy ===== *)
theory Run_Machine
  imports Run_Tasks
begin

text \<open>
  The abstract machine of a run: elementary steps of one node row or of the run row, with the
  transitions each may make. The transactions of the repository are proved to be sequences of
  such steps, so an invariant of the machine, proved by rule induction over its few rules, holds
  of the repository.
\<close>

subsection \<open>The machine\<close>

definition ident :: "NodeRun \<Rightarrow> string \<times> string \<times> NodeType \<times> nat" where
  "ident r = (node_run_id r, nr_node_id r, nr_node_type r, attempt r)"

abbreviation terminal :: "NodeRun \<Rightarrow> bool" where
  "terminal r \<equiv> nr_status r \<in> set NODE_TERMINAL"

fun node_move :: "NodeRunStatus \<Rightarrow> NodeRunStatus \<Rightarrow> NodeOutcome option \<Rightarrow> bool" where
  "node_move NodeRunStatus.PENDING t oc \<longleftrightarrow>
     (t = NodeRunStatus.READY \<or> t = NodeRunStatus.SKIPPED) \<and> oc = None \<or>
     t = NodeRunStatus.CANCELLED \<and> oc = Some NodeOutcome.CANCELLED"
| "node_move NodeRunStatus.READY t oc \<longleftrightarrow>
     t = NodeRunStatus.RUNNING \<and> oc = None \<or>
     t = NodeRunStatus.CANCELLED \<and> oc = Some NodeOutcome.CANCELLED"
| "node_move NodeRunStatus.RUNNING t oc \<longleftrightarrow>
     (t = NodeRunStatus.WAITING_APPROVAL \<or> t = NodeRunStatus.ORPHANED) \<and> oc = None \<or>
     t = NodeRunStatus.CANCELLED \<and> oc = Some NodeOutcome.CANCELLED \<or>
     (\<exists>x \<in> set (allowed_outcomes t). oc = Some x)"
| "node_move NodeRunStatus.WAITING_APPROVAL t oc \<longleftrightarrow>
     (t = NodeRunStatus.READY \<or> t = NodeRunStatus.ORPHANED) \<and> oc = None \<or>
     (t = NodeRunStatus.CANCELLED \<or> t = NodeRunStatus.SUPERSEDED) \<and> oc = Some NodeOutcome.CANCELLED \<or>
     t = NodeRunStatus.COMPLETED \<and> oc = Some NodeOutcome.REJECTED"
| "node_move _ _ _ \<longleftrightarrow> False"

definition enabled_by :: "NodeRun list \<Rightarrow> WorkflowEdge \<Rightarrow> bool" where
  \<comment> \<open>the edge has been taken: its source has ended with the outcome the edge asks for\<close>
  "enabled_by rows e \<longleftrightarrow>
     (\<exists>u \<in> set rows. nr_node_id u = from_node e \<and> terminal u \<and>
        edge_satisfied (condition e) (nr_status u) (nr_outcome u))"

definition evidence :: "CompiledGraph \<Rightarrow> NodeRun list \<Rightarrow> string \<Rightarrow> bool" where
  \<comment> \<open>what allows a node to start\<close>
  "evidence g rows i \<longleftrightarrow>
     (\<exists>n \<in> set (compiled_nodes g). node_id n = i \<and> node_type n = INPUT) \<or>
     (\<exists>e \<in> set (compiled_edges g). to_node e = i \<and> enabled_by rows e)"

definition row_change :: "CompiledGraph \<Rightarrow> NodeRun list \<Rightarrow> NodeRun \<Rightarrow> NodeRun \<Rightarrow> bool" where
  "row_change g rows r r' \<longleftrightarrow> ident r' = ident r \<and>
     (nr_status r' = nr_status r \<and> nr_outcome r' = nr_outcome r \<or>
      node_move (nr_status r) (nr_status r') (nr_outcome r') \<and>
      (nr_status r = NodeRunStatus.PENDING \<and> nr_status r' = NodeRunStatus.READY \<longrightarrow>
         evidence g rows (nr_node_id r) \<or> 1 < attempt r))"

inductive row_step :: "CompiledGraph \<Rightarrow> NodeRun list \<Rightarrow> NodeRun list \<Rightarrow> bool" for g where
  change: "(\<And>r. r \<in> set rows \<Longrightarrow> f r \<noteq> r \<Longrightarrow> row_change g rows r (f r)) \<Longrightarrow>
    row_step g rows (map f rows)"
| retry: "r \<in> set rows \<Longrightarrow> nr_status r = NodeRunStatus.WAITING_APPROVAL \<Longrightarrow>
    (\<And>q. q \<in> set rows \<Longrightarrow> nr_node_id q = nr_node_id r \<Longrightarrow> attempt q \<le> attempt r) \<Longrightarrow>
    node_run_id new \<notin> node_run_id ` set rows \<Longrightarrow> nr_node_id new = nr_node_id r \<Longrightarrow>
    nr_node_type new = nr_node_type r \<Longrightarrow> attempt new = attempt r + 1 \<Longrightarrow> 1 \<le> attempt r \<Longrightarrow>
    nr_status new = NodeRunStatus.PENDING \<Longrightarrow> nr_outcome new = None \<Longrightarrow>
    row_step g rows (rows @ [new])"

fun run_move :: "WorkflowRunStatus \<Rightarrow> WorkflowRunStatus \<Rightarrow> bool" where
  "run_move WorkflowRunStatus.PENDING t \<longleftrightarrow>
     t \<in> {WorkflowRunStatus.RUNNING, WorkflowRunStatus.CANCELLED, WorkflowRunStatus.ORPHANED}"
| "run_move WorkflowRunStatus.RUNNING t \<longleftrightarrow>
     t \<in> {WorkflowRunStatus.WAITING_APPROVAL, WorkflowRunStatus.BLOCKED, WorkflowRunStatus.FAILED,
       WorkflowRunStatus.COMPLETED, WorkflowRunStatus.CANCELLED, WorkflowRunStatus.ORPHANED}"
| "run_move WorkflowRunStatus.WAITING_APPROVAL t \<longleftrightarrow>
     t \<in> {WorkflowRunStatus.RUNNING, WorkflowRunStatus.CANCELLED, WorkflowRunStatus.ORPHANED}"
| "run_move WorkflowRunStatus.PAUSED t \<longleftrightarrow>
     t \<in> {WorkflowRunStatus.CANCELLED, WorkflowRunStatus.ORPHANED}"
| "run_move _ t \<longleftrightarrow> False"

definition run_ident :: "WorkflowRun \<Rightarrow> string \<times> string \<times> CompiledGraph \<times> string" where
  "run_ident w = (workflow_run_id w, run_session_id w, compiled_snapshot w, compiled_snapshot_hash w)"

definition run_change :: "WorkflowRun \<Rightarrow> WorkflowRun \<Rightarrow> bool" where
  "run_change w w' \<longleftrightarrow> run_ident w' = run_ident w \<and>
     (run_status w' = run_status w \<or> run_move (run_status w) (run_status w')) \<and>
     (cancel_requested_at w \<noteq> None \<longrightarrow> cancel_requested_at w' = cancel_requested_at w) \<and>
     (cancel_requested_at w = None \<and> cancel_requested_at w' \<noteq> None \<longrightarrow> merge_finalizing_at w' = None) \<and>
     (merge_finalizing_at w = None \<and> merge_finalizing_at w' \<noteq> None \<longrightarrow> cancel_requested_at w' = None)"

inductive core_step ::
  "WorkflowRun \<times> NodeRun list \<Rightarrow> WorkflowRun \<times> NodeRun list \<Rightarrow> bool" where
  row: "row_step (compiled_snapshot w) rows rows' \<Longrightarrow> core_step (w, rows) (w, rows')"
| run: "run_change w w' \<Longrightarrow> core_step (w, rows) (w', rows)"

inductive_cases core_stepE: "core_step c c'"

abbreviation core :: "RunStore \<Rightarrow> WorkflowRun \<times> NodeRun list" where
  "core st \<equiv> (run st, node_runs st)"

subsection \<open>Invariants of the machine\<close>

definition rows_wf :: "NodeRun list \<Rightarrow> bool" where
  "rows_wf rows \<longleftrightarrow> distinct (map node_run_id rows) \<and>
     (\<forall>r \<in> set rows. 1 \<le> attempt r \<and> (\<not> terminal r \<longrightarrow> nr_outcome r = None))"

definition started :: "NodeRun \<Rightarrow> bool" where
  "started r \<longleftrightarrow> nr_status r \<notin> {NodeRunStatus.PENDING, NodeRunStatus.SKIPPED, NodeRunStatus.CANCELLED}"

definition justified :: "CompiledGraph \<Rightarrow> NodeRun list \<Rightarrow> bool" where
  "justified g rows \<longleftrightarrow> (\<forall>r \<in> set rows. started r \<or> 1 < attempt r \<longrightarrow> evidence g rows (nr_node_id r))"

definition kept :: "NodeRun list \<Rightarrow> NodeRun list \<Rightarrow> bool" where
  \<comment> \<open>a terminal row keeps its status and its outcome\<close>
  "kept rows rows' \<longleftrightarrow> (\<forall>r \<in> set rows. terminal r \<longrightarrow>
     (\<exists>r' \<in> set rows'. ident r' = ident r \<and> nr_status r' = nr_status r \<and> nr_outcome r' = nr_outcome r))"

lemma ident_simps [simp]:
  "ident r' = ident r \<longleftrightarrow> node_run_id r' = node_run_id r \<and> nr_node_id r' = nr_node_id r \<and>
     nr_node_type r' = nr_node_type r \<and> attempt r' = attempt r"
  by (auto simp: ident_def)

lemma terminal_stays: "node_move s t oc \<Longrightarrow> s \<notin> set NODE_TERMINAL"
  by (cases s) (auto simp: NODE_TERMINAL_def)

lemma node_move_outcome: "node_move s t oc \<Longrightarrow> t \<notin> set NODE_TERMINAL \<Longrightarrow> oc = None"
  by (cases s; cases t) (auto simp: NODE_TERMINAL_def)

lemma kept_refl [simp]: "kept rows rows"
  by (auto simp: kept_def)

lemma kept_trans: "kept a b \<Longrightarrow> kept b c \<Longrightarrow> kept a c"
  unfolding kept_def by (metis ident_simps)

lemma enabled_by_kept: "kept rows rows' \<Longrightarrow> enabled_by rows e \<Longrightarrow> enabled_by rows' e"
  unfolding kept_def enabled_by_def by (metis ident_simps)

lemma evidence_kept: "kept rows rows' \<Longrightarrow> evidence g rows i \<Longrightarrow> evidence g rows' i"
  unfolding evidence_def using enabled_by_kept by blast

lemma row_step_kept: "row_step g rows rows' \<Longrightarrow> kept rows rows'"
proof (induction rule: row_step.induct)
  case (change rows f)
  have "ident (f r) = ident r \<and> nr_status (f r) = nr_status r \<and> nr_outcome (f r) = nr_outcome r"
    if "r \<in> set rows" "terminal r" for r
    using change [OF that(1)] that(2) terminal_stays by (cases "f r = r") (auto simp: row_change_def)
  then show ?case by (auto simp: kept_def)
qed (auto simp: kept_def)

lemma row_step_wf: "row_step g rows rows' \<Longrightarrow> rows_wf rows \<Longrightarrow> rows_wf rows'"
proof (induction rule: row_step.induct)
  case (change rows f)
  have c: "ident (f r) = ident r \<and> (\<not> terminal (f r) \<longrightarrow> nr_outcome (f r) = None)" if r: "r \<in> set rows" for r
  proof (cases "f r = r")
    case False
    have rc: "row_change g rows r (f r)" using change(1) [OF r False] .
    show ?thesis
    proof (cases "nr_status (f r) = nr_status r \<and> nr_outcome (f r) = nr_outcome r")
      case True
      then show ?thesis using rc r change.prems by (auto simp: row_change_def rows_wf_def)
    next
      case False
      then have "node_move (nr_status r) (nr_status (f r)) (nr_outcome (f r))" "ident (f r) = ident r"
        using rc by (auto simp: row_change_def)
      then show ?thesis using node_move_outcome by blast
    qed
  qed (use r change.prems in \<open>auto simp: rows_wf_def\<close>)
  then have "map node_run_id (map f rows) = map node_run_id rows" by simp
  then show ?case using change.prems c by (auto simp: rows_wf_def simp del: map_map)
qed (auto simp: rows_wf_def)

lemma row_step_justified:
  assumes "row_step g rows rows'" and "justified g rows"
  shows "justified g rows'"
  using assms row_step_kept [OF assms(1)]
proof (induction rule: row_step.induct)
  case (change rows f)
  show ?case unfolding justified_def
  proof (intro ballI impI)
    fix r'
    assume "r' \<in> set (map f rows)" and s: "started r' \<or> 1 < attempt r'"
    then obtain r where r: "r \<in> set rows" "r' = f r" by auto
    have "evidence g rows (nr_node_id r)"
    proof (cases "started r \<or> 1 < attempt r")
      case True
      then show ?thesis using change.prems(1) r(1) by (auto simp: justified_def)
    next
      case False
      then have "f r \<noteq> r" using r(2) s by auto
      then have rc: "row_change g rows r (f r)" using change(1) r(1) by blast
      then have "started (f r)" using s r(2) False by (auto simp: row_change_def)
      then have "nr_status (f r) \<noteq> nr_status r" using False by (auto simp: started_def)
      then have m: "node_move (nr_status r) (nr_status (f r)) (nr_outcome (f r))"
        and e: "nr_status r = NodeRunStatus.PENDING \<and> nr_status (f r) = NodeRunStatus.READY \<longrightarrow>
          evidence g rows (nr_node_id r) \<or> 1 < attempt r"
        using rc by (auto simp: row_change_def)
      have "nr_status r = NodeRunStatus.PENDING"
        using m False terminal_stays [OF m] by (auto simp: started_def NODE_TERMINAL_def)
      moreover have "nr_status (f r) = NodeRunStatus.READY"
        using m \<open>started (f r)\<close> calculation by (auto simp: started_def)
      ultimately show ?thesis using e False by blast
    qed
    moreover have "nr_node_id r' = nr_node_id r"
      using change(1) [OF r(1)] r(2) by (cases "f r = r") (auto simp: row_change_def)
    ultimately show "evidence g (map f rows) (nr_node_id r')"
      using evidence_kept [OF change.prems(2)] by simp
  qed
next
  case (retry r rows new)
  have "evidence g rows (nr_node_id r)"
    using retry by (auto simp: justified_def started_def)
  then show ?case
    using retry evidence_kept [OF retry.prems(2)] unfolding justified_def
    by (auto simp: started_def)
qed

lemma core_steps:
  assumes "core_step\<^sup>*\<^sup>* (w, rows) (w', rows')"
  shows "run_ident w' = run_ident w" and "kept rows rows'"
    and "rows_wf rows \<Longrightarrow> rows_wf rows'"
    and "justified (compiled_snapshot w) rows \<Longrightarrow> justified (compiled_snapshot w) rows'"
proof -
  have "run_ident w' = run_ident w \<and> kept rows rows' \<and> (rows_wf rows \<longrightarrow> rows_wf rows') \<and>
    (justified (compiled_snapshot w) rows \<longrightarrow> justified (compiled_snapshot w) rows')"
    using assms
  proof (induction rule: rtranclp_induct2)
    case (step w1 rows1 w2 rows2)
    have g: "compiled_snapshot w1 = compiled_snapshot w" using step.IH by (simp add: run_ident_def)
    from step.hyps(2) show ?case
    proof cases
      case row
      then show ?thesis
        using step.IH row_step_kept row_step_wf row_step_justified kept_trans unfolding g by blast
    next
      case run
      then show ?thesis using step.IH by (simp add: run_change_def)
    qed
  qed simp
  then show "run_ident w' = run_ident w" "kept rows rows'" "rows_wf rows \<Longrightarrow> rows_wf rows'"
    "justified (compiled_snapshot w) rows \<Longrightarrow> justified (compiled_snapshot w) rows'"
    by blast+
qed

lemma run_move_terminal: "run_move s t \<Longrightarrow> s \<notin> set RUN_TERMINAL"
  by (cases s) (auto simp: RUN_TERMINAL_def)

lemma core_steps_run:
  assumes "core_step\<^sup>*\<^sup>* (w, rows) (w', rows')"
  shows "run_status w \<in> set RUN_TERMINAL \<Longrightarrow> run_status w' = run_status w"
    and "cancel_requested_at w \<noteq> None \<Longrightarrow> cancel_requested_at w' = cancel_requested_at w"
    and "\<not> (cancel_requested_at w \<noteq> None \<and> merge_finalizing_at w \<noteq> None) \<Longrightarrow>
      \<not> (cancel_requested_at w' \<noteq> None \<and> merge_finalizing_at w' \<noteq> None)"
proof -
  have "(run_status w \<in> set RUN_TERMINAL \<longrightarrow> run_status w' = run_status w) \<and>
    (cancel_requested_at w \<noteq> None \<longrightarrow> cancel_requested_at w' = cancel_requested_at w) \<and>
    (\<not> (cancel_requested_at w \<noteq> None \<and> merge_finalizing_at w \<noteq> None) \<longrightarrow>
      \<not> (cancel_requested_at w' \<noteq> None \<and> merge_finalizing_at w' \<noteq> None))"
    using assms
  proof (induction rule: rtranclp_induct2)
    case (step w1 rows1 w2 rows2)
    from step.hyps(2) show ?case
    proof cases
      case run
      have m: "run_status w2 = run_status w1" if "run_status w1 \<in> set RUN_TERMINAL"
        using run run_move_terminal that by (auto simp: run_change_def)
      show ?thesis using step.IH m run by (fastforce simp: run_change_def)
    qed (use step.IH in simp)
  qed simp
  then show "run_status w \<in> set RUN_TERMINAL \<Longrightarrow> run_status w' = run_status w"
    "cancel_requested_at w \<noteq> None \<Longrightarrow> cancel_requested_at w' = cancel_requested_at w"
    "\<not> (cancel_requested_at w \<noteq> None \<and> merge_finalizing_at w \<noteq> None) \<Longrightarrow>
      \<not> (cancel_requested_at w' \<noteq> None \<and> merge_finalizing_at w' \<noteq> None)"
    by blast+
qed

lemma node_move_pending: "\<not> node_move s NodeRunStatus.PENDING oc"
  by (cases s) auto

lemma row_step_pending:
  "row_step g rows rows' \<Longrightarrow> r' \<in> set rows' \<Longrightarrow> nr_status r' = NodeRunStatus.PENDING \<Longrightarrow> attempt r' \<le> 1 \<Longrightarrow>
     \<exists>r \<in> set rows. ident r = ident r' \<and> nr_status r = NodeRunStatus.PENDING"
proof (induction rule: row_step.induct)
  case (change rows f)
  then obtain r where r: "r \<in> set rows" "r' = f r" by auto
  show ?case
  proof (cases "f r = r")
    case False
    then show ?thesis
      using change(1) [OF r(1) False] r change.prems node_move_pending
      by (intro bexI [OF _ r(1)]) (auto simp: row_change_def)
  qed (use r change.prems in auto)
qed auto

lemma core_steps_pending:
  "core_step\<^sup>*\<^sup>* (w, rows) (w', rows') \<Longrightarrow> r' \<in> set rows' \<Longrightarrow> nr_status r' = NodeRunStatus.PENDING \<Longrightarrow>
     attempt r' \<le> 1 \<Longrightarrow> \<exists>r \<in> set rows. ident r = ident r' \<and> nr_status r = NodeRunStatus.PENDING"
proof (induction arbitrary: r' rule: rtranclp_induct2)
  case (step w1 rows1 w2 rows2)
  from step.hyps(2) show ?case
  proof cases
    case row
    obtain r1 where r1: "r1 \<in> set rows1" "ident r1 = ident r'" "nr_status r1 = NodeRunStatus.PENDING"
      using row_step_pending [OF row(2) step.prems] by blast
    then show ?thesis using step.IH [OF r1(1,3)] step.prems(3) by auto
  qed (use step in blast)
qed auto

subsection \<open>Attempts\<close>

definition attempts_ordered :: "NodeRun list \<Rightarrow> bool" where
  \<comment> \<open>the attempts of a node are listed in order, and only the last one may be pending\<close>
  "attempts_ordered = sorted_wrt (\<lambda>r q. nr_node_id q = nr_node_id r \<longrightarrow>
     attempt r < attempt q \<and> nr_status r \<noteq> NodeRunStatus.PENDING)"

lemma row_step_attempts: "row_step g rows rows' \<Longrightarrow> attempts_ordered rows \<Longrightarrow> attempts_ordered rows'"
proof (induction rule: row_step.induct)
  case (change rows f)
  have f: "ident (f r) = ident r \<and> (nr_status (f r) = NodeRunStatus.PENDING \<longrightarrow> nr_status r = NodeRunStatus.PENDING)"
    if "r \<in> set rows" for r
    using change(1) [OF that] node_move_pending by (cases "f r = r") (auto simp: row_change_def)
  show ?case
    using change.prems unfolding attempts_ordered_def sorted_wrt_map
    by (rule sorted_wrt_mono_rel [rotated]) (use f in auto)
next
  case (retry r rows new)
  have "nr_status q \<noteq> NodeRunStatus.PENDING" if q: "q \<in> set rows" "nr_node_id q = nr_node_id r" for q
  proof (cases "q = r")
    case False
    obtain ys zs where split: "rows = ys @ r # zs" using retry.hyps(1) by (meson split_list)
    have "q \<notin> set zs"
    proof
      assume "q \<in> set zs"
      then have "attempt r < attempt q"
        using retry.prems q(2) by (auto simp: attempts_ordered_def split sorted_wrt_append)
      then show False using retry.hyps(3) [OF q] by simp
    qed
    then have "q \<in> set ys" using q(1) False split by auto
    then show ?thesis
      using retry.prems q(2) by (auto simp: attempts_ordered_def split sorted_wrt_append)
  qed (use retry.hyps(2) in simp)
  then show ?case
    using retry.prems retry.hyps by (force simp: attempts_ordered_def sorted_wrt_append)
qed

lemma row_step_nodes: "row_step g rows rows' \<Longrightarrow> nr_node_id ` set rows' = nr_node_id ` set rows"
proof (induction rule: row_step.induct)
  case (change rows f)
  have "nr_node_id (f r) = nr_node_id r" if "r \<in> set rows" for r
    using change(1) [OF that] by (cases "f r = r") (auto simp: row_change_def)
  then show ?case by (auto simp: image_iff)
qed auto

lemma core_steps_attempts:
  assumes "core_step\<^sup>*\<^sup>* (w, rows) (w', rows')"
  shows "attempts_ordered rows \<Longrightarrow> attempts_ordered rows'" and "nr_node_id ` set rows' = nr_node_id ` set rows"
proof -
  have "(attempts_ordered rows \<longrightarrow> attempts_ordered rows') \<and> nr_node_id ` set rows' = nr_node_id ` set rows"
    using assms
  proof (induction rule: rtranclp_induct2)
    case (step w1 rows1 w2 rows2)
    from step.hyps(2) show ?case
      by cases (use step.IH row_step_attempts row_step_nodes in \<open>fastforce+\<close>)
  qed simp
  then show "attempts_ordered rows \<Longrightarrow> attempts_ordered rows'" "nr_node_id ` set rows' = nr_node_id ` set rows"
    by blast+
qed

lemma dict_by_last:
  assumes "sorted_wrt (\<lambda>r q. key q = key r \<longrightarrow> \<not> P r) rows" and "r \<in> set rows" and "P r"
  shows "dict_by key rows (key r) = Some r"
proof -
  obtain ys zs where split: "rows = ys @ r # zs" using assms(2) by (meson split_list)
  have "key q \<noteq> key r" if "q \<in> set zs" for q
    using assms(1,3) that by (auto simp: split sorted_wrt_append)
  then have "dict_by key zs (key r) = None" by force
  then show ?thesis unfolding split dict_by_def by (simp add: map_add_def)
qed

lemma attempts_ordered_pending:
  assumes "attempts_ordered rows" and "r \<in> set rows" and "nr_status r = NodeRunStatus.PENDING"
  shows "dict_by nr_node_id rows (nr_node_id r) = Some r"
  by (rule dict_by_last [where P = "\<lambda>r. nr_status r = NodeRunStatus.PENDING", OF _ assms(2,3)])
    (rule sorted_wrt_mono_rel [OF _ assms(1) [unfolded attempts_ordered_def]], blast)

end
