(* ===== verification/Run_Refinement.thy ===== *)
theory Run_Refinement
  imports Run_Machine
begin

text \<open>
  The transactions of the run repository refine the abstract machine of \<open>Run_Machine\<close>: what a
  successful transaction does to the run row and to the node rows is a sequence of elementary
  steps. The simulation also keeps track of which node runs own a task, because a task is what
  entitles a pending retry to be activated.
\<close>

subsection \<open>The simulation relation\<close>

definition task_nodes :: "RunStore \<Rightarrow> string set" where
  "task_nodes st = set (map task_node_run_id (tasks st))"

definition task_allowed :: "RunStore \<Rightarrow> string \<Rightarrow> bool" where
  \<comment> \<open>a node run with a task is not a first attempt that is still pending\<close>
  "task_allowed st i \<longleftrightarrow> (\<forall>r \<in> set (node_runs st).
     node_run_id r = i \<longrightarrow> nr_status r = NodeRunStatus.PENDING \<longrightarrow> 1 < attempt r)"

definition tasks_ok :: "RunStore \<Rightarrow> bool" where
  "tasks_ok st \<longleftrightarrow> (\<forall>i \<in> task_nodes st. task_allowed st i)"

definition sim :: "RunStore \<Rightarrow> RunStore \<Rightarrow> bool" where
  "sim st st' \<longleftrightarrow> core_step\<^sup>*\<^sup>* (core st) (core st') \<and>
     (\<forall>i \<in> task_nodes st' - task_nodes st. task_allowed st' i)"

lemma task_allowed_sim:
  assumes "core_step\<^sup>*\<^sup>* (core st) (core st')" and "task_allowed st i"
  shows "task_allowed st' i"
  unfolding task_allowed_def
proof (intro ballI impI)
  fix r'
  assume r': "r' \<in> set (node_runs st')" "node_run_id r' = i" "nr_status r' = NodeRunStatus.PENDING"
  show "1 < attempt r'"
  proof (rule ccontr)
    assume "\<not> 1 < attempt r'"
    then obtain r where "r \<in> set (node_runs st)" "ident r = ident r'" "nr_status r = NodeRunStatus.PENDING"
      using core_steps_pending [OF assms(1) r'(1,3)] by auto
    then show False using assms(2) r'(2) \<open>\<not> 1 < attempt r'\<close> by (auto simp: task_allowed_def)
  qed
qed

lemma sim_refl [simp]: "sim st st"
  by (simp add: sim_def)

lemma sim_trans: "sim a b \<Longrightarrow> sim b c \<Longrightarrow> sim a c"
  unfolding sim_def using task_allowed_sim [of b c] by (meson DiffD1 DiffD2 DiffI rtranclp_trans)

lemma sim_tasks_ok: "sim st st' \<Longrightarrow> tasks_ok st \<Longrightarrow> tasks_ok st'"
  unfolding sim_def tasks_ok_def using task_allowed_sim [of st st'] by blast

lemma sim_wf: "sim st st' \<Longrightarrow> rows_wf (node_runs st) \<Longrightarrow> rows_wf (node_runs st')"
  unfolding sim_def using core_steps(3) by blast

lemma sim_step: "core_step (core st) (core st') \<Longrightarrow> task_nodes st' \<subseteq> task_nodes st \<Longrightarrow> sim st st'"
  unfolding sim_def by blast

lemma sim_same: "run st' = run st \<Longrightarrow> node_runs st' = node_runs st \<Longrightarrow> task_nodes st' \<subseteq> task_nodes st \<Longrightarrow> sim st st'"
  unfolding sim_def by auto

subsection \<open>Elementary updates\<close>

lemma emit_fields [simp]:
  "run (emit ev st) = run st" "node_runs (emit ev st) = node_runs st" "tasks (emit ev st) = tasks st"
  "run (append_run_state l p t st) = run st" "node_runs (append_run_state l p t st) = node_runs st"
  "tasks (append_run_state l p t st) = tasks st"
  "run (append_node_state l r s oc x y st) = run st"
  "node_runs (append_node_state l r s oc x y st) = node_runs st"
  "tasks (append_node_state l r s oc x y st) = tasks st"
  "run (append_task_state l k i tt pp ss y st) = run st"
  "node_runs (append_task_state l k i tt pp ss y st) = node_runs st"
  "tasks (append_task_state l k i tt pp ss y st) = tasks st"
  by (simp_all add: emit_def append_run_state_def append_node_state_def append_task_state_def)

lemma sim_emit [simp]:
  "sim st (emit ev st') \<longleftrightarrow> sim st st'" "sim st (append_run_state l p t st') \<longleftrightarrow> sim st st'"
  "sim st (append_node_state l r s oc x y st') \<longleftrightarrow> sim st st'"
  "sim st (append_task_state l k i tt pp ss y st') \<longleftrightarrow> sim st st'"
  by (simp_all add: sim_def task_nodes_def task_allowed_def)

lemma update_nodeD:
  assumes "update_node i S f st = Inr st'"
  shows "st' = st\<lparr>node_runs := map (\<lambda>r. if node_run_id r = i \<and> nr_status r \<in> set S then f r else r)
      (node_runs st)\<rparr>"
    and "\<exists>r \<in> set (node_runs st). node_run_id r = i \<and> nr_status r \<in> set S"
proof -
  let ?P = "\<lambda>r. node_run_id r = i \<and> nr_status r \<in> set S"
  have "length (filter ?P (node_runs st)) = 1"
    using assms by (simp add: update_node_def split: if_splits)
  then have "filter ?P (node_runs st) \<noteq> []" by auto
  then show "\<exists>r \<in> set (node_runs st). ?P r" unfolding filter_empty_conv by blast
qed (use assms in \<open>simp add: update_node_def split: if_splits\<close>)

lemma update_node_idents:
  assumes "update_node i S f st = Inr st'" and "\<And>r. ident (f r) = ident r"
  shows "map ident (node_runs st') = map ident (node_runs st)"
  using assms(2) by (auto simp: update_nodeD(1) [OF assms(1)] simp del: ident_simps)

lemma update_node_sim:
  assumes "update_node i S f st = Inr st'"
    and "\<And>r. r \<in> set (node_runs st) \<Longrightarrow> node_run_id r = i \<Longrightarrow> nr_status r \<in> set S \<Longrightarrow>
      row_change (compiled_snapshot (run st)) (node_runs st) r (f r)"
  shows "sim st st'"
proof (rule sim_step)
  show "core_step (core st) (core st')"
    unfolding update_nodeD(1) [OF assms(1)]
    using assms(2) by (auto intro!: core_step.row row_step.change)
  show "task_nodes st' \<subseteq> task_nodes st" by (simp add: update_nodeD(1) [OF assms(1)] task_nodes_def)
qed

lemma update_node_move:
  assumes "update_node i S f st = Inr st'" and "rows_wf (node_runs st)"
    and "\<And>r. nr_outcome r = None \<Longrightarrow> nr_status r \<in> set S \<Longrightarrow> ident (f r) = ident r \<and>
      nr_status r \<notin> set NODE_TERMINAL \<and> node_move (nr_status r) (nr_status (f r)) (nr_outcome (f r)) \<and>
      (nr_status r = NodeRunStatus.PENDING \<longrightarrow> nr_status (f r) \<noteq> NodeRunStatus.READY)"
    and "set S \<inter> set NODE_TERMINAL = {}"
  shows "sim st st'"
proof (rule update_node_sim [OF assms(1)])
  fix r
  assume "r \<in> set (node_runs st)" "nr_status r \<in> set S"
  then show "row_change (compiled_snapshot (run st)) (node_runs st) r (f r)"
    using assms(2-4) by (auto simp: row_change_def rows_wf_def)
qed

lemma update_run_sim:
  assumes "update_run P f st = Inr st'" and "P (run st) \<Longrightarrow> run_change (run st) (f (run st))"
  shows "sim st st'"
  using assms by (intro sim_step) (auto simp: update_run_def task_nodes_def intro: core_step.run split: if_splits)

lemma update_runD: "update_run P f st = Inr st' \<Longrightarrow> P (run st) \<and> st' = st\<lparr>run := f (run st)\<rparr>"
  by (auto simp: update_run_def split: if_splits)

lemma update_task_sim:
  assumes "update_task i S f st = Inr st'" and "\<And>t. task_node_run_id (f t) = task_node_run_id t"
  shows "sim st st'"
  using assms by (intro sim_same) (auto simp: update_task_def task_nodes_def split: if_splits)

subsection \<open>Reconciliation\<close>

lemma incoming_state_True:
  "incoming_state by_node es satisfied = Inr (Some True) \<Longrightarrow> satisfied \<or>
     (\<exists>e \<in> set es. \<exists>u. by_node (from_node e) = Some u \<and> terminal u \<and>
        edge_satisfied (condition e) (nr_status u) (nr_outcome u))"
  by (induction es arbitrary: satisfied) (fastforce split: option.splits if_splits)+

lemma pending_target_evidence:
  assumes "pending_target g (dict_by nr_node_id rows) i = Inr (Some target)"
  shows "target = NodeRunStatus.SKIPPED \<or> target = NodeRunStatus.READY \<and> evidence g rows i"
proof -
  obtain node where node: "find (\<lambda>n. node_id n = i) (compiled_nodes g) = Some node"
    using assms by (auto simp: pending_target_def split: option.splits)
  then have n: "node \<in> set (compiled_nodes g)" "node_id node = i" by (auto simp: find_Some_iff)
  show ?thesis
  proof (cases "node_type node = INPUT")
    case True
    then show ?thesis using assms node n by (auto simp: pending_target_def evidence_def)
  next
    case False
    then obtain b where b: "incoming_state (dict_by nr_node_id rows)
        (filter (\<lambda>e. to_node e = i) (compiled_edges g)) False = Inr (Some b)"
      and t: "target = (if b then NodeRunStatus.READY else NodeRunStatus.SKIPPED)"
      using assms node by (auto simp: pending_target_def and_then_Inr)
    show ?thesis
    proof (cases b)
      case True
      have "\<exists>e \<in> set (compiled_edges g). to_node e = i \<and> (\<exists>u. dict_by nr_node_id rows (from_node e) = Some u \<and>
          terminal u \<and> edge_satisfied (condition e) (nr_status u) (nr_outcome u))"
        using incoming_state_True [of "dict_by nr_node_id rows" _ False] b True by fastforce
      then have "evidence g rows i"
        unfolding evidence_def enabled_by_def using dict_by_SomeD by metis
      then show ?thesis using t True by simp
    qed (use t in simp)
  qed
qed

lemma reconcile_node_sim:
  assumes r: "reconcile_node g (dict_by nr_node_id rows0) lease now i (st, c) = Inr (st', c')"
    and g: "g = compiled_snapshot (run st)" and wf: "rows_wf (node_runs st)"
    and base: "core_step\<^sup>*\<^sup>* (run st, rows0) (core st)"
    and idents: "map ident (node_runs st) = map ident rows0"
  shows "sim st st' \<and> run st' = run st \<and> map ident (node_runs st') = map ident rows0"
proof (cases "dict_by nr_node_id rows0 i")
  case (Some row)
  then have row: "row \<in> set rows0" "nr_node_id row = i" using dict_by_SomeD by fastforce+
  show ?thesis
  proof (cases "nr_status row = NodeRunStatus.PENDING")
    case True
    then obtain t where t: "pending_target g (dict_by nr_node_id rows0) i = Inr t"
      using r Some by (auto simp: reconcile_node_def and_then_Inr)
    show ?thesis
    proof (cases t)
      case None
      then show ?thesis using r Some True t idents by (simp add: reconcile_node_def and_then_def)
    next
      case (Some target)
      let ?f = "\<lambda>r. r\<lparr>nr_status := target,
        nr_finished_at := (if target = NodeRunStatus.SKIPPED then Some now else None)\<rparr>"
      obtain st1 where u: "update_node (node_run_id row) [NodeRunStatus.PENDING] ?f st = Inr st1"
        and st': "sim st st' \<longleftrightarrow> sim st st1" "run st' = run st1" "node_runs st' = node_runs st1"
        using r \<open>dict_by nr_node_id rows0 i = Some row\<close> True t Some
        by (auto simp: reconcile_node_def and_then_Inr)
      have ev: "target = NodeRunStatus.SKIPPED \<or> target = NodeRunStatus.READY \<and> evidence g (node_runs st) i"
        using pending_target_evidence [of g rows0 i target] t Some
          evidence_kept [OF core_steps(2) [OF base]] by blast
      have same: "nr_node_id q = i" if "q \<in> set (node_runs st)" "node_run_id q = node_run_id row" for q
      proof -
        have "ident q \<in> set (map ident rows0)"
          unfolding idents [symmetric] using that(1) by (simp del: ident_simps)
        then obtain q0 where q0: "q0 \<in> set rows0" "ident q0 = ident q"
          by (auto simp del: ident_simps)
        have "distinct (map node_run_id rows0)"
        proof -
          have "map node_run_id rows0 = map fst (map ident rows0)" by (simp add: ident_def)
          also have "\<dots> = map node_run_id (node_runs st)" by (simp add: ident_def flip: idents)
          finally show ?thesis using wf by (simp add: rows_wf_def)
        qed
        then have "inj_on node_run_id (set rows0)" by (simp add: distinct_map)
        moreover have "node_run_id q0 = node_run_id row" using q0(2) that(2) by simp
        ultimately have "q0 = row" using q0(1) row(1) by (auto dest: inj_onD)
        then show ?thesis using q0(2) row(2) by simp
      qed
      have "sim st st1"
      proof (rule update_node_sim [OF u])
        fix q
        assume q: "q \<in> set (node_runs st)" "node_run_id q = node_run_id row"
          "nr_status q \<in> set [NodeRunStatus.PENDING]"
        then have "nr_outcome q = None" using wf by (auto simp: rows_wf_def NODE_TERMINAL_def)
        then show "row_change (compiled_snapshot (run st)) (node_runs st) q (?f q)"
          using q ev same [OF q(1,2)] by (auto simp: row_change_def g)
      qed
      moreover have "run st1 = run st" "map ident (node_runs st1) = map ident rows0"
        using idents update_node_idents [OF u] by (simp_all add: update_nodeD(1) [OF u])
      ultimately show ?thesis using st' by simp
    qed
  qed (use r Some idents in \<open>simp add: reconcile_node_def\<close>)
qed (use r in \<open>simp add: reconcile_node_def del: dict_by_None\<close>)

lemma reconcile_pass_sim:
  assumes "reconcile_pass g (dict_by nr_node_id rows0) lease now is (st, c) = Inr (st', c')"
    and "g = compiled_snapshot (run st)" and "rows_wf (node_runs st)"
    and "core_step\<^sup>*\<^sup>* (run st, rows0) (core st)" and "map ident (node_runs st) = map ident rows0"
  shows "sim st st' \<and> run st' = run st"
  using assms
proof (induction "is" arbitrary: st c)
  case (Cons i "is")
  then obtain st1 c1 where 1: "reconcile_node g (dict_by nr_node_id rows0) lease now i (st, c) = Inr (st1, c1)"
    and 2: "reconcile_pass g (dict_by nr_node_id rows0) lease now is (st1, c1) = Inr (st', c')"
    by (auto simp: and_then_Inr)
  have s1: "sim st st1" "run st1 = run st" "map ident (node_runs st1) = map ident rows0"
    using reconcile_node_sim [OF 1 Cons.prems(2-5)] by blast+
  have "core_step\<^sup>*\<^sup>* (run st1, rows0) (core st1)"
    using Cons.prems(4) s1(1) unfolding s1(2) sim_def by (metis rtranclp_trans s1(2))
  then have "sim st1 st' \<and> run st' = run st1"
    using Cons.IH [OF 2] Cons.prems(2) sim_wf [OF s1(1) Cons.prems(3)] s1(2,3) by simp
  then show ?case using sim_trans [OF s1(1)] s1(2) by simp
qed simp

lemma reconcile_loop_sim:
  "reconcile_loop g order lease now st = Inr st' \<Longrightarrow> g = compiled_snapshot (run st) \<Longrightarrow>
     rows_wf (node_runs st) \<Longrightarrow> sim st st' \<and> run st' = run st"
proof (induction g order lease now st rule: reconcile_loop.induct)
  case (1 g order lease now st)
  from "1.prems"(1) obtain st1 c where
    p: "reconcile_pass g (dict_by nr_node_id (node_runs st)) lease now order (st, False) = Inr (st1, c)"
    and st': "(if c then reconcile_loop g order lease now st1 else Inr st1) = Inr st'"
    by (subst (asm) reconcile_loop.simps) (auto split: sum.splits)
  have s1: "sim st st1" "run st1 = run st"
    using reconcile_pass_sim [OF p "1.prems"(2,3)] by simp_all
  show ?case
  proof (cases c)
    case True
    have "sim st1 st' \<and> run st' = run st1"
      using "1.IH" [OF p refl True] st' True "1.prems"(2) sim_wf [OF s1(1) "1.prems"(3)] s1(2) by simp
    then show ?thesis using sim_trans [OF s1(1)] s1(2) by simp
  qed (use st' s1 in simp)
qed

lemma finish_run_sim: "finish_run lease (run_target out rows) now st = Inr st' \<Longrightarrow> sim st st'"
  unfolding finish_run_def and_then_Inr
  by (auto simp: run_change_def run_ident_def run_target_def elim!: update_run_sim)

lemma reconcile_sim:
  assumes "reconcile lease now st = Inr st'" and "rows_wf (node_runs st)"
  shows "sim st st'"
proof -
  obtain order st1 where l: "reconcile_loop (compiled_snapshot (run st)) order lease now st = Inr st1"
    and f: "st' = st1 \<or> (\<exists>out. finish_run lease (run_target out (node_runs st1)) now st1 = Inr st')"
    using assms(1) by (auto simp: reconcile_def Let_def and_then_Inr split: if_splits option.splits)
  have "sim st st1" using reconcile_loop_sim [OF l refl assms(2)] by blast
  then show ?thesis using f finish_run_sim sim_trans by blast
qed

subsection \<open>The transactions\<close>

lemma fencedD: "fenced st lease now k = Inr y \<Longrightarrow> master_valid st lease now \<and> k = Inr y"
  by (auto simp: fenced_def split: if_splits)

lemma known_runD: "known_run st wid k = Inr y \<Longrightarrow> workflow_run_id (run st) = wid \<and> k = Inr y"
  by (auto simp: known_run_def split: if_splits)

lemma with_nodeD:
  "with_node st i k = Inr y \<Longrightarrow> \<exists>r \<in> set (node_runs st). node_run_id r = i \<and> k r = Inr y"
  by (auto simp: with_node_def find_node_run_def find_Some_iff split: option.splits)

lemmas tx_simps = and_then_Inr run_change_def run_ident_def

lemma start_run_sim: "start_run lease now st = Inr st' \<Longrightarrow> sim st st'"
  unfolding start_run_def
  by (auto simp: tx_simps split: if_splits elim!: update_run_sim)

lemma start_and_reconcile_sim:
  assumes "start_and_reconcile H cd wid lease now st = Inr st'" and "rows_wf (node_runs st)"
  shows "sim st st'"
proof -
  obtain st1 where 1: "start_run lease now st = Inr st1"
    "st' = st1 \<or> reconcile lease now st1 = Inr st'"
    using assms(1) by (auto simp: start_and_reconcile_def and_then_Inr dest!: fencedD known_runD split: if_splits)
  note s = start_run_sim [OF 1(1)]
  show ?thesis using 1(2) reconcile_sim [OF _ sim_wf [OF s assms(2)]] sim_trans [OF s] s by blast
qed

lemma claim_next_cases:
  assumes "claim_next H cd wid lease now st = Inr (st', c)"
  obtains "st' = st" "c = None"
  | r st1 where "update_node (node_run_id r) [NodeRunStatus.READY]
      (\<lambda>q. q\<lparr>nr_status := NodeRunStatus.RUNNING, nr_started_at := Some now\<rparr>) st = Inr st1"
    "st' = append_node_state lease r NodeRunStatus.RUNNING None [] None st1"
    "c = find_node_run st' (node_run_id r)" "r \<in> set (node_runs st)"
proof -
  note a = assms [unfolded claim_next_def, THEN fencedD, THEN conjunct2, THEN known_runD, THEN conjunct2]
  show ?thesis
  proof (cases "run_status (run st) = WorkflowRunStatus.RUNNING \<and> \<not> cancelling st")
    case True
    then obtain order sel where n: "next_ready (dict_by nr_node_id (node_runs st)) order = Inr sel"
      and b: "(case sel of None \<Rightarrow> Inr (st, None) | Some r \<Rightarrow> and_then
            (update_node (node_run_id r) [NodeRunStatus.READY]
              (\<lambda>q. q\<lparr>nr_status := NodeRunStatus.RUNNING, nr_started_at := Some now\<rparr>) st)
            (\<lambda>st'. let st'' = append_node_state lease r NodeRunStatus.RUNNING None [] None st'
              in Inr (st'', find_node_run st'' (node_run_id r)))) = Inr (st', c)"
      using a by (auto simp: and_then_Inr split: if_splits)
    show ?thesis
    proof (cases sel)
      case None
      then show ?thesis using b that(1) by simp
    next
      case (Some r)
      have "r \<in> set (node_runs st)"
        using n Some dict_by_SomeD
        by (induction order) (fastforce simp: next_ready_def split: option.splits if_splits)+
      then show ?thesis using b Some that(2) by (auto simp: and_then_Inr Let_def)
    qed
  qed (use a that(1) in \<open>auto split: if_splits\<close>)
qed

lemma claim_next_sim:
  assumes "claim_next H cd wid lease now st = Inr (st', c)" and wf: "rows_wf (node_runs st)"
  shows "sim st st'"
proof (cases rule: claim_next_cases [OF assms(1)])
  case (2 r st1)
  have "sim st st1" using wf by (intro update_node_move [OF 2(1)]) (auto simp: NODE_TERMINAL_def)
  then show ?thesis using 2(2) by simp
qed simp

lemma allowed_outcomes_move: "x \<in> set (allowed_outcomes t) \<Longrightarrow> node_move NodeRunStatus.RUNNING t (Some x)"
  by auto

lemma complete_node_sim:
  assumes "complete_node H i target oc summary lease output error now st = Inr st'"
    and wf: "rows_wf (node_runs st)"
  shows "sim st st'"
proof -
  obtain st1 where u: "update_node i [NodeRunStatus.RUNNING]
      (\<lambda>q. q\<lparr>nr_status := target, nr_outcome := Some oc, output_artifact_id := output,
         nr_error_code := error, nr_finished_at := Some now\<rparr>) st = Inr st1"
    and "sim st st' = sim st st1" and oc: "oc \<in> set (allowed_outcomes target)"
    using assms(1)
    by (auto simp: complete_node_def and_then_Inr dest!: fencedD with_nodeD split: if_splits)
  moreover have "sim st st1"
    using wf allowed_outcomes_move [OF oc] by (intro update_node_move [OF u]) (auto simp: NODE_TERMINAL_def)
  ultimately show ?thesis by simp
qed

end
