(* ===== verification/Run_Steps.thy ===== *)
theory Run_Steps
  imports Run_Refinement
begin

text \<open>
  The simulation of \<open>Run_Refinement\<close> for the remaining transactions, the step relation that
  collects all of them, and what follows for every sequence of transactions.
\<close>

lemmas status_simps = NODE_TERMINAL_def RUN_TERMINAL_def NODE_LIVE_def

lemma if_error: "(if b then Inl e else k) = Inr y \<longleftrightarrow> \<not> b \<and> k = Inr y"
  by simp

lemma if_result: "(if b then Inr x else k) = Inr y \<longleftrightarrow> b \<and> x = y \<or> \<not> b \<and> k = Inr y"
  by auto

lemma map_sum_fst_Inr: "map_sum id fst x = Inr a \<longleftrightarrow> (\<exists>b. x = Inr (a, b))"
  by (cases x) auto

subsection \<open>Cancellation and quarantine\<close>

lemma attach_completed_node_artifact_sim:
  assumes "attach_completed_node_artifact i art lease now st = Inr st'"
  shows "sim st st'"
proof -
  have "st' = st \<or> update_node i [NodeRunStatus.COMPLETED] (\<lambda>q. q\<lparr>output_artifact_id := Some art\<rparr>) st = Inr st'"
    using assms by (auto simp: attach_completed_node_artifact_def dest!: fencedD with_nodeD split: if_splits option.splits)
  then show ?thesis by (auto simp: row_change_def intro: update_node_sim)
qed

lemma request_cancel_sim: "request_cancel wid lease now st = Inr st' \<Longrightarrow> sim st st'"
  unfolding request_cancel_def
  by (auto simp: tx_simps dest!: fencedD known_runD split: if_splits elim!: update_run_sim)

lemma cancel_tasks_of_nodes [simp]:
  "map task_node_run_id (cancel_tasks_of i now ts) = map task_node_run_id ts"
  by (auto simp: cancel_tasks_of_def)

lemma cancel_nodes_run: "cancel_nodes lease now rs st = Inr st' \<Longrightarrow> run st' = run st"
  by (induction rs arbitrary: st) (auto simp: and_then_Inr dest!: update_nodeD(1))

lemma cancel_nodes_sim:
  "cancel_nodes lease now rs st = Inr st' \<Longrightarrow> rows_wf (node_runs st) \<Longrightarrow> sim st st'"
proof (induction rs arbitrary: st)
  case (Cons r rs)
  obtain st1 where u: "update_node (node_run_id r) NODE_LIVE
      (\<lambda>q. q\<lparr>nr_status := NodeRunStatus.CANCELLED, nr_outcome := Some NodeOutcome.CANCELLED,
         nr_error_code := Some ''workflow_cancelled'', nr_finished_at := Some now\<rparr>) st = Inr st1"
    and c: "cancel_nodes lease now rs
       (append_node_state lease r NodeRunStatus.CANCELLED (Some NodeOutcome.CANCELLED)
          ''Workflow cancellation completed.'' (Some ''workflow_cancelled'')
          (st1\<lparr>tasks := cancel_tasks_of (node_run_id r) now (tasks st1)\<rparr>)) = Inr st'"
    using Cons.prems(1) by (auto simp: and_then_Inr)
  let ?st2 = "st1\<lparr>tasks := cancel_tasks_of (node_run_id r) now (tasks st1)\<rparr>"
  have "sim st st1"
    using Cons.prems(2) by (intro update_node_move [OF u]) (auto simp: status_simps)
  moreover have "sim st1 ?st2" by (intro sim_same) (auto simp: task_nodes_def simp del: set_map)
  ultimately have "sim st ?st2" using sim_trans by blast
  then have s: "sim st (append_node_state lease r NodeRunStatus.CANCELLED (Some NodeOutcome.CANCELLED)
      ''Workflow cancellation completed.'' (Some ''workflow_cancelled'') ?st2)" by simp
  show ?case using sim_trans [OF s Cons.IH [OF c sim_wf [OF s Cons.prems(2)]]] .
qed simp

lemma complete_cancel_in_sim:
  assumes "complete_cancel_in lease now st = Inr st'" and wf: "rows_wf (node_runs st)"
  shows "sim st st'"
proof (cases "run_status (run st) \<in> set RUN_TERMINAL")
  case False
  then obtain st1 st2 where
    c: "cancel_nodes lease now (filter (\<lambda>r. nr_status r \<in> set NODE_LIVE) (node_runs st)) st = Inr st1"
    and u: "update_run (\<lambda>w. run_status w \<notin> set RUN_TERMINAL \<and> merge_finalizing_at w = None)
        (\<lambda>w. w\<lparr>run_status := WorkflowRunStatus.CANCELLED, run_finished_at := Some now\<rparr>) st1 = Inr st2"
    and st': "sim st st' = sim st st2"
    using assms(1) by (auto simp: complete_cancel_in_def and_then_Inr split: if_splits)
  have "sim st1 st2"
  proof (rule update_run_sim [OF u])
    assume "run_status (run st1) \<notin> set RUN_TERMINAL \<and> merge_finalizing_at (run st1) = None"
    then have "run_move (run_status (run st1)) WorkflowRunStatus.CANCELLED"
      by (cases "run_status (run st1)") (auto simp: RUN_TERMINAL_def)
    then show "run_change (run st1) ((run st1)\<lparr>run_status := WorkflowRunStatus.CANCELLED,
        run_finished_at := Some now\<rparr>)"
      by (auto simp: run_change_def run_ident_def)
  qed
  then show ?thesis using cancel_nodes_sim [OF c wf] sim_trans st' by blast
qed (use assms in \<open>simp add: complete_cancel_in_def\<close>)

lemma complete_cancel_sim:
  "complete_cancel wid lease now st = Inr st' \<Longrightarrow> rows_wf (node_runs st) \<Longrightarrow> sim st st'"
  by (auto simp: complete_cancel_def dest!: fencedD known_runD intro: complete_cancel_in_sim)

definition hook_ok :: "(RunStore \<Rightarrow> run_error + RunStore) \<Rightarrow> bool" where
  \<comment> \<open>the hooks of the approval and capability repositories write other tables\<close>
  "hook_ok f \<longleftrightarrow> (\<forall>s s'. f s = Inr s' \<longrightarrow> run s' = run s \<and> node_runs s' = node_runs s \<and> tasks s' = tasks s)"

lemma hook_sim: "hook_ok f \<Longrightarrow> f s = Inr s' \<Longrightarrow> sim s s'"
  unfolding hook_ok_def by (intro sim_same) (auto simp: task_nodes_def)

lemma cancel_with_cleanup_sim:
  assumes "cancel_with_cleanup invalidate revoke wid lease now st = Inr st'" and wf: "rows_wf (node_runs st)"
    and h: "hook_ok invalidate" "hook_ok revoke"
  shows "sim st st'"
proof -
  have "st' = st \<or> (\<exists>st1 st2 st3 st4.
      (if cancelling st then Inr st
       else update_run (\<lambda>w. cancel_requested_at w = None \<and> merge_finalizing_at w = None)
         (\<lambda>w. w\<lparr>cancel_requested_at := Some now\<rparr>) st) = Inr st1 \<and>
      invalidate st1 = Inr st2 \<and> revoke st2 = Inr st3 \<and> complete_cancel_in lease now st3 = Inr st4 \<and>
      sim st st' = sim st st4)"
    using assms(1)
    by (auto simp: cancel_with_cleanup_def and_then_Inr dest!: fencedD known_runD split: if_splits)
  then show ?thesis
  proof (elim disjE exE conjE)
    fix st1 st2 st3 st4
    assume 1: "(if cancelling st then Inr st
       else update_run (\<lambda>w. cancel_requested_at w = None \<and> merge_finalizing_at w = None)
         (\<lambda>w. w\<lparr>cancel_requested_at := Some now\<rparr>) st) = Inr st1"
      and 2: "invalidate st1 = Inr st2" "revoke st2 = Inr st3" "complete_cancel_in lease now st3 = Inr st4"
      and st': "sim st st' = sim st st4"
    have "sim st st1"
      using 1 by (auto simp: tx_simps split: if_splits elim!: update_run_sim)
    then have s: "sim st st3"
      using hook_sim [OF h(1) 2(1)] hook_sim [OF h(2) 2(2)] sim_trans by blast
    show ?thesis
      using st' sim_trans [OF s complete_cancel_in_sim [OF 2(3) sim_wf [OF s wf]]] by simp
  qed simp
qed

lemma orphan_nodes_sim: "rows_wf (node_runs st) \<Longrightarrow> sim st (orphan_nodes lease reason now rs st)"
proof (induction rs arbitrary: st)
  case (Cons r rs)
  let ?f = "\<lambda>q. if node_run_id q = node_run_id r \<and>
       nr_status q \<in> {NodeRunStatus.RUNNING, NodeRunStatus.WAITING_APPROVAL}
     then q\<lparr>nr_status := NodeRunStatus.ORPHANED, nr_error_code := Some (take 200 reason),
       nr_finished_at := (case nr_finished_at q of None \<Rightarrow> Some now | t \<Rightarrow> t)\<rparr> else q"
  let ?st1 = "st\<lparr>node_runs := map ?f (node_runs st)\<rparr>"
  have "row_step (compiled_snapshot (run st)) (node_runs st) (map ?f (node_runs st))"
  proof (rule row_step.change)
    fix q
    assume q: "q \<in> set (node_runs st)" "?f q \<noteq> q"
    then have "nr_status q \<in> {NodeRunStatus.RUNNING, NodeRunStatus.WAITING_APPROVAL}"
      and "nr_outcome q = None"
      using Cons.prems by (auto simp: rows_wf_def NODE_TERMINAL_def split: if_splits)
    then show "row_change (compiled_snapshot (run st)) (node_runs st) q (?f q)"
      by (auto simp: row_change_def)
  qed
  then have "sim st ?st1" by (intro sim_step) (auto simp: task_nodes_def intro: core_step.row)
  then have s: "sim st (append_node_state lease r NodeRunStatus.ORPHANED None
      ''Recovery quarantined an uncertain node.'' (Some (take 200 reason)) ?st1)" by simp
  show ?case using Cons.IH [OF sim_wf [OF s Cons.prems]] sim_trans [OF s] by simp
qed simp

lemma orphan_run_sim: "sim st (orphan_run lease now st)"
proof -
  have "run_change (run st) (run (orphan_run lease now st))"
    by (cases "run_status (run st)") (auto simp: orphan_run_def run_change_def run_ident_def)
  then show ?thesis
    by (intro sim_step) (auto simp: orphan_run_def task_nodes_def intro: core_step.run)
qed

lemma mark_orphaned_sim:
  "mark_orphaned wid lease reason only now st = Inr st' \<Longrightarrow> rows_wf (node_runs st) \<Longrightarrow> sim st st'"
  by (auto simp: mark_orphaned_def Let_def dest!: fencedD known_runD split: if_splits
      intro: orphan_nodes_sim sim_trans [OF orphan_nodes_sim orphan_run_sim])

subsection \<open>Waiting for an approval\<close>

lemma wait_for_approval_sim:
  assumes "wait_for_approval i error summary lease r st = Inr st'" and wf: "rows_wf (node_runs st)"
  shows "sim st st'"
proof -
  obtain st1 st2 where u: "update_node i [NodeRunStatus.RUNNING]
      (\<lambda>q. q\<lparr>nr_status := NodeRunStatus.WAITING_APPROVAL, nr_error_code := Some error,
         nr_finished_at := None\<rparr>) st = Inr st1"
    and v: "update_run (\<lambda>w. run_status w = WorkflowRunStatus.RUNNING \<and> cancel_requested_at w = None)
      (\<lambda>w. w\<lparr>run_status := WorkflowRunStatus.WAITING_APPROVAL\<rparr>) st1 = Inr st2"
    and st': "sim st st' = sim st st2"
    using assms(1) by (auto simp: wait_for_approval_def and_then_Inr)
  have "sim st st1" using wf by (intro update_node_move [OF u]) (auto simp: NODE_TERMINAL_def)
  moreover have "sim st1 st2" by (intro update_run_sim [OF v]) (auto simp: tx_simps)
  ultimately show ?thesis using st' sim_trans by blast
qed

lemma running_run_sim:
  assumes "update_run (\<lambda>w. run_status w = WorkflowRunStatus.WAITING_APPROVAL \<and> cancel_requested_at w = None)
      (\<lambda>w. w\<lparr>run_status := WorkflowRunStatus.RUNNING\<rparr>) st = Inr st'"
  shows "sim st st'"
  by (intro update_run_sim [OF assms]) (auto simp: tx_simps)

lemma emit_reconcile_sim:
  assumes s: "sim st st1" and wf: "rows_wf (node_runs st)" and "reconcile lease now st1 = Inr st'"
  shows "sim st st'"
  using sim_trans [OF s reconcile_sim [OF assms(3) sim_wf [OF s wf]]] .

lemma resume_waiting_sim:
  assumes "resume_waiting lease approved now r st = Inr st'" and wf: "rows_wf (node_runs st)"
  shows "sim st st'"
proof -
  let ?target = "if approved then NodeRunStatus.READY else NodeRunStatus.COMPLETED"
  let ?oc = "if approved then None else Some NodeOutcome.REJECTED"
  let ?st3 = "\<lambda>st2. append_run_state lease WorkflowRunStatus.WAITING_APPROVAL WorkflowRunStatus.RUNNING
      (append_node_state lease r ?target ?oc
        (if approved then ''Approval granted.'' else ''Approval rejected.'')
        (if approved then None else Some ''approval_rejected'') st2)"
  obtain st1 st2 where u: "update_node (node_run_id r) [NodeRunStatus.WAITING_APPROVAL]
      (\<lambda>q. q\<lparr>nr_status := ?target, nr_outcome := ?oc,
         nr_error_code := if approved then None else Some ''approval_rejected'',
         nr_finished_at := (if approved then None else Some now)\<rparr>) st = Inr st1"
    and v: "update_run (\<lambda>w. run_status w = WorkflowRunStatus.WAITING_APPROVAL \<and> cancel_requested_at w = None)
      (\<lambda>w. w\<lparr>run_status := WorkflowRunStatus.RUNNING\<rparr>) st1 = Inr st2"
    and 3: "st' = ?st3 st2 \<or> reconcile lease now (?st3 st2) = Inr st'"
    using assms(1) by (cases approved) (auto simp: resume_waiting_def Let_def and_then_Inr split: if_splits)
  have "sim st st1" using wf by (intro update_node_move [OF u]) (auto simp: NODE_TERMINAL_def)
  then have "sim st st2" using sim_trans running_run_sim [OF v] by blast
  then have "sim st (?st3 st2)" by simp
  then show ?thesis using 3 emit_reconcile_sim [OF _ wf] by blast
qed

lemma resume_after_approval_sim:
  "resume_after_approval wid i approved lease now st = Inr st' \<Longrightarrow> rows_wf (node_runs st) \<Longrightarrow> sim st st'"
  by (auto simp: resume_after_approval_def dest!: fencedD known_runD with_nodeD split: if_splits
      intro: resume_waiting_sim)

lemma resume_after_approval_in_sim:
  assumes "resume_after_approval_in wid i approved lease now st = Inr st'" and wf: "rows_wf (node_runs st)"
  shows "sim st st'"
proof -
  obtain r where k: "(if nr_status r = NodeRunStatus.WAITING_APPROVAL \<and>
         run_status (run st) = WorkflowRunStatus.WAITING_APPROVAL
       then resume_waiting lease approved now r st
       else if nr_status r = NodeRunStatus.RUNNING \<and> run_status (run st) = WorkflowRunStatus.RUNNING
       then (if approved then Inr st
             else if cancelling st then Inl ConcurrencyConflict
             else and_then
               (update_node i [NodeRunStatus.RUNNING]
                 (\<lambda>q. q\<lparr>nr_status := NodeRunStatus.COMPLETED, nr_outcome := Some NodeOutcome.REJECTED,
                    nr_error_code := Some ''approval_rejected'', nr_finished_at := Some now\<rparr>) st)
               (\<lambda>st1. reconcile lease now
                  (append_node_state lease r NodeRunStatus.COMPLETED (Some NodeOutcome.REJECTED)
                    ''Approval rejected.'' (Some ''approval_rejected'') st1)))
       else Inl ConcurrencyConflict) = Inr st'"
    using assms(1) [unfolded resume_after_approval_in_def, THEN known_runD, THEN conjunct2, THEN with_nodeD]
    by blast
  show ?thesis
  proof (cases "nr_status r = NodeRunStatus.WAITING_APPROVAL \<and>
      run_status (run st) = WorkflowRunStatus.WAITING_APPROVAL")
    case True
    then show ?thesis using k resume_waiting_sim [OF _ wf] by simp
  next
    case False
    show ?thesis
    proof (cases approved)
      case True
      then show ?thesis using k False by (auto split: if_splits)
    next
      case False': False
      obtain st1 where u: "update_node i [NodeRunStatus.RUNNING]
          (\<lambda>q. q\<lparr>nr_status := NodeRunStatus.COMPLETED, nr_outcome := Some NodeOutcome.REJECTED,
             nr_error_code := Some ''approval_rejected'', nr_finished_at := Some now\<rparr>) st = Inr st1"
        and r: "reconcile lease now
          (append_node_state lease r NodeRunStatus.COMPLETED (Some NodeOutcome.REJECTED)
            ''Approval rejected.'' (Some ''approval_rejected'') st1) = Inr st'"
        using k False False' by (simp add: and_then_Inr split: if_split_asm) blast
      have "sim st st1" using wf by (intro update_node_move [OF u]) (auto simp: NODE_TERMINAL_def)
      then show ?thesis using emit_reconcile_sim [OF _ wf r] by simp
    qed
  qed
qed

lemma enter_waiting_approval_sim:
  assumes "enter_waiting_approval i a lease now st = Inr st'" and wf: "rows_wf (node_runs st)"
  shows "sim st st'"
proof -
  have "(\<exists>b. resume_after_approval_in (workflow_run_id (run st)) i b lease now st = Inr st') \<or>
      (\<exists>e s r. wait_for_approval i e s lease r st = Inr st')"
    using assms(1)
    by (auto simp: enter_waiting_approval_def dest!: fencedD with_nodeD split: if_splits option.splits)
  then show ?thesis using resume_after_approval_in_sim [OF _ wf] wait_for_approval_sim [OF _ wf] by blast
qed

subsection \<open>Merge finalization\<close>

lemma begin_merge_finalizing_sim: "begin_merge_finalizing wid wl lease now st = Inr st' \<Longrightarrow> sim st st'"
  unfolding begin_merge_finalizing_def
  by (auto simp: tx_simps dest!: fencedD known_runD split: if_splits elim!: update_run_sim)

lemma clear_merge_finalizing_sim: "clear_merge_finalizing wid wl lease now st = Inr st' \<Longrightarrow> sim st st'"
  unfolding clear_merge_finalizing_def
  by (auto simp: tx_simps task_nodes_def dest!: fencedD known_runD split: if_splits intro!: sim_step core_step.run)

lemma finalize_merge_parts:
  assumes "finalize_merge i cs c wl lease summary now st = Inr st'"
  obtains st1 rows st2 r where
    "update_run (\<lambda>w. run_status w = WorkflowRunStatus.RUNNING \<and> merge_finalizing_at w \<noteq> None)
        (\<lambda>w. w\<lparr>current_commit := c, merge_finalizing_at := None\<rparr>)
        (st\<lparr>integration_head_commit := c\<rparr>) = Inr st1"
    and "mark_merged cs (change_sets st1) = Inr rows"
    and "update_node i [NodeRunStatus.RUNNING]
        (\<lambda>q. q\<lparr>nr_status := NodeRunStatus.COMPLETED, nr_outcome := Some NodeOutcome.SUCCESS,
           nr_error_code := None, nr_finished_at := Some now\<rparr>) (st1\<lparr>change_sets := rows\<rparr>) = Inr st2"
    and "reconcile lease now (append_node_state lease r NodeRunStatus.COMPLETED (Some NodeOutcome.SUCCESS)
        summary None st2) = Inr st'"
  using assms by (auto simp: finalize_merge_def and_then_Inr dest!: fencedD with_nodeD split: if_splits)

lemma finalize_merge_sim:
  assumes "finalize_merge i cs c wl lease summary now st = Inr st'" and wf: "rows_wf (node_runs st)"
  shows "sim st st'"
proof (rule finalize_merge_parts [OF assms(1)])
  fix st1 rows st2 r
  assume u: "update_run (\<lambda>w. run_status w = WorkflowRunStatus.RUNNING \<and> merge_finalizing_at w \<noteq> None)
        (\<lambda>w. w\<lparr>current_commit := c, merge_finalizing_at := None\<rparr>)
        (st\<lparr>integration_head_commit := c\<rparr>) = Inr st1"
    and v: "update_node i [NodeRunStatus.RUNNING]
        (\<lambda>q. q\<lparr>nr_status := NodeRunStatus.COMPLETED, nr_outcome := Some NodeOutcome.SUCCESS,
           nr_error_code := None, nr_finished_at := Some now\<rparr>) (st1\<lparr>change_sets := rows\<rparr>) = Inr st2"
    and 3: "reconcile lease now (append_node_state lease r NodeRunStatus.COMPLETED (Some NodeOutcome.SUCCESS)
        summary None st2) = Inr st'"
  have "sim st (st\<lparr>integration_head_commit := c\<rparr>)" by (intro sim_same) (auto simp: task_nodes_def)
  moreover have "sim (st\<lparr>integration_head_commit := c\<rparr>) st1"
    by (intro update_run_sim [OF u]) (auto simp: tx_simps)
  moreover have "sim st1 (st1\<lparr>change_sets := rows\<rparr>)" by (intro sim_same) (auto simp: task_nodes_def)
  ultimately have s: "sim st (st1\<lparr>change_sets := rows\<rparr>)" using sim_trans by blast
  have "sim (st1\<lparr>change_sets := rows\<rparr>) st2"
    using sim_wf [OF s wf] by (intro update_node_move [OF v]) (auto simp: NODE_TERMINAL_def)
  then have "sim st st2" using s sim_trans by blast
  then show ?thesis using emit_reconcile_sim [OF _ wf 3] by simp
qed

subsection \<open>Tasks\<close>

lemma insert_task_sim:
  assumes "insert_task t st = Inr st'" and "task_allowed st (task_node_run_id t)"
  shows "sim st st'"
  using assms by (auto simp: insert_task_def sim_def task_nodes_def task_allowed_def split: if_splits)

lemma running_task_allowed:
  assumes "r \<in> set (node_runs st)" "nr_status r \<noteq> NodeRunStatus.PENDING" "rows_wf (node_runs st)"
  shows "task_allowed st (node_run_id r)"
proof -
  have "inj_on node_run_id (set (node_runs st))" using assms(3) by (simp add: rows_wf_def distinct_map)
  then show ?thesis using assms(1,2) by (auto simp: task_allowed_def dest: inj_onD)
qed

lemma claim_policy_sim: "claim_policy t p st = Inr st' \<Longrightarrow> sim st st'"
  by (intro sim_same) (auto simp: claim_policy_def Let_def task_nodes_def split: if_splits)

lemma task_creation_running: "task_creation_problem st r a b = None \<Longrightarrow> nr_status r = NodeRunStatus.RUNNING"
  by (auto simp: task_creation_problem_def split: if_splits)

lemma create_task_sim:
  assumes "create_task t_id i agent base lease now st = Inr st'" and wf: "rows_wf (node_runs st)"
  shows "sim st st'"
proof -
  obtain r st1 where r: "r \<in> set (node_runs st)" "node_run_id r = i" "task_creation_problem st r agent base = None"
    and i: "insert_task (new_task t_id i agent base None TaskStatus.PENDING) st = Inr st1"
    and st': "sim st st' = sim st st1"
    using assms(1) by (auto simp: create_task_def and_then_Inr dest!: fencedD with_nodeD split: option.splits)
  have "task_allowed st i"
    using running_task_allowed [OF r(1) _ wf] task_creation_running [OF r(3)] r(2) by simp
  then show ?thesis using insert_task_sim [OF i] st' by (simp add: new_task_def)
qed

lemma bind_policy_sim: "bind_policy t p st = Inr st' \<Longrightarrow> sim st st'"
proof (cases "runtime_policy_artifact t")
  case None
  assume "bind_policy t p st = Inr st'"
  then obtain st1 where c: "claim_policy (task_id t) p st = Inr st1"
    and st': "st' = st1\<lparr>tasks := map (\<lambda>q. if task_id q = task_id t \<and> runtime_policy_artifact q = None
               then q\<lparr>runtime_policy_artifact := Some p\<rparr> else q) (tasks st1)\<rparr>"
    using None by (auto simp: bind_policy_def and_then_Inr)
  have "sim st1 st'" by (intro sim_same) (auto simp: st' task_nodes_def)
  then show ?thesis using claim_policy_sim [OF c] sim_trans by blast
qed (simp add: bind_policy_def)

lemma create_and_start_task_sim:
  assumes "create_and_start_task t_id i agent base policy lease now st = Inr st'" and wf: "rows_wf (node_runs st)"
  shows "sim st st'"
proof -
  obtain r where r: "r \<in> set (node_runs st)" "node_run_id r = i" "task_creation_problem st r agent base = None"
    and k: "(case find (\<lambda>t. task_id t = t_id) (tasks st) of
         Some t \<Rightarrow> start_precreated t i agent base policy lease st
       | None \<Rightarrow>
           and_then (insert_task (new_task t_id i agent base (Some policy) TaskStatus.RUNNING) st)
             (\<lambda>st1. and_then (claim_policy t_id policy st1) (\<lambda>st2.
                Inr (append_task_state lease None i t_id (Some TaskStatus.PENDING) TaskStatus.RUNNING None
                  (append_task_state lease None i t_id None TaskStatus.PENDING None st2))))) = Inr st'"
    using assms(1) [unfolded create_and_start_task_def, THEN fencedD, THEN conjunct2, THEN with_nodeD]
    by (auto split: option.splits)
  have allowed: "task_allowed st i"
    using running_task_allowed [OF r(1) _ wf] task_creation_running [OF r(3)] r(2) by simp
  show ?thesis
  proof (cases "find (\<lambda>t. task_id t = t_id) (tasks st)")
    case None
    then obtain st1 st2 where i: "insert_task (new_task t_id i agent base (Some policy) TaskStatus.RUNNING) st = Inr st1"
      and c: "claim_policy t_id policy st1 = Inr st2" and st': "sim st st' = sim st st2"
      using k by (auto simp: and_then_Inr)
    have "sim st st1" using insert_task_sim [OF i] allowed by (simp add: new_task_def)
    then show ?thesis using st' claim_policy_sim [OF c] sim_trans by blast
  next
    case (Some t)
    then obtain st1 st2 where b: "bind_policy t policy st = Inr st1"
      and u: "update_task (task_id t) [TaskStatus.PENDING]
            (\<lambda>q. q\<lparr>task_status := TaskStatus.RUNNING, task_finished_at := None\<rparr>) st1 = Inr st2"
      and st': "sim st st' = sim st st2"
      using k by (auto simp: start_precreated_def and_then_Inr split: if_splits)
    have "sim st1 st2" by (intro update_task_sim [OF u]) simp
    then show ?thesis using bind_policy_sim [OF b] st' sim_trans by blast
  qed
qed

lemma finish_task_sim:
  assumes "finish_task H t_id target lease wl error now st = Inr st'"
  shows "sim st st'"
proof -
  have "transition_task H t_id TaskStatus.RUNNING target lease error wl now st = Inr st'"
    using assms by (simp add: finish_task_def split: if_splits)
  then obtain st1 where u: "update_task t_id [TaskStatus.RUNNING]
        (\<lambda>q. q\<lparr>task_status := target, task_finished_at :=
           (if target = TaskStatus.RUNNING then None else Some now)\<rparr>) st = Inr st1"
    and "sim st st' = sim st st1"
    by (auto simp: transition_task_def and_then_Inr dest!: fencedD with_nodeD
        split: if_split_asm option.split_asm)
  moreover have "sim st st1" by (intro update_task_sim [OF u]) simp
  ultimately show ?thesis by simp
qed

subsection \<open>Retrying with a privilege\<close>

lemma with_sourceD:
  assumes "with_source st wid i k = Inr y"
  obtains r t where "workflow_run_id (run st) = wid" "r \<in> set (node_runs st)" "node_run_id r = i"
    "task_of st i = Some t" "k r t = Inr y"
  using assms by (auto simp: with_source_def dest!: known_runD with_nodeD split: option.splits)

lemma with_source_ex: "with_source st wid i k = Inr y \<Longrightarrow> \<exists>r t. r \<in> set (node_runs st) \<and> k r t = Inr y"
  by (erule with_sourceD) blast

lemma create_privilege_retry_target_sim:
  assumes c: "create_privilege_retry_target H wid r t a now st = Inr (st', new_id)"
    and r: "r \<in> set (node_runs st)" "nr_status r = NodeRunStatus.WAITING_APPROVAL"
    and wf: "rows_wf (node_runs st)"
  shows "sim st st'"
proof -
  let ?new = "retry_row H wid r a now"
  let ?st1 = "st\<lparr>node_runs := node_runs st @ [?new]\<rparr>"
  have fresh: "node_run_id ?new \<notin> node_run_id ` set (node_runs st)"
    and i: "insert_task (new_task new_id (node_run_id ?new) (task_agent_id t) (base_commit_of t) None
      TaskStatus.PENDING) ?st1 = Inr st'"
    using c by (auto simp: create_privilege_retry_target_def Let_def and_then_Inr split: if_splits)
  have a: "1 \<le> attempt r" using r(1) wf by (simp add: rows_wf_def)
  have last: "attempt q \<le> attempt r" if "q \<in> set (node_runs st)" "nr_node_id q = nr_node_id r" for q
    using c that by (auto simp: create_privilege_retry_target_def has_later_attempt_def list_ex_iff not_less
        split: if_splits)
  have "row_step (compiled_snapshot (run st)) (node_runs st) (node_runs st @ [?new])"
    using r a fresh last by (intro row_step.retry) (auto simp: retry_row_def)
  then have s: "sim st ?st1" by (intro sim_step) (auto simp: task_nodes_def intro: core_step.row)
  have "task_allowed ?st1 (node_run_id ?new)"
    using fresh a by (auto simp: task_allowed_def retry_row_def image_iff)
  then have "sim ?st1 st'" using insert_task_sim [OF i] by (simp add: new_task_def)
  then show ?thesis using s sim_trans by blast
qed

lemma prepare_privilege_retry_sim:
  assumes "prepare_privilege_retry H wid i a lease wl now st = Inr (st', new_id)" and wf: "rows_wf (node_runs st)"
  shows "sim st st'"
proof -
  let ?error = "''privilege_pending:'' @ a"
  obtain r and t :: TaskRow and st2 where
    p: "(if task_status t \<noteq> TaskStatus.RUNNING then Inr st
         else and_then
           (update_task (task_id t) [TaskStatus.RUNNING]
             (\<lambda>q. q\<lparr>task_status := TaskStatus.PRIVILEGE_REQUESTED, task_finished_at := Some now\<rparr>) st)
           (\<lambda>st1. Inr (append_task_state lease (Some (ws_fencing_token wl)) i (task_id t)
              (Some TaskStatus.RUNNING) TaskStatus.PRIVILEGE_REQUESTED (Some ?error) st1))) = Inr st2"
    and w: "wait_for_approval i ?error ''Waiting for privilege approval.'' lease r st2 = Inr st'"
    using with_source_ex [OF assms(1) [unfolded prepare_privilege_retry_def Let_def, THEN fencedD, THEN conjunct2],
        unfolded if_error and_then_Inr [of "wait_for_approval _ _ _ _ _ _"] and_then_Inr [of "If _ _ _"]
        sum.inject prod.inject]
    by blast
  have s: "sim st st2"
  proof (cases "task_status t = TaskStatus.RUNNING")
    case True
    then obtain st1 where u: "update_task (task_id t) [TaskStatus.RUNNING]
        (\<lambda>q. q\<lparr>task_status := TaskStatus.PRIVILEGE_REQUESTED, task_finished_at := Some now\<rparr>) st = Inr st1"
      and "sim st st2 = sim st st1"
      using p by (auto simp: and_then_Inr)
    moreover have "sim st st1" by (intro update_task_sim [OF u]) simp
    ultimately show ?thesis by simp
  qed (use p in simp)
  show ?thesis using sim_trans [OF s wait_for_approval_sim [OF w sim_wf [OF s wf]]] .
qed

lemma supersede_sim: "supersede lease now r st = Inr st' \<Longrightarrow> rows_wf (node_runs st) \<Longrightarrow> sim st st'"
  by (auto simp: supersede_def and_then_Inr NODE_TERMINAL_def elim!: update_node_move)

lemma end_source_task_sim: "end_source_task t target e lease now st = Inr st' \<Longrightarrow> sim st st'"
  by (cases "set [''status'', ''error_code'', ''finished_at''] \<subseteq> set tasks_columns")
    (auto simp: end_source_task_def and_then_Inr elim!: update_task_sim)

lemma approve_privilege_in_sim:
  assumes "approve_privilege_in H wid i a lease now st = Inr (st', new_id)" and wf: "rows_wf (node_runs st)"
  shows "sim st st'"
proof -
  obtain r t st1 st2 n where r: "r \<in> set (node_runs st)" "nr_status r = NodeRunStatus.WAITING_APPROVAL"
    and c: "create_privilege_retry_target H wid r t a now st = Inr (st1, n)"
    and e: "end_source_task t TaskStatus.CANCELLED ''privilege_retry_approved'' lease now st1 = Inr st2"
    and u: "supersede lease now r st2 = Inr st'"
    using assms(1) by (auto simp: approve_privilege_in_def and_then_Inr elim!: with_sourceD split: if_splits)
  have s: "sim st st2"
    using create_privilege_retry_target_sim [OF c r wf] end_source_task_sim [OF e] sim_trans by blast
  show ?thesis using sim_trans [OF s supersede_sim [OF u sim_wf [OF s wf]]] .
qed

lemma skip_retry_target_sim:
  assumes "skip_retry_target qt now st = Inr st'" and wf: "rows_wf (node_runs st)"
  shows "sim st st'"
proof -
  let ?st1 = "st\<lparr>tasks := map (\<lambda>t. if task_id t = task_id (snd qt) \<and> task_status t = TaskStatus.PENDING
      then t\<lparr>task_status := TaskStatus.CANCELLED, task_finished_at := Some now\<rparr> else t) (tasks st)\<rparr>"
  have "sim st ?st1" by (intro sim_same) (auto simp: task_nodes_def)
  moreover have "sim ?st1 st'"
    using wf by (intro update_node_move [OF assms(1) [unfolded skip_retry_target_def]]) (auto simp: NODE_TERMINAL_def)
  ultimately show ?thesis using sim_trans by blast
qed

lemma reject_privilege_sim:
  assumes "reject_privilege r t lease now st = Inr st'" and wf: "rows_wf (node_runs st)"
  shows "sim st st'"
proof -
  obtain st1 st2 st4 st5 where e: "end_source_task t TaskStatus.FAILED ''privilege_rejected'' lease now st = Inr st1"
    and u: "update_node (node_run_id r) [NodeRunStatus.WAITING_APPROVAL]
          (\<lambda>q. q\<lparr>nr_status := NodeRunStatus.COMPLETED, nr_outcome := Some NodeOutcome.REJECTED,
             nr_error_code := Some ''privilege_rejected'', nr_finished_at := Some now\<rparr>) st1 = Inr st2"
    and k: "(case next_attempt st r of
           None \<Rightarrow> Inr (append_node_state lease r NodeRunStatus.COMPLETED (Some NodeOutcome.REJECTED)
             ''Privilege request was rejected.'' (Some ''privilege_rejected'') st2)
         | Some qt \<Rightarrow> and_then (skip_retry_target qt now st2) (\<lambda>st3.
             Inr (append_node_state lease ((fst qt)\<lparr>nr_status := NodeRunStatus.PENDING\<rparr>)
                    NodeRunStatus.SKIPPED None ''Privilege retry was rejected.'' (Some ''privilege_rejected'')
               (append_node_state lease r NodeRunStatus.COMPLETED (Some NodeOutcome.REJECTED)
                 ''Privilege request was rejected.'' (Some ''privilege_rejected'') st3)))) = Inr st4"
    and v: "update_run (\<lambda>w. run_status w = WorkflowRunStatus.WAITING_APPROVAL \<and> cancel_requested_at w = None)
          (\<lambda>w. w\<lparr>run_status := WorkflowRunStatus.RUNNING\<rparr>) st4 = Inr st5"
    and r: "reconcile lease now
          (append_run_state lease WorkflowRunStatus.WAITING_APPROVAL WorkflowRunStatus.RUNNING st5) = Inr st'"
    using assms(1) unfolding reject_privilege_def Let_def and_then_Inr by blast
  note s1 = end_source_task_sim [OF e]
  have "sim st1 st2"
    using sim_wf [OF s1 wf] by (intro update_node_move [OF u]) (auto simp: NODE_TERMINAL_def)
  then have s2: "sim st st2" using s1 sim_trans by blast
  have "sim st2 st4"
    using k skip_retry_target_sim [OF _ sim_wf [OF s2 wf]] by (auto simp: and_then_Inr split: option.splits)
  then have "sim st st5" using s2 running_run_sim [OF v] sim_trans by blast
  then show ?thesis using emit_reconcile_sim [OF _ wf r] by simp
qed

lemma resume_privilege_after_approval_in_sim:
  assumes "resume_privilege_after_approval_in H wid i approved lease now st = Inr st'"
    and wf: "rows_wf (node_runs st)"
  shows "sim st st'"
proof -
  obtain r t where r: "r \<in> set (node_runs st)" "nr_status r = NodeRunStatus.WAITING_APPROVAL"
    and k: "(if approved then and_then
         (if next_attempt st r \<noteq> None then Inr st
          else map_sum id fst (create_privilege_retry_target H wid r t ''legacy-approval'' now st))
         (supersede lease now r)
       else reject_privilege r t lease now st) = Inr st'"
    using assms(1)
    by (auto simp: resume_privilege_after_approval_in_def elim!: with_sourceD split: if_split_asm)
  show ?thesis
  proof (cases approved)
    case True
    then obtain st1 where c: "st1 = st \<or> (\<exists>n. create_privilege_retry_target H wid r t ''legacy-approval'' now st = Inr (st1, n))"
      and u: "supersede lease now r st1 = Inr st'"
      using k by (auto simp: and_then_Inr map_sum_fst_Inr split: if_split_asm)
    have s: "sim st st1" using c create_privilege_retry_target_sim [OF _ r wf] by auto
    show ?thesis using sim_trans [OF s supersede_sim [OF u sim_wf [OF s wf]]] .
  qed (use k reject_privilege_sim [OF _ wf] in simp)
qed

lemma activate_capability_target_in_sim:
  assumes "activate_capability_target_in t_id lease now st = Inr st'"
    and wf: "rows_wf (node_runs st)" and ok: "tasks_ok st"
  shows "sim st st'"
proof -
  obtain t where t: "find (\<lambda>t. task_id t = t_id) (tasks st) = Some t"
    using assms(1) by (auto simp: activate_capability_target_in_def split: option.splits)
  note k = assms(1) [unfolded activate_capability_target_in_def t option.case, THEN with_nodeD]
  from t have t': "t \<in> set (tasks st)" by (auto simp: find_Some_iff)
  let ?st2 = "\<lambda>r. append_node_state lease r NodeRunStatus.READY None
    ''Capability grant activated the retry task.'' None"
  let ?st3 = "\<lambda>st2. st2\<lparr>run := (run st2)\<lparr>run_status := WorkflowRunStatus.RUNNING\<rparr>\<rparr>"
  let ?wakes = "\<lambda>st2. run_status (run st2) = WorkflowRunStatus.WAITING_APPROVAL \<and> \<not> cancelling st2"
  obtain r where r: "r \<in> set (node_runs st)" "node_run_id r = task_node_run_id t"
    and c: "st = st' \<or> (\<exists>st1. update_node (node_run_id r) [NodeRunStatus.PENDING]
        (\<lambda>q. q\<lparr>nr_status := NodeRunStatus.READY, nr_error_code := None\<rparr>) st = Inr st1 \<and>
      (?wakes (?st2 r st1) \<and> append_run_state lease WorkflowRunStatus.WAITING_APPROVAL
          WorkflowRunStatus.RUNNING (?st3 (?st2 r st1)) = st' \<or>
       \<not> ?wakes (?st2 r st1) \<and> ?st2 r st1 = st'))"
    using k [unfolded Let_def if_error if_result and_then_Inr sum.inject] by blast
  from c show ?thesis
  proof (elim disjE conjE exE)
    fix st1
    assume u: "update_node (node_run_id r) [NodeRunStatus.PENDING]
        (\<lambda>q. q\<lparr>nr_status := NodeRunStatus.READY, nr_error_code := None\<rparr>) st = Inr st1"
    have "sim st st1"
    proof (rule update_node_sim [OF u])
      fix q
      assume q: "q \<in> set (node_runs st)" "node_run_id q = node_run_id r"
        "nr_status q \<in> set [NodeRunStatus.PENDING]"
      then have "1 < attempt q" and "nr_outcome q = None"
        using ok t' r(2) wf by (auto simp: tasks_ok_def task_allowed_def task_nodes_def rows_wf_def NODE_TERMINAL_def)
      then show "row_change (compiled_snapshot (run st)) (node_runs st) q
          (q\<lparr>nr_status := NodeRunStatus.READY, nr_error_code := None\<rparr>)"
        using q by (auto simp: row_change_def)
    qed
    then have s2: "sim st (?st2 r st1)" by simp
    {
      assume "run_status (run (?st2 r st1)) = WorkflowRunStatus.WAITING_APPROVAL" "\<not> cancelling (?st2 r st1)"
        and st': "append_run_state lease WorkflowRunStatus.WAITING_APPROVAL
          WorkflowRunStatus.RUNNING (?st3 (?st2 r st1)) = st'"
      then have "sim (?st2 r st1) (?st3 (?st2 r st1))"
        by (intro sim_step) (auto simp: tx_simps task_nodes_def intro!: core_step.run)
      then show ?thesis using s2 sim_trans st' sim_emit(2) by blast
    }
    show ?thesis if "?st2 r st1 = st'" using s2 that by simp
  qed simp
qed

end
