(* ===== verification/Run_Create.thy ===== *)
theory Run_Create
  imports Run_Tasks
begin

text \<open>
  The creation of a run (\<open>WorkflowRunRepository.create\<close>): the submitted compiled graph must be
  what the compiler makes of the author graph now, against the catalog and the integration head
  of the transaction. \<open>Hub\<close> holds the rows of other tables that the transaction reads.
\<close>

subsection \<open>What the transaction reads\<close>

record WorkflowRecord =
  wf_id :: string
  wf_session_id :: string
  wf_source_planner_run_id :: "string option"
  wf_semantic_version :: int
  wf_layout_version :: int
  wf_author_graph :: AuthorGraph
  wf_author_graph_hash :: string
  wf_layout_digest :: string \<comment> \<open>the digest of \<open>canonical_json (_normalized_layout layout)\<close>\<close>
  wf_layout_hash :: string

record NewWorkflowRun =
  new_run_id :: string
  new_workflow :: WorkflowRecord
  new_compiled_graph :: CompiledGraph
  new_agent_catalog :: AgentCatalog
  new_current_commit :: string
  new_planner_run_id :: "string option"
  new_planner_id :: "string option"
  new_planner_model :: "string option"

record WorkflowJoin = \<comment> \<open>\<open>workflows\<close> joined with \<open>sessions\<close>\<close>
  row_session_id :: string
  row_semantic_version :: int
  row_layout_version :: int
  row_author_graph_hash :: string
  row_layout_hash :: string
  row_session_status :: string
  row_integration_head :: string
  row_shared_repo_path :: string

record PlannerRow =
  planner_session_id :: string
  planner_id_of :: "string"
  planner_model_of :: "string option"
  planner_status :: string
  planner_result_workflow :: "string option"

record Hub =
  hub_workflows :: "string \<Rightarrow> WorkflowJoin option"
  hub_planners :: "string \<Rightarrow> PlannerRow option"
  hub_agents :: "AgentSpec list" \<comment> \<open>the agents table, \<open>ORDER BY id\<close>\<close>
  hub_run_ids :: "string list"
  hub_node_run_ids :: "string list"
  hub_masters :: master_table
  hub_locks :: lock_table

definition catalog_in :: "(AgentSpec list \<Rightarrow> string) \<Rightarrow> Hub \<Rightarrow> AgentCatalog" where
  \<comment> \<open>\<open>AgentRepository.catalog_in\<close>; \<open>cd\<close> is \<open>compute_agent_catalog_hash\<close>\<close>
  "catalog_in cd hub = \<lparr>agents = hub_agents hub, catalog_hash = cd (hub_agents hub)\<rparr>"

subsection \<open>The checks\<close>

definition catalog_has_node :: "AgentCatalog \<Rightarrow> WorkflowNode \<Rightarrow> bool" where
  "catalog_has_node c n \<longleftrightarrow> node_type n \<noteq> AGENT_TASK \<or>
     (case resolved_agent_id n of
        None \<Rightarrow> False
      | Some i \<Rightarrow>
          (case find_by_id c i of
             None \<Rightarrow> False
           | Some spec \<Rightarrow> Some (spec_sha256 spec) = resolved_agent_spec_sha256 n))"

definition submission_problem ::
  "(string \<Rightarrow> string) \<Rightarrow> (AgentSpec list \<Rightarrow> string) \<Rightarrow> NewWorkflowRun \<Rightarrow> run_error option" where
  \<comment> \<open>what is checked before the transaction\<close>
  "submission_problem H cd v =
     (let w = new_workflow v; g = new_compiled_graph v; c = new_agent_catalog v in
      if source_author_hash g \<noteq> wf_author_graph_hash w \<or>
        integration_base_commit g \<noteq> new_current_commit v \<or>
        agent_catalog_snapshot_hash g \<noteq> catalog_hash c \<or>
        new_planner_run_id v \<noteq> wf_source_planner_run_id w \<or>
        new_planner_run_id v = None \<and> (new_planner_id v \<noteq> None \<or> new_planner_model v \<noteq> None)
      then Some (PyError ValueError)
      else if cd (agents c) \<noteq> catalog_hash c then Some SnapshotIntegrityError
      else if \<not> list_all (catalog_has_node c) (compiled_nodes g) then Some (PyError ValueError)
      else if H (canonical_author (wf_author_graph w)) \<noteq> wf_author_graph_hash w
      then Some SnapshotIntegrityError
      else if wf_layout_digest w \<noteq> wf_layout_hash w then Some SnapshotIntegrityError
      else None)"

definition workflow_problem :: "NewWorkflowRun \<Rightarrow> WorkflowJoin \<Rightarrow> run_error option" where
  "workflow_problem v row =
     (let w = new_workflow v in
      if row_session_id row \<noteq> wf_session_id w \<or> row_semantic_version row \<noteq> wf_semantic_version w \<or>
        row_layout_version row \<noteq> wf_layout_version w \<or>
        row_author_graph_hash row \<noteq> wf_author_graph_hash w \<or> row_layout_hash row \<noteq> wf_layout_hash w
      then Some ConcurrencyConflict
      else if row_session_status row \<noteq> ''active'' then Some ConcurrencyConflict
      else if row_integration_head row \<noteq> new_current_commit v then Some ConcurrencyConflict
      else None)"

definition planner_problem :: "Hub \<Rightarrow> NewWorkflowRun \<Rightarrow> run_error option" where
  "planner_problem hub v =
     (case new_planner_run_id v of
        None \<Rightarrow> None
      | Some i \<Rightarrow>
          (case hub_planners hub i of
             None \<Rightarrow> Some RecordNotFound
           | Some p \<Rightarrow>
               (if planner_session_id p \<noteq> wf_session_id (new_workflow v) \<or>
                  planner_status p \<noteq> ''succeeded'' \<or>
                  opt_str (planner_result_workflow p) \<noteq> wf_id (new_workflow v) \<or>
                  Some (planner_id_of p) \<noteq> new_planner_id v
                then Some (PyError ValueError)
                else if planner_model_of p \<noteq> new_planner_model v then Some (PyError ValueError)
                else None)))"

subsection \<open>The rows that are written\<close>

definition first_attempt :: "(string \<Rightarrow> string) \<Rightarrow> string \<Rightarrow> time \<Rightarrow> WorkflowNode \<Rightarrow> NodeRun" where
  "first_attempt H wid now n =
     \<lparr>node_run_id = make_node_run_id H wid (node_id n) 1, nr_node_id = node_id n,
      nr_node_type = node_type n, attempt = 1, nr_status = NodeRunStatus.PENDING, nr_outcome = None,
      assigned_agent_id = resolved_agent_id n, output_artifact_id = None, nr_error_code = None,
      nr_created_at = now, nr_started_at = None, nr_finished_at = None\<rparr>"

definition new_run ::
  "(string \<Rightarrow> string) \<Rightarrow> (AgentSpec list \<Rightarrow> string) \<Rightarrow> Hub \<Rightarrow> NewWorkflowRun \<Rightarrow> CompiledGraph \<Rightarrow> WorkflowRun" where
  "new_run H cd hub v g =
     \<lparr>workflow_run_id = new_run_id v, run_session_id = wf_session_id (new_workflow v),
      run_base_commit = integration_base_commit g, current_commit = new_current_commit v,
      author_snapshot = wf_author_graph (new_workflow v),
      author_snapshot_hash = H (canonical_author (wf_author_graph (new_workflow v))),
      compiled_snapshot = g, compiled_snapshot_hash = H (canonical_compiled g),
      layout_digest = wf_layout_digest (new_workflow v),
      layout_snapshot_hash = wf_layout_digest (new_workflow v), run_policy_version = policy_version g,
      catalog_snapshot = catalog_in cd hub, catalog_snapshot_hash = catalog_hash (new_agent_catalog v),
      run_status = WorkflowRunStatus.PENDING, run_started_at = None, run_finished_at = None,
      cancel_requested_at = None, merge_finalizing_at = None\<rparr>"

definition insert_run ::
  "(string \<Rightarrow> string) \<Rightarrow> (AgentSpec list \<Rightarrow> string) \<Rightarrow> Hub \<Rightarrow> NewWorkflowRun \<Rightarrow> WorkflowJoin \<Rightarrow> CompiledGraph \<Rightarrow> MasterLease \<Rightarrow>
     time \<Rightarrow> run_error + RunStore" where
  \<comment> \<open>the inserts; ids are primary keys\<close>
  "insert_run H cd hub v row g lease now =
     (let rows = map (first_attempt H (new_run_id v) now) (sort_key node_id (compiled_nodes g)) in
      if new_run_id v \<in> set (hub_run_ids hub) then Inl IntegrityError
      else if \<not> distinct (map node_run_id rows) \<or>
        \<not> list_all (\<lambda>r. node_run_id r \<notin> set (hub_node_run_ids hub)) rows
      then Inl IntegrityError
      else Inr (emit
        (RunCreated (fencing_token lease) (H (canonical_compiled g)) (new_planner_run_id v)
           (new_planner_id v) (new_planner_model v))
        \<lparr>run = new_run H cd hub v g, node_runs = rows, tasks = [], artifacts = [], change_sets = [],
         approval_status = (\<lambda>_. None), session_status = row_session_status row,
         integration_head_commit = row_integration_head row, master_leases = hub_masters hub,
         file_locks = hub_locks hub, run_events = []\<rparr>))"

definition create ::
  "(string \<Rightarrow> string) \<Rightarrow> (AgentSpec list \<Rightarrow> string) \<Rightarrow>
   (string \<Rightarrow> string list \<Rightarrow> string list \<Rightarrow> string + ValidatedScope) \<Rightarrow> string \<Rightarrow> Hub \<Rightarrow>
   NewWorkflowRun \<Rightarrow> MasterLease \<Rightarrow> WorkspaceLease \<Rightarrow> time \<Rightarrow> run_error + RunStore" where
  \<comment> \<open>\<open>scope_of\<close> is \<open>PathPolicy\<close> at the repository path of the session; \<open>version\<close> the policy version\<close>
  "create H cd scope_of version hub v lease wl now =
     (case submission_problem H cd v of
        Some e \<Rightarrow> Inl e
      | None \<Rightarrow>
          (if master_assert_valid (hub_masters hub) lease now \<noteq> None then Inl (LeaseError LeaseLost)
           else if resource_key wl \<noteq> ''session:'' @ wf_session_id (new_workflow v) @ '':integration''
           then Inl (PyError ValueError)
           else if workspace_assert_valid (hub_locks hub) wl now \<noteq> None then Inl (LeaseError LeaseLost)
           else case hub_workflows hub (wf_id (new_workflow v)) of
             None \<Rightarrow> Inl RecordNotFound
           | Some row \<Rightarrow>
               (case workflow_problem v row of
                  Some e \<Rightarrow> Inl e
                | None \<Rightarrow>
                    (if catalog_hash (catalog_in cd hub) \<noteq> catalog_hash (new_agent_catalog v)
                     then Inl ConcurrencyConflict
                     else case compile H
                         \<lparr>cfg_catalog = catalog_in cd hub, cfg_policy_version = version,
                          cfg_path_policy = Some (scope_of (row_shared_repo_path row)),
                          cfg_command_guard = True\<rparr>
                         (wf_author_graph (new_workflow v)) (new_current_commit v) of
                       Inl x \<Rightarrow> Inl (PyError x)
                     | Inr result \<Rightarrow>
                         (case result_graph result of
                            None \<Rightarrow> Inl SnapshotIntegrityError
                          | Some g \<Rightarrow>
                              (if \<not> compilation_ok result \<or>
                                 result_source_hash result \<noteq>
                                   H (canonical_author (wf_author_graph (new_workflow v))) \<or>
                                 canonical_compiled g \<noteq> canonical_compiled (new_compiled_graph v)
                               then Inl SnapshotIntegrityError
                               else case planner_problem hub v of
                                 Some e \<Rightarrow> Inl e
                               | None \<Rightarrow> insert_run H cd hub v row g lease now))))))"

subsection \<open>What a created run looks like\<close>

definition fresh_run :: "RunStore \<Rightarrow> bool" where
  "fresh_run st \<longleftrightarrow>
     run_status (run st) = WorkflowRunStatus.PENDING \<and> cancel_requested_at (run st) = None \<and>
     merge_finalizing_at (run st) = None \<and> tasks st = [] \<and>
     map nr_node_id (node_runs st) = map node_id (sort_key node_id (compiled_nodes (compiled_snapshot (run st)))) \<and>
     distinct (map node_run_id (node_runs st)) \<and> distinct (map nr_node_id (node_runs st)) \<and>
     list_all (\<lambda>r. attempt r = 1 \<and> nr_status r = NodeRunStatus.PENDING \<and> nr_outcome r = None)
       (node_runs st)"

lemma insert_run_fresh:
  assumes "insert_run H cd hub v row g lease now = Inr st"
  shows "fresh_run st" and "compiled_snapshot (run st) = g" and "run st = new_run H cd hub v g"
    and "node_runs st = map (first_attempt H (new_run_id v) now) (sort_key node_id (compiled_nodes g))"
proof -
  let ?rows = "map (first_attempt H (new_run_id v) now) (sort_key node_id (compiled_nodes g))"
  have d: "distinct (map node_run_id ?rows)" and run: "run st = new_run H cd hub v g"
    and rows: "node_runs st = ?rows" and ts: "tasks st = []"
    using assms by (auto simp: insert_run_def Let_def emit_def split: if_splits)
  have "map node_run_id ?rows = map (\<lambda>i. make_node_run_id H (new_run_id v) i 1) (map nr_node_id ?rows)"
    by (simp add: first_attempt_def)
  then have "distinct (map nr_node_id ?rows)" using d distinct_map by metis
  then show "fresh_run st"
    using d ts by (auto simp: fresh_run_def run rows list_all_iff new_run_def first_attempt_def comp_def)
  show "compiled_snapshot (run st) = g" "run st = new_run H cd hub v g" "node_runs st = ?rows"
    by (simp_all add: run rows new_run_def)
qed

lemma create_compiled:
  assumes "create H cd scope_of version hub v lease wl now = Inr st"
  obtains row result where "hub_workflows hub (wf_id (new_workflow v)) = Some row"
    "row_integration_head row = new_current_commit v" "row_session_status row = ''active''"
    "compile H \<lparr>cfg_catalog = catalog_in cd hub, cfg_policy_version = version,
       cfg_path_policy = Some (scope_of (row_shared_repo_path row)), cfg_command_guard = True\<rparr>
       (wf_author_graph (new_workflow v)) (new_current_commit v) = Inr result"
    "compilation_ok result" "result_graph result = Some (new_compiled_graph v)"
    "result_source_hash result = H (canonical_author (wf_author_graph (new_workflow v)))"
    "submission_problem H cd v = None" "catalog_hash (catalog_in cd hub) = catalog_hash (new_agent_catalog v)"
    "insert_run H cd hub v row (new_compiled_graph v) lease now = Inr st"
proof -
  obtain row result g where "submission_problem H cd v = None"
    "catalog_hash (catalog_in cd hub) = catalog_hash (new_agent_catalog v)"
    "hub_workflows hub (wf_id (new_workflow v)) = Some row" "workflow_problem v row = None"
    "compile H \<lparr>cfg_catalog = catalog_in cd hub, cfg_policy_version = version,
       cfg_path_policy = Some (scope_of (row_shared_repo_path row)), cfg_command_guard = True\<rparr>
       (wf_author_graph (new_workflow v)) (new_current_commit v) = Inr result"
    "compilation_ok result" "result_graph result = Some g"
    "result_source_hash result = H (canonical_author (wf_author_graph (new_workflow v)))"
    "canonical_compiled g = canonical_compiled (new_compiled_graph v)"
    "insert_run H cd hub v row g lease now = Inr st"
    using assms unfolding create_def by (simp split: option.split_asm sum.split_asm if_split_asm)
  then show thesis
    using that canonical_inject(2) by (auto simp: workflow_problem_def Let_def split: if_split_asm)
qed

lemma compile_graph_fields:
  assumes "compile H cfg author base = Inr r" and "result_graph r = Some g"
  shows "policy_version g = cfg_policy_version cfg" "integration_base_commit g = base"
    "source_author_hash g = result_source_hash r" "length (compiled_nodes g) \<le> 300"
  using assms
  by (auto simp: compile_def seal_def Let_def compiled_constructible_def
      split: sum.splits if_splits prod.splits)

lemma create_facts:
  assumes "create H cd scope_of version hub v lease wl now = Inr st"
  shows "\<exists>row result. hub_workflows hub (wf_id (new_workflow v)) = Some row \<and>
      compile H \<lparr>cfg_catalog = catalog_in cd hub, cfg_policy_version = version,
        cfg_path_policy = Some (scope_of (row_shared_repo_path row)), cfg_command_guard = True\<rparr>
        (author_snapshot (run st)) (row_integration_head row) = Inr result \<and>
      result_errors result = [] \<and> result_graph result = Some (compiled_snapshot (run st))"
    and "compiled_snapshot (run st) = new_compiled_graph v"
    and "snapshots_intact H cd (run st)" and "run_policy_version (run st) = version" and "fresh_run st"
proof -
  obtain row result where row: "hub_workflows hub (wf_id (new_workflow v)) = Some row"
      "row_integration_head row = new_current_commit v"
    and c: "compile H \<lparr>cfg_catalog = catalog_in cd hub, cfg_policy_version = version,
       cfg_path_policy = Some (scope_of (row_shared_repo_path row)), cfg_command_guard = True\<rparr>
       (wf_author_graph (new_workflow v)) (new_current_commit v) = Inr result"
    and ok: "compilation_ok result" "result_graph result = Some (new_compiled_graph v)"
    and src: "result_source_hash result = H (canonical_author (wf_author_graph (new_workflow v)))"
    and sub: "submission_problem H cd v = None" "catalog_hash (catalog_in cd hub) = catalog_hash (new_agent_catalog v)"
    and ins: "insert_run H cd hub v row (new_compiled_graph v) lease now = Inr st"
    by (rule create_compiled [OF assms])
  note st = insert_run_fresh [OF ins]
  show "fresh_run st" by (rule st(1))
  show "compiled_snapshot (run st) = new_compiled_graph v" by (rule st(2))
  show "\<exists>row result. hub_workflows hub (wf_id (new_workflow v)) = Some row \<and>
      compile H \<lparr>cfg_catalog = catalog_in cd hub, cfg_policy_version = version,
        cfg_path_policy = Some (scope_of (row_shared_repo_path row)), cfg_command_guard = True\<rparr>
        (author_snapshot (run st)) (row_integration_head row) = Inr result \<and>
      result_errors result = [] \<and> result_graph result = Some (compiled_snapshot (run st))"
    using row c ok by (auto simp: st(3) new_run_def compilation_ok_def)
  note g = compile_graph_fields [OF c ok(2)]
  show "run_policy_version (run st) = version" using g(1) by (simp add: st(3) new_run_def)
  show "snapshots_intact H cd (run st)"
    using sub g src by (simp add: st(3) new_run_def snapshots_intact_def submission_problem_def
        catalog_in_def Let_def split: if_splits)
qed

subsection \<open>Properties\<close>


definition sample_hash :: "string \<Rightarrow> string" where
  \<comment> \<open>zeros for a JSON object, a short text itself, forced into hexadecimal digits\<close>
  "sample_hash s = (if take 1 s = ''{'' then replicate 64 CHR ''0''
     else take 64 (map (\<lambda>c. if c = CHR ''i'' then CHR ''1'' else if c = CHR ''t'' then CHR ''2'' else CHR ''0'') s @
       replicate 64 CHR ''0''))"

definition sample_scope :: "string \<Rightarrow> string list \<Rightarrow> string list \<Rightarrow> string + ValidatedScope" where
  "sample_scope p existing new = Inr \<lparr>existing_files = sort existing, new_files = sort new\<rparr>"

definition sample_hub :: Hub where
  "sample_hub = \<lparr>hub_workflows = [''w'' \<mapsto> \<lparr>row_session_id = ''s'', row_semantic_version = 1,
       row_layout_version = 1, row_author_graph_hash = replicate 64 CHR ''0'',
       row_layout_hash = ''l'', row_session_status = ''active'',
       row_integration_head = replicate 40 CHR ''0'', row_shared_repo_path = ''/r''\<rparr>],
     hub_planners = Map.empty, hub_agents = [sample_agent ''a''], hub_run_ids = [], hub_node_run_ids = [],
     hub_masters = [''scheduler'' \<mapsto> sample_master ''alice'' 0 1],
     hub_locks = [''session:s:integration'' \<mapsto> (\<lparr>resource_key = ''session:s:integration'',
       owner_kind = ''run'', owner_operation_id = ''r'', owner_process_id = 1, ws_fencing_token = 1,
       acquired_at = 0, ws_heartbeat_at = 0, ws_expires_at = seconds 30\<rparr>, None)]\<rparr>"

definition sample_catalog_digest :: "AgentSpec list \<Rightarrow> string" where
  "sample_catalog_digest specs = replicate 64 CHR ''c''"

definition sample_compiler :: CompilerConfig where
  "sample_compiler = \<lparr>cfg_catalog = catalog_in sample_catalog_digest sample_hub, cfg_policy_version = ''p'',
     cfg_path_policy = Some (sample_scope ''/r''), cfg_command_guard = True\<rparr>"

definition sample_nodes :: "WorkflowNode list" where
  "sample_nodes = concat (map (\<lambda>n. snd (compile_node sample_compiler n)) (nodes (normalize_author_graph sample_author)))"

definition sample_graph :: CompiledGraph where
  "sample_graph =
     \<lparr>compiled_schema_version = CONTRACT_VERSION,
      source_author_hash = replicate 64 CHR ''0'',
      integration_base_commit = replicate 40 CHR ''0'', policy_version = ''p'',
      agent_catalog_snapshot_hash = replicate 64 CHR ''c'', compiled_nodes = sort_key node_id sample_nodes,
      compiled_edges = sort_key edge_id (edges (normalize_author_graph sample_author))\<rparr>"

definition sample_new_run :: NewWorkflowRun where
  "sample_new_run = \<lparr>new_run_id = ''r'', new_workflow = \<lparr>wf_id = ''w'', wf_session_id = ''s'',
       wf_source_planner_run_id = None, wf_semantic_version = 1, wf_layout_version = 1,
       wf_author_graph = sample_author, wf_author_graph_hash = replicate 64 CHR ''0'',
       wf_layout_digest = ''l'', wf_layout_hash = ''l''\<rparr>,
     new_compiled_graph = sample_graph,
     new_agent_catalog = \<lparr>agents = [sample_agent ''a''], catalog_hash = replicate 64 CHR ''c''\<rparr>,
     new_current_commit = replicate 40 CHR ''0'', new_planner_run_id = None, new_planner_id = None,
     new_planner_model = None\<rparr>"

lemma sample_digests [simp]:
  "sample_hash (canonical_author a) = replicate 64 CHR ''0''"
  "sample_hash (canonical_compiled g) = replicate 64 CHR ''0''"
  by (simp_all add: sample_hash_def canonical_author_def canonical_compiled_def dumps_def author_json_def
      compiled_json_def)

lemma sample_compiles:
  "\<exists>r. compile sample_hash sample_compiler sample_author (replicate 40 CHR ''0'') = Inr r \<and>
     compilation_ok r \<and> result_graph r = Some sample_graph \<and> result_source_hash r = replicate 64 CHR ''0''"
proof -
  let ?a = "normalize_author_graph sample_author"
  have e: "concat (map fst (map (compile_node sample_compiler) (nodes ?a))) = []" by code_simp
  have "filter is_write_task sample_nodes = []" by code_simp
  then have i: "inject sample_hash sample_nodes (edges ?a) = Inr (sample_nodes, edges ?a, [])"
    by (auto simp: inject_def split: list.splits)
  have k: "compiled_constructible sample_graph" by code_simp
  have c: "cfg_catalog sample_compiler = \<lparr>agents = [sample_agent ''a''], catalog_hash = replicate 64 CHR ''c''\<rparr>"
    "cfg_policy_version sample_compiler = ''p''"
    by (simp_all add: sample_compiler_def catalog_in_def sample_hub_def sample_catalog_digest_def)
  have "compile sample_hash sample_compiler sample_author (replicate 40 CHR ''0'') =
     seal sample_hash sample_compiler (replicate 40 CHR ''0'') (replicate 64 CHR ''0'') ?a sample_nodes []"
    unfolding compile_def sample_author_accepted sum.case Let_def e sample_digests
    by (simp add: ok_def sample_nodes_def comp_def)
  moreover have "\<dots> = Inr \<lparr>result_graph = Some sample_graph,
      compiled_hash = Some (sample_hash (canonical_compiled sample_graph)),
      result_source_hash = replicate 64 CHR ''0'', result_errors = [], result_warnings = []\<rparr>"
    using k unfolding seal_def i sum.case prod.case c by (simp add: sample_graph_def Let_def)
  ultimately show ?thesis by (simp add: compilation_ok_def)
qed

abbreviation sample_integration :: WorkspaceLease where
  "sample_integration \<equiv> fst (the (hub_locks sample_hub ''session:s:integration''))"

lemma sample_checks:
  "submission_problem sample_hash sample_catalog_digest sample_new_run = None"
  "master_assert_valid (hub_masters sample_hub) (sample_master ''alice'' 0 1) 5 = None"
  "workspace_assert_valid (hub_locks sample_hub) sample_integration 5 = None"
  "resource_key sample_integration = ''session:s:integration''"
  "workflow_problem sample_new_run (the (hub_workflows sample_hub ''w'')) = None"
  "planner_problem sample_hub sample_new_run = None"
proof -
  have "list_all (catalog_has_node (new_agent_catalog sample_new_run)) (compiled_nodes sample_graph)"
    by code_simp
  then show "submission_problem sample_hash sample_catalog_digest sample_new_run = None"
    by (simp add: submission_problem_def sample_new_run_def sample_graph_def Let_def sample_digests
        sample_catalog_digest_def)
  show "master_assert_valid (hub_masters sample_hub) (sample_master ''alice'' 0 1) 5 = None"
    "workspace_assert_valid (hub_locks sample_hub) sample_integration 5 = None"
    "resource_key sample_integration = ''session:s:integration''"
    "planner_problem sample_hub sample_new_run = None"
    by code_simp+
  show "workflow_problem sample_new_run (the (hub_workflows sample_hub ''w'')) = None"
    by (simp add: workflow_problem_def sample_new_run_def sample_hub_def Let_def)
qed

definition sample_store :: RunStore where
  "sample_store =
     \<lparr>run = \<lparr>workflow_run_id = ''r'', run_session_id = ''s'', run_base_commit = replicate 40 CHR ''0'',
        current_commit = replicate 40 CHR ''0'', author_snapshot = sample_author,
        author_snapshot_hash = replicate 64 CHR ''0'', compiled_snapshot = sample_graph,
        compiled_snapshot_hash = replicate 64 CHR ''0'', layout_digest = ''l'', layout_snapshot_hash = ''l'',
        run_policy_version = ''p'', catalog_snapshot = catalog_in sample_catalog_digest sample_hub,
        catalog_snapshot_hash = replicate 64 CHR ''c'', run_status = WorkflowRunStatus.PENDING,
        run_started_at = None, run_finished_at = None, cancel_requested_at = None, merge_finalizing_at = None\<rparr>,
      node_runs = map (first_attempt sample_hash ''r'' 5) (sort_key node_id (compiled_nodes sample_graph)),
      tasks = [], artifacts = [], change_sets = [], approval_status = (\<lambda>_. None), session_status = ''active'',
      integration_head_commit = replicate 40 CHR ''0'', master_leases = hub_masters sample_hub,
      file_locks = hub_locks sample_hub,
      run_events = [RunCreated 1 (replicate 64 CHR ''0'') None None None]\<rparr>"

lemma sample_inserted:
  "insert_run sample_hash sample_catalog_digest sample_hub sample_new_run
     (the (hub_workflows sample_hub ''w'')) sample_graph (sample_master ''alice'' 0 1) 5 = Inr sample_store"
proof -
  have "distinct (map node_run_id (map (first_attempt sample_hash ''r'' 5) (sort_key node_id (compiled_nodes sample_graph))))"
    by code_simp
  then show ?thesis
    by (simp add: insert_run_def Let_def sample_new_run_def sample_hub_def list_all_iff sample_store_def
        new_run_def sample_graph_def emit_def sample_master_def catalog_in_def)
qed

lemma sample_created:
  "\<exists>st. create sample_hash sample_catalog_digest sample_scope ''p'' sample_hub sample_new_run
     (sample_master ''alice'' 0 1) sample_integration 5 = Inr st"
proof -
  have w: "hub_workflows sample_hub ''w'' = Some (the (hub_workflows sample_hub ''w''))"
    "row_shared_repo_path (the (hub_workflows sample_hub ''w'')) = ''/r''"
    by (simp_all add: sample_hub_def)
  have cfg: "\<lparr>cfg_catalog = catalog_in sample_catalog_digest sample_hub, cfg_policy_version = ''p'',
      cfg_path_policy = Some (sample_scope ''/r''), cfg_command_guard = True\<rparr> = sample_compiler"
    by (simp add: sample_compiler_def)
  have v: "wf_id (new_workflow sample_new_run) = ''w''" "wf_session_id (new_workflow sample_new_run) = ''s''"
    "wf_author_graph (new_workflow sample_new_run) = sample_author"
    "new_current_commit sample_new_run = replicate 40 CHR ''0''"
    "catalog_hash (new_agent_catalog sample_new_run) = replicate 64 CHR ''c''"
    "new_compiled_graph sample_new_run = sample_graph"
    "catalog_hash (catalog_in sample_catalog_digest sample_hub) = replicate 64 CHR ''c''"
    by (simp_all add: sample_new_run_def catalog_in_def sample_catalog_digest_def)
  obtain r where r: "compile sample_hash sample_compiler sample_author (replicate 40 CHR ''0'') = Inr r"
    "compilation_ok r" "result_graph r = Some sample_graph" "result_source_hash r = replicate 64 CHR ''0''"
    using sample_compiles by blast
  show ?thesis
    unfolding create_def sample_checks option.case v
    using sample_inserted r by (subst w(1)) (simp add: sample_checks w(2) cfg v sample_digests del: replicate.simps)
qed


end
