(* ===== verification/Run_Reachable.thy ===== *)
theory Run_Reachable
  imports Run_Steps Run_Create
begin

text \<open>
  Every transaction on a run as one step relation, and what holds after any sequence of them,
  whatever other components write to their own tables in between.
\<close>

subsection \<open>The step relation\<close>

inductive run_txn ::
  "(string \<Rightarrow> string) \<Rightarrow> (AgentSpec list \<Rightarrow> string) \<Rightarrow> RunStore \<Rightarrow> RunStore \<Rightarrow> bool" for H cd where
  start: "start_and_reconcile H cd wid lease now st = Inr st' \<Longrightarrow> run_txn H cd st st'"
| claim: "claim_next H cd wid lease now st = Inr (st', claimed) \<Longrightarrow> run_txn H cd st st'"
| complete: "complete_node H i target oc summary lease output error now st = Inr st' \<Longrightarrow> run_txn H cd st st'"
| attach: "attach_completed_node_artifact i art lease now st = Inr st' \<Longrightarrow> run_txn H cd st st'"
| ask_cancel: "request_cancel wid lease now st = Inr st' \<Longrightarrow> run_txn H cd st st'"
| cancel: "complete_cancel wid lease now st = Inr st' \<Longrightarrow> run_txn H cd st st'"
| orphan: "mark_orphaned wid lease reason only now st = Inr st' \<Longrightarrow> run_txn H cd st st'"
| wait: "enter_waiting_approval i a lease now st = Inr st' \<Longrightarrow> run_txn H cd st st'"
| resume: "resume_after_approval wid i approved lease now st = Inr st' \<Longrightarrow> run_txn H cd st st'"
| resume_in: "resume_after_approval_in wid i approved lease now st = Inr st' \<Longrightarrow> run_txn H cd st st'"
| begin_merge: "begin_merge_finalizing wid wl lease now st = Inr st' \<Longrightarrow> run_txn H cd st st'"
| clear_merge: "clear_merge_finalizing wid wl lease now st = Inr st' \<Longrightarrow> run_txn H cd st st'"
| end_merge: "finalize_merge i cs c wl lease summary now st = Inr st' \<Longrightarrow> run_txn H cd st st'"
| new_task: "create_task t i agent base lease now st = Inr st' \<Longrightarrow> run_txn H cd st st'"
| start_task: "create_and_start_task t i agent base policy lease now st = Inr st' \<Longrightarrow> run_txn H cd st st'"
| end_task: "finish_task H t target lease wl' error now st = Inr st' \<Longrightarrow> run_txn H cd st st'"
| ask_privilege: "prepare_privilege_retry H wid i a lease wl now st = Inr (st', new_id) \<Longrightarrow> run_txn H cd st st'"
| approve_privilege: "approve_privilege_in H wid i a lease now st = Inr (st', new_id) \<Longrightarrow> run_txn H cd st st'"
| resume_privilege: "resume_privilege_after_approval_in H wid i approved lease now st = Inr st' \<Longrightarrow>
    run_txn H cd st st'"
| activate: "activate_capability_target_in t lease now st = Inr st' \<Longrightarrow> run_txn H cd st st'"

inductive run_step ::
  "(string \<Rightarrow> string) \<Rightarrow> (AgentSpec list \<Rightarrow> string) \<Rightarrow> RunStore \<Rightarrow> RunStore \<Rightarrow> bool" for H cd where
  txn: "run_txn H cd st st' \<Longrightarrow> run_step H cd st st'"
| cleanup: "hook_ok invalidate \<Longrightarrow> hook_ok revoke \<Longrightarrow>
    cancel_with_cleanup invalidate revoke wid lease now st = Inr st' \<Longrightarrow> run_step H cd st st'"
| other: "run st' = run st \<Longrightarrow> node_runs st' = node_runs st \<Longrightarrow> task_nodes st' \<subseteq> task_nodes st \<Longrightarrow>
    run_step H cd st st'"
    \<comment> \<open>leases, artifacts, change sets, approvals, the session, events, the status of a task\<close>

lemma run_txn_sim: "run_txn H cd st st' \<Longrightarrow> rows_wf (node_runs st) \<Longrightarrow> tasks_ok st \<Longrightarrow> sim st st'"
  by (induction rule: run_txn.induct)
    (erule (1) start_and_reconcile_sim claim_next_sim complete_node_sim complete_cancel_sim
       mark_orphaned_sim enter_waiting_approval_sim resume_after_approval_sim
       resume_after_approval_in_sim finalize_merge_sim create_task_sim create_and_start_task_sim
       prepare_privilege_retry_sim approve_privilege_in_sim resume_privilege_after_approval_in_sim |
     erule attach_completed_node_artifact_sim request_cancel_sim begin_merge_finalizing_sim
       clear_merge_finalizing_sim finish_task_sim |
     erule (2) activate_capability_target_in_sim)+

lemma run_step_sim: "run_step H cd st st' \<Longrightarrow> rows_wf (node_runs st) \<Longrightarrow> tasks_ok st \<Longrightarrow> sim st st'"
  by (induction rule: run_step.induct)
    (erule (2) run_txn_sim | erule cancel_with_cleanup_sim; assumption | (rule sim_same; assumption))+

abbreviation run_steps ::
  "(string \<Rightarrow> string) \<Rightarrow> (AgentSpec list \<Rightarrow> string) \<Rightarrow> RunStore \<Rightarrow> RunStore \<Rightarrow> bool" where
  "run_steps H cd \<equiv> (run_step H cd)\<^sup>*\<^sup>*"

lemma run_steps_sim:
  "run_steps H cd st st' \<Longrightarrow> rows_wf (node_runs st) \<Longrightarrow> tasks_ok st \<Longrightarrow> sim st st'"
proof (induction rule: rtranclp_induct)
  case (step st1 st2)
  then have s: "sim st st1" by blast
  show ?case
    using sim_trans [OF s run_step_sim [OF step.hyps(2) sim_wf [OF s step.prems(1)] sim_tasks_ok [OF s step.prems(2)]]] .
qed simp

lemma fresh_wf: "fresh_run st \<Longrightarrow> rows_wf (node_runs st) \<and> tasks_ok st"
  by (auto simp: fresh_run_def rows_wf_def list_all_iff tasks_ok_def task_nodes_def)

lemma fresh_sim: "fresh_run st0 \<Longrightarrow> run_steps H cd st0 st \<Longrightarrow> sim st0 st"
  using run_steps_sim fresh_wf by blast

lemma fresh_core: "fresh_run st0 \<Longrightarrow> run_steps H cd st0 st \<Longrightarrow> core_step\<^sup>*\<^sup>* (core st0) (core st)"
  using fresh_sim by (simp add: sim_def)

lemma fresh_justified:
  assumes "fresh_run st0" and "run_steps H cd st0 st"
  shows "justified (compiled_snapshot (run st0)) (node_runs st)"
    and "compiled_snapshot (run st) = compiled_snapshot (run st0)"
proof -
  have "justified (compiled_snapshot (run st0)) (node_runs st0)"
    using assms(1) by (auto simp: justified_def fresh_run_def list_all_iff started_def)
  then show "justified (compiled_snapshot (run st0)) (node_runs st)"
    using core_steps(4) [OF fresh_core [OF assms]] by simp
  show "compiled_snapshot (run st) = compiled_snapshot (run st0)"
    using core_steps(1) [OF fresh_core [OF assms]] by (simp add: run_ident_def)
qed

subsection \<open>Cancellation\<close>

definition cancelled_node :: "time \<Rightarrow> NodeRun \<Rightarrow> NodeRun" where
  "cancelled_node now q =
     (if nr_status q \<in> set NODE_LIVE
      then q\<lparr>nr_status := NodeRunStatus.CANCELLED, nr_outcome := Some NodeOutcome.CANCELLED,
         nr_error_code := Some ''workflow_cancelled'', nr_finished_at := Some now\<rparr> else q)"

definition cancelled_task :: "time \<Rightarrow> TaskRow \<Rightarrow> TaskRow" where
  "cancelled_task now t =
     (if task_status t \<in> {TaskStatus.PENDING, TaskStatus.RUNNING, TaskStatus.PRIVILEGE_REQUESTED}
      then t\<lparr>task_status := TaskStatus.CANCELLED, task_finished_at := Some now\<rparr> else t)"

lemma cancelled_idem [simp]:
  "cancelled_node now (cancelled_node now q) = cancelled_node now q"
  "cancelled_task now (cancelled_task now t) = cancelled_task now t"
  "node_run_id (cancelled_node now q) = node_run_id q"
  "task_node_run_id (cancelled_task now t) = task_node_run_id t"
  by (simp_all add: cancelled_node_def cancelled_task_def NODE_LIVE_def)

lemma cancel_nodes_rows:
  "cancel_nodes lease now rs st = Inr st' \<Longrightarrow>
     node_runs st' = map (\<lambda>q. if node_run_id q \<in> node_run_id ` set rs then cancelled_node now q else q) (node_runs st) \<and>
     tasks st' = map (\<lambda>t. if task_node_run_id t \<in> node_run_id ` set rs then cancelled_task now t else t) (tasks st)"
proof (induction rs arbitrary: st)
  case (Cons r rs)
  obtain st1 where u: "update_node (node_run_id r) NODE_LIVE
      (\<lambda>q. q\<lparr>nr_status := NodeRunStatus.CANCELLED, nr_outcome := Some NodeOutcome.CANCELLED,
         nr_error_code := Some ''workflow_cancelled'', nr_finished_at := Some now\<rparr>) st = Inr st1"
    and c: "cancel_nodes lease now rs
       (append_node_state lease r NodeRunStatus.CANCELLED (Some NodeOutcome.CANCELLED)
          ''Workflow cancellation completed.'' (Some ''workflow_cancelled'')
          (st1\<lparr>tasks := cancel_tasks_of (node_run_id r) now (tasks st1)\<rparr>)) = Inr st'"
    using Cons.prems by (auto simp: and_then_Inr)
  have "node_runs st1 = map (\<lambda>q. if node_run_id q = node_run_id r then cancelled_node now q else q) (node_runs st)"
    "tasks st1 = tasks st"
    by (auto simp: update_nodeD(1) [OF u] cancelled_node_def)
  moreover have "cancel_tasks_of (node_run_id r) now (tasks st) =
      map (\<lambda>t. if task_node_run_id t = node_run_id r then cancelled_task now t else t) (tasks st)"
    by (simp add: cancel_tasks_of_def cancelled_task_def)
  ultimately show ?case using Cons.IH [OF c] by auto
qed auto

lemma complete_cancel_form:
  assumes "complete_cancel_in lease now st = Inr st'" and "run_status (run st) \<notin> set RUN_TERMINAL"
  shows "run st' = (run st)\<lparr>run_status := WorkflowRunStatus.CANCELLED, run_finished_at := Some now\<rparr>"
    and "merge_finalizing_at (run st) = None"
    and "node_runs st' = map (cancelled_node now) (node_runs st)"
    and "t \<in> set (tasks st') \<Longrightarrow> r \<in> set (node_runs st) \<Longrightarrow> nr_status r \<in> set NODE_LIVE \<Longrightarrow>
      task_node_run_id t = node_run_id r \<Longrightarrow>
      task_status t \<notin> {TaskStatus.PENDING, TaskStatus.RUNNING, TaskStatus.PRIVILEGE_REQUESTED}"
proof -
  let ?live = "filter (\<lambda>r. nr_status r \<in> set NODE_LIVE) (node_runs st)"
  obtain st1 where m: "merge_finalizing_at (run st) = None" and c: "cancel_nodes lease now ?live st = Inr st1"
    and st': "run st' = (run st1)\<lparr>run_status := WorkflowRunStatus.CANCELLED, run_finished_at := Some now\<rparr>"
      "node_runs st' = node_runs st1" "tasks st' = tasks st1"
    using assms by (auto simp: complete_cancel_in_def and_then_Inr dest!: update_runD split: if_splits)
  show "merge_finalizing_at (run st) = None" by (rule m)
  show "run st' = (run st)\<lparr>run_status := WorkflowRunStatus.CANCELLED, run_finished_at := Some now\<rparr>"
    using st'(1) cancel_nodes_run [OF c] by simp
  note f = cancel_nodes_rows [OF c]
  show "node_runs st' = map (cancelled_node now) (node_runs st)"
    unfolding st'(2) f [THEN conjunct1] by (auto simp: cancelled_node_def)
  show "task_status t \<notin> {TaskStatus.PENDING, TaskStatus.RUNNING, TaskStatus.PRIVILEGE_REQUESTED}"
    if "t \<in> set (tasks st')" "r \<in> set (node_runs st)" "nr_status r \<in> set NODE_LIVE"
      "task_node_run_id t = node_run_id r"
    using that unfolding st'(3) f [THEN conjunct2] by (auto simp: cancelled_task_def)
qed

subsection \<open>Properties\<close>

text \<open>
  C16: every transaction of the run repository is a sequence of elementary steps of the abstract
  machine of a run: node rows move only along the transitions of \<open>node_move\<close>, the run along
  \<open>run_move\<close>, a first attempt becomes ready only with evidence (it is an input, or an incoming
  edge has been taken), and the only rows that appear are further attempts of a node that waits
  for an approval. The invariants the steps rely on are kept.
\<close>

theorem transactions_refine_the_machine:
  assumes "run_step H cd st st'" and "rows_wf (node_runs st)" and "tasks_ok st"
  shows "core_step\<^sup>*\<^sup>* (run st, node_runs st) (run st', node_runs st') \<and>
    rows_wf (node_runs st') \<and> tasks_ok st'"
  using run_step_sim [OF assms] sim_wf sim_tasks_ok assms by (auto simp: sim_def)

text \<open>
  C35: what has ended stays as it is. Whatever transactions follow, a run that completed, failed,
  was blocked, cancelled or orphaned keeps that status, a terminal node row keeps its status and
  outcome, a request to cancel is never taken back, and the snapshot and its hash never change.
\<close>

theorem ended_states_are_final:
  assumes "rows_wf (node_runs st)" and "tasks_ok st" and "run_steps H cd st st'"
  shows "(run_status (run st) \<in> set RUN_TERMINAL \<longrightarrow> run_status (run st') = run_status (run st)) \<and>
    (\<forall>r \<in> set (node_runs st). nr_status r \<in> set NODE_TERMINAL \<longrightarrow>
      (\<exists>r' \<in> set (node_runs st'). node_run_id r' = node_run_id r \<and> nr_status r' = nr_status r \<and>
         nr_outcome r' = nr_outcome r)) \<and>
    (cancel_requested_at (run st) \<noteq> None \<longrightarrow> cancel_requested_at (run st') = cancel_requested_at (run st)) \<and>
    compiled_snapshot (run st') = compiled_snapshot (run st) \<and>
    compiled_snapshot_hash (run st') = compiled_snapshot_hash (run st)"
proof -
  have c: "core_step\<^sup>*\<^sup>* (core st) (core st')"
    using run_steps_sim [OF assms(3,1,2)] by (simp add: sim_def)
  show ?thesis
    using core_steps_run(1,2) [OF c] core_steps(1,2) [OF c]
    by (fastforce simp: kept_def run_ident_def)
qed

text \<open>
  C34: cancellation and merge finalization exclude each other: no sequence of transactions on a
  created run leaves it both with a request to cancel and with a merge being finalized, so a
  merge that is published was not cancelled and a cancelled run publishes nothing afterwards.
\<close>

theorem cancel_excludes_merge:
  assumes "fresh_run st0" and "run_steps H cd st0 st"
  shows "cancel_requested_at (run st) = None \<or> merge_finalizing_at (run st) = None"
  using core_steps_run(3) [OF fresh_core [OF assms]] assms(1) by (auto simp: fresh_run_def)

text \<open>
  C19: no node runs without a reason. In a run that was created and then changed by any sequence
  of transactions, a node row that ever became ready belongs to an input node or to the target of
  an edge whose source has ended with an outcome the edge asks for; the rows the source's row
  must show are still there. A retry after a privilege approval counts as started.
\<close>

theorem started_nodes_are_justified:
  assumes "fresh_run st0" and "run_steps H cd st0 st"
    and "r \<in> set (node_runs st)"
    and "nr_status r \<notin> {NodeRunStatus.PENDING, NodeRunStatus.SKIPPED, NodeRunStatus.CANCELLED}"
  shows "(\<exists>n \<in> set (compiled_nodes (compiled_snapshot (run st))). node_id n = nr_node_id r \<and> node_type n = INPUT) \<or>
    (\<exists>e \<in> set (compiled_edges (compiled_snapshot (run st))). to_node e = nr_node_id r \<and>
      (\<exists>u \<in> set (node_runs st). nr_node_id u = from_node e \<and> nr_status u \<in> set NODE_TERMINAL \<and>
         edge_satisfied (condition e) (nr_status u) (nr_outcome u)))"
  using fresh_justified [OF assms(1,2)] assms(3,4)
  unfolding justified_def started_def evidence_def enabled_by_def by metis

text \<open>
  Completing a cancellation is total: of a run that has not ended and is not finalizing a
  merge, every live node row becomes cancelled and the others stay as they are, no task of a
  node that was live is left pending or running, and the run becomes cancelled.
\<close>

lemma cancellation_leaves_nothing_live:
  assumes "complete_cancel wid lease now st = Inr st'" and "run_status (run st) \<notin> set RUN_TERMINAL"
  shows "run_status (run st') = WorkflowRunStatus.CANCELLED \<and>
    list_all (\<lambda>r. nr_status r \<in> set NODE_TERMINAL) (node_runs st') \<and>
    node_runs st' = map (cancelled_node now) (node_runs st) \<and>
    (\<forall>t \<in> set (tasks st'). \<forall>r \<in> set (node_runs st). nr_status r \<in> set NODE_LIVE \<longrightarrow>
      task_node_run_id t = node_run_id r \<longrightarrow>
      task_status t \<notin> {TaskStatus.PENDING, TaskStatus.RUNNING, TaskStatus.PRIVILEGE_REQUESTED})"
proof -
  have c: "complete_cancel_in lease now st = Inr st'"
    using assms(1) by (auto simp: complete_cancel_def dest!: fencedD known_runD)
  have "nr_status (cancelled_node now r) \<in> set NODE_TERMINAL" for r
    by (cases "nr_status r") (simp_all add: cancelled_node_def status_simps)
  then show ?thesis
    using complete_cancel_form [OF c assms(2)] by (auto simp: list_all_iff)
qed

subsection \<open>A run\<close>

lemmas sample_fresh = insert_run_fresh [OF sample_inserted]

lemma sample_step:
  "\<exists>st. request_cancel ''r'' (sample_master ''alice'' 0 1) 6 sample_store = Inr st \<and>
     cancel_requested_at (run st) = Some 6"
proof -
  have "case request_cancel ''r'' (sample_master ''alice'' 0 1) 6 sample_store of
      Inl _ \<Rightarrow> False | Inr st \<Rightarrow> cancel_requested_at (run st) = Some 6"
    by code_simp
  then show ?thesis by (auto split: sum.splits)
qed

lemma sample_started:
  "\<exists>st. start_and_reconcile sample_hash sample_catalog_digest ''r'' (sample_master ''alice'' 0 1) 6 sample_store =
     Inr st \<and> run_status (run st) = WorkflowRunStatus.RUNNING \<and>
     map nr_status (node_runs st) = [NodeRunStatus.READY, NodeRunStatus.PENDING, NodeRunStatus.PENDING]"
proof -
  have "snapshots_intact sample_hash sample_catalog_digest (run sample_store)"
    by (simp add: snapshots_intact_def sample_store_def catalog_in_def sample_catalog_digest_def Let_def sample_graph_def)
  moreover have "master_valid sample_store (sample_master ''alice'' 0 1) 6" "workflow_run_id (run sample_store) = ''r''"
    by code_simp+
  moreover have "case and_then (start_run (sample_master ''alice'' 0 1) 6 sample_store) (\<lambda>st'.
      if run_status (run st') = WorkflowRunStatus.RUNNING then reconcile (sample_master ''alice'' 0 1) 6 st'
      else Inr st') of Inl _ \<Rightarrow> False
    | Inr st \<Rightarrow> run_status (run st) = WorkflowRunStatus.RUNNING \<and>
        map nr_status (node_runs st) = [NodeRunStatus.READY, NodeRunStatus.PENDING, NodeRunStatus.PENDING]"
    by code_simp
  ultimately show ?thesis
    by (auto simp: start_and_reconcile_def fenced_def known_run_def split: sum.splits)
qed

lemma sample_started_step:
  obtains st where "run_step sample_hash sample_catalog_digest sample_store st"
    "map nr_status (node_runs st) = [NodeRunStatus.READY, NodeRunStatus.PENDING, NodeRunStatus.PENDING]"
proof -
  from sample_started obtain st where
    a: "start_and_reconcile sample_hash sample_catalog_digest ''r'' (sample_master ''alice'' 0 1) 6 sample_store = Inr st"
    and b: "map nr_status (node_runs st) = [NodeRunStatus.READY, NodeRunStatus.PENDING, NodeRunStatus.PENDING]"
    by (elim exE conjE)
  show thesis by (rule that [OF run_step.txn [OF run_txn.start [OF a]] b])
qed

lemma transactions_refine_the_machine_witness:
  "\<exists>st :: RunStore. core_step\<^sup>*\<^sup>* (run sample_store, node_runs sample_store) (run st, node_runs st) \<and>
     map nr_status (node_runs st) = [NodeRunStatus.READY, NodeRunStatus.PENDING, NodeRunStatus.PENDING]"
proof -
  obtain st where st: "run_step sample_hash sample_catalog_digest sample_store st"
    "map nr_status (node_runs st) = [NodeRunStatus.READY, NodeRunStatus.PENDING, NodeRunStatus.PENDING]"
    by (rule sample_started_step)
  note ok = fresh_wf [OF sample_fresh(1)]
  show ?thesis
    using transactions_refine_the_machine [OF st(1) ok [THEN conjunct1] ok [THEN conjunct2], THEN conjunct1] st(2)
    by (intro exI conjI)
qed

lemma ended_states_are_final_witness:
  "\<exists>st :: RunStore. cancel_requested_at (run st) = Some 6 \<and> compiled_snapshot (run st) = sample_graph \<and>
     run_steps sample_hash sample_catalog_digest sample_store st"
proof -
  obtain st where st: "run_steps sample_hash sample_catalog_digest sample_store st"
    "cancel_requested_at (run st) = Some 6"
    using sample_step run_txn.ask_cancel run_step.txn by blast
  then show ?thesis
    using ended_states_are_final [OF _ _ st(1)] fresh_wf [OF sample_fresh(1)] sample_fresh(2) by metis
qed

lemma cancel_excludes_merge_witness:
  "\<exists>st :: RunStore. cancel_requested_at (run st) = Some 6 \<and> merge_finalizing_at (run st) = None \<and>
     run_steps sample_hash sample_catalog_digest sample_store st"
proof -
  obtain st where st: "run_steps sample_hash sample_catalog_digest sample_store st"
    "cancel_requested_at (run st) = Some 6"
    using sample_step run_txn.ask_cancel run_step.txn by blast
  then show ?thesis using cancel_excludes_merge [OF sample_fresh(1) st(1)] by auto
qed

lemma started_nodes_are_justified_witness:
  "\<exists>(st :: RunStore) r. r \<in> set (node_runs st) \<and> nr_status r = NodeRunStatus.READY \<and>
     ((\<exists>n \<in> set (compiled_nodes (compiled_snapshot (run st))). node_id n = nr_node_id r \<and> node_type n = INPUT) \<or>
      (\<exists>e \<in> set (compiled_edges (compiled_snapshot (run st))). to_node e = nr_node_id r))"
proof -
  obtain st where st: "run_steps sample_hash sample_catalog_digest sample_store st"
    "map nr_status (node_runs st) = [NodeRunStatus.READY, NodeRunStatus.PENDING, NodeRunStatus.PENDING]"
    using sample_started_step by (metis r_into_rtranclp)
  then obtain r where r: "r \<in> set (node_runs st)" "nr_status r = NodeRunStatus.READY"
    by (cases "node_runs st") auto
  then have "nr_status r \<notin> {NodeRunStatus.PENDING, NodeRunStatus.SKIPPED, NodeRunStatus.CANCELLED}" by simp
  from started_nodes_are_justified [OF sample_fresh(1) st(1) r(1) this] show ?thesis using r by blast
qed

lemma cancellation_leaves_nothing_live_witness:
  "\<exists>st. complete_cancel ''r'' (sample_master ''alice'' 0 1) 6 sample_store = Inr st \<and>
     run_status (run st) = WorkflowRunStatus.CANCELLED \<and>
     map nr_status (node_runs st) = replicate 3 NodeRunStatus.CANCELLED"
proof -
  have "case complete_cancel ''r'' (sample_master ''alice'' 0 1) 6 sample_store of Inl _ \<Rightarrow> False
    | Inr st \<Rightarrow> map nr_status (node_runs st) = replicate 3 NodeRunStatus.CANCELLED"
    by code_simp
  then obtain st where st: "complete_cancel ''r'' (sample_master ''alice'' 0 1) 6 sample_store = Inr st"
    "map nr_status (node_runs st) = replicate 3 NodeRunStatus.CANCELLED"
    by (auto split: sum.splits)
  have "run_status (run sample_store) \<notin> set RUN_TERMINAL" by (simp add: sample_store_def RUN_TERMINAL_def)
  then show ?thesis using cancellation_leaves_nothing_live [OF st(1)] st by blast
qed

end
