(* ===== verification/Run_Progress.thy ===== *)
theory Run_Progress
  imports Run_Reachable
begin

text \<open>
  Reconciliation does not deadlock: when it leaves a run running, some node is ready, running or
  waiting for an approval. The pending node that comes first in the topological order has no
  pending predecessor, so if nothing else were live it would have been decided.
\<close>

subsection \<open>What is left when the loop ends\<close>

definition undecided :: "CompiledGraph \<Rightarrow> NodeRun list \<Rightarrow> string \<Rightarrow> bool" where
  "undecided g rows i \<longleftrightarrow> (\<exists>r. dict_by nr_node_id rows i = Some r \<and>
     (nr_status r = NodeRunStatus.PENDING \<longrightarrow> pending_target g (dict_by nr_node_id rows) i = Inr None))"

lemma reconcile_node_flag:
  assumes "reconcile_node g d lease now i (st, c) = Inr (st', c')"
  shows "(c \<longrightarrow> c') \<and> (\<not> c' \<longrightarrow> st' = st \<and> (\<exists>r. d i = Some r \<and>
    (nr_status r = NodeRunStatus.PENDING \<longrightarrow> pending_target g d i = Inr None)))"
proof (cases "d i")
  case (Some row)
  show ?thesis
  proof (cases "nr_status row = NodeRunStatus.PENDING")
    case True
    then obtain t where t: "pending_target g d i = Inr t"
      using assms Some by (auto simp: reconcile_node_def and_then_Inr)
    then show ?thesis using assms Some True by (cases t) (auto simp: reconcile_node_def and_then_Inr)
  qed (use assms Some in \<open>auto simp: reconcile_node_def\<close>)
qed (use assms in \<open>simp add: reconcile_node_def\<close>)

lemma reconcile_pass_flag:
  "reconcile_pass g d lease now is (st, c) = Inr (st', c') \<Longrightarrow>
     (c \<longrightarrow> c') \<and> (\<not> c' \<longrightarrow> st' = st \<and> (\<forall>i \<in> set is. \<exists>r. d i = Some r \<and>
       (nr_status r = NodeRunStatus.PENDING \<longrightarrow> pending_target g d i = Inr None)))"
proof (induction "is" arbitrary: st c)
  case (Cons i "is")
  then obtain st1 c1 where 1: "reconcile_node g d lease now i (st, c) = Inr (st1, c1)"
    and 2: "reconcile_pass g d lease now is (st1, c1) = Inr (st', c')"
    by (auto simp: and_then_Inr)
  show ?case using reconcile_node_flag [OF 1] Cons.IH [OF 2] by auto
qed simp

lemma reconcile_loop_undecided:
  "reconcile_loop g order lease now st = Inr st' \<Longrightarrow> i \<in> set order \<Longrightarrow> undecided g (node_runs st') i"
proof (induction g order lease now st rule: reconcile_loop.induct)
  case (1 g order lease now st)
  obtain st1 c where
    p: "reconcile_pass g (dict_by nr_node_id (node_runs st)) lease now order (st, False) = Inr (st1, c)"
    and st': "(if c then reconcile_loop g order lease now st1 else Inr st1) = Inr st'"
    using "1.prems"(1) by (subst (asm) reconcile_loop.simps) (auto split: sum.splits)
  show ?case
  proof (cases c)
    case True
    then show ?thesis using "1.IH" [OF p refl True] st' "1.prems"(2) by simp
  next
    case False
    then show ?thesis
      using reconcile_pass_flag [OF p] st' "1.prems"(2) by (auto simp: undecided_def)
  qed
qed

lemma incoming_state_None:
  "incoming_state by_node es b = Inr None \<Longrightarrow>
     \<exists>e \<in> set es. \<exists>u. by_node (from_node e) = Some u \<and> \<not> terminal u"
  by (induction es arbitrary: b) (fastforce split: option.splits if_splits)+

lemma pending_target_None:
  assumes "pending_target g by_node i = Inr None"
  shows "\<exists>e \<in> set (compiled_edges g). to_node e = i \<and> (\<exists>u. by_node (from_node e) = Some u \<and> \<not> terminal u)"
proof -
  obtain n where "find (\<lambda>n. node_id n = i) (compiled_nodes g) = Some n" "node_type n \<noteq> INPUT"
    using assms by (auto simp: pending_target_def split: option.splits if_splits)
  then have "incoming_state by_node (filter (\<lambda>e. to_node e = i) (compiled_edges g)) False = Inr None"
    using assms by (auto simp: pending_target_def and_then_Inr)
  from incoming_state_None [OF this] show ?thesis by auto
qed

subsection \<open>What reconciliation changes\<close>

definition advanced :: "NodeRun \<Rightarrow> NodeRun \<Rightarrow> bool" where
  "advanced r r' \<longleftrightarrow> r' = r \<or> nr_status r = NodeRunStatus.PENDING \<and> ident r' = ident r \<and>
     (nr_status r' = NodeRunStatus.READY \<or> nr_status r' = NodeRunStatus.SKIPPED)"

lemma advanced_trans: "advanced a b \<Longrightarrow> advanced b c \<Longrightarrow> advanced a c"
  by (auto simp: advanced_def)

abbreviation advance :: "NodeRun list \<Rightarrow> NodeRun list \<Rightarrow> bool" where
  "advance \<equiv> list_all2 advanced"

lemma advance_refl [simp]: "advance rows rows"
  by (simp add: list_all2_same advanced_def)

lemma advance_trans: "advance a b \<Longrightarrow> advance b c \<Longrightarrow> advance a c"
  by (rule list_all2_trans [OF advanced_trans])

lemma reconcile_node_cases:
  assumes "reconcile_node g d lease now i (st, c) = Inr (st', c')"
  obtains "st' = st"
  | row target st1 where "pending_target g d i = Inr (Some target)"
    "update_node (node_run_id row) [NodeRunStatus.PENDING]
       (\<lambda>r. r\<lparr>nr_status := target,
         nr_finished_at := (if target = NodeRunStatus.SKIPPED then Some now else None)\<rparr>) st = Inr st1"
    "st' = append_node_state lease row target None
       (if target = NodeRunStatus.SKIPPED then ''inactive branch'' else ''ready'') None st1"
proof (cases "d i")
  case (Some row)
  show thesis
  proof (cases "nr_status row = NodeRunStatus.PENDING")
    case True
    then obtain t where t: "pending_target g d i = Inr t"
      using assms Some by (auto simp: reconcile_node_def and_then_Inr)
    show thesis
    proof (cases t)
      case None
      then show thesis using assms Some True t that(1) by (simp add: reconcile_node_def and_then_def)
    next
      case (Some target)
      show thesis
        using assms \<open>d i = Some row\<close> True t Some that(2) [of target row]
        by (auto simp: reconcile_node_def and_then_Inr)
    qed
  qed (use assms Some that(1) in \<open>simp add: reconcile_node_def\<close>)
qed (use assms in \<open>simp add: reconcile_node_def\<close>)

lemma reconcile_node_advance:
  assumes "reconcile_node g d lease now i (st, c) = Inr (st', c')"
  shows "advance (node_runs st) (node_runs st')"
proof (cases rule: reconcile_node_cases [OF assms])
  case (2 row target st1)
  have "target = NodeRunStatus.READY \<or> target = NodeRunStatus.SKIPPED"
    using 2(1) by (auto simp: pending_target_def and_then_Inr split: option.splits if_splits)
  then have "advance (node_runs st) (node_runs st1)"
    unfolding update_nodeD(1) [OF 2(2)] by (auto simp: list_all2_map2 list_all2_same advanced_def)
  then show ?thesis using 2(3) by simp
qed simp

lemma reconcile_pass_advance:
  "reconcile_pass g d lease now is (st, c) = Inr (st', c') \<Longrightarrow> advance (node_runs st) (node_runs st')"
proof (induction "is" arbitrary: st c)
  case (Cons i "is")
  then obtain st1 c1 where 1: "reconcile_node g d lease now i (st, c) = Inr (st1, c1)"
    and 2: "reconcile_pass g d lease now is (st1, c1) = Inr (st', c')"
    by (auto simp: and_then_Inr)
  show ?case using advance_trans [OF reconcile_node_advance [OF 1] Cons.IH [OF 2]] .
qed simp

lemma reconcile_loop_advance:
  "reconcile_loop g order lease now st = Inr st' \<Longrightarrow> advance (node_runs st) (node_runs st')"
proof (induction g order lease now st rule: reconcile_loop.induct)
  case (1 g order lease now st)
  obtain st1 c where
    p: "reconcile_pass g (dict_by nr_node_id (node_runs st)) lease now order (st, False) = Inr (st1, c)"
    and st': "(if c then reconcile_loop g order lease now st1 else Inr st1) = Inr st'"
    using "1.prems" by (subst (asm) reconcile_loop.simps) (auto split: sum.splits)
  show ?case
    using "1.IH" [OF p refl] st' advance_trans [OF reconcile_pass_advance [OF p]] reconcile_pass_advance [OF p]
    by (cases c) auto
qed

lemma reconcile_loop_run: "reconcile_loop g order lease now st = Inr st' \<Longrightarrow> run st' = run st"
proof (induction g order lease now st rule: reconcile_loop.induct)
  case (1 g order lease now st)
  have node: "run st2 = run st1" if "reconcile_node g d lease now i (st1, c) = Inr (st2, c2)" for d i st1 c st2 c2
    by (cases rule: reconcile_node_cases [OF that]) (auto dest!: update_nodeD(1))
  have pass: "run st2 = run st1" if "reconcile_pass g d lease now is (st1, c) = Inr (st2, c2)" for d "is" st1 c st2 c2
    using that
  proof (induction "is" arbitrary: st1 c)
    case (Cons i "is")
    then show ?case using node by (fastforce simp: and_then_Inr)
  qed simp
  from "1.prems" obtain st1 c where
    p: "reconcile_pass g (dict_by nr_node_id (node_runs st)) lease now order (st, False) = Inr (st1, c)"
    and st': "(if c then reconcile_loop g order lease now st1 else Inr st1) = Inr st'"
    by (subst (asm) reconcile_loop.simps) (auto split: sum.splits)
  show ?case using "1.IH" [OF p refl] st' pass [OF p] by (cases c) auto
qed

lemma reconcile_cases:
  assumes "reconcile lease now st = Inr st'"
  obtains order st1 where "topological_order (compiled_snapshot (run st)) = Inr order"
    "reconcile_loop (compiled_snapshot (run st)) order lease now st = Inr st1"
    "\<not> list_all terminal (node_runs st1)" "st' = st1"
  | order st1 out where "topological_order (compiled_snapshot (run st)) = Inr order"
    "reconcile_loop (compiled_snapshot (run st)) order lease now st = Inr st1"
    "list_all terminal (node_runs st1)"
    "finish_run lease (run_target out (node_runs st1)) now st1 = Inr st'"
  using assms by (fastforce simp: reconcile_def Let_def and_then_Inr split: if_split_asm option.split_asm)

lemma finish_runD:
  "finish_run lease target now st = Inr st' \<Longrightarrow>
     node_runs st' = node_runs st \<and> run_status (run st) = WorkflowRunStatus.RUNNING \<and>
     run st' = (run st)\<lparr>run_status := target, run_finished_at := Some now\<rparr>"
  by (auto simp: finish_run_def and_then_Inr dest!: update_runD)

lemma reconcile_advance: "reconcile lease now st = Inr st' \<Longrightarrow> advance (node_runs st) (node_runs st')"
  by (erule reconcile_cases) (auto dest!: finish_runD intro: reconcile_loop_advance)

subsection \<open>Progress\<close>

definition closed_graph :: "CompiledGraph \<Rightarrow> bool" where
  \<comment> \<open>node ids are unique and edges connect nodes\<close>
  "closed_graph g \<longleftrightarrow> distinct (map node_id (compiled_nodes g)) \<and>
     list_all (\<lambda>e. from_node e \<in> set (map node_id (compiled_nodes g)) \<and>
       to_node e \<in> set (map node_id (compiled_nodes g))) (compiled_edges g)"

abbreviation live :: "NodeRun \<Rightarrow> bool" where
  "live r \<equiv> nr_status r \<in> {NodeRunStatus.READY, NodeRunStatus.RUNNING, NodeRunStatus.WAITING_APPROVAL}"

lemma status_trichotomy: "nr_status r = NodeRunStatus.PENDING \<or> live r \<or> terminal r"
  by (cases "nr_status r") (auto simp: NODE_TERMINAL_def)

lemma topological_order_rank:
  assumes "topological_order g = Inr order" and g: "closed_graph g"
  obtains rank :: "string \<Rightarrow> nat" where "set order = node_id ` set (compiled_nodes g)"
    and "\<And>e. e \<in> set (compiled_edges g) \<Longrightarrow> rank (from_node e) < rank (to_node e)"
proof -
  let ?ids = "map node_id (compiled_nodes g)" and ?es = "map edge_pair (compiled_edges g)"
  have d: "distinct ?ids" and es: "set ?es \<subseteq> set ?ids \<times> set ?ids"
    using g by (auto simp: closed_graph_def list_all_iff)
  have o: "order = kahn_order ?ids ?es" "length order = length ?ids"
    using assms(1) d by (auto simp: topological_order_def Let_def dedup_distinct split: if_splits)
  have s: "set order = set ?ids"
    using kahn.order_distinct [OF d es] kahn.order_subset [OF d es] o d
    by (metis card_subset_eq distinct_card finite_set)
  have s': "set (kahn_order ?ids ?es) = set ?ids" using s o(1) by simp
  show thesis
  proof (rule kahn.order_rank [OF d es s'])
    fix rank :: "string \<Rightarrow> nat"
    assume r: "\<And>u v. (u, v) \<in> set ?es \<Longrightarrow> rank u < rank v"
    show thesis
    proof (rule that)
      show "set order = node_id ` set (compiled_nodes g)" using s by simp
      show "rank (from_node e) < rank (to_node e)" if "e \<in> set (compiled_edges g)" for e
        using that by (intro r) force
    qed
  qed
qed

lemma undecided_progress:
  assumes u: "\<And>i. i \<in> node_id ` set (compiled_nodes g) \<Longrightarrow> undecided g rows i"
    and rank: "\<And>e. e \<in> set (compiled_edges g) \<Longrightarrow> (rank (from_node e) :: nat) < rank (to_node e)"
    and rows: "attempts_ordered rows" "nr_node_id ` set rows \<subseteq> node_id ` set (compiled_nodes g)"
    and p: "p \<in> set rows" "nr_status p = NodeRunStatus.PENDING"
  shows "\<exists>r \<in> set rows. live r"
  using p
proof (induction "rank (nr_node_id p)" arbitrary: p rule: less_induct)
  case less
  have d: "dict_by nr_node_id rows (nr_node_id p) = Some p"
    using attempts_ordered_pending [OF rows(1) less.prems] .
  then have "pending_target g (dict_by nr_node_id rows) (nr_node_id p) = Inr None"
    using u [of "nr_node_id p"] rows(2) less.prems by (auto simp: undecided_def)
  then obtain e q where e: "e \<in> set (compiled_edges g)" "to_node e = nr_node_id p"
    and q: "dict_by nr_node_id rows (from_node e) = Some q" "\<not> terminal q"
    using pending_target_None by blast
  have q': "q \<in> set rows" "nr_node_id q = from_node e" using dict_by_SomeD [OF q(1)] by auto
  show ?case
  proof (cases "nr_status q = NodeRunStatus.PENDING")
    case True
    have "rank (nr_node_id q) < rank (nr_node_id p)" using rank [OF e(1)] e(2) q'(2) by simp
    then show ?thesis using less.hyps q'(1) True by blast
  next
    case False
    then show ?thesis using status_trichotomy [of q] q(2) q'(1) by blast
  qed
qed

lemma run_target_terminal: "run_target out rows \<noteq> WorkflowRunStatus.RUNNING"
  by (simp add: run_target_def)

lemma reconcile_progress:
  assumes r: "reconcile lease now st = Inr st'" and run: "run_status (run st') = WorkflowRunStatus.RUNNING"
    and g: "closed_graph (compiled_snapshot (run st))" and wf: "rows_wf (node_runs st)"
    and rows: "attempts_ordered (node_runs st)"
      "nr_node_id ` set (node_runs st) = node_id ` set (compiled_nodes (compiled_snapshot (run st)))"
  shows "\<exists>r \<in> set (node_runs st'). live r"
proof -
  let ?g = "compiled_snapshot (run st)"
  obtain order st1 where o: "topological_order ?g = Inr order"
    and l: "reconcile_loop ?g order lease now st = Inr st1"
    and t: "\<not> list_all terminal (node_runs st1)" and st': "st' = st1"
  proof (rule reconcile_cases [OF r])
    fix order st1 out
    assume "finish_run lease (run_target out (node_runs st1)) now st1 = Inr st'"
    then have "run_status (run st') = run_target out (node_runs st1)" by (simp add: finish_runD)
    then show thesis using run run_target_terminal by metis
  qed
  obtain x where x: "x \<in> set (node_runs st1)" "\<not> terminal x" using t by (auto simp: list_all_iff)
  obtain rank :: "string \<Rightarrow> nat" where os: "set order = node_id ` set (compiled_nodes ?g)"
    and rank: "\<And>e. e \<in> set (compiled_edges ?g) \<Longrightarrow> rank (from_node e) < rank (to_node e)"
    by (rule topological_order_rank [OF o g]) blast
  have s: "core_step\<^sup>*\<^sup>* (core st) (core st1)" using reconcile_loop_sim [OF l refl wf, THEN conjunct1] by (simp add: sim_def)
  show ?thesis
  proof (cases "nr_status x = NodeRunStatus.PENDING")
    case True
    have "\<And>i. i \<in> node_id ` set (compiled_nodes ?g) \<Longrightarrow> undecided ?g (node_runs st1) i"
      using reconcile_loop_undecided [OF l] os by blast
    moreover have "nr_node_id ` set (node_runs st1) \<subseteq> node_id ` set (compiled_nodes ?g)"
      using core_steps_attempts(2) [OF s] rows(2) by simp
    ultimately show ?thesis
      using undecided_progress [OF _ rank core_steps_attempts(1) [OF s rows(1)]] x(1) True
      unfolding st' by blast
  next
    case False
    then show ?thesis using status_trichotomy [of x] x st' by blast
  qed
qed

lemma start_and_reconcile_cases:
  assumes "start_and_reconcile H cd wid lease now st = Inr st'"
  obtains st1 where "start_run lease now st = Inr st1"
    "run_status (run st1) = WorkflowRunStatus.RUNNING" "reconcile lease now st1 = Inr st'"
  | "start_run lease now st = Inr st'" "run_status (run st') \<noteq> WorkflowRunStatus.RUNNING"
proof -
  obtain st1 where 1: "start_run lease now st = Inr st1"
    "(if run_status (run st1) = WorkflowRunStatus.RUNNING then reconcile lease now st1 else Inr st1) = Inr st'"
    using assms by (auto simp: start_and_reconcile_def and_then_Inr dest!: fencedD known_runD split: if_split_asm)
  then show thesis using that by (auto split: if_splits)
qed

lemma start_run_rows:
  "start_run lease now st = Inr st' \<Longrightarrow>
     node_runs st' = node_runs st \<and> compiled_snapshot (run st') = compiled_snapshot (run st)"
  by (auto simp: start_run_def and_then_Inr dest!: update_runD split: if_splits)

definition well_rowed :: "RunStore \<Rightarrow> bool" where
  "well_rowed st \<longleftrightarrow> rows_wf (node_runs st) \<and> attempts_ordered (node_runs st) \<and>
     nr_node_id ` set (node_runs st) = node_id ` set (compiled_nodes (compiled_snapshot (run st)))"

lemma sim_well_rowed: "sim st st' \<Longrightarrow> well_rowed st \<Longrightarrow> well_rowed st'"
  unfolding sim_def well_rowed_def
  using core_steps(1,3) [of "run st" "node_runs st" "run st'" "node_runs st'"]
    core_steps_attempts [of "run st" "node_runs st" "run st'" "node_runs st'"]
  by (auto simp: run_ident_def)

lemma sorted_wrt_distinct_key:
  "distinct (map f xs) \<Longrightarrow> sorted_wrt (\<lambda>a b. f b = f a \<longrightarrow> P a b) xs"
  by (induction xs) (auto simp: image_iff)

lemma fresh_well_rowed: "fresh_run st \<Longrightarrow> well_rowed st"
proof -
  assume f: "fresh_run st"
  have "set (map nr_node_id (node_runs st)) =
      set (map node_id (sort_key node_id (compiled_nodes (compiled_snapshot (run st)))))"
    using f by (simp add: fresh_run_def)
  moreover have "attempts_ordered (node_runs st)"
    unfolding attempts_ordered_def by (rule sorted_wrt_distinct_key) (use f [unfolded fresh_run_def] in blast)
  ultimately show ?thesis using f fresh_wf by (simp add: well_rowed_def)
qed

lemma start_and_reconcile_progress:
  assumes s: "start_and_reconcile H cd wid lease now st = Inr st'"
    and run: "run_status (run st') = WorkflowRunStatus.RUNNING"
    and g: "closed_graph (compiled_snapshot (run st))" and w: "well_rowed st"
  shows "\<exists>r \<in> set (node_runs st'). live r"
  using s
proof (cases rule: start_and_reconcile_cases)
  case (1 st1)
  show ?thesis
    using reconcile_progress [OF 1(3) run] start_run_rows [OF 1(1)] g w by (simp add: well_rowed_def)
qed (use run in simp)

lemma start_and_reconcile_advance:
  assumes "start_and_reconcile H cd wid lease now st = Inr st'"
  shows "advance (node_runs st) (node_runs st')"
  using assms
proof (cases rule: start_and_reconcile_cases)
  case (1 st1)
  then show ?thesis using reconcile_advance [OF 1(3)] start_run_rows [OF 1(1)] by simp
next
  case 2
  then show ?thesis using start_run_rows by simp
qed

text \<open>
  C17: runs do not get stuck in reconciliation. Take a created run whose graph has unique node ids
  and edges between nodes, after any sequence of transactions: if starting and reconciling it
  leaves it running, then some node is ready to be claimed, is running, or waits for an
  approval: a reconciliation never leaves a running run in which everything is pending or finished.
\<close>

theorem running_runs_have_live_nodes:
  assumes "fresh_run st0" and "closed_graph (compiled_snapshot (run st0))" and "run_steps H cd st0 st"
    and "start_and_reconcile H cd wid lease now st = Inr st'"
    and "run_status (run st') = WorkflowRunStatus.RUNNING"
  shows "\<exists>r \<in> set (node_runs st'). nr_status r \<in>
    {NodeRunStatus.READY, NodeRunStatus.RUNNING, NodeRunStatus.WAITING_APPROVAL}"
proof (rule start_and_reconcile_progress [OF assms(4,5)])
  show "closed_graph (compiled_snapshot (run st))" using fresh_justified(2) [OF assms(1,3)] assms(2) by simp
  show "well_rowed st" using sim_well_rowed [OF fresh_sim [OF assms(1,3)] fresh_well_rowed [OF assms(1)]] .
qed

lemma running_runs_have_live_nodes_witness:
  "\<exists>st. start_and_reconcile sample_hash sample_catalog_digest ''r'' (sample_master ''alice'' 0 1) 6 sample_store =
     Inr st \<and> (\<exists>r \<in> set (node_runs st). nr_status r \<in>
       {NodeRunStatus.READY, NodeRunStatus.RUNNING, NodeRunStatus.WAITING_APPROVAL})"
proof -
  obtain st where
    a: "start_and_reconcile sample_hash sample_catalog_digest ''r'' (sample_master ''alice'' 0 1) 6 sample_store = Inr st"
    and b: "run_status (run st) = WorkflowRunStatus.RUNNING"
    using sample_started by (elim exE conjE)
  have "closed_graph (compiled_snapshot (run sample_store))" by code_simp
  from running_runs_have_live_nodes [OF sample_fresh(1) this rtranclp.rtrancl_refl a b] a show ?thesis by blast
qed

end
