(* ===== verification/Executor.thy ===== *)
theory Executor
  imports Node_Handlers Run_Progress
begin

text \<open>
  \<open>workflow/executor.py\<close>: the execution of one claimed node. Every repository call is a
  transaction of its own, so what was committed before an exception stays: a function here
  returns the store together with either the exception or the value. Handlers and the artifact
  repository are parameters, functions of the store.
\<close>

subsection \<open>Exceptions, handlers, artifacts\<close>

datatype exec_error =
    Repo run_error
  | ReconciliationRequired \<comment> \<open>\<open>ChangeSetReconciliationRequired\<close>\<close>
  | MaxTicksExceeded \<comment> \<open>the \<open>RuntimeError\<close> of \<open>run_until_stable\<close>\<close>

datatype handler_exit =
    Returned NodeHandlerResult
  | WaitsForPrivilege string \<comment> \<open>\<open>PrivilegePending\<close>, with its node run\<close>
  | WaitsForApproval string \<comment> \<open>\<open>ApprovalPending\<close>, with its approval\<close>
  | NeedsReconciliation
  | LostLease
  | RaisesOther \<comment> \<open>any other exception, an untyped result included\<close>

type_synonym handler = "NodeExecutionContext \<Rightarrow> RunStore \<Rightarrow> RunStore \<times> handler_exit"

record ArtifactStore =
  artifact_matches :: "RunStore \<Rightarrow> string \<Rightarrow> ArtifactRef \<Rightarrow> bool"
    \<comment> \<open>\<open>get_and_verify\<close> succeeds for this task and the record agrees with the reference\<close>
  save_result :: "RunStore \<Rightarrow> string \<Rightarrow> string option \<Rightarrow> NodeHandlerResult \<Rightarrow> (RunStore \<times> string) option"
    \<comment> \<open>\<open>create\<close> of the report under \<open>_result_artifact_id\<close>: the new store and the id\<close>

subsection \<open>The registry of handlers\<close>

definition computed :: "(NodeExecutionContext \<Rightarrow> py_error + NodeHandlerResult) \<Rightarrow> handler" where
  \<comment> \<open>a handler that only computes its result, as the executor sees it\<close>
  "computed f ctx st = (st, case f ctx of Inl _ \<Rightarrow> RaisesOther | Inr r \<Rightarrow> Returned r)"

fun build_node_registry :: "handler \<Rightarrow> (NodeType \<Rightarrow> handler option) \<Rightarrow> NodeType \<Rightarrow> handler option" where
  \<comment> \<open>\<open>given\<close>: the optional keyword arguments\<close>
  "build_node_registry agent_task given INPUT = Some (computed input_handler)"
| "build_node_registry agent_task given AGENT_TASK = Some agent_task"
| "build_node_registry agent_task given CONTEXT_BUILDER = Some (computed context_builder_handler)"
| "build_node_registry agent_task given IF = Some (computed if_handler)"
| "build_node_registry agent_task given OUTPUT = Some (computed output_handler)"
| "build_node_registry agent_task given t =
     Some (case given t of None \<Rightarrow> computed unavailable_handler | Some h \<Rightarrow> h)"

subsection \<open>The context of a node\<close>

definition exec_edge_satisfied :: "EdgeCondition \<Rightarrow> NodeOutcome option \<Rightarrow> bool" where
  \<comment> \<open>\<open>_edge_satisfied\<close> of the executor, which does not look at the status\<close>
  "exec_edge_satisfied c oc = (case oc of None \<Rightarrow> False | Some x \<Rightarrow> x \<in> set (expected_outcomes c))"

definition lookup_all :: "('k \<Rightarrow> 'v option) \<Rightarrow> 'k list \<Rightarrow> run_error + 'v list" where
  \<comment> \<open>\<open>tuple(by_node[key] for key in keys)\<close>\<close>
  "lookup_all d ks = (if list_all (\<lambda>k. d k \<noteq> None) ks then Inr (map (\<lambda>k. the (d k)) ks) else Inl (PyError KeyError))"

definition context_of ::
  "RunStore \<Rightarrow> NodeRun \<Rightarrow> WorkflowNode \<Rightarrow> run_error + NodeExecutionContext" where
  "context_of st claimed n =
     (let by_node = dict_by nr_node_id (node_runs st);
          incoming = filter (\<lambda>e. to_node e = node_id n) (compiled_edges (compiled_snapshot (run st)))
      in and_then (lookup_all by_node (map from_node incoming)) (\<lambda>preds.
           Inr \<lparr>ctx_run = run st, ctx_node_run = claimed, ctx_node = n, predecessors = preds,
                active_predecessors = map snd (filter (\<lambda>(e, u). exec_edge_satisfied (condition e) (nr_outcome u))
                  (zip incoming preds)),
                condition_upstream = (case if_condition n of None \<Rightarrow> None
                  | Some c \<Rightarrow> by_node (upstream_node_id c))\<rparr>))"

definition failure_result :: "string \<Rightarrow> string \<Rightarrow> NodeHandlerResult" where
  "failure_result summary code =
     \<lparr>hr_status = NodeRunStatus.FAILED, hr_outcome = NodeOutcome.FAILURE, hr_summary = summary,
      artifact_refs = [], hr_error_code = Some code\<rparr>"

definition expected_task ::
  "(string \<Rightarrow> string) \<Rightarrow> RunStore \<Rightarrow> NodeRun \<Rightarrow> WorkflowNode \<Rightarrow> string option" where
  \<comment> \<open>the task that must own the artifacts; \<open>None\<close> where the code raises\<close>
  "expected_task H st claimed n =
     (if node_type n = AGENT_TASK then Some (task_id_for_node H (node_run_id claimed))
      else if system_managed n
      then (case source_node_id n of None \<Rightarrow> None
            | Some s \<Rightarrow> map_option (task_id_for_node H \<circ> node_run_id) (dict_by nr_node_id (node_runs st) s))
      else None)"

definition system_source_task_id ::
  "(string \<Rightarrow> string) \<Rightarrow> RunStore \<Rightarrow> WorkflowNode \<Rightarrow> py_error + string option" where
  "system_source_task_id H st n =
     (case (system_managed n, source_node_id n) of
        (True, Some s) \<Rightarrow>
          (case dict_by nr_node_id (node_runs st) s of
             None \<Rightarrow> Inl ValueError | Some r \<Rightarrow> Inr (Some (task_id_for_node H (node_run_id r))))
      | _ \<Rightarrow> Inr None)"

definition checked_artifacts ::
  "(string \<Rightarrow> string) \<Rightarrow> ArtifactStore \<Rightarrow> RunStore \<Rightarrow> RunStore \<Rightarrow> NodeRun \<Rightarrow> WorkflowNode \<Rightarrow>
     NodeHandlerResult \<Rightarrow> NodeHandlerResult \<times> string option" where
  \<comment> \<open>\<open>st0\<close> is the store the context was read from, \<open>st\<close> the store now\<close>
  "checked_artifacts H art st0 st claimed n r =
     (case artifact_refs r of
        [] \<Rightarrow> (r, None)
      | ref # refs \<Rightarrow>
          (case expected_task H st0 claimed n of
             Some t \<Rightarrow>
               (if list_all (artifact_matches art st t) (ref # refs) then (r, Some (ref_artifact_id ref))
                else (failure_result ''NodeHandler returned an invalid artifact reference.''
                        ''handler_artifact_invalid'', None))
           | None \<Rightarrow> (failure_result ''NodeHandler returned an invalid artifact reference.''
                        ''handler_artifact_invalid'', None)))"

definition stored_result ::
  "(string \<Rightarrow> string) \<Rightarrow> ArtifactStore \<Rightarrow> RunStore \<Rightarrow> RunStore \<Rightarrow> NodeRun \<Rightarrow> WorkflowNode \<Rightarrow>
     NodeHandlerResult \<times> string option \<Rightarrow> RunStore \<times> NodeHandlerResult \<times> string option" where
  \<comment> \<open>a result without artifacts becomes one itself\<close>
  "stored_result H art st0 st claimed n = (\<lambda>(r, output).
     case output of
       Some a \<Rightarrow> (st, r, Some a)
     | None \<Rightarrow>
         (case system_source_task_id H st0 n of
            Inr t \<Rightarrow>
              (case save_result art st (node_run_id claimed) t r of
                 Some (st', a) \<Rightarrow> (st', r, Some a)
               | None \<Rightarrow> (st, failure_result ''Node result artifact could not be persisted.''
                            ''result_artifact_failed'', None))
          | Inl _ \<Rightarrow> (st, failure_result ''Node result artifact could not be persisted.''
                            ''result_artifact_failed'', None)))"

subsection \<open>Execution\<close>

definition commit :: "RunStore \<Rightarrow> run_error + RunStore \<Rightarrow> string \<Rightarrow> RunStore \<times> (exec_error + NodeRun)" where
  \<comment> \<open>a transaction that raises is rolled back; one that commits returns the row read back\<close>
  "commit st tx i =
     (case tx of
        Inl e \<Rightarrow> (st, Inl (Repo e))
      | Inr st' \<Rightarrow> (case find_node_run st' i of
                      None \<Rightarrow> (st', Inl (Repo (PyError AssertionError))) | Some r \<Rightarrow> (st', Inr r)))"

definition already_completed ::
  "RunStore \<Rightarrow> NodeRun \<Rightarrow> NodeHandlerResult \<Rightarrow> string option \<Rightarrow> MasterLease \<Rightarrow> time \<Rightarrow>
     RunStore \<times> (exec_error + NodeRun)" where
  \<comment> \<open>the merge handler has completed its node itself\<close>
  "already_completed st claimed r output lease now =
     (case find_node_run st (node_run_id claimed) of
        None \<Rightarrow> (st, Inl (Repo RuntimeError))
      | Some q \<Rightarrow>
          (if nr_status q = NodeRunStatus.COMPLETED \<and> nr_outcome q = Some NodeOutcome.SUCCESS then (st, Inr q)
           else if nr_status q \<noteq> hr_status r \<or> nr_outcome q \<noteq> Some (hr_outcome r)
           then (st, Inl (Repo ConcurrencyConflict))
           else case output of
             None \<Rightarrow> (st, Inr q)
           | Some a \<Rightarrow> commit st (attach_completed_node_artifact (node_run_id claimed) a lease now st)
                        (node_run_id claimed)))"

definition complete_claimed ::
  "(string \<Rightarrow> string) \<Rightarrow> RunStore \<Rightarrow> NodeRun \<Rightarrow> NodeHandlerResult \<Rightarrow> string option \<Rightarrow> MasterLease \<Rightarrow>
     (nat \<Rightarrow> time) \<Rightarrow> RunStore \<times> (exec_error + NodeRun)" where
  "complete_claimed H st claimed r output lease clock =
     (let tx = complete_node H (node_run_id claimed) (hr_status r) (hr_outcome r) (hr_summary r) lease output
            (hr_error_code r) (clock 0) st
      in if nr_node_type claimed = MERGE_PATCH \<and>
           (case tx of Inl e \<Rightarrow> e = ConcurrencyConflict | Inr _ \<Rightarrow> False)
         then already_completed st claimed r output lease (clock 1)
         else commit st tx (node_run_id claimed))"

definition execute_claimed ::
  "(string \<Rightarrow> string) \<Rightarrow> (AgentSpec list \<Rightarrow> string) \<Rightarrow> (NodeType \<Rightarrow> handler option) \<Rightarrow> ArtifactStore \<Rightarrow>
     MasterLease \<Rightarrow> (nat \<Rightarrow> time) \<Rightarrow> NodeRun \<Rightarrow> RunStore \<Rightarrow> RunStore \<times> (exec_error + NodeRun)" where
  "execute_claimed H cd handlers art lease clock claimed st =
     (if nr_status claimed \<noteq> NodeRunStatus.RUNNING then (st, Inl (Repo (PyError ValueError)))
      else if \<not> snapshots_intact H cd (run st) then (st, Inl (Repo SnapshotIntegrityError))
      else case find (\<lambda>n. node_id n = nr_node_id claimed) (compiled_nodes (compiled_snapshot (run st))) of
        None \<Rightarrow> commit st
          (complete_node H (node_run_id claimed) NodeRunStatus.FAILED NodeOutcome.FAILURE
             ''Claimed node is missing from immutable snapshot.'' lease None (Some ''snapshot_node_missing'')
             (clock 0) st) (node_run_id claimed)
      | Some n \<Rightarrow>
          (case context_of st claimed n of
             Inl e \<Rightarrow> (st, Inl (Repo e))
           | Inr ctx \<Rightarrow>
               (case handlers (node_type n) of
                  None \<Rightarrow> (st, Inl (Repo (PyError KeyError)))
                | Some h \<Rightarrow>
                    (case h ctx st of
                       (st1, WaitsForPrivilege i) \<Rightarrow>
                         (case find_node_run st1 i of
                            None \<Rightarrow> (st1, Inl (Repo RuntimeError))
                          | Some q \<Rightarrow>
                              (if nr_status q \<noteq> NodeRunStatus.WAITING_APPROVAL
                               then (st1, Inl (Repo ConcurrencyConflict)) else (st1, Inr q)))
                     | (st1, WaitsForApproval a) \<Rightarrow>
                         commit st1 (enter_waiting_approval (node_run_id claimed) a lease (clock 0) st1)
                           (node_run_id claimed)
                     | (st1, NeedsReconciliation) \<Rightarrow> (st1, Inl ReconciliationRequired)
                     | (st1, LostLease) \<Rightarrow> (st1, Inl (Repo (LeaseError LeaseLost)))
                     | (st1, exit) \<Rightarrow>
                         (let result = (case exit of Returned r \<Rightarrow> r
                                | _ \<Rightarrow> failure_result
                                    ''NodeHandler raised an internal error; details were not persisted.''
                                    ''handler_exception'')
                          in case stored_result H art st st1 claimed n
                               (checked_artifacts H art st st1 claimed n result) of
                               (st2, r, output) \<Rightarrow> complete_claimed H st2 claimed r output lease clock)))))"

subsection \<open>A node that has been executed is settled\<close>

abbreviation ids_distinct :: "RunStore \<Rightarrow> bool" where
  "ids_distinct st \<equiv> distinct (map node_run_id (node_runs st))"

lemma find_distinct: "distinct (map f xs) \<Longrightarrow> x \<in> set xs \<Longrightarrow> find (\<lambda>y. f y = f x) xs = Some x"
  by (induction xs) auto

lemma find_node_run_distinct:
  "ids_distinct st \<Longrightarrow> r \<in> set (node_runs st) \<Longrightarrow> find_node_run st (node_run_id r) = Some r"
  unfolding find_node_run_def by (rule find_distinct)

lemma find_node_runD: "find_node_run st i = Some r \<Longrightarrow> r \<in> set (node_runs st) \<and> node_run_id r = i"
  by (auto simp: find_node_run_def find_Some_iff)

lemma update_node_ids:
  assumes "update_node i S f st = Inr st'" and "\<And>r. node_run_id (f r) = node_run_id r"
  shows "map node_run_id (node_runs st') = map node_run_id (node_runs st)"
  using assms(2) by (auto simp: update_nodeD(1) [OF assms(1)])

lemma update_node_find:
  assumes u: "update_node i S f st = Inr st'" and ids: "ids_distinct st"
    and f: "\<And>r. node_run_id (f r) = node_run_id r"
  shows "\<exists>r \<in> set (node_runs st). node_run_id r = i \<and> nr_status r \<in> set S \<and> find_node_run st' i = Some (f r)"
proof -
  obtain r where r: "r \<in> set (node_runs st)" "node_run_id r = i" "nr_status r \<in> set S"
    using update_nodeD(2) [OF u] by blast
  have "f r \<in> set (node_runs st')" using r by (force simp: update_nodeD(1) [OF u])
  then have "find_node_run st' (node_run_id (f r)) = Some (f r)"
    using find_node_run_distinct [of st' "f r"] update_node_ids [OF u f] ids by simp
  then show ?thesis using r f by auto
qed

abbreviation settled :: "NodeRun \<Rightarrow> bool" where
  "settled q \<equiv> nr_status q \<in> set NODE_TERMINAL \<or> nr_status q = NodeRunStatus.WAITING_APPROVAL"

lemma sim_find_terminal:
  assumes "sim st st'" "rows_wf (node_runs st)" "find_node_run st i = Some r" "terminal r"
    and "find_node_run st' i = Some q"
  shows "nr_status q = nr_status r"
proof -
  have r: "r \<in> set (node_runs st)" "node_run_id r = i" using find_node_runD [OF assms(3)] by auto
  have "kept (node_runs st) (node_runs st')" using assms(1) core_steps(2) unfolding sim_def by blast
  then obtain r' where r': "r' \<in> set (node_runs st')" "ident r' = ident r" "nr_status r' = nr_status r"
    using r(1) assms(4) unfolding kept_def by blast
  have "ids_distinct st'" using sim_wf [OF assms(1,2)] by (simp add: rows_wf_def)
  then have "find_node_run st' (node_run_id r') = Some r'" using r'(1) by (rule find_node_run_distinct)
  then show ?thesis using r' r(2) assms(5) by simp
qed

lemma commit_Inr: "commit st tx i = (st', Inr q) \<Longrightarrow> tx = Inr st' \<and> find_node_run st' i = Some q"
  by (auto simp: commit_def split: sum.splits option.splits)

lemma complete_node_update:
  assumes "complete_node H i target oc summary lease output error now st = Inr st'"
  obtains st1 r where "update_node i [NodeRunStatus.RUNNING]
      (\<lambda>q. q\<lparr>nr_status := target, nr_outcome := Some oc, output_artifact_id := output,
         nr_error_code := error, nr_finished_at := Some now\<rparr>) st = Inr st1"
    "st' = append_node_state lease r target (Some oc) summary error st1"
    "target \<in> {NodeRunStatus.COMPLETED, NodeRunStatus.FAILED, NodeRunStatus.BLOCKED_BY_GUARD}"
  using assms
  by (auto simp: complete_node_def and_then_Inr dest!: fencedD with_nodeD split: if_splits)

lemma emit_find [simp]:
  "find_node_run (append_node_state l r s oc x y st) i = find_node_run st i"
  "find_node_run (append_run_state l p t st) i = find_node_run st i"
  by (simp_all add: find_node_run_def)

lemma complete_node_settles:
  assumes c: "complete_node H i target oc summary lease output error now st = Inr st'"
    and ids: "ids_distinct st" and q: "find_node_run st' i = Some q"
  shows "nr_status q = target" and "settled q"
proof -
  obtain st1 r where u: "update_node i [NodeRunStatus.RUNNING]
      (\<lambda>q. q\<lparr>nr_status := target, nr_outcome := Some oc, output_artifact_id := output,
         nr_error_code := error, nr_finished_at := Some now\<rparr>) st = Inr st1"
    and st': "st' = append_node_state lease r target (Some oc) summary error st1"
    and t: "target \<in> {NodeRunStatus.COMPLETED, NodeRunStatus.FAILED, NodeRunStatus.BLOCKED_BY_GUARD}"
    by (rule complete_node_update [OF c])
  show "nr_status q = target" using update_node_find [OF u ids] q by (auto simp: st')
  then show "settled q" using t by (auto simp: NODE_TERMINAL_def)
qed

lemma enter_waiting_cases:
  assumes "enter_waiting_approval i a lease now st = Inr st'"
  obtains r where "approval_status st a = Some ''approved''" "st' = st" "find_node_run st i = Some r"
    "nr_status r = NodeRunStatus.RUNNING" "run_status (run st) = WorkflowRunStatus.RUNNING"
  | r st1 where "approval_status st a = Some ''rejected''"
    "update_node i [NodeRunStatus.RUNNING]
      (\<lambda>q. q\<lparr>nr_status := NodeRunStatus.COMPLETED, nr_outcome := Some NodeOutcome.REJECTED,
         nr_error_code := Some ''approval_rejected'', nr_finished_at := Some now\<rparr>) st = Inr st1"
    "reconcile lease now (append_node_state lease r NodeRunStatus.COMPLETED (Some NodeOutcome.REJECTED)
       ''Approval rejected.'' (Some ''approval_rejected'') st1) = Inr st'"
  | r e s where "approval_status st a \<noteq> Some ''approved''" "wait_for_approval i e s lease r st = Inr st'"
proof -
  obtain r where r: "find_node_run st i = Some r" "nr_status r = NodeRunStatus.RUNNING"
      "run_status (run st) = WorkflowRunStatus.RUNNING"
    and k: "(case approval_status st a of
         Some s \<Rightarrow>
           (if s = ''approved'' \<or> s = ''rejected''
            then resume_after_approval_in (workflow_run_id (run st)) i (s = ''approved'') lease now st
            else wait_for_approval i (''approval_pending:'' @ a) ''Waiting for durable approval.'' lease r st)
       | None \<Rightarrow> wait_for_approval i (''approval_pending:'' @ a) ''Waiting for durable approval.'' lease r st) = Inr st'"
    using assms by (auto simp: enter_waiting_approval_def with_node_def dest!: fencedD
        split: if_split_asm option.split_asm)
  have res: "resume_after_approval_in (workflow_run_id (run st)) i b lease now st =
      (if b then Inr st else if cancelling st then Inl ConcurrencyConflict
       else and_then
         (update_node i [NodeRunStatus.RUNNING]
           (\<lambda>q. q\<lparr>nr_status := NodeRunStatus.COMPLETED, nr_outcome := Some NodeOutcome.REJECTED,
              nr_error_code := Some ''approval_rejected'', nr_finished_at := Some now\<rparr>) st)
         (\<lambda>st1. reconcile lease now
            (append_node_state lease r NodeRunStatus.COMPLETED (Some NodeOutcome.REJECTED)
              ''Approval rejected.'' (Some ''approval_rejected'') st1)))" for b
    using r by (simp add: resume_after_approval_in_def known_run_def with_node_def)
  show thesis
  proof (cases "approval_status st a")
    case None
    then show thesis using k that(3) [rotated] by simp
  next
    case (Some s)
    consider "s = ''approved''" | "s = ''rejected''" | "s \<noteq> ''approved''" "s \<noteq> ''rejected''" by blast
    then show thesis
    proof cases
      case 1
      have same: "st' = st" using k by (simp add: Some 1 res)
      show thesis by (rule that(1) [OF _ same r]) (simp add: Some 1)
    next
      case 2
      obtain st1 where "update_node i [NodeRunStatus.RUNNING]
          (\<lambda>q. q\<lparr>nr_status := NodeRunStatus.COMPLETED, nr_outcome := Some NodeOutcome.REJECTED,
             nr_error_code := Some ''approval_rejected'', nr_finished_at := Some now\<rparr>) st = Inr st1"
        "reconcile lease now (append_node_state lease r NodeRunStatus.COMPLETED (Some NodeOutcome.REJECTED)
           ''Approval rejected.'' (Some ''approval_rejected'') st1) = Inr st'"
        using k by (auto simp: Some 2 res and_then_Inr split: if_split_asm)
      then show thesis by (rule that(2) [rotated]) (simp add: Some 2)
    next
      case 3
      have "wait_for_approval i (''approval_pending:'' @ a) ''Waiting for durable approval.'' lease r st = Inr st'"
        using k by (simp add: Some 3)
      then show thesis by (rule that(3) [rotated]) (simp add: Some 3)
    qed
  qed
qed

lemma wait_for_approval_settles:
  assumes w: "wait_for_approval i e s lease r st = Inr st'" and ids: "ids_distinct st"
    and q: "find_node_run st' i = Some q"
  shows "nr_status q = NodeRunStatus.WAITING_APPROVAL"
proof -
  obtain st1 st2 where u: "update_node i [NodeRunStatus.RUNNING]
      (\<lambda>q. q\<lparr>nr_status := NodeRunStatus.WAITING_APPROVAL, nr_error_code := Some e, nr_finished_at := None\<rparr>) st = Inr st1"
    and st': "node_runs st' = node_runs st1"
    using w by (auto simp: wait_for_approval_def and_then_Inr dest!: update_runD)
  show ?thesis using update_node_find [OF u ids] q st' by (auto simp: find_node_run_def)
qed

lemma enter_waiting_settles:
  assumes e: "enter_waiting_approval i a lease now st = Inr st'" and wf: "rows_wf (node_runs st)"
    and q: "find_node_run st' i = Some q"
  shows "settled q \<or> approval_status st a = Some ''approved''"
proof (cases rule: enter_waiting_cases [OF e])
  case (2 r st1)
  have ids: "ids_distinct st" using wf by (simp add: rows_wf_def)
  obtain p where p: "find_node_run st1 i = Some p" "nr_status p = NodeRunStatus.COMPLETED"
    using update_node_find [OF 2(2) ids] by auto
  let ?st2 = "append_node_state lease r NodeRunStatus.COMPLETED (Some NodeOutcome.REJECTED)
       ''Approval rejected.'' (Some ''approval_rejected'') st1"
  have "sim st st1" using wf by (intro update_node_move [OF 2(2)]) (auto simp: NODE_TERMINAL_def)
  then have w: "rows_wf (node_runs ?st2)" using sim_wf [OF _ wf] by simp
  have "nr_status q = nr_status p"
    using sim_find_terminal [OF reconcile_sim [OF 2(3) w] w _ _ q, of p] p by (simp add: NODE_TERMINAL_def)
  then show ?thesis using p(2) by (simp add: NODE_TERMINAL_def)
next
  case (3 r e s)
  then show ?thesis using wait_for_approval_settles q wf by (simp add: rows_wf_def)
qed simp

lemma already_completed_settles:
  assumes a: "already_completed st claimed r output lease now = (st', Inr q)" and ids: "ids_distinct st"
    and t: "hr_status r \<in> set NODE_TERMINAL"
  shows "settled q"
proof -
  obtain p where p: "find_node_run st (node_run_id claimed) = Some p"
    using a by (auto simp: already_completed_def split: option.splits)
  show ?thesis
  proof (cases "q = p \<and> terminal p")
    case False
    then obtain art where c: "commit st (attach_completed_node_artifact (node_run_id claimed) art lease now st)
        (node_run_id claimed) = (st', Inr q)"
      using a p t by (auto simp: already_completed_def NODE_TERMINAL_def split: if_split_asm option.split_asm)
    note c = commit_Inr [OF c]
    have u: "st' = st \<or> update_node (node_run_id claimed) [NodeRunStatus.COMPLETED]
        (\<lambda>q. q\<lparr>output_artifact_id := Some art\<rparr>) st = Inr st'"
      and p1: "nr_status p = NodeRunStatus.COMPLETED"
      using c [THEN conjunct1] p
      by (auto simp: attach_completed_node_artifact_def with_node_def dest!: fencedD split: if_splits option.splits)
    have "nr_status q = NodeRunStatus.COMPLETED"
    proof (cases "st' = st")
      case True
      then show ?thesis using c p p1 by simp
    next
      case False
      then have v: "update_node (node_run_id claimed) [NodeRunStatus.COMPLETED]
        (\<lambda>q. q\<lparr>output_artifact_id := Some art\<rparr>) st = Inr st'" using u by blast
      show ?thesis using update_node_find [OF v ids] c [THEN conjunct2] by auto
    qed
    then show ?thesis by (simp add: NODE_TERMINAL_def)
  qed simp
qed

lemma complete_claimed_settles:
  assumes c: "complete_claimed H st claimed r output lease clock = (st', Inr q)" and ids: "ids_distinct st"
    and t: "hr_status r \<in> set NODE_TERMINAL"
  shows "settled q"
proof -
  let ?tx = "complete_node H (node_run_id claimed) (hr_status r) (hr_outcome r) (hr_summary r) lease output
      (hr_error_code r) (clock 0) st"
  consider "already_completed st claimed r output lease (clock 1) = (st', Inr q)"
    | "commit st ?tx (node_run_id claimed) = (st', Inr q)"
    using c by (auto simp: complete_claimed_def Let_def split: if_split_asm)
  then show ?thesis
  proof cases
    case 1
    then show ?thesis using already_completed_settles ids t by blast
  next
    case 2
    then show ?thesis using commit_Inr [OF 2] complete_node_settles(2) ids by blast
  qed
qed

definition handlers_ok :: "(NodeType \<Rightarrow> handler option) \<Rightarrow> ArtifactStore \<Rightarrow> bool" where
  \<comment> \<open>a handler keeps the rows well formed (it changes them only through transactions) and returns
      results its constructor accepts; saving an artifact does not touch the rows\<close>
  "handlers_ok handlers art \<longleftrightarrow>
     (\<forall>t h ctx s s' x. handlers t = Some h \<longrightarrow> h ctx s = (s', x) \<longrightarrow> rows_wf (node_runs s) \<longrightarrow>
        rows_wf (node_runs s') \<and> (\<forall>r. x = Returned r \<longrightarrow> validate_terminal_shape r)) \<and>
     (\<forall>s i t r s' a. save_result art s i t r = Some (s', a) \<longrightarrow> node_runs s' = node_runs s)"

definition handlers_compute :: "(NodeType \<Rightarrow> handler option) \<Rightarrow> ArtifactStore \<Rightarrow> bool" where
  \<comment> \<open>handlers leave the run and its rows to the executor, return results their constructor accepts,
      and wait only for an approval that has not been granted; saving a report touches neither\<close>
  "handlers_compute handlers art \<longleftrightarrow>
     (\<forall>t h ctx s s' x. handlers t = Some h \<longrightarrow> h ctx s = (s', x) \<longrightarrow>
        run s' = run s \<and> node_runs s' = node_runs s \<and> (\<forall>r. x = Returned r \<longrightarrow> validate_terminal_shape r) \<and>
        (\<forall>i. x \<noteq> WaitsForPrivilege i) \<and> (\<forall>a. x = WaitsForApproval a \<longrightarrow> approval_status s' a \<noteq> Some ''approved'')) \<and>
     (\<forall>s i t r s' a. save_result art s i t r = Some (s', a) \<longrightarrow> run s' = run s \<and> node_runs s' = node_runs s)"

lemma handlers_compute_ok: "handlers_compute handlers art \<Longrightarrow> handlers_ok handlers art"
  unfolding handlers_compute_def handlers_ok_def by (intro conjI allI impI; metis)

lemma computed_handler:
  assumes "\<And>ctx r. f ctx = Inr r \<Longrightarrow> validate_terminal_shape r" and "computed f ctx s = (s', x)"
  shows "s' = s \<and> (\<forall>r. x = Returned r \<longrightarrow> validate_terminal_shape r) \<and> (\<forall>i. x \<noteq> WaitsForPrivilege i) \<and>
    (\<forall>a. x \<noteq> WaitsForApproval a)"
  using assms by (auto simp: computed_def split: sum.splits)

lemma default_registry_computed:
  "build_node_registry (computed f) (\<lambda>_. None) t = Some h \<Longrightarrow>
     \<exists>g. h = computed g \<and> (g = f \<or> g \<in> {input_handler, context_builder_handler, if_handler,
        output_handler, unavailable_handler})"
  by (cases t) auto

lemma default_registry_computes:
  assumes f: "\<And>ctx r. f ctx = Inr r \<Longrightarrow> validate_terminal_shape r"
    and art: "\<And>s i t r. save_result art s i t r = None"
  shows "handlers_compute (build_node_registry (computed f) (\<lambda>_. None)) art"
proof -
  have "run s' = run s \<and> node_runs s' = node_runs s \<and> (\<forall>r. x = Returned r \<longrightarrow> validate_terminal_shape r) \<and>
      (\<forall>i. x \<noteq> WaitsForPrivilege i) \<and> (\<forall>a. x = WaitsForApproval a \<longrightarrow> approval_status s' a \<noteq> Some ''approved'')"
    if h: "build_node_registry (computed f) (\<lambda>_. None) t = Some h" and x: "h ctx s = (s', x)" for t h ctx s s' x
  proof -
    obtain g where g: "h = computed g" "g = f \<or> g \<in> {input_handler, context_builder_handler, if_handler,
        output_handler, unavailable_handler}"
      using default_registry_computed [OF h] by blast
    have "\<And>ctx r. g ctx = Inr r \<Longrightarrow> validate_terminal_shape r" using g(2) f made_shape by blast
    from computed_handler [OF this x [unfolded g(1)]] show ?thesis by auto
  qed
  then show ?thesis using art unfolding handlers_compute_def by simp
qed

definition sample_artifacts :: ArtifactStore where
  "sample_artifacts = \<lparr>artifact_matches = (\<lambda>_ _ _. False), save_result = (\<lambda>_ _ _ _. None)\<rparr>"

abbreviation sample_handlers :: "NodeType \<Rightarrow> handler option" where
  "sample_handlers \<equiv> build_node_registry (computed context_builder_handler) (\<lambda>_. None)"

lemma sample_handlers_compute: "handlers_compute sample_handlers sample_artifacts"
proof (rule default_registry_computes)
  show "validate_terminal_shape r" if "context_builder_handler ctx = Inr r" for ctx r
    using made_shape [of context_builder_handler ctx r] that by simp
  show "save_result sample_artifacts s i t r = None" for s i t r by (simp add: sample_artifacts_def)
qed

lemma checked_artifacts_status:
  "checked_artifacts H art st0 st claimed n r = (r', output) \<Longrightarrow> r' = r \<or> hr_status r' = NodeRunStatus.FAILED"
  by (auto simp: checked_artifacts_def failure_result_def split: list.splits option.splits if_splits)

lemma stored_result_status:
  "stored_result H art st0 st claimed n (r, output) = (st', r', output') \<Longrightarrow>
     (r' = r \<or> hr_status r' = NodeRunStatus.FAILED) \<and>
     (st' = st \<or> (\<exists>i t a. save_result art st i t r = Some (st', a)))"
  by (auto simp: stored_result_def failure_result_def split: option.splits sum.splits)

lemma shape_terminal: "validate_terminal_shape r \<Longrightarrow> hr_status r \<in> set NODE_TERMINAL"
  by (cases "hr_status r") (auto simp: validate_terminal_shape_def NODE_TERMINAL_def)

lemma finish_execution_settles:
  assumes f: "(case stored_result H art st0 st1 claimed n (checked_artifacts H art st0 st1 claimed n r) of
       (st2, r', output) \<Rightarrow> complete_claimed H st2 claimed r' output lease clock) = (st', Inr q)"
    and r: "hr_status r \<in> set NODE_TERMINAL" and ids: "ids_distinct st1" and ok: "handlers_ok handlers art"
  shows "settled q"
proof -
  obtain r1 o1 where 1: "checked_artifacts H art st0 st1 claimed n r = (r1, o1)" by fastforce
  obtain st2 r2 o2 where 2: "stored_result H art st0 st1 claimed n (r1, o1) = (st2, r2, o2)"
    by (metis prod_cases3)
  have "hr_status r2 \<in> set NODE_TERMINAL"
    using checked_artifacts_status [OF 1] stored_result_status [OF 2] r by (auto simp: NODE_TERMINAL_def)
  moreover have "ids_distinct st2"
    using stored_result_status [OF 2] ok ids unfolding handlers_ok_def by metis
  ultimately show ?thesis using f complete_claimed_settles by (simp add: 1 2)
qed

text \<open>
  C33: executing a claimed node settles it. Whatever the handler does (return a result, raise,
  wait for a privilege or an approval) and whatever becomes of its artifacts, when
  \<open>execute_claimed\<close> returns a row rather than raising, that row has ended or waits for an
  approval; the only exception is a handler that waits for an approval which has been granted
  in the meantime, whose node is returned still running.
\<close>

theorem executed_nodes_settle:
  assumes "execute_claimed H cd handlers art lease clock claimed st = (st', Inr q)"
    and "handlers_ok handlers art" and "rows_wf (node_runs st)"
  shows "nr_status q \<in> set NODE_TERMINAL \<or> nr_status q = NodeRunStatus.WAITING_APPROVAL \<or>
    (\<exists>(n :: WorkflowNode) h ctx a. handlers (node_type n) = Some h \<and> h ctx st = (st', WaitsForApproval a) \<and>
       approval_status st' a = Some ''approved'' \<and> node_run_id q = node_run_id claimed)"
proof (cases "find (\<lambda>n. node_id n = nr_node_id claimed) (compiled_nodes (compiled_snapshot (run st)))")
  case None
  let ?tx = "complete_node H (node_run_id claimed) NodeRunStatus.FAILED NodeOutcome.FAILURE
      ''Claimed node is missing from immutable snapshot.'' lease None (Some ''snapshot_node_missing'') (clock 0) st"
  have "commit st ?tx (node_run_id claimed) = (st', Inr q)"
    using assms(1) None by (simp add: execute_claimed_def split: if_split_asm)
  note c = commit_Inr [OF this]
  have "ids_distinct st" using assms(3) by (simp add: rows_wf_def)
  from complete_node_settles(2) [OF c [THEN conjunct1] this c [THEN conjunct2]] show ?thesis by blast
next
  case (Some n)
  then obtain ctx h where ctx: "context_of st claimed n = Inr ctx" and h: "handlers (node_type n) = Some h"
    using assms(1) by (auto simp: execute_claimed_def split: if_split_asm sum.split_asm option.split_asm)
  obtain st1 x where x: "h ctx st = (st1, x)" by fastforce
  have wf1: "rows_wf (node_runs st1)" and shape: "\<And>r. x = Returned r \<Longrightarrow> validate_terminal_shape r"
    using assms(2,3) h x unfolding handlers_ok_def by blast+
  then have ids1: "ids_distinct st1" by (simp add: rows_wf_def)
  note e = assms(1) [unfolded execute_claimed_def Some option.case ctx sum.case h x prod.case]
  show ?thesis
  proof (cases x)
    case (Returned r)
    then show ?thesis
      using e finish_execution_settles [OF _ shape_terminal [OF shape] ids1 assms(2)]
      by (fastforce split: if_split_asm)
  next
    case (WaitsForPrivilege i)
    then show ?thesis using e by (auto split: if_split_asm option.split_asm)
  next
    case (WaitsForApproval a)
    have w: "enter_waiting_approval (node_run_id claimed) a lease (clock 0) st1 = Inr st'"
      "find_node_run st' (node_run_id claimed) = Some q"
      using e WaitsForApproval commit_Inr by (auto split: if_split_asm)
    show ?thesis
    proof (cases "settled q")
      case False
      then have a: "approval_status st1 a = Some ''approved''" using enter_waiting_settles [OF w(1) wf1 w(2)] by blast
      then have "st' = st1"
        using w False wait_for_approval_settles [OF _ ids1 w(2)]
        by (cases rule: enter_waiting_cases [OF w(1)]) auto
      then show ?thesis using h x WaitsForApproval a find_node_runD [OF w(2)] by blast
    qed blast
  next
    case RaisesOther
    let ?r = "failure_result ''NodeHandler raised an internal error; details were not persisted.'' ''handler_exception''"
    have f: "(case stored_result H art st st1 claimed n (checked_artifacts H art st st1 claimed n ?r) of
        (st2, r', output) \<Rightarrow> complete_claimed H st2 claimed r' output lease clock) = (st', Inr q)"
      using e RaisesOther by (simp split: if_split_asm)
    have "hr_status ?r \<in> set NODE_TERMINAL" by (simp add: failure_result_def NODE_TERMINAL_def)
    from finish_execution_settles [OF f this ids1 assms(2)] show ?thesis by blast
  qed (use e in \<open>auto split: if_split_asm\<close>)
qed

definition sample_claimed :: NodeRun where
  "sample_claimed = (hd (node_runs sample_store))\<lparr>nr_status := NodeRunStatus.RUNNING\<rparr>"

definition sample_running :: RunStore where
  \<comment> \<open>the input node has been claimed\<close>
  "sample_running = sample_store\<lparr>run := (run sample_store)\<lparr>run_status := WorkflowRunStatus.RUNNING\<rparr>,
     node_runs := sample_claimed # tl (node_runs sample_store)\<rparr>"

lemma sample_running_facts:
  "rows_wf (node_runs sample_running)" "find_node_run sample_running (node_run_id sample_claimed) = Some sample_claimed"
  "snapshots_intact sample_hash sample_catalog_digest (run sample_running)"
proof -
  show "snapshots_intact sample_hash sample_catalog_digest (run sample_running)"
    by (simp add: snapshots_intact_def sample_running_def sample_store_def catalog_in_def sample_catalog_digest_def
        Let_def sample_graph_def)
  show "rows_wf (node_runs sample_running)" by code_simp
  show "find_node_run sample_running (node_run_id sample_claimed) = Some sample_claimed" by code_simp
qed

lemma unsaved_result: "artifact_refs r = [] \<Longrightarrow>
    stored_result H sample_artifacts st0 st claimed n (checked_artifacts H sample_artifacts st0 st claimed n r) =
      (st, failure_result ''Node result artifact could not be persisted.'' ''result_artifact_failed'', None)"
  by (simp add: stored_result_def checked_artifacts_def sample_artifacts_def split: sum.split)

lemma sample_executed:
  "\<exists>st' q. execute_claimed sample_hash sample_catalog_digest sample_handlers sample_artifacts
     (sample_master ''alice'' 0 1) (\<lambda>_. 6) sample_claimed sample_running = (st', Inr q) \<and>
     nr_status q = NodeRunStatus.FAILED"
proof -
  let ?find = "find (\<lambda>n. node_id n = nr_node_id sample_claimed) (compiled_nodes (compiled_snapshot (run sample_running)))"
  let ?fail = "failure_result ''Node result artifact could not be persisted.'' ''result_artifact_failed''"
  let ?tx = "complete_node sample_hash (node_run_id sample_claimed) (hr_status ?fail) (hr_outcome ?fail)
      (hr_summary ?fail) (sample_master ''alice'' 0 1) None (hr_error_code ?fail) 6 sample_running"
  have "case ?find of None \<Rightarrow> False | Some n \<Rightarrow> node_type n = INPUT \<and> \<not> isl (context_of sample_running sample_claimed n)"
    by code_simp
  then obtain n ctx where n: "?find = Some n" "node_type n = INPUT" "context_of sample_running sample_claimed n = Inr ctx"
    by (cases ?find; cases "context_of sample_running sample_claimed (the ?find)") auto
  have h: "sample_handlers (node_type n) = Some (computed input_handler)" by (simp add: n(2))
  have x: "computed input_handler ctx sample_running = (sample_running, Returned r) \<longrightarrow> artifact_refs r = []" for r
    by (auto simp: computed_def input_handler_def make_result_Inr split: sum.splits)
  have "nr_status sample_claimed = NodeRunStatus.RUNNING" "nr_node_type sample_claimed = INPUT" by code_simp+
  then have "execute_claimed sample_hash sample_catalog_digest sample_handlers sample_artifacts
     (sample_master ''alice'' 0 1) (\<lambda>_. 6) sample_claimed sample_running =
     commit sample_running ?tx (node_run_id sample_claimed)"
    using sample_running_facts(3) n(1,3) h x
    by (cases "input_handler ctx") (auto simp: execute_claimed_def computed_def unsaved_result failure_result_def
        complete_claimed_def Let_def)
  moreover have "case commit sample_running ?tx (node_run_id sample_claimed) of
      (st', Inr q) \<Rightarrow> nr_status q = NodeRunStatus.FAILED | _ \<Rightarrow> False"
    by code_simp
  ultimately show ?thesis by (auto split: prod.splits sum.splits)
qed

lemma executed_nodes_settle_witness:
  "\<exists>st' q. execute_claimed sample_hash sample_catalog_digest sample_handlers sample_artifacts
     (sample_master ''alice'' 0 1) (\<lambda>_. 6) sample_claimed sample_running = (st', Inr q) \<and>
     (nr_status q \<in> set NODE_TERMINAL \<or> nr_status q = NodeRunStatus.WAITING_APPROVAL)"
proof -
  obtain st' q where e: "execute_claimed sample_hash sample_catalog_digest sample_handlers sample_artifacts
     (sample_master ''alice'' 0 1) (\<lambda>_. 6) sample_claimed sample_running = (st', Inr q)"
    using sample_executed by blast
  have "\<not> (\<exists>(n :: WorkflowNode) h ctx a. sample_handlers (node_type n) = Some h \<and>
      h ctx sample_running = (st', WaitsForApproval a))"
    by (auto dest!: default_registry_computed simp: computed_def split: sum.splits)
  then show ?thesis
    using executed_nodes_settle [OF e handlers_compute_ok [OF sample_handlers_compute] sample_running_facts(1)] e by blast
qed

lemma advance_keeps_running:
  assumes "advance rows rows'" and "r \<in> set rows" and "nr_status r = NodeRunStatus.RUNNING"
  shows "r \<in> set rows'"
  using assms by (induction rows rows' rule: list_all2_induct) (auto simp: advanced_def)

subsection \<open>What the others do to a running row\<close>

inductive bystander ::
  "(string \<Rightarrow> string) \<Rightarrow> (AgentSpec list \<Rightarrow> string) \<Rightarrow> string \<Rightarrow> RunStore \<Rightarrow> RunStore \<Rightarrow> bool" for H cd i where
  \<comment> \<open>the transactions of the run but those that end it from outside (\<open>complete_cancel\<close>, \<open>mark_orphaned\<close>,
      \<open>cancel_with_cleanup\<close>) and those that end or suspend the row \<open>i\<close> itself\<close>
  start: "start_and_reconcile H cd wid lease now st = Inr st' \<Longrightarrow> bystander H cd i st st'"
| claim: "claim_next H cd wid lease now st = Inr (st', claimed) \<Longrightarrow> bystander H cd i st st'"
| complete: "complete_node H j target oc summary lease output error now st = Inr st' \<Longrightarrow> j \<noteq> i \<Longrightarrow>
    bystander H cd i st st'"
| attach: "attach_completed_node_artifact j art lease now st = Inr st' \<Longrightarrow> bystander H cd i st st'"
| ask_cancel: "request_cancel wid lease now st = Inr st' \<Longrightarrow> bystander H cd i st st'"
| wait: "enter_waiting_approval j a lease now st = Inr st' \<Longrightarrow> j \<noteq> i \<Longrightarrow> bystander H cd i st st'"
| resume: "resume_after_approval wid j approved lease now st = Inr st' \<Longrightarrow> bystander H cd i st st'"
| resume_in: "resume_after_approval_in wid j approved lease now st = Inr st' \<Longrightarrow> j \<noteq> i \<or> approved \<Longrightarrow>
    bystander H cd i st st'"
| begin_merge: "begin_merge_finalizing wid wl lease now st = Inr st' \<Longrightarrow> bystander H cd i st st'"
| clear_merge: "clear_merge_finalizing wid wl lease now st = Inr st' \<Longrightarrow> bystander H cd i st st'"
| end_merge: "finalize_merge j cs c wl lease summary now st = Inr st' \<Longrightarrow> j \<noteq> i \<Longrightarrow> bystander H cd i st st'"
| new_task: "create_task t j agent base lease now st = Inr st' \<Longrightarrow> bystander H cd i st st'"
| start_task: "create_and_start_task t j agent base policy lease now st = Inr st' \<Longrightarrow> bystander H cd i st st'"
| end_task: "finish_task H t target lease wl' error now st = Inr st' \<Longrightarrow> bystander H cd i st st'"
| ask_privilege: "prepare_privilege_retry H wid j a lease wl now st = Inr (st', new_id) \<Longrightarrow> j \<noteq> i \<Longrightarrow>
    bystander H cd i st st'"
| approve_privilege: "approve_privilege_in H wid j a lease now st = Inr (st', new_id) \<Longrightarrow> bystander H cd i st st'"
| resume_privilege: "resume_privilege_after_approval_in H wid j approved lease now st = Inr st' \<Longrightarrow>
    bystander H cd i st st'"
| activate: "activate_capability_target_in t lease now st = Inr st' \<Longrightarrow> bystander H cd i st st'"
| other: "run st' = run st \<Longrightarrow> node_runs st' = node_runs st \<Longrightarrow> task_nodes st' \<subseteq> task_nodes st \<Longrightarrow>
    bystander H cd i st st'"

lemma bystander_step: "bystander H cd i st st' \<Longrightarrow> run_step H cd st st'"
  by (induction rule: bystander.induct) (blast intro: run_txn.intros run_step.intros)+

definition stays :: "NodeRun \<Rightarrow> RunStore \<Rightarrow> RunStore \<Rightarrow> bool" where
  \<comment> \<open>a step leaves a running row and keeps a run with such a row from ending\<close>
  "stays r st st' \<longleftrightarrow> (nr_status r = NodeRunStatus.RUNNING \<longrightarrow> r \<in> set (node_runs st) \<longrightarrow>
     r \<in> set (node_runs st') \<and> (run_status (run st) \<notin> set RUN_TERMINAL \<longrightarrow> run_status (run st') \<notin> set RUN_TERMINAL))"

lemma stays_refl [simp]: "stays r st st"
  by (simp add: stays_def)

lemma stays_trans [trans]: "stays r st st1 \<Longrightarrow> stays r st1 st2 \<Longrightarrow> stays r st st2"
  by (simp add: stays_def)

lemma stays_same: "node_runs st' = node_runs st \<Longrightarrow> run_status (run st') = run_status (run st) \<Longrightarrow> stays r st st'"
  by (simp add: stays_def)

lemma stays_emit [simp]:
  "stays r st (emit ev st') \<longleftrightarrow> stays r st st'" "stays r st (append_run_state l p t st') \<longleftrightarrow> stays r st st'"
  "stays r st (append_node_state l q s oc x y st') \<longleftrightarrow> stays r st st'"
  "stays r st (append_task_state l k j tt pp ss y st') \<longleftrightarrow> stays r st st'"
  by (simp_all add: stays_def)

lemma update_node_stays:
  assumes "update_node j S f st = Inr st'" and "j \<noteq> node_run_id r \<or> NodeRunStatus.RUNNING \<notin> set S"
  shows "stays r st st'"
  using assms(2) by (force simp: update_nodeD(1) [OF assms(1)] stays_def)

lemma update_run_stays:
  "update_run P f st = Inr st' \<Longrightarrow> run_status (f (run st)) \<notin> set RUN_TERMINAL \<or> run_status (f (run st)) = run_status (run st) \<Longrightarrow>
     stays r st st'"
  by (auto simp: stays_def dest!: update_runD)

lemma reconcile_stays:
  assumes r: "reconcile lease now st = Inr st'"
  shows "stays r st st'"
proof (cases rule: reconcile_cases [OF r])
  case (1 order st1)
  then show ?thesis
    using advance_keeps_running [OF reconcile_advance [OF r]] reconcile_loop_run [OF 1(2)] by (simp add: stays_def)
next
  case (2 order st1 out)
  then have "r \<notin> set (node_runs st) \<or> nr_status r \<noteq> NodeRunStatus.RUNNING"
    using advance_keeps_running [OF reconcile_loop_advance [OF 2(2)], of r] bspec [OF 2(3) [unfolded list_all_iff], of r]
    by (cases "nr_status r = NodeRunStatus.RUNNING") (auto simp: NODE_TERMINAL_def)
  then show ?thesis by (auto simp: stays_def)
qed

lemma wait_for_approval_stays:
  assumes "wait_for_approval j e s lease q st = Inr st'" and "j \<noteq> node_run_id r"
  shows "stays r st st'"
proof -
  obtain st1 st2 where 1: "update_node j [NodeRunStatus.RUNNING]
      (\<lambda>q. q\<lparr>nr_status := NodeRunStatus.WAITING_APPROVAL, nr_error_code := Some e, nr_finished_at := None\<rparr>) st = Inr st1"
    and 2: "update_run (\<lambda>w. run_status w = WorkflowRunStatus.RUNNING \<and> cancel_requested_at w = None)
      (\<lambda>w. w\<lparr>run_status := WorkflowRunStatus.WAITING_APPROVAL\<rparr>) st1 = Inr st2"
    and 3: "stays r st st' = stays r st st2"
    using assms(1) by (auto simp: wait_for_approval_def and_then_Inr)
  have "stays r st1 st2" by (rule update_run_stays [OF 2]) (simp add: RUN_TERMINAL_def)
  then show ?thesis using 3 stays_trans [OF update_node_stays [OF 1]] assms(2) by blast
qed

lemma resume_waiting_stays:
  assumes "resume_waiting lease approved now q st = Inr st'"
  shows "stays r st st'"
proof -
  let ?target = "if approved then NodeRunStatus.READY else NodeRunStatus.COMPLETED"
  let ?oc = "if approved then None else Some NodeOutcome.REJECTED"
  let ?st3 = "\<lambda>st2. append_run_state lease WorkflowRunStatus.WAITING_APPROVAL WorkflowRunStatus.RUNNING
      (append_node_state lease q ?target ?oc
        (if approved then ''Approval granted.'' else ''Approval rejected.'')
        (if approved then None else Some ''approval_rejected'') st2)"
  obtain st1 st2 where u: "update_node (node_run_id q) [NodeRunStatus.WAITING_APPROVAL]
      (\<lambda>q. q\<lparr>nr_status := ?target, nr_outcome := ?oc,
         nr_error_code := if approved then None else Some ''approval_rejected'',
         nr_finished_at := (if approved then None else Some now)\<rparr>) st = Inr st1"
    and v: "update_run (\<lambda>w. run_status w = WorkflowRunStatus.WAITING_APPROVAL \<and> cancel_requested_at w = None)
      (\<lambda>w. w\<lparr>run_status := WorkflowRunStatus.RUNNING\<rparr>) st1 = Inr st2"
    and 3: "st' = ?st3 st2 \<or> reconcile lease now (?st3 st2) = Inr st'"
    using assms by (cases approved) (auto simp: resume_waiting_def Let_def and_then_Inr split: if_splits)
  have "stays r st st1" by (rule update_node_stays [OF u]) simp
  also have "stays r st1 st2" by (rule update_run_stays [OF v]) (simp add: RUN_TERMINAL_def)
  finally have "stays r st (?st3 st2)" by simp
  then show ?thesis using 3 stays_trans reconcile_stays by blast
qed

lemma resume_after_approval_in_stays:
  assumes "resume_after_approval_in wid j approved lease now st = Inr st'" and "j \<noteq> node_run_id r \<or> approved"
  shows "stays r st st'"
proof -
  obtain q where q: "node_run_id q = j" "resume_waiting lease approved now q st = Inr st' \<or> st' = st \<or>
      \<not> approved \<and> (\<exists>st1. update_node j [NodeRunStatus.RUNNING]
        (\<lambda>q. q\<lparr>nr_status := NodeRunStatus.COMPLETED, nr_outcome := Some NodeOutcome.REJECTED,
           nr_error_code := Some ''approval_rejected'', nr_finished_at := Some now\<rparr>) st = Inr st1 \<and>
        reconcile lease now (append_node_state lease q NodeRunStatus.COMPLETED (Some NodeOutcome.REJECTED)
          ''Approval rejected.'' (Some ''approval_rejected'') st1) = Inr st')"
    using assms(1)
    by (auto simp: resume_after_approval_in_def and_then_Inr dest!: known_runD with_nodeD split: if_split_asm)
  from q(2) show ?thesis
  proof (elim disjE conjE exE)
    fix st1
    assume "\<not> approved" and u: "update_node j [NodeRunStatus.RUNNING]
        (\<lambda>q. q\<lparr>nr_status := NodeRunStatus.COMPLETED, nr_outcome := Some NodeOutcome.REJECTED,
           nr_error_code := Some ''approval_rejected'', nr_finished_at := Some now\<rparr>) st = Inr st1"
      and c: "reconcile lease now (append_node_state lease q NodeRunStatus.COMPLETED (Some NodeOutcome.REJECTED)
          ''Approval rejected.'' (Some ''approval_rejected'') st1) = Inr st'"
    then have "stays r st st1" using update_node_stays [OF u] assms(2) by blast
    then show ?thesis using stays_trans [OF _ reconcile_stays [OF c]] by simp
  qed (auto intro: resume_waiting_stays)
qed

lemma enter_waiting_stays:
  assumes "enter_waiting_approval j a lease now st = Inr st'" and "j \<noteq> node_run_id r"
  shows "stays r st st'"
proof (cases rule: enter_waiting_cases [OF assms(1)])
  case (2 q st1)
  show ?thesis using stays_trans [OF _ reconcile_stays [OF 2(3)]] update_node_stays [OF 2(2)] assms(2) by simp
next
  case (3 q e s)
  then show ?thesis using wait_for_approval_stays assms(2) by blast
qed simp

lemma finalize_merge_stays:
  assumes "finalize_merge j cs c wl lease summary now st = Inr st'" and "j \<noteq> node_run_id r"
  shows "stays r st st'"
proof (rule finalize_merge_parts [OF assms(1)])
  fix st1 rows st2 q
  assume u: "update_run (\<lambda>w. run_status w = WorkflowRunStatus.RUNNING \<and> merge_finalizing_at w \<noteq> None)
        (\<lambda>w. w\<lparr>current_commit := c, merge_finalizing_at := None\<rparr>)
        (st\<lparr>integration_head_commit := c\<rparr>) = Inr st1"
    and v: "update_node j [NodeRunStatus.RUNNING]
        (\<lambda>q. q\<lparr>nr_status := NodeRunStatus.COMPLETED, nr_outcome := Some NodeOutcome.SUCCESS,
           nr_error_code := None, nr_finished_at := Some now\<rparr>) (st1\<lparr>change_sets := rows\<rparr>) = Inr st2"
    and 3: "reconcile lease now (append_node_state lease q NodeRunStatus.COMPLETED (Some NodeOutcome.SUCCESS)
        summary None st2) = Inr st'"
  have "stays r st (st\<lparr>integration_head_commit := c\<rparr>)" by (rule stays_same) simp_all
  also have "stays r (st\<lparr>integration_head_commit := c\<rparr>) st1" by (rule update_run_stays [OF u]) simp
  also have "stays r st1 (st1\<lparr>change_sets := rows\<rparr>)" by (rule stays_same) simp_all
  also have "stays r (st1\<lparr>change_sets := rows\<rparr>) st2" by (rule update_node_stays [OF v]) (use assms(2) in simp)
  finally show ?thesis using stays_trans [OF _ reconcile_stays [OF 3]] by simp
qed

lemma start_and_reconcile_stays:
  assumes "start_and_reconcile H cd wid lease now st = Inr st'"
  shows "stays r st st'"
proof -
  have s: "stays r st st1" if "start_run lease now st = Inr st1" for st1
    using that by (auto simp: start_run_def and_then_Inr RUN_TERMINAL_def split: if_splits elim!: update_run_stays)
  show ?thesis
    by (cases rule: start_and_reconcile_cases [OF assms]) (use s stays_trans reconcile_stays in blast)+
qed

lemma claim_next_stays: "claim_next H cd wid lease now st = Inr (st', c) \<Longrightarrow> stays r st st'"
  by (erule claim_next_cases) (auto intro: update_node_stays)

lemma prepare_privilege_retry_stays:
  assumes "prepare_privilege_retry H wid j a lease wl now st = Inr (st', new_id)" and "j \<noteq> node_run_id r"
  shows "stays r st st'"
proof -
  obtain q and t :: TaskRow and st2 where
    p: "(if task_status t \<noteq> TaskStatus.RUNNING then Inr st
         else and_then
           (update_task (task_id t) [TaskStatus.RUNNING]
             (\<lambda>q. q\<lparr>task_status := TaskStatus.PRIVILEGE_REQUESTED, task_finished_at := Some now\<rparr>) st)
           (\<lambda>st1. Inr (append_task_state lease (Some (ws_fencing_token wl)) j (task_id t)
              (Some TaskStatus.RUNNING) TaskStatus.PRIVILEGE_REQUESTED (Some (''privilege_pending:'' @ a)) st1))) = Inr st2"
    and w: "wait_for_approval j (''privilege_pending:'' @ a) ''Waiting for privilege approval.'' lease q st2 = Inr st'"
    using with_source_ex [OF assms(1) [unfolded prepare_privilege_retry_def Let_def, THEN fencedD, THEN conjunct2],
        unfolded if_error and_then_Inr [of "wait_for_approval _ _ _ _ _ _"] and_then_Inr [of "If _ _ _"]
        sum.inject prod.inject]
    by blast
  have "stays r st st2"
    using p by (auto simp: and_then_Inr update_task_def split: if_splits intro: stays_same)
  then show ?thesis using stays_trans wait_for_approval_stays [OF w assms(2)] by blast
qed
lemma create_and_start_task_rows:
  assumes "create_and_start_task t_id j agent base policy lease now st = Inr st'"
  shows "node_runs st' = node_runs st \<and> run st' = run st"
proof -
  have k: "(case find (\<lambda>t. task_id t = t_id) (tasks st) of
         Some t \<Rightarrow> start_precreated t j agent base policy lease st
       | None \<Rightarrow>
           and_then (insert_task (new_task t_id j agent base (Some policy) TaskStatus.RUNNING) st)
             (\<lambda>st1. and_then (claim_policy t_id policy st1) (\<lambda>st2.
                Inr (append_task_state lease None j t_id (Some TaskStatus.PENDING) TaskStatus.RUNNING None
                  (append_task_state lease None j t_id None TaskStatus.PENDING None st2))))) = Inr st'"
    using assms [unfolded create_and_start_task_def, THEN fencedD, THEN conjunct2, THEN with_nodeD]
    by (auto split: option.splits)
  have c: "node_runs s' = node_runs s \<and> run s' = run s" if "claim_policy t p s = Inr s'" for t p s s'
    using that by (auto simp: claim_policy_def Let_def split: if_splits)
  have i: "node_runs s' = node_runs s \<and> run s' = run s" if "insert_task t s = Inr s'" for t s s'
    using that by (auto simp: insert_task_def split: if_splits)
  have b: "node_runs s' = node_runs s \<and> run s' = run s" if "bind_policy t p s = Inr s'" for t p s s'
    using that c by (fastforce simp: bind_policy_def and_then_Inr split: if_splits)
  have u: "node_runs s' = node_runs s \<and> run s' = run s" if "update_task t S f s = Inr s'" for t S f s s'
    using that by (auto simp: update_task_def split: if_splits)
  show ?thesis
  proof (cases "find (\<lambda>t. task_id t = t_id) (tasks st)")
    case None
    then show ?thesis using k by (auto simp: and_then_Inr dest!: i c)
  next
    case (Some t)
    then show ?thesis using k by (auto simp: start_precreated_def and_then_Inr dest!: b u split: if_splits)
  qed
qed

lemma activate_stays:
  assumes "activate_capability_target_in t_id lease now st = Inr st'"
  shows "stays r st st'"
proof -
  obtain t where t: "find (\<lambda>t. task_id t = t_id) (tasks st) = Some t"
    using assms by (auto simp: activate_capability_target_in_def split: option.splits)
  note k = assms [unfolded activate_capability_target_in_def t option.case, THEN with_nodeD]
  let ?st2 = "\<lambda>q. append_node_state lease q NodeRunStatus.READY None
    ''Capability grant activated the retry task.'' None"
  let ?st3 = "\<lambda>st2. st2\<lparr>run := (run st2)\<lparr>run_status := WorkflowRunStatus.RUNNING\<rparr>\<rparr>"
  obtain q where "st = st' \<or> (\<exists>st1. update_node (node_run_id q) [NodeRunStatus.PENDING]
        (\<lambda>q. q\<lparr>nr_status := NodeRunStatus.READY, nr_error_code := None\<rparr>) st = Inr st1 \<and>
      (append_run_state lease WorkflowRunStatus.WAITING_APPROVAL WorkflowRunStatus.RUNNING (?st3 (?st2 q st1)) = st' \<or>
       ?st2 q st1 = st'))"
    using k [unfolded Let_def if_error if_result and_then_Inr sum.inject] by blast
  then show ?thesis
  proof (elim disjE exE conjE)
    fix st1
    assume u: "update_node (node_run_id q) [NodeRunStatus.PENDING]
        (\<lambda>q. q\<lparr>nr_status := NodeRunStatus.READY, nr_error_code := None\<rparr>) st = Inr st1"
    then have s: "stays r st (?st2 q st1)" by (auto intro: update_node_stays)
    have "stays r (?st2 q st1) (?st3 (?st2 q st1))" by (simp add: stays_def RUN_TERMINAL_def)
    then have s3: "stays r st (?st3 (?st2 q st1))" using s stays_trans by blast
    { assume "?st2 q st1 = st'" then show ?thesis using s by blast }
    { assume "append_run_state lease WorkflowRunStatus.WAITING_APPROVAL WorkflowRunStatus.RUNNING
        (?st3 (?st2 q st1)) = st'"
      then show ?thesis using s3 stays_emit(2) by blast }
  qed simp
qed

lemma resume_privilege_stays:
  assumes "resume_privilege_after_approval_in H wid j approved lease now st = Inr st'"
  shows "stays r st st'"
proof -
  have "approved" using assms privilege_decisions_never_commit by (cases approved) auto
  then obtain q t where k: "and_then (if next_attempt st q \<noteq> None then Inr st
          else map_sum id fst (create_privilege_retry_target H wid q t ''legacy-approval'' now st))
         (supersede lease now q) = Inr st'"
    using assms by (auto simp: resume_privilege_after_approval_in_def elim!: with_sourceD split: if_split_asm)
  have s: "stays r s s'" if "supersede lease now q s = Inr s'" for s s'
    using that by (auto simp: supersede_def and_then_Inr elim!: update_node_stays)
  have c: "stays r st s'" if "create_privilege_retry_target H wid q t ''legacy-approval'' now st = Inr (s', n)" for s' n
    using that by (auto simp: create_privilege_retry_target_def insert_task_def Let_def and_then_Inr stays_def
        split: if_split_asm)
  show ?thesis
    using k s stays_trans [OF c s]
    by (cases "create_privilege_retry_target H wid q t ''legacy-approval'' now st")
       (auto simp: and_then_Inr split: if_split_asm)
qed

lemma bystander_stays:
  assumes "bystander H cd i st st'" and "node_run_id r = i"
  shows "stays r st st'"
  using assms
proof (induction rule: bystander.induct)
  case (complete j target oc summary lease art error now st st')
  then show ?case by (auto elim!: complete_node_update intro: update_node_stays)
next
  case (attach j art lease now st st')
  then show ?case
    by (auto simp: attach_completed_node_artifact_def dest!: fencedD with_nodeD elim!: update_node_stays
        split: if_split_asm option.split_asm)
next
  case (ask_cancel wid lease now st st')
  then show ?case
    by (auto simp: request_cancel_def dest!: fencedD known_runD elim!: update_run_stays split: if_split_asm)
next
  case (resume wid j approved lease now st st')
  then show ?case
    by (auto simp: resume_after_approval_def dest!: fencedD known_runD with_nodeD intro: resume_waiting_stays
        split: if_split_asm)
next
  case (begin_merge wid wl lease now st st')
  then show ?case
    by (auto simp: begin_merge_finalizing_def dest!: fencedD known_runD elim!: update_run_stays split: if_split_asm)
next
  case (clear_merge wid wl lease now st st')
  then show ?case
    by (auto simp: clear_merge_finalizing_def dest!: fencedD known_runD intro: stays_same split: if_split_asm)
next
  case (new_task t j agent base lease now st st')
  then show ?case
    by (auto simp: create_task_def insert_task_def and_then_Inr dest!: fencedD with_nodeD intro!: stays_same
        split: if_split_asm option.split_asm)
next
  case (start_task t j agent base policy lease now st st')
  then show ?case using create_and_start_task_rows by (auto intro!: stays_same)
next
  case (end_task t target lease wl' error now st st')
  then show ?case
    by (auto simp: finish_task_def transition_task_def and_then_Inr update_task_def dest!: fencedD with_nodeD
        intro!: stays_same split: if_split_asm option.split_asm)
next
  case (approve_privilege wid j a lease now st st' new_id)
  then show ?case using privilege_decisions_never_commit by blast
next
  case (resume_privilege wid j approved lease now st st')
  then show ?case using resume_privilege_stays by blast
next
  case (activate t lease now st st')
  then show ?case using activate_stays by blast
next
  case (other st' st)
  then show ?case by (auto intro: stays_same)
qed (blast intro: start_and_reconcile_stays claim_next_stays enter_waiting_stays resume_after_approval_in_stays
   finalize_merge_stays prepare_privilege_retry_stays)+

lemma bystanders_stay:
  assumes "(bystander H cd i)\<^sup>*\<^sup>* st st'" and "node_run_id r = i" and "rows_wf (node_runs st)" and "tasks_ok st"
  shows "stays r st st' \<and> rows_wf (node_runs st')"
proof -
  have "stays r st st'" using assms(1)
    by (induction rule: rtranclp_induct) (auto intro: stays_trans bystander_stays [OF _ assms(2)])
  moreover have "run_steps H cd st st'"
    using assms(1) by (rule rtranclp_mono [THEN predicate2D, rotated]) (blast intro: bystander_step)
  ultimately show ?thesis using run_steps_sim sim_wf assms(3,4) by blast
qed

lemma claims_another:
  assumes c: "claim_next H cd wid lease now st = Inr (st', Some p)" and r: "r \<in> set (node_runs st)"
    "nr_status r = NodeRunStatus.RUNNING" and wf: "rows_wf (node_runs st)"
  shows "node_run_id p \<noteq> node_run_id r"
proof (cases rule: claim_next_cases [OF c])
  case (2 row st1)
  have ids: "ids_distinct st" using wf by (simp add: rows_wf_def)
  obtain p0 where p0: "p0 \<in> set (node_runs st)" "node_run_id p0 = node_run_id row"
    "nr_status p0 \<in> set [NodeRunStatus.READY]"
    using update_node_find [OF 2(1) ids] by auto
  have "node_run_id p = node_run_id row" using 2(3) find_node_runD by metis
  moreover have "node_run_id p0 \<noteq> node_run_id r"
  proof
    assume "node_run_id p0 = node_run_id r"
    then have "p0 = r"
      using find_node_run_distinct [OF ids p0(1)] find_node_run_distinct [OF ids r(1)]
      by (metis option.inject)
    then show False using p0(3) r(2) by simp
  qed
  ultimately show ?thesis using p0(2) by simp
qed simp

subsection \<open>A stranded node\<close>

text \<open>
  C37: an approval that is granted before the node has started to wait for it strands the node.
  \<open>enter_waiting_approval\<close> then changes nothing: the row stays running although its handler has
  returned. After any sequence of the other transactions of the run (\<open>bystander\<close>) the row is still
  exactly as it is, no claim returns it and the run has not ended. The transactions left out are
  those that cancel or orphan the run and those that end or suspend this very row, which the
  executor makes only for a row that it has claimed.
\<close>

theorem approved_before_wait_strands_the_node:
  assumes "enter_waiting_approval i a lease now st = Inr st'" and "approval_status st a = Some ''approved''"
    and "rows_wf (node_runs st)" and "tasks_ok st"
  shows "st' = st \<and> (\<exists>r \<in> set (node_runs st). node_run_id r = i \<and> nr_status r = NodeRunStatus.RUNNING \<and>
    (\<forall>H cd st1. (bystander H cd i)\<^sup>*\<^sup>* st' st1 \<longrightarrow>
       r \<in> set (node_runs st1) \<and> run_status (run st1) \<notin> set RUN_TERMINAL \<and>
       (\<forall>H cd wid lease now st2 p. claim_next H cd wid lease now st1 = Inr (st2, Some p) \<longrightarrow> node_run_id p \<noteq> i)))"
proof (cases rule: enter_waiting_cases [OF assms(1)])
  case (1 r)
  have r: "r \<in> set (node_runs st)" "node_run_id r = i" using find_node_runD [OF 1(3)] by auto
  have "r \<in> set (node_runs st1) \<and> run_status (run st1) \<notin> set RUN_TERMINAL \<and>
      (\<forall>H cd wid lease now st2 p. claim_next H cd wid lease now st1 = Inr (st2, Some p) \<longrightarrow> node_run_id p \<noteq> i)"
    if s: "(bystander H cd i)\<^sup>*\<^sup>* st st1" for H cd st1
  proof -
    have "r \<in> set (node_runs st1)" "run_status (run st1) \<notin> set RUN_TERMINAL" "rows_wf (node_runs st1)"
      using bystanders_stay [OF s r(2) assms(3,4)] r(1) 1(4,5) by (auto simp: stays_def RUN_TERMINAL_def)
    then show ?thesis using claims_another [where r = r] 1(4) r(2) by metis
  qed
  then show ?thesis using 1(2,4) r by blast
next
  case (2 r st1)
  then show ?thesis using assms(2) by simp
next
  case (3 r e s)
  then show ?thesis using assms(2) by simp
qed

lemma approved_before_wait_strands_the_node_witness:
  "enter_waiting_approval (node_run_id sample_claimed) ''a'' (sample_master ''alice'' 0 1) 6
      (sample_running\<lparr>approval_status := [''a'' \<mapsto> ''approved'']\<rparr>) =
     Inr (sample_running\<lparr>approval_status := [''a'' \<mapsto> ''approved'']\<rparr>) \<and>
   (\<exists>r \<in> set (node_runs sample_running). nr_status r = NodeRunStatus.RUNNING)"
proof -
  let ?st = "sample_running\<lparr>approval_status := [''a'' \<mapsto> ''approved'']\<rparr>"
  have "case enter_waiting_approval (node_run_id sample_claimed) ''a'' (sample_master ''alice'' 0 1) 6 ?st of
      Inl _ \<Rightarrow> False | Inr _ \<Rightarrow> True"
    by code_simp
  then obtain st' where st': "enter_waiting_approval (node_run_id sample_claimed) ''a''
      (sample_master ''alice'' 0 1) 6 ?st = Inr st'"
    by (auto split: sum.splits)
  have "approval_status ?st ''a'' = Some ''approved''" "rows_wf (node_runs ?st)"
    and "tasks_ok ?st"
    using sample_running_facts(1) by (simp_all add: tasks_ok_def task_nodes_def sample_running_def sample_store_def)
  from approved_before_wait_strands_the_node [OF st' this] st' show ?thesis by auto
qed

end
