(* ===== verification/Scheduler.thy ===== *)
theory Scheduler
  imports Executor
begin

text \<open>
  \<open>workflow/scheduler.py\<close>: a tick starts and reconciles a run, claims at most one node, executes
  it, and reconciles again; \<open>run_until_stable\<close> repeats ticks, at most \<open>max_ticks\<close> times. The
  executor is a parameter here. What it owes to the scheduler is \<open>settling\<close>; then the loop never
  exhausts its ticks, because every tick that does not stop takes a node out of the pending and
  ready ones.
\<close>

subsection \<open>Ticks\<close>

definition STOP_STATUSES :: "WorkflowRunStatus list" where
  "STOP_STATUSES = [WorkflowRunStatus.WAITING_APPROVAL, WorkflowRunStatus.PAUSED, WorkflowRunStatus.BLOCKED,
     WorkflowRunStatus.FAILED, WorkflowRunStatus.COMPLETED, WorkflowRunStatus.CANCELLED,
     WorkflowRunStatus.ORPHANED]"

type_synonym executor = "NodeRun \<Rightarrow> RunStore \<Rightarrow> RunStore \<times> (exec_error + NodeRun)"

definition next_schedulable :: "master_table \<Rightarrow> RunStore list \<Rightarrow> MasterLease \<Rightarrow> time \<Rightarrow> exec_error + string option" where
  \<comment> \<open>\<open>next_schedulable_run_id\<close>: the stores of all runs, in the order \<open>created_at, id\<close>\<close>
  "next_schedulable masters runs lease now =
     (if master_assert_valid masters lease now \<noteq> None then Inl (Repo (LeaseError LeaseLost))
      else Inr (map_option (\<lambda>st. workflow_run_id (run st))
        (find (\<lambda>st. run_status (run st) \<in> {WorkflowRunStatus.PENDING, WorkflowRunStatus.RUNNING} \<and>
           \<not> cancelling st) runs)))"

definition tick ::
  "(string \<Rightarrow> string) \<Rightarrow> (AgentSpec list \<Rightarrow> string) \<Rightarrow> executor \<Rightarrow> string \<Rightarrow> MasterLease \<Rightarrow> (nat \<Rightarrow> time) \<Rightarrow>
     RunStore \<Rightarrow> RunStore \<times> (exec_error + WorkflowRunStatus)" where
  "tick H cd exec wid lease clock st =
     (case start_and_reconcile H cd wid lease (clock 0) st of
        Inl e \<Rightarrow> (st, Inl (Repo e))
      | Inr st1 \<Rightarrow>
          (if run_status (run st1) \<in> set STOP_STATUSES then (st1, Inr (run_status (run st1)))
           else case claim_next H cd wid lease (clock 1) st1 of
             Inl e \<Rightarrow> (st1, Inl (Repo e))
           | Inr (st2, claimed) \<Rightarrow>
               (case (case claimed of None \<Rightarrow> (st2, None)
                      | Some r \<Rightarrow> (case exec r st2 of (s, Inl e) \<Rightarrow> (s, Some e) | (s, Inr _) \<Rightarrow> (s, None))) of
                  (st3, Some e) \<Rightarrow> (st3, Inl e)
                | (st3, None) \<Rightarrow>
                    (case start_and_reconcile H cd wid lease (clock 2) st3 of
                       Inl e \<Rightarrow> (st3, Inl (Repo e))
                     | Inr st4 \<Rightarrow> (st4, Inr (run_status (run st4)))))))"

fun ticks ::
  "(string \<Rightarrow> string) \<Rightarrow> (AgentSpec list \<Rightarrow> string) \<Rightarrow> (nat \<Rightarrow> executor) \<Rightarrow> string \<Rightarrow> MasterLease \<Rightarrow>
     (nat \<Rightarrow> nat \<Rightarrow> time) \<Rightarrow> nat \<Rightarrow> RunStore \<Rightarrow> RunStore \<times> (exec_error + WorkflowRunStatus)" where
  \<comment> \<open>the loop, with the number of ticks left\<close>
  "ticks H cd exec wid lease clock 0 st = (st, Inl MaxTicksExceeded)"
| "ticks H cd exec wid lease clock (Suc n) st =
     (case tick H cd (exec n) wid lease (clock n) st of
        (st', Inl e) \<Rightarrow> (st', Inl e)
      | (st', Inr s) \<Rightarrow> (if s \<in> set STOP_STATUSES then (st', Inr s)
                        else ticks H cd exec wid lease clock n st'))"

definition run_until_stable ::
  "(string \<Rightarrow> string) \<Rightarrow> (AgentSpec list \<Rightarrow> string) \<Rightarrow> (nat \<Rightarrow> executor) \<Rightarrow> string \<Rightarrow> MasterLease \<Rightarrow>
     (nat \<Rightarrow> nat \<Rightarrow> time) \<Rightarrow> nat \<Rightarrow> RunStore \<Rightarrow> RunStore \<times> (exec_error + WorkflowRunStatus)" where
  "run_until_stable H cd exec wid lease clock max_ticks st =
     (if max_ticks < 1 then (st, Inl (Repo (PyError ValueError)))
      else ticks H cd exec wid lease clock max_ticks st)"

definition default_max_ticks :: nat where
  "default_max_ticks = 1000"

subsection \<open>Quiet runs\<close>

abbreviation unfinished :: "NodeRun \<Rightarrow> bool" where
  "unfinished r \<equiv> nr_status r = NodeRunStatus.PENDING \<or> nr_status r = NodeRunStatus.READY"

definition todo :: "RunStore \<Rightarrow> nat" where
  "todo st = length (filter unfinished (node_runs st))"

definition ready_latest :: "NodeRun list \<Rightarrow> bool" where
  \<comment> \<open>only the last attempt of a node is ready\<close>
  "ready_latest = sorted_wrt (\<lambda>r q. nr_node_id q = nr_node_id r \<longrightarrow> nr_status r \<noteq> NodeRunStatus.READY)"

definition quiet :: "RunStore \<Rightarrow> bool" where
  \<comment> \<open>nothing is being executed, and a run that waits for an approval says so\<close>
  "quiet st \<longleftrightarrow> well_rowed st \<and> closed_graph (compiled_snapshot (run st)) \<and> \<not> cancelling st \<and>
     (\<forall>r \<in> set (node_runs st). nr_status r \<noteq> NodeRunStatus.RUNNING) \<and>
     (\<forall>r \<in> set (node_runs st). nr_status r = NodeRunStatus.WAITING_APPROVAL \<longrightarrow>
        run_status (run st) \<in> set STOP_STATUSES) \<and>
     ready_latest (node_runs st)"

definition busy_with :: "NodeRun \<Rightarrow> RunStore \<Rightarrow> bool" where
  \<comment> \<open>a quiet run in which one node has been claimed\<close>
  "busy_with r st \<longleftrightarrow> r \<in> set (node_runs st) \<and> nr_status r = NodeRunStatus.RUNNING \<and> well_rowed st \<and>
     closed_graph (compiled_snapshot (run st)) \<and> \<not> cancelling st \<and>
     run_status (run st) = WorkflowRunStatus.RUNNING \<and>
     (\<forall>q \<in> set (node_runs st). nr_status q = NodeRunStatus.RUNNING \<longrightarrow> q = r) \<and>
     (\<forall>q \<in> set (node_runs st). nr_status q \<noteq> NodeRunStatus.WAITING_APPROVAL) \<and>
     ready_latest (node_runs st)"

definition settling :: "executor \<Rightarrow> bool" where
  \<comment> \<open>executing the one claimed node leaves a quiet run with no more to do than before\<close>
  "settling exec \<longleftrightarrow> (\<forall>r st st' q. busy_with r st \<longrightarrow> exec r st = (st', Inr q) \<longrightarrow> quiet st' \<and> todo st' \<le> todo st) \<and>
     (\<forall>r st st'. exec r st \<noteq> (st', Inl MaxTicksExceeded))"

lemma advance_todo: "advance rows rows' \<Longrightarrow> length (filter unfinished rows') \<le> length (filter unfinished rows)"
  by (induction rows rows' rule: list_all2_induct) (auto simp: advanced_def)

lemma advance_ready_latest:
  assumes "advance rows rows'" and "ready_latest rows" and "attempts_ordered rows"
  shows "ready_latest rows'"
  unfolding ready_latest_def sorted_wrt_iff_nth_less
proof (intro allI impI)
  fix i j
  assume ij: "i < j" "j < length rows'" and n: "nr_node_id (rows' ! j) = nr_node_id (rows' ! i)"
  have len: "length rows = length rows'" using assms(1) by (rule list_all2_lengthD)
  have adv: "advanced (rows ! i) (rows' ! i)" "advanced (rows ! j) (rows' ! j)"
    using list_all2_nthD2 [OF assms(1)] ij by auto
  then have "nr_node_id (rows ! j) = nr_node_id (rows ! i)" using n by (auto simp: advanced_def)
  then have "nr_status (rows ! i) \<noteq> NodeRunStatus.READY" "nr_status (rows ! i) \<noteq> NodeRunStatus.PENDING"
    using assms(2,3) ij len
    by (auto simp: ready_latest_def attempts_ordered_def sorted_wrt_iff_nth_less)
  then show "nr_status (rows' ! i) \<noteq> NodeRunStatus.READY" using adv(1) by (auto simp: advanced_def)
qed

lemma ready_latest_dict:
  "ready_latest rows \<Longrightarrow> r \<in> set rows \<Longrightarrow> nr_status r = NodeRunStatus.READY \<Longrightarrow>
     dict_by nr_node_id rows (nr_node_id r) = Some r"
  unfolding ready_latest_def by (rule dict_by_last [where P = "\<lambda>r. nr_status r = NodeRunStatus.READY"])

lemma advance_member:
  assumes "advance rows rows'" and "r' \<in> set rows'" and "nr_status r' \<noteq> NodeRunStatus.READY"
    and "nr_status r' \<noteq> NodeRunStatus.SKIPPED"
  shows "r' \<in> set rows"
  using assms by (induction rows rows' rule: list_all2_induct) (auto simp: advanced_def)

subsection \<open>A tick\<close>

lemma start_run_status:
  "start_run lease now st = Inr st' \<Longrightarrow>
     cancel_requested_at (run st') = cancel_requested_at (run st) \<and>
     run_status (run st') = (if run_status (run st) = WorkflowRunStatus.PENDING then WorkflowRunStatus.RUNNING
       else run_status (run st))"
  by (auto simp: start_run_def and_then_Inr dest!: update_runD split: if_splits)

lemma reconcile_status:
  assumes "reconcile lease now st = Inr st'" and "rows_wf (node_runs st)"
    and "run_status (run st) = WorkflowRunStatus.RUNNING"
  shows "cancel_requested_at (run st') = cancel_requested_at (run st) \<and>
    (run_status (run st') = WorkflowRunStatus.RUNNING \<or> run_status (run st') \<in> set STOP_STATUSES)"
proof (cases rule: reconcile_cases [OF assms(1)])
  case (1 order st1)
  then show ?thesis using reconcile_loop_sim [OF 1(2) refl assms(2)] assms(3) by simp
next
  case (2 order st1 out)
  have "run st1 = run st" using reconcile_loop_sim [OF 2(2) refl assms(2)] by simp
  then show ?thesis using finish_runD [OF 2(4)] by (simp add: run_target_def STOP_STATUSES_def)
qed

lemma start_and_reconcile_quiet:
  assumes s: "start_and_reconcile H cd wid lease now st = Inr st'" and q: "quiet st"
  shows "quiet st'" and "todo st' \<le> todo st"
    and "run_status (run st') = WorkflowRunStatus.RUNNING \<or> run_status (run st') \<in> set STOP_STATUSES"
proof -
  have wf: "rows_wf (node_runs st)" and ao: "attempts_ordered (node_runs st)"
    using q by (auto simp: quiet_def well_rowed_def)
  have adv: "advance (node_runs st) (node_runs st')" by (rule start_and_reconcile_advance [OF s])
  have sim: "sim st st'" by (rule start_and_reconcile_sim [OF s wf])
  have w: "well_rowed st'" using sim_well_rowed [OF sim] q by (simp add: quiet_def)
  have snap: "compiled_snapshot (run st') = compiled_snapshot (run st)"
    using sim core_steps(1) unfolding sim_def by (fastforce simp: run_ident_def)
  have st: "cancel_requested_at (run st') = cancel_requested_at (run st) \<and>
      (run_status (run st') = WorkflowRunStatus.RUNNING \<or> run_status (run st') \<in> set STOP_STATUSES) \<and>
      (run_status (run st) \<in> set STOP_STATUSES \<longrightarrow> run_status (run st') = run_status (run st))"
    using s
  proof (cases rule: start_and_reconcile_cases)
    case (1 st1)
    have "rows_wf (node_runs st1)" using start_run_rows [OF 1(1)] wf by simp
    from reconcile_status [OF 1(3) this 1(2)] show ?thesis
      using start_run_status [OF 1(1)] 1(2) by (auto simp: STOP_STATUSES_def split: if_splits)
  next
    case 2
    have "run_status (run st') \<in> set STOP_STATUSES"
      using start_run_status [OF 2(1)] 2(2) by (cases "run_status (run st')") (auto simp: STOP_STATUSES_def split: if_splits)
    then show ?thesis using start_run_status [OF 2(1)] 2(2) by (auto split: if_splits)
  qed
  show "run_status (run st') = WorkflowRunStatus.RUNNING \<or> run_status (run st') \<in> set STOP_STATUSES"
    using st by blast
  have "nr_status r \<noteq> NodeRunStatus.RUNNING \<and>
      (nr_status r = NodeRunStatus.WAITING_APPROVAL \<longrightarrow> run_status (run st') \<in> set STOP_STATUSES)"
    if r: "r \<in> set (node_runs st')" for r
    using advance_member [OF adv r] q st by (auto simp: quiet_def)
  then show "quiet st'"
    using w snap st q advance_ready_latest [OF adv _ ao] by (auto simp: quiet_def)
  show "todo st' \<le> todo st" unfolding todo_def by (rule advance_todo [OF adv])
qed

lemma next_ready_None:
  "next_ready d order = Inr None \<Longrightarrow> i \<in> set order \<Longrightarrow> \<exists>r. d i = Some r \<and> nr_status r \<noteq> NodeRunStatus.READY"
  by (induction order) (auto simp: next_ready_def split: option.splits if_splits)

lemma claim_next_None:
  assumes "claim_next H cd wid lease now st = Inr (st', None)" and "ids_distinct st"
    and "run_status (run st) = WorkflowRunStatus.RUNNING" and "\<not> cancelling st"
  shows "\<exists>order. topological_order (compiled_snapshot (run st)) = Inr order \<and>
    next_ready (dict_by nr_node_id (node_runs st)) order = Inr None"
proof -
  obtain order sel where o: "topological_order (compiled_snapshot (run st)) = Inr order"
    and n: "next_ready (dict_by nr_node_id (node_runs st)) order = Inr sel"
    and c: "(case sel of None \<Rightarrow> Inr (st, None) | Some r \<Rightarrow> and_then
          (update_node (node_run_id r) [NodeRunStatus.READY]
            (\<lambda>q. q\<lparr>nr_status := NodeRunStatus.RUNNING, nr_started_at := Some now\<rparr>) st)
          (\<lambda>st'. Inr (append_node_state lease r NodeRunStatus.RUNNING None [] None st',
             find_node_run st' (node_run_id r)))) = Inr (st', None)"
    using assms(1,3,4) by (auto simp: claim_next_def and_then_Inr dest!: fencedD known_runD split: if_split_asm)
  show ?thesis
  proof (cases sel)
    case (Some r)
    then obtain st1 where u: "update_node (node_run_id r) [NodeRunStatus.READY]
        (\<lambda>q. q\<lparr>nr_status := NodeRunStatus.RUNNING, nr_started_at := Some now\<rparr>) st = Inr st1"
      "find_node_run st1 (node_run_id r) = None"
      using c by (auto simp: and_then_Inr Let_def)
    then show ?thesis using update_node_find [OF u(1) assms(2)] by auto
  qed (use o n in auto)
qed

lemma filter_count_update:
  assumes "\<And>r. P r \<Longrightarrow> Q r" and "\<And>r. P r \<Longrightarrow> \<not> Q (f r)"
  shows "length (filter Q (map (\<lambda>r. if P r then f r else r) rs)) + length (filter P rs) = length (filter Q rs)"
  using assms by (induction rs) auto

lemma filter_count_mono:
  "(\<And>r. Q (g r) \<Longrightarrow> Q r) \<Longrightarrow> length (filter Q (map g rs)) \<le> length (filter Q rs)"
  by (induction rs) (auto simp: le_SucI)

lemma claim_busy:
  assumes c: "claim_next H cd wid lease now st = Inr (st', claimed)" and q: "quiet st"
    and run: "run_status (run st) = WorkflowRunStatus.RUNNING" and l: "\<exists>r \<in> set (node_runs st). live r"
  shows "\<exists>r. claimed = Some r \<and> busy_with r st' \<and> todo st' < todo st"
proof -
  have w: "well_rowed st" "closed_graph (compiled_snapshot (run st))" and ids: "ids_distinct st"
    and wf: "rows_wf (node_runs st)" and nc: "\<not> cancelling st" and rl: "ready_latest (node_runs st)"
    and nr: "\<And>r. r \<in> set (node_runs st) \<Longrightarrow> nr_status r \<noteq> NodeRunStatus.RUNNING \<and>
      nr_status r \<noteq> NodeRunStatus.WAITING_APPROVAL"
    using q run by (auto simp: quiet_def well_rowed_def rows_wf_def STOP_STATUSES_def)
  obtain x where x: "x \<in> set (node_runs st)" "nr_status x = NodeRunStatus.READY" using l nr by auto
  have "claimed \<noteq> None"
  proof
    assume "claimed = None"
    then obtain order where o: "topological_order (compiled_snapshot (run st)) = Inr order"
      and n: "next_ready (dict_by nr_node_id (node_runs st)) order = Inr None"
      using claim_next_None c ids run nc by blast
    have "nr_node_id x \<in> set order"
      using topological_order_rank [OF o w(2)] w(1) x(1) by (metis imageI well_rowed_def)
    from next_ready_None [OF n this] show False using ready_latest_dict [OF rl x] x(2) by auto
  qed
  then obtain r where cl: "claimed = Some r" by blast
  show ?thesis
  proof (cases rule: claim_next_cases [OF c])
    case 1
    then show ?thesis using cl by simp
  next
    case (2 row st1)
    let ?P = "\<lambda>p. node_run_id p = node_run_id row \<and> nr_status p \<in> set [NodeRunStatus.READY]"
    let ?f = "\<lambda>q. q\<lparr>nr_status := NodeRunStatus.RUNNING, nr_started_at := Some now\<rparr>"
    have rows: "node_runs st' = map (\<lambda>p. if ?P p then ?f p else p) (node_runs st)" and rn: "run st' = run st"
      using 2(2) by (simp_all add: update_nodeD(1) [OF 2(1)])
    obtain p where p: "p \<in> set (node_runs st)" "?P p" "r = ?f p"
    proof -
      obtain p where p: "p \<in> set (node_runs st)" "?P p" "find_node_run st1 (node_run_id row) = Some (?f p)"
        using update_node_find [OF 2(1) ids] by auto
      have "find_node_run st' (node_run_id row) = Some r" using 2(3) cl by simp
      then have "r = ?f p" using p(3) unfolding 2(2) emit_find by simp
      then show thesis using that p(1,2) by blast
    qed
    have one: "length (filter ?P (node_runs st)) = 1"
      using 2(1) by (simp add: update_node_def split: if_splits)
    have "todo st' + 1 = todo st"
      unfolding todo_def rows one [symmetric] by (rule filter_count_update) auto
    moreover have "busy_with r st'"
    proof -
      have sim: "sim st st'" by (rule claim_next_sim [OF c wf])
      have "ready_latest (node_runs st')"
        using rl unfolding rows ready_latest_def sorted_wrt_map
        by (rule sorted_wrt_mono_rel [rotated]) (auto split: if_splits)
      moreover have "q = r" if "q \<in> set (node_runs st')" "nr_status q = NodeRunStatus.RUNNING" for q
      proof -
        obtain q0 where q0: "q0 \<in> set (node_runs st)" "q = (if ?P q0 then ?f q0 else q0)"
          using \<open>q \<in> set (node_runs st')\<close> unfolding rows by auto
        then have "?P q0" using nr that(2) by (auto split: if_splits)
        moreover have "q0 = p"
          using find_node_run_distinct [OF ids q0(1)] find_node_run_distinct [OF ids p(1)] calculation p(2) by simp
        ultimately show ?thesis using q0(2) p(3) by simp
      qed
      moreover have "r \<in> set (node_runs st')" using p unfolding rows by force
      moreover have "\<forall>q \<in> set (node_runs st'). nr_status q \<noteq> NodeRunStatus.WAITING_APPROVAL"
        using nr unfolding rows by auto
      moreover have "nr_status r = NodeRunStatus.RUNNING" by (simp add: p(3))
      moreover have "closed_graph (compiled_snapshot (run st'))" "\<not> cancelling st'"
        "run_status (run st') = WorkflowRunStatus.RUNNING"
        using w(2) nc run by (simp_all add: rn)
      ultimately show ?thesis using sim_well_rowed [OF sim w(1)] unfolding busy_with_def by blast
    qed
    ultimately show ?thesis using cl by simp
  qed
qed

lemma tick_progress:
  assumes t: "tick H cd exec wid lease clock st = (st', r)" and q: "quiet st" and e: "settling exec"
  shows "r \<noteq> Inl MaxTicksExceeded"
    and "r = Inr s \<Longrightarrow> s \<notin> set STOP_STATUSES \<Longrightarrow> quiet st' \<and> todo st' < todo st"
proof -
  have "r \<noteq> Inl MaxTicksExceeded \<and> (r = Inr s \<longrightarrow> s \<notin> set STOP_STATUSES \<longrightarrow> quiet st' \<and> todo st' < todo st)"
  proof (cases "start_and_reconcile H cd wid lease (clock 0) st")
    case (Inl x)
    then show ?thesis using t by (auto simp: tick_def)
  next
    case (Inr st1)
    note q1 = start_and_reconcile_quiet [OF Inr q]
    show ?thesis
    proof (cases "run_status (run st1) \<in> set STOP_STATUSES")
      case True
      then show ?thesis using t Inr by (auto simp: tick_def)
    next
      case False
      then have run: "run_status (run st1) = WorkflowRunStatus.RUNNING" using q1(3) by blast
      have l: "\<exists>r \<in> set (node_runs st1). live r"
        using start_and_reconcile_progress [OF Inr run] q by (simp add: quiet_def)
      show ?thesis
      proof (cases "claim_next H cd wid lease (clock 1) st1")
        case Inl': (Inl x)
        then show ?thesis using t Inr False by (auto simp: tick_def)
      next
        case Inr': (Inr c)
        then obtain st2 cl where c: "claim_next H cd wid lease (clock 1) st1 = Inr (st2, cl)" by (cases c) auto
        obtain p where p: "cl = Some p" "busy_with p st2" "todo st2 < todo st1"
          using claim_busy [OF c q1(1) run l] by blast
        obtain st3 x where x: "exec p st2 = (st3, x)" by fastforce
        show ?thesis
        proof (cases x)
          case Inl'': (Inl y)
          then have "y \<noteq> MaxTicksExceeded" using e x by (auto simp: settling_def)
          then show ?thesis using t Inr False c p x Inl'' by (auto simp: tick_def)
        next
          case Inr'': (Inr row)
          then have q3: "quiet st3" "todo st3 \<le> todo st2" using e x p(2) by (auto simp: settling_def)
          show ?thesis
          proof (cases "start_and_reconcile H cd wid lease (clock 2) st3")
            case (Inl y)
            then show ?thesis using t Inr False c p x Inr'' by (auto simp: tick_def)
          next
            case i: (Inr st4)
            have "todo st' < todo st \<and> quiet st'" if "st' = st4"
              using start_and_reconcile_quiet(1,2) [OF i q3(1)] q3(2) p(3) q1(2) that by auto
            then show ?thesis using t Inr False c p x Inr'' i by (auto simp: tick_def)
          qed
        qed
      qed
    qed
  qed
  then show "r \<noteq> Inl MaxTicksExceeded" "r = Inr s \<Longrightarrow> s \<notin> set STOP_STATUSES \<Longrightarrow> quiet st' \<and> todo st' < todo st"
    by blast+
qed

lemma ticks_stop:
  "quiet st \<Longrightarrow> (\<And>k. settling (exec k)) \<Longrightarrow> todo st < n \<Longrightarrow>
     snd (ticks H cd exec wid lease clock n st) \<noteq> Inl MaxTicksExceeded"
proof (induction n arbitrary: st)
  case (Suc n)
  obtain st' r where t: "tick H cd (exec n) wid lease (clock n) st = (st', r)" by fastforce
  note p = tick_progress [OF t Suc.prems(1,2)]
  show ?case
  proof (cases r)
    case (Inl e)
    then show ?thesis using t p(1) by auto
  next
    case (Inr s)
    then show ?thesis using t p(2) [OF Inr] Suc.IH [of st'] Suc.prems by auto
  qed
qed simp

lemma ticks_result:
  "ticks H cd exec wid lease clock n st = (st', Inr s) \<Longrightarrow> s \<in> set STOP_STATUSES \<and> run_status (run st') = s"
proof (induction n arbitrary: st)
  case (Suc n)
  obtain st1 r where t: "tick H cd (exec n) wid lease (clock n) st = (st1, r)" by fastforce
  have "run_status (run st1) = x" if "r = Inr x" for x
    using t that by (auto simp: tick_def split: sum.split_asm if_split_asm prod.split_asm option.split_asm)
  then show ?case using Suc t by (auto split: sum.split_asm if_split_asm)
qed simp

subsection \<open>The executor settles\<close>

lemma busy_same:
  assumes "run s' = run s" and "node_runs s' = node_runs s"
  shows "busy_with r s' \<longleftrightarrow> busy_with r s" and "todo s' = todo s"
  using assms by (auto simp: busy_with_def well_rowed_def todo_def)

lemma settle_row:
  assumes b: "busy_with r st" and u: "update_node (node_run_id r) [NodeRunStatus.RUNNING] f st = Inr st1"
    and f: "\<And>q. nr_node_id (f q) = nr_node_id q"
      "\<And>q. nr_status (f q) \<in> set NODE_TERMINAL \<or> nr_status (f q) = NodeRunStatus.WAITING_APPROVAL"
  shows "ready_latest (node_runs st1)" and "\<forall>q \<in> set (node_runs st1). nr_status q \<noteq> NodeRunStatus.RUNNING"
    and "todo st1 \<le> todo st" and "run st1 = run st"
    and "q \<in> set (node_runs st1) \<Longrightarrow> nr_status q = NodeRunStatus.WAITING_APPROVAL \<Longrightarrow> \<exists>p. q = f p"
proof -
  let ?P = "\<lambda>q. node_run_id q = node_run_id r \<and> nr_status q \<in> set [NodeRunStatus.RUNNING]"
  have rows: "node_runs st1 = map (\<lambda>q. if ?P q then f q else q) (node_runs st)" and "run st1 = run st"
    by (simp_all add: update_nodeD(1) [OF u])
  then show "run st1 = run st" by blast
  have s: "nr_status (f q) \<notin> {NodeRunStatus.READY, NodeRunStatus.RUNNING, NodeRunStatus.PENDING}" for q
    using f(2) [of q] by (auto simp: NODE_TERMINAL_def)
  show "ready_latest (node_runs st1)"
    using b s unfolding rows ready_latest_def sorted_wrt_map busy_with_def
    by (auto elim!: sorted_wrt_mono_rel [rotated] simp: f(1))
  show "\<forall>q \<in> set (node_runs st1). nr_status q \<noteq> NodeRunStatus.RUNNING"
    using b s unfolding rows busy_with_def by auto
  show "todo st1 \<le> todo st"
    unfolding todo_def rows by (rule filter_count_mono) (use s in \<open>auto split: if_splits\<close>)
  show "\<exists>p. q = f p" if "q \<in> set (node_runs st1)" "nr_status q = NodeRunStatus.WAITING_APPROVAL"
    using b that unfolding rows busy_with_def by (auto split: if_splits)
qed

lemma settle_quiet:
  assumes b: "busy_with r st" and u: "update_node (node_run_id r) [NodeRunStatus.RUNNING] f st = Inr st1"
    and f: "\<And>q. nr_node_id (f q) = nr_node_id q" "\<And>q. nr_status (f q) \<in> set NODE_TERMINAL"
    and w: "well_rowed st1"
  shows "quiet st1 \<and> todo st1 \<le> todo st"
proof -
  note s = settle_row [OF b u f(1) disjI1 [OF f(2)]]
  have "nr_status q \<noteq> NodeRunStatus.WAITING_APPROVAL" if "q \<in> set (node_runs st1)" for q
  proof
    assume n: "nr_status q = NodeRunStatus.WAITING_APPROVAL"
    from s(5) [OF that n] obtain p where "q = f p" by blast
    then show False using n f(2) [of p] by (simp add: NODE_TERMINAL_def)
  qed
  then show ?thesis using s(1-4) b w unfolding quiet_def busy_with_def by auto
qed

lemma quiet_append [simp]:
  "quiet (append_node_state l r s oc x y st) = quiet st" "todo (append_node_state l r s oc x y st) = todo st"
  by (auto simp: quiet_def todo_def well_rowed_def)

lemma complete_node_quiet:
  assumes b: "busy_with r st" and c: "complete_node H (node_run_id r) target oc summary lease output error now st = Inr st'"
  shows "quiet st' \<and> todo st' \<le> todo st"
proof -
  obtain st1 p where u: "update_node (node_run_id r) [NodeRunStatus.RUNNING]
      (\<lambda>q. q\<lparr>nr_status := target, nr_outcome := Some oc, output_artifact_id := output,
         nr_error_code := error, nr_finished_at := Some now\<rparr>) st = Inr st1"
    and st': "st' = append_node_state lease p target (Some oc) summary error st1"
    and t: "target \<in> {NodeRunStatus.COMPLETED, NodeRunStatus.FAILED, NodeRunStatus.BLOCKED_BY_GUARD}"
    by (rule complete_node_update [OF c])
  have tt: "target \<in> set NODE_TERMINAL" using t by (auto simp: NODE_TERMINAL_def)
  have wf: "rows_wf (node_runs st)" using b by (simp add: busy_with_def well_rowed_def)
  have "well_rowed st'" using sim_well_rowed [OF complete_node_sim [OF c wf]] b by (simp add: busy_with_def)
  then have "well_rowed st1" by (simp add: st' well_rowed_def)
  then show ?thesis using settle_quiet [OF b u _ _] tt by (simp add: st')
qed

lemma reconcile_quiet:
  assumes r: "reconcile lease now st = Inr st'" and q: "quiet st" and run: "run_status (run st) = WorkflowRunStatus.RUNNING"
  shows "quiet st' \<and> todo st' \<le> todo st"
proof -
  have wf: "rows_wf (node_runs st)" and ao: "attempts_ordered (node_runs st)"
    using q by (auto simp: quiet_def well_rowed_def)
  note adv = reconcile_advance [OF r] and sim = reconcile_sim [OF r wf]
  have w: "well_rowed st'" using sim_well_rowed [OF sim] q by (simp add: quiet_def)
  have snap: "compiled_snapshot (run st') = compiled_snapshot (run st)"
    using sim core_steps(1) unfolding sim_def by (fastforce simp: run_ident_def)
  have m: "nr_status x \<noteq> NodeRunStatus.RUNNING \<and> nr_status x \<noteq> NodeRunStatus.WAITING_APPROVAL"
    if "x \<in> set (node_runs st')" for x
    using advance_member [OF adv that] q run by (auto simp: quiet_def STOP_STATUSES_def)
  then have "quiet st'"
    using w snap reconcile_status [OF r wf run] q advance_ready_latest [OF adv _ ao] by (auto simp: quiet_def)
  then show ?thesis using advance_todo [OF adv] by (simp add: todo_def)
qed

lemma enter_waiting_quiet:
  assumes b: "busy_with r st" and e: "enter_waiting_approval (node_run_id r) a lease now st = Inr st'"
    and a: "approval_status st a \<noteq> Some ''approved''"
  shows "quiet st' \<and> todo st' \<le> todo st"
proof -
  have wf: "rows_wf (node_runs st)" and w: "well_rowed st" and run: "run_status (run st) = WorkflowRunStatus.RUNNING"
    using b by (auto simp: busy_with_def well_rowed_def)
  show ?thesis
  proof (cases rule: enter_waiting_cases [OF e])
    case (2 p st1)
    let ?st2 = "append_node_state lease p NodeRunStatus.COMPLETED (Some NodeOutcome.REJECTED)
       ''Approval rejected.'' (Some ''approval_rejected'') st1"
    have sim: "sim st st1" using wf by (intro update_node_move [OF 2(2)]) (auto simp: NODE_TERMINAL_def)
    have "quiet ?st2" "todo ?st2 \<le> todo st"
      using settle_quiet [OF b 2(2) _ _ sim_well_rowed [OF sim w]] by (simp_all add: NODE_TERMINAL_def)
    moreover have "run ?st2 = run st" by (simp add: update_nodeD(1) [OF 2(2)])
    ultimately show ?thesis using reconcile_quiet [OF 2(3)] run by auto
  next
    case (3 p x y)
    let ?f = "\<lambda>q. q\<lparr>nr_status := NodeRunStatus.WAITING_APPROVAL, nr_error_code := Some x, nr_finished_at := None\<rparr>"
    obtain st1 where u: "update_node (node_run_id r) [NodeRunStatus.RUNNING] ?f st = Inr st1"
      and rows: "node_runs st' = node_runs st1"
      and rn: "run st' = (run st1)\<lparr>run_status := WorkflowRunStatus.WAITING_APPROVAL\<rparr>"
      using 3(2) by (auto simp: wait_for_approval_def and_then_Inr dest!: update_runD)
    note s = settle_row [OF b u, simplified]
    show ?thesis
      using sim_well_rowed [OF wait_for_approval_sim [OF 3(2) wf] w] s b
      by (auto simp: quiet_def busy_with_def todo_def rows rn STOP_STATUSES_def)
  qed (use a in simp)
qed

lemma complete_claimed_quiet:
  assumes b: "busy_with r st" and c: "complete_claimed H st r res output lease clock = (st', Inr q)"
    and t: "hr_status res \<in> set NODE_TERMINAL"
  shows "quiet st' \<and> todo st' \<le> todo st"
proof -
  have "find_node_run st (node_run_id r) = Some r" "nr_status r = NodeRunStatus.RUNNING"
    using b find_node_run_distinct by (auto simp: busy_with_def well_rowed_def rows_wf_def)
  then have "already_completed st r res output lease (clock 1) \<noteq> (st', Inr q)"
    using t by (auto simp: already_completed_def NODE_TERMINAL_def)
  then have "complete_node H (node_run_id r) (hr_status res) (hr_outcome res) (hr_summary res) lease output
      (hr_error_code res) (clock 0) st = Inr st'"
    using c commit_Inr by (auto simp: complete_claimed_def Let_def split: if_split_asm)
  then show ?thesis by (rule complete_node_quiet [OF b])
qed

lemma finish_execution_quiet:
  assumes f: "(case stored_result H art st0 st1 r n (checked_artifacts H art st0 st1 r n res) of
       (st2, res', output) \<Rightarrow> complete_claimed H st2 r res' output lease clock) = (st', Inr q)"
    and t: "hr_status res \<in> set NODE_TERMINAL" and b: "busy_with r st1" and ok: "handlers_compute handlers art"
  shows "quiet st' \<and> todo st' \<le> todo st1"
proof -
  obtain r1 o1 where 1: "checked_artifacts H art st0 st1 r n res = (r1, o1)" by fastforce
  obtain st2 r2 o2 where 2: "stored_result H art st0 st1 r n (r1, o1) = (st2, r2, o2)"
    by (metis prod_cases3)
  have "hr_status r2 \<in> set NODE_TERMINAL"
    using checked_artifacts_status [OF 1] stored_result_status [OF 2] t by (auto simp: NODE_TERMINAL_def)
  moreover have same: "run st2 = run st1" "node_runs st2 = node_runs st1"
    using stored_result_status [OF 2] ok unfolding handlers_compute_def by metis+
  moreover have "complete_claimed H st2 r r2 o2 lease clock = (st', Inr q)" using f by (simp add: 1 2)
  ultimately show ?thesis
    using complete_claimed_quiet [of r st2] busy_same(1) [OF same, THEN iffD2, OF b] busy_same(2) [OF same] by metis
qed

lemma commit_no_max: "commit st tx i \<noteq> (st', Inl MaxTicksExceeded)"
  by (simp add: commit_def split: sum.split option.split)

lemma complete_claimed_no_max:
  "complete_claimed H st r res output lease clock \<noteq> (st', Inl MaxTicksExceeded)"
  using commit_no_max by (simp add: complete_claimed_def already_completed_def Let_def split: option.split)

lemma execute_claimed_no_max:
  "execute_claimed H cd handlers art lease clock r st \<noteq> (st', Inl MaxTicksExceeded)"
proof
  assume e: "execute_claimed H cd handlers art lease clock r st = (st', Inl MaxTicksExceeded)"
  then obtain n ctx h where "find (\<lambda>n. node_id n = nr_node_id r) (compiled_nodes (compiled_snapshot (run st))) = Some n"
      "context_of st r n = Inr ctx" "handlers (node_type n) = Some h"
    using commit_no_max by (auto simp: execute_claimed_def split: if_split_asm sum.split_asm option.split_asm)
  note e = e [unfolded execute_claimed_def this option.case sum.case]
  obtain st1 x where x: "h ctx st = (st1, x)" by fastforce
  obtain st2 r2 o2 where s: "stored_result H art st st1 r n (checked_artifacts H art st st1 r n
      (case x of Returned q \<Rightarrow> q | _ \<Rightarrow> failure_result
         ''NodeHandler raised an internal error; details were not persisted.'' ''handler_exception'')) = (st2, r2, o2)"
    by (metis prod_cases3)
  show False
    using e [unfolded x prod.case] commit_no_max complete_claimed_no_max s
    by (cases x) (auto simp: split: if_split_asm option.split_asm)
qed

lemma execute_claimed_settling:
  assumes ok: "handlers_compute handlers art"
  shows "settling (execute_claimed H cd handlers art lease clock)"
proof -
  have "quiet st' \<and> todo st' \<le> todo st"
    if b: "busy_with r st" and e: "execute_claimed H cd handlers art lease clock r st = (st', Inr q)" for r st st' q
  proof (cases "find (\<lambda>n. node_id n = nr_node_id r) (compiled_nodes (compiled_snapshot (run st)))")
    case None
    let ?tx = "complete_node H (node_run_id r) NodeRunStatus.FAILED NodeOutcome.FAILURE
      ''Claimed node is missing from immutable snapshot.'' lease None (Some ''snapshot_node_missing'') (clock 0) st"
    have "commit st ?tx (node_run_id r) = (st', Inr q)"
      using e None by (simp add: execute_claimed_def split: if_split_asm)
    then show ?thesis using commit_Inr complete_node_quiet [OF b] by blast
  next
    case (Some n)
    then obtain ctx h where ctx: "context_of st r n = Inr ctx" and h: "handlers (node_type n) = Some h"
      using e by (auto simp: execute_claimed_def split: if_split_asm sum.split_asm option.split_asm)
    obtain st1 x where x: "h ctx st = (st1, x)" by fastforce
    have same: "run st1 = run st" "node_runs st1 = node_runs st"
      and shape: "\<And>r. x = Returned r \<Longrightarrow> validate_terminal_shape r"
      and p: "\<And>i. x \<noteq> WaitsForPrivilege i"
      and a: "\<And>a. x = WaitsForApproval a \<Longrightarrow> approval_status st1 a \<noteq> Some ''approved''"
      using ok h x unfolding handlers_compute_def by blast+
    have b1: "busy_with r st1" and t1: "todo st1 = todo st" using busy_same [OF same] b by auto
    note e = e [unfolded execute_claimed_def Some option.case ctx sum.case h x prod.case]
    show ?thesis
    proof (cases x)
      case (Returned res)
      have "hr_status res \<in> set NODE_TERMINAL" by (rule shape_terminal [OF shape [OF Returned]])
      note fin = finish_execution_quiet [OF _ this b1 ok]
      show ?thesis unfolding t1 [symmetric]
        using e by (intro fin) (auto simp: Returned split: if_split_asm)
    next
      case (WaitsForPrivilege i)
      then show ?thesis using p by blast
    next
      case (WaitsForApproval w)
      have "enter_waiting_approval (node_run_id r) w lease (clock 0) st1 = Inr st'"
        using e WaitsForApproval commit_Inr by (auto split: if_split_asm)
      from enter_waiting_quiet [OF b1 this a [OF WaitsForApproval]] show ?thesis by (simp add: t1)
    next
      case RaisesOther
      let ?r = "failure_result ''NodeHandler raised an internal error; details were not persisted.'' ''handler_exception''"
      have "hr_status ?r \<in> set NODE_TERMINAL" by (simp add: failure_result_def NODE_TERMINAL_def)
      note fin = finish_execution_quiet [OF _ this b1 ok]
      show ?thesis unfolding t1 [symmetric]
        using e by (intro fin) (auto simp: RaisesOther split: if_split_asm)
    qed (use e in \<open>auto split: if_split_asm\<close>)
  qed
  moreover have "execute_claimed H cd handlers art lease clock r st \<noteq> (st', Inl MaxTicksExceeded)" for r st st'
    by (rule execute_claimed_no_max)
  ultimately show ?thesis unfolding settling_def by blast
qed

lemma fresh_quiet:
  assumes "fresh_run st" and "closed_graph (compiled_snapshot (run st))"
  shows "quiet st" and "todo st = length (compiled_nodes (compiled_snapshot (run st)))"
proof -
  have p: "\<forall>r \<in> set (node_runs st). nr_status r = NodeRunStatus.PENDING"
    using assms(1) by (auto simp: fresh_run_def list_all_iff)
  have "ready_latest (node_runs st)"
    unfolding ready_latest_def using p by (induction "node_runs st" arbitrary: st) (auto simp: sorted_wrt_iff_nth_less)
  then show "quiet st"
    using fresh_well_rowed [OF assms(1)] assms p by (auto simp: quiet_def fresh_run_def)
  have "length (map nr_node_id (node_runs st)) =
      length (map node_id (sort_key node_id (compiled_nodes (compiled_snapshot (run st)))))"
    using assms(1) unfolding fresh_run_def by metis
  moreover have "filter unfinished (node_runs st) = node_runs st" using p by (simp add: filter_id_conv)
  ultimately show "todo st = length (compiled_nodes (compiled_snapshot (run st)))" by (simp add: todo_def)
qed

subsection \<open>Properties\<close>

abbreviation executing ::
  "(string \<Rightarrow> string) \<Rightarrow> (AgentSpec list \<Rightarrow> string) \<Rightarrow> (NodeType \<Rightarrow> handler option) \<Rightarrow> ArtifactStore \<Rightarrow>
     MasterLease \<Rightarrow> (nat \<Rightarrow> nat \<Rightarrow> time) \<Rightarrow> nat \<Rightarrow> executor" where
  "executing H cd handlers art lease eclock k \<equiv> execute_claimed H cd handlers art lease (eclock k)"

text \<open>
  C18: the scheduler stops. From a quiet run (no node is being executed, cancellation is not
  pending), with handlers that compute their result or wait for an approval not yet granted,
  \<open>run_until_stable\<close> with more ticks than there are pending and ready nodes never raises the
  error of exhausted ticks: it returns with the run in a stop status, or one of its transactions
  or the executor raised.
\<close>

theorem run_until_stable_stops:
  assumes "quiet st" and "handlers_compute handlers art" and "todo st < max_ticks"
  shows "\<exists>st' r. run_until_stable H cd (executing H cd handlers art lease eclock) wid lease clock max_ticks st = (st', r) \<and>
    (case r of Inr s \<Rightarrow> s \<in> set STOP_STATUSES \<and> run_status (run st') = s | Inl e \<Rightarrow> e \<noteq> MaxTicksExceeded)"
proof -
  let ?exec = "executing H cd handlers art lease eclock"
  obtain st' r where t: "ticks H cd ?exec wid lease clock max_ticks st = (st', r)" by fastforce
  have "r \<noteq> Inl MaxTicksExceeded"
    using ticks_stop [where exec = ?exec, OF assms(1) execute_claimed_settling [OF assms(2)] assms(3)] t by (metis snd_conv)
  then show ?thesis
    using t assms(3) ticks_result [of H cd ?exec wid lease clock max_ticks st st']
    by (cases r) (auto simp: run_until_stable_def)
qed

lemma sample_closed: "closed_graph (compiled_snapshot (run sample_store))"
  by code_simp

lemma run_until_stable_stops_witness:
  "\<exists>st' r. run_until_stable sample_hash sample_catalog_digest (executing sample_hash sample_catalog_digest
      sample_handlers sample_artifacts (sample_master ''alice'' 0 1) (\<lambda>_ _. 6)) ''r'' (sample_master ''alice'' 0 1)
      (\<lambda>_ _. 6) 4 sample_store = (st', r) \<and> r \<noteq> Inl MaxTicksExceeded"
proof -
  have "todo sample_store < 4" by code_simp
  from run_until_stable_stops [OF fresh_quiet(1) [OF sample_fresh(1) sample_closed] sample_handlers_compute this,
      of sample_hash sample_catalog_digest "sample_master ''alice'' 0 1" "\<lambda>_ _. 6" "''r''" "\<lambda>_ _. 6"]
  obtain st' r where "run_until_stable sample_hash sample_catalog_digest (executing sample_hash sample_catalog_digest
      sample_handlers sample_artifacts (sample_master ''alice'' 0 1) (\<lambda>_ _. 6)) ''r'' (sample_master ''alice'' 0 1)
      (\<lambda>_ _. 6) 4 sample_store = (st', r)"
    and "case r of Inr s \<Rightarrow> s \<in> set STOP_STATUSES \<and> run_status (run st') = s | Inl e \<Rightarrow> e \<noteq> MaxTicksExceeded"
    by blast
  then show ?thesis by (cases r) auto
qed

text \<open>
  C40: the default of 1000 ticks is enough for a created run that is executed by computing handlers
  alone. The compiler emits at most 300 nodes; so for a store that \<open>create\<close> returns, whose edges
  connect its nodes (\<open>closed_graph\<close>), \<open>run_until_stable\<close> does not exhaust the default, provided that
  nobody else changes the store meanwhile and that the handlers leave the run and its rows to the
  executor, never wait for a privilege and wait only for approvals that are not granted yet
  (\<open>handlers_compute\<close>). The merge handler, which finalizes its node itself, is outside this bound.
\<close>

theorem default_ticks_suffice:
  assumes "create H cd scope_of version hub v lease0 wl t0 = Inr st"
    and "closed_graph (compiled_snapshot (run st))" and "handlers_compute handlers art"
  shows "snd (run_until_stable H cd (executing H cd handlers art lease eclock) wid lease clock default_max_ticks st)
    \<noteq> Inl MaxTicksExceeded"
proof -
  obtain row :: WorkflowJoin and result :: CompilationResult where "compile H \<lparr>cfg_catalog = catalog_in cd hub, cfg_policy_version = version,
        cfg_path_policy = Some (scope_of (row_shared_repo_path row)), cfg_command_guard = True\<rparr>
        (author_snapshot (run st)) (row_integration_head row) = Inr result"
    and "result_graph result = Some (compiled_snapshot (run st))"
    using create_facts(1) [OF assms(1)] by blast
  then have "length (compiled_nodes (compiled_snapshot (run st))) \<le> 300" by (rule compile_graph_fields(4))
  then have "todo st < default_max_ticks"
    using fresh_quiet(2) [OF create_facts(5) [OF assms(1)] assms(2)] by (simp add: default_max_ticks_def)
  then show ?thesis
    using ticks_stop [OF fresh_quiet(1) [OF create_facts(5) [OF assms(1)] assms(2)] execute_claimed_settling [OF assms(3)]]
    by (simp add: run_until_stable_def default_max_ticks_def)
qed

lemma default_ticks_suffice_witness:
  "\<exists>st. create sample_hash sample_catalog_digest sample_scope ''p'' sample_hub sample_new_run
      (sample_master ''alice'' 0 1) sample_integration 5 = Inr st \<and>
    snd (run_until_stable sample_hash sample_catalog_digest (executing sample_hash sample_catalog_digest
      sample_handlers sample_artifacts (sample_master ''alice'' 0 1) (\<lambda>_ _. 6)) ''r'' (sample_master ''alice'' 0 1)
      (\<lambda>_ _. 6) default_max_ticks st) \<noteq> Inl MaxTicksExceeded"
proof -
  obtain st where st: "create sample_hash sample_catalog_digest sample_scope ''p'' sample_hub sample_new_run
      (sample_master ''alice'' 0 1) sample_integration 5 = Inr st"
    using sample_created by blast
  have "compiled_snapshot (run st) = sample_graph" using create_facts [OF st] by (simp add: sample_new_run_def)
  then have "closed_graph (compiled_snapshot (run st))" using sample_closed by (simp add: sample_store_def)
  from default_ticks_suffice [OF st this sample_handlers_compute] show ?thesis by (intro exI conjI) (rule st)
qed

end
