(* ===== verification/Executable_Validation.thy ===== *)
theory Executable_Validation
  imports Compiler
begin

text \<open>
  \<open>workflow/executable_validator.py\<close> with the registry of \<open>workflow/registry.py\<close>: what a
  compiled snapshot must satisfy before a run may start. It trusts nothing the compiler wrote:
  types, ownership, permissions, joins, branches and every sealed chain are derived again.
\<close>

subsection \<open>The registry\<close>

type_synonym registry = "NodeType \<Rightarrow> NodeType option"
  \<comment> \<open>for every registered type, the \<open>expected_type\<close> of its config model\<close>

definition register :: "registry \<Rightarrow> NodeType \<Rightarrow> NodeType \<Rightarrow> bool \<Rightarrow> py_error + registry" where
  \<comment> \<open>\<open>async_execute\<close>: the handler provides a coroutine \<open>execute\<close>\<close>
  "register reg t expected async_execute =
     (if reg t \<noteq> None then Inl ValueError
      else if expected \<noteq> t then Inl ValueError
      else if \<not> async_execute then Inl TypeError
      else Inr (reg(t \<mapsto> expected)))"

definition is_registered :: "registry \<Rightarrow> NodeType \<Rightarrow> bool" where
  "is_registered reg t \<longleftrightarrow> reg t \<noteq> None"

definition validate_config :: "registry \<Rightarrow> WorkflowNode \<Rightarrow> py_error + NodeType" where
  "validate_config reg n =
     (case reg (node_type n) of
        None \<Rightarrow> Inl KeyError
      | Some expected \<Rightarrow> (if node_type n \<noteq> expected then Inl ValidationError else Inr expected))"

record ExecutableConfig =
  registered_handlers :: registry
  write_runtime_enabled :: bool
  exception_text :: "WorkflowNode \<Rightarrow> string" \<comment> \<open>\<open>str\<close> of pydantic's exception\<close>

subsection \<open>One node\<close>

definition MAX_COMPILED_NODES :: nat where
  "MAX_COMPILED_NODES = 300"

definition MAX_COMPILED_EDGES :: nat where
  "MAX_COMPILED_EDGES = 600"

definition SYSTEM_TYPES :: "NodeType list" where
  "SYSTEM_TYPES = [PATCH_GUARD, COMMAND_GUARD, TEST, RISK_CLASSIFIER, APPROVAL, MERGE_PATCH]"

abbreviation system_type :: "WorkflowNode \<Rightarrow> bool" where
  "system_type n \<equiv> node_type n \<in> set SYSTEM_TYPES"

definition pure_docs_scope :: "WorkflowNode \<Rightarrow> bool" where
  "pure_docs_scope n \<longleftrightarrow> effective_paths n \<noteq> [] \<and> list_all is_doc_path (effective_paths n)"

definition compiled_permissions_missing :: "WorkflowNode \<Rightarrow> bool" where
  "compiled_permissions_missing n \<longleftrightarrow>
     effective_allowed_files n = None \<or> effective_new_files n = None \<or>
     effective_allowed_commands n = None \<or> policy_risk_floor n = None \<or>
     requires_changeset_approval n = None"

definition scope_widened :: "WorkflowNode \<Rightarrow> bool" where
  "scope_widened n \<longleftrightarrow>
     \<not> set (opt_list (effective_allowed_files n)) \<subseteq> set (allowed_files_candidate n) \<or>
     \<not> set (opt_list (effective_new_files n)) \<subseteq> set (new_files_candidate n)"

definition exec_agent_issues :: "WorkflowNode \<Rightarrow> ValidationIssue list" where
  "exec_agent_issues n =
     report_if (task_kind n = None)
       (node_issue ''compiled_task_kind_missing'' ''agent_task needs task_kind'' n) @
     report_if (resolved_agent_id n = None \<or> resolved_agent_spec_sha256 n = None)
       (node_issue ''compiled_agent_unresolved''
          ''agent_task must carry frozen agent identity and spec hash'' n) @
     report_if (compiled_permissions_missing n)
       (node_issue ''compiled_permissions_missing''
          ''agent_task is missing compiler-owned effective permissions'' n) @
     report_if (policy_risk_floor n \<noteq> Some (policy_floor n (effective_paths n)))
       (node_issue ''compiled_risk_floor_mismatch''
          ''policy risk floor does not match the compiler policy minimum'' n) @
     report_if (requires_write n \<and> effective_paths n = [])
       (node_issue ''compiled_write_scope_empty'' ''write scope is empty'' n) @
     report_if (scope_widened n)
       (node_issue ''compiled_scope_widened''
          ''effective file scope must be a subset of author candidates'' n) @
     report_if (100 < length (remdups (effective_paths n)))
       (node_issue ''compiled_file_scope_limit''
          ''effective file scope cannot exceed 100 exact paths'' n) @
     report_if (\<not> set (opt_list (effective_allowed_commands n)) \<subseteq> set (allowed_commands_candidate n))
       (node_issue ''compiled_commands_widened''
          ''effective commands must be a subset of author candidates'' n) @
     report_if (requires_write n \<and> requires_changeset_approval n \<noteq> Some True)
       (node_issue ''compiled_approval_missing''
          ''write agent_task must require final ChangeSet approval'' n) @
     report_if (system_managed n \<or> source_node_id n \<noteq> None \<or> system_rule_id n \<noteq> None)
       (node_issue ''agent_task_marked_system''
          ''agent_task cannot carry compiler system-node ownership'' n) @
     report_if (test_kind n \<noteq> None \<or> test_argv n \<noteq> None)
       (node_issue ''agent_task_test_config'' ''test configuration is only valid on test nodes'' n) @
     report_if (\<not> requires_write n \<and>
         (opt_list (effective_new_files n) \<noteq> [] \<or> opt_list (effective_allowed_commands n) \<noteq> [] \<or>
          requires_changeset_approval n = Some True))
       (node_issue ''readonly_effective_scope''
          ''read-only agent_task cannot carry write, command, or approval capabilities'' n)"

definition test_node_issues ::
  "WorkflowNode \<Rightarrow> (string \<Rightarrow> WorkflowNode option) \<Rightarrow> ValidationIssue list" where
  "test_node_issues n node_of =
     (case test_kind n of
        None \<Rightarrow> [node_issue ''test_kind_missing'' ''test node requires test_kind'' n]
      | Some COMMAND \<Rightarrow>
          report_if (opt_list (test_argv n) = [])
            (node_issue ''test_command_missing'' ''command test requires a non-empty argv'' n)
      | Some DOCS_STATIC \<Rightarrow>
          report_if (test_argv n \<noteq> None)
            (node_issue ''docs_static_has_argv'' ''docs_static test cannot execute argv'' n) @
          (case node_of (case source_node_id n of None \<Rightarrow> [] | Some i \<Rightarrow> i) of
             None \<Rightarrow> [node_issue ''docs_static_source''
                        ''docs_static requires a docs source task'' n]
           | Some source \<Rightarrow>
               (if task_kind source \<noteq> Some TaskKind.DOCS
                then [node_issue ''docs_static_source''
                        ''docs_static requires a docs source task'' n]
                else report_if (\<not> pure_docs_scope source)
                  (node_issue ''docs_static_scope''
                    ''docs_static requires a pure documentation scope'' n))))"

definition system_node_leaks :: "WorkflowNode \<Rightarrow> bool" where
  "system_node_leaks n \<longleftrightarrow>
     task_kind n \<noteq> None \<or> assigned_agent n \<noteq> None \<or> resolved_agent_id n \<noteq> None \<or>
     resolved_agent_spec_sha256 n \<noteq> None \<or> recommended_agents n \<noteq> [] \<or>
     allowed_files_candidate n \<noteq> [] \<or> new_files_candidate n \<noteq> [] \<or>
     allowed_commands_candidate n \<noteq> [] \<or> effective_allowed_files n \<noteq> None \<or>
     effective_new_files n \<noteq> None \<or> effective_allowed_commands n \<noteq> None \<or>
     requires_changeset_approval n \<noteq> None \<or> requires_write n \<or> if_condition n \<noteq> None"

definition ownership_issues ::
  "WorkflowNode \<Rightarrow> (string \<Rightarrow> WorkflowNode option) \<Rightarrow> ValidationIssue list" where
  "ownership_issues n node_of =
     (if \<not> system_managed n \<or> source_node_id n = None \<or> system_rule_id n = None
      then [node_issue ''system_node_unsealed'' ''system node lacks compiler ownership metadata'' n]
      else case node_of (the (source_node_id n)) of
        None \<Rightarrow> [node_issue ''system_source_invalid''
                   ''system node source must be a write agent_task'' n]
      | Some source \<Rightarrow>
          (if \<not> is_write_task source
           then [node_issue ''system_source_invalid''
                   ''system node source must be a write agent_task'' n]
           else report_if (policy_risk_floor n \<noteq> policy_risk_floor source)
             (node_issue ''system_risk_mismatch''
               ''system node risk floor must match its source task'' n)))"

definition exec_system_issues ::
  "WorkflowNode \<Rightarrow> (string \<Rightarrow> WorkflowNode option) \<Rightarrow> ValidationIssue list" where
  "exec_system_issues n node_of =
     ownership_issues n node_of @
     (if node_type n = TEST then test_node_issues n node_of
      else report_if (test_kind n \<noteq> None \<or> test_argv n \<noteq> None)
        (node_issue ''test_config_on_non_test''
          ''test_kind/test_argv are only valid on test nodes'' n)) @
     report_if (system_node_leaks n)
       (node_issue ''system_node_field_leak''
          ''system node carries task, assignment, or permission fields'' n)"

definition exec_node_issues ::
  "WorkflowNode \<Rightarrow> (string \<Rightarrow> WorkflowNode option) \<Rightarrow> ValidationIssue list" where
  \<comment> \<open>\<open>_validate_node\<close>\<close>
  "exec_node_issues n node_of =
     (if node_type n = AGENT_TASK then exec_agent_issues n
      else if system_type n then exec_system_issues n node_of
      else if system_managed n
      then [node_issue ''author_node_marked_system''
              ''author node types cannot be compiler-managed'' n]
      else report_if (list_ex snd (compiler_only_fields n))
        (node_issue ''compiler_field_on_author_node''
          ''non-agent author node carries compiler-owned fields'' n))"

definition handler_issues :: "ExecutableConfig \<Rightarrow> WorkflowNode \<Rightarrow> ValidationIssue list" where
  "handler_issues cfg n =
     (if \<not> is_registered (registered_handlers cfg) (node_type n)
      then [node_issue ''handler_unregistered''
              (''no NodeHandler registered for '' @ NodeType_value (node_type n)) n]
      else case validate_config (registered_handlers cfg) n of
        Inl _ \<Rightarrow> [node_issue ''node_config_invalid'' (exception_text cfg n) n]
      | Inr _ \<Rightarrow> [])"

subsection \<open>Edges, boundaries, joins and branches\<close>

definition emitted_conditions :: "NodeType \<Rightarrow> EdgeCondition list" where
  "emitted_conditions t =
     (if t = IF then [MATCHED, NOT_MATCHED, FAILURE]
      else if t = APPROVAL then [APPROVED, REJECTED]
      else [SUCCESS, FAILURE])"

definition exec_condition_issues :: "WorkflowEdge \<Rightarrow> WorkflowNode \<Rightarrow> ValidationIssue list" where
  "exec_condition_issues e source =
     (if condition e \<in> set (emitted_conditions (node_type source)) then []
      else [issue ''invalid_compiled_condition''
              (NodeType_value (node_type source) @ '' cannot emit '' @
               EdgeCondition_value (condition e))
              (Some (node_id source)) (Some (edge_id e))])"

definition exec_edge_issues ::
  "(string \<Rightarrow> WorkflowNode option) \<Rightarrow> WorkflowEdge \<Rightarrow> ValidationIssue list" where
  "exec_edge_issues node_of e =
     (case (node_of (from_node e), node_of (to_node e)) of
        (Some source, Some target) \<Rightarrow>
          (let touches_system = (system_type source \<or> system_type target) in
           exec_condition_issues e source @
           report_if (touches_system \<and> \<not> edge_system_managed e)
             (edge_issue ''unsealed_system_edge''
               ''edges entering or leaving security nodes must be compiler-managed'' e) @
           report_if (edge_system_managed e \<and> \<not> touches_system)
             (edge_issue ''unexpected_system_edge''
               ''compiler-managed edge does not touch a system node'' e) @
           report_if (system_type source \<and> system_type target \<and>
               source_node_id source \<noteq> source_node_id target)
             (edge_issue ''cross_task_security_edge''
               ''security chain edges cannot cross source tasks'' e))
      | _ \<Rightarrow> [edge_issue ''compiled_edge_reference''
                ''compiled edge references an unknown node'' e])"

definition exec_dead_end_issues ::
  "WorkflowNode list \<Rightarrow> WorkflowEdge list \<Rightarrow> WorkflowNode \<Rightarrow> ValidationIssue list" where
  "exec_dead_end_issues ns es n =
     report_if (node_type n \<noteq> OUTPUT \<and> degree_of from_node es (node_id n) = 0)
       (node_issue ''dead_end_node''
          ''every executable non-output node requires an outgoing edge'' n) @
     report_if (1 < length ns \<and> degree_of to_node es (node_id n) = 0 \<and>
         degree_of from_node es (node_id n) = 0)
       (node_issue ''isolated_node'' ''compiled graph contains an isolated node'' n)"

definition boundary_issues ::
  "WorkflowNode list \<Rightarrow> WorkflowEdge list \<Rightarrow> string list \<Rightarrow> ValidationIssue list" where
  \<comment> \<open>\<open>_validate_boundaries\<close>\<close>
  "boundary_issues ns es node_ids =
     (let inputs = filter (\<lambda>n. node_type n = INPUT) ns;
          outputs = filter (\<lambda>n. node_type n = OUTPUT) ns
      in report_if (length inputs \<noteq> 1)
           (issue ''input_count'' ''compiled graph requires exactly one input'' None None) @
         report_if (length outputs \<noteq> 1)
           (issue ''output_count'' ''compiled graph requires exactly one output'' None None) @
         report_if (length inputs = 1 \<and> degree_of to_node es (node_id (hd inputs)) \<noteq> 0)
           (node_issue ''input_has_incoming'' ''input cannot have incoming edges'' (hd inputs)) @
         report_if (length outputs = 1 \<and> degree_of from_node es (node_id (hd outputs)) \<noteq> 0)
           (node_issue ''output_has_outgoing'' ''output cannot have outgoing edges'' (hd outputs)) @
         concat (map (exec_dead_end_issues ns es) ns) @
         (if length inputs = 1
          then map (\<lambda>i. issue ''unreachable_node'' ''node is unreachable from input'' (Some i) None)
            (sort (filter
               (\<lambda>i. i \<notin> reachable_from (node_id (hd inputs)) (map edge_pair es)) node_ids))
          else []) @
         (if length outputs = 1
          then map (\<lambda>i. issue ''output_unreachable'' ''node cannot reach the output node'' (Some i) None)
            (sort (filter
               (\<lambda>i. i \<notin> reverse_reachable (node_id (hd outputs)) (map edge_pair es)) node_ids))
          else []))"

abbreviation outcome_key :: "WorkflowEdge \<Rightarrow> string \<times> EdgeCondition" where
  "outcome_key e \<equiv> (from_node e, condition e)"

definition fanout_issues :: "WorkflowEdge list \<Rightarrow> ValidationIssue list" where
  "fanout_issues es =
     (let keys = map outcome_key es in
      concat (map (\<lambda>k. report_if (1 < count_list keys k)
          (issue ''outcome_fanout''
             (''node has '' @ nat_str (count_list keys k) @ '' '' @ EdgeCondition_value (snd k) @
              '' edges; Demo permits one'') (Some (fst k)) None))
        (sort_key (\<lambda>k. (fst k, EdgeCondition_value (snd k))) (remdups keys))))"

definition join_issues :: "WorkflowNode list \<Rightarrow> WorkflowEdge list \<Rightarrow> ValidationIssue list" where
  "join_issues ns es =
     concat (map (\<lambda>n. report_if (1 < degree_of to_node es (node_id n) \<and> node_type n \<noteq> OUTPUT)
       (node_issue ''unsupported_join'' ''Demo permits multiple incoming edges only on output'' n)) ns)"

definition outcome_branch_issues :: "WorkflowNode list \<Rightarrow> WorkflowEdge list \<Rightarrow> ValidationIssue list" where
  \<comment> \<open>\<open>_validate_outcome_branches\<close>\<close>
  "outcome_branch_issues ns es =
     concat (map (\<lambda>n.
       (if node_type n = IF
        then concat (map (\<lambda>c. report_if (condition_count n c es \<noteq> 1)
          (node_issue ''if_branch_missing''
            (''compiled if requires one '' @ EdgeCondition_value c @ '' edge'') n)) [MATCHED, NOT_MATCHED])
        else []) @
       (if node_type n = APPROVAL
        then concat (map (\<lambda>c. report_if (condition_count n c es \<noteq> 1)
          (node_issue ''approval_branch_missing''
            (''approval requires one '' @ EdgeCondition_value c @ '' edge'') n)) [APPROVED, REJECTED])
        else [])) ns)"

subsection \<open>Sealed chains\<close>

definition happy_condition :: "WorkflowNode \<Rightarrow> EdgeCondition" where
  "happy_condition n = (if node_type n = APPROVAL then APPROVED else SUCCESS)"

definition happy_edges :: "WorkflowEdge list \<Rightarrow> WorkflowNode \<Rightarrow> WorkflowEdge list" where
  "happy_edges es n = filter (\<lambda>e. from_node e = node_id n \<and> condition e = happy_condition n) es"

definition in_chain_of :: "WorkflowNode \<Rightarrow> WorkflowNode \<Rightarrow> bool" where
  "in_chain_of source target \<longleftrightarrow> system_type target \<and> source_node_id target = Some (node_id source)"

function walk_chain ::
  "WorkflowNode list \<Rightarrow> WorkflowEdge list \<Rightarrow> WorkflowNode \<Rightarrow> string list \<Rightarrow> WorkflowNode \<Rightarrow>
     ValidationIssue list \<times> WorkflowNode list" where
  \<comment> \<open>the \<open>while True\<close> loop from \<open>current\<close>: the issue that stops it, if any, and the rest of the
      chain; the edges are valid ones, so the looked up target exists\<close>
  "walk_chain ns es source seen current =
     (case happy_edges es current of
        [e] \<Rightarrow>
          (case dict_by node_id ns (to_node e) of
             None \<Rightarrow> ([], [])
           | Some target \<Rightarrow>
               (if \<not> in_chain_of source target then ([], [])
                else if node_id target \<in> set seen
                then ([node_issue ''security_chain_cycle'' ''security chain repeats a node'' target], [])
                else case walk_chain ns es source (node_id target # seen) target of
                  (issues, chain) \<Rightarrow> (issues, target # chain)))
      | _ \<Rightarrow>
          ([node_issue ''security_happy_path''
              (NodeType_value (node_type current) @ '' requires exactly one '' @
               EdgeCondition_value (happy_condition current) @ '' edge'') current], []))"
  by pat_completeness auto

termination
proof (relation "measure (\<lambda>(ns, es, source, seen, current). card (node_id ` set ns - set seen))")
  fix ns es source seen current e es' target
  assume "dict_by node_id ns (to_node e) = Some target" and "node_id target \<notin> set seen"
  then have "node_id target \<in> node_id ` set ns - set seen"
    by (auto dest: dict_by_SomeD)
  then have "node_id ` set ns - set (node_id target # seen) \<subset> node_id ` set ns - set seen" by auto
  then show "((ns, es, source, node_id target # seen, target), ns, es, source, seen, current) \<in>
      measure (\<lambda>(ns, es, source, seen, current). card (node_id ` set ns - set seen))"
    by (simp add: psubset_card_mono del: set_simps)
qed simp_all

declare walk_chain.simps [simp del]

definition rule_mismatch :: "WorkflowNode \<Rightarrow> NodeType \<Rightarrow> string \<Rightarrow> ValidationIssue list" where
  "rule_mismatch sealed expected_type expected_rule =
     report_if (node_type sealed \<noteq> expected_type \<or> system_rule_id sealed \<noteq> Some expected_rule)
       (node_issue ''security_rule_mismatch''
          (NodeType_value expected_type @ '' must use sealed rule '' @ expected_rule) sealed)"

definition docs_segment_issues :: "WorkflowNode \<Rightarrow> WorkflowNode \<Rightarrow> ValidationIssue list" where
  "docs_segment_issues source docs_test =
     report_if (test_kind docs_test \<noteq> Some DOCS_STATIC)
       (node_issue ''security_chain_order''
          ''a test without command_guard must be docs_static'' docs_test) @
     report_if (opt_list (effective_allowed_commands source) \<noteq> [])
       (node_issue ''docs_static_command_conflict''
          ''docs_static and command tests are mutually exclusive'' docs_test) @
     report_if (system_rule_id docs_test \<noteq> Some ''write.docs_static_test.v1'')
       (node_issue ''security_rule_mismatch''
          ''docs_static test must use its sealed policy rule'' docs_test)"

definition is_command_pair :: "WorkflowNode \<Rightarrow> WorkflowNode \<Rightarrow> bool" where
  "is_command_pair guard test \<longleftrightarrow>
     node_type guard = COMMAND_GUARD \<and> node_type test = TEST \<and> test_kind test = Some COMMAND"

definition sealed_pair_rules :: "nat \<Rightarrow> WorkflowNode \<Rightarrow> WorkflowNode \<Rightarrow> bool" where
  "sealed_pair_rules ordinal guard test \<longleftrightarrow>
     system_rule_id guard = Some (''write.command_guard.'' @ nat_str ordinal @ ''.v1'') \<and>
     system_rule_id test = Some (''write.command_test.'' @ nat_str ordinal @ ''.v1'')"

fun command_segment :: "nat \<Rightarrow> WorkflowNode list \<Rightarrow> ValidationIssue list \<times> string list list" where
  \<comment> \<open>the loop over the pairs: the issues, and \<open>actual_commands\<close>\<close>
  "command_segment ordinal (guard # test # rest) =
     (case command_segment (ordinal + 1) rest of
        (issues, commands) \<Rightarrow>
          (if \<not> is_command_pair guard test
           then (node_issue ''security_chain_order''
                   ''command_guard must immediately precede its command test'' test # issues, commands)
           else (report_if (\<not> sealed_pair_rules ordinal guard test)
                   (node_issue ''security_rule_mismatch''
                     ''command guard/test pair does not match its sealed policy rule'' test) @ issues,
                 opt_list (test_argv test) # commands)))"
| "command_segment ordinal _ = ([], [])"

definition sequence_issues :: "WorkflowNode \<Rightarrow> WorkflowNode list \<Rightarrow> ValidationIssue list" where
  \<comment> \<open>\<open>_validate_security_sequence\<close>\<close>
  "sequence_issues source chain =
     (if chain = [] then []
      else if length chain < 5 \<or>
        map node_type (drop (length chain - 3) chain) \<noteq> [RISK_CLASSIFIER, APPROVAL, MERGE_PATCH]
      then [node_issue ''security_chain_order''
              ''security chain must end with risk_classifier -> approval -> merge_patch'' source]
      else let k = length chain - 3; segment = take (k - 1) (drop 1 chain) in
        rule_mismatch (hd chain) PATCH_GUARD ''write.patch_guard.v1'' @
        rule_mismatch (chain ! k) RISK_CLASSIFIER ''write.risk_classifier.v1'' @
        rule_mismatch (chain ! (k + 1)) APPROVAL ''write.changeset_approval.v1'' @
        rule_mismatch (chain ! (k + 2)) MERGE_PATCH ''write.merge_patch.v1'' @
        (if length segment = 1 \<and> node_type (hd segment) = TEST
         then docs_segment_issues source (hd segment)
         else if segment = [] \<or> odd (length segment)
         then [node_issue ''security_chain_order''
                 ''command security chain must contain command_guard/test pairs'' source]
         else case command_segment 1 segment of
           (issues, actual_commands) \<Rightarrow>
             issues @
             report_if (actual_commands \<noteq> opt_list (effective_allowed_commands source))
               (node_issue ''security_test_commands_mismatch''
                 ''command tests must exactly match effective allowed commands'' source)))"

definition type_count :: "NodeType \<Rightarrow> WorkflowNode list \<Rightarrow> nat" where
  "type_count t ns = length (filter (\<lambda>n. node_type n = t) ns)"

definition presence_issues :: "WorkflowNode \<Rightarrow> WorkflowNode list \<Rightarrow> ValidationIssue list" where
  "presence_issues source system =
     concat (map (\<lambda>t. report_if (type_count t system \<noteq> 1)
       (node_issue ''security_chain_incomplete''
          (''write task requires exactly one '' @ NodeType_value t) source))
       [PATCH_GUARD, RISK_CLASSIFIER, APPROVAL, MERGE_PATCH]) @
     report_if (type_count TEST system < 1)
       (node_issue ''security_chain_incomplete'' ''write task requires at least one test'' source) @
     report_if (length (map system_rule_id system) \<noteq> length (remdups (map system_rule_id system)))
       (node_issue ''duplicate_system_rule'' ''write-task system_rule_id values must be unique'' source) @
     report_if (policy_risk_floor source = Some L4)
       (node_issue ''l4_risk_rejected'' ''L4 tasks are not executable'' source)"

definition exit_condition :: "WorkflowNode \<Rightarrow> EdgeCondition" where
  "exit_condition n = (if node_type n = APPROVAL then REJECTED else FAILURE)"

definition terminal_exit_issues ::
  "string list \<Rightarrow> WorkflowEdge list \<Rightarrow> WorkflowNode \<Rightarrow> ValidationIssue list" where
  "terminal_exit_issues output_ids es n =
     (let exits = filter (\<lambda>e. from_node e = node_id n \<and> condition e = exit_condition n) es in
      report_if (length exits \<noteq> 1 \<or> to_node (hd exits) \<notin> set output_ids)
        (node_issue ''security_terminal_exit''
          (NodeType_value (node_type n) @ '' '' @ EdgeCondition_value (exit_condition n) @
           '' must terminate at output'') n))"

definition system_nodes_of :: "WorkflowNode list \<Rightarrow> WorkflowNode \<Rightarrow> WorkflowNode list" where
  "system_nodes_of ns source = filter (\<lambda>n. source_node_id n = Some (node_id source)) ns"

definition chain_issues ::
  "WorkflowNode list \<Rightarrow> WorkflowEdge list \<Rightarrow> WorkflowNode \<Rightarrow> ValidationIssue list" where
  \<comment> \<open>the body of the loop of \<open>_validate_security_chains\<close>\<close>
  "chain_issues ns es source =
     (if \<not> is_write_task source then []
      else let system = system_nodes_of ns source;
               output_ids = map node_id (filter (\<lambda>n. node_type n = OUTPUT) ns);
               (walk_issues, chain) = walk_chain ns es source [] source
        in presence_issues source system @ walk_issues @
           report_if (chain = [] \<or> node_type (hd chain) \<noteq> PATCH_GUARD)
             (node_issue ''patch_guard_bypass''
                ''write task success must enter its sealed patch_guard'' source) @
           report_if (set (map node_id chain) \<noteq> set (map node_id system))
             (node_issue ''security_chain_disconnected''
                ''all same-source system nodes must be on one sealed happy path'' source) @
           sequence_issues source chain @
           concat (map (terminal_exit_issues output_ids es) system))"

definition exec_valid_edges :: "CompiledGraph \<Rightarrow> WorkflowEdge list" where
  "exec_valid_edges g =
     filter (edge_known (map node_id (compiled_nodes g))) (sort_key edge_id (compiled_edges g))"

definition exec_size_issues :: "CompiledGraph \<Rightarrow> ValidationIssue list" where
  "exec_size_issues g =
     report_if (MAX_COMPILED_NODES < length (compiled_nodes g))
       (issue ''compiled_too_many_nodes'' ''compiled graph exceeds 300 nodes'' None None) @
     report_if (MAX_COMPILED_EDGES < length (compiled_edges g))
       (issue ''compiled_too_many_edges'' ''compiled graph exceeds 600 edges'' None None) @
     map (\<lambda>i. issue ''duplicate_node_id'' ''compiled node id is not unique'' (Some i) None)
       (repeated (map node_id (compiled_nodes g))) @
     map (\<lambda>i. issue ''duplicate_edge_id'' ''compiled edge id is not unique'' None (Some i))
       (repeated (map edge_id (compiled_edges g)))"

definition exec_errors :: "ExecutableConfig \<Rightarrow> CompiledGraph \<Rightarrow> ValidationIssue list" where
  "exec_errors cfg g =
     (let ns = compiled_nodes g; es = exec_valid_edges g; node_of = dict_by node_id ns;
          node_ids = dedup (map node_id ns)
      in exec_size_issues g @
         concat (map (\<lambda>n. handler_issues cfg n @ exec_node_issues n node_of) (sort_key node_id ns)) @
         concat (map (exec_edge_issues node_of) (sort_key edge_id (compiled_edges g))) @
         report_if (length node_ids = length ns \<and> contains_cycle node_ids (map edge_pair es))
           (issue ''compiled_cycle'' ''compiled graph must be a DAG'' None None) @
         boundary_issues ns es node_ids @ fanout_issues es @ join_issues ns es @
         outcome_branch_issues ns es @ concat (map (chain_issues ns es) ns) @
         (if write_runtime_enabled cfg then []
          else concat (map (\<lambda>n. report_if (is_write_task n)
            (node_issue ''write_runtime_unavailable''
              ''write workflows require HUB-200 workspace and guard runtime'' n)) ns)))"

definition validate_executable ::
  "ExecutableConfig \<Rightarrow> CompiledGraph \<Rightarrow> py_error + ValidationReport" where
  "validate_executable cfg g =
     (if list_all issue_constructible (exec_errors cfg g)
      then Inr \<lparr>report_errors = exec_errors cfg g, report_warnings = []\<rparr>
      else Inl ValidationError)"

subsection \<open>What an accepted snapshot satisfies\<close>

lemma register_keeps:
  assumes "register reg t expected a = Inr reg'" and "\<forall>u x. reg u = Some x \<longrightarrow> x = u"
  shows "\<forall>u x. reg' u = Some x \<longrightarrow> x = u"
  using assms by (auto simp: register_def split: if_splits)

lemma exec_parts:
  assumes "exec_errors cfg g = []"
  shows "distinct (map node_id (compiled_nodes g))" "distinct (map edge_id (compiled_edges g))"
    and "\<forall>n \<in> set (compiled_nodes g). handler_issues cfg n = [] \<and>
      exec_node_issues n (dict_by node_id (compiled_nodes g)) = []"
    and "\<forall>e \<in> set (compiled_edges g). exec_edge_issues (dict_by node_id (compiled_nodes g)) e = []"
    and "boundary_issues (compiled_nodes g) (exec_valid_edges g) (dedup (map node_id (compiled_nodes g))) = []"
    and "join_issues (compiled_nodes g) (exec_valid_edges g) = []"
    and "fanout_issues (exec_valid_edges g) = []"
    and "\<forall>n \<in> set (compiled_nodes g). chain_issues (compiled_nodes g) (exec_valid_edges g) n = []"
    and "length (compiled_nodes g) \<le> 300" "length (compiled_edges g) \<le> 600"
    and "\<not> (length (dedup (map node_id (compiled_nodes g))) = length (compiled_nodes g) \<and>
      contains_cycle (dedup (map node_id (compiled_nodes g))) (arcs_of (exec_valid_edges g)))"
  using assms unfolding exec_errors_def Let_def append_is_Nil_conv concat_map_Nil set_sort
  by (auto simp: exec_size_issues_def repeated_Nil MAX_COMPILED_NODES_def MAX_COMPILED_EDGES_def
      split: if_splits)

lemma exec_edge_issues_Nil:
  assumes "exec_edge_issues node_of e = []"
  obtains source target where "node_of (from_node e) = Some source" "node_of (to_node e) = Some target"
    "condition e \<in> set (emitted_conditions (node_type source))"
    "system_type source \<or> system_type target \<longleftrightarrow> edge_system_managed e"
    "system_type source \<Longrightarrow> system_type target \<Longrightarrow> source_node_id source = source_node_id target"
proof -
  obtain source target where st: "node_of (from_node e) = Some source" "node_of (to_node e) = Some target"
    using assms by (cases "node_of (from_node e)"; cases "node_of (to_node e)") (simp_all add: exec_edge_issues_def)
  then show ?thesis
    using assms by (intro that [OF st])
      (auto simp: exec_edge_issues_def exec_condition_issues_def Let_def split: if_splits)
qed

lemma exec_edges_known:
  assumes "exec_errors cfg g = []"
  shows "set (exec_valid_edges g) = set (compiled_edges g)"
proof -
  have "edge_known (map node_id (compiled_nodes g)) e" if "e \<in> set (compiled_edges g)" for e
  proof -
    have e: "exec_edge_issues (dict_by node_id (compiled_nodes g)) e = []"
      using exec_parts(4) [OF assms] that by blast
    obtain source target where "dict_by node_id (compiled_nodes g) (from_node e) = Some source"
        "dict_by node_id (compiled_nodes g) (to_node e) = Some target"
      by (rule exec_edge_issues_Nil [OF e])
    then show ?thesis unfolding edge_known_def by (force dest: dict_by_SomeD)
  qed
  then show ?thesis by (auto simp: exec_valid_edges_def)
qed

fun linked :: "WorkflowEdge list \<Rightarrow> WorkflowNode \<Rightarrow> WorkflowNode list \<Rightarrow> bool" where
  \<comment> \<open>the nodes follow one another along the single happy edge of each\<close>
  "linked es a [] = True"
| "linked es a (b # bs) =
     ((\<exists>e. happy_edges es a = [e] \<and> to_node e = node_id b) \<and> linked es b bs)"

lemma walk_chain_linked:
  "walk_chain ns es source seen current = (issues, chain) \<Longrightarrow>
     linked es current chain \<and> set chain \<subseteq> set ns \<and> (\<forall>n \<in> set chain. in_chain_of source n)"
proof (induction ns es source seen current arbitrary: issues chain rule: walk_chain.induct)
  case (1 ns es source seen current)
  show ?case
  proof (cases "\<exists>e target. happy_edges es current = [e] \<and> dict_by node_id ns (to_node e) = Some target \<and>
      in_chain_of source target \<and> node_id target \<notin> set seen")
    case True
    then obtain e target where e: "happy_edges es current = [e]" "dict_by node_id ns (to_node e) = Some target"
      "in_chain_of source target" "node_id target \<notin> set seen" by blast
    obtain i c where w: "walk_chain ns es source (node_id target # seen) target = (i, c)"
      by (cases rule: prod.exhaust)
    have "issues = i" "chain = target # c"
      using 1(2) e w by (subst (asm) walk_chain.simps; simp)+
    then show ?thesis
      using 1(1) [OF e(1) refl e(2) _ e(4) w] e dict_by_SomeD [OF e(2)] by auto
  next
    case False
    then have "chain = []"
      using 1(2) by (subst (asm) walk_chain.simps) (auto split: list.splits option.splits if_splits)
    then show ?thesis by simp
  qed
qed

lemma command_segment_types:
  assumes "command_segment k seg = ([], cmds)" and "even (length seg)"
  shows "map node_type seg = concat (replicate (length seg div 2) [COMMAND_GUARD, TEST])"
    and "map (\<lambda>n. opt_list (test_argv n)) (filter (\<lambda>n. node_type n = TEST) seg) = cmds"
  using assms
  by (induction k seg arbitrary: cmds rule: command_segment.induct)
    (auto split: prod.splits if_splits simp: is_command_pair_def)

lemma chain_split:
  assumes "5 \<le> length chain"
  obtains p seg a b c where "chain = p # seg @ [a, b, c]" "seg \<noteq> []"
proof -
  obtain p rest where chain: "chain = p # rest" using assms by (cases chain) auto
  let ?t = "drop (length rest - 3) rest"
  have "length ?t = Suc (Suc (Suc 0))" using assms chain by simp
  then obtain a b c where t: "?t = [a, b, c]" by (auto simp only: length_Suc_conv length_0_conv)
  then have "rest = take (length rest - 3) rest @ [a, b, c]" by (metis append_take_drop_id)
  moreover have "take (length rest - 3) rest \<noteq> []" using assms chain by auto
  ultimately show ?thesis using that chain by metis
qed

lemma sequence_issues_split:
  assumes "seg \<noteq> []"
  shows "sequence_issues source (p # seg @ [a, b, c]) =
     (if [node_type a, node_type b, node_type c] \<noteq> [RISK_CLASSIFIER, APPROVAL, MERGE_PATCH]
      then [node_issue ''security_chain_order''
              ''security chain must end with risk_classifier -> approval -> merge_patch'' source]
      else rule_mismatch p PATCH_GUARD ''write.patch_guard.v1'' @
        rule_mismatch a RISK_CLASSIFIER ''write.risk_classifier.v1'' @
        rule_mismatch b APPROVAL ''write.changeset_approval.v1'' @
        rule_mismatch c MERGE_PATCH ''write.merge_patch.v1'' @
        (if length seg = 1 \<and> node_type (hd seg) = TEST
         then docs_segment_issues source (hd seg)
         else if seg = [] \<or> odd (length seg)
         then [node_issue ''security_chain_order''
                 ''command security chain must contain command_guard/test pairs'' source]
         else case command_segment 1 seg of
           (issues, actual_commands) \<Rightarrow>
             issues @
             report_if (actual_commands \<noteq> opt_list (effective_allowed_commands source))
               (node_issue ''security_test_commands_mismatch''
                 ''command tests must exactly match effective allowed commands'' source)))"
proof -
  define m where "m = length seg"
  have m: "0 < m" using assms by (simp add: m_def)
  have l: "length (p # seg @ [a, b, c]) = m + 4" by (simp add: m_def)
  have k: "length (p # seg @ [a, b, c]) - 3 = Suc m" by (simp add: m_def)
  have d: "drop (Suc m) (p # seg @ [a, b, c]) = [a, b, c]" by (simp add: m_def)
  have n: "(p # seg @ [a, b, c]) ! Suc m = a" "(p # seg @ [a, b, c]) ! (Suc m + 1) = b"
    "(p # seg @ [a, b, c]) ! (Suc m + 2) = c" by (simp_all add: m_def nth_append)
  have t: "take (Suc m - 1) (drop 1 (p # seg @ [a, b, c])) = seg" by (simp add: m_def)
  have len: "(length (p # seg @ [a, b, c]) < 5) = False" using m by (simp add: m_def)
  show ?thesis
    unfolding sequence_issues_def Let_def k d n t len list.sel list.map by (simp only: simp_thms if_False list.distinct)
qed

definition test_segment_ok :: "WorkflowNode \<Rightarrow> WorkflowNode list \<Rightarrow> bool" where
  \<comment> \<open>a single static documentation test, or a guard before every command test\<close>
  "test_segment_ok source seg \<longleftrightarrow>
     (\<exists>t. seg = [t] \<and> node_type t = TEST \<and> test_kind t = Some DOCS_STATIC \<and>
        opt_list (effective_allowed_commands source) = []) \<or>
     (seg \<noteq> [] \<and> map node_type seg = concat (replicate (length seg div 2) [COMMAND_GUARD, TEST]) \<and>
        map (\<lambda>n. opt_list (test_argv n)) (filter (\<lambda>n. node_type n = TEST) seg) =
          opt_list (effective_allowed_commands source))"

lemma rule_mismatch_Nil: "rule_mismatch n t r = [] \<longleftrightarrow> node_type n = t \<and> system_rule_id n = Some r"
  by (simp add: rule_mismatch_def)

lemma sequence_issues_Nil:
  assumes nil: "sequence_issues source chain = []" and "chain \<noteq> []"
  shows "\<exists>patch seg risk appr merge. chain = patch # seg @ [risk, appr, merge] \<and>
    node_type patch = PATCH_GUARD \<and> node_type risk = RISK_CLASSIFIER \<and>
    node_type appr = APPROVAL \<and> node_type merge = MERGE_PATCH \<and> test_segment_ok source seg"
proof -
  have "5 \<le> length chain"
    using assms by (simp add: sequence_issues_def not_less split: if_splits)
  then obtain p seg a b c where chain: "chain = p # seg @ [a, b, c]" and seg: "seg \<noteq> []"
    by (rule chain_split)
  note N = nil [unfolded chain sequence_issues_split [OF seg]]
  have types: "[node_type a, node_type b, node_type c] = [RISK_CLASSIFIER, APPROVAL, MERGE_PATCH]"
    using N by (simp split: if_splits)
  have patch: "node_type p = PATCH_GUARD"
    using N types by (simp add: rule_mismatch_Nil)
  have "test_segment_ok source seg"
  proof (cases "length seg = 1 \<and> node_type (hd seg) = TEST")
    case True
    then obtain t where "seg = [t]" by (cases seg) auto
    then show ?thesis
      using N types True by (auto simp: test_segment_ok_def docs_segment_issues_def split: if_splits)
  next
    case False
    obtain i cs where ic: "command_segment 1 seg = (i, cs)" by (cases rule: prod.exhaust)
    have "even (length seg) \<and> i = [] \<and> cs = opt_list (effective_allowed_commands source)"
      using N types False seg unfolding ic by (simp split: if_splits)
    then show ?thesis
      using command_segment_types [of 1 seg cs] ic seg unfolding test_segment_ok_def by blast
  qed
  then show ?thesis using chain types patch by auto
qed

lemma linked_nth:
  "linked es a bs \<Longrightarrow> k < length bs \<Longrightarrow>
     \<exists>e \<in> set es. from_node e = node_id ((a # bs) ! k) \<and> to_node e = node_id (bs ! k) \<and>
       condition e = happy_condition ((a # bs) ! k)"
proof (induction es a bs arbitrary: k rule: linked.induct)
  case (2 es a b bs)
  then obtain e where e: "happy_edges es a = [e]" "to_node e = node_id b" and l: "linked es b bs" by auto
  show ?case
  proof (cases k)
    case 0
    have "e \<in> set (happy_edges es a)" using e(1) by simp
    then show ?thesis using e(2) 0 by (auto simp: happy_edges_def)
  next
    case (Suc j)
    then show ?thesis using 2(1) [OF l, of j] 2(3) by simp
  qed
qed simp

lemma filter_at_most_one:
  "length (filter P xs) \<le> 1 \<Longrightarrow> x \<in> set xs \<Longrightarrow> y \<in> set xs \<Longrightarrow> P x \<Longrightarrow> P y \<Longrightarrow> x = y"
proof -
  assume "length (filter P xs) \<le> 1" "x \<in> set xs" "y \<in> set xs" "P x" "P y"
  then have "x \<in> set (filter P xs)" "y \<in> set (filter P xs)" "length (filter P xs) \<le> Suc 0" by auto
  then show "x = y" by (cases "filter P xs") auto
qed

lemma single_entry:
  assumes "exec_errors cfg g = []" and "n \<in> set (compiled_nodes g)" "node_type n \<noteq> OUTPUT"
    and "e \<in> set (compiled_edges g)" "e' \<in> set (compiled_edges g)"
    and "to_node e = node_id n" "to_node e' = node_id n"
  shows "e = e'"
proof (rule filter_at_most_one [of "\<lambda>e. to_node e = node_id n" "exec_valid_edges g"])
  have "\<not> (1 < degree_of to_node (exec_valid_edges g) (node_id n) \<and> node_type n \<noteq> OUTPUT)"
    using exec_parts(6) [OF assms(1)] assms(2) by (auto simp: join_issues_def split: if_splits)
  then show "length (filter (\<lambda>e. to_node e = node_id n) (exec_valid_edges g)) \<le> 1"
    using assms(3) by (simp add: degree_of_def)
qed (use assms exec_edges_known [OF assms(1)] in simp_all)

lemma on_every_path_single:
  assumes "(p, v) \<in> set es" and "\<And>u. (u, v) \<in> set es \<Longrightarrow> u = p" and "on_every_path es x p"
  shows "on_every_path es x v"
proof -
  have "preds es v \<noteq> []" using assms(1) by (auto simp: preds_Nil_iff)
  moreover have "set (preds es v) = {p}" unfolding set_preds using assms(1,2) by blast
  ultimately have "exact_dom es v = insert v (exact_dom es p)"
    using exact_dom_step [of es v] by simp
  moreover have "x \<in> exact_dom es p" using assms(3) unfolding exact_dom_def by blast
  ultimately have "x \<in> exact_dom es v" by blast
  then show ?thesis unfolding exact_dom_def by blast
qed

lemma on_every_path_refl: "on_every_path es v v"
  by (auto simp: on_every_path_def dest: source_path_last)

definition sealed_chain :: "CompiledGraph \<Rightarrow> WorkflowNode \<Rightarrow> WorkflowNode list \<Rightarrow> bool" where
  \<comment> \<open>the system nodes of a write task form one chain of the sealed shape, and each of them is
      entered only from the one before it, on its happy outcome\<close>
  "sealed_chain g s chain \<longleftrightarrow>
     (\<exists>patch seg risk appr merge. chain = patch # seg @ [risk, appr, merge] \<and>
        node_type patch = PATCH_GUARD \<and> node_type risk = RISK_CLASSIFIER \<and>
        node_type appr = APPROVAL \<and> node_type merge = MERGE_PATCH \<and> test_segment_ok s seg) \<and>
     set chain = set (system_nodes_of (compiled_nodes g) s) \<and>
     (\<forall>k < length chain. \<exists>e \<in> set (compiled_edges g). to_node e = node_id (chain ! k)) \<and>
     (\<forall>k < length chain. \<forall>e \<in> set (compiled_edges g). to_node e = node_id (chain ! k) \<longrightarrow>
        from_node e = node_id ((s # chain) ! k) \<and> condition e = happy_condition ((s # chain) ! k))"

lemma sealed_entry:
  assumes "sealed_chain g s chain" "k < length chain"
  shows "\<exists>e \<in> set (compiled_edges g). to_node e = node_id (chain ! k)"
    and "e \<in> set (compiled_edges g) \<Longrightarrow> to_node e = node_id (chain ! k) \<Longrightarrow>
      from_node e = node_id ((s # chain) ! k) \<and> condition e = happy_condition ((s # chain) ! k)"
  using assms unfolding sealed_chain_def by simp_all

lemma write_task_sealed:
  assumes ok: "exec_errors cfg g = []" and s: "s \<in> set (compiled_nodes g)" "is_write_task s"
  shows "\<exists>chain. sealed_chain g s chain"
proof -
  let ?ns = "compiled_nodes g" and ?es = "exec_valid_edges g"
  obtain i chain where w: "walk_chain ?ns ?es s [] s = (i, chain)" by (cases rule: prod.exhaust)
  have nil: "chain_issues ?ns ?es s = []" using exec_parts(8) [OF ok] s(1) by blast
  have c: "chain \<noteq> []" "set (map node_id chain) = set (map node_id (system_nodes_of ?ns s))"
      "sequence_issues s chain = []"
    using nil s(2) unfolding chain_issues_def Let_def w by (simp_all split: if_splits)
  note L = walk_chain_linked [OF w]
  have "set chain = set (system_nodes_of ?ns s)"
  proof -
    have "set chain \<subseteq> set ?ns" "set (system_nodes_of ?ns s) \<subseteq> set ?ns"
      using L by (auto simp: system_nodes_of_def)
    moreover have "inj_on node_id (set ?ns)" using exec_parts(1) [OF ok] by (simp add: distinct_map)
    ultimately show ?thesis using c(2) by (simp add: inj_on_image_eq_iff)
  qed
  moreover have "\<exists>e \<in> set (compiled_edges g). to_node e = node_id (chain ! k)" if "k < length chain" for k
    using linked_nth [OF conjunct1 [OF L] that] exec_edges_known [OF ok] by auto
  moreover have "from_node e = node_id ((s # chain) ! k) \<and> condition e = happy_condition ((s # chain) ! k)"
    if k: "k < length chain" and e: "e \<in> set (compiled_edges g)" "to_node e = node_id (chain ! k)" for k e
  proof -
    obtain e' where e': "e' \<in> set (compiled_edges g)" "from_node e' = node_id ((s # chain) ! k)"
        "to_node e' = node_id (chain ! k)" "condition e' = happy_condition ((s # chain) ! k)"
      using linked_nth [OF conjunct1 [OF L] k] exec_edges_known [OF ok] by auto
    have "chain ! k \<in> set chain" using k by simp
    then have "chain ! k \<in> set ?ns" "in_chain_of s (chain ! k)" using L by auto
    moreover from this have "node_type (chain ! k) \<noteq> OUTPUT"
      by (auto simp: in_chain_of_def SYSTEM_TYPES_def)
    ultimately have "e = e'" using single_entry [OF ok _ _ e(1) e'(1) e(2) e'(3)] by blast
    then show ?thesis using e' by simp
  qed
  ultimately show ?thesis
    using sequence_issues_Nil [OF c(3,1)] unfolding sealed_chain_def by blast
qed

lemma sealed_dominates:
  assumes "sealed_chain g s chain" and "k < length chain" and "j \<le> k"
  shows "on_every_path (arcs_of (compiled_edges g)) (node_id ((s # chain) ! j)) (node_id (chain ! k))"
proof -
  let ?es = "arcs_of (compiled_edges g)"
  have step: "on_every_path ?es x (node_id (chain ! m))"
    if m: "m < length chain" and prev: "on_every_path ?es x (node_id ((s # chain) ! m))" for m x
  proof (rule on_every_path_single [OF _ _ prev])
    obtain e where e: "e \<in> set (compiled_edges g)" "to_node e = node_id (chain ! m)"
      using sealed_entry(1) [OF assms(1) m] by blast
    then have "from_node e = node_id ((s # chain) ! m)"
      using sealed_entry(2) [OF assms(1) m] by blast
    then show "(node_id ((s # chain) ! m), node_id (chain ! m)) \<in> set ?es" using e by force
    show "u = node_id ((s # chain) ! m)" if arc: "(u, node_id (chain ! m)) \<in> set ?es" for u
    proof -
      obtain e where "e \<in> set (compiled_edges g)" "to_node e = node_id (chain ! m)" "from_node e = u"
        using arc by auto
      then show ?thesis using sealed_entry(2) [OF assms(1) m] by blast
    qed
  qed
  have "on_every_path ?es (node_id ((s # chain) ! j)) (node_id (chain ! k))"
    using assms(2,3)
  proof (induction k)
    case 0
    then show ?case using step [of 0 "node_id s"] on_every_path_refl [of ?es "node_id s"] by simp
  next
    case (Suc k)
    show ?case
    proof (cases "j = Suc k")
      case True
      then show ?thesis
        using step [of "Suc k" "node_id (chain ! k)"] Suc.prems
          on_every_path_refl [of ?es "node_id (chain ! k)"] by simp
    next
      case False
      then have "on_every_path ?es (node_id ((s # chain) ! j)) (node_id (chain ! k))"
        using Suc by simp
      then show ?thesis using step [of "Suc k"] Suc.prems by simp
    qed
  qed
  then show ?thesis .
qed

lemma system_node_owner:
  assumes ok: "exec_errors cfg g = []" and n: "n \<in> set (compiled_nodes g)" "system_type n"
  shows "\<exists>s \<in> set (compiled_nodes g). is_write_task s \<and> source_node_id n = Some (node_id s) \<and>
    policy_risk_floor n = policy_risk_floor s"
proof -
  have "exec_node_issues n (dict_by node_id (compiled_nodes g)) = []" using exec_parts(3) [OF ok] n(1) by blast
  moreover have "node_type n \<noteq> AGENT_TASK" using n(2) by (auto simp: SYSTEM_TYPES_def)
  ultimately have own: "ownership_issues n (dict_by node_id (compiled_nodes g)) = []"
    using n(2) by (simp add: exec_node_issues_def exec_system_issues_def)
  then obtain i where i: "source_node_id n = Some i"
    by (cases "source_node_id n") (simp_all add: ownership_issues_def)
  then obtain s where "dict_by node_id (compiled_nodes g) i = Some s" "is_write_task s"
      "policy_risk_floor n = policy_risk_floor s"
    using own by (cases "dict_by node_id (compiled_nodes g) i")
      (simp_all add: ownership_issues_def split: if_splits del: dict_by_None)
  then show ?thesis using i dict_by_SomeD by fastforce
qed

lemma merge_sealed:
  assumes ok: "exec_errors cfg g = []" and m: "m \<in> set (compiled_nodes g)" "node_type m = MERGE_PATCH"
  shows "\<exists>s patch seg risk appr. s \<in> set (compiled_nodes g) \<and> is_write_task s \<and>
    source_node_id m = Some (node_id s) \<and> sealed_chain g s (patch # seg @ [risk, appr, m]) \<and>
    node_type appr = APPROVAL"
proof -
  have sys: "system_type m" using m(2) by (simp add: SYSTEM_TYPES_def)
  obtain s where s: "s \<in> set (compiled_nodes g)" "is_write_task s" "source_node_id m = Some (node_id s)"
    using system_node_owner [OF ok m(1) sys] by blast
  obtain chain where sc: "sealed_chain g s chain" using write_task_sealed [OF ok s(1,2)] by blast
  obtain patch seg risk appr merge where c: "chain = patch # seg @ [risk, appr, merge]"
      "node_type appr = APPROVAL" "node_type merge = MERGE_PATCH"
    using sc unfolding sealed_chain_def by blast
  let ?sys = "system_nodes_of (compiled_nodes g) s"
  have "m \<in> set ?sys" "merge \<in> set ?sys"
    using m s(3) sc c(1) unfolding sealed_chain_def by (auto simp: system_nodes_of_def)
  moreover have "type_count MERGE_PATCH ?sys = 1"
  proof -
    have "chain_issues (compiled_nodes g) (exec_valid_edges g) s = []"
      using exec_parts(8) [OF ok] s(1) by blast
    then have "presence_issues s ?sys = []"
      unfolding chain_issues_def Let_def case_prod_unfold using s(2) by (simp del: concat_eq_Nil_conv)
    then show ?thesis by (simp add: presence_issues_def split: if_splits)
  qed
  ultimately have "m = merge"
    using filter_at_most_one [of "\<lambda>n. node_type n = MERGE_PATCH" ?sys] m(2) c(3)
    by (simp add: type_count_def)
  then show ?thesis using s sc c by blast
qed

subsection \<open>Properties\<close>

text \<open>
  C1: in a snapshot the executable validator accepts, no path reaches a merge without its
  approval. Every merge node belongs to a write task whose system nodes form one sealed chain
  (patch guard, then a static test or guarded command tests, risk classifier, approval, merge);
  the only edge into the merge is the approved edge of that approval; and the task and every
  node of the chain lie on every path from a source of the graph to the merge.
\<close>

theorem no_merge_without_approval:
  assumes "validate_executable cfg g = Inr r" and "ok r"
    and m: "m \<in> set (compiled_nodes g)" "node_type m = MERGE_PATCH"
  shows "\<exists>s patch seg risk appr. s \<in> set (compiled_nodes g) \<and> is_write_task s \<and>
    sealed_chain g s (patch # seg @ [risk, appr, m]) \<and> node_type appr = APPROVAL \<and>
    (\<forall>e \<in> set (compiled_edges g). to_node e = node_id m \<longrightarrow>
       from_node e = node_id appr \<and> condition e = APPROVED) \<and>
    (\<forall>x \<in> set (s # patch # seg @ [risk, appr, m]).
       on_every_path (arcs_of (compiled_edges g)) (node_id x) (node_id m))"
proof -
  have ok: "exec_errors cfg g = []"
    using assms(1,2) by (auto simp: validate_executable_def ok_def split: if_splits)
  obtain s patch seg risk appr where s: "s \<in> set (compiled_nodes g)" "is_write_task s"
    and sc: "sealed_chain g s (patch # seg @ [risk, appr, m])" and a: "node_type appr = APPROVAL"
    using merge_sealed [OF ok m] by blast
  let ?c = "patch # seg @ [risk, appr, m]"
  let ?k = "length seg + 3"
  have k: "?k < length ?c" "?c ! ?k = m" "(s # ?c) ! ?k = appr" by (simp_all add: nth_append)
  have "from_node e = node_id appr \<and> condition e = APPROVED"
    if "e \<in> set (compiled_edges g)" "to_node e = node_id m" for e
    using sealed_entry(2) [OF sc k(1), of e] that a unfolding k(2,3) by (simp add: happy_condition_def)
  moreover have "on_every_path (arcs_of (compiled_edges g)) (node_id x) (node_id m)"
    if x: "x \<in> set (s # ?c)" for x
  proof -
    obtain j where j: "j < length (s # ?c)" "(s # ?c) ! j = x" using x unfolding in_set_conv_nth by blast
    show ?thesis
    proof (cases "j \<le> ?k")
      case True
      then show ?thesis using sealed_dominates [OF sc k(1) True] j(2) k(2) by simp
    next
      case False
      then have "j = Suc ?k" using j(1) by simp
      then have "x = m" using j(2) k(2) by simp
      then show ?thesis by (simp add: on_every_path_refl)
    qed
  qed
  ultimately show ?thesis using s sc a by blast
qed

subsection \<open>An instance\<close>

definition sample_writer :: WorkflowNode where
  "sample_writer = (new_node ''w'' AGENT_TASK ''w'')\<lparr>task_kind := Some TaskKind.DOCS,
     resolved_agent_id := Some ''a'', resolved_agent_spec_sha256 := Some ''h'',
     allowed_files_candidate := [''a.md''], effective_allowed_files := Some [''a.md''],
     effective_new_files := Some [], effective_allowed_commands := Some [],
     policy_risk_floor := Some L1, requires_changeset_approval := Some True,
     requires_write := True\<rparr>"

definition sample_injected :: "WorkflowNode list \<times> WorkflowEdge list" where
  "sample_injected =
     (case inject (\<lambda>s. s) [new_node ''i'' INPUT ''i'', sample_writer, new_node ''o'' OUTPUT ''o'']
        [sample_edge ''e1'' ''i'' ''w'' SUCCESS, sample_edge ''e2'' ''w'' ''o'' SUCCESS] of
        Inl _ \<Rightarrow> ([], []) | Inr (ns, es, _) \<Rightarrow> (ns, es))"

definition sample_compiled :: CompiledGraph where
  "sample_compiled = \<lparr>compiled_schema_version = ''1'', source_author_hash = [],
     integration_base_commit = [], policy_version = ''p'', agent_catalog_snapshot_hash = [],
     compiled_nodes = fst sample_injected, compiled_edges = snd sample_injected\<rparr>"

definition sample_exec :: ExecutableConfig where
  "sample_exec = \<lparr>registered_handlers = Some, write_runtime_enabled = True, exception_text = (\<lambda>_. ''x'')\<rparr>"
lemma sample_compiled_accepted:
  "validate_executable sample_exec sample_compiled = Inr \<lparr>report_errors = [], report_warnings = []\<rparr>"
proof -
  have "exec_errors sample_exec sample_compiled = []" by code_simp
  then show ?thesis by (simp add: validate_executable_def)
qed

lemma no_merge_without_approval_witness:
  "\<exists>m (appr :: WorkflowNode). m \<in> set (compiled_nodes sample_compiled) \<and>
     node_type m = MERGE_PATCH \<and> node_type appr = APPROVAL \<and>
     on_every_path (arcs_of (compiled_edges sample_compiled)) (node_id appr) (node_id m)"
proof -
  have "list_ex (\<lambda>n. node_type n = MERGE_PATCH) (compiled_nodes sample_compiled)" by code_simp
  then obtain m where m: "m \<in> set (compiled_nodes sample_compiled)" "node_type m = MERGE_PATCH"
    by (auto simp: list_ex_iff)
  have "ok \<lparr>report_errors = [], report_warnings = []\<rparr>" by (simp add: ok_def)
  from no_merge_without_approval [OF sample_compiled_accepted this m]
  obtain s patch seg risk appr where a: "node_type appr = APPROVAL"
    and e: "\<forall>x \<in> set (s # patch # seg @ [risk, appr, m]).
       on_every_path (arcs_of (compiled_edges sample_compiled)) (node_id x) (node_id m)"
    by blast
  have "on_every_path (arcs_of (compiled_edges sample_compiled)) (node_id appr) (node_id m)"
    using e by simp
  then show ?thesis using m a by blast
qed

end
