(* ===== verification/Run_Gates.thy ===== *)
theory Run_Gates
  imports Executable_Validation Run_Reachable
begin

text \<open>
  The gates of a write task at run time: what the executable validator guarantees about the chain
  of a merge node (\<open>sealed_chain\<close>), read through the invariants of the run's rows. A row's outcome
  fits its status (\<open>row_typed\<close>); a node of the chain that has started was preceded by a node that
  has passed.
\<close>

subsection \<open>Outcomes fit statuses\<close>

definition row_typed :: "NodeRun \<Rightarrow> bool" where
  "row_typed r \<longleftrightarrow>
     (case nr_outcome r of
        None \<Rightarrow> nr_status r \<notin> {NodeRunStatus.COMPLETED, NodeRunStatus.FAILED, NodeRunStatus.BLOCKED_BY_GUARD,
          NodeRunStatus.CANCELLED, NodeRunStatus.SUPERSEDED}
      | Some x \<Rightarrow>
          (if nr_status r = NodeRunStatus.CANCELLED \<or> nr_status r = NodeRunStatus.SUPERSEDED
           then x = NodeOutcome.CANCELLED else x \<in> set (allowed_outcomes (nr_status r))))"

lemma node_move_typed:
  assumes "node_move s t oc"
  shows "case oc of None \<Rightarrow> t \<notin> {NodeRunStatus.COMPLETED, NodeRunStatus.FAILED, NodeRunStatus.BLOCKED_BY_GUARD,
          NodeRunStatus.CANCELLED, NodeRunStatus.SUPERSEDED}
      | Some x \<Rightarrow> (if t = NodeRunStatus.CANCELLED \<or> t = NodeRunStatus.SUPERSEDED
           then x = NodeOutcome.CANCELLED else x \<in> set (allowed_outcomes t))"
  using assms by (cases s; cases t) auto

lemma row_step_typed: "row_step g rows rows' \<Longrightarrow> list_all row_typed rows \<Longrightarrow> list_all row_typed rows'"
proof (induction rule: row_step.induct)
  case (change rows f)
  have "row_typed (f r)" if r: "r \<in> set rows" for r
  proof (cases "f r = r")
    case False
    then have "nr_status (f r) = nr_status r \<and> nr_outcome (f r) = nr_outcome r \<or>
        node_move (nr_status r) (nr_status (f r)) (nr_outcome (f r))"
      using change.hyps [OF r] by (auto simp: row_change_def)
    then show ?thesis
    proof
      assume "node_move (nr_status r) (nr_status (f r)) (nr_outcome (f r))"
      then show ?thesis unfolding row_typed_def by (rule node_move_typed)
    next
      assume same: "nr_status (f r) = nr_status r \<and> nr_outcome (f r) = nr_outcome r"
      have "row_typed r" using change.prems r by (simp add: list_all_iff)
      then show ?thesis unfolding row_typed_def same [THEN conjunct1] same [THEN conjunct2] .
    qed
  qed (use change.prems r in \<open>simp add: list_all_iff\<close>)
  then show ?case by (simp add: list_all_iff)
qed (auto simp: row_typed_def)

lemma core_steps_typed:
  "core_step\<^sup>*\<^sup>* (w, rows) (w', rows') \<Longrightarrow> list_all row_typed rows \<Longrightarrow> list_all row_typed rows'"
proof (induction rule: rtranclp_induct2)
  case (step w1 rows1 w2 rows2)
  from step.hyps(2) show ?case by cases (use step.IH step.prems row_step_typed in blast)+
qed simp

lemma fresh_typed:
  assumes "fresh_run st0" and "run_steps H cd st0 st"
  shows "list_all row_typed (node_runs st)"
proof -
  have "list_all row_typed (node_runs st0)"
    using assms(1) by (auto simp: fresh_run_def list_all_iff row_typed_def)
  then show ?thesis by (rule core_steps_typed [OF fresh_core [OF assms]])
qed

subsection \<open>Chains\<close>

definition passed :: "NodeRun list \<Rightarrow> WorkflowNode \<Rightarrow> bool" where
  \<comment> \<open>a row of the node is completed, with the outcome its happy edge asks for\<close>
  "passed rows x \<longleftrightarrow> list_ex (\<lambda>u. nr_node_id u = node_id x \<and> nr_status u = NodeRunStatus.COMPLETED \<and>
     nr_outcome u = Some (if node_type x = APPROVAL then NodeOutcome.APPROVED else NodeOutcome.SUCCESS)) rows"

lemma sealed_node:
  assumes sc: "sealed_chain g s chain" and k: "k < length chain"
  shows "chain ! k \<in> set (compiled_nodes g)" and "node_type (chain ! k) \<noteq> INPUT"
proof -
  have m: "chain ! k \<in> set chain" using k by simp
  then show "chain ! k \<in> set (compiled_nodes g)"
    using sc unfolding sealed_chain_def by (auto simp: system_nodes_of_def)
  obtain patch seg risk appr merge where c: "chain = patch # seg @ [risk, appr, merge]"
    and t: "node_type patch = PATCH_GUARD" "node_type risk = RISK_CLASSIFIER" "node_type appr = APPROVAL"
      "node_type merge = MERGE_PATCH" and seg: "test_segment_ok s seg"
    using sc unfolding sealed_chain_def by blast
  from seg consider t where "seg = [t]" "node_type t = TEST"
    | "map node_type seg = concat (replicate (length seg div 2) [COMMAND_GUARD, TEST])"
    unfolding test_segment_ok_def by blast
  then have "set (map node_type seg) \<subseteq> {COMMAND_GUARD, TEST}"
  proof cases
    case 2
    show ?thesis unfolding 2 by auto
  qed simp
  then show "node_type (chain ! k) \<noteq> INPUT" using m t by (auto simp: c)
qed

lemma success_completed:
  "row_typed r \<Longrightarrow> nr_outcome r = Some NodeOutcome.SUCCESS \<or> nr_outcome r = Some NodeOutcome.APPROVED \<Longrightarrow>
     nr_status r = NodeRunStatus.COMPLETED"
  by (cases "nr_status r") (auto simp: row_typed_def split: if_splits)

lemma started_chain_node:
  assumes sc: "sealed_chain g s chain" and k: "k < length chain" and d: "distinct (map node_id (compiled_nodes g))"
    and j: "justified g rows" and t: "list_all row_typed rows"
    and r: "r \<in> set rows" "nr_node_id r = node_id (chain ! k)" "started r"
  shows "passed rows ((s # chain) ! k)"
proof -
  have "evidence g rows (node_id (chain ! k))" using j r unfolding justified_def by metis
  moreover have "n = chain ! k" if "n \<in> set (compiled_nodes g)" "node_id n = node_id (chain ! k)" for n
    using d that sealed_node(1) [OF sc k] by (auto simp: distinct_map inj_on_def)
  ultimately obtain e where e: "e \<in> set (compiled_edges g)" "to_node e = node_id (chain ! k)" "enabled_by rows e"
    using sealed_node(2) [OF sc k] unfolding evidence_def by metis
  obtain u where u: "u \<in> set rows" "nr_node_id u = from_node e"
    "edge_satisfied (condition e) (nr_status u) (nr_outcome u)"
    using e(3) by (auto simp: enabled_by_def)
  have src: "from_node e = node_id ((s # chain) ! k)" "condition e = happy_condition ((s # chain) ! k)"
    using sealed_entry(2) [OF sc k e(1,2)] by auto
  have "nr_outcome u = Some (if node_type ((s # chain) ! k) = APPROVAL then NodeOutcome.APPROVED
      else NodeOutcome.SUCCESS)"
    using u(3) by (auto simp: src(2) edge_satisfied_def happy_condition_def split: if_splits option.splits)
  moreover have "nr_status u = NodeRunStatus.COMPLETED"
    using success_completed [of u] t u(1) calculation by (auto simp: list_all_iff split: if_splits)
  ultimately show ?thesis using u(1,2) src(1) by (auto simp: passed_def list_ex_iff)
qed

lemma passed_started: "passed rows x \<Longrightarrow> \<exists>u \<in> set rows. nr_node_id u = node_id x \<and> started u"
  by (auto simp: passed_def list_ex_iff started_def)

lemma chain_passed:
  assumes sc: "sealed_chain g s chain" and d: "distinct (map node_id (compiled_nodes g))"
    and j: "justified g rows" and t: "list_all row_typed rows"
  shows "k < length chain \<Longrightarrow> r \<in> set rows \<Longrightarrow> nr_node_id r = node_id (chain ! k) \<Longrightarrow> started r \<Longrightarrow>
    \<forall>i \<le> k. passed rows ((s # chain) ! i)"
proof (induction k arbitrary: r)
  case 0
  then show ?case using started_chain_node [OF sc _ d j t] by force
next
  case (Suc k)
  have p: "passed rows ((s # chain) ! Suc k)" using started_chain_node [OF sc Suc.prems(1) d j t Suc.prems(2-4)] .
  then obtain u where "u \<in> set rows" "nr_node_id u = node_id (chain ! k)" "started u"
    using passed_started by fastforce
  then have "\<forall>i \<le> k. passed rows ((s # chain) ! i)" using Suc by simp
  then show ?case using p by (auto simp: le_Suc_eq)
qed

end
