(* ===== verification/Approval_Store.thy ===== *)
theory Approval_Store
  imports Run_Tasks Run_Create
begin

text \<open>
  The tables of \<open>storage/approval_repository.py\<close> and \<open>storage/change_set_repository.py\<close> beside those
  of the run: approvals, privilege requests, capability grants and security events, with the
  contracts of \<open>protocol/privilege.py\<close>. \<open>HubStore\<close> joins them to the \<open>RunStore\<close> of the same run; its
  column \<open>approval_status\<close>, which the run repository reads, is kept equal to the statuses of the
  approval rows.
\<close>

subsection \<open>Contracts\<close>

datatype ApprovalStatus = PENDING | APPROVED | REJECTED | EXPIRED | INVALIDATED

fun ApprovalStatus_value :: "ApprovalStatus \<Rightarrow> string" where
  "ApprovalStatus_value ApprovalStatus.PENDING = ''pending''"
| "ApprovalStatus_value ApprovalStatus.APPROVED = ''approved''"
| "ApprovalStatus_value ApprovalStatus.REJECTED = ''rejected''"
| "ApprovalStatus_value ApprovalStatus.EXPIRED = ''expired''"
| "ApprovalStatus_value ApprovalStatus.INVALIDATED = ''invalidated''"

datatype PrivilegeRequestStatus =
  PENDING | WAITING_APPROVAL | APPROVED | REJECTED | CONSUMED | EXPIRED | DENIED

fun PrivilegeRequestStatus_value :: "PrivilegeRequestStatus \<Rightarrow> string" where
  "PrivilegeRequestStatus_value PrivilegeRequestStatus.PENDING = ''pending''"
| "PrivilegeRequestStatus_value PrivilegeRequestStatus.WAITING_APPROVAL = ''waiting_approval''"
| "PrivilegeRequestStatus_value PrivilegeRequestStatus.APPROVED = ''approved''"
| "PrivilegeRequestStatus_value PrivilegeRequestStatus.REJECTED = ''rejected''"
| "PrivilegeRequestStatus_value PrivilegeRequestStatus.CONSUMED = ''consumed''"
| "PrivilegeRequestStatus_value PrivilegeRequestStatus.EXPIRED = ''expired''"
| "PrivilegeRequestStatus_value PrivilegeRequestStatus.DENIED = ''denied''"

datatype CapabilityType = MODIFY_DEPENDENCY | MODIFY_CONFIG

fun PrivilegeAction_value :: "PrivilegeAction \<Rightarrow> string" where
  "PrivilegeAction_value EDIT_DEPENDENCY_MANIFEST = ''edit_dependency_manifest''"
| "PrivilegeAction_value EDIT_PROJECT_CONFIG = ''edit_project_config''"

datatype Subject =
    ChangeSetSubject (subject_change_set: string) (subject_base: string) (subject_patch: string)
      \<comment> \<open>what \<open>ChangeSetApproval\<close> adds to \<open>ApprovalBase\<close>\<close>
  | PrivilegeSubject (subject_request: string) \<comment> \<open>what \<open>PrivilegeApproval\<close> adds\<close>

fun subject_type :: "Subject \<Rightarrow> string" where
  "subject_type (ChangeSetSubject _ _ _) = ''change_set''"
| "subject_type (PrivilegeSubject _) = ''privilege_request''"

record Approval =
  approval_id :: string
  approval_run_id :: string
  approval_node_run_id :: string
  subject_sha256 :: string
  evidence_sha256 :: string
  approval_risk :: RiskLevel
  approval_scope :: "string list"
  ap_status :: ApprovalStatus
  approval_version :: int
  approval_expires_at :: time
  subject :: Subject

record ApprovalRecord =
  approval :: Approval
  approval_created_at :: time
  decided_at :: "time option"
  decision_actor :: "string option"
  decision_idempotency_key :: "string option"
  decision_request_sha256 :: "string option"

record PrivilegeRequest =
  request_id :: string
  request_session_id :: string
  request_task_id :: string
  request_node_run_id :: string
  requested_capability :: CapabilityType
  requested_action :: PrivilegeAction
  requested_resource :: string
  request_risk :: RiskLevel
  request_status :: PrivilegeRequestStatus

record PrivilegeRow =
  request :: PrivilegeRequest \<comment> \<open>the table has no session: it is the one of the run\<close>
  request_seal :: json
  request_created_at :: time

record CapabilityGrant =
  grant_id :: string
  grant_request_id :: string
  grant_target_task_id :: string
  grant_action :: PrivilegeAction
  grant_resource :: string
  grant_expires_at :: time
  consumed_at :: "time option"
  consumed_fencing_token :: "int option"
  revoked_at :: "time option"
  revocation_reason :: "string option"

definition grant_invariants :: "CapabilityGrant \<Rightarrow> bool" where
  \<comment> \<open>\<open>_check_consume_revoke_invariants\<close>, also the \<open>CHECK\<close> constraints of the table\<close>
  "grant_invariants g \<longleftrightarrow>
     (consumed_at g = None) = (consumed_fencing_token g = None) \<and>
     (revoked_at g = None) = (revocation_reason g = None) \<and>
     (consumed_at g = None \<or> revoked_at g = None)"

record GrantRow =
  grant :: CapabilityGrant
  grant_seal :: json

datatype SecuritySeverity = INFO | WARNING | HIGH | CRITICAL

record SecurityEvent =
  security_task :: "string option"
  security_type :: string
  severity :: SecuritySeverity
  security_reason :: string

subsection \<open>The store\<close>

record HubStore =
  hub_run :: RunStore
  approvals :: "ApprovalRecord list" \<comment> \<open>in the order of insertion\<close>
  privilege_requests :: "PrivilegeRow list"
  capability_grants :: "GrantRow list"
  active_grant :: "string \<Rightarrow> string option" \<comment> \<open>\<open>tasks.active_capability_grant_id\<close>, by task\<close>
  node_change_set :: "string \<Rightarrow> string option" \<comment> \<open>\<open>node_runs.change_set_id\<close>, by node run\<close>
  security_events :: "SecurityEvent list"

abbreviation ap_id :: "ApprovalRecord \<Rightarrow> string" where
  "ap_id r \<equiv> approval_id (approval r)"

abbreviation is_pending :: "ApprovalRecord \<Rightarrow> bool" where
  "is_pending r \<equiv> ap_status (approval r) = ApprovalStatus.PENDING"

definition find_approval :: "HubStore \<Rightarrow> string \<Rightarrow> ApprovalRecord option" where
  "find_approval h i = find (\<lambda>r. ap_id r = i) (approvals h)"

definition find_request :: "HubStore \<Rightarrow> string \<Rightarrow> PrivilegeRow option" where
  "find_request h i = find (\<lambda>r. request_id (request r) = i) (privilege_requests h)"

definition statuses_of :: "ApprovalRecord list \<Rightarrow> string \<Rightarrow> string option" where
  "statuses_of rows i =
     map_option (\<lambda>r. ApprovalStatus_value (ap_status (approval r))) (find (\<lambda>r. ap_id r = i) rows)"

definition put_approvals :: "ApprovalRecord list \<Rightarrow> HubStore \<Rightarrow> HubStore" where
  "put_approvals rows h =
     h\<lparr>approvals := rows, hub_run := (hub_run h)\<lparr>approval_status := statuses_of rows\<rparr>\<rparr>"

definition put_change_sets :: "(ChangeSetRow \<Rightarrow> ChangeSetRow) \<Rightarrow> HubStore \<Rightarrow> HubStore" where
  "put_change_sets f h = h\<lparr>hub_run := (hub_run h)\<lparr>change_sets := map f (change_sets (hub_run h))\<rparr>\<rparr>"

definition put_requests :: "(PrivilegeRow \<Rightarrow> bool) \<Rightarrow> PrivilegeRequestStatus \<Rightarrow> HubStore \<Rightarrow> HubStore" where
  \<comment> \<open>\<open>UPDATE privilege_requests SET status = ? WHERE \<dots>\<close>\<close>
  "put_requests hit s h =
     h\<lparr>privilege_requests := map (\<lambda>r. if hit r then r\<lparr>request := (request r)\<lparr>request_status := s\<rparr>\<rparr> else r)
        (privilege_requests h)\<rparr>"

definition lift_run :: "HubStore \<Rightarrow> run_error + RunStore \<Rightarrow> run_error + HubStore" where
  \<comment> \<open>a statement of the run repository inside the same transaction\<close>
  "lift_run h m = and_then m (\<lambda>st. Inr (h\<lparr>hub_run := st\<rparr>))"

definition latest :: "('a \<Rightarrow> time) \<Rightarrow> 'a list \<Rightarrow> 'a option" where
  \<comment> \<open>\<open>ORDER BY created_at DESC LIMIT 1\<close>\<close>
  "latest created rows = find (\<lambda>r. list_all (\<lambda>q. created q \<le> created r) rows) rows"

definition node_run_of :: "HubStore \<Rightarrow> string \<Rightarrow> string option" where
  \<comment> \<open>\<open>SELECT workflow_run_id FROM node_runs WHERE id = ?\<close>\<close>
  "node_run_of h i = map_option (\<lambda>_. workflow_run_id (run (hub_run h))) (find_node_run (hub_run h) i)"

definition ended_or_cancelling :: "HubStore \<Rightarrow> bool" where
  \<comment> \<open>\<open>cancel_requested_at is not None or status in {\<dots>}\<close>; a blocked run is not among them\<close>
  "ended_or_cancelling h \<longleftrightarrow> cancelling (hub_run h) \<or>
     run_status (run (hub_run h)) \<in> {WorkflowRunStatus.CANCELLED, WorkflowRunStatus.COMPLETED,
       WorkflowRunStatus.FAILED, WorkflowRunStatus.ORPHANED}"

subsection \<open>Events\<close>

definition append_event :: "string \<Rightarrow> string option \<Rightarrow> RunEvent \<Rightarrow> HubStore \<Rightarrow> run_error + HubStore" where
  \<comment> \<open>the lookups of the run's session and workflow, then \<open>append_in\<close>; a payload's reason is bounded\<close>
  "append_event wid reason ev h =
     known_run (hub_run h) wid
       (if 1000 < length (opt_list reason) then Inl (PyError ValidationError)
        else Inr (h\<lparr>hub_run := emit ev (hub_run h)\<rparr>))"

definition append_approval_event ::
  "MasterLease \<Rightarrow> Approval \<Rightarrow> ApprovalStatus option \<Rightarrow> string option \<Rightarrow> HubStore \<Rightarrow> run_error + HubStore" where
  "append_approval_event lease a previous reason =
     append_event (approval_run_id a) reason
       (ApprovalStateChanged (fencing_token lease) (approval_node_run_id a) (approval_id a)
          (subject_type (subject a)) (map_option ApprovalStatus_value previous)
          (ApprovalStatus_value (ap_status a)) (approval_version a) (subject_sha256 a) reason)"

definition append_privilege_request_event ::
  "MasterLease \<Rightarrow> PrivilegeRequest \<Rightarrow> PrivilegeRequestStatus option \<Rightarrow> PrivilegeRequestStatus \<Rightarrow>
     string \<Rightarrow> HubStore \<Rightarrow> run_error + HubStore" where
  \<comment> \<open>\<open>workflow_run_id\<close> is that of the request's node, the run of the store\<close>
  "append_privilege_request_event lease q previous status reason h =
     append_event (workflow_run_id (run (hub_run h))) (Some reason)
       (PrivilegeRequestStateChanged (fencing_token lease) (request_node_run_id q) (request_task_id q)
          (request_id q) (map_option PrivilegeRequestStatus_value previous)
          (PrivilegeRequestStatus_value status) (Some reason)) h"

definition append_grant_event ::
  "MasterLease \<Rightarrow> string \<Rightarrow> CapabilityGrant \<Rightarrow> string \<Rightarrow> HubStore \<Rightarrow> run_error + HubStore" where
  "append_grant_event lease i g reason h =
     append_event (workflow_run_id (run (hub_run h))) (Some reason)
       (CapabilityGrantStateChanged (fencing_token lease) i (grant_request_id g) (grant_id g)
          (grant_target_task_id g) (PrivilegeAction_value (grant_action g)) (grant_resource g)
          (consumed_fencing_token g) reason) h"

subsection \<open>Frame conditions\<close>

lemma append_event_same:
  assumes "append_event wid reason ev h = Inr h'"
  shows "h' = h\<lparr>hub_run := emit ev (hub_run h)\<rparr>"
  using assms by (auto simp: append_event_def known_run_def split: if_splits)

lemmas append_events_def = append_approval_event_def append_privilege_request_event_def append_grant_event_def

lemma emit_simps [simp]:
  "run (emit ev st) = run st" "node_runs (emit ev st) = node_runs st" "tasks (emit ev st) = tasks st"
  "artifacts (emit ev st) = artifacts st" "change_sets (emit ev st) = change_sets st"
  "approval_status (emit ev st) = approval_status st" "master_leases (emit ev st) = master_leases st"
  "file_locks (emit ev st) = file_locks st" "session_status (emit ev st) = session_status st"
  "integration_head_commit (emit ev st) = integration_head_commit st"
  by (simp_all add: emit_def)

lemma put_simps [simp]:
  "approvals (put_approvals rows h) = rows" "privilege_requests (put_approvals rows h) = privilege_requests h"
  "capability_grants (put_approvals rows h) = capability_grants h" "active_grant (put_approvals rows h) = active_grant h"
  "change_sets (hub_run (put_approvals rows h)) = change_sets (hub_run h)"
  "run (hub_run (put_approvals rows h)) = run (hub_run h)"
  "node_runs (hub_run (put_approvals rows h)) = node_runs (hub_run h)"
  "tasks (hub_run (put_approvals rows h)) = tasks (hub_run h)"
  "approval_status (hub_run (put_approvals rows h)) = statuses_of rows"
  "approvals (put_change_sets f h) = approvals h" "privilege_requests (put_change_sets f h) = privilege_requests h"
  "capability_grants (put_change_sets f h) = capability_grants h" "active_grant (put_change_sets f h) = active_grant h"
  "change_sets (hub_run (put_change_sets f h)) = map f (change_sets (hub_run h))"
  "run (hub_run (put_change_sets f h)) = run (hub_run h)"
  "node_runs (hub_run (put_change_sets f h)) = node_runs (hub_run h)"
  "tasks (hub_run (put_change_sets f h)) = tasks (hub_run h)"
  "approval_status (hub_run (put_change_sets f h)) = approval_status (hub_run h)"
  "approvals (put_requests hit s h) = approvals h" "capability_grants (put_requests hit s h) = capability_grants h"
  "active_grant (put_requests hit s h) = active_grant h" "hub_run (put_requests hit s h) = hub_run h"
  by (simp_all add: put_approvals_def put_change_sets_def put_requests_def)

end
