(* ===== verification/Change_Sets.thy ===== *)
theory Change_Sets
  imports Approval_Store
begin

text \<open>
  \<open>storage/change_set_repository.py\<close>: the table of allowed transitions, the fenced compare-and-swap
  that follows it, and the transaction that stores a capture and ends its task. What was staged on
  disk, and the registration of its artifacts, is the component \<open>ArtifactRepository\<close>: here a
  function \<open>publish\<close> of the store. Cleaning up after a failed commit is not modelled.
\<close>

subsection \<open>Transitions\<close>

fun allowed_targets :: "ChangeSetStatus \<Rightarrow> ChangeSetStatus list" where
  \<comment> \<open>\<open>_TRANSITIONS.get(expected, frozenset())\<close>\<close>
  "allowed_targets ChangeSetStatus.CAPTURED =
     [ChangeSetStatus.GUARD_PASSED, ChangeSetStatus.GUARD_REJECTED, ChangeSetStatus.ABANDONED_PARTIAL,
      ChangeSetStatus.QUARANTINED, ChangeSetStatus.CANCELLED]"
| "allowed_targets ChangeSetStatus.GUARD_PASSED =
     [ChangeSetStatus.TEST_PASSED, ChangeSetStatus.TEST_FAILED, ChangeSetStatus.STALE,
      ChangeSetStatus.CANCELLED]"
| "allowed_targets ChangeSetStatus.TEST_PASSED =
     [ChangeSetStatus.PENDING_APPROVAL, ChangeSetStatus.POLICY_REJECTED, ChangeSetStatus.STALE,
      ChangeSetStatus.CANCELLED]"
| "allowed_targets ChangeSetStatus.PENDING_APPROVAL =
     [ChangeSetStatus.APPROVED, ChangeSetStatus.REJECTED, ChangeSetStatus.STALE, ChangeSetStatus.CANCELLED]"
| "allowed_targets ChangeSetStatus.APPROVED =
     [ChangeSetStatus.MERGED, ChangeSetStatus.STALE, ChangeSetStatus.CANCELLED]"
| "allowed_targets _ = []"

definition lock_valid :: "HubStore \<Rightarrow> WorkspaceLease \<Rightarrow> time \<Rightarrow> run_error option" where
  \<comment> \<open>\<open>LockManager.assert_valid_in\<close> for the session of the run\<close>
  "lock_valid h wl now =
     (if resource_key wl \<noteq> integration_resource (hub_run h) then Some (PyError ValueError)
      else if \<not> workspace_valid (hub_run h) wl now then Some (LeaseError LeaseLost) else None)"

definition change_set_event ::
  "MasterLease \<Rightarrow> WorkspaceLease option \<Rightarrow> string \<Rightarrow> ChangeSetRow \<Rightarrow> ChangeSetStatus option \<Rightarrow>
     ChangeSetStatus \<Rightarrow> string option \<Rightarrow> HubStore \<Rightarrow> run_error + HubStore" where
  "change_set_event lease wl node_run c previous status reason h =
     append_event (workflow_run_id (run (hub_run h))) reason
       (ChangeSetStateChanged (fencing_token lease) (map_option ws_fencing_token wl) node_run
          (change_set_task_id c) (change_set_id c) previous status (change_set_patch c) reason) h"

definition change_set_security_event ::
  "string \<Rightarrow> string \<Rightarrow> SecuritySeverity \<Rightarrow> HubStore \<Rightarrow> run_error + HubStore" where
  \<comment> \<open>\<open>_append_security_event_in\<close>: the payload asks for a reason of 1 to 1000 characters\<close>
  "change_set_security_event task reason sev h =
     (if reason = [] \<or> 1000 < length reason then Inl (PyError ValidationError)
      else Inr (h\<lparr>security_events := security_events h @
        [\<lparr>security_task = Some task, security_type = ''changeset.state_rejected'', severity = sev,
          security_reason = reason\<rparr>]\<rparr>))"

definition move_change_set ::
  "string \<Rightarrow> ChangeSetStatus \<Rightarrow> ChangeSetStatus \<Rightarrow> HubStore \<Rightarrow> run_error + HubStore" where
  \<comment> \<open>\<open>UPDATE change_sets SET status = ? WHERE id = ? AND status = ?\<close>, then \<open>if changed != 1\<close>\<close>
  "move_change_set c expected target h =
     (let hit = (\<lambda>x. change_set_id x = c \<and> change_set_status x = expected) in
      if length (filter hit (change_sets (hub_run h))) \<noteq> 1 then Inl ConcurrencyConflict
      else Inr (put_change_sets (\<lambda>x. if hit x then x\<lparr>change_set_status := target\<rparr> else x) h))"

definition transition ::
  "string \<Rightarrow> ChangeSetStatus \<Rightarrow> ChangeSetStatus \<Rightarrow> MasterLease \<Rightarrow> WorkspaceLease option \<Rightarrow> string option \<Rightarrow>
     SecuritySeverity option \<Rightarrow> time \<Rightarrow> HubStore \<Rightarrow> run_error + HubStore" where
  "transition c expected target lease wl reason sev now h =
     (if target \<notin> set (allowed_targets expected) then Inl (PyError ValueError)
      else if sev \<noteq> None \<and> opt_list reason = [] then Inl (PyError ValueError)
      else fenced (hub_run h) lease now
        (case find (\<lambda>x. change_set_id x = c) (change_sets (hub_run h)) of
           None \<Rightarrow> Inl RecordNotFound
         | Some row \<Rightarrow>
             (case find (\<lambda>t. task_id t = change_set_task_id row) (tasks (hub_run h)) of
                None \<Rightarrow> Inl RecordNotFound
              | Some t \<Rightarrow> with_node (hub_run h) (task_node_run_id t) (\<lambda>r.
                  case (case wl of None \<Rightarrow> None | Some l \<Rightarrow> lock_valid h l now) of
                    Some e \<Rightarrow> Inl e
                  | None \<Rightarrow>
                      and_then (move_change_set c expected target h) (\<lambda>h1.
                      and_then (change_set_event lease wl (node_run_id r) row (Some expected) target reason h1)
                        (\<lambda>h2. case sev of
                           None \<Rightarrow> Inr h2
                         | Some s \<Rightarrow> change_set_security_event (task_id t) (opt_list reason) s h2))))))"

subsection \<open>Storing a capture\<close>

record Capture =
  \<comment> \<open>what the transaction reads of \<open>CapturedWorkspaceChangeSet\<close>: the manifest's base commit and
      the stable identifier and digest computed from the patch\<close>
  capture_id :: string
  capture_base :: string
  capture_patch :: string

definition capture_request_problem ::
  "ChangeSetStatus \<Rightarrow> TaskStatus \<Rightarrow> string option \<Rightarrow> bool" where
  "capture_request_problem status target error \<longleftrightarrow>
     status \<notin> {ChangeSetStatus.CAPTURED, ChangeSetStatus.ABANDONED_PARTIAL} \<or>
     target \<in> {TaskStatus.PENDING, TaskStatus.RUNNING} \<or>
     (if target = TaskStatus.SUCCEEDED then status \<noteq> ChangeSetStatus.CAPTURED \<or> error \<noteq> None
      else status \<noteq> ChangeSetStatus.ABANDONED_PARTIAL \<or> opt_list error = [])"

definition lineage_problem ::
  "(string \<Rightarrow> string) \<Rightarrow> string \<Rightarrow> string \<Rightarrow> string \<Rightarrow> string \<Rightarrow> TaskRow \<Rightarrow> NodeRun \<Rightarrow> RunStore \<Rightarrow>
     run_error option" where
  \<comment> \<open>\<open>_validate_lineage\<close>; the stored snapshot is a compiled graph\<close>
  "lineage_problem H session wid i base t r st =
     (if run_session_id (run st) \<noteq> session \<or> workflow_run_id (run st) \<noteq> wid \<or> node_run_id r \<noteq> i \<or>
        base_commit_of t \<noteq> base \<or> current_commit (run st) \<noteq> base \<or> nr_node_type r \<noteq> AGENT_TASK \<or>
        task_status t \<noteq> TaskStatus.RUNNING \<or> nr_status r \<noteq> NodeRunStatus.RUNNING \<or>
        run_status (run st) \<noteq> WorkflowRunStatus.RUNNING
      then Some ChangeSetIntegrityError
      else if cancelling st then Some ConcurrencyConflict
      else if H (canonical_compiled (compiled_snapshot (run st))) \<noteq> compiled_snapshot_hash (run st)
      then Some ChangeSetIntegrityError
      else case find (\<lambda>n. node_id n = nr_node_id r) (compiled_nodes (compiled_snapshot (run st))) of
        None \<Rightarrow> Some ChangeSetIntegrityError
      | Some n \<Rightarrow> (if node_type n \<noteq> AGENT_TASK \<or> \<not> requires_write n then Some ChangeSetIntegrityError else None))"

definition insert_capture_in ::
  "Capture \<Rightarrow> string \<Rightarrow> string \<Rightarrow> ChangeSetStatus \<Rightarrow> string option \<Rightarrow> MasterLease \<Rightarrow> WorkspaceLease \<Rightarrow>
     HubStore \<Rightarrow> run_error + HubStore" where
  \<comment> \<open>\<open>id\<close> is the primary key, \<open>task_id\<close> unique; the node must not refer to a change set yet\<close>
  "insert_capture_in c task i status reason lease wl h =
     (let row = \<lparr>change_set_id = capture_id c, change_set_task_id = task, change_set_base = capture_base c,
            change_set_patch = capture_patch c, change_set_status = status\<rparr>
      in if list_ex (\<lambda>x. change_set_id x = capture_id c \<or> change_set_task_id x = task) (change_sets (hub_run h))
         then Inl IntegrityError
         else if node_change_set h i \<noteq> None then Inl ConcurrencyConflict
         else and_then
           (change_set_event lease (Some wl) i row None status reason
             (h\<lparr>hub_run := (hub_run h)\<lparr>change_sets := change_sets (hub_run h) @ [row]\<rparr>,
                node_change_set := (node_change_set h)(i \<mapsto> capture_id c)\<rparr>))
           (\<lambda>h1. if status \<noteq> ChangeSetStatus.ABANDONED_PARTIAL then Inr h1
              else change_set_security_event task
                (if opt_list reason = [] then ''AgentTask failed after modifying the workspace'' else opt_list reason)
                HIGH h1))"

definition persist_capture ::
  "(HubStore \<Rightarrow> run_error + HubStore) \<Rightarrow> (string \<Rightarrow> string) \<Rightarrow> string \<Rightarrow> string \<Rightarrow> string \<Rightarrow> string \<Rightarrow> Capture \<Rightarrow>
     MasterLease \<Rightarrow> WorkspaceLease \<Rightarrow> TaskStatus \<Rightarrow> string option \<Rightarrow> ChangeSetStatus \<Rightarrow> string option \<Rightarrow> time \<Rightarrow>
     HubStore \<Rightarrow> run_error + HubStore" where
  "persist_capture publish H session wid i task c lease wl target error status reason now h =
     (if capture_request_problem status target error then Inl (PyError ValueError)
      else fenced (hub_run h) lease now
        (case (if resource_key wl \<noteq> ''session:'' @ session @ '':integration'' then Some (PyError ValueError)
               else if \<not> workspace_valid (hub_run h) wl now then Some (LeaseError LeaseLost)
               else if owner_kind wl \<noteq> ''agent_task'' \<or> owner_operation_id wl \<noteq> task
               then Some ChangeSetIntegrityError else None) of
           Some e \<Rightarrow> Inl e
         | None \<Rightarrow>
             (case find (\<lambda>t. task_id t = task) (tasks (hub_run h)) of
                None \<Rightarrow> Inl RecordNotFound
              | Some t \<Rightarrow> with_node (hub_run h) (task_node_run_id t) (\<lambda>r.
                  case lineage_problem H session wid i (capture_base c) t r (hub_run h) of
                    Some e \<Rightarrow> Inl e
                  | None \<Rightarrow>
                      (if list_ex (\<lambda>x. change_set_task_id x = task) (change_sets (hub_run h))
                       then Inl ConcurrencyConflict
                       else and_then (publish h) (\<lambda>h1.
                         and_then (insert_capture_in c task i status reason lease wl h1) (\<lambda>h2.
                         lift_run h2 (and_then
                           (update_task task [TaskStatus.RUNNING]
                             (\<lambda>q. q\<lparr>task_status := target, task_finished_at := Some now\<rparr>) (hub_run h2))
                           (\<lambda>st. Inr (append_task_state lease (Some (ws_fencing_token wl)) i task
                              (Some TaskStatus.RUNNING) target error st))))))))))"

subsection \<open>The state machine of a change set\<close>

definition TERMINAL :: "ChangeSetStatus list" where
  "TERMINAL = filter (\<lambda>s. allowed_targets s = [])
     [ChangeSetStatus.CAPTURED, ChangeSetStatus.GUARD_PASSED, ChangeSetStatus.GUARD_REJECTED,
      ChangeSetStatus.TEST_PASSED, ChangeSetStatus.TEST_FAILED, ChangeSetStatus.POLICY_REJECTED,
      ChangeSetStatus.PENDING_APPROVAL, ChangeSetStatus.APPROVED, ChangeSetStatus.REJECTED,
      ChangeSetStatus.CANCELLED, ChangeSetStatus.STALE, ChangeSetStatus.MERGED,
      ChangeSetStatus.ABANDONED_PARTIAL, ChangeSetStatus.QUARANTINED]"

end
