(* ===== verification/Auth_Machine.thy ===== *)
theory Auth_Machine
  imports Change_Sets
begin

text \<open>
  The specification of approvals and change sets together: a step relation on their two tables.
  Its invariants say what an approved or merged change set stands for; \<open>Hub_Steps\<close> proves that the
  operations of the repositories are sequences of these steps.
\<close>

subsection \<open>Moves\<close>

definition decide_row :: "ApprovalStatus \<Rightarrow> string \<Rightarrow> string \<Rightarrow> string \<Rightarrow> time \<Rightarrow> ApprovalRecord \<Rightarrow> ApprovalRecord" where
  "decide_row s actor key sha now r =
     r\<lparr>approval := (approval r)\<lparr>ap_status := s, approval_version := approval_version (approval r) + 1\<rparr>,
       decided_at := Some now, decision_actor := Some actor, decision_idempotency_key := Some key,
       decision_request_sha256 := Some sha\<rparr>"

definition lapse_row :: "ApprovalStatus \<Rightarrow> time \<Rightarrow> ApprovalRecord \<Rightarrow> ApprovalRecord" where
  "lapse_row s now r =
     r\<lparr>approval := (approval r)\<lparr>ap_status := s, approval_version := approval_version (approval r) + 1\<rparr>,
       decided_at := Some now\<rparr>"

definition on_row :: "string \<Rightarrow> (ApprovalRecord \<Rightarrow> ApprovalRecord) \<Rightarrow> ApprovalRecord list \<Rightarrow> ApprovalRecord list" where
  "on_row i f = map (\<lambda>x. if ap_id x = i then f x else x)"

definition move_rows ::
  "string \<Rightarrow> ChangeSetStatus \<Rightarrow> ChangeSetStatus \<Rightarrow> ChangeSetRow list \<Rightarrow> ChangeSetRow list" where
  "move_rows c a b = map (\<lambda>x. if change_set_id x = c \<and> change_set_status x = a then x\<lparr>change_set_status := b\<rparr> else x)"

definition change_set_key :: "ChangeSetRow \<Rightarrow> string \<times> string \<times> string" where
  "change_set_key x = (change_set_id x, change_set_base x, change_set_patch x)"

definition identifies :: "Subject \<Rightarrow> ChangeSetRow list \<Rightarrow> bool" where
  \<comment> \<open>the subject of an approval is a change set of the table, its base commit and its patch\<close>
  "identifies s css \<longleftrightarrow>
     (case s of
        PrivilegeSubject _ \<Rightarrow> True
      | ChangeSetSubject c b p \<Rightarrow> (c, b, p) \<in> set (map change_set_key css))"

definition asked :: "ApprovalRecord \<Rightarrow> bool" where
  \<comment> \<open>a new row\<close>
  "asked r \<longleftrightarrow> is_pending r \<and> approval_version (approval r) = 1 \<and> decided_at r = None \<and>
     approval_risk (approval r) \<noteq> L4"

inductive auth_move ::
  "ApprovalRecord list \<times> ChangeSetRow list \<Rightarrow> ApprovalRecord list \<times> ChangeSetRow list \<Rightarrow> bool" where
  ask: "asked r \<Longrightarrow> ap_id r \<notin> ap_id ` set as \<Longrightarrow> identifies (subject (approval r)) css \<Longrightarrow>
    subject (approval r) = ChangeSetSubject c b p \<Longrightarrow>
    auth_move (as, css) (as @ [r], css)"
| approve: "r \<in> set as \<Longrightarrow> is_pending r \<Longrightarrow> now < approval_expires_at (approval r) \<Longrightarrow>
    subject (approval r) = ChangeSetSubject c b p \<Longrightarrow>
    auth_move (as, css) (on_row (ap_id r) (decide_row ApprovalStatus.APPROVED actor key sha now) as,
      move_rows c ChangeSetStatus.PENDING_APPROVAL ChangeSetStatus.APPROVED css)"
| grant: "r \<in> set as \<Longrightarrow> is_pending r \<Longrightarrow> now < approval_expires_at (approval r) \<Longrightarrow>
    subject (approval r) = PrivilegeSubject rid \<Longrightarrow>
    auth_move (as, css) (on_row (ap_id r) (decide_row ApprovalStatus.APPROVED actor key sha now) as, css)"
| reject: "r \<in> set as \<Longrightarrow> is_pending r \<Longrightarrow> now < approval_expires_at (approval r) \<Longrightarrow>
    auth_move (as, css) (on_row (ap_id r) (decide_row ApprovalStatus.REJECTED actor key sha now) as, css)"
| lapse: "r \<in> set as \<Longrightarrow> is_pending r \<Longrightarrow> s \<in> {ApprovalStatus.EXPIRED, ApprovalStatus.INVALIDATED} \<Longrightarrow>
    auth_move (as, css) (on_row (ap_id r) (lapse_row s now) as, css)"
| backfill: "r \<in> set as \<Longrightarrow> \<not> is_pending r \<Longrightarrow> decision_request_sha256 r = None \<Longrightarrow>
    auth_move (as, css) (on_row (ap_id r) (\<lambda>x. x\<lparr>decision_request_sha256 := Some sha\<rparr>) as, css)"
| capture: "change_set_id c \<notin> change_set_id ` set css \<Longrightarrow>
    change_set_status c \<in> {ChangeSetStatus.CAPTURED, ChangeSetStatus.ABANDONED_PARTIAL} \<Longrightarrow>
    auth_move (as, css) (as, css @ [c])"
| move: "b \<in> set (allowed_targets a) \<Longrightarrow> b \<notin> {ChangeSetStatus.APPROVED, ChangeSetStatus.MERGED} \<Longrightarrow>
    auth_move (as, css) (as, move_rows c a b css)"
| merge: "auth_move (as, css) (as, move_rows c ChangeSetStatus.APPROVED ChangeSetStatus.MERGED css)"

inductive_cases auth_moveE: "auth_move (as, css) (as', css')"

subsection \<open>Rows keep their identity\<close>

lemma on_row_ids [simp]: "(\<And>x. ap_id (f x) = ap_id x) \<Longrightarrow> map ap_id (on_row i f as) = map ap_id as"
  by (simp add: on_row_def)

lemma decided_rows [simp]:
  "ap_id (decide_row s actor key sha now r) = ap_id r"
  "ap_id (lapse_row s now r) = ap_id r"
  "ap_status (approval (decide_row s actor key sha now r)) = s"
  "ap_status (approval (lapse_row s now r)) = s"
  "approval_version (approval (decide_row s actor key sha now r)) = approval_version (approval r) + 1"
  "approval_version (approval (lapse_row s now r)) = approval_version (approval r) + 1"
  "subject (approval (decide_row s actor key sha now r)) = subject (approval r)"
  "subject (approval (lapse_row s now r)) = subject (approval r)"
  by (simp_all add: decide_row_def lapse_row_def)

lemma move_rows_simps [simp]:
  "map change_set_id (move_rows c a b css) = map change_set_id css"
  "map change_set_key (move_rows c a b css) = map change_set_key css"
  "identifies s (move_rows c a b css) = identifies s css"
proof -
  show k: "map change_set_key (move_rows c a b css) = map change_set_key css"
    by (simp add: move_rows_def change_set_key_def)
  show "identifies s (move_rows c a b css) = identifies s css" unfolding identifies_def k ..
qed (simp add: move_rows_def)

definition auth_wf :: "ApprovalRecord list \<times> ChangeSetRow list \<Rightarrow> bool" where
  "auth_wf x \<longleftrightarrow> distinct (map ap_id (fst x)) \<and> distinct (map change_set_id (snd x))"

lemma auth_move_wf: "auth_move x y \<Longrightarrow> auth_wf x \<Longrightarrow> auth_wf y"
  by (induction rule: auth_move.induct) (auto simp: auth_wf_def)

lemma auth_moves_wf: "auth_move\<^sup>*\<^sup>* x y \<Longrightarrow> auth_wf x \<Longrightarrow> auth_wf y"
  by (induction rule: rtranclp_induct) (auto dest: auth_move_wf)

subsection \<open>Decisions\<close>

definition same_identity :: "ApprovalRecord \<Rightarrow> ApprovalRecord \<Rightarrow> bool" where
  \<comment> \<open>everything but the decision\<close>
  "same_identity r r' \<longleftrightarrow>
     approval r' = (approval r)\<lparr>ap_status := ap_status (approval r'), approval_version := approval_version (approval r')\<rparr> \<and>
     approval_created_at r' = approval_created_at r"

definition succeeds :: "ApprovalRecord \<Rightarrow> ApprovalRecord \<Rightarrow> bool" where
  \<comment> \<open>what may become of a row: its identity stays, its version never decreases, and once it is
      decided only a missing request hash is added\<close>
  "succeeds r r' \<longleftrightarrow> same_identity r r' \<and> approval_version (approval r) \<le> approval_version (approval r') \<and>
     (is_pending r' \<longrightarrow> r' = r) \<and>
     (\<not> is_pending r \<longrightarrow> r' = r \<or> decision_request_sha256 r = None \<and>
       r'\<lparr>decision_request_sha256 := decision_request_sha256 r\<rparr> = r)"

lemma succeeds_refl: "succeeds r r"
  by (simp add: succeeds_def same_identity_def)

lemma twice_updated:
  "a' = a\<lparr>ap_status := x, approval_version := y\<rparr> \<Longrightarrow> a'' = a'\<lparr>ap_status := x', approval_version := y'\<rparr> \<Longrightarrow>
     a'' = a\<lparr>ap_status := x', approval_version := y'\<rparr>" for a :: Approval
  by simp

lemma succeeds_trans:
  assumes "succeeds r r'" and "succeeds r' r''"
  shows "succeeds r r''"
proof -
  have "approval r'' = (approval r)\<lparr>ap_status := ap_status (approval r''),
      approval_version := approval_version (approval r'')\<rparr>"
  proof (rule twice_updated)
    show "approval r' = (approval r)\<lparr>ap_status := ap_status (approval r'),
        approval_version := approval_version (approval r')\<rparr>"
      using assms(1) unfolding succeeds_def same_identity_def by blast
    show "approval r'' = (approval r')\<lparr>ap_status := ap_status (approval r''),
        approval_version := approval_version (approval r'')\<rparr>"
      using assms(2) unfolding succeeds_def same_identity_def by blast
  qed
  moreover have "r'' = r \<or> decision_request_sha256 r = None \<and>
      r''\<lparr>decision_request_sha256 := decision_request_sha256 r\<rparr> = r" if "\<not> is_pending r"
  proof -
    have a: "r' = r \<or> decision_request_sha256 r = None \<and> r'\<lparr>decision_request_sha256 := decision_request_sha256 r\<rparr> = r"
      using assms(1) that by (simp add: succeeds_def)
    then have "approval r' = approval r" by (metis ApprovalRecord.select_convs(1) ApprovalRecord.surjective
        ApprovalRecord.update_convs(6))
    then have b: "r'' = r' \<or> decision_request_sha256 r' = None \<and>
        r''\<lparr>decision_request_sha256 := decision_request_sha256 r'\<rparr> = r'"
      using assms(2) that by (simp add: succeeds_def)
    have "r''\<lparr>decision_request_sha256 := decision_request_sha256 r\<rparr> =
        r''\<lparr>decision_request_sha256 := decision_request_sha256 r'\<rparr>\<lparr>decision_request_sha256 := decision_request_sha256 r\<rparr>"
      by simp
    then show ?thesis using a b by metis
  qed
  moreover have "approval_created_at r'' = approval_created_at r"
    "approval_version (approval r) \<le> approval_version (approval r'')" "is_pending r'' \<longrightarrow> r'' = r"
    using assms by (simp_all add: succeeds_def same_identity_def)
  ultimately show ?thesis unfolding succeeds_def same_identity_def by simp
qed

lemma succeeds_decided:
  "is_pending r \<Longrightarrow> s \<noteq> ApprovalStatus.PENDING \<Longrightarrow> succeeds r (decide_row s actor key sha now r)"
  "is_pending r \<Longrightarrow> s \<noteq> ApprovalStatus.PENDING \<Longrightarrow> succeeds r (lapse_row s now r)"
  "\<not> is_pending r \<Longrightarrow> decision_request_sha256 r = None \<Longrightarrow> succeeds r (r\<lparr>decision_request_sha256 := x\<rparr>)"
  by (simp_all add: succeeds_def same_identity_def decide_row_def lapse_row_def)

lemma on_row_succeeds:
  assumes "distinct (map ap_id as)" and "r \<in> set as" and "succeeds r (f r)"
  shows "list_all2 succeeds as (on_row (ap_id r) f as)"
proof -
  have "x = r" if "x \<in> set as" "ap_id x = ap_id r" for x
    using assms(1,2) that by (auto simp: distinct_map dest: inj_onD)
  then have "succeeds x (if ap_id x = ap_id r then f x else x)" if "x \<in> set as" for x
    using assms(3) that by (auto simp: succeeds_refl)
  then show ?thesis by (simp add: on_row_def list_all2_conv_all_nth)
qed

lemma auth_kept: "\<exists>as'. (\<exists>new. as = as' @ new) \<and> list_all2 succeeds as as'"
  by (intro exI [of _ as] conjI exI [of _ "[]"]) (simp_all add: list.rel_refl succeeds_refl)

lemma auth_move_succeeds:
  "auth_move x y \<Longrightarrow> auth_wf x \<Longrightarrow> \<exists>as new. fst y = as @ new \<and> list_all2 succeeds (fst x) as"
proof (induction rule: auth_move.induct)
  case (ask r as css c b p)
  have "list_all2 succeeds as as" by (simp add: list.rel_refl succeeds_refl)
  then show ?case by auto
next
  case (approve r as now c b p css actor key sha)
  then have "list_all2 succeeds as (on_row (ap_id r) (decide_row ApprovalStatus.APPROVED actor key sha now) as)"
    by (intro on_row_succeeds succeeds_decided) (auto simp: auth_wf_def)
  then show ?case by (intro exI [of _ "[]"] exI) auto
next
  case (grant r as now rid css actor key sha)
  then have "list_all2 succeeds as (on_row (ap_id r) (decide_row ApprovalStatus.APPROVED actor key sha now) as)"
    by (intro on_row_succeeds succeeds_decided) (auto simp: auth_wf_def)
  then show ?case by (intro exI [of _ "[]"] exI) auto
next
  case (reject r as now css actor key sha)
  then have "list_all2 succeeds as (on_row (ap_id r) (decide_row ApprovalStatus.REJECTED actor key sha now) as)"
    by (intro on_row_succeeds succeeds_decided) (auto simp: auth_wf_def)
  then show ?case by (intro exI [of _ "[]"] exI) auto
next
  case (lapse r as s css now)
  then have "list_all2 succeeds as (on_row (ap_id r) (lapse_row s now) as)"
    by (intro on_row_succeeds succeeds_decided) (auto simp: auth_wf_def)
  then show ?case by (intro exI [of _ "[]"] exI) auto
next
  case (backfill r as css sha)
  then have "list_all2 succeeds as (on_row (ap_id r) (\<lambda>x. x\<lparr>decision_request_sha256 := Some sha\<rparr>) as)"
    by (intro on_row_succeeds succeeds_decided) (auto simp: auth_wf_def)
  then show ?case by (intro exI [of _ "[]"] exI) auto
qed (simp_all add: auth_kept)

lemma auth_moves_succeed:
  assumes "auth_move\<^sup>*\<^sup>* x y" and "auth_wf x" and "r \<in> set (fst x)"
  shows "\<exists>r' \<in> set (fst y). succeeds r r'"
  using assms
proof (induction rule: rtranclp_induct)
  case base
  then show ?case using succeeds_refl by blast
next
  case (step y z)
  then obtain r1 where r1: "r1 \<in> set (fst y)" "succeeds r r1" by blast
  obtain as new where z: "fst z = as @ new" "list_all2 succeeds (fst y) as"
    using auth_move_succeeds [OF step.hyps(2) auth_moves_wf [OF step.hyps(1) step.prems(1)]] by blast
  then obtain r2 where "r2 \<in> set as" "succeeds r1 r2"
    using r1(1) by (metis in_set_conv_nth list_all2_conv_all_nth)
  then show ?case using z(1) succeeds_trans [OF r1(2)] by auto
qed

subsection \<open>What a decision needs\<close>

definition row_sound :: "ApprovalRecord \<Rightarrow> bool" where
  \<comment> \<open>a pending row is at its first version, a decided one at its second, and who decided it did so
      before it expired; no row is about a change of the highest risk\<close>
  "row_sound r \<longleftrightarrow> approval_risk (approval r) \<noteq> L4 \<and>
     (if is_pending r then approval_version (approval r) = 1 \<and> decided_at r = None
      else approval_version (approval r) = 2 \<and> decided_at r \<noteq> None) \<and>
     (ap_status (approval r) \<in> {ApprovalStatus.APPROVED, ApprovalStatus.REJECTED} \<longrightarrow>
        (\<exists>t. decided_at r = Some t \<and> t < approval_expires_at (approval r)) \<and>
        decision_actor r \<noteq> None \<and> decision_idempotency_key r \<noteq> None)"

definition approval_for :: "ApprovalRecord list \<Rightarrow> ChangeSetRow \<Rightarrow> ApprovalRecord option" where
  \<comment> \<open>an approval of exactly this change set\<close>
  "approval_for as c =
     find (\<lambda>r. ap_status (approval r) = ApprovalStatus.APPROVED \<and>
       subject (approval r) = ChangeSetSubject (change_set_id c) (change_set_base c) (change_set_patch c)) as"

definition auth_inv :: "ApprovalRecord list \<times> ChangeSetRow list \<Rightarrow> bool" where
  "auth_inv x \<longleftrightarrow> auth_wf x \<and> list_all row_sound (fst x) \<and>
     list_all (\<lambda>r. identifies (subject (approval r)) (snd x)) (fst x) \<and>
     list_all (\<lambda>c. change_set_status c \<in> {ChangeSetStatus.APPROVED, ChangeSetStatus.MERGED} \<longrightarrow>
       approval_for (fst x) c \<noteq> None) (snd x)"

lemma approval_for_iff:
  "approval_for as c \<noteq> None \<longleftrightarrow> (\<exists>r \<in> set as. ap_status (approval r) = ApprovalStatus.APPROVED \<and>
     subject (approval r) = ChangeSetSubject (change_set_id c) (change_set_base c) (change_set_patch c))"
  by (simp add: approval_for_def find_None_iff del: not_None_eq) blast

lemma same_id_row:
  "distinct (map ap_id as) \<Longrightarrow> r \<in> set as \<Longrightarrow> x \<in> set as \<Longrightarrow> ap_id x = ap_id r \<Longrightarrow> x = r"
  by (auto simp: distinct_map dest: inj_onD)

lemma approval_for_mono: "set as \<subseteq> set bs \<Longrightarrow> approval_for as c \<noteq> None \<Longrightarrow> approval_for bs c \<noteq> None"
  unfolding approval_for_iff by blast

lemma approval_for_row:
  assumes "r \<in> set as" "is_pending r" "distinct (map ap_id as)" "approval_for as c \<noteq> None"
    and "\<And>x. subject (approval (f x)) = subject (approval x)"
  shows "approval_for (on_row (ap_id r) f as) c \<noteq> None"
proof -
  obtain q where q: "q \<in> set as" "ap_status (approval q) = ApprovalStatus.APPROVED"
    "subject (approval q) = ChangeSetSubject (change_set_id c) (change_set_base c) (change_set_patch c)"
    using assms(4) unfolding approval_for_iff by blast
  then have "ap_id q \<noteq> ap_id r" using same_id_row [OF assms(3,1) q(1)] assms(2) by auto
  then have "q \<in> set (on_row (ap_id r) f as)" 
    using q(1) unfolding on_row_def set_map by (intro image_eqI [of _ _ q]) simp_all
  then show ?thesis using q unfolding approval_for_iff by blast
qed

lemma on_row_all:
  assumes "list_all P as" and "\<And>x. x \<in> set as \<Longrightarrow> ap_id x = i \<Longrightarrow> P x \<Longrightarrow> P (f x)"
  shows "list_all P (on_row i f as)"
  using assms by (auto simp: on_row_def list_all_iff)

lemma decide_row_inv:
  assumes "auth_inv (as, css)" and "r \<in> set as" "is_pending r"
    and "f r = decide_row s actor key sha now r \<and> s \<in> {ApprovalStatus.APPROVED, ApprovalStatus.REJECTED} \<and>
           now < approval_expires_at (approval r) \<or>
         f r = lapse_row s now r \<and> s \<in> {ApprovalStatus.EXPIRED, ApprovalStatus.INVALIDATED}"
    and "\<And>x. ap_id (f x) = ap_id x" and "\<And>x. subject (approval (f x)) = subject (approval x)"
  shows "auth_inv (on_row (ap_id r) f as, css)"
proof -
  have d: "distinct (map ap_id as)" using assms(1) by (simp add: auth_inv_def auth_wf_def)
  have "row_sound (f r)" if "row_sound r"
    using that assms(3,4) by (auto simp: row_sound_def decide_row_def lapse_row_def)
  then have "list_all row_sound (on_row (ap_id r) f as)"
    using assms(1) same_id_row [OF d assms(2)] by (intro on_row_all) (auto simp: auth_inv_def)
  moreover have "list_all (\<lambda>r. identifies (subject (approval r)) css) (on_row (ap_id r) f as)"
    using assms(1,6) by (intro on_row_all) (auto simp: auth_inv_def)
  moreover have "auth_wf (on_row (ap_id r) f as, css)" using assms(1,5) by (simp add: auth_inv_def auth_wf_def)
  moreover have "list_all (\<lambda>c. change_set_status c \<in> {ChangeSetStatus.APPROVED, ChangeSetStatus.MERGED} \<longrightarrow>
       approval_for (on_row (ap_id r) f as) c \<noteq> None) css"
    using assms(1) approval_for_row [OF assms(2,3) d _ assms(6)] by (auto simp: auth_inv_def list_all_iff)
  ultimately show ?thesis by (simp add: auth_inv_def)
qed

lemma move_rows_inv:
  assumes "auth_inv (as, css)"
    and "\<And>x. x \<in> set css \<Longrightarrow> change_set_id x = c \<Longrightarrow> change_set_status x = a \<Longrightarrow>
      b \<in> {ChangeSetStatus.APPROVED, ChangeSetStatus.MERGED} \<Longrightarrow> approval_for as x \<noteq> None"
  shows "auth_inv (as, move_rows c a b css)"
proof -
  have "approval_for as (x\<lparr>change_set_status := b\<rparr>) = approval_for as x" for x
    by (simp add: approval_for_def)
  then have "list_all (\<lambda>c. change_set_status c \<in> {ChangeSetStatus.APPROVED, ChangeSetStatus.MERGED} \<longrightarrow>
       approval_for as c \<noteq> None) (move_rows c a b css)"
    using assms by (auto simp: auth_inv_def list_all_iff move_rows_def)
  then show ?thesis using assms(1) by (simp add: auth_inv_def auth_wf_def)
qed

lemma auth_move_inv: "auth_move x y \<Longrightarrow> auth_inv x \<Longrightarrow> auth_inv y"
proof (induction rule: auth_move.induct)
  case (ask r as css c b p)
  then have "row_sound r" by (simp add: asked_def row_sound_def)
  moreover have "set as \<subseteq> set (as @ [r])" by auto
  ultimately show ?case
    using ask approval_for_mono [of as "as @ [r]"] unfolding auth_inv_def
    by (simp add: auth_wf_def list_all_iff del: not_None_eq)
next
  case (approve r as now c b p css actor key sha)
  let ?as = "on_row (ap_id r) (decide_row ApprovalStatus.APPROVED actor key sha now) as"
  have inv: "auth_inv (?as, css)" using approve by (intro decide_row_inv) auto
  have "approval_for ?as x \<noteq> None" if x: "x \<in> set css" "change_set_id x = c" for x
  proof -
    have "distinct (map change_set_id css)" and "identifies (subject (approval r)) css"
      using approve.prems approve.hyps(1) by (auto simp: auth_inv_def auth_wf_def list_all_iff)
    then have "change_set_base x = b" "change_set_patch x = p"
      using x approve.hyps(4)
      by (auto simp: identifies_def change_set_key_def distinct_map dest: inj_onD)
    moreover have "decide_row ApprovalStatus.APPROVED actor key sha now r \<in> set ?as"
      using approve.hyps(1) by (auto simp: on_row_def)
    ultimately show ?thesis using x(2) approve.hyps(4) unfolding approval_for_iff
      by (intro bexI [of _ "decide_row ApprovalStatus.APPROVED actor key sha now r"]) simp_all
  qed
  then show ?case using inv by (intro move_rows_inv) auto
next
  case (grant r as now rid css actor key sha)
  then show ?case by (intro decide_row_inv) auto
next
  case (reject r as now css actor key sha)
  then show ?case by (intro decide_row_inv) auto
next
  case (lapse r as s css now)
  then show ?case by (intro decide_row_inv [where s = s and now = now]) simp_all
next
  case (backfill r as css sha)
  have "auth_wf (on_row (ap_id r) (\<lambda>x. x\<lparr>decision_request_sha256 := Some sha\<rparr>) as, css)"
    using backfill by (simp add: auth_inv_def auth_wf_def)
  moreover have "approval_for (on_row (ap_id r) (\<lambda>x. x\<lparr>decision_request_sha256 := Some sha\<rparr>) as) c \<noteq> None"
    if some: "approval_for as c \<noteq> None" for c
  proof -
    obtain q where q: "q \<in> set as" "ap_status (approval q) = ApprovalStatus.APPROVED"
      "subject (approval q) = ChangeSetSubject (change_set_id c) (change_set_base c) (change_set_patch c)"
      using some unfolding approval_for_iff by blast
    let ?q = "if ap_id q = ap_id r then q\<lparr>decision_request_sha256 := Some sha\<rparr> else q"
    have "?q \<in> set (on_row (ap_id r) (\<lambda>x. x\<lparr>decision_request_sha256 := Some sha\<rparr>) as)"
      using q(1) unfolding on_row_def set_map by (rule rev_image_eqI) simp
    then show ?thesis using q(2,3) unfolding approval_for_iff by (intro bexI [of _ ?q]) simp_all
  qed
  ultimately show ?case
    using backfill.prems by (auto simp: auth_inv_def row_sound_def list_all_iff on_row_def)
next
  case (capture c css as)
  then show ?case by (auto simp: auth_inv_def auth_wf_def list_all_iff identifies_def split: Subject.splits)
next
  case (move b a as css c)
  then show ?case by (intro move_rows_inv) auto
next
  case (merge as css c)
  then show ?case by (intro move_rows_inv) (auto simp: auth_inv_def list_all_iff)
qed

lemma auth_moves_inv: "auth_move\<^sup>*\<^sup>* x y \<Longrightarrow> auth_inv x \<Longrightarrow> auth_inv y"
  by (induction rule: rtranclp_induct) (auto dest: auth_move_inv)

definition for_change_set :: "ApprovalRecord \<Rightarrow> bool" where
  "for_change_set r \<longleftrightarrow> (case subject (approval r) of ChangeSetSubject _ _ _ \<Rightarrow> True | PrivilegeSubject _ \<Rightarrow> False)"

lemma auth_move_kind: "auth_move x y \<Longrightarrow> list_all for_change_set (fst x) \<Longrightarrow> list_all for_change_set (fst y)"
proof (induction rule: auth_move.induct)
  case (ask r as css c b p)
  then show ?case by (simp add: for_change_set_def)
qed (auto simp: for_change_set_def intro!: on_row_all)

lemma auth_moves_kind: "auth_move\<^sup>*\<^sup>* x y \<Longrightarrow> list_all for_change_set (fst x) \<Longrightarrow> list_all for_change_set (fst y)"
  by (induction rule: rtranclp_induct) (auto dest: auth_move_kind)

subsection \<open>Change sets follow the table\<close>

definition reaches :: "ChangeSetStatus \<Rightarrow> ChangeSetStatus \<Rightarrow> bool" where
  "reaches = (\<lambda>a b. b \<in> set (allowed_targets a))\<^sup>*\<^sup>*"

lemma auth_move_follows:
  assumes "auth_move x y" and "c \<in> set (snd x)"
  shows "\<exists>c' \<in> set (snd y). change_set_key c' = change_set_key c \<and>
    change_set_task_id c' = change_set_task_id c \<and>
    (change_set_status c' = change_set_status c \<or> change_set_status c' \<in> set (allowed_targets (change_set_status c)))"
proof -
  have moved: "?thesis" if "snd y = move_rows i a b (snd x)" "b \<in> set (allowed_targets a)" for i a b
  proof -
    let ?c = "if change_set_id c = i \<and> change_set_status c = a then c\<lparr>change_set_status := b\<rparr> else c"
    have "?c \<in> set (snd y)" using assms(2) that(1) by (auto simp: move_rows_def)
    then show ?thesis using that(2) by (intro bexI [of _ ?c]) (auto simp: change_set_key_def)
  qed
  have stay: "?thesis" if "set (snd x) \<subseteq> set (snd y)"
    using assms(2) that by blast
  from assms(1) show ?thesis
  proof cases
    case (approve r as now i b p css actor key sha)
    then show ?thesis by (intro moved [of i ChangeSetStatus.PENDING_APPROVAL ChangeSetStatus.APPROVED]) simp_all
  next
    case (move b a as css i)
    then show ?thesis by (intro moved [of i a b]) simp_all
  next
    case (merge as css i)
    then show ?thesis by (intro moved [of i ChangeSetStatus.APPROVED ChangeSetStatus.MERGED]) simp_all
  qed (rule stay, simp add: subset_insertI)+
qed

lemma auth_moves_follow:
  assumes "auth_move\<^sup>*\<^sup>* x y" and "c \<in> set (snd x)"
  shows "\<exists>c' \<in> set (snd y). change_set_key c' = change_set_key c \<and>
    change_set_task_id c' = change_set_task_id c \<and> reaches (change_set_status c) (change_set_status c')"
  using assms
proof (induction rule: rtranclp_induct)
  case base
  then show ?case by (auto simp: reaches_def)
next
  case (step y z)
  then obtain c1 where "c1 \<in> set (snd y)" "change_set_key c1 = change_set_key c"
    "change_set_task_id c1 = change_set_task_id c" "reaches (change_set_status c) (change_set_status c1)" by blast
  then show ?case using auth_move_follows [OF step.hyps(2)] unfolding reaches_def
    by (metis (mono_tags, lifting) rtranclp.rtrancl_into_rtrancl)
qed

lemma table_end_stays: "reaches a b \<Longrightarrow> allowed_targets a = [] \<Longrightarrow> b = a"
  unfolding reaches_def by (induction rule: converse_rtranclp_induct) auto

end
