(* ===== verification/Grants.thy ===== *)
theory Grants
  imports Approval_Store
begin

text \<open>
  Privilege requests and capability grants of \<open>storage/approval_repository.py\<close>: a grant is issued
  for an approved request to the next attempt of the same node, can be consumed once under the
  workspace lease of that attempt's task, and is revoked when the run is cancelled.
\<close>

subsection \<open>Requests\<close>

definition SEAL_SCHEMA :: string where
  "SEAL_SCHEMA = ''hub210-capability-resource-seal-v1''"

fun seal_schema :: "json \<Rightarrow> json option" where
  \<comment> \<open>\<open>resource_seal.get("schema")\<close>\<close>
  "seal_schema (JObj kvs) = map_of kvs ''schema''"
| "seal_schema _ = None"

abbreviation sealed_resource :: "json \<Rightarrow> bool" where
  "sealed_resource j \<equiv> seal_schema j = Some (JStr SEAL_SCHEMA)"

definition workspace_binding_ok :: "WorkspaceLease \<Rightarrow> string \<Rightarrow> string \<Rightarrow> bool" where
  "workspace_binding_ok wl session task \<longleftrightarrow>
     owner_kind wl = ''agent_task'' \<and> owner_operation_id wl = task \<and>
     resource_key wl = ''session:'' @ session @ '':integration''"

definition same_request :: "PrivilegeRequest \<Rightarrow> PrivilegeRequest \<Rightarrow> bool" where
  \<comment> \<open>the dictionary \<open>immutable\<close>\<close>
  "same_request a b \<longleftrightarrow>
     request_task_id a = request_task_id b \<and> request_node_run_id a = request_node_run_id b \<and>
     requested_capability a = requested_capability b \<and> requested_action a = requested_action b \<and>
     requested_resource a = requested_resource b \<and> request_risk a = request_risk b"

definition insert_request :: "PrivilegeRequest \<Rightarrow> json \<Rightarrow> time \<Rightarrow> HubStore \<Rightarrow> run_error + HubStore" where
  \<comment> \<open>the foreign keys and the bounds of the columns\<close>
  "insert_request q rseal now h =
     (if request_id q \<in> (request_id \<circ> request) ` set (privilege_requests h) \<or>
        request_task_id q \<notin> task_id ` set (tasks (hub_run h)) \<or>
        request_node_run_id q \<notin> node_run_id ` set (node_runs (hub_run h)) \<or>
        requested_resource q = [] \<or> 1024 < length (requested_resource q) \<or> 4096 < length (dumps rseal)
      then Inl IntegrityError
      else Inr (h\<lparr>privilege_requests := privilege_requests h @
        [\<lparr>request = q, request_seal = sort_keys rseal, request_created_at = now\<rparr>]\<rparr>))"

definition request_drift :: "PrivilegeRow \<Rightarrow> PrivilegeRequest \<Rightarrow> json \<Rightarrow> bool" where
  "request_drift row q rseal \<longleftrightarrow> \<not> same_request (request row) q \<or> request_seal row \<noteq> sort_keys rseal"

definition fenced_workspace ::
  "HubStore \<Rightarrow> WorkspaceLease \<Rightarrow> string \<Rightarrow> string \<Rightarrow> time \<Rightarrow> run_error + 'a \<Rightarrow> run_error + 'a" where
  "fenced_workspace h wl session task now k =
     (if \<not> workspace_binding_ok wl session task then Inl (PyError ValueError)
      else if \<not> workspace_valid (hub_run h) wl now then Inl (LeaseError LeaseLost) else k)"

definition create_privilege_request ::
  "PrivilegeRequest \<Rightarrow> json \<Rightarrow> MasterLease \<Rightarrow> WorkspaceLease \<Rightarrow> time \<Rightarrow> HubStore \<Rightarrow>
     run_error + (HubStore \<times> PrivilegeRequest)" where
  "create_privilege_request q rseal lease wl now h =
     (if \<not> sealed_resource rseal then Inl (PyError ValueError)
      else fenced (hub_run h) lease now (fenced_workspace h wl (request_session_id q) (request_task_id q) now
        (case find_request h (request_id q) of
           Some row \<Rightarrow>
             (if request_drift row q rseal then Inl ConcurrencyConflict
              else Inr (h, q\<lparr>request_status := request_status (request row)\<rparr>))
         | None \<Rightarrow>
             and_then (insert_request q rseal now h) (\<lambda>h1.
             and_then (append_privilege_request_event lease q None (request_status q) ''created'' h1)
               (\<lambda>h2. Inr (h2, q))))))"

subsection \<open>Issuing a grant\<close>

definition with_lineage ::
  "HubStore \<Rightarrow> string \<Rightarrow> (PrivilegeRow \<Rightarrow> NodeRun \<Rightarrow> TaskRow \<Rightarrow> run_error + 'a) \<Rightarrow> run_error + 'a" where
  \<comment> \<open>the request joined with its task and its node run\<close>
  "with_lineage h rid k =
     (case find_request h rid of
        None \<Rightarrow> Inl RecordNotFound
      | Some q \<Rightarrow>
          (case (find_node_run (hub_run h) (request_node_run_id (request q)),
                 find (\<lambda>t. task_id t = request_task_id (request q)) (tasks (hub_run h))) of
             (Some r, Some t) \<Rightarrow> k q r t
           | _ \<Rightarrow> Inl RecordNotFound))"

definition with_target ::
  "HubStore \<Rightarrow> string \<Rightarrow> (NodeRun \<Rightarrow> TaskRow \<Rightarrow> run_error + 'a) \<Rightarrow> run_error + 'a" where
  \<comment> \<open>the target task joined with its node run\<close>
  "with_target h tid k =
     (case find (\<lambda>t. task_id t = tid) (tasks (hub_run h)) of
        None \<Rightarrow> Inl RecordNotFound
      | Some t \<Rightarrow>
          (case find_node_run (hub_run h) (task_node_run_id t) of
             None \<Rightarrow> Inl RecordNotFound | Some r \<Rightarrow> k r t))"

definition approved_for_request :: "HubStore \<Rightarrow> string \<Rightarrow> time \<Rightarrow> bool" where
  \<comment> \<open>the latest approval of the request is approved and has not expired\<close>
  "approved_for_request h rid now \<longleftrightarrow>
     (case latest approval_created_at (filter (\<lambda>a. subject (approval a) = PrivilegeSubject rid) (approvals h)) of
        None \<Rightarrow> False
      | Some a \<Rightarrow> ap_status (approval a) = ApprovalStatus.APPROVED \<and> now < approval_expires_at (approval a))"

definition find_grant_of :: "HubStore \<Rightarrow> string \<Rightarrow> GrantRow option" where
  "find_grant_of h rid = find (\<lambda>g. grant_request_id (grant g) = rid) (capability_grants h)"

definition grant_drift :: "GrantRow \<Rightarrow> CapabilityGrant \<Rightarrow> PrivilegeRow \<Rightarrow> bool" where
  "grant_drift e g q \<longleftrightarrow>
     grant_id (grant e) \<noteq> grant_id g \<or> grant_target_task_id (grant e) \<noteq> grant_target_task_id g \<or>
     grant_action (grant e) \<noteq> grant_action g \<or> grant_resource (grant e) \<noteq> grant_resource g \<or>
     grant_seal e \<noteq> request_seal q"

definition bind_active :: "string \<Rightarrow> string \<Rightarrow> HubStore \<Rightarrow> HubStore" where
  \<comment> \<open>\<open>UPDATE tasks SET active_capability_grant_id = ? WHERE id = ? AND \<dots> IS NULL\<close>\<close>
  "bind_active gid tid h =
     h\<lparr>active_grant := (active_grant h)(tid := (case active_grant h tid of None \<Rightarrow> Some gid | x \<Rightarrow> x))\<rparr>"

definition unbind_active :: "string \<Rightarrow> string \<Rightarrow> HubStore \<Rightarrow> HubStore" where
  "unbind_active gid tid h =
     (if active_grant h tid = Some gid then h\<lparr>active_grant := (active_grant h)(tid := None)\<rparr> else h)"

definition insert_grant :: "CapabilityGrant \<Rightarrow> json \<Rightarrow> HubStore \<Rightarrow> run_error + HubStore" where
  \<comment> \<open>the row has the grant's subject and expiry only; the request and the target task are unique,
      and the update that binds it to the task must change one row\<close>
  "insert_grant g rseal h =
     (let row = \<lparr>grant = g\<lparr>consumed_at := None, consumed_fencing_token := None, revoked_at := None,
            revocation_reason := None\<rparr>, grant_seal = rseal\<rparr>
      in if list_ex (\<lambda>e. grant_id (grant e) = grant_id g \<or> grant_request_id (grant e) = grant_request_id g \<or>
           grant_target_task_id (grant e) = grant_target_task_id g) (capability_grants h)
         then Inl IntegrityError
         else if active_grant h (grant_target_task_id g) \<noteq> None then Inl ConcurrencyConflict
         else Inr (bind_active (grant_id g) (grant_target_task_id g)
           (h\<lparr>capability_grants := capability_grants h @ [row]\<rparr>)))"

definition issue ::
  "MasterLease \<Rightarrow> time \<Rightarrow> string \<Rightarrow> string \<Rightarrow> CapabilityGrant \<Rightarrow> json \<Rightarrow> HubStore \<Rightarrow> run_error + HubStore" where
  \<comment> \<open>what both ways of issuing a grant end with: insert, event, activation of the retry\<close>
  "issue lease now node_run reason g rseal h =
     and_then (insert_grant g rseal h) (\<lambda>h1.
     and_then (append_grant_event lease node_run
         (g\<lparr>consumed_at := None, consumed_fencing_token := None, revoked_at := None,
            revocation_reason := None\<rparr>) reason h1) (\<lambda>h2.
     lift_run h2 (activate_capability_target_in (grant_target_task_id g) lease now (hub_run h2))))"

definition create_grant ::
  "(string \<Rightarrow> string) \<Rightarrow> CapabilityGrant \<Rightarrow> string \<Rightarrow> string \<Rightarrow> MasterLease \<Rightarrow> time \<Rightarrow> HubStore \<Rightarrow>
     run_error + HubStore" where
  "create_grant H g wid source_task lease now h =
     fenced (hub_run h) lease now (with_lineage h (grant_request_id g) (\<lambda>q r t.
       if request_task_id (request q) \<noteq> source_task then Inl (PyError ValueError)
       else if workflow_run_id (run (hub_run h)) \<noteq> wid then Inl (PyError ValueError)
       else if requested_action (request q) \<noteq> grant_action g \<or> requested_resource (request q) \<noteq> grant_resource g
       then Inl (PyError ValueError)
       else if request_status (request q) \<noteq> PrivilegeRequestStatus.APPROVED then Inl ConcurrencyConflict
       else if \<not> sealed_resource (request_seal q) then Inl ConcurrencyConflict
       else if \<not> approved_for_request h (grant_request_id g) now then Inl ConcurrencyConflict
       else with_target h (grant_target_task_id g) (\<lambda>tr tt.
         if nr_node_id tr \<noteq> nr_node_id r \<or> attempt tr \<noteq> attempt r + 1 \<or>
           task_id tt \<noteq> task_id_for_node H (node_run_id tr) \<or> task_agent_id tt \<noteq> task_agent_id t \<or>
           ended_or_cancelling h \<or>
           (active_grant h (task_id tt) \<noteq> None \<and> active_grant h (task_id tt) \<noteq> Some (grant_id g))
         then Inl (PyError ValueError)
         else case find_grant_of h (grant_request_id g) of
           Some e \<Rightarrow>
             (if grant_drift e g q then Inl ConcurrencyConflict
              else let h1 = bind_active (grant_id g) (grant_target_task_id g) h
                in if nr_status tr = NodeRunStatus.PENDING
                   then lift_run h1 (activate_capability_target_in (grant_target_task_id g) lease now (hub_run h1))
                   else Inr h1)
         | None \<Rightarrow>
             (if task_status tt \<noteq> TaskStatus.PENDING \<or> nr_status tr \<noteq> NodeRunStatus.PENDING
              then Inl ConcurrencyConflict
              else issue lease now (request_node_run_id (request q)) ''created'' g (request_seal q) h))))"

definition create_approved_grant_in ::
  "(string \<Rightarrow> string) \<Rightarrow> CapabilityGrant \<Rightarrow> string \<Rightarrow> string \<Rightarrow> MasterLease \<Rightarrow> time \<Rightarrow> HubStore \<Rightarrow>
     run_error + HubStore" where
  "create_approved_grant_in H g wid source_task lease now h =
     with_lineage h (grant_request_id g) (\<lambda>q r t.
       if request_task_id (request q) \<noteq> source_task \<or> workflow_run_id (run (hub_run h)) \<noteq> wid \<or>
         request_status (request q) \<noteq> PrivilegeRequestStatus.APPROVED \<or>
         requested_action (request q) \<noteq> grant_action g \<or> requested_resource (request q) \<noteq> grant_resource g
       then Inl ConcurrencyConflict
       else if \<not> sealed_resource (request_seal q) then Inl ConcurrencyConflict
       else if \<not> approved_for_request h (grant_request_id g) now then Inl ConcurrencyConflict
       else with_target h (grant_target_task_id g) (\<lambda>tr tt.
         if nr_node_id tr \<noteq> nr_node_id r \<or> attempt tr \<noteq> attempt r + 1 \<or>
           task_id tt \<noteq> task_id_for_node H (node_run_id tr) \<or> task_agent_id tt \<noteq> task_agent_id t \<or>
           task_id tt \<noteq> grant_target_task_id g \<or> task_status tt \<noteq> TaskStatus.PENDING \<or>
           nr_status tr \<noteq> NodeRunStatus.PENDING \<or> cancelling (hub_run h)
         then Inl (PyError ValueError)
         else case find_grant_of h (grant_request_id g) of
           Some e \<Rightarrow> (if grant_drift e g q then Inl ConcurrencyConflict else Inr h)
         | None \<Rightarrow>
             issue lease now (request_node_run_id (request q)) ''created_with_privilege_approval'' g
               (request_seal q) h))"

subsection \<open>Consuming a grant\<close>

definition consume_row :: "string \<Rightarrow> int \<Rightarrow> time \<Rightarrow> GrantRow \<Rightarrow> GrantRow" where
  "consume_row gid token now e =
     e\<lparr>grant := (grant e)\<lparr>consumed_at := Some now, consumed_fencing_token := Some token\<rparr>\<rparr>"

definition consumable :: "CapabilityGrant \<Rightarrow> string \<Rightarrow> string \<Rightarrow> PrivilegeAction \<Rightarrow> string \<Rightarrow> time \<Rightarrow> bool" where
  \<comment> \<open>the \<open>WHERE\<close> of the update\<close>
  "consumable g gid tid act resource now \<longleftrightarrow>
     grant_id g = gid \<and> grant_target_task_id g = tid \<and> grant_action g = act \<and> grant_resource g = resource \<and>
     consumed_at g = None \<and> revoked_at g = None \<and> now < grant_expires_at g"

definition mark_consumed ::
  "string \<Rightarrow> string \<Rightarrow> PrivilegeAction \<Rightarrow> string \<Rightarrow> int \<Rightarrow> time \<Rightarrow> HubStore \<Rightarrow> run_error + HubStore" where
  "mark_consumed gid tid act resource token now h =
     (let hit = (\<lambda>e. consumable (grant e) gid tid act resource now) in
      if length (filter hit (capability_grants h)) \<noteq> 1 then Inl ConcurrencyConflict
      else Inr (h\<lparr>capability_grants := map (\<lambda>e. if hit e then consume_row gid token now e else e)
             (capability_grants h)\<rparr>))"

definition consume_request :: "string \<Rightarrow> HubStore \<Rightarrow> run_error + HubStore" where
  "consume_request rid h =
     (let hit = (\<lambda>q. request_id (request q) = rid \<and> request_status (request q) = PrivilegeRequestStatus.APPROVED) in
      if length (filter hit (privilege_requests h)) \<noteq> 1 then Inl ConcurrencyConflict
      else Inr (put_requests hit PrivilegeRequestStatus.CONSUMED h))"

definition grant_lease_problem ::
  "HubStore \<Rightarrow> string \<Rightarrow> WorkspaceLease option \<Rightarrow> time \<Rightarrow> run_error option" where
  "grant_lease_problem h tid wl now =
     (case wl of
        None \<Rightarrow> Some (PyError ValueError)
      | Some l \<Rightarrow>
          (if owner_kind l \<noteq> ''agent_task'' \<or> owner_operation_id l \<noteq> tid then Some (PyError ValueError)
           else if resource_key l \<noteq> integration_resource (hub_run h) then Some (PyError ValueError)
           else if \<not> holds_lock (file_locks (hub_run h)) l now then Some ConcurrencyConflict else None))"

definition consume_grant ::
  "string \<Rightarrow> string \<Rightarrow> PrivilegeAction \<Rightarrow> string \<Rightarrow> MasterLease \<Rightarrow> WorkspaceLease option \<Rightarrow> time \<Rightarrow> HubStore \<Rightarrow>
     run_error + (HubStore \<times> GrantRow)" where
  \<comment> \<open>the join takes the first approval of the request; all rows belong to the run of the store\<close>
  "consume_grant gid tid act resource lease wl now h =
     fenced (hub_run h) lease now
       (case find (\<lambda>e. grant_id (grant e) = gid) (capability_grants h) of
          None \<Rightarrow> Inl RecordNotFound
        | Some e \<Rightarrow> with_lineage h (grant_request_id (grant e)) (\<lambda>q r t.
            with_target h (grant_target_task_id (grant e)) (\<lambda>tr tt.
              case find (\<lambda>a. subject (approval a) = PrivilegeSubject (request_id (request q))) (approvals h) of
                None \<Rightarrow> Inl RecordNotFound
              | Some a \<Rightarrow>
                  (if grant_target_task_id (grant e) \<noteq> tid \<or> grant_action (grant e) \<noteq> act \<or>
                     grant_resource (grant e) \<noteq> resource \<or> opt_str (active_grant h (task_id tt)) \<noteq> gid
                   then Inl (PyError ValueError)
                   else if cancelling (hub_run h) \<or> run_status (run (hub_run h)) \<noteq> WorkflowRunStatus.RUNNING \<or>
                     nr_status tr \<noteq> NodeRunStatus.RUNNING
                   then Inl ConcurrencyConflict
                   else if request_status (request q) \<noteq> PrivilegeRequestStatus.APPROVED \<or>
                     ap_status (approval a) \<noteq> ApprovalStatus.APPROVED \<or> approval_expires_at (approval a) \<le> now
                   then Inl ConcurrencyConflict
                   else case grant_lease_problem h tid wl now of
                     Some err \<Rightarrow> Inl err
                   | None \<Rightarrow>
                       and_then (mark_consumed gid tid act resource (ws_fencing_token (the wl)) now h) (\<lambda>h1.
                       and_then (consume_request (request_id (request q)) h1) (\<lambda>h2.
                       let e' = consume_row gid (ws_fencing_token (the wl)) now e in
                       and_then (append_grant_event lease (request_node_run_id (request q)) (grant e') ''consumed''
                           (unbind_active gid tid h2)) (\<lambda>h3. Inr (h3, e'))))))))"

subsection \<open>Revoking the grants of a run\<close>

definition revocable :: "CapabilityGrant \<Rightarrow> bool" where
  "revocable g \<longleftrightarrow> consumed_at g = None \<and> revoked_at g = None"

definition revoke_row :: "string \<Rightarrow> time \<Rightarrow> GrantRow \<Rightarrow> GrantRow" where
  "revoke_row reason now e =
     e\<lparr>grant := (grant e)\<lparr>revoked_at := Some now, revocation_reason := Some reason\<rparr>\<rparr>"

definition revoke_one :: "bool \<Rightarrow> string \<Rightarrow> MasterLease \<Rightarrow> time \<Rightarrow> GrantRow \<Rightarrow> HubStore \<Rightarrow> run_error + HubStore" where
  \<comment> \<open>the body of the loops: inside a caller's transaction a row that is not hit is a conflict, in a
      transaction of its own it is left out, and there the event of a request that was approved reads
      the column \<open>task_id\<close>, which the query of that loop does not return; the reason of a row is
      bounded\<close>
  "revoke_one strict reason lease now e h =
     (let hit = (\<lambda>x. grant_id (grant x) = grant_id (grant e) \<and> revocable (grant x));
          rid = grant_request_id (grant e);
          asked = (\<lambda>q. request_id (request q) = rid \<and> request_status (request q) = PrivilegeRequestStatus.APPROVED)
      in if length (filter hit (capability_grants h)) \<noteq> 1 then (if strict then Inl ConcurrencyConflict else Inr h)
         else if 200 < length reason then Inl IntegrityError
         else let h1 = h\<lparr>capability_grants := map (\<lambda>x. if hit x then revoke_row reason now x else x)
                    (capability_grants h)\<rparr>;
                  changed = list_ex asked (privilege_requests h1);
                  h2 = unbind_active (grant_id (grant e)) (grant_target_task_id (grant e))
                    (put_requests asked PrivilegeRequestStatus.DENIED h1)
           in case find_request h2 rid of
                None \<Rightarrow> Inl (PyError AssertionError)
              | Some q \<Rightarrow>
                  and_then
                    (if \<not> changed then Inr h2
                     else if \<not> strict then Inl (PyError IndexError)
                     else append_privilege_request_event lease (request q) (Some PrivilegeRequestStatus.APPROVED)
                       PrivilegeRequestStatus.DENIED (''revoked:'' @ reason) h2)
                    (append_grant_event lease (request_node_run_id (request q)) (grant (revoke_row reason now e))
                       (''revoked:'' @ reason)))"

fun revoke_each :: "bool \<Rightarrow> string \<Rightarrow> MasterLease \<Rightarrow> time \<Rightarrow> GrantRow list \<Rightarrow> HubStore \<Rightarrow> run_error + HubStore" where
  "revoke_each strict reason lease now [] h = Inr h"
| "revoke_each strict reason lease now (e # es) h =
     and_then (revoke_one strict reason lease now e h) (revoke_each strict reason lease now es)"

definition revocable_of_run :: "string \<Rightarrow> HubStore \<Rightarrow> GrantRow list" where
  "revocable_of_run wid h =
     (if workflow_run_id (run (hub_run h)) \<noteq> wid then []
      else filter (\<lambda>e. revocable (grant e) \<and> find_request h (grant_request_id (grant e)) \<noteq> None)
        (capability_grants h))"

definition revoke_unconsumed_for_run ::
  "string \<Rightarrow> MasterLease \<Rightarrow> string \<Rightarrow> time \<Rightarrow> HubStore \<Rightarrow> run_error + HubStore" where
  "revoke_unconsumed_for_run wid lease reason now h =
     fenced (hub_run h) lease now (revoke_each False reason lease now (revocable_of_run wid h) h)"

definition revoke_unconsumed_for_run_in ::
  "string \<Rightarrow> MasterLease \<Rightarrow> string \<Rightarrow> time \<Rightarrow> HubStore \<Rightarrow> run_error + HubStore" where
  "revoke_unconsumed_for_run_in wid lease reason now h =
     fenced (hub_run h) lease now (revoke_each True reason lease now (revocable_of_run wid h) h)"

end
