(* ===== verification/Approvals.thy ===== *)
theory Approvals
  imports Grants
begin

text \<open>
  The approvals of \<open>storage/approval_repository.py\<close>: creating one for a change set or a privilege
  request, deciding it, letting it expire, renewing it, and invalidating those of a run that is
  cancelled. A transaction that raises changes nothing, the expiry that \<open>decide\<close> writes before it
  raises included. The repository is the one the application builds, which knows the run
  repository (\<open>atomic_resume_available\<close>).
\<close>

subsection \<open>Rows\<close>

definition subject_of :: "Subject \<Rightarrow> Subject \<Rightarrow> bool" where
  \<comment> \<open>\<open>change_set_id = ? OR privilege_request_id = ?\<close>\<close>
  "subject_of s t \<longleftrightarrow>
     (case (s, t) of
        (ChangeSetSubject c _ _, ChangeSetSubject d _ _) \<Rightarrow> c = d
      | (PrivilegeSubject c, PrivilegeSubject d) \<Rightarrow> c = d
      | _ \<Rightarrow> False)"

definition insert_approval :: "Approval \<Rightarrow> string option \<Rightarrow> time \<Rightarrow> HubStore \<Rightarrow> run_error + HubStore" where
  \<comment> \<open>the primary key, the unique index on pending subjects, the bounds of the columns\<close>
  "insert_approval a key now h =
     (if list_ex (\<lambda>r. ap_id r = approval_id a) (approvals h) \<or>
        list_ex (\<lambda>r. is_pending r \<and> subject_of (subject (approval r)) (subject a)) (approvals h) \<or>
        256 < length (opt_list key)
      then Inl IntegrityError
      else Inr (put_approvals (approvals h @
        [\<lparr>approval = a\<lparr>ap_status := ApprovalStatus.PENDING, approval_version := 1\<rparr>, approval_created_at = now,
          decided_at = None, decision_actor = None, decision_idempotency_key = key,
          decision_request_sha256 = None\<rparr>]) h))"

definition update_approval ::
  "string \<Rightarrow> (ApprovalRecord \<Rightarrow> bool) \<Rightarrow> (ApprovalRecord \<Rightarrow> ApprovalRecord) \<Rightarrow> run_error \<Rightarrow> HubStore \<Rightarrow>
     run_error + HubStore" where
  \<comment> \<open>\<open>UPDATE approvals \<dots> WHERE id = i AND \<dots>\<close>, then \<open>if changed != 1\<close>\<close>
  "update_approval i hit f err h =
     (let p = (\<lambda>r. ap_id r = i \<and> hit r) in
      if length (filter p (approvals h)) \<noteq> 1 then Inl err
      else Inr (put_approvals (map (\<lambda>r. if p r then f r else r) (approvals h)) h))"

definition with_approval ::
  "HubStore \<Rightarrow> string \<Rightarrow> (ApprovalRecord \<Rightarrow> run_error + 'a) \<Rightarrow> run_error + 'a" where
  "with_approval h i k = (case find_approval h i of None \<Rightarrow> Inl RecordNotFound | Some r \<Rightarrow> k r)"

definition set_status :: "ApprovalStatus \<Rightarrow> time \<Rightarrow> ApprovalRecord \<Rightarrow> ApprovalRecord" where
  \<comment> \<open>\<open>SET status = ?, version = version + 1, decided_at = ?\<close>\<close>
  "set_status s now r =
     r\<lparr>approval := (approval r)\<lparr>ap_status := s, approval_version := approval_version (approval r) + 1\<rparr>,
       decided_at := Some now\<rparr>"

definition pending_for :: "HubStore \<Rightarrow> Subject \<Rightarrow> ApprovalRecord option" where
  "pending_for h s =
     latest approval_created_at (filter (\<lambda>r. is_pending r \<and> subject_of (subject (approval r)) s) (approvals h))"

definition awaiting :: "string \<Rightarrow> PrivilegeRow \<Rightarrow> bool" where
  \<comment> \<open>\<open>WHERE id = ? AND status IN ('pending', 'waiting_approval')\<close>\<close>
  "awaiting rid q \<longleftrightarrow> request_id (request q) = rid \<and>
     request_status (request q) \<in> {PrivilegeRequestStatus.PENDING, PrivilegeRequestStatus.WAITING_APPROVAL}"

subsection \<open>Creating an approval\<close>

definition privilege_requests_columns :: "string list" where
  \<comment> \<open>\<open>migrations/init.sql\<close> and \<open>0003_capability_resource_seals.sql\<close>\<close>
  "privilege_requests_columns = [''id'', ''task_id'', ''node_run_id'', ''capability'', ''action'', ''resource'',
     ''effective_risk'', ''status'', ''created_at'', ''resource_seal_json'']"

definition node_runs_columns :: "string list" where
  "node_runs_columns = [''id'', ''workflow_run_id'', ''node_id'', ''node_type'', ''attempt'', ''status'',
     ''outcome'', ''assigned_agent_id'', ''input_hash'', ''output_artifact_id'', ''change_set_id'',
     ''error_code'', ''created_at'', ''started_at'', ''finished_at'']"

definition workflow_runs_columns :: "string list" where
  "workflow_runs_columns = [''id'', ''workflow_id'', ''session_id'', ''integration_base_commit'',
     ''current_commit'', ''workflow_semantic_version'', ''workflow_layout_version'',
     ''author_snapshot_json'', ''author_snapshot_hash'', ''compiled_snapshot_json'',
     ''compiled_snapshot_hash'', ''layout_snapshot_json'', ''layout_snapshot_hash'', ''policy_version'',
     ''agent_catalog_snapshot_json'', ''agent_catalog_snapshot_hash'', ''planner_run_id'', ''planner_id'',
     ''planner_model'', ''status'', ''next_event_seq'', ''created_at'', ''started_at'',
     ''cancel_requested_at'', ''merge_finalizing_at'', ''finished_at'']"

definition columns_resolve :: "string list list \<Rightarrow> string list \<Rightarrow> bool" where
  \<comment> \<open>SQLite prepares a join only if every unqualified column is a column of exactly one table\<close>
  "columns_resolve tables names \<longleftrightarrow>
     list_all (\<lambda>c. length (filter (\<lambda>t. c \<in> set t) tables) = 1) names"

abbreviation request_join :: "string list list" where
  "request_join \<equiv> [privilege_requests_columns, node_runs_columns, workflow_runs_columns]"

definition request_approval ::
  "string list \<Rightarrow> Approval \<Rightarrow> string \<Rightarrow> MasterLease \<Rightarrow> HubStore \<Rightarrow> run_error + HubStore" where
  \<comment> \<open>the request moves to \<open>waiting_approval\<close>; \<open>names\<close> are the unqualified columns of the query\<close>
  "request_approval names a rid lease h =
     (if \<not> columns_resolve request_join names then Inl OperationalError
      else case find_request h rid of
        None \<Rightarrow> Inl RecordNotFound
      | Some q \<Rightarrow>
          (if request_node_run_id (request q) \<noteq> approval_node_run_id a then Inl (PyError ValueError)
           else if workflow_run_id (run (hub_run h)) \<noteq> approval_run_id a then Inl (PyError ValueError)
           else if ended_or_cancelling h then Inl ConcurrencyConflict
           else if \<not> awaiting rid q then Inl ConcurrencyConflict
           else append_privilege_request_event lease (request q) (Some (request_status (request q)))
             PrivilegeRequestStatus.WAITING_APPROVAL ''approval_created''
             (put_requests (awaiting rid) PrivilegeRequestStatus.WAITING_APPROVAL h)))"

definition propose_change_set :: "string \<Rightarrow> Approval \<Rightarrow> HubStore \<Rightarrow> run_error + HubStore" where
  \<comment> \<open>the change set joined with its task and node run moves to \<open>pending_approval\<close>\<close>
  "propose_change_set c a h =
     (case find (\<lambda>r. change_set_id r = c) (change_sets (hub_run h)) of
        None \<Rightarrow> Inl RecordNotFound
      | Some r \<Rightarrow> with_target h (change_set_task_id r) (\<lambda>_ _.
          if workflow_run_id (run (hub_run h)) \<noteq> approval_run_id a \<or>
            change_set_status r \<notin> {ChangeSetStatus.TEST_PASSED, ChangeSetStatus.PENDING_APPROVAL}
          then Inl ConcurrencyConflict
          else if ended_or_cancelling h then Inl ConcurrencyConflict
          else Inr (put_change_sets (\<lambda>x. if change_set_id x = c \<and> change_set_status x = ChangeSetStatus.TEST_PASSED
                 then x\<lparr>change_set_status := ChangeSetStatus.PENDING_APPROVAL\<rparr> else x) h)))"

definition record_approval ::
  "Approval \<Rightarrow> string option \<Rightarrow> MasterLease \<Rightarrow> time \<Rightarrow> HubStore \<Rightarrow> run_error + (HubStore \<times> ApprovalRecord)" where
  \<comment> \<open>insert, event, and the row read back\<close>
  "record_approval a key lease now h =
     and_then (insert_approval a key now h) (\<lambda>h1.
     and_then (append_approval_event lease a None None h1) (\<lambda>h2.
     with_approval h2 (approval_id a) (\<lambda>r. Inr (h2, r))))"

definition create ::
  "Approval \<Rightarrow> MasterLease \<Rightarrow> string option \<Rightarrow> time \<Rightarrow> HubStore \<Rightarrow> run_error + (HubStore \<times> ApprovalRecord)" where
  "create a lease key now h =
     (if ap_status a \<noteq> ApprovalStatus.PENDING \<or> approval_version a \<noteq> 1 then Inl (PyError ValueError)
      else if approval_risk a = L4 then Inl (PyError ValueError)
      else fenced (hub_run h) lease now
        (case pending_for h (subject a) of
           Some r \<Rightarrow>
             (if subject_sha256 (approval r) \<noteq> subject_sha256 a then Inl ConcurrencyConflict else Inr (h, r))
         | None \<Rightarrow>
             (case node_run_of h (approval_node_run_id a) of
                None \<Rightarrow> Inl RecordNotFound
              | Some wid \<Rightarrow>
                  (if wid \<noteq> approval_run_id a then Inl (PyError ValueError)
                   else and_then
                     (case subject a of
                        ChangeSetSubject c _ _ \<Rightarrow> propose_change_set c a h
                      | PrivilegeSubject rid \<Rightarrow>
                          request_approval [''workflow_run_id'', ''node_run_id'', ''status''] a rid lease h)
                     (record_approval a key lease now)))))"

definition create_privilege_request_and_approval ::
  "PrivilegeRequest \<Rightarrow> json \<Rightarrow> Approval \<Rightarrow> string \<Rightarrow> MasterLease \<Rightarrow> WorkspaceLease \<Rightarrow> string option \<Rightarrow>
     time \<Rightarrow> HubStore \<Rightarrow> run_error + (HubStore \<times> ApprovalRecord)" where
  \<comment> \<open>\<open>rid\<close> is the \<open>privilege_request_id\<close> of the approval\<close>
  "create_privilege_request_and_approval q rseal a rid lease wl key now h =
     (if ap_status a \<noteq> ApprovalStatus.PENDING \<or> approval_version a \<noteq> 1 then Inl (PyError ValueError)
      else if approval_risk a = L4 then Inl (PyError ValueError)
      else if rid \<noteq> request_id q then Inl (PyError ValueError)
      else if \<not> sealed_resource rseal then Inl (PyError ValueError)
      else fenced (hub_run h) lease now (fenced_workspace h wl (request_session_id q) (request_task_id q) now
        (and_then
          (case find_request h (request_id q) of
             None \<Rightarrow>
               and_then (insert_request q rseal now h) (\<lambda>h1.
               if node_run_of h1 (request_node_run_id q) \<noteq> Some (approval_run_id a) then Inl (PyError ValueError)
               else append_privilege_request_event lease q None (request_status q) ''created'' h1)
           | Some row \<Rightarrow> (if request_drift row q rseal then Inl ConcurrencyConflict else Inr h))
          (\<lambda>h1.
             case pending_for h1 (PrivilegeSubject (request_id q)) of
               Some r \<Rightarrow>
                 (if subject_sha256 (approval r) \<noteq> subject_sha256 a then Inl ConcurrencyConflict else Inr (h1, r))
             | None \<Rightarrow>
                 (case node_run_of h1 (approval_node_run_id a) of
                    None \<Rightarrow> Inl RecordNotFound
                  | Some wid \<Rightarrow>
                      (if wid \<noteq> approval_run_id a then Inl (PyError ValueError)
                       else and_then
                         (request_approval [''workflow_run_id'', ''node_run_id'', ''task_id'', ''status''] a
                            (request_id q) lease h1)
                         (record_approval (a\<lparr>subject := PrivilegeSubject rid\<rparr>) key lease now)))))))"

subsection \<open>Expiry and renewal\<close>

definition expire_request ::
  "(string \<Rightarrow> string) \<Rightarrow> string \<Rightarrow> MasterLease \<Rightarrow> time \<Rightarrow> HubStore \<Rightarrow> run_error + HubStore" where
  \<comment> \<open>of a privilege approval: the request expires, and a run that waits for it goes on\<close>
  "expire_request H rid lease now h =
     (case find_request h rid of
        None \<Rightarrow> Inr h
      | Some q \<Rightarrow>
          (if \<not> awaiting rid q then Inr h
           else case find_node_run (hub_run h) (request_node_run_id (request q)) of
             None \<Rightarrow> Inr (put_requests (awaiting rid) PrivilegeRequestStatus.EXPIRED h)
           | Some r \<Rightarrow>
               and_then (append_privilege_request_event lease (request q) (Some (request_status (request q)))
                 PrivilegeRequestStatus.EXPIRED ''expired''
                 (put_requests (awaiting rid) PrivilegeRequestStatus.EXPIRED h)) (\<lambda>h1.
               if nr_status r = NodeRunStatus.WAITING_APPROVAL \<and>
                 run_status (run (hub_run h)) = WorkflowRunStatus.WAITING_APPROVAL \<and> \<not> cancelling (hub_run h)
               then lift_run h1 (resume_privilege_after_approval_in H (workflow_run_id (run (hub_run h1)))
                 (request_node_run_id (request q)) False lease now (hub_run h1))
               else Inr h1)))"

definition expire_in ::
  "(string \<Rightarrow> string) \<Rightarrow> ApprovalRecord \<Rightarrow> MasterLease \<Rightarrow> time \<Rightarrow> HubStore \<Rightarrow> run_error + HubStore" where
  "expire_in H r lease now h =
     and_then
       (update_approval (ap_id r) (\<lambda>x. is_pending x \<and> approval_version (approval x) = approval_version (approval r))
          (set_status ApprovalStatus.EXPIRED now) ConcurrencyConflict h) (\<lambda>h1.
     and_then
       (case subject (approval r) of
          ChangeSetSubject _ _ _ \<Rightarrow> Inr h1
        | PrivilegeSubject rid \<Rightarrow> expire_request H rid lease now h1) (\<lambda>h2.
     with_approval h2 (ap_id r) (\<lambda>x.
       append_approval_event lease (approval x) (Some (ap_status (approval r))) (Some ''expired'') h2)))"

fun expire_each ::
  "(string \<Rightarrow> string) \<Rightarrow> ApprovalRecord list \<Rightarrow> MasterLease \<Rightarrow> time \<Rightarrow> HubStore \<Rightarrow> run_error + HubStore" where
  "expire_each H [] lease now h = Inr h"
| "expire_each H (r # rs) lease now h =
     and_then (expire_in H r lease now h) (expire_each H rs lease now)"

definition expire_due ::
  "(string \<Rightarrow> string) \<Rightarrow> MasterLease \<Rightarrow> string option \<Rightarrow> time \<Rightarrow> HubStore \<Rightarrow> run_error + HubStore" where
  "expire_due H lease wid now h =
     fenced (hub_run h) lease now
       (expire_each H
          (filter (\<lambda>r. is_pending r \<and> approval_expires_at (approval r) \<le> now \<and>
             (wid = None \<or> Some (approval_run_id (approval r)) = wid)) (approvals h)) lease now h)"

definition renewal_problem :: "Approval \<Rightarrow> Approval \<Rightarrow> time \<Rightarrow> HubStore \<Rightarrow> run_error option" where
  "renewal_problem old new now h =
     (if workflow_run_id (run (hub_run h)) \<noteq> approval_run_id old \<or> ended_or_cancelling h
      then Some ConcurrencyConflict
      else if \<not> subject_of (subject new) (subject old) then Some (PyError ValueError)
      else if approval_run_id new \<noteq> approval_run_id old \<or> approval_node_run_id new \<noteq> approval_node_run_id old \<or>
        subject new \<noteq> subject old \<or> evidence_sha256 new \<noteq> evidence_sha256 old \<or>
        approval_risk new \<noteq> approval_risk old \<or> approval_scope new \<noteq> approval_scope old
      then Some (PyError ValueError)
      else if subject_sha256 new = subject_sha256 old then Some (PyError ValueError)
      else if ap_status new \<noteq> ApprovalStatus.PENDING \<or> approval_version new \<noteq> 1 then Some (PyError ValueError)
      else if approval_risk new = L4 then Some (PyError ValueError)
      else if approval_expires_at new \<le> now then Some (PyError ValueError)
      else if node_run_of h (approval_node_run_id new) \<noteq> Some (approval_run_id new) then Some (PyError ValueError)
      else if map_option change_set_status
          (find (\<lambda>r. change_set_id r = subject_change_set (subject old)) (change_sets (hub_run h))) \<noteq>
        Some ChangeSetStatus.PENDING_APPROVAL
      then Some ConcurrencyConflict
      else None)"

definition renew_changeset ::
  "string \<Rightarrow> int \<Rightarrow> string \<Rightarrow> Approval \<Rightarrow> MasterLease \<Rightarrow> time \<Rightarrow> HubStore \<Rightarrow>
     run_error + (HubStore \<times> ApprovalRecord)" where
  "renew_changeset i version confirm new lease now h =
     fenced (hub_run h) lease now (with_approval h i (\<lambda>r.
       case subject (approval r) of
         PrivilegeSubject _ \<Rightarrow> Inl (PyError ValueError)
       | ChangeSetSubject _ _ _ \<Rightarrow>
           (if ap_status (approval r) \<noteq> ApprovalStatus.EXPIRED then Inl ConcurrencyConflict
            else if approval_version (approval r) \<noteq> version then Inl ConcurrencyConflict
            else if subject_sha256 (approval r) \<noteq> confirm then Inl ConcurrencyConflict
            else case renewal_problem (approval r) new now h of
              Some e \<Rightarrow> Inl e
            | None \<Rightarrow>
                and_then (insert_approval new None now h) (\<lambda>h1.
                and_then (append_approval_event lease new None (Some (''renewed_from:'' @ i)) h1) (\<lambda>h2.
                with_approval h2 (approval_id new) (\<lambda>x. Inr (h2, x)))))))"

subsection \<open>Deciding\<close>

definition decision_request_sha ::
  "(string \<Rightarrow> string) \<Rightarrow> string \<Rightarrow> int \<Rightarrow> string \<Rightarrow> ApprovalStatus \<Rightarrow> string \<Rightarrow> string \<Rightarrow> string" where
  \<comment> \<open>\<open>_decision_request_sha256\<close>\<close>
  "decision_request_sha H i version confirm target actor key =
     H (dumps (JObj [(''actor_id'', JStr actor), (''approval_id'', JStr i),
       (''confirm_subject_hash'', JStr confirm), (''expected_version'', JInt version),
       (''idempotency_key'', JStr key), (''target'', JStr (ApprovalStatus_value target))]))"

definition nonempty :: "string option \<Rightarrow> string option" where
  \<comment> \<open>\<open>str(v) if v else None\<close>\<close>
  "nonempty v = (if v = Some [] then None else v)"

definition replay_decision ::
  "(string \<Rightarrow> string) \<Rightarrow> int \<Rightarrow> string \<Rightarrow> ApprovalStatus \<Rightarrow> string \<Rightarrow> string \<Rightarrow> ApprovalRecord \<Rightarrow> HubStore \<Rightarrow>
     run_error + (HubStore \<times> ApprovalRecord)" where
  \<comment> \<open>the row is decided and its key is that of the request; a row without a request hash was
      written before the hash was recorded and gets it now\<close>
  "replay_decision H version confirm target actor key r h =
     (let i = ap_id r; sha = decision_request_sha H i version confirm target actor key in
      case decision_request_sha256 r of
        None \<Rightarrow>
          (if ap_status (approval r) \<notin> {ApprovalStatus.APPROVED, ApprovalStatus.REJECTED} \<or>
             ap_status (approval r) \<noteq> target \<or> nonempty (decision_actor r) \<noteq> Some actor \<or>
             approval_version (approval r) \<noteq> version + 1 \<or> subject_sha256 (approval r) \<noteq> confirm
           then Inl IdempotencyConflict
           else and_then
             (update_approval i (\<lambda>x. ap_status (approval x) = ap_status (approval r) \<and>
                  approval_version (approval x) = approval_version (approval r) \<and>
                  decision_actor x = Some actor \<and> decision_idempotency_key x = Some key \<and>
                  subject_sha256 (approval x) = confirm \<and> decision_request_sha256 x = None)
                (\<lambda>x. x\<lparr>decision_request_sha256 := Some sha\<rparr>) IdempotencyConflict h)
             (\<lambda>h1. with_approval h1 i (\<lambda>x. Inr (h1, x))))
      | Some recorded \<Rightarrow>
          (if recorded \<noteq> sha then Inl IdempotencyConflict
           else if ap_status (approval r) \<noteq> target then Inl IdempotencyConflict
           else Inr (h, r)))"

definition decide_subject ::
  "(string \<Rightarrow> string) \<Rightarrow> int \<Rightarrow> bool \<Rightarrow> ApprovalRecord \<Rightarrow> MasterLease \<Rightarrow> time \<Rightarrow> HubStore \<Rightarrow>
     run_error + HubStore" where
  \<comment> \<open>what a decision does to its subject: the change set and the waiting node, or the request, its
      events and the retry\<close>
  "decide_subject H grant_ttl approved r lease now h =
     (case subject (approval r) of
        ChangeSetSubject c _ _ \<Rightarrow>
          (let hit = (\<lambda>x. change_set_id x = c \<and> change_set_status x = ChangeSetStatus.PENDING_APPROVAL);
               s = (if approved then ChangeSetStatus.APPROVED else ChangeSetStatus.REJECTED)
           in if length (filter hit (change_sets (hub_run h))) \<noteq> 1 then Inl ConcurrencyConflict
              else let h1 = put_change_sets (\<lambda>x. if hit x then x\<lparr>change_set_status := s\<rparr> else x) h
                in lift_run h1 (resume_after_approval_in (approval_run_id (approval r))
                     (approval_node_run_id (approval r)) approved lease now (hub_run h1)))
      | PrivilegeSubject rid \<Rightarrow>
          (let s = (if approved then PrivilegeRequestStatus.APPROVED else PrivilegeRequestStatus.REJECTED);
               wid = approval_run_id (approval r); i = approval_node_run_id (approval r)
           in if length (filter (awaiting rid) (privilege_requests h)) \<noteq> 1 then Inl ConcurrencyConflict
              else let h1 = put_requests (awaiting rid) s h
                in with_lineage h1 rid (\<lambda>q _ _.
                     and_then (append_privilege_request_event lease (request q)
                       (Some PrivilegeRequestStatus.WAITING_APPROVAL) (request_status (request q))
                       (''approval_decision:'' @ (if approved then ''approved'' else ''rejected'')) h1) (\<lambda>h2.
                     if \<not> approved
                     then lift_run h2 (resume_privilege_after_approval_in H wid i False lease now (hub_run h2))
                     else and_then (approve_privilege_in H wid i (ap_id r) lease now (hub_run h2))
                       (\<lambda>(st3, target).
                          create_approved_grant_in H
                            \<lparr>grant_id = ''grant-'' @ take 32 (H (rid @ [CHR 0x00] @ target @ [CHR 0x00] @
                                PrivilegeAction_value (requested_action (request q)) @ [CHR 0x00] @
                                requested_resource (request q))),
                             grant_request_id = rid, grant_target_task_id = target,
                             grant_action = requested_action (request q),
                             grant_resource = requested_resource (request q),
                             grant_expires_at = min (approval_expires_at (approval r)) (now + seconds grant_ttl),
                             consumed_at = None, consumed_fencing_token = None, revoked_at = None,
                             revocation_reason = None\<rparr>
                            wid (request_task_id (request q)) lease now (h2\<lparr>hub_run := st3\<rparr>))))))"

definition decide ::
  "(string \<Rightarrow> string) \<Rightarrow> int \<Rightarrow> string \<Rightarrow> int \<Rightarrow> string \<Rightarrow> bool \<Rightarrow> string \<Rightarrow> string \<Rightarrow> MasterLease \<Rightarrow>
     time \<Rightarrow> HubStore \<Rightarrow> run_error + (HubStore \<times> ApprovalRecord)" where
  \<comment> \<open>\<open>approved\<close> is the target; an expired approval is written as expired in the transaction that
      then raises, so the store is left as it was\<close>
  "decide H grant_ttl i version confirm approved actor key lease now h =
     (if version < 1 \<or> key = [] then Inl (PyError ValueError)
      else fenced (hub_run h) lease now (with_approval h i (\<lambda>r.
        let target = (if approved then ApprovalStatus.APPROVED else ApprovalStatus.REJECTED) in
        if \<not> is_pending r \<and> nonempty (decision_idempotency_key r) = Some key
        then replay_decision H version confirm target actor key r h
        else if subject_sha256 (approval r) \<noteq> confirm then Inl ConcurrencyConflict
        else known_run (hub_run h) (approval_run_id (approval r))
          (if ended_or_cancelling h then Inl ConcurrencyConflict
           else if \<not> is_pending r then Inl ConcurrencyConflict
           else if approval_version (approval r) \<noteq> version then Inl ConcurrencyConflict
           else if approval_expires_at (approval r) \<le> now
           then and_then (expire_in H r lease now h) (\<lambda>_. Inl ConcurrencyConflict)
           else if 128 < length actor \<or> 256 < length key then Inl IntegrityError
           else and_then
             (update_approval i (\<lambda>x. is_pending x \<and> approval_version (approval x) = version \<and>
                  subject_sha256 (approval x) = confirm)
                (\<lambda>x. (set_status target now x)\<lparr>decision_actor := Some actor, decision_idempotency_key := Some key,
                   decision_request_sha256 :=
                     Some (decision_request_sha H i version confirm target actor key)\<rparr>)
                ConcurrencyConflict h) (\<lambda>h1.
             and_then (decide_subject H grant_ttl approved r lease now h1) (\<lambda>h2.
             with_approval h2 i (\<lambda>x.
               and_then (append_approval_event lease (approval x) (Some ApprovalStatus.PENDING)
                 (Some (''decision:'' @ ApprovalStatus_value target)) h2) (\<lambda>h3. Inr (h3, x)))))))))"

subsection \<open>Cancelling a run\<close>

definition invalidate_subject ::
  "ChangeSetStatus list \<Rightarrow> string \<Rightarrow> ApprovalRecord \<Rightarrow> MasterLease \<Rightarrow> HubStore \<Rightarrow> run_error + HubStore" where
  "invalidate_subject statuses reason r lease h =
     (case subject (approval r) of
        ChangeSetSubject c _ _ \<Rightarrow>
          Inr (put_change_sets (\<lambda>x. if change_set_id x = c \<and> change_set_status x \<in> set statuses
                 then x\<lparr>change_set_status := ChangeSetStatus.CANCELLED\<rparr> else x) h)
      | PrivilegeSubject rid \<Rightarrow>
          (case find_request h rid of
             None \<Rightarrow> Inr h
           | Some q \<Rightarrow>
               (if \<not> awaiting rid q then Inr h
                else append_privilege_request_event lease (request q) (Some PrivilegeRequestStatus.WAITING_APPROVAL)
                  PrivilegeRequestStatus.DENIED reason (put_requests (awaiting rid) PrivilegeRequestStatus.DENIED h))))"

fun invalidate_each ::
  "ChangeSetStatus list \<Rightarrow> string \<Rightarrow> ApprovalRecord list \<Rightarrow> MasterLease \<Rightarrow> time \<Rightarrow> HubStore \<Rightarrow>
     run_error + HubStore" where
  "invalidate_each statuses reason [] lease now h = Inr h"
| "invalidate_each statuses reason (r # rs) lease now h =
     and_then
       (update_approval (ap_id r) (\<lambda>x. is_pending x \<and> approval_version (approval x) = approval_version (approval r))
          (set_status ApprovalStatus.INVALIDATED now) ConcurrencyConflict h) (\<lambda>h1.
     and_then (invalidate_subject statuses reason r lease h1) (\<lambda>h2.
     and_then
       (with_approval h2 (ap_id r) (\<lambda>x.
          append_approval_event lease (approval x) (Some (ap_status (approval r))) (Some reason) h2))
       (invalidate_each statuses reason rs lease now)))"

definition cancel_change_sets :: "string \<Rightarrow> HubStore \<Rightarrow> HubStore" where
  \<comment> \<open>the final \<open>UPDATE change_sets\<close>: of every task of the run\<close>
  "cancel_change_sets wid h =
     put_change_sets (\<lambda>x. if change_set_status x \<in> {ChangeSetStatus.PENDING_APPROVAL, ChangeSetStatus.APPROVED} \<and>
         workflow_run_id (run (hub_run h)) = wid \<and> change_set_task_id x \<in> task_id ` set (tasks (hub_run h))
       then x\<lparr>change_set_status := ChangeSetStatus.CANCELLED\<rparr> else x) h"

definition invalidate_rows ::
  "ChangeSetStatus list \<Rightarrow> string \<Rightarrow> string \<Rightarrow> MasterLease \<Rightarrow> time \<Rightarrow> HubStore \<Rightarrow> run_error + HubStore" where
  "invalidate_rows statuses wid reason lease now h =
     fenced (hub_run h) lease now
       (and_then
         (invalidate_each statuses reason
            (filter (\<lambda>r. is_pending r \<and> approval_run_id (approval r) = wid) (approvals h)) lease now h)
         (\<lambda>h1. Inr (cancel_change_sets wid h1)))"

definition invalidate_for_run ::
  "string \<Rightarrow> MasterLease \<Rightarrow> string \<Rightarrow> time \<Rightarrow> HubStore \<Rightarrow> run_error + HubStore" where
  "invalidate_for_run wid lease reason now h =
     invalidate_rows [ChangeSetStatus.PENDING_APPROVAL] wid reason lease now h"

definition invalidate_for_run_in ::
  "string \<Rightarrow> MasterLease \<Rightarrow> string \<Rightarrow> time \<Rightarrow> HubStore \<Rightarrow> run_error + HubStore" where
  "invalidate_for_run_in wid lease reason now h =
     invalidate_rows [ChangeSetStatus.PENDING_APPROVAL, ChangeSetStatus.APPROVED] wid reason lease now h"

definition cancel_run_with_cleanup ::
  "string \<Rightarrow> MasterLease \<Rightarrow> string \<Rightarrow> time \<Rightarrow> HubStore \<Rightarrow> run_error + HubStore" where
  \<comment> \<open>\<open>cancel_with_cleanup\<close> of the run repository with the approval repository and the capability
      broker the application passes; the broker hands over to \<open>revoke_unconsumed_for_run_in\<close>\<close>
  "cancel_run_with_cleanup wid lease reason now h =
     fenced (hub_run h) lease now (known_run (hub_run h) wid
       (if run_status (run (hub_run h)) \<in> set RUN_TERMINAL \<and> \<not> cancelling (hub_run h) then Inr h
        else if merge_finalizing_at (run (hub_run h)) \<noteq> None then Inl ConcurrencyConflict
        else and_then
          (if cancelling (hub_run h) then Inr h
           else lift_run h (update_run (\<lambda>w. cancel_requested_at w = None \<and> merge_finalizing_at w = None)
             (\<lambda>w. w\<lparr>cancel_requested_at := Some now\<rparr>) (hub_run h))) (\<lambda>h1.
        and_then (invalidate_for_run_in wid lease reason now h1) (\<lambda>h2.
        and_then (revoke_unconsumed_for_run_in wid lease reason now h2) (\<lambda>h3.
        and_then (lift_run h3 (complete_cancel_in lease now (hub_run h3))) (\<lambda>h4.
        let text = ''cancellation and all dependent authorization state committed atomically'' in
        Inr (h4\<lparr>hub_run := emit (RecoveryAction (fencing_token lease) ''cancel'' ''cancelled'' text) (hub_run h4),
           security_events := security_events h4 @
             [\<lparr>security_task = None, security_type = ''workflow.cancellation_completed'', severity = INFO,
               security_reason = text\<rparr>]\<rparr>)))))))"

end
