(* ===== verification/Approval_Evidence.thy ===== *)
theory Approval_Evidence
  imports Approval_Store Node_Handlers Executable_Validation
begin

text \<open>
  \<open>workflow/approval_evidence.py\<close>: the manifest that an approval of a change set is bound to. It is
  computed from the compiled graph, the node rows and the reports of the guards, tests and risk
  classification between the source task and the approval, and it cannot be built unless each of
  them completed with a durable report on this change set. The artifact files are a parameter
  \<open>read\<close>: what \<open>get_and_verify\<close> returns for the run's session and the change set's task, with the
  JSON value of the content, if it is JSON. The text of a timestamp is the parameter \<open>stamp\<close>.
\<close>

subsection \<open>Closure by layers\<close>

definition layer :: "'a arcs \<Rightarrow> 'a set \<Rightarrow> 'a set" where
  \<comment> \<open>\<open>{e.to_node for e in edges if e.from_node in seen and e.to_node not in seen}\<close>\<close>
  "layer es S = set (map snd (filter (\<lambda>e. fst e \<in> S \<and> snd e \<notin> S) es))"

lemma layer_iff: "w \<in> layer es S \<longleftrightarrow> (\<exists>v \<in> S. (v, w) \<in> set es) \<and> w \<notin> S"
  by (force simp: layer_def)

function layers :: "'a arcs \<Rightarrow> 'a set \<Rightarrow> 'a set" where
  \<comment> \<open>\<open>while True\<close>: add a layer until it is empty\<close>
  "layers es S = (if layer es S = {} then S else layers es (S \<union> layer es S))"
  by pat_completeness auto

termination
proof (relation "measure (\<lambda>(es, S). card (snd ` set es - S))")
  fix es :: "'a arcs" and S
  assume "layer es S \<noteq> {}"
  then obtain w where w: "w \<in> layer es S" by blast
  then have "w \<in> snd ` set es - S" by (force simp: layer_iff)
  then have "snd ` set es - (S \<union> layer es S) \<subset> snd ` set es - S" using w by blast
  then show "((es, S \<union> layer es S), es, S) \<in> measure (\<lambda>(es, S). card (snd ` set es - S))"
    by (simp add: psubset_card_mono)
qed simp

declare layers.simps [simp del]

lemma layers_closure: "layers es S = (set es)\<^sup>* `` S"
proof (induction es S rule: layers.induct)
  case (1 es S)
  show ?case
  proof (cases "layer es S = {}")
    case True
    have "w \<in> S" if "(v, w) \<in> (set es)\<^sup>*" "v \<in> S" for v w
      using that True by (induction rule: rtrancl_induct) (auto simp: layer_iff set_eq_iff)
    then show ?thesis by (auto simp: layers.simps [of es S] True)
  next
    case False
    have "layer es S \<subseteq> (set es)\<^sup>* `` S" by (auto simp: layer_iff intro: ImageI [OF r_into_rtrancl])
    then have "(set es)\<^sup>* `` (S \<union> layer es S) = (set es)\<^sup>* `` S" by (auto intro: rtrancl_trans)
    then show ?thesis using 1 False by (simp add: layers.simps [of es S])
  qed
qed

interpretation chain: closure_search "\<lambda>s es. layers es {s}" set
  by unfold_locales (auto simp: layers_closure)

subsection \<open>The reports\<close>

datatype evidence_error = ApprovalEvidenceError | ArtifactFailure \<comment> \<open>raised by \<open>get_and_verify\<close>\<close>

record ArtifactMeta =
  meta_id :: string
  meta_type :: string
  meta_sha256 :: string
  meta_size :: nat
  meta_redacted :: bool

record ChangeSetDocument =
  \<comment> \<open>what is read of a verified \<open>ChangeSetRecord\<close> beside its row\<close>
  pre_state_hash :: string
  post_state_hash :: string
  document_sha256 :: string \<comment> \<open>the digest of the stored document\<close>
  evidence_refs :: "ArtifactRef list"

type_synonym artifact_reader = "string \<Rightarrow> (ArtifactMeta \<times> json option) option"

definition SECURITY_TYPES :: "NodeType list" where
  "SECURITY_TYPES = [PATCH_GUARD, COMMAND_GUARD, TEST, RISK_CLASSIFIER]"

fun RiskLevel_of :: "string \<Rightarrow> RiskLevel option" where
  \<comment> \<open>the constructor of the enumeration\<close>
  "RiskLevel_of s = find (\<lambda>r. RiskLevel_value r = s) [L0, L1, L2, L3, L4]"

fun field :: "json \<Rightarrow> string \<Rightarrow> json option" where
  \<comment> \<open>\<open>decoded.get(k)\<close> of a dictionary\<close>
  "field (JObj kvs) k = map_of kvs k"
| "field _ k = None"

definition artifact_json :: "ArtifactMeta \<Rightarrow> json" where
  "artifact_json m = JObj
     [(''artifact_id'', JStr (meta_id m)), (''artifact_type'', JStr (meta_type m)),
      (''sha256'', JStr (meta_sha256 m)), (''size_bytes'', JInt (int (meta_size m))),
      (''redacted'', JBool (meta_redacted m)), (''content_sha256'', JStr (meta_sha256 m))]"

definition node_json_of :: "NodeRun \<Rightarrow> json \<Rightarrow> json" where
  "node_json_of r output = JObj
     [(''node_run_id'', JStr (node_run_id r)), (''node_id'', JStr (nr_node_id r)),
      (''node_type'', JStr (NodeType_value (nr_node_type r))), (''attempt'', JInt (int (attempt r))),
      (''status'', JStr (NodeRunStatus_value (nr_status r))),
      (''outcome'', opt_json (\<lambda>oc. JStr (NodeOutcome_value oc)) (nr_outcome r)),
      (''error_code'', opt_json JStr (nr_error_code r)), (''output_artifact'', output)]"

definition report_of ::
  "artifact_reader \<Rightarrow> string \<Rightarrow> NodeRun \<Rightarrow> evidence_error + json \<times> RiskLevel option" where
  \<comment> \<open>the node's output artifact: its entry, and the level a risk classifier reports\<close>
  "report_of read cs r =
     (let security = nr_node_type r \<in> set SECURITY_TYPES in
      case output_artifact_id r of
        None \<Rightarrow> (if security then Inl ApprovalEvidenceError else Inr (JNull, None))
      | Some i \<Rightarrow>
          (case read i of
             None \<Rightarrow> Inl ArtifactFailure
           | Some (m, decoded) \<Rightarrow>
               (if security \<and> map_option (\<lambda>d. field d ''change_set_id'') decoded \<noteq> Some (Some (JStr cs))
                then Inl ApprovalEvidenceError
                else if nr_node_type r \<noteq> RISK_CLASSIFIER then Inr (artifact_json m, None)
                else case field (the decoded) ''effective_risk'' of
                  Some (JStr s) \<Rightarrow>
                    (case RiskLevel_of s of
                       None \<Rightarrow> Inl ApprovalEvidenceError | Some l \<Rightarrow> Inr (artifact_json m, Some l))
                | _ \<Rightarrow> Inl ApprovalEvidenceError)))"

definition passed_row :: "NodeRun \<Rightarrow> bool" where
  "passed_row r \<longleftrightarrow> nr_status r = NodeRunStatus.COMPLETED \<and> nr_outcome r = Some NodeOutcome.SUCCESS"

definition evidence_node ::
  "artifact_reader \<Rightarrow> CompiledGraph \<Rightarrow> string \<Rightarrow> NodeRun \<Rightarrow> evidence_error + json \<times> RiskLevel option" where
  "evidence_node read g cs r =
     (if nr_node_id r \<notin> node_id ` set (compiled_nodes g) then Inl ApprovalEvidenceError
      else case report_of read cs r of
        Inl e \<Rightarrow> Inl e
      | Inr (output, level) \<Rightarrow>
          (if nr_node_type r \<in> set SECURITY_TYPES \<and> \<not> passed_row r then Inl ApprovalEvidenceError
           else Inr (node_json_of r output, level)))"

fun evidence_nodes ::
  "artifact_reader \<Rightarrow> CompiledGraph \<Rightarrow> string \<Rightarrow> NodeRun list \<Rightarrow>
     evidence_error + (json \<times> RiskLevel option) list" where
  "evidence_nodes read g cs [] = Inr []"
| "evidence_nodes read g cs (r # rs) =
     (case evidence_node read g cs r of
        Inl e \<Rightarrow> Inl e
      | Inr x \<Rightarrow> (case evidence_nodes read g cs rs of Inl e \<Rightarrow> Inl e | Inr xs \<Rightarrow> Inr (x # xs)))"

definition reported_risk :: "(json \<times> RiskLevel option) list \<Rightarrow> RiskLevel" where
  \<comment> \<open>\<open>effective_risk\<close> after the loop\<close>
  "reported_risk entries =
     foldl (\<lambda>acc x. case snd x of None \<Rightarrow> acc | Some l \<Rightarrow> max_risk acc l) L0 entries"

subsection \<open>Capability lineage\<close>

type_synonym lineage = "PrivilegeRow \<times> ApprovalRecord option \<times> GrantRow option"

definition outer_join :: "'a list \<Rightarrow> 'a option list" where
  \<comment> \<open>\<open>LEFT JOIN\<close>\<close>
  "outer_join xs = (if xs = [] then [None] else map Some xs)"

definition list_privilege_lineage_for_run :: "string \<Rightarrow> HubStore \<Rightarrow> lineage list" where
  "list_privilege_lineage_for_run wid h =
     concat (map (\<lambda>q. concat (map (\<lambda>a. map (\<lambda>g. (q, a, g))
         (outer_join (filter (\<lambda>g. grant_request_id (grant g) = request_id (request q)) (capability_grants h))))
         (outer_join (filter (\<lambda>a. subject (approval a) = PrivilegeSubject (request_id (request q))) (approvals h)))))
       (sort_key (\<lambda>q. request_id (request q))
         (filter (\<lambda>q. node_run_of h (request_node_run_id (request q)) = Some wid) (privilege_requests h))))"

fun CapabilityType_value :: "CapabilityType \<Rightarrow> string" where
  "CapabilityType_value MODIFY_DEPENDENCY = ''modify_dependency''"
| "CapabilityType_value MODIFY_CONFIG = ''modify_config''"

definition lineage_json :: "(time \<Rightarrow> string) \<Rightarrow> lineage \<Rightarrow> json" where
  \<comment> \<open>\<open>node_of\<close> is not needed: the row carries the node run of the request\<close>
  "lineage_json stamp = (\<lambda>(q, a, g).
     JObj
      [(''request_id'', JStr (request_id (request q))),
       (''source_task_id'', JStr (request_task_id (request q))),
       (''source_node_run_id'', JStr (request_node_run_id (request q))),
       (''capability'', JStr (CapabilityType_value (requested_capability (request q)))),
       (''action'', JStr (PrivilegeAction_value (requested_action (request q)))),
       (''resource'', JStr (requested_resource (request q))),
       (''effective_risk'', JStr (RiskLevel_value (request_risk (request q)))),
       (''request_status'', JStr (PrivilegeRequestStatus_value (request_status (request q)))),
       (''approval_id'', opt_json (\<lambda>x. JStr (ap_id x)) a),
       (''approval_subject_sha256'', opt_json (\<lambda>x. JStr (subject_sha256 (approval x))) a),
       (''approval_status'', opt_json (\<lambda>x. JStr (ApprovalStatus_value (ap_status (approval x)))) a),
       (''approval_version'', opt_json (\<lambda>x. JInt (approval_version (approval x))) a),
       (''approval_expires_at'', opt_json (\<lambda>x. JStr (stamp (approval_expires_at (approval x)))) a),
       (''grant_id'', opt_json (\<lambda>x. JStr (grant_id (grant x))) g),
       (''target_task_id'', opt_json (\<lambda>x. JStr (grant_target_task_id (grant x))) g),
       (''grant_action'', opt_json (\<lambda>x. JStr (PrivilegeAction_value (grant_action (grant x)))) g),
       (''grant_resource'', opt_json (\<lambda>x. JStr (grant_resource (grant x))) g),
       (''grant_expires_at'', opt_json (\<lambda>x. JStr (stamp (grant_expires_at (grant x)))) g),
       (''consumed_at'', opt_json (\<lambda>x. opt_json (\<lambda>t. JStr (stamp t)) (consumed_at (grant x))) g),
       (''consumed_fencing_token'', opt_json (\<lambda>x. opt_json JInt (consumed_fencing_token (grant x))) g),
       (''revoked_at'', opt_json (\<lambda>x. opt_json (\<lambda>t. JStr (stamp t)) (revoked_at (grant x))) g),
       (''revocation_reason'', opt_json (\<lambda>x. opt_json JStr (revocation_reason (grant x))) g)])"

definition lineage_consistent :: "lineage \<Rightarrow> bool" where
  "lineage_consistent = (\<lambda>(q, a, g).
     (request_status (request q) \<in> {PrivilegeRequestStatus.APPROVED, PrivilegeRequestStatus.CONSUMED} \<longrightarrow> g \<noteq> None) \<and>
     (case g of
        None \<Rightarrow> True
      | Some x \<Rightarrow> grant_action (grant x) = requested_action (request q) \<and>
          grant_resource (grant x) = requested_resource (request q)) \<and>
     (request_status (request q) = PrivilegeRequestStatus.CONSUMED \<longrightarrow>
        (case g of None \<Rightarrow> False | Some x \<Rightarrow> consumed_fencing_token (grant x) \<noteq> None)))"

subsection \<open>The manifest\<close>

definition evidence_chain :: "CompiledGraph \<Rightarrow> string \<Rightarrow> string set" where
  \<comment> \<open>\<open>forward & backward\<close>\<close>
  "evidence_chain g source =
     layers (map edge_pair (compiled_edges g)) {source} \<inter>
     layers (map prod.swap (map edge_pair (compiled_edges g)))
       (set (map node_id (filter (\<lambda>n. node_type n = APPROVAL) (compiled_nodes g))))"

definition approval_nodes :: "CompiledGraph \<Rightarrow> string set" where
  "approval_nodes g = set (map node_id (filter (\<lambda>n. node_type n = APPROVAL) (compiled_nodes g)))"

definition evidence_rows :: "CompiledGraph \<Rightarrow> NodeRun \<Rightarrow> NodeRun list \<Rightarrow> NodeRun list" where
  \<comment> \<open>\<open>sorted(selected_nodes, \<dots>)\<close>: of the source only the attempt that made the change set\<close>
  "evidence_rows g source rows =
     sort_key (\<lambda>r. (nr_node_id r, attempt r))
       (filter (\<lambda>r. nr_node_id r \<in> evidence_chain g (nr_node_id source) - approval_nodes g \<and>
          (node_run_id r = node_run_id source \<or> nr_node_id r \<noteq> nr_node_id source)) rows)"

definition required_nodes :: "CompiledGraph \<Rightarrow> NodeRun \<Rightarrow> string set" where
  "required_nodes g source =
     set (map node_id (filter (\<lambda>n. node_id n \<in> evidence_chain g (nr_node_id source) - approval_nodes g \<and>
       node_type n \<in> set SECURITY_TYPES) (compiled_nodes g)))"

definition approval_scope_of :: "WorkflowNode \<Rightarrow> string list" where
  \<comment> \<open>\<open>sorted(set(\<dots>))\<close>\<close>
  "approval_scope_of n =
     sort (remdups (opt_list (effective_allowed_files n) @ opt_list (effective_new_files n)))"

definition evidence_ref_json :: "ArtifactRef \<Rightarrow> json" where
  "evidence_ref_json r = JObj
     [(''artifact_id'', JStr (ref_artifact_id r)), (''artifact_type'', JStr (ref_artifact_type r)),
      (''sha256'', JStr (ref_sha256 r)), (''size_bytes'', JInt (int (ref_size_bytes r)))]"

definition change_set_json :: "ChangeSetRow \<Rightarrow> ChangeSetDocument \<Rightarrow> json" where
  "change_set_json c d = JObj
     [(''change_set_id'', JStr (change_set_id c)), (''base_commit'', JStr (change_set_base c)),
      (''pre_state_hash'', JStr (pre_state_hash d)), (''post_state_hash'', JStr (post_state_hash d)),
      (''patch_sha256'', JStr (change_set_patch c)), (''manifest_sha256'', JStr (document_sha256 d)),
      (''evidence_refs'', JArr (map evidence_ref_json (sort_key ref_artifact_id (evidence_refs d))))]"

definition build_manifest ::
  "(time \<Rightarrow> string) \<Rightarrow> artifact_reader \<Rightarrow> WorkflowRun \<Rightarrow> ChangeSetRow \<Rightarrow> ChangeSetDocument \<Rightarrow> string \<Rightarrow>
     NodeRun list \<Rightarrow> string option \<Rightarrow> lineage list \<Rightarrow> evidence_error + json \<times> RiskLevel" where
  \<comment> \<open>\<open>i\<close> is the node run of the change set's task; the second component is \<open>effective_risk\<close>\<close>
  "build_manifest stamp read w c d i rows policy lineages =
     (let g = compiled_snapshot w in
      case find (\<lambda>r. node_run_id r = i) rows of
        None \<Rightarrow> Inl ApprovalEvidenceError
      | Some source \<Rightarrow>
          (if nr_node_id source \<notin> evidence_chain g (nr_node_id source) \<or>
             approval_nodes g \<inter> evidence_chain g (nr_node_id source) = {}
           then Inl ApprovalEvidenceError
           else if \<not> required_nodes g source \<subseteq> nr_node_id ` set (evidence_rows g source rows)
           then Inl ApprovalEvidenceError
           else case evidence_nodes read g (change_set_id c) (evidence_rows g source rows) of
             Inl e \<Rightarrow> Inl e
           | Inr entries \<Rightarrow>
               (case find (\<lambda>n. node_id n = nr_node_id source) (compiled_nodes g) of
                  None \<Rightarrow> Inl ApprovalEvidenceError
                | Some n \<Rightarrow>
                    (let risk = max_risk (max_risk (reported_risk entries)
                           (case policy_risk_floor n of None \<Rightarrow> L0 | Some l \<Rightarrow> l)) (risk_level_hint n)
                     in case (case policy of None \<Rightarrow> Inr JNull
                              | Some a \<Rightarrow> (case read a of None \<Rightarrow> Inl ArtifactFailure
                                  | Some (m, _) \<Rightarrow> Inr (artifact_json m))) of
                          Inl e \<Rightarrow> Inl e
                        | Inr policy_entry \<Rightarrow>
                            (if \<not> list_all lineage_consistent lineages then Inl ApprovalEvidenceError
                             else Inr (JObj
                               [(''schema'', JStr ''hub210-approval-evidence-v1''),
                                (''workflow_run_id'', JStr (workflow_run_id w)),
                                (''session_id'', JStr (run_session_id w)),
                                (''compiled_snapshot_hash'', JStr (compiled_snapshot_hash w)),
                                (''layout_snapshot_hash'', JStr (layout_snapshot_hash w)),
                                (''policy_version'', JStr (run_policy_version w)),
                                (''current_commit'', JStr (current_commit w)),
                                (''change_set'', change_set_json c d),
                                (''scope'', JArr (map JStr (approval_scope_of n))),
                                (''effective_risk'', JStr (RiskLevel_value risk)),
                                (''runtime_policy'', policy_entry),
                                (''capability_lineage'', JArr (map (lineage_json stamp) lineages)),
                                (''nodes'', JArr (map fst entries))], risk))))))"

definition manifest_hash :: "(string \<Rightarrow> string) \<Rightarrow> json \<Rightarrow> string" where
  "manifest_hash H m = H (dumps m)"

subsection \<open>What a manifest stands for\<close>

lemma evidence_nodesD:
  "evidence_nodes read g cs rs = Inr xs \<Longrightarrow> r \<in> set rs \<Longrightarrow>
     \<exists>x \<in> set xs. evidence_node read g cs r = Inr x"
  by (induction rs arbitrary: xs) (auto split: sum.splits)

lemma evidence_nodeD:
  assumes "evidence_node read g cs r = Inr x" and "nr_node_type r \<in> set SECURITY_TYPES"
  shows "passed_row r" and "\<exists>i m d. output_artifact_id r = Some i \<and> read i = Some (m, Some d) \<and>
      field d ''change_set_id'' = Some (JStr cs)"
    and "nr_node_type r = RISK_CLASSIFIER \<Longrightarrow> \<exists>i m d l. output_artifact_id r = Some i \<and>
      read i = Some (m, Some d) \<and> field d ''effective_risk'' = Some (JStr (RiskLevel_value l)) \<and> snd x = Some l"
proof -
  have f: "RiskLevel_value l = s" if "RiskLevel_of s = Some l" for s l
    using that by (simp split: if_splits)
  have r: "\<exists>y. report_of read cs r = Inr y \<and> snd y = snd x" and p: "passed_row r"
    using assms by (auto simp: evidence_node_def split: if_splits sum.splits)
  show "passed_row r" by (rule p)
  show bound: "\<exists>i m d. output_artifact_id r = Some i \<and> read i = Some (m, Some d) \<and>
      field d ''change_set_id'' = Some (JStr cs)"
    using r assms(2) by (auto simp: report_of_def Let_def split: option.splits if_splits prod.splits)
  show "\<exists>i m d l. output_artifact_id r = Some i \<and> read i = Some (m, Some d) \<and>
      field d ''effective_risk'' = Some (JStr (RiskLevel_value l)) \<and> snd x = Some l"
    if t: "nr_node_type r = RISK_CLASSIFIER"
  proof -
    obtain i m d where d: "output_artifact_id r = Some i" "read i = Some (m, Some d)"
        "field d ''change_set_id'' = Some (JStr cs)"
      using bound by blast
    then have "\<exists>s l. field d ''effective_risk'' = Some (JStr s) \<and> RiskLevel_of s = Some l \<and> snd x = Some l"
      using r assms(2) t
      by (auto simp: report_of_def Let_def simp del: RiskLevel_of.simps split: option.splits json.splits)
        (metis)
    then show ?thesis using d f by blast
  qed
qed

lemma reported_risk_ge:
  assumes "x \<in> set entries" and "snd x = Some l"
  shows "l \<le> reported_risk entries"
proof -
  have mono: "a \<le> foldl (\<lambda>acc x. case snd x of None \<Rightarrow> acc | Some l \<Rightarrow> max_risk acc l) a es" for a es
    by (induction es arbitrary: a) (auto split: option.splits intro: order_trans [OF max.cobounded1])
  have "l \<le> foldl (\<lambda>acc x. case snd x of None \<Rightarrow> acc | Some l \<Rightarrow> max_risk acc l) a entries" for a
    using assms
  proof (induction entries arbitrary: a)
    case (Cons y ys)
    show ?case
    proof (cases "x = y")
      case True
      then show ?thesis using Cons.prems mono [of "max a l" ys] by (auto intro: order_trans [OF max.cobounded2])
    qed (use Cons in auto)
  qed simp
  then show ?thesis by (simp add: reported_risk_def)
qed

lemma evidence_chain_iff:
  "x \<in> evidence_chain g s \<longleftrightarrow>
     (s, x) \<in> (set (map edge_pair (compiled_edges g)))\<^sup>* \<and>
     (\<exists>a \<in> approval_nodes g. (x, a) \<in> (set (map edge_pair (compiled_edges g)))\<^sup>*)"
proof -
  let ?E = "set (map edge_pair (compiled_edges g))"
  have "set (map prod.swap (map edge_pair (compiled_edges g))) = ?E\<inverse>" by force
  then show ?thesis
    unfolding evidence_chain_def layers_closure approval_nodes_def
    by (auto simp: rtrancl_converse simp del: set_map)
qed

definition report_on :: "artifact_reader \<Rightarrow> string \<Rightarrow> NodeRun \<Rightarrow> json option" where
  \<comment> \<open>the durable report of a node on a change set\<close>
  "report_on read cs r =
     (case output_artifact_id r of
        None \<Rightarrow> None
      | Some i \<Rightarrow>
          (case read i of
             Some (m, Some d) \<Rightarrow> (if field d ''change_set_id'' = Some (JStr cs) then Some d else None)
           | _ \<Rightarrow> None))"

text \<open>
  C14: the evidence of an approval is complete. If the manifest of a change set can be built, then
  every guard, test and risk classifier that lies between its source task and an approval node has
  run, every one of its runs ended with success and left a durable report on exactly this change
  set, and the risk the manifest states is at least what a classifier reported and at least the
  floor and the hint of the source task.
\<close>

theorem evidence_is_complete:
  assumes "build_manifest stamp read w c d i rows policy lineages = Inr (m, risk)"
    and "find (\<lambda>r. node_run_id r = i) rows = Some source"
    and "n \<in> set (compiled_nodes (compiled_snapshot w))" and "node_type n \<in> set SECURITY_TYPES"
    and "node_id n \<noteq> nr_node_id source"
    and "node_id n \<in> evidence_chain (compiled_snapshot w) (nr_node_id source) - approval_nodes (compiled_snapshot w)"
    and "\<forall>r \<in> set rows. nr_node_id r = node_id n \<longrightarrow> nr_node_type r = node_type n"
  shows "(\<exists>r \<in> set rows. nr_node_id r = node_id n) \<and>
    (\<forall>r \<in> set rows. nr_node_id r = node_id n \<longrightarrow> passed_row r \<and>
      (\<exists>report. report_on read (change_set_id c) r = Some report \<and>
        (node_type n = RISK_CLASSIFIER \<longrightarrow>
          (\<exists>l. field report ''effective_risk'' = Some (JStr (RiskLevel_value l)) \<and> l \<le> risk)))) \<and>
    (\<forall>s. find (\<lambda>x. node_id x = nr_node_id source) (compiled_nodes (compiled_snapshot w)) = Some s \<longrightarrow>
      risk_level_hint s \<le> risk \<and> (\<forall>l. policy_risk_floor s = Some l \<longrightarrow> l \<le> risk))"
proof -
  let ?g = "compiled_snapshot w"
  obtain entries s where sub: "required_nodes ?g source \<subseteq> nr_node_id ` set (evidence_rows ?g source rows)"
    and e: "evidence_nodes read ?g (change_set_id c) (evidence_rows ?g source rows) = Inr entries"
    and s: "find (\<lambda>x. node_id x = nr_node_id source) (compiled_nodes ?g) = Some s"
    and risk: "risk = max_risk (max_risk (reported_risk entries)
      (case policy_risk_floor s of None \<Rightarrow> L0 | Some l \<Rightarrow> l)) (risk_level_hint s)"
    using assms(1,2) unfolding build_manifest_def Let_def
    by (auto split: if_splits sum.splits option.splits)
  have rows: "r \<in> set (evidence_rows ?g source rows)" if "r \<in> set rows" "nr_node_id r = node_id n" for r
    using that assms(5,6) by (simp add: evidence_rows_def)
  have "node_id n \<in> required_nodes ?g source"
    using assms(3,4,6) by (auto simp: required_nodes_def)
  then have "node_id n \<in> nr_node_id ` set (evidence_rows ?g source rows)" using sub by blast
  then have some: "\<exists>r \<in> set rows. nr_node_id r = node_id n"
    by (auto simp: evidence_rows_def)
  have each: "passed_row r \<and> (\<exists>report. report_on read (change_set_id c) r = Some report \<and>
      (node_type n = RISK_CLASSIFIER \<longrightarrow>
        (\<exists>l. field report ''effective_risk'' = Some (JStr (RiskLevel_value l)) \<and> l \<le> risk)))"
    if r: "r \<in> set rows" "nr_node_id r = node_id n" for r
  proof -
    have t: "nr_node_type r = node_type n" using assms(7) r by blast
    obtain x where x: "x \<in> set entries" "evidence_node read ?g (change_set_id c) r = Inr x"
      using evidence_nodesD [OF e rows [OF r]] by blast
    note parts = evidence_nodeD [OF x(2), unfolded t, OF assms(4)]
    obtain a mt report where report: "output_artifact_id r = Some a" "read a = Some (mt, Some report)"
      "field report ''change_set_id'' = Some (JStr (change_set_id c))"
      using parts(2) by blast
    have "\<exists>l. field report ''effective_risk'' = Some (JStr (RiskLevel_value l)) \<and> l \<le> risk"
      if k: "node_type n = RISK_CLASSIFIER"
    proof -
      obtain a' m' report' l where "output_artifact_id r = Some a'" "read a' = Some (m', Some report')"
        and l': "field report' ''effective_risk'' = Some (JStr (RiskLevel_value l))" "snd x = Some l"
        using parts(3) [OF k] by blast
      then have l: "field report ''effective_risk'' = Some (JStr (RiskLevel_value l))" "snd x = Some l"
        using report by auto
      then show ?thesis using reported_risk_ge [OF x(1) l(2)] risk by (auto simp: le_max_iff_disj)
    qed
    then show ?thesis using parts(1) report by (auto simp: report_on_def)
  qed
  show ?thesis
    using some each s risk by (auto simp: le_max_iff_disj)
qed

definition sample_chain :: CompiledGraph where
  "sample_chain = \<lparr>compiled_schema_version = ''1'', source_author_hash = [], integration_base_commit = [],
      policy_version = ''p'', agent_catalog_snapshot_hash = [],
      compiled_nodes = [sample_writer, new_node ''g'' PATCH_GUARD ''g'', new_node ''k'' RISK_CLASSIFIER ''k'',
        new_node ''p'' APPROVAL ''p''],
      compiled_edges = [sample_edge ''1'' ''w'' ''g'' SUCCESS, sample_edge ''2'' ''g'' ''k'' SUCCESS,
        sample_edge ''3'' ''k'' ''p'' SUCCESS]\<rparr>"

definition sample_rows :: "NodeRun list" where
  \<comment> \<open>every node of the sample graph has completed\<close>
  "sample_rows = map (\<lambda>n. (first_attempt sample_hash ''r'' 5 n)\<lparr>node_run_id := node_id n,
       nr_status := NodeRunStatus.COMPLETED, nr_outcome := Some NodeOutcome.SUCCESS,
       output_artifact_id := Some (node_id n)\<rparr>) (compiled_nodes sample_chain)"

definition sample_reader :: artifact_reader where
  "sample_reader i = Some (\<lparr>meta_id = i, meta_type = ''report'', meta_sha256 = ''0'', meta_size = 1,
       meta_redacted = True\<rparr>,
     Some (JObj [(''change_set_id'', JStr ''c''), (''effective_risk'', JStr ''L2'')]))"

definition sample_evidence :: "evidence_error + json \<times> RiskLevel" where
  "sample_evidence = build_manifest (\<lambda>_. ''t'') sample_reader
     \<lparr>workflow_run_id = ''r'', run_session_id = ''s'', run_base_commit = [], current_commit = [],
       author_snapshot = \<lparr>schema_version = ''1'', nodes = [], edges = []\<rparr>, author_snapshot_hash = [],
       compiled_snapshot = sample_chain, compiled_snapshot_hash = [], layout_digest = [],
       layout_snapshot_hash = [], run_policy_version = ''p'',
       catalog_snapshot = \<lparr>agents = [], catalog_hash = []\<rparr>, catalog_snapshot_hash = [],
       run_status = WorkflowRunStatus.RUNNING, run_started_at = None, run_finished_at = None,
       cancel_requested_at = None, merge_finalizing_at = None\<rparr>
     \<lparr>change_set_id = ''c'', change_set_task_id = ''t'', change_set_base = ''b'', change_set_patch = ''p'',
       change_set_status = ChangeSetStatus.TEST_PASSED\<rparr>
     \<lparr>pre_state_hash = ''x'', post_state_hash = ''y'', document_sha256 = ''z'', evidence_refs = []\<rparr>
     ''w'' sample_rows None []"

lemma sample_evidence_facts:
  "\<not> isl sample_evidence"
  "\<exists>s. find (\<lambda>r. node_run_id r = ''w'') sample_rows = Some s \<and> nr_node_id s = ''w''"
  "''k'' \<in> evidence_chain sample_chain ''w'' - approval_nodes sample_chain"
  "\<forall>r \<in> set sample_rows. nr_node_id r = ''k'' \<longrightarrow> nr_node_type r = RISK_CLASSIFIER"
proof -
  show "\<not> isl sample_evidence" by code_simp
  have "case find (\<lambda>r. node_run_id r = ''w'') sample_rows of None \<Rightarrow> False | Some s \<Rightarrow> nr_node_id s = ''w''" by code_simp
  then show "\<exists>s. find (\<lambda>r. node_run_id r = ''w'') sample_rows = Some s \<and> nr_node_id s = ''w''"
    by (auto split: option.splits)
  show "''k'' \<in> evidence_chain sample_chain ''w'' - approval_nodes sample_chain" by code_simp
  show "\<forall>r \<in> set sample_rows. nr_node_id r = ''k'' \<longrightarrow> nr_node_type r = RISK_CLASSIFIER" by code_simp
qed

lemma evidence_is_complete_witness:
  "\<exists>m risk r report l. sample_evidence = Inr (m, risk) \<and> r \<in> set sample_rows \<and> nr_node_id r = ''k'' \<and>
     passed_row r \<and> report_on sample_reader ''c'' r = Some report \<and>
     field report ''effective_risk'' = Some (JStr (RiskLevel_value l)) \<and> l \<le> risk"
proof -
  obtain m risk where m: "sample_evidence = Inr (m, risk)"
    using sample_evidence_facts(1) by (metis isl_def surj_pair sum.exhaust)
  obtain s where s: "find (\<lambda>r. node_run_id r = ''w'') sample_rows = Some s" "nr_node_id s = ''w''"
    using sample_evidence_facts(2) by blast
  let ?n = "new_node ''k'' RISK_CLASSIFIER ''k''"
  have n: "?n \<in> set (compiled_nodes sample_chain)" "node_type ?n \<in> set SECURITY_TYPES" "node_id ?n = ''k''"
    "node_type ?n = RISK_CLASSIFIER"
    by (simp_all add: sample_chain_def SECURITY_TYPES_def new_node_def)
  have "(\<exists>r \<in> set sample_rows. nr_node_id r = ''k'') \<and>
    (\<forall>r \<in> set sample_rows. nr_node_id r = ''k'' \<longrightarrow> passed_row r \<and>
      (\<exists>report. report_on sample_reader ''c'' r = Some report \<and>
        (\<exists>l. field report ''effective_risk'' = Some (JStr (RiskLevel_value l)) \<and> l \<le> risk)))"
    using evidence_is_complete [OF m [unfolded sample_evidence_def] s(1), of ?n] n s(2) sample_evidence_facts(3,4)
    by simp
  then show ?thesis using m by blast
qed

end
