(* ===== verification/Approval_Manager.thy ===== *)
theory Approval_Manager
  imports Approvals Approval_Evidence
begin

text \<open>
  \<open>workflow/approval_manager.py\<close>: the approval of a change set is bound to its evidence, its base
  commit, its patch and its expiry. The manager is the one the application builds, with an artifact
  repository. Verifying and reading a stored change set is the parameter \<open>document\<close>, and
  \<open>isoformat\<close> the text of the expiry. \<open>prepare_changeset\<close> is a sequence of transactions: what an
  earlier one committed stays when a later one raises.
\<close>

definition change_set_for_source :: "HubStore \<Rightarrow> string \<Rightarrow> (ChangeSetRow \<times> TaskRow) option" where
  \<comment> \<open>\<open>get_for_source_node\<close>: the change set of the latest attempt that has one\<close>
  "change_set_for_source h source =
     (let found = concat (map (\<lambda>r. concat (map (\<lambda>t. map (\<lambda>c. (r, c, t))
            (filter (\<lambda>c. change_set_task_id c = task_id t) (change_sets (hub_run h))))
            (filter (\<lambda>t. task_node_run_id t = node_run_id r) (tasks (hub_run h)))))
          (filter (\<lambda>r. nr_node_id r = source) (node_runs (hub_run h))))
      in map_option snd (find (\<lambda>x. list_all (\<lambda>y. attempt (fst y) \<le> attempt (fst x)) found) found))"

definition opt_risk :: "RiskLevel \<Rightarrow> RiskLevel option \<Rightarrow> RiskLevel" where
  "opt_risk l0 r = (case r of None \<Rightarrow> l0 | Some l \<Rightarrow> l)"

definition subject_json ::
  "(time \<Rightarrow> string) \<Rightarrow> WorkflowRun \<Rightarrow> string \<Rightarrow> ChangeSetRow \<Rightarrow> ChangeSetDocument \<Rightarrow> string \<Rightarrow> string list \<Rightarrow>
     RiskLevel \<Rightarrow> time \<Rightarrow> json" where
  "subject_json isoformat w i c d evidence scope risk expiry = JObj
     [(''workflow_run_id'', JStr (workflow_run_id w)), (''node_run_id'', JStr i),
      (''change_set_id'', JStr (change_set_id c)), (''base_commit'', JStr (change_set_base c)),
      (''patch_sha256'', JStr (change_set_patch c)), (''evidence_sha256'', JStr evidence),
      (''scope'', JArr (map JStr scope)), (''effective_risk'', JStr (RiskLevel_value risk)),
      (''post_state_hash'', JStr (post_state_hash d)),
      (''compiled_snapshot_hash'', JStr (compiled_snapshot_hash w)),
      (''policy_version'', JStr (run_policy_version w)), (''current_commit'', JStr (current_commit w)),
      (''expires_at'', JStr (isoformat expiry))]"

definition subject_hash :: "(string \<Rightarrow> string) \<Rightarrow> json \<Rightarrow> string" where
  "subject_hash H j = H (dumps j)"

definition change_set_approval ::
  "(string \<Rightarrow> string) \<Rightarrow> (time \<Rightarrow> string) \<Rightarrow> (time \<Rightarrow> string) \<Rightarrow> (ChangeSetRow \<Rightarrow> run_error + ChangeSetDocument) \<Rightarrow>
     artifact_reader \<Rightarrow> int \<Rightarrow> NodeExecutionContext \<Rightarrow> time \<Rightarrow> HubStore \<Rightarrow> run_error + Approval" where
  \<comment> \<open>the first half of \<open>prepare_changeset\<close>: the approval that would be asked for now\<close>
  "change_set_approval H stamp isoformat document read ttl ctx now h =
     (let w = ctx_run ctx in
      case source_node_id (ctx_node ctx) of
        None \<Rightarrow> Inl (PyError ValueError)
      | Some source_id \<Rightarrow>
          (case (if workflow_run_id (run (hub_run h)) = workflow_run_id w
                 then change_set_for_source h source_id else None) of
             None \<Rightarrow> Inl RecordNotFound
           | Some (c, t) \<Rightarrow>
               and_then (document c) (\<lambda>d.
                 case find (\<lambda>n. node_id n = source_id) (compiled_nodes (compiled_snapshot w)) of
                   None \<Rightarrow> Inl (PyError ValueError)
                 | Some source \<Rightarrow>
                     (case build_manifest stamp read w c d (task_node_run_id t) (node_runs (hub_run h))
                         (runtime_policy_artifact t) (list_privilege_lineage_for_run (workflow_run_id w) h) of
                        Inl _ \<Rightarrow> Inl ConcurrencyConflict
                      | Inr (manifest, reported) \<Rightarrow>
                          (let evidence = manifest_hash H manifest;
                               scope = approval_scope_of source;
                               risk = max_risk (max_risk (opt_risk L1 (policy_risk_floor source))
                                 (risk_level_hint source)) reported;
                               expiry = now + seconds ttl;
                               sha = subject_hash H (subject_json isoformat w (node_run_id (ctx_node_run ctx)) c d
                                 evidence scope risk expiry)
                           in Inr \<lparr>approval_id = ''approval-cs-'' @ take 32 sha,
                                approval_run_id = workflow_run_id w,
                                approval_node_run_id = node_run_id (ctx_node_run ctx), subject_sha256 = sha,
                                evidence_sha256 = evidence, approval_risk = risk, approval_scope = scope,
                                ap_status = ApprovalStatus.PENDING, approval_version = 1,
                                approval_expires_at = expiry,
                                subject = ChangeSetSubject (change_set_id c) (change_set_base c)
                                  (change_set_patch c)\<rparr>)))))"

definition latest_for_change_set :: "HubStore \<Rightarrow> string \<Rightarrow> ApprovalRecord option" where
  \<comment> \<open>\<open>get_for_change_set\<close>\<close>
  "latest_for_change_set h c =
     latest approval_created_at
       (filter (\<lambda>r. case subject (approval r) of ChangeSetSubject d _ _ \<Rightarrow> d = c | PrivilegeSubject _ \<Rightarrow> False)
         (approvals h))"

definition same_subject :: "Approval \<Rightarrow> Approval \<Rightarrow> bool" where
  "same_subject a b \<longleftrightarrow> subject a = subject b \<and> evidence_sha256 a = evidence_sha256 b \<and>
     approval_risk a = approval_risk b \<and> approval_scope a = approval_scope b"

definition settle_changeset ::
  "Approval \<Rightarrow> MasterLease \<Rightarrow> time \<Rightarrow> HubStore \<Rightarrow> HubStore \<times> (run_error + ApprovalRecord)" where
  \<comment> \<open>the latest approval, if it still stands for this subject, or a new one\<close>
  "settle_changeset a lease now h =
     (let fresh = (case create a lease None now h of Inl e \<Rightarrow> (h, Inl e) | Inr (h', r) \<Rightarrow> (h', Inr r)) in
      case latest_for_change_set h (subject_change_set (subject a)) of
        None \<Rightarrow> fresh
      | Some r \<Rightarrow>
          (if ap_status (approval r) \<in> {ApprovalStatus.PENDING, ApprovalStatus.APPROVED, ApprovalStatus.REJECTED}
           then if \<not> same_subject (approval r) a then (h, Inl ConcurrencyConflict)
             else if ap_status (approval r) = ApprovalStatus.APPROVED \<and> approval_expires_at (approval r) \<le> now
             then (h, Inl ConcurrencyConflict)
             else (h, Inr r)
           else fresh))"

definition prepare_changeset ::
  "(string \<Rightarrow> string) \<Rightarrow> (time \<Rightarrow> string) \<Rightarrow> (time \<Rightarrow> string) \<Rightarrow> (ChangeSetRow \<Rightarrow> run_error + ChangeSetDocument) \<Rightarrow>
     artifact_reader \<Rightarrow> int \<Rightarrow> NodeExecutionContext \<Rightarrow> MasterLease \<Rightarrow> time \<Rightarrow> HubStore \<Rightarrow>
     HubStore \<times> (run_error + ApprovalRecord)" where
  "prepare_changeset H stamp isoformat document read ttl ctx lease now h =
     (case change_set_approval H stamp isoformat document read ttl ctx now h of
        Inl e \<Rightarrow> (h, Inl e)
      | Inr a \<Rightarrow>
          (case latest_for_change_set h (subject_change_set (subject a)) of
             None \<Rightarrow> settle_changeset a lease now h
           | Some r \<Rightarrow>
               (if is_pending r \<and> approval_expires_at (approval r) \<le> now
                then case expire_due H lease (Some (workflow_run_id (ctx_run ctx))) now h of
                  Inl e \<Rightarrow> (h, Inl e)
                | Inr h1 \<Rightarrow> settle_changeset a lease now h1
                else settle_changeset a lease now h)))"

definition renew ::
  "(string \<Rightarrow> string) \<Rightarrow> (time \<Rightarrow> string) \<Rightarrow> (time \<Rightarrow> string) \<Rightarrow> (ChangeSetRow \<Rightarrow> run_error + ChangeSetDocument) \<Rightarrow>
     artifact_reader \<Rightarrow> string \<Rightarrow> int \<Rightarrow> string \<Rightarrow> Approval \<Rightarrow> MasterLease \<Rightarrow> time \<Rightarrow> HubStore \<Rightarrow>
     run_error + (HubStore \<times> ApprovalRecord)" where
  \<comment> \<open>the new subject hash must be that of the immutable subject as it is reconstructed now\<close>
  "renew H stamp isoformat document read old_id version confirm new lease now h =
     with_approval h old_id (\<lambda>r.
       case subject (approval r) of
         PrivilegeSubject _ \<Rightarrow> Inl (PyError ValueError)
       | ChangeSetSubject cid _ _ \<Rightarrow>
           (case find (\<lambda>c. change_set_id c = cid) (change_sets (hub_run h)) of
              None \<Rightarrow> Inl RecordNotFound
            | Some c \<Rightarrow> with_target h (change_set_task_id c) (\<lambda>source_row t.
                and_then (document c) (\<lambda>d.
                known_run (hub_run h) (approval_run_id (approval r))
                  (let w = run (hub_run h) in
                   case find (\<lambda>n. node_id n = nr_node_id source_row) (compiled_nodes (compiled_snapshot w)) of
                     None \<Rightarrow> Inl ConcurrencyConflict
                   | Some source \<Rightarrow>
                       (case build_manifest stamp read w c d (task_node_run_id t) (node_runs (hub_run h))
                           (runtime_policy_artifact t) (list_privilege_lineage_for_run (workflow_run_id w) h) of
                          Inl _ \<Rightarrow> Inl ConcurrencyConflict
                        | Inr (manifest, reported) \<Rightarrow>
                            (if subject_sha256 new \<noteq> subject_hash H (subject_json isoformat w
                                (approval_node_run_id new) c d (manifest_hash H manifest) (approval_scope_of source)
                                (max_risk (max_risk (opt_risk L1 (policy_risk_floor source))
                                   (risk_level_hint source)) reported) (approval_expires_at new))
                             then Inl (PyError ValueError)
                             else renew_changeset old_id version confirm new lease now h)))))))"

end
