(* ===== verification/Run_Frame.thy ===== *)
theory Run_Frame
  imports Run_Reachable
begin

text \<open>
  What the transactions of the run repository leave alone: the statuses of approvals, the leases
  and locks, and the change sets, of which only \<open>finalize_merge\<close> changes one, from approved to
  merged.
\<close>

definition other_tables ::
  "RunStore \<Rightarrow> ChangeSetRow list \<times> (string \<Rightarrow> string option) \<times> master_table \<times> lock_table" where
  "other_tables st = (change_sets st, approval_status st, master_leases st, file_locks st)"

named_theorems frame \<open>which rows a statement leaves as they are\<close>

lemma emit_frame [frame]: "other_tables (emit ev st) = other_tables st"
  by (simp add: other_tables_def emit_def)

lemma append_frame [frame]:
  "other_tables (append_run_state lease a b st) = other_tables st"
  "other_tables (append_node_state lease r ns oc t e st) = other_tables st"
  "other_tables (append_task_state lease w i t_id p ts e st) = other_tables st"
  by (simp_all add: append_run_state_def append_node_state_def append_task_state_def frame)

lemma field_frame [frame]:
  "other_tables (st\<lparr>run := w\<rparr>) = other_tables st"
  "other_tables (st\<lparr>node_runs := rows\<rparr>) = other_tables st"
  "other_tables (st\<lparr>tasks := ts\<rparr>) = other_tables st"
  "other_tables (st\<lparr>artifacts := as\<rparr>) = other_tables st"
  "other_tables (st\<lparr>session_status := s\<rparr>) = other_tables st"
  "other_tables (st\<lparr>integration_head_commit := c\<rparr>) = other_tables st"
  by (simp_all add: other_tables_def)

definition frames :: "('a \<Rightarrow> RunStore) \<Rightarrow> RunStore \<Rightarrow> run_error + 'a \<Rightarrow> bool" where
  \<comment> \<open>when it succeeds, the store in the result has the other tables of \<open>st\<close>\<close>
  "frames p st m \<longleftrightarrow> (\<forall>x. m = Inr x \<longrightarrow> other_tables (p x) = other_tables st)"

lemma framesD: "frames p st m \<Longrightarrow> m = Inr x \<Longrightarrow> other_tables (p x) = other_tables st"
  by (simp add: frames_def)

lemma frames_Inl: "frames p st (Inl e)"
  by (simp add: frames_def)

lemma frames_Inr: "other_tables (p x) = other_tables st \<Longrightarrow> frames p st (Inr x)"
  by (simp add: frames_def)

lemma frames_then:
  "frames id st m \<Longrightarrow> (\<And>st1. other_tables st1 = other_tables st \<Longrightarrow> frames p st1 (k st1)) \<Longrightarrow>
     frames p st (and_then m k)"
  by (fastforce simp: frames_def and_then_Inr)

lemma frames_pair:
  "frames fst st m \<Longrightarrow> (\<And>st1 y. other_tables st1 = other_tables st \<Longrightarrow> frames p st1 (k (st1, y))) \<Longrightarrow>
     frames p st (and_then m k)"
  by (fastforce simp: frames_def and_then_Inr)

lemma frames_skip: "(\<And>x. m = Inr x \<Longrightarrow> frames p st (k x)) \<Longrightarrow> frames p st (and_then m k)"
  by (fastforce simp: frames_def and_then_Inr)

lemma frames_if: "(b \<Longrightarrow> frames p st m) \<Longrightarrow> (\<not> b \<Longrightarrow> frames p st n) \<Longrightarrow> frames p st (if b then m else n)"
  by simp

lemma frames_option:
  "(x = None \<Longrightarrow> frames p st m) \<Longrightarrow> (\<And>y. x = Some y \<Longrightarrow> frames p st (k y)) \<Longrightarrow>
     frames p st (case x of None \<Rightarrow> m | Some y \<Rightarrow> k y)"
  by (cases x) simp_all

lemma frames_guard:
  "frames p st m \<Longrightarrow> frames p st (fenced st' lease now m)"
  "frames p st m \<Longrightarrow> frames p st (known_run st' wid m)"
  "(\<And>r. frames p st (k r)) \<Longrightarrow> frames p st (with_node st' i k)"
  "(\<And>r t. frames p st (g r t)) \<Longrightarrow> frames p st (with_source st' wid i g)"
  by (auto simp: fenced_def known_run_def with_node_def with_source_def frames_def split: option.split)

lemma frames_from: "frames p st1 m \<Longrightarrow> other_tables st1 = other_tables st \<Longrightarrow> frames p st m"
  by (simp add: frames_def)

lemma update_frames:
  "other_tables st' = other_tables st \<Longrightarrow> frames id st (update_node i allowed f st')"
  "other_tables st' = other_tables st \<Longrightarrow> frames id st (update_run allow g st')"
  "other_tables st' = other_tables st \<Longrightarrow> frames id st (update_task t_id ts h st')"
  by (simp_all add: update_node_def update_run_def update_task_def frames_def frame)

lemmas frames_rules = frames_Inl frames_guard frames_if frames_option update_frames frames_then frames_pair
  frames_skip frames_Inr

subsection \<open>The transactions\<close>

lemma start_run_frames: "frames id st (start_run lease now st)"
  unfolding start_run_def by (intro frames_rules) (simp_all add: frame)

lemma reconcile_node_frames: "frames fst (fst s) (reconcile_node g by_node lease now i s)"
proof (cases s)
  case (Pair st c)
  show ?thesis
    unfolding Pair reconcile_node_def prod.case fst_conv
    by (intro frames_rules) (simp_all add: frame)
qed

lemma reconcile_pass_frames: "frames fst (fst s) (reconcile_pass g by_node lease now is s)"
proof (induction "is" arbitrary: s)
  case Nil
  then show ?case by (simp add: frames_def)
next
  case (Cons i "is")
  show ?case
    using reconcile_node_frames [of s g by_node lease now i] Cons.IH
    by (fastforce simp: frames_def and_then_Inr)
qed

lemma reconcile_loop_frames: "frames id st (reconcile_loop g order lease now st)"
proof (induction g order lease now st rule: reconcile_loop.induct)
  case (1 g order lease now st)
  show ?case
  proof (cases "reconcile_pass g (dict_by nr_node_id (node_runs st)) lease now order (st, False)")
    case (Inr x)
    obtain st' c where x: "x = (st', c)" by (cases x)
    have "other_tables st' = other_tables st"
      using reconcile_pass_frames [of "(st, False)"] Inr x by (fastforce simp: frames_def)
    then show ?thesis
      using 1 [OF Inr x [symmetric]] Inr x by (auto simp: reconcile_loop.simps [of g order lease now st] frames_def)
  qed (simp add: reconcile_loop.simps [of g order lease now st] frames_def)
qed

lemma finish_run_frames: "frames id st (finish_run lease target now st)"
  unfolding finish_run_def by (intro frames_rules) (simp_all add: frame)

lemma reconcile_frames: "other_tables st' = other_tables st \<Longrightarrow> frames id st (reconcile lease now st')"
proof -
  have "frames id st' (reconcile lease now st')"
    unfolding reconcile_def Let_def
    by (intro frames_rules reconcile_loop_frames finish_run_frames) (simp_all add: frame)
  then show "other_tables st' = other_tables st \<Longrightarrow> ?thesis" by (rule frames_from)
qed

lemma start_frames: "frames id st (start_and_reconcile H cd wid lease now st)"
  unfolding start_and_reconcile_def
  by (intro frames_guard frames_if frames_Inl frames_then [OF start_run_frames] reconcile_frames frames_Inr)
    (simp_all add: frame)

lemma claim_frames: "frames fst st (claim_next H cd wid lease now st)"
  unfolding claim_next_def Let_def
  by (intro frames_rules) (simp_all add: frame)

lemma complete_frames: "frames id st (complete_node H i target oc summary lease output error now st)"
  unfolding complete_node_def
  by (intro frames_rules) (simp_all add: frame)

lemma attach_frames: "frames id st (attach_completed_node_artifact i art lease now st)"
  unfolding attach_completed_node_artifact_def
  by (intro frames_rules) (simp_all add: frame)

lemma ask_cancel_frames: "frames id st (request_cancel wid lease now st)"
  unfolding request_cancel_def
  by (intro frames_rules) (simp_all add: frame)

lemma cancel_nodes_frames: "frames id st (cancel_nodes lease now rs st)"
proof (induction rs arbitrary: st)
  case Nil
  then show ?case by (simp add: frames_def)
next
  case (Cons r rs)
  show ?case
    unfolding cancel_nodes.simps
    by (intro frames_then update_frames refl frames_from [OF Cons.IH]) (simp_all add: frame)
qed

lemma cancel_in_frames: "other_tables st' = other_tables st \<Longrightarrow> frames id st (complete_cancel_in lease now st')"
proof -
  have "frames id st' (complete_cancel_in lease now st')"
    unfolding complete_cancel_in_def
    by (intro frames_if frames_Inl frames_Inr frames_then [OF cancel_nodes_frames] frames_then update_frames)
      (simp_all add: frame)
  then show "other_tables st' = other_tables st \<Longrightarrow> ?thesis" by (rule frames_from)
qed

lemma cancel_frames: "frames id st (complete_cancel wid lease now st)"
  unfolding complete_cancel_def by (intro frames_guard cancel_in_frames refl)

lemma orphan_frame [frame]:
  "other_tables (orphan_nodes lease reason now rs st) = other_tables st"
  "other_tables (orphan_run lease now st) = other_tables st"
proof -
  show "other_tables (orphan_nodes lease reason now rs st) = other_tables st"
    by (induction rs arbitrary: st) (simp_all add: frame)
  show "other_tables (orphan_run lease now st) = other_tables st"
    unfolding orphan_run_def append_frame by (simp add: other_tables_def)
qed

lemma orphaned_frames: "frames id st (mark_orphaned wid lease reason only now st)"
  unfolding mark_orphaned_def Let_def
  by (intro frames_rules) (simp_all add: frame)

lemma wait_frames: "other_tables st' = other_tables st \<Longrightarrow> frames id st (wait_for_approval i e s lease r st')"
  unfolding wait_for_approval_def
  by (erule frames_from [rotated]) (intro frames_then update_frames frames_Inr; simp add: frame)

lemma resume_waiting_frames: "frames id st (resume_waiting lease approved now r st)"
  unfolding resume_waiting_def Let_def
  by (intro frames_if frames_Inl frames_then update_frames reconcile_frames frames_Inr)
    (simp_all add: frame)

lemma resume_frames: "frames id st (resume_after_approval wid i approved lease now st)"
  unfolding resume_after_approval_def
  by (intro frames_guard frames_if frames_Inl resume_waiting_frames)

lemma resume_in_frames: "frames id st (resume_after_approval_in wid i approved lease now st)"
  unfolding resume_after_approval_in_def
  by (intro frames_guard frames_if frames_Inl resume_waiting_frames frames_then update_frames reconcile_frames
      frames_Inr) (simp_all add: frame)

lemma enter_frames: "frames id st (enter_waiting_approval i a lease now st)"
  unfolding enter_waiting_approval_def
  by (intro frames_guard frames_if frames_Inl frames_option resume_in_frames wait_frames) simp_all

lemma begin_merge_frames: "frames id st (begin_merge_finalizing wid wl lease now st)"
  unfolding begin_merge_finalizing_def
  by (intro frames_rules) (simp_all add: frame)

lemma clear_merge_frames: "frames id st (clear_merge_finalizing wid wl lease now st)"
  unfolding clear_merge_finalizing_def
  by (intro frames_rules) (simp_all add: frame)

lemma insert_task_frames: "other_tables st' = other_tables st \<Longrightarrow> frames id st (insert_task t st')"
  by (simp add: insert_task_def frames_def frame)

lemma claim_policy_frames: "other_tables st' = other_tables st \<Longrightarrow> frames id st (claim_policy t_id policy st')"
  by (simp add: claim_policy_def frames_def frame Let_def)

lemma bind_policy_frames: "frames id st (bind_policy t policy st)"
  unfolding bind_policy_def
  by (intro frames_if frames_then claim_policy_frames frames_Inr) (simp_all add: frame)

lemma new_task_frames: "frames id st (create_task t_id i agent base lease now st)"
  unfolding create_task_def
  by (intro frames_guard frames_option frames_Inl frames_then insert_task_frames frames_Inr) (simp_all add: frame)

lemma start_task_frames: "frames id st (create_and_start_task t_id i agent base policy lease now st)"
  unfolding create_and_start_task_def start_precreated_def
  by (intro frames_guard frames_option frames_if frames_Inl frames_then insert_task_frames bind_policy_frames
      claim_policy_frames update_frames frames_Inr) (simp_all add: frame)

lemma transition_task_frames: "frames id st (transition_task H t_id expected target lease error wl now st)"
  unfolding transition_task_def
  by (intro frames_guard frames_option frames_if frames_Inl frames_skip frames_then update_frames frames_Inr)
    (auto intro!: frames_Inl frames_option frames_then update_frames frames_Inr simp: frame)

lemma end_task_frames: "frames id st (finish_task H t_id target lease wl error now st)"
  unfolding finish_task_def by (intro frames_if frames_Inl transition_task_frames)

lemma retry_frames: "frames fst st (create_privilege_retry_target H wid r t approval_id now st)"
  unfolding create_privilege_retry_target_def Let_def
  by (intro frames_if frames_Inl frames_then insert_task_frames frames_Inr) (simp_all add: frame)

lemma ask_privilege_frames: "frames fst st (prepare_privilege_retry H wid i a lease wl now st)"
  unfolding prepare_privilege_retry_def Let_def
  by (intro frames_guard frames_if frames_Inl frames_then wait_frames update_frames frames_Inr)
    (simp_all add: frame)

lemma supersede_frames: "other_tables st' = other_tables st \<Longrightarrow> frames id st (supersede lease now r st')"
  unfolding supersede_def
  by (erule frames_from [rotated]) (intro frames_then update_frames frames_Inr; simp add: frame)

lemma approve_privilege_frames: "approve_privilege_in H wid i a lease now st \<noteq> Inr x"
  using end_source_task_fails
  by (auto simp: approve_privilege_in_def with_source_def with_node_def known_run_def and_then_def
      split: option.split sum.split)

lemma resume_privilege_frames:
  "frames id st (resume_privilege_after_approval_in H wid i approved lease now st)"
proof -
  have "frames id st (map_sum id fst (create_privilege_retry_target H wid r t l now st))" for r t l
    using retry_frames [of st H wid r t l now]
    by (cases "create_privilege_retry_target H wid r t l now st") (auto simp: frames_def)
  moreover have "frames id st (reject_privilege r t lease now st)" for r t
    by (simp add: reject_privilege_def end_source_task_fails and_then_def frames_Inl Let_def)
  ultimately show ?thesis
    unfolding resume_privilege_after_approval_in_def
    by (intro frames_guard frames_if frames_Inl frames_then supersede_frames frames_Inr) simp_all
qed

lemma activate_frames: "frames id st (activate_capability_target_in t_id lease now st)"
  unfolding activate_capability_target_in_def Let_def
  by (intro frames_option frames_guard frames_if frames_Inl frames_then update_frames frames_Inr)
    (simp_all add: frame)

lemma end_merge_tables:
  assumes "finalize_merge i cs c wl lease summary now st = Inr st'"
  shows "mark_merged cs (change_sets st) = Inr (change_sets st')" and
    "other_tables st' = other_tables (st\<lparr>change_sets := change_sets st'\<rparr>)"
proof -
  obtain st1 rows st2 r where
    1: "update_run (\<lambda>w. run_status w = WorkflowRunStatus.RUNNING \<and> merge_finalizing_at w \<noteq> None)
        (\<lambda>w. w\<lparr>current_commit := c, merge_finalizing_at := None\<rparr>)
        (st\<lparr>integration_head_commit := c\<rparr>) = Inr st1"
    and m: "mark_merged cs (change_sets st1) = Inr rows"
    and 2: "update_node i [NodeRunStatus.RUNNING]
        (\<lambda>q. q\<lparr>nr_status := NodeRunStatus.COMPLETED, nr_outcome := Some NodeOutcome.SUCCESS,
           nr_error_code := None, nr_finished_at := Some now\<rparr>) (st1\<lparr>change_sets := rows\<rparr>) = Inr st2"
    and 3: "reconcile lease now (append_node_state lease r NodeRunStatus.COMPLETED (Some NodeOutcome.SUCCESS)
        summary None st2) = Inr st'"
    by (rule finalize_merge_parts [OF assms])
  have o1: "other_tables st1 = other_tables st"
    using update_frames(2) [OF field_frame(6), THEN framesD, OF 1] by simp
  have o2: "other_tables st' = other_tables (st1\<lparr>change_sets := rows\<rparr>)"
    using update_frames(1) [OF refl, THEN framesD, OF 2] reconcile_frames [OF refl, THEN framesD, OF 3]
    by (simp add: frame)
  then have rows: "change_sets st' = rows" by (simp add: other_tables_def)
  show "mark_merged cs (change_sets st) = Inr (change_sets st')"
    using m o1 rows by (simp add: other_tables_def)
  show "other_tables st' = other_tables (st\<lparr>change_sets := change_sets st'\<rparr>)"
    using o1 o2 by (simp add: other_tables_def)
qed

theorem run_txn_tables:
  assumes "run_txn H cd st st'"
  shows "other_tables st' = other_tables (st\<lparr>change_sets := change_sets st'\<rparr>) \<and>
    (change_sets st' = change_sets st \<or> (\<exists>cs. mark_merged cs (change_sets st) = Inr (change_sets st')))"
proof -
  have keep: "?thesis" if "other_tables st' = other_tables st"
    using that by (simp add: other_tables_def)
  from assms show ?thesis
  proof cases
    case (end_merge i cs c wl lease summary now)
    then show ?thesis using end_merge_tables by blast
  qed (use approve_privilege_frames in
      \<open>fastforce intro!: keep dest: start_frames [THEN framesD] claim_frames [THEN framesD]
        complete_frames [THEN framesD] attach_frames [THEN framesD] ask_cancel_frames [THEN framesD]
        cancel_frames [THEN framesD] orphaned_frames [THEN framesD] enter_frames [THEN framesD]
        resume_frames [THEN framesD] resume_in_frames [THEN framesD] begin_merge_frames [THEN framesD]
        clear_merge_frames [THEN framesD] new_task_frames [THEN framesD] start_task_frames [THEN framesD]
        end_task_frames [THEN framesD] ask_privilege_frames [THEN framesD]
        resume_privilege_frames [THEN framesD] activate_frames [THEN framesD]\<close>)+
qed

end
