(* ===== verification/Statements.thy ===== *)
theory Statements
  imports Approval_Manager Change_Sets Run_Frame
begin

text \<open>
  A calculus for transactions, which are sequences of statements that may fail: which relation on
  stores a transaction satisfies when it succeeds follows from its parts. The locale \<open>statements\<close> is
  what a relation must satisfy; \<open>Hub_Steps\<close> instantiates it with the specification of approvals and
  change sets, \<open>Grant_Machine\<close> with that of grants and \<open>Hub_Runs\<close> with the steps of a run.
\<close>

definition holds :: "(HubStore \<Rightarrow> HubStore \<Rightarrow> bool) \<Rightarrow> ('a \<Rightarrow> HubStore) \<Rightarrow> HubStore \<Rightarrow> run_error + 'a \<Rightarrow> bool" where
  "holds R p h m \<longleftrightarrow> (\<forall>x. m = Inr x \<longrightarrow> R h (p x))"

lemma holdsD: "holds R p h m \<Longrightarrow> m = Inr x \<Longrightarrow> R h (p x)"
  by (simp add: holds_def)

lemma holdsI: "(\<And>x. m = Inr x \<Longrightarrow> R h (p x)) \<Longrightarrow> holds R p h m"
  by (simp add: holds_def)

lemma holds_Inl: "holds R p h (Inl e)"
  by (simp add: holds_def)

lemma holds_Inr: "R h (p x) \<Longrightarrow> holds R p h (Inr x)"
  by (simp add: holds_def)

lemma holds_if: "(b \<Longrightarrow> holds R p h m) \<Longrightarrow> (\<not> b \<Longrightarrow> holds R p h n) \<Longrightarrow> holds R p h (if b then m else n)"
  by simp

lemma holds_option:
  "(x = None \<Longrightarrow> holds R p h m) \<Longrightarrow> (\<And>y. x = Some y \<Longrightarrow> holds R p h (k y)) \<Longrightarrow>
     holds R p h (case x of None \<Rightarrow> m | Some y \<Rightarrow> k y)"
  by (cases x) simp_all

lemma holds_skip: "(\<And>x. m = Inr x \<Longrightarrow> holds R p h (k x)) \<Longrightarrow> holds R p h (and_then m k)"
  by (cases m) (simp_all add: and_then_def holds_Inl)

lemma holds_guard:
  "holds R p h m \<Longrightarrow> holds R p h (fenced st lease now m)"
  "holds R p h m \<Longrightarrow> holds R p h (known_run st wid m)"
  "holds R p h m \<Longrightarrow> holds R p h (fenced_workspace h0 wl session task now m)"
  "(\<And>r. holds R p h (k r)) \<Longrightarrow> holds R p h (with_node st i k)"
  "(\<And>r t. holds R p h (g r t)) \<Longrightarrow> holds R p h (with_target h0 tid g)"
  "(\<And>q r t. find_request h0 rid = Some q \<Longrightarrow> holds R p h (f q r t)) \<Longrightarrow> holds R p h (with_lineage h0 rid f)"
  "(\<And>r. find_approval h0 i = Some r \<Longrightarrow> holds R p h (l r)) \<Longrightarrow> holds R p h (with_approval h0 i l)"
  by (auto simp: fenced_def known_run_def fenced_workspace_def with_node_def with_target_def
      with_lineage_def with_approval_def holds_def split: option.split)

locale statements =
  fixes R :: "HubStore \<Rightarrow> HubStore \<Rightarrow> bool" and sel :: "HubStore \<Rightarrow> 's"
  assumes same: "sel h' = sel h \<Longrightarrow> R h h'"
    and trans: "R h h1 \<Longrightarrow> R h1 h2 \<Longrightarrow> R h h2"
    and emitted: "sel (h\<lparr>hub_run := emit ev (hub_run h)\<rparr>) = sel h"
begin

lemma unchanged: "sel (p x) = sel h \<Longrightarrow> holds R p h (Inr x)"
  by (simp add: holds_def same)

lemma here: "holds R id h (Inr h)"
  by (rule unchanged) simp

lemma next_from:
  assumes "holds R q h m" and "\<And>x. m = Inr x \<Longrightarrow> holds R p (q x) (k x)"
  shows "holds R p h (and_then m k)"
proof (rule holdsI)
  fix y assume "and_then m k = Inr y"
  then obtain x where x: "m = Inr x" "k x = Inr y" by (auto simp: and_then_Inr)
  show "R h (p y)" using trans [OF holdsD [OF assms(1) x(1)] holdsD [OF assms(2) [OF x(1)] x(2)]] .
qed

lemma nxt: "holds R id h m \<Longrightarrow> (\<And>x. m = Inr x \<Longrightarrow> holds R p x (k x)) \<Longrightarrow> holds R p h (and_then m k)"
  using next_from [of id h m p k] by simp

lemma onward: "holds R p h1 m \<Longrightarrow> sel h1 = sel h \<Longrightarrow> holds R p h m"
  by (rule holdsI) (rule trans [OF same holdsD])

lemma event: "sel h1 = sel h \<Longrightarrow> holds R id h (append_event wid reason ev h1)"
  by (rule onward [of id h1]) (auto simp: holds_def emitted dest!: append_event_same intro: same)

lemma events:
  assumes "sel h1 = sel h"
  shows "holds R id h (append_approval_event lease a previous reason h1)"
    and "holds R id h (append_privilege_request_event lease q s s' reason' h1)"
    and "holds R id h (append_grant_event lease i g reason' h1)"
    and "holds R id h (change_set_event lease wl i c t t' reason h1)"
  using assms by (simp_all add: append_events_def change_set_event_def event)

end

named_theorems follow \<open>transactions on tables a relation is about\<close>

locale table_statements = statements R sel for R and sel :: "HubStore \<Rightarrow> 's" +
  fixes H :: "string \<Rightarrow> string"
  assumes put: "sel (put_approvals rows h) = sel h" "sel (put_change_sets f h) = sel h"
      "sel (put_requests hit s h) = sel h" "sel (h\<lparr>privilege_requests := qs\<rparr>) = sel h"
      "sel (h\<lparr>security_events := es\<rparr>) = sel h" "sel (unbind_active gid tid h) = sel h"
    and resumed: "resume_after_approval_in wid i approved lease now (hub_run h) = Inr st \<Longrightarrow> R h (h\<lparr>hub_run := st\<rparr>)"
    and resumed_privilege:
      "resume_privilege_after_approval_in H wid i approved lease now (hub_run h) = Inr st \<Longrightarrow> R h (h\<lparr>hub_run := st\<rparr>)"
begin

declare put [simp] events [follow] here [follow] holds_Inl [follow] unchanged [follow]

lemmas rules = holds_guard [where R = R] holds_if [where R = R] holds_option [where R = R] nxt

lemma lifted:
  assumes "\<And>st. m = Inr st \<Longrightarrow> R h1 (h1\<lparr>hub_run := st\<rparr>)" and "sel h1 = sel h"
  shows "holds R id h (lift_run h1 m)"
  by (rule onward [OF _ assms(2)]) (auto simp: lift_run_def holds_def and_then_Inr intro!: assms(1))

lemma update_approval_follows [follow]: "holds R id h (update_approval i hit f err h)"
  unfolding update_approval_def Let_def by (intro rules follow) simp_all

lemma insert_approval_follows [follow]: "holds R id h (insert_approval a key now h)"
  unfolding insert_approval_def by (intro rules follow) simp_all

lemma record_follows [follow]: "holds R fst h (record_approval a key lease now h)"
  unfolding record_approval_def by (intro rules follow) simp_all

lemma security_follows [follow]: "sel h1 = sel h \<Longrightarrow>
    holds R id h (change_set_security_event task reason sev h1)"
  unfolding change_set_security_event_def by (intro rules follow) simp_all

lemma request_approval_follows [follow]: "holds R id h (request_approval names a rid lease h)"
  unfolding request_approval_def by (intro rules follow) simp_all

lemma propose_follows [follow]: "holds R id h (propose_change_set c a h)"
  unfolding propose_change_set_def by (intro rules follow) simp_all

lemma create_follows [follow]: "holds R fst h (create a lease key now h)"
proof -
  have "holds R id h (case s of
      ChangeSetSubject c _ _ \<Rightarrow> propose_change_set c a h
    | PrivilegeSubject rid \<Rightarrow> request_approval names a rid lease h)" for s names
    by (cases s) (simp_all add: follow)
  then show ?thesis unfolding create_def by (intro rules follow) simp_all
qed

lemma create_request_follows [follow]: "holds R fst h (create_privilege_request q rseal lease wl now h)"
  unfolding create_privilege_request_def insert_request_def by (intro rules follow) simp_all

lemma create_both_follows [follow]:
  "holds R fst h (create_privilege_request_and_approval q rseal a rid lease wl key now h)"
  unfolding create_privilege_request_and_approval_def insert_request_def
  by (intro rules follow) simp_all

lemma expire_request_follows [follow]: "holds R id h (expire_request H rid lease now h)"
  unfolding expire_request_def
  by (intro rules follow lifted resumed_privilege) simp_all

lemma expire_in_follows [follow]: "holds R id h (expire_in H r lease now h)"
proof -
  have "holds R id h' (case s of ChangeSetSubject c b p \<Rightarrow> Inr h' | PrivilegeSubject rid \<Rightarrow> expire_request H rid lease now h')"
    for h' s by (cases s) (simp_all add: follow)
  then show ?thesis unfolding expire_in_def by (intro rules follow) simp_all
qed

lemma expire_each_follows [follow]: "holds R id h (expire_each H rs lease now h)"
  by (induction rs arbitrary: h) (auto intro!: rules follow)

lemma expire_due_follows [follow]: "holds R id h (expire_due H lease only now h)"
  unfolding expire_due_def by (intro rules follow)

lemma renew_follows [follow]:
  "holds R fst h (renew H stamp isoformat document read i version confirm new lease now h)"
proof -
  have row: "holds R fst h (case s of
         PrivilegeSubject _ \<Rightarrow> Inl (PyError ValueError)
       | ChangeSetSubject _ _ _ \<Rightarrow> m)" if "holds R fst h m" for s m
    using that by (cases s) (simp_all add: holds_Inl)
  have "holds R fst h (renew_changeset i version confirm new lease now h)"
    unfolding renew_changeset_def by (intro rules follow row) simp_all
  then show ?thesis unfolding renew_def Let_def
    by (intro holds_guard, split Subject.split, intro conjI allI impI holds_Inl holds_option holds_guard holds_skip)
      (auto intro!: holds_if holds_Inl split: sum.split)
qed

lemma prepare_follows:
  assumes "prepare_changeset H stamp isoformat document read ttl ctx lease now h = (h', result)"
  shows "R h h'"
proof -
  have settle: "R g g'" if "settle_changeset a lease now g = (g', result)" for a g g' result
    using that create_follows [THEN holdsD] same [of g g]
    by (fastforce simp: settle_changeset_def Let_def split: option.splits sum.splits if_splits prod.splits)
  have refl: "R h h" by (rule same) simp
  show ?thesis
  proof (cases "change_set_approval H stamp isoformat document read ttl ctx now h")
    case (Inr a)
    have "settle_changeset a lease now h = (h', result) \<or>
        (\<exists>h1. expire_due H lease (Some (workflow_run_id (ctx_run ctx))) now h = Inr h1 \<and>
           settle_changeset a lease now h1 = (h', result)) \<or> h' = h"
      using assms Inr by (auto simp: prepare_changeset_def split: option.splits if_splits sum.splits)
    then show ?thesis
      using settle expire_due_follows [THEN holdsD] trans refl by (metis id_apply)
  qed (use assms refl in \<open>simp add: prepare_changeset_def\<close>)
qed

lemma replay_follows [follow]: "holds R fst h (replay_decision H version confirm target actor key r h)"
  unfolding replay_decision_def Let_def by (intro rules follow) simp_all

lemma decide_subject_follows [follow]: "holds R id h (decide_subject H grant_ttl approved r lease now h)"
proof (cases "subject (approval r)")
  case (ChangeSetSubject c b p)
  show ?thesis unfolding decide_subject_def ChangeSetSubject Subject.case Let_def
    by (intro rules follow lifted resumed) simp_all
next
  case (PrivilegeSubject rid)
  have "holds R id h' (and_then (approve_privilege_in H wid i a lease now st) k)" for h' wid i a st k
    using approve_privilege_frames by (fastforce simp: holds_def and_then_Inr)
  then show ?thesis unfolding decide_subject_def PrivilegeSubject Subject.case Let_def
    by (intro rules follow lifted resumed_privilege) simp_all
qed

lemma decide_follows [follow]: "holds R fst h (decide H grant_ttl i version confirm approved actor key lease now h)"
  unfolding decide_def Let_def
  by (intro rules follow; (simp add: holds_def and_then_def split: sum.split)?)

lemma invalidate_subject_follows [follow]: "holds R id h (invalidate_subject statuses reason r lease h)"
proof (cases "subject (approval r)")
  case (PrivilegeSubject rid)
  show ?thesis unfolding invalidate_subject_def PrivilegeSubject Subject.case
    by (intro rules follow) simp_all
qed (simp add: invalidate_subject_def follow)

lemma invalidate_each_follows [follow]: "holds R id h (invalidate_each statuses reason rs lease now h)"
  by (induction rs arbitrary: h) (auto intro!: rules follow)

lemma invalidate_follows [follow]:
  "holds R id h (invalidate_for_run wid lease reason now h)"
  "holds R id h (invalidate_for_run_in wid lease reason now h)"
  unfolding invalidate_for_run_def invalidate_for_run_in_def invalidate_rows_def
  by (intro rules follow; simp add: cancel_change_sets_def)+

lemma move_change_set_follows [follow]: "holds R id h (move_change_set c a b h)"
  unfolding move_change_set_def Let_def by (intro rules follow) simp_all

lemma transition_follows [follow]: "holds R id h (transition c a b lease wl reason sev now h)"
proof -
  have "holds R id h (case e of Some x \<Rightarrow> Inl x | None \<Rightarrow> m)" if "holds R id h m"
    for e :: "run_error option" and m using that by (cases e) (simp_all add: holds_Inl)
  then show ?thesis unfolding transition_def by (intro rules follow) simp_all
qed

end

end
