(* ===== verification/Hub_Steps.thy ===== *)
theory Hub_Steps
  imports Auth_Machine Approval_Manager Statements
begin

text \<open>
  Every transaction on the tables of approvals, change sets and grants as one step relation, and the
  proof that it implements the specification of \<open>Auth_Machine\<close>.
\<close>

subsection \<open>The step relation\<close>

definition guard_moves :: "(ChangeSetStatus \<times> ChangeSetStatus) list" where
  \<comment> \<open>the transitions the node handlers of \<open>workflow/handlers/guards.py\<close> ask for\<close>
  "guard_moves =
     [(ChangeSetStatus.CAPTURED, ChangeSetStatus.GUARD_PASSED),
      (ChangeSetStatus.CAPTURED, ChangeSetStatus.QUARANTINED),
      (ChangeSetStatus.CAPTURED, ChangeSetStatus.GUARD_REJECTED),
      (ChangeSetStatus.GUARD_PASSED, ChangeSetStatus.TEST_FAILED),
      (ChangeSetStatus.GUARD_PASSED, ChangeSetStatus.TEST_PASSED),
      (ChangeSetStatus.TEST_PASSED, ChangeSetStatus.POLICY_REJECTED)]"

definition same_records :: "HubStore \<Rightarrow> HubStore \<Rightarrow> bool" where
  \<comment> \<open>what other components write: leases and locks, artifacts, the session, events\<close>
  "same_records h h' \<longleftrightarrow>
     approvals h' = approvals h \<and> privilege_requests h' = privilege_requests h \<and>
     capability_grants h' = capability_grants h \<and> active_grant h' = active_grant h \<and>
     change_sets (hub_run h') = change_sets (hub_run h) \<and>
     approval_status (hub_run h') = approval_status (hub_run h) \<and> run (hub_run h') = run (hub_run h) \<and>
     node_runs (hub_run h') = node_runs (hub_run h) \<and> tasks (hub_run h') = tasks (hub_run h)"

definition publisher :: "(HubStore \<Rightarrow> run_error + HubStore) \<Rightarrow> bool" where
  \<comment> \<open>registering the artifacts of a capture\<close>
  "publisher publish \<longleftrightarrow> (\<forall>h h'. publish h = Inr h' \<longrightarrow> same_records h h')"

inductive hub_step ::
  "(string \<Rightarrow> string) \<Rightarrow> (AgentSpec list \<Rightarrow> string) \<Rightarrow> HubStore \<Rightarrow> HubStore \<Rightarrow> bool" for H cd where
  run: "run_txn H cd (hub_run h) st \<Longrightarrow> hub_step H cd h (h\<lparr>hub_run := st\<rparr>)"
| capture: "publisher publish \<Longrightarrow>
    persist_capture publish H session wid i task c lease wl target error status reason now h = Inr h' \<Longrightarrow>
    hub_step H cd h h'"
| guard: "(a, b) \<in> set guard_moves \<Longrightarrow> transition c a b lease wl reason sev now h = Inr h' \<Longrightarrow> hub_step H cd h h'"
| prepare: "prepare_changeset H stamp isoformat document read ttl ctx lease now h = (h', result) \<Longrightarrow>
    hub_step H cd h h'"
| renew: "renew H stamp isoformat document read i version confirm new lease now h = Inr (h', r) \<Longrightarrow>
    hub_step H cd h h'"
| decide: "decide H grant_ttl i version confirm approved actor key lease now h = Inr (h', r) \<Longrightarrow>
    hub_step H cd h h'"
| expire: "expire_due H lease only now h = Inr h' \<Longrightarrow> hub_step H cd h h'"
| invalidate: "invalidate_for_run wid lease reason now h = Inr h' \<Longrightarrow> hub_step H cd h h'"
| cancel: "cancel_run_with_cleanup wid lease reason now h = Inr h' \<Longrightarrow> hub_step H cd h h'"
| ask_privilege: "create_privilege_request q rseal lease wl now h = Inr (h', q') \<Longrightarrow> hub_step H cd h h'"
| ask_approval:
    "create_privilege_request_and_approval q rseal a rid lease wl key now h = Inr (h', r) \<Longrightarrow> hub_step H cd h h'"
| grant: "create_grant H g wid source_task lease now h = Inr h' \<Longrightarrow> hub_step H cd h h'"
| consume: "consume_grant gid tid act resource lease wl now h = Inr (h', e) \<Longrightarrow> hub_step H cd h h'"
| revoke: "revoke_unconsumed_for_run wid lease reason now h = Inr h' \<Longrightarrow> hub_step H cd h h'"
| elsewhere: "same_records h h' \<Longrightarrow> hub_step H cd h h'"

abbreviation auth :: "HubStore \<Rightarrow> ApprovalRecord list \<times> ChangeSetRow list" where
  "auth h \<equiv> (approvals h, change_sets (hub_run h))"

definition in_step :: "HubStore \<Rightarrow> bool" where
  \<comment> \<open>what the run repository reads of an approval is its row\<close>
  "in_step h \<longleftrightarrow> approval_status (hub_run h) = statuses_of (approvals h)"

subsection \<open>Following the specification\<close>

definition follows :: "HubStore \<Rightarrow> HubStore \<Rightarrow> bool" where
  \<comment> \<open>what a transaction did is a sequence of moves of the specification\<close>
  "follows h h' \<longleftrightarrow> (auth_inv (auth h) \<longrightarrow>
     auth_move\<^sup>*\<^sup>* (auth h) (auth h') \<and> (in_step h \<longrightarrow> in_step h'))"

abbreviation leads :: "('a \<Rightarrow> HubStore) \<Rightarrow> HubStore \<Rightarrow> run_error + 'a \<Rightarrow> bool" where
  "leads \<equiv> holds follows"

interpretation auth_logic: statements follows
  "\<lambda>h. (approvals h, change_sets (hub_run h), approval_status (hub_run h))"
proof unfold_locales
  show "follows h h2" if "follows h h1" and "follows h1 h2" for h h1 h2
    using that auth_moves_inv unfolding follows_def by (meson rtranclp_trans)
qed (simp_all add: follows_def in_step_def)

lemma leadsD:
  "leads p h m \<Longrightarrow> m = Inr x \<Longrightarrow> auth_inv (auth h) \<Longrightarrow>
     auth_move\<^sup>*\<^sup>* (auth h) (auth (p x)) \<and> (in_step h \<longrightarrow> in_step (p x))"
  by (simp add: holds_def follows_def)

lemma leadsI: "(auth_inv (auth h) \<Longrightarrow> leads p h m) \<Longrightarrow> leads p h m"
  by (simp add: holds_def follows_def)

lemmas leads_def = holds_def follows_def

lemmas leads_Inl = holds_Inl [where R = follows] and leads_if = holds_if [where R = follows] and
  leads_option = holds_option [where R = follows] and leads_guard = holds_guard [where R = follows] and
  leads_skip = holds_skip [where R = follows] and leads_same = auth_logic.unchanged and
  leads_refl = auth_logic.here and leads_next = auth_logic.nxt and leads_events = auth_logic.events

lemma leads_lift:
  assumes "frames id (hub_run h1) m"
    and "auth h1 = auth h" and "approval_status (hub_run h1) = approval_status (hub_run h)"
  shows "leads id h (lift_run h1 m)"
  by (rule auth_logic.onward [of id h1])
    (use assms in \<open>auto simp: lift_run_def and_then_Inr leads_def frames_def other_tables_def in_step_def\<close>)

subsection \<open>Updates of the two tables\<close>

lemma same_rows: "distinct (map f xs) \<Longrightarrow> x \<in> set xs \<Longrightarrow> y \<in> set xs \<Longrightarrow> f x = f y \<Longrightarrow> x = y"
  by (auto simp: distinct_map dest: inj_onD)

lemma update_form:
  assumes "update_approval i hit f err h = Inr h'" and "auth_inv (auth h)"
  shows "\<exists>x \<in> set (approvals h). ap_id x = i \<and> hit x \<and> h' = put_approvals (on_row i f (approvals h)) h"
proof -
  have 1: "length (filter (\<lambda>r. ap_id r = i \<and> hit r) (approvals h)) = 1"
    and h': "h' = put_approvals (map (\<lambda>r. if ap_id r = i \<and> hit r then f r else r) (approvals h)) h"
    using assms(1) by (auto simp: update_approval_def Let_def split: if_splits)
  then obtain x where "filter (\<lambda>r. ap_id r = i \<and> hit r) (approvals h) = [x]"
    by (auto simp: length_Suc_conv)
  then have "x \<in> set (filter (\<lambda>r. ap_id r = i \<and> hit r) (approvals h))" by simp
  then have x: "x \<in> set (approvals h)" "ap_id x = i" "hit x" by simp_all
  have "y = x" if "y \<in> set (approvals h)" "ap_id y = i" for y
    using same_rows [OF _ that(1) x(1), of ap_id] assms(2) that(2) x(2) by (simp add: auth_inv_def auth_wf_def)
  then have "ap_id y = i \<and> hit y \<longleftrightarrow> ap_id y = i" if "y \<in> set (approvals h)" for y
    using that x(3) by blast
  then have "map (\<lambda>r. if ap_id r = i \<and> hit r then f r else r) (approvals h) = on_row i f (approvals h)"
    unfolding on_row_def by (intro map_cong refl) simp
  then show ?thesis using x h' by auto
qed

lemma put_approvals_in_step: "in_step (put_approvals rows h)"
  by (simp add: in_step_def)

lemma lapse_leads:
  assumes "s \<in> {ApprovalStatus.EXPIRED, ApprovalStatus.INVALIDATED}" and "\<And>x. hit x \<Longrightarrow> is_pending x"
  shows "leads id h (update_approval i hit (set_status s now) err h)"
proof (rule leadsI)
  assume inv: "auth_inv (auth h)"
  have f: "set_status s now = lapse_row s now" by (simp add: set_status_def lapse_row_def fun_eq_iff)
  have "auth_move (auth h) (auth h') \<and> in_step h'"
    if u: "update_approval i hit (set_status s now) err h = Inr h'" for h'
  proof -
    obtain x where x: "x \<in> set (approvals h)" "ap_id x = i" "hit x"
      and h': "h' = put_approvals (on_row i (lapse_row s now) (approvals h)) h"
      using update_form [OF u inv] unfolding f by blast
    have "auth_move (auth h) (on_row (ap_id x) (lapse_row s now) (approvals h), change_sets (hub_run h))"
      using x assms by (intro auth_move.lapse) simp_all
    then show ?thesis using x(2) by (simp add: h' put_approvals_in_step)
  qed
  then show "leads id h (update_approval i hit (set_status s now) err h)" by (auto simp: leads_def)
qed

lemma backfill_leads:
  assumes "\<And>x. hit x \<Longrightarrow> \<not> is_pending x \<and> decision_request_sha256 x = None"
  shows "leads id h (update_approval i hit (\<lambda>x. x\<lparr>decision_request_sha256 := Some sha\<rparr>) err h)"
proof (rule leadsI)
  assume inv: "auth_inv (auth h)"
  let ?f = "\<lambda>x :: ApprovalRecord. x\<lparr>decision_request_sha256 := Some sha\<rparr>"
  have "auth_move (auth h) (auth h') \<and> in_step h'" if u: "update_approval i hit ?f err h = Inr h'" for h'
  proof -
    obtain x where x: "x \<in> set (approvals h)" "ap_id x = i" "hit x"
      and h': "h' = put_approvals (on_row i ?f (approvals h)) h"
      using update_form [OF u inv] by blast
    have "auth_move (auth h) (on_row (ap_id x) ?f (approvals h), change_sets (hub_run h))"
      using x assms by (intro auth_move.backfill) simp_all
    then show ?thesis using x(2) by (simp add: h' put_approvals_in_step)
  qed
  then show "leads id h (update_approval i hit ?f err h)" by (auto simp: leads_def)
qed

definition move_where ::
  "(ChangeSetRow \<Rightarrow> bool) \<Rightarrow> ChangeSetStatus \<Rightarrow> ChangeSetRow list \<Rightarrow> ChangeSetRow list" where
  "move_where p b = map (\<lambda>x. if p x then x\<lparr>change_set_status := b\<rparr> else x)"

lemma move_where_ids:
  "move_where (\<lambda>x. change_set_id x \<in> set (c # cs) \<and> change_set_status x = a) b css =
     move_where (\<lambda>x. change_set_id x \<in> set cs \<and> change_set_status x = a) b (move_rows c a b css)"
  by (auto simp: move_where_def move_rows_def)

lemma moves_ids:
  assumes "b \<in> set (allowed_targets a)" and "b \<notin> {ChangeSetStatus.APPROVED, ChangeSetStatus.MERGED}"
  shows "auth_move\<^sup>*\<^sup>* (as, css) (as, move_where (\<lambda>x. change_set_id x \<in> set cs \<and> change_set_status x = a) b css)"
proof (induction cs arbitrary: css)
  case Nil
  then show ?case by (simp add: move_where_def)
next
  case (Cons c cs)
  have "auth_move (as, css) (as, move_rows c a b css)" using assms by (rule auth_move.move)
  then show ?case using Cons.IH [of "move_rows c a b css"] unfolding move_where_ids
    by (rule converse_rtranclp_into_rtranclp)
qed

lemma moves_where:
  assumes "b \<in> set (allowed_targets a)" and "b \<notin> {ChangeSetStatus.APPROVED, ChangeSetStatus.MERGED}"
    and "distinct (map change_set_id css)"
  shows "auth_move\<^sup>*\<^sup>* (as, css) (as, move_where (\<lambda>x. p x \<and> change_set_status x = a) b css)"
proof -
  have "p x \<longleftrightarrow> change_set_id x \<in> change_set_id ` set (filter p css)" if "x \<in> set css" for x
    using same_rows [OF assms(3) that] that by auto
  then have "(if p x \<and> change_set_status x = a then x\<lparr>change_set_status := b\<rparr> else x) =
      (if change_set_id x \<in> set (map change_set_id (filter p css)) \<and> change_set_status x = a
       then x\<lparr>change_set_status := b\<rparr> else x)" if "x \<in> set css" for x
    using that by (simp only: set_map)
  then have eq: "move_where (\<lambda>x. p x \<and> change_set_status x = a) b css =
      move_where (\<lambda>x. change_set_id x \<in> set (map change_set_id (filter p css)) \<and> change_set_status x = a) b css"
    unfolding move_where_def by (rule map_cong [OF refl])
  show ?thesis unfolding eq by (rule moves_ids [OF assms(1,2)])
qed

lemma cancel_rows_leads:
  assumes "set statuses \<subseteq> {ChangeSetStatus.PENDING_APPROVAL, ChangeSetStatus.APPROVED}"
  shows "leads id h (Inr (put_change_sets (\<lambda>x. if change_set_status x \<in> set statuses \<and> p x
     then x\<lparr>change_set_status := ChangeSetStatus.CANCELLED\<rparr> else x) h))"
proof (rule leadsI)
  assume inv: "auth_inv (auth h)"
  let ?P = "ChangeSetStatus.PENDING_APPROVAL" and ?A = "ChangeSetStatus.APPROVED"
    and ?C = "ChangeSetStatus.CANCELLED" and ?css = "change_sets (hub_run h)"
  let ?q = "\<lambda>s x. p x \<and> s \<in> set statuses"
  let ?m = "move_where (\<lambda>x. ?q ?P x \<and> change_set_status x = ?P) ?C ?css"
  have d: "distinct (map change_set_id ?css)" using inv by (simp add: auth_inv_def auth_wf_def)
  have ids: "map change_set_id ?m = map change_set_id ?css" by (simp add: move_where_def)
  define I where "I = change_set_id ` set (filter p ?css)"
  let ?r = "\<lambda>x. change_set_id x \<in> I \<and> ?A \<in> set statuses"
  have r: "p x \<longleftrightarrow> change_set_id x \<in> I" if "x \<in> set ?css" for x
    using same_rows [OF d that] that by (auto simp: I_def)
  let ?step = "\<lambda>q x. if q x then x\<lparr>change_set_status := ?C\<rparr> else x"
  have "?step (\<lambda>x. change_set_status x \<in> set statuses \<and> p x) x =
      ?step (\<lambda>x. ?r x \<and> change_set_status x = ?A) (?step (\<lambda>x. ?q ?P x \<and> change_set_status x = ?P) x)"
    if "x \<in> set ?css" for x
  proof (cases "change_set_status x \<in> {?P, ?A}")
    case True
    then show ?thesis using r [OF that] by (elim insertE; simp)
  next
    case False
    then have "change_set_status x \<notin> set statuses" using assms by blast
    then show ?thesis using False by simp
  qed
  then have "map (\<lambda>x. if change_set_status x \<in> set statuses \<and> p x then x\<lparr>change_set_status := ?C\<rparr> else x) ?css =
      move_where (\<lambda>x. ?r x \<and> change_set_status x = ?A) ?C ?m"
    unfolding move_where_def map_map comp_def by (rule map_cong [OF refl])
  moreover have "auth_move\<^sup>*\<^sup>* (auth h) (approvals h, ?m)" using d by (intro moves_where) simp_all
  moreover have "auth_move\<^sup>*\<^sup>* (approvals h, ?m)
      (approvals h, move_where (\<lambda>x. ?r x \<and> change_set_status x = ?A) ?C ?m)"
    using d ids by (intro moves_where) simp_all
  ultimately show ?thesis by (auto simp: leads_def in_step_def intro: rtranclp_trans)
qed

end
