(* ===== verification/Grant_Machine.thy ===== *)
theory Grant_Machine
  imports Hub_Steps
begin

text \<open>
  The specification of capability grants: a row is issued once for its request and its target task,
  and spent once, by being consumed before it expires or by being revoked.
\<close>

subsection \<open>The specification\<close>

definition spent_from :: "GrantRow \<Rightarrow> GrantRow \<Rightarrow> bool" where
  \<comment> \<open>what may become of a row\<close>
  "spent_from e e' \<longleftrightarrow> e' = e \<or>
     revocable (grant e) \<and>
     ((\<exists>gid token now. now < grant_expires_at (grant e) \<and> e' = consume_row gid token now e) \<or>
      (\<exists>reason now. e' = revoke_row reason now e))"

lemma spent_refl: "spent_from e e"
  by (simp add: spent_from_def)

lemma spent_rows [simp]:
  "grant_id (grant (consume_row gid token now e)) = grant_id (grant e)"
  "grant_id (grant (revoke_row reason now e)) = grant_id (grant e)"
  "grant_request_id (grant (consume_row gid token now e)) = grant_request_id (grant e)"
  "grant_request_id (grant (revoke_row reason now e)) = grant_request_id (grant e)"
  "grant_target_task_id (grant (consume_row gid token now e)) = grant_target_task_id (grant e)"
  "grant_target_task_id (grant (revoke_row reason now e)) = grant_target_task_id (grant e)"
  "\<not> revocable (grant (consume_row gid token now e))"
  "\<not> revocable (grant (revoke_row reason now e))"
  by (simp_all add: consume_row_def revoke_row_def revocable_def)

lemma spent_trans: "spent_from e e1 \<Longrightarrow> spent_from e1 e2 \<Longrightarrow> spent_from e e2"
  unfolding spent_from_def using spent_rows(7,8) by metis

lemma spent_invariants: "spent_from e e' \<Longrightarrow> grant_invariants (grant e) \<Longrightarrow> grant_invariants (grant e')"
  by (auto simp: spent_from_def grant_invariants_def revocable_def consume_row_def revoke_row_def)

lemma spent_ids: "spent_from e e' \<Longrightarrow> grant_id (grant e') = grant_id (grant e) \<and>
    grant_request_id (grant e') = grant_request_id (grant e) \<and>
    grant_target_task_id (grant e') = grant_target_task_id (grant e)"
  by (auto simp: spent_from_def)

definition spends :: "HubStore \<Rightarrow> HubStore \<Rightarrow> bool" where
  \<comment> \<open>no row is added\<close>
  "spends h h' \<longleftrightarrow> list_all2 spent_from (capability_grants h) (capability_grants h')"

lemma same_grants: "capability_grants h' = capability_grants h \<Longrightarrow> spends h h'"
  by (simp add: spends_def list.rel_refl spent_refl)

interpretation spend_logic: table_statements spends capability_grants H for H
proof unfold_locales
  show "spends h h2" if "spends h h1" and "spends h1 h2" for h h1 h2
    using that list_all2_trans [of spent_from spent_from spent_from] spent_trans unfolding spends_def by blast
qed (simp_all add: same_grants put_requests_def unbind_active_def)

lemma grants_same [simp]:
  "capability_grants (h\<lparr>hub_run := st\<rparr>) = capability_grants h"
  "capability_grants (bind_active gid tid h) = capability_grants h"
  by (simp_all add: bind_active_def)

definition grants_ok :: "GrantRow list \<Rightarrow> bool" where
  "grants_ok gs \<longleftrightarrow> distinct (map (\<lambda>e. grant_id (grant e)) gs) \<and>
     distinct (map (\<lambda>e. grant_request_id (grant e)) gs) \<and>
     distinct (map (\<lambda>e. grant_target_task_id (grant e)) gs) \<and>
     list_all (\<lambda>e. grant_invariants (grant e)) gs"

lemma spent_map:
  assumes "list_all2 spent_from gs gs'"
  shows "map (\<lambda>e. grant_id (grant e)) gs' = map (\<lambda>e. grant_id (grant e)) gs"
    and "map (\<lambda>e. grant_request_id (grant e)) gs' = map (\<lambda>e. grant_request_id (grant e)) gs"
    and "map (\<lambda>e. grant_target_task_id (grant e)) gs' = map (\<lambda>e. grant_target_task_id (grant e)) gs"
  using assms by (induction rule: list_all2_induct) (simp_all add: spent_ids)

lemma spent_ok: "list_all2 spent_from gs gs' \<Longrightarrow> grants_ok gs \<Longrightarrow> grants_ok gs'"
proof -
  assume s: "list_all2 spent_from gs gs'" and ok: "grants_ok gs"
  have "list_all (\<lambda>e. grant_invariants (grant e)) gs'"
    using s ok spent_invariants unfolding grants_ok_def list_all_length list_all2_conv_all_nth by metis
  then show "grants_ok gs'" using ok unfolding grants_ok_def spent_map [OF s] by simp
qed

subsection \<open>The operations\<close>

lemma lift_spends [follow]: "capability_grants h1 = capability_grants h \<Longrightarrow> holds spends id h (lift_run h1 m)"
  by (rule spend_logic.lifted) (simp_all add: same_grants)

subsection \<open>Consuming and revoking\<close>

lemma map_spends:
  "(\<And>e. hit e \<Longrightarrow> spent_from e (f e)) \<Longrightarrow>
     holds spends id h (Inr (h\<lparr>capability_grants := map (\<lambda>e. if hit e then f e else e) (capability_grants h)\<rparr>))"
  by (simp add: holds_def spends_def list_all2_conv_all_nth spent_refl)

lemma mark_consumed_spends [follow]: "holds spends id h (mark_consumed gid tid act resource token now h)"
  unfolding mark_consumed_def Let_def
  by (intro spend_logic.rules follow map_spends) (auto simp: spent_from_def consumable_def revocable_def)

lemma consume_request_spends [follow]: "holds spends id h (consume_request rid h)"
  unfolding consume_request_def Let_def by (intro spend_logic.rules follow) simp_all

lemma consume_spends [follow]: "holds spends fst h (consume_grant gid tid act resource lease wl now h)"
  unfolding consume_grant_def Let_def by (intro spend_logic.rules follow) simp_all

lemma revoke_one_spends [follow]: "holds spends id h (revoke_one strict reason lease now e h)"
proof -
  let ?hit = "\<lambda>x. grant_id (grant x) = grant_id (grant e) \<and> revocable (grant x)"
  let ?h = "h\<lparr>capability_grants := map (\<lambda>x. if ?hit x then revoke_row reason now x else x) (capability_grants h)\<rparr>"
  have "holds spends id h (Inr ?h)" by (rule map_spends) (auto simp: spent_from_def)
  then have m: "spends h ?h" by (simp add: holds_def)
  have from_map: "holds spends id h k" if "holds spends id ?h k" for k
    using that spend_logic.trans [OF m] by (auto simp: holds_def)
  show ?thesis unfolding revoke_one_def Let_def
    by (intro holds_if follow from_map holds_option spend_logic.nxt) simp_all
qed

lemma revoke_each_spends [follow]: "holds spends id h (revoke_each strict reason lease now es h)"
  by (induction es arbitrary: h) (auto intro!: spend_logic.rules follow)

lemma revoke_spends [follow]:
  "holds spends id h (revoke_unconsumed_for_run wid lease reason now h)"
  "holds spends id h (revoke_unconsumed_for_run_in wid lease reason now h)"
  unfolding revoke_unconsumed_for_run_def revoke_unconsumed_for_run_in_def by (intro spend_logic.rules follow)+

lemma cancel_run_spends [follow]: "holds spends id h (cancel_run_with_cleanup wid lease reason now h)"
  unfolding cancel_run_with_cleanup_def Let_def by (intro spend_logic.rules follow) simp_all

subsection \<open>Change sets\<close>

lemma insert_capture_spends [follow]: "holds spends id h (insert_capture_in c task i status reason lease wl h)"
  unfolding insert_capture_in_def Let_def by (intro spend_logic.rules follow) simp_all

lemma capture_spends:
  assumes "publisher publish"
  shows "holds spends id h (persist_capture publish H session wid i task c lease wl target error status reason now h)"
proof -
  have p: "holds spends id h (publish h)"
    using assms by (auto simp: publisher_def same_records_def holds_def intro!: spend_logic.same)
  show ?thesis unfolding persist_capture_def
    by (intro spend_logic.rules follow p) simp_all
qed

subsection \<open>Issuing\<close>

definition issued :: "GrantRow list \<Rightarrow> GrantRow list \<Rightarrow> bool" where
  "issued gs gs' \<longleftrightarrow> (\<exists>e. gs' = gs @ [e] \<and> grant_invariants (grant e) \<and>
     grant_id (grant e) \<notin> set (map (\<lambda>x. grant_id (grant x)) gs) \<and>
     grant_request_id (grant e) \<notin> set (map (\<lambda>x. grant_request_id (grant x)) gs) \<and>
     grant_target_task_id (grant e) \<notin> set (map (\<lambda>x. grant_target_task_id (grant x)) gs))"

lemma issued_ok: "issued gs gs' \<Longrightarrow> grants_ok gs \<Longrightarrow> grants_ok gs'"
  by (auto simp: issued_def grants_ok_def simp del: set_map)

definition grants_change :: "HubStore \<Rightarrow> HubStore \<Rightarrow> bool" where
  \<comment> \<open>a grant is issued only for a request that has an approval\<close>
  "grants_change h h' \<longleftrightarrow> spends h h' \<or>
     issued (capability_grants h) (capability_grants h') \<and> \<not> list_all for_change_set (approvals h)"

lemma issue_issues:
  assumes "issue lease now i reason g rseal h = Inr h'"
  shows "issued (capability_grants h) (capability_grants h')"
proof -
  obtain h1 h2 where 1: "insert_grant g rseal h = Inr h1"
    and 2: "append_grant_event lease i (g\<lparr>consumed_at := None, consumed_fencing_token := None, revoked_at := None,
            revocation_reason := None\<rparr>) reason h1 = Inr h2"
    and 3: "lift_run h2 (activate_capability_target_in (grant_target_task_id g) lease now (hub_run h2)) = Inr h'"
    using assms by (auto simp: issue_def and_then_Inr)
  have "issued (capability_grants h) (capability_grants h1)"
  proof -
    let ?e = "\<lparr>grant = g\<lparr>consumed_at := None, consumed_fencing_token := None, revoked_at := None,
            revocation_reason := None\<rparr>, grant_seal = rseal\<rparr>"
    have e: "capability_grants h1 = capability_grants h @ [?e]"
      and n: "\<not> list_ex (\<lambda>e. grant_id (grant e) = grant_id g \<or> grant_request_id (grant e) = grant_request_id g \<or>
           grant_target_task_id (grant e) = grant_target_task_id g) (capability_grants h)"
      using 1 by (auto simp: insert_grant_def Let_def split: if_splits)
    have "\<forall>x \<in> set (capability_grants h). grant_id (grant x) \<noteq> grant_id g \<and>
        grant_request_id (grant x) \<noteq> grant_request_id g \<and>
        grant_target_task_id (grant x) \<noteq> grant_target_task_id g"
      using n by (simp add: list_ex_iff)
    then show ?thesis unfolding issued_def e
      by (intro exI [of _ ?e] conjI refl) (force simp: grant_invariants_def)+
  qed
  moreover have "h2 = h1\<lparr>hub_run := hub_run h2\<rparr>"
    using 2 unfolding append_grant_event_def by (auto dest: append_event_same)
  then have "capability_grants h2 = capability_grants h1"
    by (metis grants_same(1))
  then have "capability_grants h' = capability_grants h1"
    using 3 by (auto simp: lift_run_def and_then_Inr)
  ultimately show ?thesis by simp
qed

lemma approved_is_privileged: "approved_for_request h rid now \<Longrightarrow> \<not> list_all for_change_set (approvals h)"
proof -
  assume "approved_for_request h rid now"
  then obtain a where "latest approval_created_at (filter (\<lambda>a. subject (approval a) = PrivilegeSubject rid) (approvals h)) =
      Some a"
    by (auto simp: approved_for_request_def split: option.splits)
  then have "a \<in> set (filter (\<lambda>a. subject (approval a) = PrivilegeSubject rid) (approvals h))"
    unfolding latest_def find_Some_iff by (metis nth_mem)
  then have "a \<in> set (approvals h)" "\<not> for_change_set a" by (simp_all add: for_change_set_def)
  then show ?thesis unfolding list_all_iff by blast
qed

lemma create_grant_changes: "holds grants_change id h (create_grant H g wid source_task lease now h)"
proof -
  have bind: "holds grants_change id h (lift_run (bind_active a b h) m)" for a b m
    by (auto simp: holds_def grants_change_def lift_run_def and_then_Inr intro!: spend_logic.same)
  show ?thesis unfolding create_grant_def Let_def
    by (intro holds_guard holds_if holds_option holds_Inl bind holds_Inr holdsI)
      (auto simp: grants_change_def dest: issue_issues approved_is_privileged intro: spend_logic.same)
qed

subsection \<open>The refinement\<close>

theorem hub_step_grants:
  assumes "hub_step H cd h h'"
  shows "grants_change h h'"
  using assms
proof cases
  case (run st)
  then show ?thesis by (auto simp: grants_change_def intro: spend_logic.same)
next
  case (capture publish session wid i task c lease wl target error status reason now)
  then show ?thesis using holdsD [OF capture_spends] by (fastforce simp: grants_change_def)
next
  case (prepare stamp isoformat document read ttl ctx lease now result)
  then show ?thesis using spend_logic.prepare_follows by (simp add: grants_change_def)
next
  case (grant g wid source_task lease now)
  then show ?thesis using holdsD [OF create_grant_changes] by fastforce
next
  case elsewhere
  then show ?thesis by (auto simp: grants_change_def same_records_def intro: spend_logic.same)
next
  case guard
  from holdsD [OF spend_logic.transition_follows this(2)] show ?thesis by (simp add: grants_change_def)
next
  case renew
  from holdsD [OF spend_logic.renew_follows this] show ?thesis by (simp add: grants_change_def)
next
  case decide
  from holdsD [OF spend_logic.decide_follows this] show ?thesis by (simp add: grants_change_def)
next
  case expire
  from holdsD [OF spend_logic.expire_due_follows this] show ?thesis by (simp add: grants_change_def)
next
  case invalidate
  from holdsD [OF spend_logic.invalidate_follows(1) this] show ?thesis by (simp add: grants_change_def)
next
  case cancel
  from holdsD [OF cancel_run_spends this] show ?thesis by (simp add: grants_change_def)
next
  case ask_privilege
  from holdsD [OF spend_logic.create_request_follows this] show ?thesis by (simp add: grants_change_def)
next
  case ask_approval
  from holdsD [OF spend_logic.create_both_follows this] show ?thesis by (simp add: grants_change_def)
next
  case consume
  from holdsD [OF consume_spends this] show ?thesis by (simp add: grants_change_def)
next
  case revoke
  from holdsD [OF revoke_spends(1) this] show ?thesis by (simp add: grants_change_def)
qed

lemma grants_change_ok: "grants_change h h' \<Longrightarrow> grants_ok (capability_grants h) \<Longrightarrow> grants_ok (capability_grants h')"
  using spent_ok issued_ok unfolding grants_change_def spends_def by blast

lemma grants_change_row:
  assumes "grants_change h h'" and "e \<in> set (capability_grants h)"
  shows "\<exists>e' \<in> set (capability_grants h'). spent_from e e'"
proof (cases "spends h h'")
  case True
  then show ?thesis using assms(2) unfolding spends_def list_all2_conv_all_nth by (metis in_set_conv_nth)
next
  case False
  then have "e \<in> set (capability_grants h')" using assms by (auto simp: grants_change_def issued_def)
  then show ?thesis using spent_refl by blast
qed

lemma hub_steps_grants:
  assumes "(hub_step H cd)\<^sup>*\<^sup>* h h'" and "grants_ok (capability_grants h)"
  shows "grants_ok (capability_grants h')"
    and "e \<in> set (capability_grants h) \<Longrightarrow> \<exists>e' \<in> set (capability_grants h'). spent_from e e'"
proof -
  show "grants_ok (capability_grants h')"
    using assms by (induction rule: rtranclp_induct) (auto dest: hub_step_grants grants_change_ok)
  show "\<exists>e' \<in> set (capability_grants h'). spent_from e e'" if "e \<in> set (capability_grants h)"
    using assms(1) that
  proof (induction rule: rtranclp_induct)
    case (step h1 h2)
    then obtain e1 where "e1 \<in> set (capability_grants h1)" "spent_from e e1" by blast
    then show ?case using grants_change_row [OF hub_step_grants [OF step.hyps(2)]] spent_trans by blast
  qed (auto intro: spent_refl)
qed

end
