(* ===== verification/Hub_Refinement.thy ===== *)
theory Hub_Refinement
  imports Hub_Steps
begin

text \<open>
  Each operation of the approval and change set repositories is a sequence of moves of
  \<open>Auth_Machine\<close>, and keeps what the run repository reads of an approval.
\<close>

named_theorems hub_leads \<open>operations that follow the specification\<close>

declare leads_events [hub_leads] leads_refl [hub_leads] leads_Inl [hub_leads] leads_same [hub_leads]
  leads_lift [hub_leads]

lemmas leads_rules = leads_guard leads_if leads_option leads_next

lemma request_table_same [simp]:
  "approvals (unbind_active gid tid h) = approvals h" "hub_run (unbind_active gid tid h) = hub_run h"
  "approvals (bind_active gid tid h) = approvals h" "hub_run (bind_active gid tid h) = hub_run h"
  by (simp_all add: unbind_active_def bind_active_def)

subsection \<open>Expiry\<close>

lemma expire_request_leads [hub_leads]: "leads id h (expire_request H rid lease now h)"
  unfolding expire_request_def
  by (intro leads_rules hub_leads resume_privilege_frames) simp_all

lemma expire_in_leads [hub_leads]: "leads id h (expire_in H r lease now h)"
proof -
  have "leads id h' (case s of ChangeSetSubject c b p \<Rightarrow> Inr h' | PrivilegeSubject rid \<Rightarrow> expire_request H rid lease now h')"
    for h' s by (cases s) (simp_all add: hub_leads)
  then show ?thesis unfolding expire_in_def
    by (intro leads_next lapse_leads leads_guard hub_leads) simp_all
qed

lemma expire_each_leads [hub_leads]: "leads id h (expire_each H rs lease now h)"
  by (induction rs arbitrary: h) (auto intro!: leads_next hub_leads)

lemma expire_due_leads [hub_leads]: "leads id h (expire_due H lease only now h)"
  unfolding expire_due_def by (intro leads_guard hub_leads)

subsection \<open>Asking for an approval\<close>

lemma identifies_mono: "set (map change_set_key css) \<subseteq> set (map change_set_key css') \<Longrightarrow>
    identifies s css \<Longrightarrow> identifies s css'"
  by (auto simp: identifies_def split: Subject.splits)

lemma auth_moves_identify:
  "auth_move\<^sup>*\<^sup>* x y \<Longrightarrow> identifies s (snd x) \<Longrightarrow> identifies s (snd y)"
proof (induction rule: rtranclp_induct)
  case (step y z)
  from step.hyps(2) have "set (map change_set_key (snd y)) \<subseteq> set (map change_set_key (snd z))"
    by cases auto
  then show ?case using step identifies_mono by blast
qed

lemma insert_leads:
  assumes "identifies (subject a) (change_sets (hub_run h))" and "approval_risk a \<noteq> L4"
    and "\<exists>c b p. subject a = ChangeSetSubject c b p"
  shows "leads id h (insert_approval a key now h)"
proof -
  have "auth_move (auth h) (auth h') \<and> in_step h'" if i: "insert_approval a key now h = Inr h'" for h'
  proof -
    have "approval_id a \<notin> ap_id ` set (approvals h)"
      using i by (auto simp: insert_approval_def list_ex_iff split: if_splits)
    moreover obtain c b p where "subject a = ChangeSetSubject c b p" using assms(3) by blast
    ultimately show ?thesis
      using i assms(1,2) by (auto simp: insert_approval_def put_approvals_in_step asked_def split: if_splits
          intro!: auth_move.ask [where c = c and b = b and p = p] simp del: image_iff)
  qed
  then show ?thesis by (auto simp: leads_def)
qed

lemma record_leads:
  assumes "identifies (subject a) (change_sets (hub_run h))" and "approval_risk a \<noteq> L4"
    and "\<exists>c b p. subject a = ChangeSetSubject c b p"
  shows "leads fst h (record_approval a key lease now h)"
  unfolding record_approval_def
  by (intro leads_next insert_leads leads_guard hub_leads assms) simp_all

lemma move_rows_leads:
  assumes "b \<in> set (allowed_targets a)" and "b \<notin> {ChangeSetStatus.APPROVED, ChangeSetStatus.MERGED}"
  shows "leads id h (Inr (put_change_sets
     (\<lambda>x. if change_set_id x = c \<and> change_set_status x = a then x\<lparr>change_set_status := b\<rparr> else x) h))"
  using auth_move.move [OF assms, of "approvals h" "change_sets (hub_run h)" c]
  by (auto simp: leads_def in_step_def move_rows_def)

lemma propose_leads [hub_leads]: "leads id h (propose_change_set c a h)"
  unfolding propose_change_set_def
  by (intro leads_rules hub_leads move_rows_leads) simp_all

lemma ambiguous_status:
  "request_approval [''workflow_run_id'', ''node_run_id'', ''status''] a rid lease h = Inl OperationalError"
  "request_approval [''workflow_run_id'', ''node_run_id'', ''task_id'', ''status''] a rid lease h = Inl OperationalError"
  by (simp_all add: request_approval_def columns_resolve_def privilege_requests_columns_def
      node_runs_columns_def workflow_runs_columns_def)

lemma create_leads:
  assumes "identifies (subject a) (change_sets (hub_run h))"
  shows "leads fst h (create a lease key now h)"
proof -
  have "leads fst h (and_then
     (case s of
        ChangeSetSubject c b p \<Rightarrow> propose_change_set c a h
      | PrivilegeSubject rid \<Rightarrow>
          request_approval [''workflow_run_id'', ''node_run_id'', ''status''] a rid lease h)
     (record_approval a key lease now))" if "approval_risk a \<noteq> L4" "subject a = s" for s
  proof (cases s)
    case (ChangeSetSubject c b p)
    have s: "\<exists>c b p. subject a = ChangeSetSubject c b p" using that(2) ChangeSetSubject by simp
    show ?thesis unfolding ChangeSetSubject Subject.case
    proof (rule leadsI, intro leads_next hub_leads record_leads that(1) s)
      fix h1 assume "auth_inv (auth h)" "propose_change_set c a h = Inr h1"
      then have "auth_move\<^sup>*\<^sup>* (auth h) (auth h1)" using leadsD [OF propose_leads] by fastforce
      then show "identifies (subject a) (change_sets (hub_run h1))" using auth_moves_identify assms by force
    qed
  qed (simp add: ambiguous_status and_then_def leads_Inl)
  then show ?thesis
    unfolding create_def by (intro leads_guard leads_if leads_option leads_Inl leads_same) simp_all
qed

lemma create_request_leads [hub_leads]: "leads fst h (create_privilege_request q rseal lease wl now h)"
  unfolding create_privilege_request_def insert_request_def
  by (intro leads_rules hub_leads) simp_all

lemma create_both_leads [hub_leads]:
  "leads fst h (create_privilege_request_and_approval q rseal a rid lease wl key now h)"
  unfolding create_privilege_request_and_approval_def insert_request_def ambiguous_status
  by (intro leads_rules hub_leads) (simp_all add: and_then_def leads_Inl)

subsection \<open>The approval manager\<close>

lemma found: "find p xs = Some x \<Longrightarrow> x \<in> set xs \<and> p x"
  by (auto simp: find_Some_iff)

lemma manager_subject:
  assumes "change_set_approval H stamp isoformat document read ttl ctx now h = Inr a"
  shows "identifies (subject a) (change_sets (hub_run h))"
proof -
  obtain source c t where "change_set_for_source h source = Some (c, t)"
    and s: "subject a = ChangeSetSubject (change_set_id c) (change_set_base c) (change_set_patch c)"
  proof -
    assume k: "\<And>source c t. change_set_for_source h source = Some (c, t) \<Longrightarrow>
      subject a = ChangeSetSubject (change_set_id c) (change_set_base c) (change_set_patch c) \<Longrightarrow> thesis"
    obtain i where i: "source_node_id (ctx_node ctx) = Some i"
      using assms unfolding change_set_approval_def Let_def by (auto split: option.splits)
    then obtain c t where c: "change_set_for_source h i = Some (c, t)"
      using assms unfolding change_set_approval_def Let_def by (auto split: option.splits if_splits)
    obtain d where d: "document c = Inr d"
      using assms i c unfolding change_set_approval_def Let_def by (auto simp: and_then_Inr split: if_splits)
    have "subject a = ChangeSetSubject (change_set_id c) (change_set_base c) (change_set_patch c)"
      using assms unfolding change_set_approval_def Let_def i c d and_then_def
      by (auto split: option.splits prod.splits sum.splits if_splits simp: i c d)
    then show thesis using k c by blast
  qed
  then have "c \<in> set (change_sets (hub_run h))"
    by (auto simp: change_set_for_source_def Let_def dest!: found)
  then show ?thesis by (auto simp: s identifies_def change_set_key_def)
qed

lemma settle_leads:
  assumes "identifies (subject a) (change_sets (hub_run h))" and "auth_inv (auth h)"
    and "settle_changeset a lease now h = (h', result)"
  shows "auth_move\<^sup>*\<^sup>* (auth h) (auth h') \<and> (in_step h \<longrightarrow> in_step h')"
  using leadsD [OF create_leads [OF assms(1)] _ assms(2)] assms(3)
  by (fastforce simp: settle_changeset_def Let_def split: option.splits sum.splits if_splits prod.splits)

lemma prepare_leads:
  assumes "auth_inv (auth h)"
    and "prepare_changeset H stamp isoformat document read ttl ctx lease now h = (h', result)"
  shows "auth_move\<^sup>*\<^sup>* (auth h) (auth h') \<and> (in_step h \<longrightarrow> in_step h')"
proof (cases "change_set_approval H stamp isoformat document read ttl ctx now h")
  case (Inr a)
  note i = manager_subject [OF Inr]
  have late: "?thesis" if e: "expire_due H lease only now h = Inr h1"
    and s: "settle_changeset a lease now h1 = (h', result)" for only h1
  proof -
    have m: "auth_move\<^sup>*\<^sup>* (auth h) (auth h1)" "in_step h \<longrightarrow> in_step h1"
      using leadsD [OF expire_due_leads e assms(1)] by simp_all
    have "identifies (subject a) (change_sets (hub_run h1))" using auth_moves_identify [OF m(1)] i by simp
    then have "auth_move\<^sup>*\<^sup>* (auth h1) (auth h') \<and> (in_step h1 \<longrightarrow> in_step h')"
      using settle_leads auth_moves_inv [OF m(1) assms(1)] s by blast
    then show ?thesis using m by (auto intro: rtranclp_trans)
  qed
  show ?thesis
    using assms(2) Inr settle_leads [OF i assms(1)] late
    by (auto simp: prepare_changeset_def split: option.splits if_splits sum.splits)
qed (use assms(2) in \<open>simp add: prepare_changeset_def\<close>)

lemma renewal_leads [hub_leads]: "leads fst h (renew_changeset i version confirm new lease now h)"
proof (rule leadsI)
  assume inv: "auth_inv (auth h)"
  have row: "leads fst h (case subject (approval r) of
         PrivilegeSubject _ \<Rightarrow> Inl (PyError ValueError)
       | ChangeSetSubject _ _ _ \<Rightarrow>
           (if ap_status (approval r) \<noteq> ApprovalStatus.EXPIRED then Inl ConcurrencyConflict
            else if approval_version (approval r) \<noteq> version then Inl ConcurrencyConflict
            else if subject_sha256 (approval r) \<noteq> confirm then Inl ConcurrencyConflict
            else case renewal_problem (approval r) new now h of
              Some e \<Rightarrow> Inl e
            | None \<Rightarrow>
                and_then (insert_approval new None now h) (\<lambda>h1.
                and_then (append_approval_event lease new None (Some (''renewed_from:'' @ i)) h1) (\<lambda>h2.
                with_approval h2 (approval_id new) (\<lambda>x. Inr (h2, x))))))"
    if f: "find_approval h i = Some r" for r
  proof (cases "subject (approval r)")
    case (ChangeSetSubject c b p)
    have "r \<in> set (approvals h)" using f by (auto simp: find_approval_def dest!: found)
    then have "identifies (subject (approval r)) (change_sets (hub_run h))"
      using inv by (auto simp: auth_inv_def list_all_iff)
    then have "identifies (subject new) (change_sets (hub_run h)) \<and> approval_risk new \<noteq> L4 \<and>
        subject new = ChangeSetSubject c b p"
      if "renewal_problem (approval r) new now h = None"
      using that ChangeSetSubject by (auto simp: renewal_problem_def split: if_splits)
    then show ?thesis unfolding ChangeSetSubject Subject.case
      by (cases "renewal_problem (approval r) new now h")
        (auto intro!: leads_if leads_next insert_leads leads_guard hub_leads)
  qed (simp add: leads_Inl)
  show "leads fst h (renew_changeset i version confirm new lease now h)"
    unfolding renew_changeset_def by (intro leads_guard row)
qed

lemma renew_leads [hub_leads]:
  "leads fst h (renew H stamp isoformat document read i version confirm new lease now h)"
  unfolding renew_def Let_def
  by (intro leads_guard, split Subject.split, intro conjI allI impI leads_Inl leads_option leads_guard leads_skip)
    (auto intro!: leads_if leads_Inl hub_leads split: sum.split)

subsection \<open>Cancellation\<close>

lemma invalidate_subject_leads [hub_leads]:
  assumes "set statuses \<subseteq> {ChangeSetStatus.PENDING_APPROVAL, ChangeSetStatus.APPROVED}"
  shows "leads id h (invalidate_subject statuses reason r lease h)"
proof (cases "subject (approval r)")
  case (ChangeSetSubject c b p)
  then show ?thesis
    using cancel_rows_leads [OF assms, of h "\<lambda>x. change_set_id x = c"]
    by (simp add: invalidate_subject_def conj_commute)
next
  case (PrivilegeSubject rid)
  show ?thesis unfolding invalidate_subject_def PrivilegeSubject Subject.case
    by (intro leads_rules hub_leads) simp_all
qed

lemma invalidate_each_leads [hub_leads]:
  assumes "set statuses \<subseteq> {ChangeSetStatus.PENDING_APPROVAL, ChangeSetStatus.APPROVED}"
  shows "leads id h (invalidate_each statuses reason rs lease now h)"
proof (induction rs arbitrary: h)
  case (Cons r rs)
  show ?case unfolding invalidate_each.simps
    by (intro leads_next lapse_leads leads_guard invalidate_subject_leads [OF assms] Cons.IH hub_leads) simp_all
qed (simp add: leads_refl)

lemma cancel_change_sets_leads [hub_leads]: "leads id h (Inr (cancel_change_sets wid h))"
  using cancel_rows_leads [of "[ChangeSetStatus.PENDING_APPROVAL, ChangeSetStatus.APPROVED]" h
      "\<lambda>x. workflow_run_id (run (hub_run h)) = wid \<and> change_set_task_id x \<in> task_id ` set (tasks (hub_run h))"]
  by (simp add: cancel_change_sets_def)

lemma invalidate_rows_leads:
  assumes "set statuses \<subseteq> {ChangeSetStatus.PENDING_APPROVAL, ChangeSetStatus.APPROVED}"
  shows "leads id h (invalidate_rows statuses wid reason lease now h)"
  unfolding invalidate_rows_def by (intro leads_guard leads_next hub_leads assms)

lemma invalidate_leads [hub_leads]:
  "leads id h (invalidate_for_run wid lease reason now h)"
  "leads id h (invalidate_for_run_in wid lease reason now h)"
  unfolding invalidate_for_run_def invalidate_for_run_in_def by (rule invalidate_rows_leads, simp)+

subsection \<open>Grants\<close>

lemma grant_fields [simp]:
  "approvals (h\<lparr>capability_grants := gs\<rparr>) = approvals h" "hub_run (h\<lparr>capability_grants := gs\<rparr>) = hub_run h"
  by simp_all

lemma revoke_one_leads [hub_leads]: "leads id h (revoke_one strict reason lease now e h)"
  unfolding revoke_one_def Let_def
  by (intro leads_rules hub_leads) simp_all

lemma revoke_each_leads [hub_leads]: "leads id h (revoke_each strict reason lease now es h)"
  by (induction es arbitrary: h) (auto intro!: leads_next hub_leads)

lemma revoke_leads [hub_leads]:
  "leads id h (revoke_unconsumed_for_run wid lease reason now h)"
  "leads id h (revoke_unconsumed_for_run_in wid lease reason now h)"
  unfolding revoke_unconsumed_for_run_def revoke_unconsumed_for_run_in_def by (intro leads_guard hub_leads)+

lemma issue_leads [hub_leads]: "leads id h (issue lease now i reason g rseal h)"
  unfolding issue_def insert_grant_def Let_def
  by (intro leads_rules hub_leads activate_frames) simp_all

lemma create_grant_leads [hub_leads]: "leads id h (create_grant H g wid source_task lease now h)"
  unfolding create_grant_def Let_def
  by (intro leads_rules hub_leads activate_frames) simp_all

lemma consume_leads [hub_leads]: "leads fst h (consume_grant gid tid act resource lease wl now h)"
  unfolding consume_grant_def mark_consumed_def consume_request_def Let_def
  by (intro leads_rules hub_leads) simp_all

lemma cancel_run_leads [hub_leads]: "leads id h (cancel_run_with_cleanup wid lease reason now h)"
  unfolding cancel_run_with_cleanup_def Let_def
  by (intro leads_rules hub_leads cancel_in_frames update_frames refl) simp_all

subsection \<open>Decisions\<close>

lemma replay_leads [hub_leads]: "leads fst h (replay_decision H version confirm target actor key r h)"
  unfolding replay_decision_def Let_def
  by (intro leads_if leads_option leads_next backfill_leads leads_guard hub_leads) auto

lemma no_privilege_leads: "leads p h (and_then (approve_privilege_in H wid i a lease now st) k)"
  using approve_privilege_frames by (fastforce simp: leads_def and_then_Inr)

lemma privilege_decision_leads:
  assumes "subject (approval r) = PrivilegeSubject rid"
  shows "leads id h (decide_subject H grant_ttl approved r lease now h)"
  unfolding decide_subject_def assms Subject.case Let_def
  by (intro leads_if leads_guard leads_next leads_Inl no_privilege_leads hub_leads resume_privilege_frames)
    simp_all

lemma decision_row:
  "(\<lambda>x. (set_status s now x)\<lparr>decision_actor := Some actor, decision_idempotency_key := Some key,
     decision_request_sha256 := Some sha\<rparr>) = decide_row s actor key sha now"
  by (simp add: set_status_def decide_row_def fun_eq_iff)

lemma change_set_decision:
  assumes "subject (approval r) = ChangeSetSubject c b p"
    and "decide_subject H grant_ttl approved r lease now h = Inr h'"
  shows "auth h' = (approvals h, move_rows c ChangeSetStatus.PENDING_APPROVAL
      (if approved then ChangeSetStatus.APPROVED else ChangeSetStatus.REJECTED) (change_sets (hub_run h)))"
    and "approval_status (hub_run h') = approval_status (hub_run h)"
proof -
  let ?s = "if approved then ChangeSetStatus.APPROVED else ChangeSetStatus.REJECTED"
  let ?h = "put_change_sets (\<lambda>x. if change_set_id x = c \<and> change_set_status x = ChangeSetStatus.PENDING_APPROVAL
      then x\<lparr>change_set_status := ?s\<rparr> else x) h"
  obtain st where st: "resume_after_approval_in (approval_run_id (approval r)) (approval_node_run_id (approval r))
      approved lease now (hub_run ?h) = Inr st" and h': "h' = ?h\<lparr>hub_run := st\<rparr>"
    using assms by (auto simp: decide_subject_def Let_def lift_run_def and_then_Inr split: if_splits)
  have "other_tables st = other_tables (hub_run ?h)"
    using resume_in_frames [THEN framesD, OF st] by simp
  then show "auth h' = (approvals h, move_rows c ChangeSetStatus.PENDING_APPROVAL ?s (change_sets (hub_run h)))"
    and "approval_status (hub_run h') = approval_status (hub_run h)"
    by (simp_all add: h' other_tables_def move_rows_def)
qed

lemma decision_moves:
  assumes inv: "auth_inv (auth h)" and f: "find_approval h i = Some r" and "is_pending r"
    and "now < approval_expires_at (approval r)"
    and u: "update_approval i (\<lambda>x. is_pending x \<and> approval_version (approval x) = version \<and> subject_sha256 (approval x) = confirm)
        (decide_row (if approved then ApprovalStatus.APPROVED else ApprovalStatus.REJECTED) actor key sha now) err h = Inr h1"
    and d: "decide_subject H grant_ttl approved r lease now h1 = Inr h2"
  shows "auth_move\<^sup>*\<^sup>* (auth h) (auth h2) \<and> in_step h2"
proof -
  let ?t = "if approved then ApprovalStatus.APPROVED else ApprovalStatus.REJECTED"
  have r: "r \<in> set (approvals h)" "ap_id r = i" using f by (auto simp: find_approval_def dest!: found)
  have h1: "h1 = put_approvals (on_row (ap_id r) (decide_row ?t actor key sha now) (approvals h)) h"
    using update_form [OF u inv] by (elim bexE conjE) (simp only: r(2))
  show ?thesis
  proof (cases "subject (approval r)")
    case (ChangeSetSubject c b p)
    note c = change_set_decision [OF ChangeSetSubject d]
    have "auth_move\<^sup>*\<^sup>* (auth h) (auth h2)"
    proof (cases approved)
      case True
      have "auth_move (auth h) (auth h2)"
        unfolding c(1) using auth_move.approve [OF r(1) assms(3,4) ChangeSetSubject] True by (simp add: h1)
      then show ?thesis by blast
    next
      case False
      have "auth_move (auth h) (auth h1)"
        using auth_move.reject [OF r(1) assms(3,4)] False by (simp add: h1)
      moreover have "auth_move (auth h1) (auth h2)"
        unfolding c(1) using False by (auto intro!: auth_move.move)
      ultimately show ?thesis by (meson converse_rtranclp_into_rtranclp r_into_rtranclp)
    qed
    moreover have "approvals h2 = approvals h1" using c(1) by blast
    ultimately show ?thesis using c(2) by (simp add: in_step_def h1)
  next
    case (PrivilegeSubject rid)
    have "auth_move (auth h) (auth h1)"
      using auth_move.grant [OF r(1) assms(3,4) PrivilegeSubject] auth_move.reject [OF r(1) assms(3,4)]
      by (simp add: h1)
    moreover from this have "auth_inv (auth h1)" using inv auth_move_inv by blast
    ultimately show ?thesis
      using leadsD [OF privilege_decision_leads [OF PrivilegeSubject] d] put_approvals_in_step
      by (auto simp: h1 intro: converse_rtranclp_into_rtranclp)
  qed
qed

lemma decide_leads [hub_leads]: "leads fst h (decide H grant_ttl i version confirm approved actor key lease now h)"
proof (rule leadsI)
  assume inv: "auth_inv (auth h)"
  let ?t = "if approved then ApprovalStatus.APPROVED else ApprovalStatus.REJECTED"
  have pending: "leads fst h (and_then (update_approval i (\<lambda>x. is_pending x \<and> approval_version (approval x) = version \<and>
                  subject_sha256 (approval x) = confirm)
                (decide_row ?t actor key (decision_request_sha H i version confirm ?t actor key) now)
                ConcurrencyConflict h) (\<lambda>h1.
             and_then (decide_subject H grant_ttl approved r lease now h1) (\<lambda>h2.
             with_approval h2 i (\<lambda>x.
               and_then (append_approval_event lease (approval x) (Some ApprovalStatus.PENDING)
                 (Some (''decision:'' @ ApprovalStatus_value ?t)) h2) (\<lambda>h3. Inr (h3, x))))))"
    if f: "find_approval h i = Some r" and "is_pending r" "now < approval_expires_at (approval r)" for r
  proof -
    have "auth_move\<^sup>*\<^sup>* (auth h) (auth h3) \<and> in_step h3"
      if u: "update_approval i (\<lambda>x. is_pending x \<and> approval_version (approval x) = version \<and>
                  subject_sha256 (approval x) = confirm)
                (decide_row ?t actor key (decision_request_sha H i version confirm ?t actor key) now)
                ConcurrencyConflict h = Inr h1"
        and d: "decide_subject H grant_ttl approved r lease now h1 = Inr h2"
        and e: "append_approval_event lease a s reason h2 = Inr h3" for h1 h2 h3 a s reason
    proof -
      have m: "auth_move\<^sup>*\<^sup>* (auth h) (auth h2)" "in_step h2"
        using decision_moves [OF inv f \<open>is_pending r\<close> \<open>now < _\<close> u d] by simp_all
      have "auth_move\<^sup>*\<^sup>* (auth h2) (auth h3) \<and> (in_step h2 \<longrightarrow> in_step h3)"
        using leadsD [OF leads_events(1) e auth_moves_inv [OF m(1) inv]] by simp
      then show ?thesis using m by (auto intro: rtranclp_trans)
    qed
    then show ?thesis
      by (auto simp: leads_def and_then_Inr with_approval_def split: option.splits)
  qed
  show "leads fst h (decide H grant_ttl i version confirm approved actor key lease now h)"
    unfolding decide_def Let_def decision_row
    by (intro leads_if leads_guard leads_Inl hub_leads pending)
      (auto intro!: leads_Inl simp: and_then_def leads_def split: sum.split)
qed

subsection \<open>Change sets and runs\<close>

lemma same_leads: "same_records h h' \<Longrightarrow> leads id h (Inr h')"
  by (rule leads_same) (simp_all add: same_records_def)

lemma security_leads [hub_leads]:
  "auth h1 = auth h \<Longrightarrow> approval_status (hub_run h1) = approval_status (hub_run h) \<Longrightarrow>
     leads id h (change_set_security_event task reason sev h1)"
  unfolding change_set_security_event_def by (intro leads_if leads_Inl leads_same) simp_all

lemma move_leads:
  assumes "b \<in> set (allowed_targets a)" and "b \<notin> {ChangeSetStatus.APPROVED, ChangeSetStatus.MERGED}"
  shows "leads id h (move_change_set c a b h)"
  unfolding move_change_set_def Let_def by (intro leads_if leads_Inl move_rows_leads assms)

lemma transition_leads:
  assumes "(a, b) \<in> set guard_moves"
  shows "leads id h (transition c a b lease wl reason sev now h)"
proof -
  have "leads id h (and_then (move_change_set c a b h) (\<lambda>h1.
      and_then (change_set_event lease wl i row s b reason h1)
        (\<lambda>h2. case sev of None \<Rightarrow> Inr h2 | Some s \<Rightarrow> change_set_security_event t (opt_list reason) s h2)))"
    for i row s t
    using assms by (intro leads_option leads_next move_leads hub_leads) (auto simp: guard_moves_def)
  then show ?thesis unfolding transition_def by (intro leads_if leads_guard leads_option leads_Inl)
qed

lemma insert_capture_leads:
  assumes "status \<in> {ChangeSetStatus.CAPTURED, ChangeSetStatus.ABANDONED_PARTIAL}"
  shows "leads id h (insert_capture_in c task i status reason lease wl h)"
proof (cases "list_ex (\<lambda>x. change_set_id x = capture_id c \<or> change_set_task_id x = task) (change_sets (hub_run h))")
  case False
  let ?row = "\<lparr>change_set_id = capture_id c, change_set_task_id = task, change_set_base = capture_base c,
      change_set_patch = capture_patch c, change_set_status = status\<rparr>"
  let ?h = "h\<lparr>hub_run := (hub_run h)\<lparr>change_sets := change_sets (hub_run h) @ [?row]\<rparr>,
      node_change_set := (node_change_set h)(i \<mapsto> capture_id c)\<rparr>"
  have "change_set_id ?row \<notin> change_set_id ` set (change_sets (hub_run h))"
    using False by (auto simp: list_ex_iff)
  then have "auth_move (auth h) (approvals h, change_sets (hub_run h) @ [?row])"
    using assms by (intro auth_move.capture) simp_all
  then have h: "leads id h (Inr ?h)" by (auto simp: leads_def in_step_def)
  have "leads id h (and_then (Inr ?h) (\<lambda>h. and_then (change_set_event lease (Some wl) i ?row None status reason h)
      (\<lambda>h1. if status \<noteq> ChangeSetStatus.ABANDONED_PARTIAL then Inr h1
         else change_set_security_event task
           (if opt_list reason = [] then ''AgentTask failed after modifying the workspace'' else opt_list reason)
           HIGH h1)))"
    by (intro leads_next [OF h] leads_next leads_if hub_leads) simp_all
  then show ?thesis using False unfolding insert_capture_in_def Let_def
    by (auto simp: leads_Inl and_then_def)
qed (simp add: insert_capture_in_def leads_Inl)

lemma capture_leads:
  assumes "publisher publish"
  shows "leads id h (persist_capture publish H session wid i task c lease wl target error status reason now h)"
proof (cases "capture_request_problem status target error")
  case False
  then have s: "status \<in> {ChangeSetStatus.CAPTURED, ChangeSetStatus.ABANDONED_PARTIAL}"
    by (simp add: capture_request_problem_def)
  have p: "leads id h (publish h)"
    using assms same_leads by (cases "publish h") (auto simp: publisher_def leads_Inl)
  have t: "frames id st (and_then (update_task task [TaskStatus.RUNNING]
      (\<lambda>q. q\<lparr>task_status := target, task_finished_at := Some now\<rparr>) st)
      (\<lambda>st. Inr (append_task_state lease w i task a target error st)))" for st w a
    by (intro frames_then update_frames frames_Inr) (simp_all add: frame)
  show ?thesis unfolding persist_capture_def if_not_P [OF False]
    by (intro leads_guard leads_option leads_Inl leads_if leads_next p insert_capture_leads s leads_lift t) simp_all
qed (simp add: persist_capture_def leads_Inl)

lemma run_leads:
  assumes "run_txn H cd (hub_run h) st"
  shows "leads id h (Inr (h\<lparr>hub_run := st\<rparr>))"
proof -
  note t = run_txn_tables [OF assms]
  have "auth_move\<^sup>*\<^sup>* (auth h) (approvals h, change_sets st)"
  proof (cases "change_sets st = change_sets (hub_run h)")
    case False
    then obtain c where "mark_merged c (change_sets (hub_run h)) = Inr (change_sets st)" using t by blast
    then have "change_sets st = move_rows c ChangeSetStatus.APPROVED ChangeSetStatus.MERGED (change_sets (hub_run h))"
      by (auto simp: mark_merged_def move_rows_def Let_def split: if_splits)
    then show ?thesis using auth_move.merge [of "approvals h" "change_sets (hub_run h)" c] by auto
  qed simp
  then show ?thesis using t by (auto simp: leads_def in_step_def other_tables_def)
qed

subsection \<open>The refinement\<close>

theorem hub_step_moves:
  assumes "hub_step H cd h h'" and "auth_inv (auth h)"
  shows "auth_move\<^sup>*\<^sup>* (auth h) (auth h') \<and> (in_step h \<longrightarrow> in_step h')"
  using assms(1)
proof cases
  case (run st)
  then show ?thesis using leadsD [OF run_leads refl assms(2)] by simp
next
  case (capture publish session wid i task c lease wl target error status reason now)
  then show ?thesis using leadsD [OF capture_leads _ assms(2)] by simp
next
  case (guard a b c lease wl reason sev now)
  then show ?thesis using leadsD [OF transition_leads _ assms(2)] by simp
next
  case (prepare stamp isoformat document read ttl ctx lease now result)
  then show ?thesis using prepare_leads assms(2) by blast
next
  case elsewhere
  then show ?thesis using leadsD [OF same_leads refl assms(2)] by simp
next
  case renew
  from leadsD [OF renew_leads this assms(2)] show ?thesis by simp
next
  case decide
  from leadsD [OF decide_leads this assms(2)] show ?thesis by simp
next
  case expire
  from leadsD [OF expire_due_leads this assms(2)] show ?thesis by simp
next
  case invalidate
  from leadsD [OF invalidate_leads(1) this assms(2)] show ?thesis by simp
next
  case cancel
  from leadsD [OF cancel_run_leads this assms(2)] show ?thesis by simp
next
  case ask_privilege
  from leadsD [OF create_request_leads this assms(2)] show ?thesis by simp
next
  case ask_approval
  from leadsD [OF create_both_leads this assms(2)] show ?thesis by simp
next
  case grant
  from leadsD [OF create_grant_leads this assms(2)] show ?thesis by simp
next
  case consume
  from leadsD [OF consume_leads this assms(2)] show ?thesis by simp
next
  case revoke
  from leadsD [OF revoke_leads(1) this assms(2)] show ?thesis by simp
qed

lemma hub_steps_move:
  assumes "(hub_step H cd)\<^sup>*\<^sup>* h h'" and "auth_inv (auth h)"
  shows "auth_move\<^sup>*\<^sup>* (auth h) (auth h') \<and> (in_step h \<longrightarrow> in_step h')"
  using assms
proof (induction rule: rtranclp_induct)
  case (step h1 h2)
  then have m: "auth_move\<^sup>*\<^sup>* (auth h) (auth h1)" "in_step h \<longrightarrow> in_step h1" by simp_all
  then have "auth_move\<^sup>*\<^sup>* (auth h1) (auth h2) \<and> (in_step h1 \<longrightarrow> in_step h2)"
    using hub_step_moves [OF step.hyps(2)] auth_moves_inv [OF m(1) step.prems] by blast
  then show ?case using m by (auto intro: rtranclp_trans)
qed simp

end
