(* ===== verification/Hub_Safety.thy ===== *)
theory Hub_Safety
  imports Hub_Refinement Executor
begin

text \<open>
  What holds of approvals and change sets after any sequence of transactions of the repositories,
  the approval manager and the run repository, from any store that satisfies \<open>auth_inv\<close>; a store
  without approvals and change sets does.
\<close>

abbreviation hub_steps ::
  "(string \<Rightarrow> string) \<Rightarrow> (AgentSpec list \<Rightarrow> string) \<Rightarrow> HubStore \<Rightarrow> HubStore \<Rightarrow> bool" where
  "hub_steps H cd \<equiv> (hub_step H cd)\<^sup>*\<^sup>*"

lemma empty_inv: "approvals h = [] \<Longrightarrow> change_sets (hub_run h) = [] \<Longrightarrow> auth_inv (auth h)"
  by (simp add: auth_inv_def auth_wf_def)

lemma hub_steps_inv: "hub_steps H cd h h' \<Longrightarrow> auth_inv (auth h) \<Longrightarrow> auth_inv (auth h')"
  using hub_steps_move auth_moves_inv by blast

subsection \<open>A sample\<close>

definition sample_approval :: ApprovalRecord where
  "sample_approval = \<lparr>approval = \<lparr>approval_id = ''a'', approval_run_id = ''r'',
       approval_node_run_id = node_run_id sample_claimed, subject_sha256 = ''sha'', evidence_sha256 = ''e'',
       approval_risk = L2, approval_scope = [''doc.md''], ap_status = ApprovalStatus.PENDING,
       approval_version = 1, approval_expires_at = seconds 20, subject = ChangeSetSubject ''c'' ''base'' ''patch''\<rparr>,
     approval_created_at = 5, decided_at = None, decision_actor = None, decision_idempotency_key = None,
     decision_request_sha256 = None\<rparr>"

definition sample_change_set :: ChangeSetRow where
  "sample_change_set = \<lparr>change_set_id = ''c'', change_set_task_id = ''t'', change_set_base = ''base'',
     change_set_patch = ''patch'', change_set_status = ChangeSetStatus.PENDING_APPROVAL\<rparr>"

definition sample_pending :: HubStore where
  "sample_pending = \<lparr>hub_run = sample_running\<lparr>change_sets := [sample_change_set],
       approval_status := statuses_of [sample_approval]\<rparr>,
     approvals = [sample_approval], privilege_requests = [], capability_grants = [],
     active_grant = Map.empty, node_change_set = Map.empty, security_events = []\<rparr>"

definition sample_decided :: "string \<Rightarrow> string \<Rightarrow> ApprovalRecord" where
  "sample_decided sha key = decide_row ApprovalStatus.APPROVED ''u'' key sha 6 sample_approval"

lemma sample_inv: "auth_inv (auth sample_pending)" "in_step sample_pending"
  by (simp_all add: auth_inv_def auth_wf_def sample_pending_def sample_approval_def sample_change_set_def
      row_sound_def identifies_def change_set_key_def in_step_def)

lemma sample_fence:
  "master_valid sample_running (sample_master ''alice'' 0 1) 6"
  "master_valid sample_running (sample_master ''alice'' 0 1) 7"
  by code_simp+

lemma sample_fields [simp]:
  "workflow_run_id (run sample_running) = ''r''" "run_status (run sample_running) = WorkflowRunStatus.RUNNING"
  "cancel_requested_at (run sample_running) = None" "node_runs sample_running = sample_claimed # tl (node_runs sample_store)"
  "nr_status sample_claimed = NodeRunStatus.RUNNING"
  by (simp_all add: sample_running_def sample_store_def sample_claimed_def)

lemma sample_decide:
  "\<exists>h. decide sample_hash 60 ''a'' 1 ''sha'' True ''u'' ''k'' (sample_master ''alice'' 0 1) 6 sample_pending =
     Inr (h, sample_decided (decision_request_sha sample_hash ''a'' 1 ''sha'' ApprovalStatus.APPROVED ''u'' ''k'') ''k'') \<and>
     change_sets (hub_run h) = [sample_change_set\<lparr>change_set_status := ChangeSetStatus.APPROVED\<rparr>] \<and>
     master_valid (hub_run h) (sample_master ''alice'' 0 1) 7"
proof -
  have "master_valid (st\<lparr>change_sets := c\<rparr>) l t = master_valid st l t"
    "master_valid (st\<lparr>approval_status := s\<rparr>) l t = master_valid st l t"
    "master_valid (st\<lparr>run_events := e\<rparr>) l t = master_valid st l t" for st c s e l t
    by (simp_all add: master_valid_def)
  then show ?thesis
    by (simp add: decide_def sample_pending_def fenced_def sample_fence with_approval_def find_approval_def
        sample_approval_def known_run_def ended_or_cancelling_def update_approval_def set_status_def
        decide_subject_def sample_change_set_def put_change_sets_def put_approvals_def lift_run_def
        resume_after_approval_in_def with_node_def find_node_run_def and_then_def append_approval_event_def
        append_event_def emit_def sample_decided_def decide_row_def seconds_def Let_def)
qed

lemma sample_decided_step:
  "\<exists>h. hub_steps sample_hash sample_catalog_digest sample_pending h \<and>
     change_sets (hub_run h) = [sample_change_set\<lparr>change_set_status := ChangeSetStatus.APPROVED\<rparr>]"
  using sample_decide by (blast intro: hub_step.decide)

subsection \<open>What an approved change set stands for\<close>

text \<open>
  C7: a change set is approved or merged only if someone approved exactly it: in every store that
  any sequence of transactions leads to, such a change set has an approval of its identifier, base
  commit and patch, whose status is approved, which named its actor and was decided before it
  expired, and which is not about a risk of level L4.
\<close>

theorem approved_change_sets_were_approved:
  assumes "auth_inv (auth h)" and "hub_steps H cd h h'"
    and "c \<in> set (change_sets (hub_run h'))"
    and "change_set_status c \<in> {ChangeSetStatus.APPROVED, ChangeSetStatus.MERGED}"
  shows "\<exists>r \<in> set (approvals h'). ap_status (approval r) = ApprovalStatus.APPROVED \<and>
    subject (approval r) = ChangeSetSubject (change_set_id c) (change_set_base c) (change_set_patch c) \<and>
    approval_risk (approval r) \<noteq> L4 \<and> approval_version (approval r) = 2 \<and>
    (\<exists>t actor. decided_at r = Some t \<and> t < approval_expires_at (approval r) \<and> decision_actor r = Some actor)"
proof -
  have inv: "auth_inv (auth h')" using hub_steps_inv assms(1,2) by blast
  then have "approval_for (approvals h') c \<noteq> None"
    using assms(3,4) unfolding auth_inv_def list_all_iff by fastforce
  then obtain r where r: "r \<in> set (approvals h')" "ap_status (approval r) = ApprovalStatus.APPROVED"
    "subject (approval r) = ChangeSetSubject (change_set_id c) (change_set_base c) (change_set_patch c)"
    unfolding approval_for_iff by blast
  then have "row_sound r" using inv unfolding auth_inv_def list_all_iff by fastforce
  then show ?thesis using r by (intro bexI [of _ r]) (auto simp: row_sound_def)
qed

lemma approved_change_sets_were_approved_witness:
  "\<exists>h' c r. hub_steps sample_hash sample_catalog_digest sample_pending h' \<and> c \<in> set (change_sets (hub_run h')) \<and>
     change_set_status c = ChangeSetStatus.APPROVED \<and> r \<in> set (approvals h') \<and>
     subject (approval r) = ChangeSetSubject ''c'' ''base'' ''patch'' \<and> decision_actor r \<noteq> None"
proof -
  let ?c = "sample_change_set\<lparr>change_set_status := ChangeSetStatus.APPROVED\<rparr>"
  obtain h' where h: "hub_steps sample_hash sample_catalog_digest sample_pending h'" "change_sets (hub_run h') = [?c]"
    using sample_decided_step by blast
  obtain r where "r \<in> set (approvals h')"
    "subject (approval r) = ChangeSetSubject (change_set_id ?c) (change_set_base ?c) (change_set_patch ?c)"
    "decision_actor r \<noteq> None"
    using approved_change_sets_were_approved [OF sample_inv(1) h(1), of ?c] h(2) by auto
  then show ?thesis using h by (intro exI [of _ h'] exI [of _ ?c] exI [of _ r]) (simp add: sample_change_set_def)
qed

subsection \<open>Decisions\<close>

text \<open>
  C8: decisions are final. Whatever happens afterwards, an approval that is no longer pending keeps
  its status, version, actor, time and key, and so does everything an approval is about; only a
  request hash that was missing is added. No approval ever disappears.
\<close>

theorem decisions_are_final:
  assumes "auth_inv (auth h)" and "hub_steps H cd h h'" and "r \<in> set (approvals h)"
  shows "\<exists>r' \<in> set (approvals h'). same_identity r r' \<and>
    approval_version (approval r) \<le> approval_version (approval r') \<and> (is_pending r' \<longrightarrow> r' = r) \<and>
    (\<not> is_pending r \<longrightarrow> r' = r \<or> decision_request_sha256 r = None \<and>
       (\<exists>sha. r' = r\<lparr>decision_request_sha256 := sha\<rparr>))"
proof -
  have wf: "auth_wf (auth h)" using assms(1) by (simp add: auth_inv_def)
  have m: "auth_move\<^sup>*\<^sup>* (auth h) (auth h')" using hub_steps_move [OF assms(2,1)] by simp
  obtain r' where r': "r' \<in> set (approvals h')" "succeeds r r'"
    using auth_moves_succeed [OF m wf] assms(3) by auto
  have "r' = r\<lparr>decision_request_sha256 := decision_request_sha256 r'\<rparr>"
    if "r'\<lparr>decision_request_sha256 := decision_request_sha256 r\<rparr> = r"
    by (subst that [symmetric]) simp
  then show ?thesis using r' by (intro bexI [of _ r']) (auto simp: succeeds_def)
qed

lemma decisions_are_final_witness:
  "\<exists>h' r'. hub_steps sample_hash sample_catalog_digest sample_pending h' \<and> r' \<in> set (approvals h') \<and>
     same_identity sample_approval r' \<and> change_set_status (hd (change_sets (hub_run h'))) = ChangeSetStatus.APPROVED"
proof -
  obtain h' where h: "hub_steps sample_hash sample_catalog_digest sample_pending h'"
    "change_sets (hub_run h') = [sample_change_set\<lparr>change_set_status := ChangeSetStatus.APPROVED\<rparr>]"
    using sample_decided_step by blast
  moreover have "sample_approval \<in> set (approvals sample_pending)" by (simp add: sample_pending_def)
  ultimately show ?thesis
    using decisions_are_final [OF sample_inv(1) h(1), of sample_approval] by (metis list.sel(1) ChangeSetRow.select_convs(5)
      ChangeSetRow.update_convs(5) ChangeSetRow.surjective)
qed

subsection \<open>Repeating a decision\<close>

definition decided_by :: "string \<Rightarrow> string \<Rightarrow> ApprovalStatus \<Rightarrow> ApprovalRecord \<Rightarrow> bool" where
  "decided_by key sha target r \<longleftrightarrow> ap_status (approval r) = target \<and> decision_idempotency_key r = Some key \<and>
     decision_request_sha256 r = Some sha"

lemma found_row:
  assumes "auth_inv (auth h)" and "r \<in> set (approvals h)"
  shows "find_approval h (ap_id r) = Some r"
proof -
  obtain x where x: "find_approval h (ap_id r) = Some x"
    using assms(2) by (cases "find_approval h (ap_id r)") (auto simp: find_approval_def find_None_iff)
  then have "x \<in> set (approvals h)" "ap_id x = ap_id r" by (auto simp: find_approval_def dest!: found)
  then have "x = r" using same_id_row [OF _ assms(2)] assms(1) by (simp add: auth_inv_def auth_wf_def)
  then show ?thesis using x by simp
qed

lemma decided_stays:
  assumes "auth_inv (auth h)" and "auth_move\<^sup>*\<^sup>* (auth h) (auth h')"
    and "r \<in> set (approvals h)" and "decided_by key sha target r" and "target \<noteq> ApprovalStatus.PENDING"
  shows "find_approval h' (ap_id r) = Some r"
proof -
  obtain r' where r': "r' \<in> set (approvals h')" "succeeds r r'"
    using auth_moves_succeed [OF assms(2)] assms(1,3) by (auto simp: auth_inv_def)
  then have "r' = r" using assms(4,5) by (auto simp: succeeds_def decided_by_def)
  then show ?thesis using found_row [OF auth_moves_inv [OF assms(2,1)]] r'(1) by simp
qed

lemma find_on_row:
  assumes "find_approval h i = Some r" and "\<And>x. ap_id (f x) = ap_id x"
  shows "find_approval (put_approvals (on_row i f (approvals h)) h) i = Some (f r)"
proof -
  have "find (\<lambda>r. ap_id r = i) (on_row i f as) = map_option f (find (\<lambda>r. ap_id r = i) as)" for as
    by (induction as) (auto simp: on_row_def assms(2))
  then show ?thesis using assms(1) by (simp add: find_approval_def)
qed

lemma replay_result:
  assumes "replay_decision H version confirm target actor key r h = Inr (h', x)" and "auth_inv (auth h)"
    and "find_approval h i = Some r" and "nonempty (decision_idempotency_key r) = Some key"
  shows "find_approval h' i = Some x \<and>
    decided_by key (decision_request_sha H i version confirm target actor key) target x"
proof -
  let ?sha = "decision_request_sha H i version confirm target actor key"
  have i: "ap_id r = i" using assms(3) by (auto simp: find_approval_def dest!: found)
  have key: "decision_idempotency_key r = Some key" using assms(4) by (auto simp: nonempty_def split: if_splits)
  show ?thesis
  proof (cases "decision_request_sha256 r")
    case None
    let ?f = "\<lambda>x :: ApprovalRecord. x\<lparr>decision_request_sha256 := Some ?sha\<rparr>"
    obtain hit h1 where u: "update_approval i hit ?f IdempotencyConflict h = Inr h1"
      and t: "ap_status (approval r) = target" and w: "with_approval h1 i (\<lambda>x. Inr (h1, x)) = Inr (h', x)"
      using assms(1) None i by (auto simp: replay_decision_def Let_def and_then_Inr split: if_splits)
    have "h1 = put_approvals (on_row i ?f (approvals h)) h" using update_form [OF u assms(2)] by blast
    then have "find_approval h1 i = Some (?f r)" using find_on_row [OF assms(3), of ?f] by simp
    then show ?thesis using w t key by (auto simp: with_approval_def decided_by_def)
  next
    case (Some sha)
    then show ?thesis using assms(1,3) i key
      by (auto simp: replay_decision_def Let_def decided_by_def split: if_splits)
  qed
qed

lemma decided_result:
  assumes inv: "auth_inv (auth h)"
    and "decide H ttl i version confirm approved actor key lease now h = Inr (h', x)"
  shows "find_approval h' i = Some x \<and>
    decided_by key (decision_request_sha H i version confirm
      (if approved then ApprovalStatus.APPROVED else ApprovalStatus.REJECTED) actor key)
      (if approved then ApprovalStatus.APPROVED else ApprovalStatus.REJECTED) x"
proof -
  let ?t = "if approved then ApprovalStatus.APPROVED else ApprovalStatus.REJECTED"
  let ?sha = "decision_request_sha H i version confirm ?t actor key"
  let ?hit = "\<lambda>x. is_pending x \<and> approval_version (approval x) = version \<and> subject_sha256 (approval x) = confirm"
  obtain r where f: "find_approval h i = Some r"
    using assms(2) by (auto simp: decide_def fenced_def with_approval_def split: if_splits option.splits)
  show ?thesis
  proof (cases "\<not> is_pending r \<and> nonempty (decision_idempotency_key r) = Some key")
    case True
    then have "replay_decision H version confirm ?t actor key r h = Inr (h', x)"
      using assms(2) f by (auto simp: decide_def fenced_def with_approval_def Let_def split: if_splits)
    then show ?thesis using replay_result inv f True by blast
  next
    case False
    then obtain h1 h2 where p: "is_pending r" "now < approval_expires_at (approval r)"
      and u: "update_approval i ?hit (decide_row ?t actor key ?sha now) ConcurrencyConflict h = Inr h1"
      and d: "decide_subject H ttl approved r lease now h1 = Inr h2"
      and w: "with_approval h2 i (\<lambda>x.
               and_then (append_approval_event lease (approval x) (Some ApprovalStatus.PENDING)
                 (Some (''decision:'' @ ApprovalStatus_value ?t)) h2) (\<lambda>h3. Inr (h3, x))) = Inr (h', x)"
      using assms(2) f unfolding decide_def Let_def decision_row
      by (auto simp: fenced_def with_approval_def [of h] known_run_def and_then_Inr split: if_splits)
    have i: "ap_id r = i" "r \<in> set (approvals h)" using f by (auto simp: find_approval_def dest!: found)
    let ?d = "decide_row ?t actor key ?sha now r"
    have h1: "h1 = put_approvals (on_row i (decide_row ?t actor key ?sha now) (approvals h)) h"
      using update_form [OF u inv] by blast
    then have d1: "find_approval h1 i = Some ?d" using find_on_row [OF f] by simp
    have sound: "decided_by key ?sha ?t ?d" by (simp add: decided_by_def decide_row_def)
    have d2: "find_approval h2 i = Some ?d"
    proof (cases "subject (approval r)")
      case (ChangeSetSubject c b p)
      then show ?thesis using change_set_decision(1) [OF _ d] d1 by (simp add: find_approval_def)
    next
      case (PrivilegeSubject rid)
      have "auth_move (auth h) (auth h1)"
        using auth_move.grant [OF i(2) p PrivilegeSubject] auth_move.reject [OF i(2) p] i(1) by (simp add: h1)
      then have inv1: "auth_inv (auth h1)" using inv auth_move_inv by blast
      moreover have "auth_move\<^sup>*\<^sup>* (auth h1) (auth h2)"
        using leadsD [OF privilege_decision_leads [OF PrivilegeSubject] d inv1] by simp
      moreover have "?d \<in> set (approvals h1)" using d1 by (auto simp: find_approval_def dest!: found)
      ultimately show ?thesis using decided_stays [of h1 h2 ?d key ?sha ?t] sound i(1) by simp
    qed
    have "x = ?d" using w d2 by (auto simp: with_approval_def and_then_Inr)
    moreover have "approvals h' = approvals h2"
      using w by (auto simp: with_approval_def and_then_Inr append_approval_event_def dest!: append_event_same
          split: option.splits)
    ultimately show ?thesis using d2 sound by (simp add: find_approval_def)
  qed
qed

text \<open>
  C28: a decision can be repeated. A request that decided an approval, sent again under the same key,
  by whichever process holds the lease then and after any other transactions, returns the row that
  was decided and changes nothing; sent with the other decision it is refused.
\<close>

theorem repeated_decision_is_replayed:
  assumes "auth_inv (auth h)"
    and "decide H ttl i version confirm approved actor key lease now h = Inr (h1, r)"
    and "hub_steps H cd h1 h2" and "master_valid (hub_run h2) lease2 now2"
  shows "decide H ttl2 i version confirm approved actor key lease2 now2 h2 = Inr (h2, r) \<and>
    decide H ttl2 i version confirm (\<not> approved) actor key lease2 now2 h2 = Inl IdempotencyConflict"
proof -
  let ?t = "\<lambda>a. if a then ApprovalStatus.APPROVED else ApprovalStatus.REJECTED"
  note d = decided_result [OF assms(1,2)]
  have inv: "auth_inv (auth h1)" using hub_steps_inv [OF _ assms(1)] hub_step.decide [OF assms(2)] by blast
  have r: "r \<in> set (approvals h1)" "ap_id r = i" using d by (auto simp: find_approval_def dest!: found)
  have "find_approval h2 i = Some r"
    using decided_stays [OF inv _ r(1), of h2 key _ "?t approved"] hub_steps_move [OF assms(3) inv] d r(2) by auto
  moreover have "1 \<le> version" "key \<noteq> []" using assms(2) by (auto simp: decide_def split: if_splits)
  moreover have "\<not> is_pending r" "nonempty (decision_idempotency_key r) = Some key"
    using d \<open>key \<noteq> []\<close> by (auto simp: decided_by_def nonempty_def split: if_splits)
  moreover have "replay_decision H version confirm (?t approved) actor key r h2 = Inr (h2, r)"
    "replay_decision H version confirm (?t (\<not> approved)) actor key r h2 = Inl IdempotencyConflict"
    using d r(2) by (auto simp: replay_decision_def decided_by_def Let_def)
  ultimately show ?thesis
    using assms(4) by (simp add: decide_def fenced_def with_approval_def Let_def)
qed

lemma repeated_decision_is_replayed_witness:
  "\<exists>h r. decide sample_hash 60 ''a'' 1 ''sha'' True ''u'' ''k'' (sample_master ''alice'' 0 1) 6 sample_pending = Inr (h, r) \<and>
     decide sample_hash 60 ''a'' 1 ''sha'' True ''u'' ''k'' (sample_master ''alice'' 0 1) 7 h = Inr (h, r) \<and>
     decide sample_hash 60 ''a'' 1 ''sha'' False ''u'' ''k'' (sample_master ''alice'' 0 1) 7 h = Inl IdempotencyConflict"
proof -
  obtain h r where d: "decide sample_hash 60 ''a'' 1 ''sha'' True ''u'' ''k'' (sample_master ''alice'' 0 1) 6 sample_pending =
      Inr (h, r)" and v: "master_valid (hub_run h) (sample_master ''alice'' 0 1) 7"
    using sample_decide by blast
  show ?thesis using repeated_decision_is_replayed [OF sample_inv(1) d rtranclp.rtrancl_refl v, of 60] d
    by auto
qed

subsection \<open>The state machine of a change set\<close>

text \<open>
  C27: change sets follow the table of transitions. Whatever sequence of transactions runs, in any
  repository, a change set keeps its identifier, base, patch and task, its status is one the table
  leads to from the old one, and a status the table has no way out of is kept.
\<close>

theorem change_sets_follow_the_table:
  assumes "auth_inv (auth h)" and "hub_steps H cd h h'" and "c \<in> set (change_sets (hub_run h))"
  shows "\<exists>c' \<in> set (change_sets (hub_run h')). change_set_key c' = change_set_key c \<and>
    change_set_task_id c' = change_set_task_id c \<and> reaches (change_set_status c) (change_set_status c') \<and>
    (change_set_status c \<in> set TERMINAL \<longrightarrow> change_set_status c' = change_set_status c)"
proof -
  have m: "auth_move\<^sup>*\<^sup>* (auth h) (auth h')" using hub_steps_move [OF assms(2,1)] by simp
  obtain c' where c': "c' \<in> set (change_sets (hub_run h'))" "change_set_key c' = change_set_key c"
    "change_set_task_id c' = change_set_task_id c" "reaches (change_set_status c) (change_set_status c')"
    using auth_moves_follow [OF m, of c] assms(3) by auto
  have "allowed_targets s = []" if "s \<in> set TERMINAL" for s
    using that unfolding TERMINAL_def set_filter by blast
  then have "change_set_status c' = change_set_status c" if "change_set_status c \<in> set TERMINAL"
    using table_end_stays [OF c'(4)] that by blast
  then show ?thesis using c' by blast
qed

lemma change_sets_follow_the_table_witness:
  "\<exists>h' c'. hub_steps sample_hash sample_catalog_digest sample_pending h' \<and> c' \<in> set (change_sets (hub_run h')) \<and>
     change_set_id c' = ''c'' \<and> change_set_status c' = ChangeSetStatus.APPROVED \<and>
     reaches ChangeSetStatus.PENDING_APPROVAL (change_set_status c')"
proof -
  obtain h' where h: "hub_steps sample_hash sample_catalog_digest sample_pending h'"
    "change_sets (hub_run h') = [sample_change_set\<lparr>change_set_status := ChangeSetStatus.APPROVED\<rparr>]"
    using sample_decided_step by blast
  have c: "sample_change_set \<in> set (change_sets (hub_run sample_pending))" by (simp add: sample_pending_def)
  show ?thesis
    using change_sets_follow_the_table [OF sample_inv(1) h(1) c] h by (auto simp: sample_change_set_def)
qed

end
