(* ===== verification/Grant_Safety.thy ===== *)
theory Grant_Safety
  imports Grant_Machine Hub_Safety
begin

text \<open>
  What holds of capability grants after any sequence of transactions.
\<close>

lemma consume_needs:
  assumes "consume_grant gid tid act resource lease wl now h = Inr (h', e)"
  shows "\<exists>x \<in> set (capability_grants h). grant_id (grant x) = gid \<and> revocable (grant x) \<and>
      now < grant_expires_at (grant x)"
proof -
  obtain token h1 where "mark_consumed gid tid act resource token now h = Inr h1"
    using assms
    by (auto simp: consume_grant_def fenced_def with_lineage_def with_target_def Let_def and_then_Inr
        split: if_splits option.splits)
  then have "length (filter (\<lambda>e. consumable (grant e) gid tid act resource now) (capability_grants h)) = 1"
    by (auto simp: mark_consumed_def Let_def split: if_splits)
  then obtain x where "filter (\<lambda>e. consumable (grant e) gid tid act resource now) (capability_grants h) = [x]"
    by (auto simp: length_Suc_conv)
  then have "x \<in> set (filter (\<lambda>e. consumable (grant e) gid tid act resource now) (capability_grants h))" by simp
  then show ?thesis by (auto simp: consumable_def revocable_def)
qed

lemma consume_spent:
  assumes "consume_grant gid tid act resource lease wl now h = Inr (h', e)"
  shows "\<exists>x \<in> set (capability_grants h'). grant_id (grant x) = gid \<and> \<not> revocable (grant x)"
proof -
  obtain q i token e' where b: "and_then (mark_consumed gid tid act resource token now h) (\<lambda>h1.
      and_then (consume_request q h1) (\<lambda>h2.
      and_then (append_grant_event lease i (grant e') ''consumed'' (unbind_active gid tid h2)) (\<lambda>h3. Inr (h3, e')))) =
    Inr (h', e)"
    using assms unfolding consume_grant_def fenced_def with_lineage_def with_target_def Let_def
    by (auto split: if_splits option.splits)
  then obtain h1 where m: "mark_consumed gid tid act resource token now h = Inr h1"
    and k: "and_then (consume_request q h1) (\<lambda>h2.
      and_then (append_grant_event lease i (grant e') ''consumed'' (unbind_active gid tid h2)) (\<lambda>h3. Inr (h3, e'))) =
    Inr (h', e)" by (auto simp: and_then_Inr [of "mark_consumed gid tid act resource token now h"])
  have "holds spends fst h1 (and_then (consume_request q h1) (\<lambda>h2.
      and_then (append_grant_event lease i (grant e') ''consumed'' (unbind_active gid tid h2)) (\<lambda>h3. Inr (h3, e'))))"
    by (intro spend_logic.rules follow) simp_all
  from holdsD [OF this k] have s: "list_all2 spent_from (capability_grants h1) (capability_grants h')"
    by (simp add: spends_def)
  let ?hit = "\<lambda>e. consumable (grant e) gid tid act resource now"
  have "length (filter ?hit (capability_grants h)) = 1"
    and h1: "capability_grants h1 = map (\<lambda>e. if ?hit e then consume_row gid token now e else e) (capability_grants h)"
    using m by (auto simp: mark_consumed_def Let_def split: if_splits)
  then obtain y where "filter ?hit (capability_grants h) = [y]" by (auto simp: length_Suc_conv)
  then have "y \<in> set (filter ?hit (capability_grants h))" by simp
  then have y: "y \<in> set (capability_grants h)" "?hit y" by simp_all
  then have "consume_row gid token now y \<in> set (capability_grants h1)" unfolding h1 set_map
    by (intro image_eqI [of _ _ y]) simp_all
  then obtain x where "x \<in> set (capability_grants h')" "spent_from (consume_row gid token now y) x"
    using s unfolding list_all2_conv_all_nth by (metis in_set_conv_nth)
  moreover from this have "x = consume_row gid token now y"
    using spent_rows(7) unfolding spent_from_def by blast
  ultimately show ?thesis using y(2) by (intro bexI [of _ x]) (simp_all add: consumable_def)
qed

subsection \<open>A sample\<close>

definition sample_task_row :: "string \<Rightarrow> TaskStatus \<Rightarrow> TaskRow" where
  "sample_task_row i s = \<lparr>task_id = i, task_node_run_id = node_run_id sample_claimed, task_agent_id = ''a'',
     base_commit_of = replicate 40 CHR ''0'', runtime_policy_artifact = None, task_status = s,
     task_finished_at = None\<rparr>"

definition sample_agent_lock :: WorkspaceLease where
  "sample_agent_lock = \<lparr>resource_key = ''session:s:integration'', owner_kind = ''agent_task'',
     owner_operation_id = ''t2'', owner_process_id = 1, ws_fencing_token = 2, acquired_at = 0,
     ws_heartbeat_at = 0, ws_expires_at = seconds 30\<rparr>"

definition sample_grant :: CapabilityGrant where
  "sample_grant = \<lparr>grant_id = ''g'', grant_request_id = ''q'', grant_target_task_id = ''t2'',
     grant_action = EDIT_PROJECT_CONFIG, grant_resource = ''pyproject.toml'', grant_expires_at = seconds 20,
     consumed_at = None, consumed_fencing_token = None, revoked_at = None, revocation_reason = None\<rparr>"

definition sample_granted :: HubStore where
  \<comment> \<open>a request was approved and its retry is running under the workspace lease\<close>
  "sample_granted =
     \<lparr>hub_run = sample_running\<lparr>tasks := [sample_task_row ''t1'' TaskStatus.SUCCEEDED,
          sample_task_row ''t2'' TaskStatus.RUNNING],
        file_locks := [''session:s:integration'' \<mapsto> (sample_agent_lock, None)]\<rparr>,
      approvals = [\<lparr>approval = \<lparr>approval_id = ''p'', approval_run_id = ''r'',
          approval_node_run_id = node_run_id sample_claimed, subject_sha256 = ''sha'', evidence_sha256 = ''e'',
          approval_risk = L2, approval_scope = [''pyproject.toml''], ap_status = ApprovalStatus.APPROVED,
          approval_version = 2, approval_expires_at = seconds 20, subject = PrivilegeSubject ''q''\<rparr>,
        approval_created_at = 1, decided_at = Some 2, decision_actor = Some ''u'',
        decision_idempotency_key = Some ''k'', decision_request_sha256 = Some ''d''\<rparr>],
      privilege_requests = [\<lparr>request = \<lparr>request_id = ''q'', request_session_id = ''s'', request_task_id = ''t1'',
          request_node_run_id = node_run_id sample_claimed, requested_capability = MODIFY_CONFIG,
          requested_action = EDIT_PROJECT_CONFIG, requested_resource = ''pyproject.toml'', request_risk = L2,
          request_status = PrivilegeRequestStatus.APPROVED\<rparr>, request_seal = JNull, request_created_at = 1\<rparr>],
      capability_grants = [\<lparr>grant = sample_grant, grant_seal = JNull\<rparr>],
      active_grant = [''t2'' \<mapsto> ''g''], node_change_set = Map.empty, security_events = []\<rparr>"

lemma sample_consume:
  "\<exists>h e. consume_grant ''g'' ''t2'' EDIT_PROJECT_CONFIG ''pyproject.toml'' (sample_master ''alice'' 0 1)
     (Some sample_agent_lock) 6 sample_granted = Inr (h, e)"
proof -
  have "master_valid (st\<lparr>tasks := c\<rparr>) l t = master_valid st l t"
    "master_valid (st\<lparr>file_locks := s\<rparr>) l t = master_valid st l t" for st c s l t
    by (simp_all add: master_valid_def)
  moreover have "run_session_id (run sample_running) = ''s''" by (simp add: sample_running_def sample_store_def)
  ultimately show ?thesis
    by (simp add: consume_grant_def sample_granted_def sample_fence fenced_def with_lineage_def
        find_request_def with_target_def find_node_run_def sample_task_row_def sample_grant_def
        grant_lease_problem_def integration_resource_def holds_lock_def same_owner_def sample_agent_lock_def
        seconds_def mark_consumed_def consumable_def consume_request_def and_then_def append_grant_event_def
        append_event_def known_run_def Let_def opt_str_def)
qed

subsection \<open>Grants are spent once\<close>

text \<open>
  The transactions of a grant taken by themselves use it once. From a store of distinct grants, a
  grant that \<open>consume_grant\<close> has consumed was valid at that time, keeps its row whatever
  transactions run, and is refused by every later call, whatever its arguments. As the next section
  shows, the program never reaches such a store.
\<close>

lemma grants_are_spent_once:
  assumes "grants_ok (capability_grants h)"
    and "consume_grant gid tid act resource lease wl now h = Inr (h1, e)" and "hub_steps H cd h1 h2"
  shows "grants_ok (capability_grants h2) \<and>
    (\<exists>x \<in> set (capability_grants h). grant_id (grant x) = gid \<and> revocable (grant x) \<and>
       now < grant_expires_at (grant x)) \<and>
    (\<exists>x \<in> set (capability_grants h1). grant_id (grant x) = gid \<and> \<not> revocable (grant x) \<and>
       x \<in> set (capability_grants h2)) \<and>
    (\<forall>tid' act' resource' lease' wl' now'. isl (consume_grant gid tid' act' resource' lease' wl' now' h2))"
proof -
  have s1: "spends h h1" using holdsD [OF consume_spends assms(2)] by simp
  obtain x where x: "x \<in> set (capability_grants h)" "grant_id (grant x) = gid" "revocable (grant x)"
    "now < grant_expires_at (grant x)"
    using consume_needs [OF assms(2)] by blast
  obtain x1 where x1: "x1 \<in> set (capability_grants h1)" "grant_id (grant x1) = gid" "\<not> revocable (grant x1)"
    using consume_spent [OF assms(2)] by blast
  have ok1: "grants_ok (capability_grants h1)" using s1 assms(1) spent_ok unfolding spends_def by blast
  have ok2: "grants_ok (capability_grants h2)" by (rule hub_steps_grants(1) [OF assms(3) ok1])
  have x2: "x1 \<in> set (capability_grants h2)"
    using hub_steps_grants(2) [OF assms(3) ok1 x1(1)] x1(3) by (auto simp: spent_from_def)
  have "isl (consume_grant gid tid' act' resource' lease' wl' now' h2)" for tid' act' resource' lease' wl' now'
  proof (rule ccontr)
    assume "\<not> isl (consume_grant gid tid' act' resource' lease' wl' now' h2)"
    then obtain h3 e3 where "consume_grant gid tid' act' resource' lease' wl' now' h2 = Inr (h3, e3)"
      by (metis isl_def surj_pair sum.exhaust)
    then obtain y where y: "y \<in> set (capability_grants h2)" "grant_id (grant y) = gid" "revocable (grant y)"
      using consume_needs by blast
    then have "y = x1"
      using same_rows [of "\<lambda>e. grant_id (grant e)"] ok2 x2 x1(2) unfolding grants_ok_def by metis
    then show False using y(3) x1(3) by simp
  qed
  then show ?thesis using x x1 x2 ok2 by blast
qed

lemma grants_are_spent_once_witness:
  "\<exists>h e. consume_grant ''g'' ''t2'' EDIT_PROJECT_CONFIG ''pyproject.toml'' (sample_master ''alice'' 0 1)
     (Some sample_agent_lock) 6 sample_granted = Inr (h, e) \<and>
     isl (consume_grant ''g'' ''t2'' EDIT_PROJECT_CONFIG ''pyproject.toml'' (sample_master ''alice'' 0 1)
       (Some sample_agent_lock) 7 h)"
proof -
  obtain h e where c: "consume_grant ''g'' ''t2'' EDIT_PROJECT_CONFIG ''pyproject.toml'' (sample_master ''alice'' 0 1)
     (Some sample_agent_lock) 6 sample_granted = Inr (h, e)"
    using sample_consume by blast
  have "grants_ok (capability_grants sample_granted)"
    by (simp add: grants_ok_def sample_granted_def sample_grant_def grant_invariants_def)
  then show ?thesis using grants_are_spent_once [OF _ c rtranclp.rtrancl_refl] c by blast
qed

subsection \<open>No capability is granted\<close>

text \<open>
  C21: as the code stands, no capability is ever granted. The query that asks for an approval of a
  privilege request has an ambiguous column, so no approval of a request can be created: from a
  store without approvals, change sets and grants, no sequence of transactions of the hub creates a
  grant or an approval of anything but a change set, and whatever it is called with,
  \<open>consume_grant\<close> refuses.
\<close>

theorem no_capability_is_granted:
  assumes "approvals h = []" and "change_sets (hub_run h) = []" and "capability_grants h = []"
    and "hub_steps H cd h h'"
  shows "capability_grants h' = [] \<and> list_all for_change_set (approvals h') \<and>
    (\<forall>gid tid act resource lease wl now. isl (consume_grant gid tid act resource lease wl now h'))"
proof -
  have inv: "auth_inv (auth h)" by (rule empty_inv [OF assms(1,2)])
  have kind: "list_all for_change_set (approvals g)" if "hub_steps H cd h g" for g
    using auth_moves_kind [of "auth h" "auth g"] hub_steps_move [OF that inv] assms(1) by simp
  have none: "capability_grants h' = []" using assms(4)
  proof (induction rule: rtranclp_induct)
    case (step h1 h2)
    have "grants_change h1 h2" using hub_step_grants [OF step.hyps(2)] .
    then show ?case using kind [OF step.hyps(1)] step.IH by (auto simp: grants_change_def spends_def)
  qed (rule assms(3))
  have "isl (consume_grant gid tid act resource lease wl now h')" for gid tid act resource lease wl now
    using consume_needs [of gid tid act resource lease wl now h'] none
    by (cases "consume_grant gid tid act resource lease wl now h'") auto
  then show ?thesis using none kind [OF assms(4)] by blast
qed

definition sample_request :: PrivilegeRequest where
  "sample_request = \<lparr>request_id = ''q'', request_session_id = ''s'', request_task_id = ''t2'',
     request_node_run_id = node_run_id sample_claimed, requested_capability = MODIFY_CONFIG,
     requested_action = EDIT_PROJECT_CONFIG, requested_resource = ''pyproject.toml'', request_risk = L2,
     request_status = PrivilegeRequestStatus.PENDING\<rparr>"

definition sample_unasked :: HubStore where
  "sample_unasked = sample_granted\<lparr>approvals := [], privilege_requests := [], capability_grants := [],
     active_grant := Map.empty\<rparr>"

lemma sample_ask:
  "\<exists>h. create_privilege_request sample_request (JObj [(''schema'', JStr SEAL_SCHEMA)]) (sample_master ''alice'' 0 1)
     sample_agent_lock 6 sample_unasked = Inr (h, sample_request) \<and> length (privilege_requests h) = 1"
proof -
  have "master_valid (st\<lparr>tasks := c\<rparr>) l t = master_valid st l t"
    "master_valid (st\<lparr>file_locks := s\<rparr>) l t = master_valid st l t" for st c s l t
    by (simp_all add: master_valid_def)
  moreover have "\<not> 4096 < length (dumps (JObj [(''schema'', JStr SEAL_SCHEMA)]))"
    by code_simp
  ultimately show ?thesis
    by (simp add: create_privilege_request_def sample_unasked_def sample_granted_def sample_fence fenced_def
        fenced_workspace_def workspace_binding_ok_def sample_request_def sample_agent_lock_def workspace_valid_def
        workspace_assert_valid_def holds_lock_def same_owner_def seconds_def find_request_def insert_request_def
        sample_task_row_def and_then_def append_privilege_request_event_def append_event_def known_run_def)
qed

lemma no_capability_is_granted_witness:
  "\<exists>h'. hub_steps sample_hash sample_catalog_digest sample_unasked h' \<and> length (privilege_requests h') = 1 \<and>
     capability_grants h' = [] \<and>
     isl (consume_grant ''g'' ''t2'' EDIT_PROJECT_CONFIG ''pyproject.toml'' (sample_master ''alice'' 0 1)
       (Some sample_agent_lock) 6 h')"
proof -
  obtain h where a: "create_privilege_request sample_request (JObj [(''schema'', JStr SEAL_SCHEMA)])
      (sample_master ''alice'' 0 1) sample_agent_lock 6 sample_unasked = Inr (h, sample_request)"
    and l: "length (privilege_requests h) = 1"
    using sample_ask by blast
  have s: "hub_steps sample_hash sample_catalog_digest sample_unasked h"
    using hub_step.ask_privilege [OF a] by blast
  have "approvals sample_unasked = []" "change_sets (hub_run sample_unasked) = []"
    "capability_grants sample_unasked = []"
    by (simp_all add: sample_unasked_def sample_granted_def sample_running_def sample_store_def)
  then show ?thesis using no_capability_is_granted [OF _ _ _ s] s l by blast
qed

end
