(* ===== verification/Hub_Frames.thy ===== *)
theory Hub_Frames
  imports Hub_Steps
begin

text \<open>
  What the cleanup of a cancellation leaves alone: invalidating approvals and revoking grants does
  not touch the run, its node runs, its tasks and the lease; revoking grants does not touch approvals
  and change sets.
\<close>

definition run_tables ::
  "HubStore \<Rightarrow> WorkflowRun \<times> NodeRun list \<times> TaskRow list \<times> master_table \<times> string list" where
  "run_tables h = (run (hub_run h), node_runs (hub_run h), tasks (hub_run h), master_leases (hub_run h),
     map (\<lambda>q. request_id (request q)) (privilege_requests h))"

definition keeps_run :: "HubStore \<Rightarrow> HubStore \<Rightarrow> bool" where
  "keeps_run h h' \<longleftrightarrow> run_tables h' = run_tables h"

interpretation run_logic: statements keeps_run run_tables
  by unfold_locales (simp_all add: keeps_run_def run_tables_def)

lemma run_tables_simps [simp]:
  "run_tables (put_approvals rows h) = run_tables h"
  "run_tables (put_change_sets f h) = run_tables h"
  "run_tables (put_requests hit s h) = run_tables h"
  "run_tables (unbind_active gid tid h) = run_tables h"
  "run_tables (h\<lparr>capability_grants := gs\<rparr>) = run_tables h"
  by (simp_all add: run_tables_def put_approvals_def put_change_sets_def put_requests_def unbind_active_def comp_def)

lemma invalidate_each_run: "holds keeps_run id h (invalidate_each statuses reason rs lease now h)"
proof (induction rs arbitrary: h)
  case (Cons r rs)
  have s: "holds keeps_run id g (invalidate_subject statuses reason r lease g)" for g
    unfolding invalidate_subject_def
    by (cases "subject (approval r)")
      (auto intro!: holds_option holds_if run_logic.events run_logic.unchanged)
  have u: "holds keeps_run id g (update_approval i hit f err g)" for g i hit f err
    unfolding update_approval_def Let_def by (intro holds_if holds_Inl run_logic.unchanged) simp
  show ?case unfolding invalidate_each.simps
    by (intro run_logic.nxt u s holds_guard run_logic.events Cons.IH refl)
qed (simp add: run_logic.here)

lemma revoke_each_run: "holds keeps_run id h (revoke_each strict reason lease now es h)"
proof (induction es arbitrary: h)
  case (Cons e es)
  have "holds keeps_run id g (revoke_one strict reason lease now e g)" for g
    unfolding revoke_one_def Let_def
    by (intro holds_if holds_Inl holds_option run_logic.nxt run_logic.events run_logic.unchanged) simp_all
  then show ?case unfolding revoke_each.simps by (intro run_logic.nxt Cons.IH)
qed (simp add: run_logic.here)

definition keeps_auth :: "HubStore \<Rightarrow> HubStore \<Rightarrow> bool" where
  "keeps_auth h h' \<longleftrightarrow> auth h' = auth h"

interpretation keep_logic: statements keeps_auth auth
  by unfold_locales (simp_all add: keeps_auth_def)

lemma revoke_each_auth: "holds keeps_auth id h (revoke_each strict reason lease now es h)"
proof (induction es arbitrary: h)
  case (Cons e es)
  have "holds keeps_auth id g (revoke_one strict reason lease now e g)" for g
    unfolding revoke_one_def Let_def
    by (intro holds_if holds_Inl holds_option keep_logic.nxt keep_logic.events keep_logic.unchanged)
      (simp_all add: unbind_active_def)
  then show ?case unfolding revoke_each.simps by (intro keep_logic.nxt Cons.IH)
qed (simp add: keep_logic.here)

end
