(* ===== verification/Hub_Cancel.thy ===== *)
theory Hub_Cancel
  imports Grant_Safety Hub_Frames
begin

text \<open>
  Cancelling a run with all its authorizations: \<open>cancel_run_with_cleanup\<close> leaves no approval of the
  run pending, no change set of it waiting or approved, and no grant that can still be consumed.
\<close>

subsection \<open>Frames\<close>

definition settles :: "HubStore \<Rightarrow> HubStore \<Rightarrow> bool" where
  \<comment> \<open>no approval is added\<close>
  "settles h h' \<longleftrightarrow> list_all2 succeeds (approvals h) (approvals h')"

interpretation settle_logic: statements settles approvals
proof unfold_locales
  show "settles h h2" if "settles h h1" and "settles h1 h2" for h h1 h2
    using that list_all2_trans [of succeeds succeeds succeeds] succeeds_trans unfolding settles_def by blast
qed (simp_all add: settles_def list.rel_refl succeeds_refl)

subsection \<open>Approvals\<close>

definition settled :: "string \<Rightarrow> HubStore \<Rightarrow> bool" where
  "settled i h \<longleftrightarrow> list_all (\<lambda>x. ap_id x = i \<longrightarrow> \<not> is_pending x) (approvals h)"

lemma settles_rows:
  assumes "settles h h'" and "x \<in> set (approvals h')"
  shows "\<exists>r \<in> set (approvals h). succeeds r x"
  using assms unfolding settles_def list_all2_conv_all_nth by (metis in_set_conv_nth)

lemma succeeds_id: "succeeds r x \<Longrightarrow> ap_id x = ap_id r \<and> approval_run_id (approval x) = approval_run_id (approval r)"
  unfolding succeeds_def same_identity_def by (metis Approval.select_convs(1,2) Approval.surjective Approval.update_convs(8,9))

lemma settled_stays: "settles h h' \<Longrightarrow> settled i h \<Longrightarrow> settled i h'"
  using settles_rows succeeds_id unfolding settled_def list_all_iff succeeds_def by metis

lemma settles_ids: "settles h h' \<Longrightarrow> map ap_id (approvals h') = map ap_id (approvals h)"
  unfolding settles_def by (induction rule: list_all2_induct) (simp_all add: succeeds_id)

lemma lapse_settles:
  assumes "update_approval i (\<lambda>x. is_pending x \<and> p x) (set_status ApprovalStatus.INVALIDATED now) err h = Inr h'"
    and "distinct (map ap_id (approvals h))"
  shows "settles h h'" and "settled i h'"
proof -
  let ?hit = "\<lambda>r. ap_id r = i \<and> is_pending r \<and> p r"
  let ?f = "\<lambda>r. if ?hit r then set_status ApprovalStatus.INVALIDATED now r else r"
  have 1: "length (filter ?hit (approvals h)) = 1" and h': "approvals h' = map ?f (approvals h)"
    using assms(1) by (auto simp: update_approval_def Let_def split: if_splits)
  have s: "set_status ApprovalStatus.INVALIDATED now = lapse_row ApprovalStatus.INVALIDATED now"
    by (simp add: set_status_def lapse_row_def fun_eq_iff)
  have "succeeds r (?f r)" for r
    unfolding s using succeeds_decided(2) [of r ApprovalStatus.INVALIDATED now] succeeds_refl by simp
  then show "settles h h'" unfolding settles_def h' by (simp add: list_all2_conv_all_nth)
  obtain y where "filter ?hit (approvals h) = [y]" using 1 by (auto simp: length_Suc_conv)
  then have "y \<in> set (filter ?hit (approvals h))" by simp
  then have y: "y \<in> set (approvals h)" "?hit y" by simp_all
  have lapsed: "\<not> is_pending (?f r)" if "r \<in> set (approvals h)" "ap_id (?f r) = i" for r
  proof -
    have "ap_id r = i" using that(2) by (simp add: set_status_def split: if_splits)
    then have "r = y" using same_rows [OF assms(2) that(1) y(1)] y(2) by simp
    then show ?thesis using y(2) by (simp add: set_status_def)
  qed
  show "settled i h'" unfolding settled_def h' list_all_iff set_map
  proof (intro ballI impI)
    fix x assume "x \<in> ?f ` set (approvals h)" and i: "ap_id x = i"
    then obtain r where r: "r \<in> set (approvals h)" "x = ?f r" by (elim imageE)
    show "\<not> is_pending x" using lapsed [OF r(1)] i unfolding r(2) .
  qed
qed

lemma invalidate_each_settles:
  assumes "invalidate_each statuses reason rs lease now h = Inr h'" and "distinct (map ap_id (approvals h))"
  shows "settles h h' \<and> (\<forall>r \<in> set rs. settled (ap_id r) h')"
  using assms
proof (induction rs arbitrary: h)
  case Nil
  then show ?case using settle_logic.same [of h h] by simp
next
  case (Cons r rs)
  obtain h1 h2 h3 where 1: "update_approval (ap_id r)
        (\<lambda>x. is_pending x \<and> approval_version (approval x) = approval_version (approval r))
        (set_status ApprovalStatus.INVALIDATED now) ConcurrencyConflict h = Inr h1"
    and 2: "invalidate_subject statuses reason r lease h1 = Inr h2"
    and 3: "with_approval h2 (ap_id r) (\<lambda>x.
        append_approval_event lease (approval x) (Some (ap_status (approval r))) (Some reason) h2) = Inr h3"
    and 4: "invalidate_each statuses reason rs lease now h3 = Inr h'"
    using Cons.prems(1) unfolding invalidate_each.simps by (auto simp: and_then_Inr)
  note u = lapse_settles [OF 1 Cons.prems(2)]
  have "holds settles id h1 (invalidate_subject statuses reason r lease h1)"
    unfolding invalidate_subject_def
    by (cases "subject (approval r)")
      (auto intro!: holds_option holds_if settle_logic.events settle_logic.unchanged)
  moreover have "holds settles id h2 (with_approval h2 (ap_id r) (\<lambda>x.
        append_approval_event lease (approval x) (Some (ap_status (approval r))) (Some reason) h2))"
    by (intro holds_guard settle_logic.events refl)
  ultimately have "settles h1 h3" using holdsD 2 3 settle_logic.trans by (metis id_apply)
  moreover have s3: "settles h h3" using settle_logic.trans [OF u(1) \<open>settles h1 h3\<close>] .
  moreover have "distinct (map ap_id (approvals h3))" using settles_ids [OF s3] Cons.prems(2) by simp
  ultimately show ?case using Cons.IH [OF 4] u(2) settled_stays settle_logic.trans by (metis set_ConsD)
qed

subsection \<open>Grants\<close>

definition unusable :: "string \<Rightarrow> HubStore \<Rightarrow> bool" where
  "unusable gid h \<longleftrightarrow> list_all (\<lambda>x. grant_id (grant x) = gid \<longrightarrow> \<not> revocable (grant x)) (capability_grants h)"

lemma spends_rows: "spends h h' \<Longrightarrow> x \<in> set (capability_grants h') \<Longrightarrow> \<exists>e \<in> set (capability_grants h). spent_from e x"
  unfolding spends_def list_all2_conv_all_nth by (metis in_set_conv_nth)

lemma unusable_stays: "spends h h' \<Longrightarrow> unusable gid h \<Longrightarrow> unusable gid h'"
  using spends_rows spent_ids unfolding unusable_def list_all_iff spent_from_def by metis

lemma revoke_one_revokes:
  assumes "revoke_one True reason lease now e h = Inr h'"
  shows "unusable (grant_id (grant e)) h'"
proof -
  let ?hit = "\<lambda>x. grant_id (grant x) = grant_id (grant e) \<and> revocable (grant x)"
  let ?g = "h\<lparr>capability_grants := map (\<lambda>x. if ?hit x then revoke_row reason now x else x) (capability_grants h)\<rparr>"
  have "unusable (grant_id (grant e)) ?g" by (auto simp: unusable_def list_all_iff)
  moreover have "spends ?g h'"
  proof -
    have here: "holds (\<lambda>_. spends ?g) id h m" if "holds spends id ?g m" for m
      using that by (simp add: holds_def)
    have "holds (\<lambda>_. spends ?g) id h (revoke_one True reason lease now e h)"
      unfolding revoke_one_def Let_def if_True
      by (rule holds_if, rule holds_Inl, rule holds_if, rule holds_Inl, rule here)
        (intro follow holds_option spend_logic.nxt holds_if; simp)
    from holdsD [OF this assms] show ?thesis by simp
  qed
  ultimately show ?thesis using unusable_stays by blast
qed

lemma revoke_each_revokes:
  assumes "revoke_each True reason lease now es h = Inr h'" and "e \<in> set es"
  shows "unusable (grant_id (grant e)) h'"
  using assms
proof (induction es arbitrary: h)
  case (Cons x es)
  obtain h1 where 1: "revoke_one True reason lease now x h = Inr h1"
    and 2: "revoke_each True reason lease now es h1 = Inr h'"
    using Cons.prems(1) by (auto simp: and_then_Inr)
  have "spends h1 h'" using holdsD [OF revoke_each_spends 2] by simp
  then show ?case using revoke_one_revokes [OF 1] unusable_stays Cons.IH [OF 2] Cons.prems(2) by auto
qed simp

subsection \<open>The cancellation\<close>

lemma cancelled_task_ids:
  assumes "complete_cancel_in lease now st = Inr st'"
  shows "map task_id (tasks st') = map task_id (tasks st)" and "change_sets st' = change_sets st"
proof -
  show "change_sets st' = change_sets st"
    using cancel_in_frames [OF refl, THEN framesD, OF assms] by (simp add: other_tables_def)
  show "map task_id (tasks st') = map task_id (tasks st)"
  proof (cases "run_status (run st) \<in> set RUN_TERMINAL")
    case False
    then obtain st1 where 1: "cancel_nodes lease now (filter (\<lambda>r. nr_status r \<in> set NODE_LIVE) (node_runs st)) st = Inr st1"
      and 2: "tasks st' = tasks st1"
      using assms by (auto simp: complete_cancel_in_def and_then_Inr update_run_def append_run_state_def
          split: if_splits)
    show ?thesis unfolding 2 cancel_nodes_rows [OF 1, THEN conjunct2]
      by (simp add: cancelled_task_def)
  qed (use assms in \<open>simp add: complete_cancel_in_def\<close>)
qed

lemma cancel_parts:
  assumes "cancel_run_with_cleanup wid lease reason now h = Inr h'"
    and "run_status (run (hub_run h)) \<notin> set RUN_TERMINAL \<or> cancelling (hub_run h)"
  obtains h1 h2 h3 st where "approvals h1 = approvals h" "workflow_run_id (run (hub_run h1)) = wid"
    "invalidate_each [ChangeSetStatus.PENDING_APPROVAL, ChangeSetStatus.APPROVED] reason
       (filter (\<lambda>r. is_pending r \<and> approval_run_id (approval r) = wid) (approvals h1)) lease now h1 = Inr h2"
    "revoke_each True reason lease now (revocable_of_run wid (cancel_change_sets wid h2)) (cancel_change_sets wid h2) =
       Inr h3"
    "complete_cancel_in lease now (hub_run h3) = Inr st"
    "approvals h' = approvals h3" "capability_grants h' = capability_grants h3"
    "privilege_requests h' = privilege_requests h3" "tasks (hub_run h') = tasks st"
    "change_sets (hub_run h') = change_sets st"
proof -
  have w: "workflow_run_id (run (hub_run h)) = wid"
    using assms(1) by (auto simp: cancel_run_with_cleanup_def fenced_def known_run_def split: if_splits)
  obtain h1 g2 h3 h4 where
    1: "(if cancelling (hub_run h) then Inr h
         else lift_run h (update_run (\<lambda>w. cancel_requested_at w = None \<and> merge_finalizing_at w = None)
           (\<lambda>w. w\<lparr>cancel_requested_at := Some now\<rparr>) (hub_run h))) = Inr h1"
    and 2: "invalidate_for_run_in wid lease reason now h1 = Inr g2"
    and 3: "revoke_unconsumed_for_run_in wid lease reason now g2 = Inr h3"
    and 4: "lift_run h3 (complete_cancel_in lease now (hub_run h3)) = Inr h4"
    and 5: "approvals h' = approvals h4" "capability_grants h' = capability_grants h4"
      "privilege_requests h' = privilege_requests h4" "tasks (hub_run h') = tasks (hub_run h4)"
      "change_sets (hub_run h') = change_sets (hub_run h4)"
    using assms unfolding cancel_run_with_cleanup_def Let_def fenced_def known_run_def
    by (simp add: and_then_Inr split: if_splits) (elim exE conjE, fastforce)+
  have h1: "approvals h1 = approvals h" "workflow_run_id (run (hub_run h1)) = wid"
    using 1 w by (auto simp: lift_run_def update_run_def and_then_Inr split: if_splits)
  obtain h2 where 6: "invalidate_each [ChangeSetStatus.PENDING_APPROVAL, ChangeSetStatus.APPROVED] reason
       (filter (\<lambda>r. is_pending r \<and> approval_run_id (approval r) = wid) (approvals h1)) lease now h1 = Inr h2"
    and g2: "g2 = cancel_change_sets wid h2"
    using 2 by (auto simp: invalidate_for_run_in_def invalidate_rows_def fenced_def and_then_Inr split: if_splits)
  have 7: "revoke_each True reason lease now (revocable_of_run wid g2) g2 = Inr h3"
    using 3 by (simp add: revoke_unconsumed_for_run_in_def fenced_def split: if_splits)
  obtain st where 8: "complete_cancel_in lease now (hub_run h3) = Inr st" and h4: "h4 = h3\<lparr>hub_run := st\<rparr>"
    using 4 by (auto simp: lift_run_def and_then_Inr)
  show thesis
    using that [OF h1 6 7 [unfolded g2] 8] 5 by (simp add: h4)
qed

text \<open>
  C22: cancelling a run takes back all authority. When \<open>cancel_run_with_cleanup\<close> cancels a run,
  no approval of the run is pending any more, no change set of its tasks is waiting for an approval
  or approved, and every grant for a request of the run has been consumed or revoked; nothing of
  this is undone by what follows in the transaction.
\<close>

theorem cancellation_takes_back_authority:
  assumes "cancel_run_with_cleanup wid lease reason now h = Inr h'" and "distinct (map ap_id (approvals h))"
    and "run_status (run (hub_run h)) \<notin> set RUN_TERMINAL \<or> cancelling (hub_run h)"
  shows "list_all (\<lambda>r. approval_run_id (approval r) = wid \<longrightarrow> \<not> is_pending r) (approvals h') \<and>
    list_all (\<lambda>c. change_set_task_id c \<in> task_id ` set (tasks (hub_run h')) \<longrightarrow>
      change_set_status c \<notin> {ChangeSetStatus.PENDING_APPROVAL, ChangeSetStatus.APPROVED}) (change_sets (hub_run h')) \<and>
    list_all (\<lambda>e. grant_request_id (grant e) \<in> (\<lambda>q. request_id (request q)) ` set (privilege_requests h') \<longrightarrow>
      \<not> revocable (grant e)) (capability_grants h')"
proof -
  let ?gone = "[ChangeSetStatus.PENDING_APPROVAL, ChangeSetStatus.APPROVED]"
  obtain h1 h2 h3 st where h1: "approvals h1 = approvals h" "workflow_run_id (run (hub_run h1)) = wid"
    and inv: "invalidate_each ?gone reason
       (filter (\<lambda>r. is_pending r \<and> approval_run_id (approval r) = wid) (approvals h1)) lease now h1 = Inr h2"
    and rev: "revoke_each True reason lease now (revocable_of_run wid (cancel_change_sets wid h2))
       (cancel_change_sets wid h2) = Inr h3"
    and fin: "complete_cancel_in lease now (hub_run h3) = Inr st"
    and h': "approvals h' = approvals h3" "capability_grants h' = capability_grants h3"
    "privilege_requests h' = privilege_requests h3" "tasks (hub_run h') = tasks st"
    "change_sets (hub_run h') = change_sets st"
    by (rule cancel_parts [OF assms(1,3)])
  let ?g = "cancel_change_sets wid h2"
  have a12: "settles h1 h2" and s2: "\<forall>r \<in> set (filter (\<lambda>r. is_pending r \<and> approval_run_id (approval r) = wid)
      (approvals h1)). settled (ap_id r) h2"
    using invalidate_each_settles [OF inv] assms(2) h1(1) by simp_all
  have a23: "settles h2 h3"
    using holdsD [OF revoke_each_auth rev] settle_logic.same [of h3 h2]
    by (simp add: keeps_auth_def cancel_change_sets_def)
  have pend: "\<not> is_pending x" if x: "x \<in> set (approvals h3)" "approval_run_id (approval x) = wid" for x
  proof
    assume p: "is_pending x"
    obtain r where r: "r \<in> set (approvals h1)" "succeeds r x"
      using settles_rows [OF settle_logic.trans [OF a12 a23] x(1)] by blast
    then have "x = r" using p by (simp add: succeeds_def)
    then have "settled (ap_id x) h3" using s2 r(1) p x(2) settled_stays [OF a23] by simp
    then show False using x(1) p by (auto simp: settled_def list_all_iff)
  qed
  have run12: "run_tables h2 = run_tables h1" and run23: "run_tables h3 = run_tables ?g"
    using holdsD [OF invalidate_each_run inv] holdsD [OF revoke_each_run rev] by (simp_all add: keeps_run_def)
  then have wid: "workflow_run_id (run (hub_run h2)) = wid" using h1(2) by (simp add: run_tables_def)
  have tasks: "task_id ` set (tasks st) = task_id ` set (tasks (hub_run h2))"
  proof -
    have "tasks (hub_run h3) = tasks (hub_run h2)"
      using run23 by (simp add: run_tables_def cancel_change_sets_def)
    then have "map task_id (tasks st) = map task_id (tasks (hub_run h2))"
      using cancelled_task_ids(1) [OF fin] by simp
    then show ?thesis by (metis list.set_map)
  qed
  have "change_sets (hub_run h3) = change_sets (hub_run ?g)"
    using holdsD [OF revoke_each_auth rev] by (simp add: keeps_auth_def)
  then have cs: "change_sets st = map (\<lambda>x. if change_set_status x \<in> set ?gone \<and>
         workflow_run_id (run (hub_run h2)) = wid \<and> change_set_task_id x \<in> task_id ` set (tasks (hub_run h2))
       then x\<lparr>change_set_status := ChangeSetStatus.CANCELLED\<rparr> else x) (change_sets (hub_run h2))"
    using cancelled_task_ids(2) [OF fin] by (simp add: cancel_change_sets_def)
  have sets: "change_set_status c \<notin> set ?gone"
    if "c \<in> set (change_sets st)" "change_set_task_id c \<in> task_id ` set (tasks st)" for c
    using that wid unfolding cs tasks set_map by (elim imageE) (simp split: if_splits)
  have grants: "\<not> revocable (grant e)" if e: "e \<in> set (capability_grants h3)"
    and q: "grant_request_id (grant e) \<in> (\<lambda>q. request_id (request q)) ` set (privilege_requests h3)" for e
  proof
    assume u: "revocable (grant e)"
    have sp: "spends ?g h3" using holdsD [OF revoke_each_spends rev] by simp
    obtain x where x: "x \<in> set (capability_grants ?g)" "spent_from x e" using spends_rows [OF sp e] by blast
    then have "x = e" using u by (auto simp: spent_from_def)
    moreover have "map (\<lambda>q. request_id (request q)) (privilege_requests h3) =
        map (\<lambda>q. request_id (request q)) (privilege_requests ?g)"
      using run23 by (simp add: run_tables_def)
    then have "(\<lambda>q. request_id (request q)) ` set (privilege_requests h3) =
        (\<lambda>q. request_id (request q)) ` set (privilege_requests ?g)" by (metis list.set_map)
    then have "find_request ?g (grant_request_id (grant e)) \<noteq> None"
      using q by (auto simp: find_request_def find_None_iff)
    ultimately have "e \<in> set (revocable_of_run wid ?g)"
      using x(1) u wid by (simp add: revocable_of_run_def cancel_change_sets_def)
    then have "unusable (grant_id (grant e)) h3" by (rule revoke_each_revokes [OF rev])
    then show False using e u by (auto simp: unusable_def list_all_iff)
  qed
  show ?thesis unfolding h' using pend sets grants by (simp add: list_all_iff)
qed

lemma sample_cancel:
  "case cancel_run_with_cleanup ''r'' (sample_master ''alice'' 0 1) ''why'' 6 sample_pending of
     Inl _ \<Rightarrow> False | Inr h \<Rightarrow> run_status (run (hub_run h)) = WorkflowRunStatus.CANCELLED"
  by code_simp

lemma cancellation_takes_back_authority_witness:
  "\<exists>h. cancel_run_with_cleanup ''r'' (sample_master ''alice'' 0 1) ''why'' 6 sample_pending = Inr h \<and>
     list_all (\<lambda>r. approval_run_id (approval r) = ''r'' \<longrightarrow> \<not> is_pending r) (approvals h)"
proof -
  obtain h where h: "cancel_run_with_cleanup ''r'' (sample_master ''alice'' 0 1) ''why'' 6 sample_pending = Inr h"
    using sample_cancel by (auto split: sum.splits)
  have "distinct (map ap_id (approvals sample_pending))" "run_status (run (hub_run sample_pending)) \<notin> set RUN_TERMINAL"
    by (simp_all add: sample_pending_def RUN_TERMINAL_def)
  then show ?thesis using cancellation_takes_back_authority [OF h] h by blast
qed

end
