(* ===== verification/Hub_Runs.thy ===== *)
theory Hub_Runs
  imports Hub_Frames Hub_Safety
begin

text \<open>
  The run inside the hub: whatever the repositories of approvals, change sets and grants do to a run
  is a sequence of the steps of \<open>Run_Reachable\<close>, so that everything proved of runs holds there.
\<close>

definition runs ::
  "(string \<Rightarrow> string) \<Rightarrow> (AgentSpec list \<Rightarrow> string) \<Rightarrow> HubStore \<Rightarrow> HubStore \<Rightarrow> bool" where
  "runs H cd h h' \<longleftrightarrow> run_steps H cd (hub_run h) (hub_run h')"

definition run_core :: "HubStore \<Rightarrow> WorkflowRun \<times> NodeRun list \<times> string list" where
  "run_core h = (run (hub_run h), node_runs (hub_run h), map task_node_run_id (tasks (hub_run h)))"

lemma same_core_runs: "run_core h' = run_core h \<Longrightarrow> runs H cd h h'"
  unfolding runs_def run_core_def
  by (intro r_into_rtranclp run_step.other) (simp_all add: task_nodes_def del: set_map)

lemma txn_runs: "run_txn H cd (hub_run h) st \<Longrightarrow> runs H cd h (h\<lparr>hub_run := st\<rparr>)"
  by (auto simp: runs_def intro!: run_step.txn)

interpretation hub_runs: table_statements "runs H cd" run_core H for H cd
proof unfold_locales
  show "runs H cd h h2" if "runs H cd h h1" and "runs H cd h1 h2" for h h1 h2
    using that unfolding runs_def by (rule rtranclp_trans)
  show "runs H cd h (h\<lparr>hub_run := st\<rparr>)"
    if "resume_after_approval_in wid i approved lease now (hub_run h) = Inr st" for wid i approved lease now h st
    using that by (intro txn_runs run_txn.resume_in)
  show "runs H cd h (h\<lparr>hub_run := st\<rparr>)"
    if "resume_privilege_after_approval_in H wid i approved lease now (hub_run h) = Inr st"
    for wid i approved lease now h st
    using that by (intro txn_runs run_txn.resume_privilege)
qed (simp_all add: same_core_runs run_core_def put_approvals_def put_change_sets_def put_requests_def
      unbind_active_def)

lemma core_same [simp]:
  "run_core (h\<lparr>capability_grants := gs\<rparr>) = run_core h" "run_core (bind_active gid tid h) = run_core h"
  by (simp_all add: run_core_def bind_active_def)

subsection \<open>The other operations\<close>

lemma capture_runs:
  assumes "publisher publish"
  shows "holds (runs H cd) id h
    (persist_capture publish H' session wid i task c lease wl target error status reason now h)"
proof -
  have p: "holds (runs H cd) id h (publish h)"
    using assms by (auto simp: publisher_def same_records_def holds_def run_core_def intro!: same_core_runs)
  have q: "holds (runs H cd) id g (insert_capture_in c task i status reason lease wl g)" for g
    unfolding insert_capture_in_def Let_def
    by (intro hub_runs.rules follow) (simp_all add: run_core_def)
  have t: "holds (runs H cd) id g (lift_run g (and_then
      (update_task task [TaskStatus.RUNNING] (\<lambda>q. q\<lparr>task_status := target, task_finished_at := Some now\<rparr>) (hub_run g))
      (\<lambda>st. Inr (append_task_state lease w i task a target error st))))" for g w a
    by (auto simp: lift_run_def holds_def and_then_Inr update_task_def append_task_state_def run_core_def
        split: if_splits intro!: same_core_runs)
  show ?thesis unfolding persist_capture_def
    by (intro hub_runs.rules follow p q t)
qed

lemma activate_runs [follow]:
  "run_core g = run_core h \<Longrightarrow>
     holds (runs H cd) id h (lift_run g (activate_capability_target_in tid lease now (hub_run g)))"
  by (intro hub_runs.lifted txn_runs run_txn.activate)

lemma create_grant_runs: "holds (runs H cd) id h (create_grant H' g wid source_task lease now h)"
  unfolding create_grant_def issue_def insert_grant_def Let_def
  by (intro hub_runs.rules follow) simp_all

lemma consume_runs: "holds (runs H cd) fst h (consume_grant gid tid act resource lease wl now h)"
  unfolding consume_grant_def mark_consumed_def consume_request_def Let_def
  by (intro hub_runs.rules follow) simp_all

lemma revoke_each_runs: "holds (runs H cd) id h (revoke_each strict reason lease now es h)"
proof (induction es arbitrary: h)
  case (Cons e es)
  have "holds (runs H cd) id g (revoke_one strict reason lease now e g)" for g
    unfolding revoke_one_def Let_def by (intro hub_runs.rules follow) simp_all
  then show ?case unfolding revoke_each.simps by (intro hub_runs.nxt Cons.IH)
qed (simp add: hub_runs.here)

lemma revoke_runs: "holds (runs H cd) id h (revoke_unconsumed_for_run wid lease reason now h)"
  unfolding revoke_unconsumed_for_run_def by (intro holds_guard revoke_each_runs)

lemma bind_elim: "and_then m k = Inr y \<Longrightarrow> (\<And>x. m = Inr x \<Longrightarrow> k x = Inr y \<Longrightarrow> P) \<Longrightarrow> P"
  by (auto simp: and_then_Inr)

lemma cancel_chain:
  assumes "cancel_run_with_cleanup wid lease reason now h = Inr h'" and "h' \<noteq> h"
  obtains h1 h2 h3 h4 where "master_valid (hub_run h) lease now" "workflow_run_id (run (hub_run h)) = wid"
    "run_status (run (hub_run h)) \<in> set RUN_TERMINAL \<longrightarrow> cancelling (hub_run h)"
    "merge_finalizing_at (run (hub_run h)) = None"
    "(if cancelling (hub_run h) then Inr h
      else lift_run h (update_run (\<lambda>w. cancel_requested_at w = None \<and> merge_finalizing_at w = None)
        (\<lambda>w. w\<lparr>cancel_requested_at := Some now\<rparr>) (hub_run h))) = Inr h1"
    "invalidate_for_run_in wid lease reason now h1 = Inr h2"
    "revoke_unconsumed_for_run_in wid lease reason now h2 = Inr h3"
    "lift_run h3 (complete_cancel_in lease now (hub_run h3)) = Inr h4" "run_core h' = run_core h4"
proof -
  have v: "master_valid (hub_run h) lease now" "workflow_run_id (run (hub_run h)) = wid"
    "\<not> (run_status (run (hub_run h)) \<in> set RUN_TERMINAL \<and> \<not> cancelling (hub_run h))"
    "merge_finalizing_at (run (hub_run h)) = None"
    using assms by (auto simp: cancel_run_with_cleanup_def fenced_def known_run_def split: if_splits)
  note e = known_runD [OF fencedD [OF assms(1) [unfolded cancel_run_with_cleanup_def Let_def], THEN conjunct2],
      THEN conjunct2, unfolded if_not_P [OF v(3)], unfolded v(4) if_False simp_thms]
  obtain h1 where 1: "(if cancelling (hub_run h) then Inr h
      else lift_run h (update_run (\<lambda>w. cancel_requested_at w = None \<and> merge_finalizing_at w = None)
        (\<lambda>w. w\<lparr>cancel_requested_at := Some now\<rparr>) (hub_run h))) = Inr h1"
    and e1: "and_then (invalidate_for_run_in wid lease reason now h1) (\<lambda>h2.
        and_then (revoke_unconsumed_for_run_in wid lease reason now h2) (\<lambda>h3.
        and_then (lift_run h3 (complete_cancel_in lease now (hub_run h3))) (\<lambda>h4. Inr (h4\<lparr>hub_run :=
          emit (RecoveryAction (fencing_token lease) ''cancel'' ''cancelled''
            ''cancellation and all dependent authorization state committed atomically'') (hub_run h4),
           security_events := security_events h4 @
             [\<lparr>security_task = None, security_type = ''workflow.cancellation_completed'', severity = INFO,
               security_reason = ''cancellation and all dependent authorization state committed atomically''\<rparr>]\<rparr>)))) = Inr h'"
    by (rule bind_elim [OF e]) (rule that)
  obtain h2 h3 h4 where 2: "invalidate_for_run_in wid lease reason now h1 = Inr h2"
    and 3: "revoke_unconsumed_for_run_in wid lease reason now h2 = Inr h3"
    and 4: "lift_run h3 (complete_cancel_in lease now (hub_run h3)) = Inr h4"
    and "h' = h4\<lparr>hub_run := hub_run h', security_events := security_events h'\<rparr>" "run_core h' = run_core h4"
    using e1 by (auto simp: and_then_Inr run_core_def)
  then show thesis using that v 1 by blast
qed

lemma cancel_runs: "holds (runs H cd) id h (cancel_run_with_cleanup wid lease reason now h)"
proof (rule holdsI, unfold id_apply)
  fix h' assume c: "cancel_run_with_cleanup wid lease reason now h = Inr h'"
  show "runs H cd h h'"
  proof (cases "h' = h")
    case False
    obtain h1 h2 h3 h4 where v: "master_valid (hub_run h) lease now" "workflow_run_id (run (hub_run h)) = wid"
      and t: "run_status (run (hub_run h)) \<in> set RUN_TERMINAL \<longrightarrow> cancelling (hub_run h)"
        "merge_finalizing_at (run (hub_run h)) = None"
      and 1: "(if cancelling (hub_run h) then Inr h
         else lift_run h (update_run (\<lambda>w. cancel_requested_at w = None \<and> merge_finalizing_at w = None)
           (\<lambda>w. w\<lparr>cancel_requested_at := Some now\<rparr>) (hub_run h))) = Inr h1"
      and 2: "invalidate_for_run_in wid lease reason now h1 = Inr h2"
      and 3: "revoke_unconsumed_for_run_in wid lease reason now h2 = Inr h3"
      and 4: "lift_run h3 (complete_cancel_in lease now (hub_run h3)) = Inr h4" and 5: "run_core h' = run_core h4"
      by (rule cancel_chain [OF c False])
    have r1: "runs H cd h h1" and k1: "master_leases (hub_run h1) = master_leases (hub_run h)"
      "workflow_run_id (run (hub_run h1)) = wid"
    proof -
      have "runs H cd h h1 \<and> master_leases (hub_run h1) = master_leases (hub_run h) \<and> workflow_run_id (run (hub_run h1)) = wid"
      proof (cases "cancelling (hub_run h)")
        case True
        then show ?thesis using 1 v(2) same_core_runs [of h h] by simp
      next
        case False
        then obtain st where st: "update_run (\<lambda>w. cancel_requested_at w = None \<and> merge_finalizing_at w = None)
           (\<lambda>w. w\<lparr>cancel_requested_at := Some now\<rparr>) (hub_run h) = Inr st" and h1: "h1 = h\<lparr>hub_run := st\<rparr>"
          using 1 by (auto simp: lift_run_def and_then_Inr)
        have "request_cancel wid lease now (hub_run h) = Inr st"
          using st False v t by (simp add: request_cancel_def fenced_def known_run_def)
        then have "runs H cd h h1" unfolding h1 by (intro txn_runs run_txn.ask_cancel)
        then show ?thesis using st v(2) by (auto simp: h1 update_run_def split: if_splits)
      qed
      then show "runs H cd h h1" "master_leases (hub_run h1) = master_leases (hub_run h)"
        "workflow_run_id (run (hub_run h1)) = wid" by simp_all
    qed
    have r2: "runs H cd h1 h2" using holdsD [OF hub_runs.invalidate_follows(2) 2] by simp
    have r3: "runs H cd h2 h3"
      using holdsD [OF holds_guard(1) [OF revoke_each_runs] 3 [unfolded revoke_unconsumed_for_run_in_def]] by simp
    have "holds keeps_run id h1 (invalidate_for_run_in wid lease reason now h1)"
      unfolding invalidate_for_run_in_def invalidate_rows_def cancel_change_sets_def
      by (intro holds_guard run_logic.nxt invalidate_each_run run_logic.unchanged) simp
    moreover have "holds keeps_run id h2 (revoke_unconsumed_for_run_in wid lease reason now h2)"
      unfolding revoke_unconsumed_for_run_in_def by (intro holds_guard revoke_each_run)
    ultimately have "run_tables h3 = run_tables h1"
      using holdsD [OF _ 2, of keeps_run id h1] holdsD [OF _ 3, of keeps_run id h2] by (simp add: keeps_run_def)
    then have "master_valid (hub_run h3) lease now" "workflow_run_id (run (hub_run h3)) = wid"
      using v(1) k1 by (simp_all add: run_tables_def master_valid_def)
    then have "complete_cancel wid lease now (hub_run h3) = complete_cancel_in lease now (hub_run h3)"
      by (simp add: complete_cancel_def fenced_def known_run_def)
    then have r4: "runs H cd h3 h4"
    proof -
      obtain st where st: "complete_cancel_in lease now (hub_run h3) = Inr st" and h4: "h4 = h3\<lparr>hub_run := st\<rparr>"
        using 4 by (auto simp: lift_run_def and_then_Inr)
      show ?thesis unfolding h4
        by (rule txn_runs, rule run_txn.cancel [of wid lease now]) (simp add: \<open>complete_cancel wid _ _ _ = _\<close> st)
    qed
    show ?thesis
      by (rule hub_runs.trans [OF r1 hub_runs.trans [OF r2 hub_runs.trans [OF r3 hub_runs.trans [OF r4
        same_core_runs [OF 5]]]]])
  qed (simp add: same_core_runs)
qed

subsection \<open>The refinement\<close>

lemma hub_step_runs:
  assumes "hub_step H cd h h'"
  shows "runs H cd h h'"
  using assms
proof cases
  case (run st)
  then show ?thesis by (simp add: txn_runs)
next
  case (capture publish session wid i task c lease wl target error status reason now)
  then show ?thesis using holdsD [OF capture_runs] by fastforce
next
  case (prepare stamp isoformat document read ttl ctx lease now result)
  then show ?thesis using hub_runs.prepare_follows by simp
next
  case elsewhere
  then show ?thesis by (intro same_core_runs) (simp add: same_records_def run_core_def)
next
  case guard
  from holdsD [OF hub_runs.transition_follows this(2)] show ?thesis by simp
next
  case renew
  from holdsD [OF hub_runs.renew_follows this] show ?thesis by simp
next
  case decide
  from holdsD [OF hub_runs.decide_follows this] show ?thesis by simp
next
  case expire
  from holdsD [OF hub_runs.expire_due_follows this] show ?thesis by simp
next
  case invalidate
  from holdsD [OF hub_runs.invalidate_follows(1) this] show ?thesis by simp
next
  case cancel
  from holdsD [OF cancel_runs this] show ?thesis by simp
next
  case ask_privilege
  from holdsD [OF hub_runs.create_request_follows this] show ?thesis by simp
next
  case ask_approval
  from holdsD [OF hub_runs.create_both_follows this] show ?thesis by simp
next
  case grant
  from holdsD [OF create_grant_runs this] show ?thesis by simp
next
  case consume
  from holdsD [OF consume_runs this] show ?thesis by simp
next
  case revoke
  from holdsD [OF revoke_runs this] show ?thesis by simp
qed

text \<open>
  C15: the hub refines the run. Any sequence of transactions on approvals, change sets, privilege
  requests, grants and the run itself is, on the tables of the run, a sequence of the steps of the
  run repository, so every property of runs holds of the run inside the hub.
\<close>

theorem hub_refines_run:
  assumes "hub_steps H cd h h'"
  shows "run_steps H cd (hub_run h) (hub_run h')"
  using assms
proof (induction rule: rtranclp_induct)
  case (step h1 h2)
  then show ?case using hub_step_runs [OF step.hyps(2)] unfolding runs_def by (meson rtranclp_trans)
qed simp

lemma hub_refines_run_witness:
  "\<exists>h. hub_steps sample_hash sample_catalog_digest sample_pending h \<and>
     change_sets (hub_run h) = [sample_change_set\<lparr>change_set_status := ChangeSetStatus.APPROVED\<rparr>] \<and>
     run_steps sample_hash sample_catalog_digest (hub_run sample_pending) (hub_run h)"
  using sample_decided_step hub_refines_run by blast

end
