(* ===== verification/Run_Termination.thy ===== *)
theory Run_Termination
  imports Run_State
begin

text \<open>
  The \<open>while True\<close> of \<open>_reconcile_in\<close> with a bound on its passes: as many passes as there are pending
  rows, and one more that changes nothing, are enough, so the loop always ends and \<open>reconcile_loop\<close>
  is what it computes.
\<close>

fun passes ::
  "nat \<Rightarrow> CompiledGraph \<Rightarrow> string list \<Rightarrow> MasterLease \<Rightarrow> time \<Rightarrow> RunStore \<Rightarrow> (run_error + RunStore) option" where
  "passes 0 g order lease now st = None"
| "passes (Suc n) g order lease now st =
     (case reconcile_pass g (dict_by nr_node_id (node_runs st)) lease now order (st, False) of
        Inl e \<Rightarrow> Some (Inl e)
      | Inr (st', changed_any) \<Rightarrow>
          (if changed_any then passes n g order lease now st' else Some (Inr st')))"

lemma passes_enough:
  "pending_count st < n \<Longrightarrow> passes n g order lease now st = Some (reconcile_loop g order lease now st)"
proof (induction n arbitrary: st)
  case (Suc n)
  show ?case
  proof (cases "reconcile_pass g (dict_by nr_node_id (node_runs st)) lease now order (st, False)")
    case (Inr x)
    obtain st' c where x: "x = (st', c)" by (cases x)
    have "c \<Longrightarrow> pending_count st' < n"
      using reconcile_pass_count [of g _ lease now order st False st' c] Inr x Suc.prems by fastforce
    then show ?thesis using Suc.IH Inr x by (simp add: reconcile_loop.simps [of g order lease now st])
  qed (simp add: reconcile_loop.simps [of g order lease now st])
qed simp

text \<open>
  C30: reconciliation ends. From any store, after at most one pass more than there are pending rows,
  whatever graph, order and rows are stored, the loop has stopped, with the result of
  \<open>reconcile_loop\<close>; a bound that counts all rows is enough too, and more fuel gives the same.
\<close>

theorem reconciliation_ends:
  "passes (pending_count st + 1 + k) g order lease now st = Some (reconcile_loop g order lease now st) \<and>
   passes (length (node_runs st) + 1 + k) g order lease now st = Some (reconcile_loop g order lease now st)"
proof -
  have "pending_count st \<le> length (node_runs st)" by (rule length_filter_le)
  then show ?thesis by (intro conjI passes_enough) linarith+
qed

end
