(* ===== verification/Idempotency.thy ===== *)
theory Idempotency
  imports Run_State Canonical_Json
begin

text \<open>
  \<open>storage/idempotency_repository.py\<close>: a mutation runs in the transaction that records its response
  under the key of the request, and a live key answers with the recorded response. The database is
  the table of keys and the rest, whose type is a parameter; a mutation is a function of the whole
  database. A response keeps its parsed JSON value, since the canonical text determines it
  (\<open>canonical_json_is_unambiguous\<close>); \<open>None\<close> stands for a text that is not JSON.
\<close>

subsection \<open>Responses and rows\<close>

record StoredResponse =
  status_code :: int
  response_json :: json

definition make_response :: "int \<Rightarrow> json option \<Rightarrow> run_error + StoredResponse" where
  \<comment> \<open>\<open>__post_init__\<close>: the text is replaced by the canonical one\<close>
  "make_response status parsed =
     (if \<not> (100 \<le> status \<and> status \<le> 599) then Inl (PyError ValueError)
      else case parsed of
        None \<Rightarrow> Inl (PyError ValueError)
      | Some j \<Rightarrow> Inr \<lparr>status_code = status, response_json = sort_keys j\<rparr>)"

record IdempotencyResult =
  response :: StoredResponse
  replayed :: bool

record IdempotencyRow =
  row_actor_scope :: string
  row_operation_scope :: string
  row_idempotency_key :: string
  row_request_sha256 :: string
  row_status :: int
  row_json :: json
  row_created_at :: time
  row_expires_at :: time

type_synonym 'w database = "IdempotencyRow list \<times> 'w"

definition has_key :: "string \<Rightarrow> string \<Rightarrow> string \<Rightarrow> IdempotencyRow \<Rightarrow> bool" where
  \<comment> \<open>\<open>WHERE actor_scope = ? AND operation_scope = ? AND idempotency_key = ?\<close>\<close>
  "has_key a p k r \<longleftrightarrow> row_actor_scope r = a \<and> row_operation_scope r = p \<and> row_idempotency_key r = k"

subsection \<open>Operations\<close>

definition validate_text :: "string \<Rightarrow> nat \<Rightarrow> run_error option" where
  "validate_text s n = (if s = [] \<or> n < length s then Some (PyError ValueError) else None)"

definition request_problem :: "string \<Rightarrow> string \<Rightarrow> string \<Rightarrow> string \<Rightarrow> run_error option" where
  \<comment> \<open>what \<open>lookup\<close> and \<open>execute\<close> check first\<close>
  "request_problem a p k sha =
     (case validate_text a 256 of
        Some e \<Rightarrow> Some e
      | None \<Rightarrow> (case validate_text p 512 of
          Some e \<Rightarrow> Some e
        | None \<Rightarrow> (case validate_text k 256 of
            Some e \<Rightarrow> Some e
          | None \<Rightarrow> (if is_sha256_hex sha then None else Some (PyError ValidationError)))))"

definition replay :: "IdempotencyRow \<Rightarrow> run_error + IdempotencyResult" where
  "replay r = and_then (make_response (row_status r) (Some (row_json r)))
     (\<lambda>resp. Inr \<lparr>response = resp, replayed = True\<rparr>)"

definition lookup ::
  "string \<Rightarrow> string \<Rightarrow> string \<Rightarrow> string \<Rightarrow> time \<Rightarrow> 'w database \<Rightarrow> run_error + IdempotencyResult option" where
  "lookup a p k sha now db =
     (case request_problem a p k sha of
        Some e \<Rightarrow> Inl e
      | None \<Rightarrow>
          (case find (has_key a p k) (fst db) of
             None \<Rightarrow> Inr None
           | Some r \<Rightarrow>
               (if row_expires_at r \<le> now then Inr None
                else if row_request_sha256 r \<noteq> sha then Inl IdempotencyConflict
                else and_then (replay r) (\<lambda>x. Inr (Some x)))))"

definition insert_row :: "IdempotencyRow \<Rightarrow> 'w database \<Rightarrow> run_error + 'w database" where
  \<comment> \<open>the primary key and the bound of the status; the other constraints were checked\<close>
  "insert_row r db =
     (if list_ex (has_key (row_actor_scope r) (row_operation_scope r) (row_idempotency_key r)) (fst db) \<or>
        \<not> (100 \<le> row_status r \<and> row_status r \<le> 599)
      then Inl IntegrityError else Inr (fst db @ [r], snd db))"

definition execute ::
  "string \<Rightarrow> string \<Rightarrow> string \<Rightarrow> string \<Rightarrow> ('w database \<Rightarrow> run_error + StoredResponse option \<times> 'w database) \<Rightarrow>
     int \<Rightarrow> time \<Rightarrow> 'w database \<Rightarrow> run_error + 'w database \<times> IdempotencyResult" where
  \<comment> \<open>\<open>None\<close> is a result of the mutation that is not a \<open>StoredResponse\<close>\<close>
  "execute a p k sha mutation ttl now db =
     (case request_problem a p k sha of
        Some e \<Rightarrow> Inl e
      | None \<Rightarrow>
          (if ttl < 1 then Inl (PyError ValueError)
           else let fresh = (\<lambda>db1. and_then (mutation db1) (\<lambda>(resp, db2).
                  case resp of
                    None \<Rightarrow> Inl (PyError TypeError)
                  | Some x \<Rightarrow> and_then
                      (insert_row \<lparr>row_actor_scope = a, row_operation_scope = p, row_idempotency_key = k,
                         row_request_sha256 = sha, row_status = status_code x, row_json = response_json x,
                         row_created_at = now, row_expires_at = now + seconds ttl\<rparr> db2)
                      (\<lambda>db3. Inr (db3, \<lparr>response = x, replayed = False\<rparr>))))
             in case find (has_key a p k) (fst db) of
                  None \<Rightarrow> fresh db
                | Some r \<Rightarrow>
                    (if now < row_expires_at r
                     then if row_request_sha256 r \<noteq> sha then Inl IdempotencyConflict
                       else and_then (replay r) (\<lambda>x. Inr (db, x))
                     else fresh (filter (\<lambda>q. \<not> has_key a p k q) (fst db), snd db))))"

definition delete_expired :: "time \<Rightarrow> 'w database \<Rightarrow> 'w database \<times> nat" where
  "delete_expired now db =
     (let kept = filter (\<lambda>r. now < row_expires_at r) (fst db)
      in ((kept, snd db), length (fst db) - length kept))"

subsection \<open>A recorded response stays\<close>

definition well_behaved :: "('w database \<Rightarrow> run_error + StoredResponse option \<times> 'w database) \<Rightarrow> bool" where
  \<comment> \<open>a mutation writes other tables, and its response was constructed\<close>
  "well_behaved m \<longleftrightarrow> (\<forall>db resp db'. m db = Inr (resp, db') \<longrightarrow> fst db' = fst db \<and>
     (\<forall>x. resp = Some x \<longrightarrow> (\<exists>status j. make_response status j = Inr x)))"

inductive idempotency_step :: "time \<Rightarrow> 'w database \<Rightarrow> 'w database \<Rightarrow> bool" for limit where
  \<comment> \<open>whatever any client does before \<open>limit\<close>\<close>
  execute: "well_behaved m \<Longrightarrow> now < limit \<Longrightarrow> execute a p k sha m ttl now db = Inr (db', r) \<Longrightarrow>
    idempotency_step limit db db'"
| delete: "now < limit \<Longrightarrow> delete_expired now db = (db', n) \<Longrightarrow> idempotency_step limit db db'"
| other: "fst db' = fst db \<Longrightarrow> idempotency_step limit db db'"

lemma well_behavedD:
  assumes "well_behaved m" and "m db = Inr (Some x, db')"
  shows "fst db' = fst db" and "\<exists>status j. make_response status j = Inr x"
  using assms unfolding well_behaved_def by blast+

lemma find_filter_kept: "find p xs = Some x \<Longrightarrow> q x \<Longrightarrow> find p (filter q xs) = Some x"
  by (induction xs) (auto split: if_splits)

lemma find_append_some: "find p xs = Some x \<Longrightarrow> find p (xs @ ys) = Some x"
  by (induction xs) (auto split: if_splits)

lemma find_append_none: "find p xs = None \<Longrightarrow> find p (xs @ ys) = find p ys"
  by (induction xs) (auto split: if_splits)

lemma other_key: "\<not> (a' = a \<and> p' = p \<and> k' = k) \<Longrightarrow> has_key a p k x \<Longrightarrow> \<not> has_key a' p' k' x"
  by (auto simp: has_key_def)

lemma insert_rowD: "insert_row r db = Inr db' \<Longrightarrow> fst db' = fst db @ [r]"
  by (auto simp: insert_row_def split: if_splits)

lemma fresh_cases:
  assumes "execute a p k sha m ttl now db = Inr (db', r)"
  obtains (replay) row where "find (has_key a p k) (fst db) = Some row" "now < row_expires_at row"
      "row_request_sha256 row = sha" "db' = db" "replay row = Inr r"
    | (fresh) x db1 db2 where "m db1 = Inr (Some x, db2)"
      "fst db1 = fst db \<and> find (has_key a p k) (fst db) = None \<or>
       fst db1 = filter (\<lambda>q. \<not> has_key a p k q) (fst db) \<and>
         (\<exists>row. find (has_key a p k) (fst db) = Some row \<and> row_expires_at row \<le> now)"
      "insert_row \<lparr>row_actor_scope = a, row_operation_scope = p, row_idempotency_key = k,
         row_request_sha256 = sha, row_status = status_code x, row_json = response_json x,
         row_created_at = now, row_expires_at = now + seconds ttl\<rparr> db2 = Inr db'"
      "r = \<lparr>response = x, replayed = False\<rparr>"
proof (cases "request_problem a p k sha = None \<and> \<not> ttl < 1")
  case False
  then show ?thesis using assms by (auto simp: execute_def split: option.splits)
next
  case True
  note e = assms [unfolded execute_def Let_def, simplified True, simplified]
  show ?thesis
  proof (cases "find (has_key a p k) (fst db)")
    case None
    then show ?thesis using e fresh [of db] by (auto simp: and_then_Inr split: option.splits)
  next
    case (Some row)
    then show ?thesis using e fresh [of "(filter (\<lambda>q. \<not> has_key a p k q) (fst db), snd db)"] replay [of row]
      by (auto simp: and_then_Inr split: option.splits if_splits)
  qed
qed

lemma live_row_stays:
  assumes "idempotency_step limit db db'" and "find (has_key a p k) (fst db) = Some row"
    and "limit \<le> row_expires_at row"
  shows "find (has_key a p k) (fst db') = Some row"
  using assms(1)
proof cases
  case (execute m now a' p' k' sha ttl r)
  show ?thesis using execute(3)
  proof (cases rule: fresh_cases)
    case (fresh x db1 db2)
    have other: "\<not> (a' = a \<and> p' = p \<and> k' = k)"
      using fresh(2) assms(2,3) execute(2) by auto
    have row: "has_key a p k row" using assms(2) by (auto simp: find_Some_iff)
    have "find (has_key a p k) (fst db1) = Some row"
      using fresh(2) assms(2) find_filter_kept [OF assms(2), of "\<lambda>q. \<not> has_key a' p' k' q"] other_key [OF other row]
      by auto
    moreover have "fst db2 = fst db1" using well_behavedD(1) [OF execute(1) fresh(1)] .
    ultimately show ?thesis using find_append_some insert_rowD [OF fresh(3)] by simp
  qed (use assms(2) in simp)
next
  case (delete now n)
  then have "fst db' = filter (\<lambda>r. now < row_expires_at r) (fst db)" by (auto simp: delete_expired_def Let_def)
  then show ?thesis using find_filter_kept [OF assms(2)] delete(1) assms(3) by simp
qed (use assms(2) in simp)

lemma live_row_remains:
  assumes "(idempotency_step limit)\<^sup>*\<^sup>* db db'" and "find (has_key a p k) (fst db) = Some row"
    and "limit \<le> row_expires_at row"
  shows "find (has_key a p k) (fst db') = Some row"
  using assms by (induction rule: rtranclp_induct) (auto intro: live_row_stays)

lemma sort_keys_idem: "sort_keys (sort_keys j) = sort_keys j"
proof (induction j)
  case (JObj kvs)
  let ?g = "\<lambda>kv. (fst kv, sort_keys (snd kv))"
  have "map ?g (sort_key fst (map ?g kvs)) = sort_key fst (map ?g kvs)"
    by (rule map_idI) (use JObj in fastforce)
  then show ?case by (simp add: sort_key_id_if_sorted)
qed simp_all

lemma reconstructed: "make_response status j = Inr x \<Longrightarrow> make_response (status_code x) (Some (response_json x)) = Inr x"
  by (auto simp: make_response_def sort_keys_idem split: if_splits option.splits)

subsection \<open>A retry is answered with the recorded response\<close>

text \<open>
  C29: once a mutation has run under an idempotency key and its response was recorded, a retry
  before the expiry is answered with that response and changes nothing: whatever other clients
  did meanwhile with other keys, expired rows or the same key, and whatever mutation the retry
  brings, which does not run. A retry under the same key for another request is an
  \<open>IdempotencyConflict\<close>, and \<open>lookup\<close> agrees with \<open>execute\<close>.
\<close>

theorem recorded_response_is_replayed:
  assumes "well_behaved m" and "execute a p k sha m ttl now db = Inr (db1, r)" and "\<not> replayed r"
    and "(idempotency_step limit)\<^sup>*\<^sup>* db1 db2" and "limit \<le> now + seconds ttl" and "later < limit"
    and "1 \<le> ttl'" and "is_sha256_hex other" and "other \<noteq> sha"
  shows "execute a p k sha m' ttl' later db2 = Inr (db2, \<lparr>response = response r, replayed = True\<rparr>) \<and>
    execute a p k other m' ttl' later db2 = Inl IdempotencyConflict \<and>
    lookup a p k sha later db2 = Inr (Some \<lparr>response = response r, replayed = True\<rparr>) \<and>
    lookup a p k other later db2 = Inl IdempotencyConflict"
proof -
  have ready: "request_problem a p k sha = None" using assms(2) by (auto simp: execute_def split: option.splits)
  then have ready': "request_problem a p k other = None"
    using assms(8) by (auto simp: request_problem_def split: option.splits if_splits)
  show ?thesis using assms(2)
  proof (cases rule: fresh_cases)
    case (replay row)
    then show ?thesis using assms(3) by (auto simp: replay_def and_then_Inr)
  next
    case (fresh x db0 db')
    let ?row = "\<lparr>row_actor_scope = a, row_operation_scope = p, row_idempotency_key = k,
      row_request_sha256 = sha, row_status = status_code x, row_json = response_json x,
      row_created_at = now, row_expires_at = now + seconds ttl\<rparr>"
    have "find (has_key a p k) (fst db0) = None"
      using fresh(2) by (auto simp: find_None_iff)
    moreover have "fst db1 = fst db0 @ [?row]"
      using insert_rowD [OF fresh(3)] well_behavedD(1) [OF assms(1) fresh(1)] by simp
    ultimately have "find (has_key a p k) (fst db1) = Some ?row"
      by (simp add: find_append_none has_key_def)
    then have row: "find (has_key a p k) (fst db2) = Some ?row"
      by (rule live_row_remains [OF assms(4)]) (use assms(5) in simp)
    obtain status j where "make_response status j = Inr x" using well_behavedD(2) [OF assms(1) fresh(1)] by blast
    then have "replay ?row = Inr \<lparr>response = response r, replayed = True\<rparr>"
      using fresh(4) by (simp add: replay_def reconstructed and_then_def)
    then show ?thesis using row ready ready' assms(5-7,9) by (simp add: execute_def lookup_def Let_def and_then_def)
  qed
qed

definition sample_mutation :: "nat database \<Rightarrow> run_error + StoredResponse option \<times> nat database" where
  \<comment> \<open>the rest of the database is a counter\<close>
  "sample_mutation db = Inr (Some \<lparr>status_code = 201, response_json = JBool True\<rparr>, (fst db, Suc (snd db)))"

lemma sample_mutation_ok: "well_behaved sample_mutation"
proof -
  have "make_response 201 (Some (JBool True)) = Inr \<lparr>status_code = 201, response_json = JBool True\<rparr>"
    by (simp add: make_response_def)
  then show ?thesis unfolding well_behaved_def sample_mutation_def by auto
qed

lemma recorded_response_is_replayed_witness:
  "\<exists>db1 r db2. execute ''user'' ''runs'' ''k'' (replicate 64 CHR ''a'') sample_mutation 60 0 ([], 0) = Inr (db1, r) \<and>
     snd db1 = (1::nat) \<and> delete_expired (seconds 4) db1 = (db2, 0) \<and>
     execute ''user'' ''runs'' ''k'' (replicate 64 CHR ''a'') sample_mutation 60 (seconds 5) db2 =
       Inr (db2, \<lparr>response = response r, replayed = True\<rparr>) \<and>
     execute ''user'' ''runs'' ''k'' (replicate 64 CHR ''b'') sample_mutation 60 (seconds 5) db2 = Inl IdempotencyConflict"
proof -
  let ?row = "\<lparr>row_actor_scope = ''user'', row_operation_scope = ''runs'', row_idempotency_key = ''k'',
    row_request_sha256 = replicate 64 CHR ''a'', row_status = 201, row_json = JBool True,
    row_created_at = 0, row_expires_at = 0 + seconds 60\<rparr>"
  let ?db = "([?row], 1::nat)" and ?r = "\<lparr>response = \<lparr>status_code = 201, response_json = JBool True\<rparr>, replayed = False\<rparr>"
  have hex: "is_sha256_hex (replicate 64 CHR ''a'')" "is_sha256_hex (replicate 64 CHR ''b'')" by code_simp+
  have e: "execute ''user'' ''runs'' ''k'' (replicate 64 CHR ''a'') sample_mutation 60 0 ([], 0) = Inr (?db, ?r)"
    using hex(1) by (simp add: execute_def request_problem_def validate_text_def sample_mutation_def insert_row_def
        and_then_def Let_def)
  have d: "delete_expired (seconds 4) ?db = (?db, 0)" by (simp add: delete_expired_def seconds_def)
  have "idempotency_step (seconds 6) ?db ?db"
    by (rule idempotency_step.delete [OF _ d]) (simp add: seconds_def)
  then have st: "(idempotency_step (seconds 6))\<^sup>*\<^sup>* ?db ?db" by (rule r_into_rtranclp)
  have "execute ''user'' ''runs'' ''k'' (replicate 64 CHR ''a'') sample_mutation 60 (seconds 5) ?db =
       Inr (?db, \<lparr>response = response ?r, replayed = True\<rparr>) \<and>
     execute ''user'' ''runs'' ''k'' (replicate 64 CHR ''b'') sample_mutation 60 (seconds 5) ?db = Inl IdempotencyConflict"
    using recorded_response_is_replayed [OF sample_mutation_ok e _ st _ _ _ hex(2), of "seconds 5" 60 sample_mutation]
    by (simp add: seconds_def)
  then show ?thesis using e d by (intro exI [of _ ?db] exI [of _ ?r]) simp
qed

end
