(* ===== verification/Patch_Guard.thy ===== *)
theory Patch_Guard
  imports Risk
begin

text \<open>
  \<open>security/patch_guard.py\<close>: a captured change set is checked against the scope its task was given.
  The patch is a list of bytes. The two limits of the constructor are parameters, the file tree and
  what links resolve to are those of \<open>Path_Policy\<close>.
\<close>

subsection \<open>Reports\<close>

datatype PatchGuardDecision = PASSED | REJECTED | QUARANTINED

fun PatchGuardDecision_value :: "PatchGuardDecision \<Rightarrow> string" where
  "PatchGuardDecision_value PASSED = ''passed''"
| "PatchGuardDecision_value PatchGuardDecision.REJECTED = ''rejected''"
| "PatchGuardDecision_value PatchGuardDecision.QUARANTINED = ''quarantined''"

record PatchGuardReport =
  guard_decision :: PatchGuardDecision
  report_patch_sha256 :: string
  checked_paths :: "string list"
  guard_reasons :: "string list"

definition FORBIDDEN_GIT_FILES :: "string list" where
  "FORBIDDEN_GIT_FILES = [''.gitattributes'', ''.gitmodules'']"

subsection \<open>Secrets in the patch\<close>

definition word_byte :: "char \<Rightarrow> bool" where
  "word_byte c \<longleftrightarrow> is_alnum c \<or> c = CHR ''_''"

abbreviation ends_word :: "char option \<Rightarrow> bool" where
  \<comment> \<open>\<open>\b\<close> next to a word byte: there is no byte on the other side, or it is not a word byte\<close>
  "ends_word c \<equiv> (case c of None \<Rightarrow> True | Some d \<Rightarrow> \<not> word_byte d)"

definition first_byte :: "string \<Rightarrow> char option" where
  "first_byte s = (case s of [] \<Rightarrow> None | c # _ \<Rightarrow> Some c)"

fun search :: "(char option \<Rightarrow> string \<Rightarrow> bool) \<Rightarrow> char option \<Rightarrow> string \<Rightarrow> bool" where
  \<comment> \<open>\<open>pattern.search\<close>: the pattern is told the byte before\<close>
  "search p before [] = p before []"
| "search p before (c # s) = (p before (c # s) \<or> search p (Some c) s)"

definition private_key :: "char option \<Rightarrow> string \<Rightarrow> bool" where
  "private_key before s \<longleftrightarrow>
     list_ex (\<lambda>k. startswith s (''-----BEGIN '' @ k @ ''PRIVATE KEY-----'')) [''RSA '', ''EC '', ''OPENSSH '', []]"

definition aws_key :: "char option \<Rightarrow> string \<Rightarrow> bool" where
  "aws_key before s \<longleftrightarrow> ends_word before \<and> startswith s ''AKIA'' \<and>
     (let t = drop 4 s in 16 \<le> length t \<and> list_all (\<lambda>c. is_upper c \<or> is_digit c) (take 16 t) \<and>
        ends_word (first_byte (drop 16 t)))"

definition github_token :: "char option \<Rightarrow> string \<Rightarrow> bool" where
  "github_token before s \<longleftrightarrow> ends_word before \<and>
     list_ex (\<lambda>k. startswith s [CHR ''g'', CHR ''h'', k, CHR ''_'']) ''pousr'' \<and>
     (let t = drop 4 s; n = length (takeWhile is_alnum t)
      in list_ex (\<lambda>k. k \<le> n \<and> ends_word (first_byte (drop k t))) [20 ..< 256])"

definition has_secret :: "string \<Rightarrow> bool" where
  "has_secret patch \<longleftrightarrow> list_ex (\<lambda>p. search p None patch) [private_key, aws_key, github_token]"

subsection \<open>The check\<close>

definition limit_reasons ::
  "(string \<Rightarrow> string) \<Rightarrow> nat \<Rightarrow> nat \<Rightarrow> ChangeSetManifest \<Rightarrow> string \<Rightarrow> string option \<Rightarrow> string list" where
  "limit_reasons H max_patch_bytes max_changed_paths m patch expected =
     report_if (expected \<noteq> None \<and> Some (H patch) \<noteq> expected) ''patch_hash_mismatch'' @
     report_if (max_patch_bytes < length patch) ''patch_size_limit_exceeded'' @
     report_if (max_changed_paths < length (changes m)) ''changed_path_limit_exceeded'' @
     report_if (changes m \<noteq> [] \<and> patch = []) ''nonempty_changeset_has_empty_patch'' @
     report_if (ignored_files_touched m \<noteq> []) ''ignored_files_touched''"

definition directory_reasons ::
  "file_tree \<Rightarrow> link_resolver \<Rightarrow> ChangeSetManifest \<Rightarrow> string \<Rightarrow> string list" where
  "directory_reasons fs resolves m d =
     (case validate_cleanup_path fs resolves d of
        Inl e \<Rightarrow> [''invalid_created_directory:'' @ d @ '':'' @ e]
      | Inr _ \<Rightarrow>
          report_if (\<not> list_ex (\<lambda>c. (action c = CREATED \<or> action c = RENAMED) \<and> startswith (path c) (d @ ''/''))
            (changes m)) (''empty_or_unowned_created_directory:'' @ d))"

definition change_paths :: "FileChange \<Rightarrow> string list" where
  "change_paths c = (case old_path c of None \<Rightarrow> [path c] | Some old \<Rightarrow> [old, path c])"

fun path_reasons :: "bool \<Rightarrow> string list \<Rightarrow> string list \<Rightarrow> string list" where
  \<comment> \<open>\<open>seen\<close> holds comparison keys\<close>
  "path_reasons nt seen [] = []"
| "path_reasons nt seen (p # ps) =
     report_if (comparison_key nt p \<in> set seen) (''duplicate_changed_path:'' @ p) @
     report_if (casefold (posix_name p) \<in> set FORBIDDEN_GIT_FILES) (''forbidden_git_control_file:'' @ p) @
     path_reasons nt (comparison_key nt p # seen) ps"

definition violation :: "string + 'a \<Rightarrow> bool \<Rightarrow> string \<Rightarrow> string option" where
  \<comment> \<open>a validation that raises, then a test that raises\<close>
  "violation v outside message =
     (case v of Inl e \<Rightarrow> Some e | Inr _ \<Rightarrow> (if outside then Some message else None))"

definition validate_action ::
  "bool \<Rightarrow> file_tree \<Rightarrow> link_resolver \<Rightarrow> ValidatedScope \<Rightarrow> FileChange \<Rightarrow> string option" where
  "validate_action nt fs resolves scope c =
     (let p = path c; key = comparison_key nt p;
          known = (\<lambda>k. k \<in> comparison_key nt ` set (existing_files scope));
          new = (\<lambda>k. k \<in> comparison_key nt ` set (new_files scope))
      in case action c of
        CREATED \<Rightarrow>
          violation (validate_captured_path fs resolves p False) (\<not> new key) (''new_scope_violation:'' @ p)
      | RENAMED \<Rightarrow>
          (case old_path c of
             None \<Rightarrow> Some (''rename_missing_source:'' @ p)
           | Some old \<Rightarrow>
               (if comparison_key nt old = key then Some (''case_or_unicode_only_rename:'' @ old @ '':'' @ p)
                else first_Some
                  [violation (validate_captured_path fs resolves old True) False [],
                   violation (validate_captured_path fs resolves p False) (\<not> known (comparison_key nt old))
                     (''rename_source_scope_violation:'' @ old),
                   (if new key then None else Some (''rename_destination_scope_violation:'' @ p))]))
      | _ \<Rightarrow>
          violation (validate_captured_path fs resolves p True) (\<not> known key) (''existing_scope_violation:'' @ p))"

definition protected_paths :: "FileChange \<Rightarrow> string list" where
  "protected_paths c = (if action c = RENAMED then change_paths c else [path c])"

definition privilege_reasons :: "bool \<Rightarrow> string list \<Rightarrow> FileChange \<Rightarrow> string list" where
  "privilege_reasons nt granted c =
     concat (map (\<lambda>p. report_if
         (eligible_actions p \<noteq> [] \<and>
          (p = path c \<and> action c \<in> {CREATED, RENAMED} \<or>
           comparison_key nt p \<notin> comparison_key nt ` set granted))
         (''privileged_resource_requires_consumed_grant:'' @ p)) (protected_paths c))"

fun change_reasons ::
  "bool \<Rightarrow> file_tree \<Rightarrow> link_resolver \<Rightarrow> ValidatedScope \<Rightarrow> string list \<Rightarrow> string list \<Rightarrow> FileChange list \<Rightarrow>
     string list" where
  "change_reasons nt fs resolves scope granted seen [] = []"
| "change_reasons nt fs resolves scope granted seen (c # cs) =
     path_reasons nt seen (change_paths c) @
     (case validate_action nt fs resolves scope c of None \<Rightarrow> [] | Some e \<Rightarrow> [e]) @
     privilege_reasons nt granted c @
     change_reasons nt fs resolves scope granted (map (comparison_key nt) (change_paths c) @ seen) cs"

definition check ::
  "(string \<Rightarrow> string) \<Rightarrow> bool \<Rightarrow> file_tree \<Rightarrow> link_resolver \<Rightarrow> nat \<Rightarrow> nat \<Rightarrow> ChangeSetManifest \<Rightarrow> string \<Rightarrow>
     string list \<Rightarrow> string list \<Rightarrow> string list \<Rightarrow> string option \<Rightarrow> PatchGuardReport" where
  "check H nt fs resolves max_patch_bytes max_changed_paths m patch allowed_existing allowed_new granted expected =
     (let report = (\<lambda>d rs. \<lparr>guard_decision = d, report_patch_sha256 = H patch,
            checked_paths = sort (changed_paths m @ ignored_files_touched m), guard_reasons = rs\<rparr>)
      in case validate_scope nt fs 100 allowed_existing allowed_new of
        Inl e \<Rightarrow>
          report (if contains_sub ''sensitive'' e then PatchGuardDecision.QUARANTINED else PatchGuardDecision.REJECTED)
            [''invalid_effective_scope:'' @ e]
      | Inr scope \<Rightarrow>
          (let rs = limit_reasons H max_patch_bytes max_changed_paths m patch expected @
                 concat (map (directory_reasons fs resolves m) (created_directories m)) @
                 change_reasons nt fs resolves scope granted [] (changes m)
           in if has_secret patch
              then report PatchGuardDecision.QUARANTINED (rs @ [''probable_secret_material_in_patch''])
              else if list_ex (contains_sub ''sensitive'') rs then report PatchGuardDecision.QUARANTINED (dedup rs)
              else if rs \<noteq> [] then report PatchGuardDecision.REJECTED (dedup rs)
              else report PASSED (dedup rs)))"

subsection \<open>What a passed patch may do\<close>

lemma path_reasons_Nil:
  "path_reasons nt seen ps = [] \<longleftrightarrow>
     distinct (map (comparison_key nt) ps) \<and> comparison_key nt ` set ps \<inter> set seen = {} \<and>
     (\<forall>p \<in> set ps. casefold (posix_name p) \<notin> set FORBIDDEN_GIT_FILES)"
  by (induction ps arbitrary: seen) (auto simp: image_iff)

definition acceptable :: "bool \<Rightarrow> file_tree \<Rightarrow> link_resolver \<Rightarrow> ValidatedScope \<Rightarrow> string list \<Rightarrow> FileChange \<Rightarrow> bool" where
  \<comment> \<open>no reason is given against the change itself\<close>
  "acceptable nt fs resolves scope granted c \<longleftrightarrow>
     (\<forall>p \<in> set (change_paths c). casefold (posix_name p) \<notin> set FORBIDDEN_GIT_FILES) \<and>
     validate_action nt fs resolves scope c = None \<and> privilege_reasons nt granted c = []"

lemma change_reasons_Nil:
  "change_reasons nt fs resolves scope granted seen cs = [] \<longleftrightarrow>
     distinct (map (comparison_key nt) (concat (map change_paths cs))) \<and>
     comparison_key nt ` set (concat (map change_paths cs)) \<inter> set seen = {} \<and>
     (\<forall>c \<in> set cs. acceptable nt fs resolves scope granted c)"
proof (induction cs arbitrary: seen)
  case (Cons c cs)
  then show ?case
    by (auto simp: path_reasons_Nil acceptable_def image_Un split: option.splits) blast+
qed simp

lemma check_passed:
  assumes "guard_decision (check H nt fs resolves mb mc m patch ex nw granted expected) = PASSED"
  obtains scope where "validate_scope nt fs 100 ex nw = Inr scope"
    and "limit_reasons H mb mc m patch expected = []" and "\<not> has_secret patch"
    and "\<forall>d \<in> set (created_directories m). directory_reasons fs resolves m d = []"
    and "change_reasons nt fs resolves scope granted [] (changes m) = []"
  using assms unfolding check_def Let_def
  by (auto split: sum.splits if_splits)

lemma check_limits:
  assumes "guard_decision (check H nt fs resolves mb mc m patch ex nw granted expected) = PASSED"
    and "mb \<le> mb'" and "mc \<le> mc'"
  shows "guard_decision (check H nt fs resolves mb' mc' m patch ex nw granted expected) = PASSED"
proof -
  have "limit_reasons H mb' mc' m patch expected = []" if "limit_reasons H mb mc m patch expected = []"
    using that assms(2,3) by (auto simp: limit_reasons_def guard_simps)
  then show ?thesis using assms(1) unfolding check_def Let_def by (auto split: sum.splits if_splits)
qed

lemma acceptable_scoped:
  assumes "acceptable nt fs resolves scope granted c"
  shows "(case action c of
      CREATED \<Rightarrow> comparison_key nt (path c) \<in> comparison_key nt ` set (new_files scope)
    | RENAMED \<Rightarrow> comparison_key nt (path c) \<in> comparison_key nt ` set (new_files scope) \<and>
        (\<exists>old. old_path c = Some old \<and> comparison_key nt old \<in> comparison_key nt ` set (existing_files scope))
    | _ \<Rightarrow> comparison_key nt (path c) \<in> comparison_key nt ` set (existing_files scope))"
    and "p \<in> set (protected_paths c) \<Longrightarrow> eligible_actions p \<noteq> [] \<Longrightarrow>
      comparison_key nt p \<in> comparison_key nt ` set granted \<and> (p = path c \<longrightarrow> action c \<notin> {CREATED, RENAMED})"
proof -
  have "validate_action nt fs resolves scope c = None" and q: "privilege_reasons nt granted c = []"
    using assms by (simp_all add: acceptable_def)
  then show "(case action c of
      CREATED \<Rightarrow> comparison_key nt (path c) \<in> comparison_key nt ` set (new_files scope)
    | RENAMED \<Rightarrow> comparison_key nt (path c) \<in> comparison_key nt ` set (new_files scope) \<and>
        (\<exists>old. old_path c = Some old \<and> comparison_key nt old \<in> comparison_key nt ` set (existing_files scope))
    | _ \<Rightarrow> comparison_key nt (path c) \<in> comparison_key nt ` set (existing_files scope))"
    by (cases "action c")
      (simp_all add: validate_action_def Let_def violation_def split: option.splits sum.splits if_splits)
  show "comparison_key nt p \<in> comparison_key nt ` set granted \<and> (p = path c \<longrightarrow> action c \<notin> {CREATED, RENAMED})"
    if "p \<in> set (protected_paths c)" "eligible_actions p \<noteq> []"
    using q that by (auto simp: privilege_reasons_def guard_simps simp del: image_iff split: if_splits)
qed

text \<open>
  C23: a patch that passes the guard is confined to what its task was granted. Its bytes have the
  recorded hash, respect the limits and contain no secret the guard knows; the scope was
  accepted, and in the tree of the shared repository its existing files are \<open>granted_existing\<close>, its
  new files \<open>granted_new\<close> (dangling reparse points are not seen, as \<open>Path_Policy\<close> says); no two changed names compare equal on the host; every file that is
  modified, deleted or renamed away is one of the granted existing files, every file that is created
  or renamed to is one of the granted new ones; no Git control file is named; and a dependency
  manifest or project configuration is touched only under a consumed grant and never created.
\<close>

theorem passed_patch_is_confined:
  assumes "guard_decision (check H nt fs resolves mb mc m patch ex nw granted expected) = PASSED"
  shows "(\<forall>h. expected = Some h \<longrightarrow> H patch = h) \<and> length patch \<le> mb \<and> length (changes m) \<le> mc \<and>
    ignored_files_touched m = [] \<and> \<not> has_secret patch \<and>
    distinct (map (comparison_key nt) (concat (map change_paths (changes m)))) \<and>
    (\<exists>scope. validate_scope nt fs 100 ex nw = Inr scope \<and>
      list_all (granted_existing fs) (existing_files scope) \<and> list_all (granted_new fs) (new_files scope) \<and>
      list_all (\<lambda>c.
        (case action c of
           CREATED \<Rightarrow> comparison_key nt (path c) \<in> comparison_key nt ` set (new_files scope)
         | RENAMED \<Rightarrow> comparison_key nt (path c) \<in> comparison_key nt ` set (new_files scope) \<and>
             (\<exists>old. old_path c = Some old \<and> comparison_key nt old \<in> comparison_key nt ` set (existing_files scope))
         | _ \<Rightarrow> comparison_key nt (path c) \<in> comparison_key nt ` set (existing_files scope)) \<and>
        list_all (\<lambda>p. casefold (posix_name p) \<notin> set FORBIDDEN_GIT_FILES) (change_paths c) \<and>
        list_all (\<lambda>p. eligible_actions p = [] \<or>
          comparison_key nt p \<in> comparison_key nt ` set granted \<and> (p \<noteq> path c \<or> action c \<notin> {CREATED, RENAMED}))
          (protected_paths c)) (changes m))"
  using assms
proof (rule check_passed)
  fix scope
  assume s: "validate_scope nt fs 100 ex nw = Inr scope" and l: "limit_reasons H mb mc m patch expected = []"
    and n: "\<not> has_secret patch" and c: "change_reasons nt fs resolves scope granted [] (changes m) = []"
  have a: "acceptable nt fs resolves scope granted c" if "c \<in> set (changes m)" for c
    using c that by (simp add: change_reasons_Nil)
  have "list_all (granted_existing fs) (existing_files scope)" "list_all (granted_new fs) (new_files scope)"
    using validate_scope_spec [OF s] by (simp_all add: list_all_iff)
  moreover have "list_all (\<lambda>p. casefold (posix_name p) \<notin> set FORBIDDEN_GIT_FILES) (change_paths c)"
    if "c \<in> set (changes m)" for c
    using a [OF that] by (simp add: acceptable_def list_all_iff)
  moreover have "list_all (\<lambda>p. eligible_actions p = [] \<or>
      comparison_key nt p \<in> comparison_key nt ` set granted \<and> (p \<noteq> path c \<or> action c \<notin> {CREATED, RENAMED}))
      (protected_paths c)" if "c \<in> set (changes m)" for c
    unfolding list_all_iff using acceptable_scoped(2) [OF a [OF that]] by blast
  moreover have "distinct (map (comparison_key nt) (concat (map change_paths (changes m))))"
    using c by (simp add: change_reasons_Nil)
  moreover have "(\<forall>h. expected = Some h \<longrightarrow> H patch = h) \<and> length patch \<le> mb \<and> length (changes m) \<le> mc \<and>
      ignored_files_touched m = []"
    using l by (auto simp: limit_reasons_def guard_simps)
  ultimately show ?thesis
    using s n acceptable_scoped(1) [OF a] by (intro conjI exI [of _ scope]) (simp_all add: list_all_iff)
qed

lemma passed_patch_is_confined_witness:
  "guard_decision (check (\<lambda>_. ''h'') True sample_tree (\<lambda>_. (False, True)) 100 5
      (sample_manifest [''a'']) ''diff'' [''a''] [''b''] [] (Some ''h'')) = PASSED \<and>
   distinct (map (comparison_key True) (concat (map change_paths (changes (sample_manifest [''a''])))))"
proof -
  have c: "guard_decision (check (\<lambda>_. ''h'') True sample_tree (\<lambda>_. (False, True)) 100 5
      (sample_manifest [''a'']) ''diff'' [''a''] [''b''] [] (Some ''h'')) = PASSED"
    by code_simp
  then show ?thesis using passed_patch_is_confined [OF c] by blast
qed

end
