(* ===== verification/Actions.thy ===== *)
theory Actions
  imports Main
begin

text \<open>
  Code that runs several transactions and commands in a row. What it has done stays done when a later
  call raises, so an action maps a state to a state and a result or an error. The locale \<open>actions\<close>
  derives which relation holds between the states before and after an action, however it ends.
\<close>

type_synonym ('s, 'e, 'a) action = "'s \<Rightarrow> 's \<times> ('e + 'a)"

definition job_then :: "('s, 'e, 'a) action \<Rightarrow> ('a \<Rightarrow> ('s, 'e, 'b) action) \<Rightarrow> ('s, 'e, 'b) action" where
  "job_then m k h = (case m h of (h1, Inl e) \<Rightarrow> (h1, Inl e) | (h1, Inr x) \<Rightarrow> k x h1)"

definition reading :: "('s \<Rightarrow> 'e + 'a) \<Rightarrow> ('s, 'e, 'a) action" where
  "reading f h = (h, f h)"

definition committing :: "('s \<Rightarrow> 'e + ('s \<times> 'a)) \<Rightarrow> ('s, 'e, 'a) action" where
  \<comment> \<open>a transaction: one that raises changes nothing\<close>
  "committing f h = (case f h of Inl e \<Rightarrow> (h, Inl e) | Inr (h1, x) \<Rightarrow> (h1, Inr x))"

definition on_error :: "('s, 'e, 'a) action \<Rightarrow> ('e \<Rightarrow> ('s, 'e, unit) action) \<Rightarrow> ('s, 'e, 'a) action" where
  \<comment> \<open>\<open>except BaseException as error: \<dots>; raise\<close>, where the handler may raise another error\<close>
  "on_error m k h = (case m h of
     (h1, Inr x) \<Rightarrow> (h1, Inr x)
   | (h1, Inl e) \<Rightarrow> (case k e h1 of (h2, Inl e2) \<Rightarrow> (h2, Inl e2) | (h2, Inr _) \<Rightarrow> (h2, Inl e)))"

definition on_fst :: "('s, 'e, 'a) action \<Rightarrow> ('s \<times> 't, 'e, 'a) action" where
  "on_fst m w = (case m (fst w) of (s, r) \<Rightarrow> ((s, snd w), r))"

definition on_snd :: "('t, 'e, 'a) action \<Rightarrow> ('s \<times> 't, 'e, 'a) action" where
  "on_snd m w = (case m (snd w) of (t, r) \<Rightarrow> ((fst w, t), r))"

subsection \<open>How an action ended\<close>

named_theorems job_simps

lemma job_then_simps [job_simps]:
  "job_then m k h = (h', Inl e) \<longleftrightarrow> m h = (h', Inl e) \<or> (\<exists>h1 x. m h = (h1, Inr x) \<and> k x h1 = (h', Inl e))"
  "job_then m k h = (h', Inr y) \<longleftrightarrow> (\<exists>h1 x. m h = (h1, Inr x) \<and> k x h1 = (h', Inr y))"
  by (auto simp: job_then_def split: prod.split sum.split)

lemma reading_simps [job_simps]:
  "reading f h = (h', r) \<longleftrightarrow> h' = h \<and> f h = r"
  by (auto simp: reading_def)

lemma committing_simps [job_simps]:
  "committing f h = (h', Inr x) \<longleftrightarrow> f h = Inr (h', x)"
  "committing f h = (h', Inl e) \<longleftrightarrow> h' = h \<and> f h = Inl e"
  by (auto simp: committing_def split: sum.split)

lemma on_error_simps [job_simps]:
  "on_error m k h = (h', Inr x) \<longleftrightarrow> m h = (h', Inr x)"
  "on_error m k h = (h', Inl e) \<longleftrightarrow> (\<exists>h1 e1. m h = (h1, Inl e1) \<and>
     (k e1 h1 = (h', Inl e) \<or> e = e1 \<and> (\<exists>u. k e1 h1 = (h', Inr u))))"
  by (auto simp: on_error_def split: prod.split sum.split)

lemma on_part_simps [job_simps]:
  "on_fst m (s, t) = ((s', t'), r) \<longleftrightarrow> m s = (s', r) \<and> t' = t"
  "on_snd n (s, t) = ((s', t'), r) \<longleftrightarrow> n t = (t', r) \<and> s' = s"
  by (auto simp: on_fst_def on_snd_def split: prod.split)

subsection \<open>An action keeps to a relation\<close>

definition keeps_to :: "('s \<Rightarrow> 's \<Rightarrow> bool) \<Rightarrow> ('s, 'e, 'a) action \<Rightarrow> bool" where
  \<comment> \<open>whether it returns or raises\<close>
  "keeps_to R m \<longleftrightarrow> (\<forall>h. R h (fst (m h)))"

locale actions =
  fixes R :: "'s \<Rightarrow> 's \<Rightarrow> bool"
  assumes still: "R h h"
    and onward: "R h h1 \<Longrightarrow> R h1 h2 \<Longrightarrow> R h h2"
begin

lemma reading: "keeps_to R (reading f)"
  by (simp add: keeps_to_def reading_def still)

lemma committing: "(\<And>h h1 x. f h = Inr (h1, x) \<Longrightarrow> R h h1) \<Longrightarrow> keeps_to R (committing f)"
  by (auto simp: keeps_to_def committing_def still split: sum.split prod.split)

lemma then_job: "keeps_to R m \<Longrightarrow> (\<And>x. keeps_to R (k x)) \<Longrightarrow> keeps_to R (job_then m k)"
  unfolding keeps_to_def job_then_def
  by (auto split: prod.split sum.split intro: still onward) (metis fst_conv onward)

lemma on_error: "keeps_to R m \<Longrightarrow> (\<And>e. keeps_to R (k e)) \<Longrightarrow> keeps_to R (on_error m k)"
  unfolding keeps_to_def on_error_def
  by (auto split: prod.split sum.split) (metis fst_conv onward)+

lemma if_job: "keeps_to R m \<Longrightarrow> keeps_to R n \<Longrightarrow> keeps_to R (if b then m else n)"
  by simp

lemma split_job: "(\<And>x y. keeps_to R (k x y)) \<Longrightarrow> keeps_to R (case p of (x, y) \<Rightarrow> k x y)"
  by (cases p) simp

lemma option_job: "keeps_to R m \<Longrightarrow> (\<And>x. keeps_to R (k x)) \<Longrightarrow> keeps_to R (case p of None \<Rightarrow> m | Some x \<Rightarrow> k x)"
  by (cases p) simp_all

end

end
