(* ===== verification/Guards.thy ===== *)
theory Guards
  imports Patch_Guard Hub_Safety Actions
begin

text \<open>
  \<open>workflow/handlers/guards.py\<close>: the handlers of patch guards, command guards, tests and risk
  classifiers, as actions on the store. The verified documents and patches, the files behind
  reports, the tree of the shared repository and the sandbox in which a test runs are read through
  \<open>GuardTools\<close>.
\<close>

type_synonym 'a job = "(HubStore, run_error, 'a) action"

subsection \<open>What the handlers read\<close>

record TestRunResult =
  run_template_id :: string
  run_argv :: "string list"
  exit_code :: "int option"
  timed_out :: bool
  output_text :: string
  output_truncated :: bool
  output_limit_exceeded :: bool
  duration_ms :: int

definition run_passed :: "TestRunResult \<Rightarrow> bool" where
  "run_passed r \<longleftrightarrow> \<not> timed_out r \<and> \<not> output_limit_exceeded r \<and> exit_code r = Some 0"

datatype restored = RestoredClean | RestoredChanged | IntegrityFailed
  \<comment> \<open>of \<open>capture_and_restore\<close>: whether \<open>_workspace_changed\<close>, or a \<open>WorkspaceTransactionError\<close>\<close>

record SandboxRun =
  operation :: "string + TestRunResult" \<comment> \<open>the result, or the name of the exception the runner raised\<close>
  verification :: restored

record StoredReport =
  stored_ref :: ArtifactRef
  stored_task :: "string option"
  stored_redacted :: bool
  stored_content :: string

record GuardTools =
  stored_manifest :: "ChangeSetRow \<Rightarrow> run_error + ChangeSetManifest" \<comment> \<open>of the verified document\<close>
  stored_patch :: "ChangeSetRow \<Rightarrow> run_error + string" \<comment> \<open>the verified bytes\<close>
  create_report :: "string \<Rightarrow> string \<Rightarrow> string \<Rightarrow> string \<Rightarrow> HubStore \<Rightarrow> run_error + (HubStore \<times> ArtifactRef)"
    \<comment> \<open>\<open>ArtifactRepository.create\<close>: id, task, type, content\<close>
  find_report :: "string \<Rightarrow> string \<Rightarrow> HubStore \<Rightarrow> StoredReport option"
    \<comment> \<open>\<open>get_and_verify\<close>: id, task\<close>
  on_windows :: bool
  shared_tree :: file_tree
  shared_links :: link_resolver
  sandbox :: "ChangeSetRow \<Rightarrow> string list \<Rightarrow> HubStore \<Rightarrow> HubStore \<times> (run_error + SandboxRun)"
    \<comment> \<open>the validation repository of \<open>_run_command_test\<close> under its workspace lease\<close>

subsection \<open>The source of a guard\<close>

definition source_task ::
  "GuardTools \<Rightarrow> NodeExecutionContext \<Rightarrow> (WorkflowNode \<times> ChangeSetRow \<times> ChangeSetManifest) job" where
  \<comment> \<open>\<open>_source\<close>\<close>
  "source_task tools ctx = reading (\<lambda>h.
     case source_node_id (ctx_node ctx) of
       None \<Rightarrow> Inl (PyError ValueError)
     | Some i \<Rightarrow>
         (case find (\<lambda>n. node_id n = i) (compiled_nodes (compiled_snapshot (ctx_run ctx))) of
            None \<Rightarrow> Inl (PyError ValueError)
          | Some source \<Rightarrow>
              (if node_type source \<noteq> AGENT_TASK then Inl (PyError ValueError)
               else case (if workflow_run_id (run (hub_run h)) = workflow_run_id (ctx_run ctx)
                          then change_set_for_source h i else None) of
                 None \<Rightarrow> Inl RecordNotFound
               | Some (c, t) \<Rightarrow> and_then (stored_manifest tools c) (\<lambda>m. Inr (source, c, m)))))"

definition report ::
  "(string \<Rightarrow> string) \<Rightarrow> GuardTools \<Rightarrow> NodeExecutionContext \<Rightarrow> ChangeSetRow \<Rightarrow> string \<Rightarrow> string \<Rightarrow> bool \<Rightarrow> json \<Rightarrow>
     ArtifactRef job" where
  \<comment> \<open>\<open>_report\<close> with the construction of its model, which may fail; a report that exists already
      under the same id, with the same content, is taken instead\<close>
  "report H tools ctx c name type constructible j h =
     (if \<not> constructible then (h, Inl (PyError ValidationError))
      else let content = dumps j; task = change_set_task_id c;
             i = name @ ''-'' @ take 24 (H (name @ [CHR 0x00] @ node_run_id (ctx_node_run ctx) @
               [CHR 0x00] @ content))
        in case create_report tools i task type content h of
             Inr (h1, ref) \<Rightarrow> (h1, Inr ref)
           | Inl e \<Rightarrow>
               (case find_report tools i task h of
                  None \<Rightarrow> (h, Inl e)
                | Some s \<Rightarrow>
                    (if stored_task s \<noteq> Some task \<or> ref_artifact_type (stored_ref s) \<noteq> type \<or>
                       \<not> stored_redacted s \<or> stored_content s \<noteq> content
                     then (h, Inl e) else (h, Inr (stored_ref s)))))"

definition finished ::
  "NodeRunStatus \<Rightarrow> NodeOutcome \<Rightarrow> string option \<Rightarrow> string \<Rightarrow> ArtifactRef \<Rightarrow> NodeHandlerResult" where
  "finished s oc code summary ref =
     \<lparr>hr_status = s, hr_outcome = oc, hr_summary = summary, artifact_refs = [ref], hr_error_code = code\<rparr>"

definition guard_success :: "string \<Rightarrow> ArtifactRef \<Rightarrow> NodeHandlerResult" where
  "guard_success = finished NodeRunStatus.COMPLETED NodeOutcome.SUCCESS None"

definition guard_failed :: "string \<Rightarrow> string \<Rightarrow> ArtifactRef \<Rightarrow> NodeHandlerResult" where
  "guard_failed code = finished NodeRunStatus.FAILED NodeOutcome.FAILURE (Some code)"

definition guard_blocked :: "string \<Rightarrow> string \<Rightarrow> ArtifactRef \<Rightarrow> NodeHandlerResult" where
  "guard_blocked code = finished NodeRunStatus.BLOCKED_BY_GUARD NodeOutcome.BLOCKED (Some code)"

definition move ::
  "ChangeSetRow \<Rightarrow> ChangeSetStatus \<Rightarrow> ChangeSetStatus \<Rightarrow> MasterLease \<Rightarrow> string option \<Rightarrow>
     SecuritySeverity option \<Rightarrow> time \<Rightarrow> unit job" where
  \<comment> \<open>\<open>transition\<close> of the change set repository, without a workspace lease\<close>
  "move c expected target lease reason sev now = committing (\<lambda>h.
     and_then (transition (change_set_id c) expected target lease None reason sev now h) (\<lambda>h1. Inr (h1, ())))"

definition joined :: "string list \<Rightarrow> string \<Rightarrow> string" where
  \<comment> \<open>\<open>";".join(reasons)[:1_000] or default\<close>\<close>
  "joined rs default_text = (let s = take 1000 (join_with '';'' rs) in if s = [] then default_text else s)"

subsection \<open>The patch guard\<close>

definition consumed_resources :: "HubStore \<Rightarrow> string \<Rightarrow> string list" where
  \<comment> \<open>\<open>get_grant_for_task\<close>, if the grant is consumed\<close>
  "consumed_resources h task =
     (case find (\<lambda>e. grant_target_task_id (grant e) = task \<and>
          (case find_request h (grant_request_id (grant e)) of
             None \<Rightarrow> False | Some q \<Rightarrow> find_node_run (hub_run h) (request_node_run_id (request q)) \<noteq> None))
        (capability_grants h) of
        None \<Rightarrow> []
      | Some e \<Rightarrow>
          (if consumed_at (grant e) \<noteq> None \<and> consumed_fencing_token (grant e) \<noteq> None
           then [grant_resource (grant e)] else []))"

definition patch_report ::
  "(string \<Rightarrow> string) \<Rightarrow> GuardTools \<Rightarrow> WorkflowNode \<Rightarrow> ChangeSetRow \<Rightarrow> ChangeSetManifest \<Rightarrow> string \<Rightarrow>
     string list \<Rightarrow> PatchGuardReport" where
  "patch_report H tools source c m patch granted =
     check H (on_windows tools) (shared_tree tools) (shared_links tools) 20971520 500 m patch
       (dedup (opt_list (effective_allowed_files source) @ granted)) (opt_list (effective_new_files source))
       granted (Some (change_set_patch c))"

definition patch_artifact_ok :: "ChangeSetRow \<Rightarrow> PatchGuardReport \<Rightarrow> bool" where
  \<comment> \<open>the fields of \<open>PatchGuardArtifact\<close>\<close>
  "patch_artifact_ok c r \<longleftrightarrow> 1 \<le> length (change_set_id c) \<and> length (change_set_id c) \<le> 128 \<and>
     is_sha256_hex (report_patch_sha256 r) \<and> length (checked_paths r) \<le> 500 \<and> length (guard_reasons r) \<le> 500"

definition patch_artifact_json :: "ChangeSetRow \<Rightarrow> PatchGuardReport \<Rightarrow> json" where
  "patch_artifact_json c r = JObj
     [(''change_set_id'', JStr (change_set_id c)), (''decision'', JStr (PatchGuardDecision_value (guard_decision r))),
      (''patch_sha256'', JStr (report_patch_sha256 r)), (''checked_paths'', JArr (map JStr (checked_paths r))),
      (''reasons'', JArr (map JStr (guard_reasons r)))]"

definition patch_verdict ::
  "ChangeSetRow \<Rightarrow> MasterLease \<Rightarrow> time \<Rightarrow> PatchGuardReport \<Rightarrow> ArtifactRef \<Rightarrow> NodeHandlerResult job" where
  "patch_verdict c lease now r ref =
     (if guard_decision r = PASSED
      then job_then (move c ChangeSetStatus.CAPTURED ChangeSetStatus.GUARD_PASSED lease None None now)
        (\<lambda>_. reading (\<lambda>_. Inr (guard_success ''PatchGuard accepted the canonical ChangeSet.'' ref)))
      else job_then
        (if guard_decision r = PatchGuardDecision.QUARANTINED
         then move c ChangeSetStatus.CAPTURED ChangeSetStatus.QUARANTINED lease
           (Some (joined (guard_reasons r) ''PatchGuard rejected the ChangeSet'')) (Some CRITICAL) now
         else move c ChangeSetStatus.CAPTURED ChangeSetStatus.GUARD_REJECTED lease
           (Some (joined (guard_reasons r) ''PatchGuard rejected the ChangeSet'')) (Some HIGH) now)
        (\<lambda>_. reading (\<lambda>_. Inr (guard_blocked ''patch_guard_rejected'' ''PatchGuard rejected the ChangeSet.'' ref))))"

definition patch_guard_handler ::
  "(string \<Rightarrow> string) \<Rightarrow> GuardTools \<Rightarrow> NodeExecutionContext \<Rightarrow> MasterLease \<Rightarrow> time \<Rightarrow> NodeHandlerResult job" where
  \<comment> \<open>the constructor of \<open>PathPolicy\<close> asks for a directory\<close>
  "patch_guard_handler H tools ctx lease now =
     job_then (source_task tools ctx) (\<lambda>(source, c, m).
     job_then (reading (\<lambda>h. and_then (stored_patch tools c) (\<lambda>patch.
       if shared_tree tools [] \<noteq> Some Directory then Inl (PyError ValueError)
       else Inr (patch_report H tools source c m patch (consumed_resources h (change_set_task_id c)))))) (\<lambda>r.
     job_then (report H tools ctx c ''patch-guard'' ''report'' (patch_artifact_ok c r) (patch_artifact_json c r)) (\<lambda>ref.
     patch_verdict c lease now r ref)))"

subsection \<open>The command guard\<close>

definition successors :: "NodeExecutionContext \<Rightarrow> string list" where
  "successors ctx = map to_node (filter (\<lambda>e. from_node e = node_id (ctx_node ctx))
     (compiled_edges (compiled_snapshot (ctx_run ctx))))"

definition successor_test :: "NodeExecutionContext \<Rightarrow> run_error + WorkflowNode" where
  "successor_test ctx =
     (case filter (\<lambda>n. node_id n \<in> set (successors ctx) \<and> node_type n = TEST \<and>
         source_node_id n = source_node_id (ctx_node ctx)) (compiled_nodes (compiled_snapshot (ctx_run ctx))) of
        [n] \<Rightarrow> Inr n
      | _ \<Rightarrow> Inl (PyError ValueError))"

definition guarded_command :: "WorkflowNode \<Rightarrow> WorkflowNode \<Rightarrow> ApprovedCommand option \<times> string option" where
  \<comment> \<open>the variables \<open>approved\<close> and \<open>reason\<close> after the \<open>try\<close>: when the command is outside the scope of
      the task, \<open>approved\<close> has been assigned already\<close>
  "guarded_command source test =
     (case test_argv test of
        None \<Rightarrow> (None, Some ''compiled test argv is missing'')
      | Some av \<Rightarrow>
          (case validate av of
             Inl e \<Rightarrow> (None, Some e)
           | Inr a \<Rightarrow>
               (if argv a \<notin> set (opt_list (effective_allowed_commands source))
                then (Some a, Some ''compiled test argv is outside the source task command scope'')
                else (Some a, None))))"

definition command_argv :: "WorkflowNode \<Rightarrow> ApprovedCommand option \<Rightarrow> string list" where
  "command_argv test approved = (case approved of Some a \<Rightarrow> argv a | None \<Rightarrow> opt_list (test_argv test))"

definition command_artifact_ok ::
  "ChangeSetRow \<Rightarrow> WorkflowNode \<Rightarrow> ApprovedCommand option \<Rightarrow> string option \<Rightarrow> bool" where
  "command_artifact_ok c test approved reason \<longleftrightarrow>
     1 \<le> length (change_set_id c) \<and> length (change_set_id c) \<le> 128 \<and>
     (case approved of None \<Rightarrow> True | Some a \<Rightarrow> length (template_id a) \<le> 64) \<and>
     length (command_argv test approved) \<le> 64 \<and> length (opt_list reason) \<le> 1000"

definition command_artifact_json ::
  "ChangeSetRow \<Rightarrow> WorkflowNode \<Rightarrow> ApprovedCommand option \<Rightarrow> string option \<Rightarrow> json" where
  "command_artifact_json c test approved reason = JObj
     [(''change_set_id'', JStr (change_set_id c)), (''approved'', JBool (approved \<noteq> None)),
      (''template_id'', opt_json (\<lambda>a. JStr (template_id a)) approved),
      (''argv'', JArr (map JStr (command_argv test approved))), (''reason'', opt_json JStr reason)]"

definition command_verdict ::
  "ChangeSetRow \<Rightarrow> MasterLease \<Rightarrow> time \<Rightarrow> ApprovedCommand option \<times> string option \<Rightarrow> ArtifactRef \<Rightarrow>
     NodeHandlerResult job" where
  "command_verdict c lease now out ref =
     (if fst out \<noteq> None
      then reading (\<lambda>_. if change_set_status c \<noteq> ChangeSetStatus.GUARD_PASSED then Inl ConcurrencyConflict
        else Inr (guard_success ''CommandGuard accepted the compiled test argv.'' ref))
      else job_then (move c ChangeSetStatus.GUARD_PASSED ChangeSetStatus.TEST_FAILED lease
          (Some (case snd out of Some (x # xs) \<Rightarrow> x # xs | _ \<Rightarrow> ''CommandGuard rejected the compiled test argv''))
          (Some HIGH) now)
        (\<lambda>_. reading (\<lambda>_. Inr (guard_blocked ''command_guard_rejected''
           ''CommandGuard rejected the compiled test argv.'' ref))))"

definition command_guard_handler ::
  "(string \<Rightarrow> string) \<Rightarrow> GuardTools \<Rightarrow> NodeExecutionContext \<Rightarrow> MasterLease \<Rightarrow> time \<Rightarrow> NodeHandlerResult job" where
  "command_guard_handler H tools ctx lease now =
     job_then (source_task tools ctx) (\<lambda>(source, c, m).
     job_then (reading (\<lambda>_. successor_test ctx)) (\<lambda>test.
     let out = guarded_command source test in
     job_then (report H tools ctx c ''command-guard'' ''report'' (command_artifact_ok c test (fst out) (snd out))
       (command_artifact_json c test (fst out) (snd out))) (\<lambda>ref.
     command_verdict c lease now out ref)))"

subsection \<open>Tests\<close>

definition DOC_SUFFIXES :: "string list" where
  "DOC_SUFFIXES = [''.md'', ''.mdx'', ''.rst'', ''.txt'']"

definition docs_static_reasons :: "ChangeSetManifest \<Rightarrow> string list" where
  "docs_static_reasons m =
     dedup (concat (map (\<lambda>c.
         concat (map (\<lambda>p. report_if (casefold (posix_suffix p) \<notin> set DOC_SUFFIXES)
           (''non_documentation_path:'' @ p)) (change_paths c)) @
         report_if (binary c) (''binary_documentation_change:'' @ path c)) (changes m)) @
       report_if (changes m = []) ''documentation_changeset_empty'')"

definition run_reasons :: "SandboxRun \<Rightarrow> TestRunResult option \<times> string list" where
  \<comment> \<open>the end of \<open>_run_command_test\<close>\<close>
  "run_reasons s =
     (let result = (case operation s of Inl _ \<Rightarrow> None | Inr r \<Rightarrow> Some r) in
      case verification s of
        IntegrityFailed \<Rightarrow> (result, [''test_workspace_integrity_failed''])
      | RestoredChanged \<Rightarrow> (result, [''test_mutated_workspace''])
      | RestoredClean \<Rightarrow>
          (case operation s of
             Inl name \<Rightarrow> (None, [''test_runner_error:'' @ name])
           | Inr r \<Rightarrow>
               (if output_limit_exceeded r then (Some r, [''test_output_limit_exceeded''])
                else if timed_out r then (Some r, [''test_timeout''])
                else if exit_code r \<noteq> Some 0
                then (Some r, [''test_exit_code:'' @ (case exit_code r of None \<Rightarrow> ''None'' | Some k \<Rightarrow> int_str k)])
                else (Some r, []))))"

definition test_run ::
  "GuardTools \<Rightarrow> NodeExecutionContext \<Rightarrow> ChangeSetRow \<Rightarrow> ChangeSetManifest \<Rightarrow> (TestRunResult option \<times> string list) job" where
  "test_run tools ctx c m =
     (case test_kind (ctx_node ctx) of
        Some DOCS_STATIC \<Rightarrow> reading (\<lambda>_. Inr (None, docs_static_reasons m))
      | Some COMMAND \<Rightarrow>
          (case test_argv (ctx_node ctx) of
             None \<Rightarrow> reading (\<lambda>_. Inr (None, [''compiled_test_argv_missing'']))
           | Some av \<Rightarrow>
               job_then (reading (\<lambda>_. stored_patch tools c)) (\<lambda>_.
               job_then (sandbox tools c av) (\<lambda>s. reading (\<lambda>_. Inr (run_reasons s)))))
      | None \<Rightarrow> reading (\<lambda>_. Inr (None, [''compiled_test_kind_missing''])))"

definition test_passed :: "TestRunResult option \<times> string list \<Rightarrow> bool" where
  "test_passed out \<longleftrightarrow> snd out = [] \<and> (case fst out of None \<Rightarrow> True | Some r \<Rightarrow> run_passed r)"

definition test_artifact_ok :: "ChangeSetRow \<Rightarrow> TestRunResult option \<times> string list \<Rightarrow> bool" where
  "test_artifact_ok c out \<longleftrightarrow>
     1 \<le> length (change_set_id c) \<and> length (change_set_id c) \<le> 128 \<and> length (snd out) \<le> 100"

definition run_json :: "TestRunResult \<Rightarrow> json" where
  "run_json r = JObj
     [(''template_id'', JStr (run_template_id r)), (''argv'', JArr (map JStr (run_argv r))),
      (''exit_code'', opt_json JInt (exit_code r)), (''timed_out'', JBool (timed_out r)),
      (''output'', JStr (output_text r)), (''output_truncated'', JBool (output_truncated r)),
      (''output_limit_exceeded'', JBool (output_limit_exceeded r)), (''duration_ms'', JInt (duration_ms r))]"

definition test_artifact_json ::
  "ChangeSetRow \<Rightarrow> TestKind option \<Rightarrow> TestRunResult option \<times> string list \<Rightarrow> json" where
  "test_artifact_json c kind out = JObj
     [(''change_set_id'', JStr (change_set_id c)),
      (''test_kind'', JStr (TestKind_value (case kind of None \<Rightarrow> COMMAND | Some k \<Rightarrow> k))),
      (''passed'', JBool (test_passed out)), (''runner'', opt_json run_json (fst out)),
      (''reasons'', JArr (map JStr (snd out)))]"

definition is_last_test :: "NodeExecutionContext \<Rightarrow> run_error + bool" where
  "is_last_test ctx =
     (let ns = compiled_nodes (compiled_snapshot (ctx_run ctx)); s = source_node_id (ctx_node ctx) in
      if ctx_node ctx \<notin> set (filter (\<lambda>n. node_type n = TEST \<and> source_node_id n = s) ns)
      then Inl (PyError ValueError)
      else Inr (\<not> list_ex (\<lambda>n. node_type n \<in> {COMMAND_GUARD, TEST} \<and> node_id n \<in> set (successors ctx) \<and>
        source_node_id n = s) ns))"

definition test_verdict ::
  "NodeExecutionContext \<Rightarrow> ChangeSetRow \<Rightarrow> MasterLease \<Rightarrow> time \<Rightarrow> TestRunResult option \<times> string list \<Rightarrow>
     ArtifactRef \<Rightarrow> NodeHandlerResult job" where
  "test_verdict ctx c lease now out ref =
     (if \<not> test_passed out
      then job_then (move c ChangeSetStatus.GUARD_PASSED ChangeSetStatus.TEST_FAILED lease
          (Some (joined (snd out) ''approved test failed'')) (Some HIGH) now)
        (\<lambda>_. reading (\<lambda>_. Inr (guard_failed ''test_failed'' ''The approved ChangeSet test failed.'' ref)))
      else job_then (reading (\<lambda>_. is_last_test ctx)) (\<lambda>final.
        job_then
          (if final then move c ChangeSetStatus.GUARD_PASSED ChangeSetStatus.TEST_PASSED lease None None now
           else reading (\<lambda>_. Inr ()))
          (\<lambda>_. reading (\<lambda>_. Inr (guard_success ''The approved ChangeSet test passed.'' ref)))))"

definition test_handler ::
  "(string \<Rightarrow> string) \<Rightarrow> GuardTools \<Rightarrow> NodeExecutionContext \<Rightarrow> MasterLease \<Rightarrow> time \<Rightarrow> NodeHandlerResult job" where
  "test_handler H tools ctx lease now =
     job_then (source_task tools ctx) (\<lambda>(source, c, m).
     if change_set_status c \<noteq> ChangeSetStatus.GUARD_PASSED then reading (\<lambda>_. Inl ConcurrencyConflict)
     else job_then (test_run tools ctx c m) (\<lambda>out.
     job_then (report H tools ctx c ''test-result'' ''test_result'' (test_artifact_ok c out)
       (test_artifact_json c (test_kind (ctx_node ctx)) out)) (\<lambda>ref.
     test_verdict ctx c lease now out ref)))"

subsection \<open>The risk classifier\<close>

definition assessment :: "WorkflowNode \<Rightarrow> ChangeSetManifest \<Rightarrow> RiskAssessment" where
  "assessment source m = classify m (opt_risk L0 (policy_risk_floor source)) (risk_level_hint source) L0 L0 False"

definition risk_artifact_ok :: "ChangeSetRow \<Rightarrow> RiskAssessment \<Rightarrow> bool" where
  "risk_artifact_ok c a \<longleftrightarrow>
     1 \<le> length (change_set_id c) \<and> length (change_set_id c) \<le> 128 \<and> length (reasons a) \<le> 100"

definition risk_artifact_json :: "ChangeSetRow \<Rightarrow> RiskAssessment \<Rightarrow> json" where
  "risk_artifact_json c a = JObj
     [(''change_set_id'', JStr (change_set_id c)), (''runtime_risk'', JStr (RiskLevel_value (runtime_risk a))),
      (''effective_risk'', JStr (RiskLevel_value (effective_risk a))), (''blocked'', JBool (blocked a)),
      (''requires_approval'', JBool (requires_approval a)), (''reasons'', JArr (map JStr (reasons a)))]"

definition risk_verdict ::
  "ChangeSetRow \<Rightarrow> MasterLease \<Rightarrow> time \<Rightarrow> RiskAssessment \<Rightarrow> ArtifactRef \<Rightarrow> NodeHandlerResult job" where
  "risk_verdict c lease now a ref =
     (if blocked a
      then job_then (move c ChangeSetStatus.TEST_PASSED ChangeSetStatus.POLICY_REJECTED lease
          (Some (joined (reasons a) ''L4 risk rejected'')) (Some CRITICAL) now)
        (\<lambda>_. reading (\<lambda>_. Inr (guard_blocked ''l4_risk_rejected'' ''L4 ChangeSet risk was rejected.'' ref)))
      else reading (\<lambda>_. Inr (guard_success
        (''ChangeSet risk classified as '' @ RiskLevel_value (effective_risk a) @ ''.'') ref)))"

definition risk_handler ::
  "(string \<Rightarrow> string) \<Rightarrow> GuardTools \<Rightarrow> NodeExecutionContext \<Rightarrow> MasterLease \<Rightarrow> time \<Rightarrow> NodeHandlerResult job" where
  "risk_handler H tools ctx lease now =
     job_then (source_task tools ctx) (\<lambda>(source, c, m).
     if change_set_status c \<noteq> ChangeSetStatus.TEST_PASSED then reading (\<lambda>_. Inl ConcurrencyConflict)
     else let a = assessment source m in
     job_then (report H tools ctx c ''risk'' ''report'' (risk_artifact_ok c a) (risk_artifact_json c a)) (\<lambda>ref.
     risk_verdict c lease now a ref))"

end
