(* ===== verification/Guard_Safety.thy ===== *)
theory Guard_Safety
  imports Guards Grant_Safety
begin

text \<open>
  What the guards of \<open>Guards\<close> do to the store: each of their runs is a sequence of the transactions of
  \<open>Hub_Steps\<close>, whatever error ends it, and a change set that a guard has accepted has the status
  that the guard answers for, because the guard found no reason to reject it.
\<close>

interpretation hub_job: actions "hub_steps H cd" for H cd
  by unfold_locales (auto intro: rtranclp_trans)

subsection \<open>The guards are made of transactions\<close>

definition tools_ok :: "GuardTools \<Rightarrow> bool" where
  \<comment> \<open>registering a report and running a test write artifacts, workspace leases and events only\<close>
  "tools_ok tools \<longleftrightarrow>
     (\<forall>i t a s h h' r. create_report tools i t a s h = Inr (h', r) \<longrightarrow> same_records h h') \<and>
     (\<forall>c av h. same_records h (fst (sandbox tools c av h)))"

lemma source_keeps: "keeps_to (hub_steps H cd) (source_task tools ctx)"
  unfolding source_task_def by (rule hub_job.reading)

lemma report_keeps:
  assumes "tools_ok tools"
  shows "keeps_to (hub_steps H cd) (report H' tools ctx c name type b j)"
proof -
  have "hub_steps H cd h h1" if "create_report tools i t a s h = Inr (h1, r)" for i t a s h h1 r
    using assms that unfolding tools_ok_def by (blast intro: hub_step.elsewhere)
  then show ?thesis
    by (auto simp: keeps_to_def report_def Let_def split: sum.split prod.split option.split)
qed

lemma move_keeps:
  assumes "(a, b) \<in> set guard_moves"
  shows "keeps_to (hub_steps H cd) (move c a b lease reason sev now)"
  unfolding move_def
  by (rule hub_job.committing) (use assms in \<open>auto simp: and_then_Inr intro: hub_step.guard\<close>)

lemma sandbox_keeps: "tools_ok tools \<Longrightarrow> keeps_to (hub_steps H cd) (sandbox tools c av)"
  unfolding tools_ok_def keeps_to_def by (blast intro: hub_step.elsewhere)

lemma test_run_keeps: "tools_ok tools \<Longrightarrow> keeps_to (hub_steps H cd) (test_run tools ctx c m)"
  unfolding test_run_def
  by (auto intro!: hub_job.reading hub_job.then_job sandbox_keeps split: option.split TestKind.split)

lemmas job_rules = hub_job.reading hub_job.then_job hub_job.if_job hub_job.split_job source_keeps report_keeps
  move_keeps test_run_keeps

subsection \<open>A sample\<close>

definition sample_tools :: "string list \<Rightarrow> GuardTools" where
  \<comment> \<open>the captured change sets modify these files\<close>
  "sample_tools ps = \<lparr>stored_manifest = (\<lambda>_. Inr (sample_manifest ps)), stored_patch = (\<lambda>_. Inr ''diff''),
     create_report = (\<lambda>i t a s h. Inr (h, \<lparr>ref_artifact_id = i, ref_artifact_type = a, ref_relative_path = i,
       ref_sha256 = [], ref_size_bytes = length s\<rparr>)), find_report = (\<lambda>_ _ _. None), on_windows = True,
     shared_tree = sample_tree, shared_links = (\<lambda>_. (False, True)),
     sandbox = (\<lambda>_ _ h. (h, Inr \<lparr>operation = Inl ''TestRunnerError'', verification = RestoredClean\<rparr>))\<rparr>"

abbreviation sample_captured :: "ChangeSetStatus \<Rightarrow> ChangeSetRow" where
  "sample_captured s \<equiv> sample_change_set\<lparr>change_set_patch := replicate 64 CHR ''0'', change_set_status := s\<rparr>"

definition sample_guarded :: "ChangeSetStatus \<Rightarrow> HubStore" where
  "sample_guarded s = sample_pending\<lparr>hub_run := sample_running\<lparr>node_runs := [sample_claimed],
       tasks := [sample_task_row ''t'' TaskStatus.SUCCEEDED], change_sets := [sample_captured s]\<rparr>, approvals := []\<rparr>"

definition sample_scoped :: WorkflowNode where
  "sample_scoped = sample_writer\<lparr>node_id := nr_node_id sample_claimed, effective_allowed_files := Some [''a''],
     effective_new_files := Some [''b'']\<rparr>"

definition sample_test :: "TestKind \<Rightarrow> WorkflowNode" where
  "sample_test kind = (new_node ''t'' TEST ''t'')\<lparr>source_node_id := Some (node_id sample_scoped),
     test_kind := Some kind, test_argv := Some [''pytest'']\<rparr>"

definition sample_guard :: "NodeType \<Rightarrow> WorkflowNode" where
  "sample_guard type = (new_node ''g'' type ''g'')\<lparr>source_node_id := Some (node_id sample_scoped)\<rparr>"

definition guard_context :: "WorkflowNode \<Rightarrow> NodeExecutionContext" where
  "guard_context n = \<lparr>ctx_run = (run sample_running)\<lparr>compiled_snapshot := sample_graph\<lparr>
       compiled_nodes := [sample_scoped, n, sample_test DOCS_STATIC],
       compiled_edges := [sample_edge ''e'' ''g'' ''t'' SUCCESS]\<rparr>\<rparr>,
     ctx_node_run = sample_claimed, ctx_node = n, predecessors = [], active_predecessors = [],
     condition_upstream = None\<rparr>"

lemma sample_tools_ok: "tools_ok (sample_tools ps)"
  by (simp add: tools_ok_def sample_tools_def same_records_def)

lemma sample_guarded_inv:
  "s \<notin> {ChangeSetStatus.APPROVED, ChangeSetStatus.MERGED, ChangeSetStatus.PENDING_APPROVAL} \<Longrightarrow>
     auth_inv (auth (sample_guarded s))"
  by (simp add: auth_inv_def auth_wf_def sample_guarded_def sample_pending_def sample_change_set_def
      row_sound_def identifies_def change_set_key_def)

lemma sample_node: "nr_node_id sample_claimed = ''i''"
  by code_simp

lemma sample_source:
  "source_node_id n = Some (node_id sample_scoped) \<Longrightarrow>
   source_task (sample_tools ps) (guard_context n) (sample_guarded s) =
     (sample_guarded s, Inr (sample_scoped, sample_captured s, sample_manifest ps))"
  by (simp add: source_task_def guard_context_def sample_guarded_def reading_def change_set_for_source_def
      sample_pending_def sample_task_row_def sample_change_set_def sample_tools_def sample_scoped_def
      sample_writer_def new_node_def and_then_def)

lemma sample_stored: "\<exists>ref. report H (sample_tools ps) ctx c name type True j h = (h, Inr ref)"
  by (simp add: report_def Let_def sample_tools_def)

lemma sample_move:
  assumes "b \<in> set (allowed_targets a)"
  shows "\<exists>h. move (sample_change_set\<lparr>change_set_patch := p, change_set_status := a\<rparr>) a b (sample_master ''alice'' 0 1)
    None None 6 (sample_guarded a) = (h, Inr ())"
proof -
  have "master_valid (st\<lparr>change_sets := c\<rparr>) l t = master_valid st l t"
    "master_valid (st\<lparr>tasks := s\<rparr>) l t = master_valid st l t"
    "master_valid (st\<lparr>node_runs := n\<rparr>) l t = master_valid st l t" for st c s n l t
    by (simp_all add: master_valid_def)
  then show ?thesis
    using assms by (simp add: move_def committing_def transition_def sample_guarded_def sample_pending_def fenced_def
        sample_fence sample_change_set_def sample_task_row_def with_node_def find_node_run_def
        move_change_set_def put_change_sets_def Let_def change_set_event_def append_event_def known_run_def
        and_then_def emit_def lift_run_def)
qed

text \<open>
  A run of a patch guard, of a command guard, of a test or of a risk classifier is a sequence of the
  transactions of the hub, whatever ends it: when it returns a result, and when it raises half way,
  after its report is stored or after the sandbox has run.
\<close>

lemma guard_handlers_keep:
  assumes "tools_ok tools"
  shows "hub_steps H cd h (fst (patch_guard_handler H tools ctx lease now h)) \<and>
    hub_steps H cd h (fst (command_guard_handler H tools ctx lease now h)) \<and>
    hub_steps H cd h (fst (test_handler H tools ctx lease now h)) \<and>
    hub_steps H cd h (fst (risk_handler H tools ctx lease now h))"
proof -
  have "keeps_to (hub_steps H cd) (patch_guard_handler H tools ctx lease now)"
    unfolding patch_guard_handler_def patch_verdict_def
    by (intro job_rules assms) (simp_all add: guard_moves_def)
  moreover have "keeps_to (hub_steps H cd) (command_guard_handler H tools ctx lease now)"
    unfolding command_guard_handler_def command_verdict_def Let_def
    by (intro job_rules assms) (simp_all add: guard_moves_def)
  moreover have "keeps_to (hub_steps H cd) (test_handler H tools ctx lease now)"
    unfolding test_handler_def test_verdict_def
    by (intro job_rules assms) (simp_all add: guard_moves_def)
  moreover have "keeps_to (hub_steps H cd) (risk_handler H tools ctx lease now)"
    unfolding risk_handler_def risk_verdict_def Let_def
    by (intro job_rules assms) (simp_all add: guard_moves_def)
  ultimately show ?thesis unfolding keeps_to_def by blast
qed

lemma passed_report:
  "guard_decision (check H nt fs resolves mb mc m patch ex nw granted expected) = PASSED \<Longrightarrow>
   check H nt fs resolves mb mc m patch ex nw granted expected = \<lparr>guard_decision = PASSED,
     report_patch_sha256 = H patch, checked_paths = sort (changed_paths m @ ignored_files_touched m), guard_reasons = []\<rparr>"
  unfolding check_def Let_def by (auto split: sum.splits if_splits)

subsection \<open>What a verdict does\<close>

definition settles ::
  "HubStore \<Rightarrow> HubStore \<Rightarrow> ChangeSetRow \<Rightarrow> ChangeSetStatus \<Rightarrow> ChangeSetStatus \<Rightarrow> bool" where
  \<comment> \<open>the change set is taken from one status to the other and no other row changes\<close>
  "settles h h' c a b \<longleftrightarrow> c \<in> set (change_sets (hub_run h)) \<and> change_set_status c = a \<and>
     change_sets (hub_run h') = map (\<lambda>x. if change_set_id x = change_set_id c then x\<lparr>change_set_status := b\<rparr> else x)
       (change_sets (hub_run h))"

lemma source_taskD:
  assumes "source_task tools ctx h = (h1, Inr (source, c, m))"
  shows "h1 = h" "c \<in> set (change_sets (hub_run h))"
proof -
  have f: "x \<in> set xs" if "find p xs = Some x" for p :: "'a \<Rightarrow> bool" and x xs
    using that by (auto simp: find_Some_iff)
  have 1: "c \<in> set (change_sets (hub_run h))" if "change_set_for_source h i = Some (c, t)" for i t
    using that unfolding change_set_for_source_def Let_def by (auto dest: f)
  show "h1 = h" using assms by (simp add: source_task_def job_simps)
  show "c \<in> set (change_sets (hub_run h))"
    using assms by (auto simp: source_task_def job_simps and_then_Inr intro: 1 split: option.splits if_splits)
qed

lemma same_records_refl: "same_records h h"
  by (simp add: same_records_def)

lemma tools_okD:
  assumes "tools_ok tools"
  shows "create_report tools i t a s h = Inr (h1, r) \<Longrightarrow> same_records h h1"
    and "sandbox tools c av h = (h2, x) \<Longrightarrow> same_records h h2"
  using assms unfolding tools_ok_def by (blast, metis fst_conv)

lemma report_same:
  "tools_ok tools \<Longrightarrow> report H tools ctx c name type b j h = (h1, Inr ref) \<Longrightarrow> same_records h h1"
  by (auto simp: report_def Let_def same_records_refl split: sum.splits option.splits if_splits
      dest: tools_okD(1))

lemma test_run_same:
  "tools_ok tools \<Longrightarrow> test_run tools ctx c m h = (h1, Inr out) \<Longrightarrow> same_records h h1"
  by (auto simp: test_run_def job_simps same_records_refl split: option.splits TestKind.splits
      dest: tools_okD(2))

lemma transition_rows:
  assumes "transition c a b lease wl reason sev now h = Inr h'"
  shows "length (filter (\<lambda>x. change_set_id x = c \<and> change_set_status x = a) (change_sets (hub_run h))) = 1 \<and>
    change_sets (hub_run h') = map (\<lambda>x. if change_set_id x = c \<and> change_set_status x = a
      then x\<lparr>change_set_status := b\<rparr> else x) (change_sets (hub_run h))"
proof -
  obtain i row task msg where "and_then (move_change_set c a b h) (\<lambda>h1. and_then
      (change_set_event lease wl i row (Some a) b reason h1) (\<lambda>h2. case sev of None \<Rightarrow> Inr h2
        | Some s \<Rightarrow> change_set_security_event task msg s h2)) = Inr h'"
    using assms unfolding transition_def fenced_def with_node_def
    by (simp only: split: if_split_asm option.split_asm; simp; blast)
  then obtain h1 where m: "move_change_set c a b h = Inr h1"
    and s: "change_sets (hub_run h') = change_sets (hub_run h1)"
    by (auto simp: and_then_Inr change_set_event_def change_set_security_event_def emit_def
        dest!: append_event_same split: option.splits if_splits)
  then show ?thesis by (auto simp: move_change_set_def put_change_sets_def Let_def split: if_splits)
qed

lemma move_settles:
  assumes "move c a b lease reason sev now h1 = (h', Inr u)" and "same_records h h1"
    and "c \<in> set (change_sets (hub_run h))" and "auth_inv (auth h)"
  shows "settles h h' c a b"
proof -
  let ?css = "change_sets (hub_run h)"
  have css: "change_sets (hub_run h1) = ?css" using assms(2) by (simp add: same_records_def)
  have t: "transition (change_set_id c) a b lease None reason sev now h1 = Inr h'"
    using assms(1) by (simp add: move_def job_simps and_then_Inr)
  note rows = transition_rows [OF t, unfolded css]
  then obtain x where "filter (\<lambda>x. change_set_id x = change_set_id c \<and> change_set_status x = a) ?css = [x]"
    by (auto simp: length_Suc_conv)
  then have "x \<in> set (filter (\<lambda>x. change_set_id x = change_set_id c \<and> change_set_status x = a) ?css)" by simp
  then have x: "x \<in> set ?css" "change_set_id x = change_set_id c" "change_set_status x = a" by simp_all
  have d: "distinct (map change_set_id ?css)" using assms(4) by (simp add: auth_inv_def auth_wf_def)
  have same: "y = c" if "y \<in> set ?css" "change_set_id y = change_set_id c" for y
    using same_rows [OF d that(1) assms(3)] that(2) by simp
  then have "change_set_status c = a" using x by blast
  then have "map (\<lambda>x. if change_set_id x = change_set_id c \<and> change_set_status x = a
        then x\<lparr>change_set_status := b\<rparr> else x) ?css =
      map (\<lambda>x. if change_set_id x = change_set_id c then x\<lparr>change_set_status := b\<rparr> else x) ?css"
    using same by (intro map_cong refl) auto
  then show ?thesis using rows \<open>change_set_status c = a\<close> assms(3) by (simp add: settles_def)
qed

lemma kept_settles:
  assumes "same_records h h'" and "c \<in> set (change_sets (hub_run h))" and "auth_inv (auth h)"
    and "change_set_status c = a"
  shows "settles h h' c a a"
proof -
  let ?css = "change_sets (hub_run h)"
  have d: "distinct (map change_set_id ?css)" using assms(3) by (simp add: auth_inv_def auth_wf_def)
  have "(if change_set_id x = change_set_id c then x\<lparr>change_set_status := a\<rparr> else x) = x" if "x \<in> set ?css" for x
    using same_rows [OF d that assms(2)] assms(4) by auto
  then have "map (\<lambda>x. if change_set_id x = change_set_id c then x\<lparr>change_set_status := a\<rparr> else x) ?css = ?css"
    by (simp add: map_idI)
  then show ?thesis using assms(1,2,4) by (simp add: settles_def same_records_def)
qed

fun verdict_status :: "PatchGuardDecision \<Rightarrow> ChangeSetStatus" where
  "verdict_status PASSED = ChangeSetStatus.GUARD_PASSED"
| "verdict_status PatchGuardDecision.QUARANTINED = ChangeSetStatus.QUARANTINED"
| "verdict_status PatchGuardDecision.REJECTED = ChangeSetStatus.GUARD_REJECTED"

lemma patch_verdict_settles:
  assumes "patch_verdict c lease now rep ref h1 = (h', Inr r)" and "same_records h h1"
    and "c \<in> set (change_sets (hub_run h))" and "auth_inv (auth h)"
  shows "(hr_outcome r = NodeOutcome.SUCCESS \<longleftrightarrow> guard_decision rep = PASSED) \<and>
    settles h h' c ChangeSetStatus.CAPTURED (verdict_status (guard_decision rep))"
  using assms(1) move_settles [OF _ assms(2-4)] unfolding patch_verdict_def
  by (cases "guard_decision rep") (auto simp: job_simps guard_success_def guard_blocked_def finished_def)

lemma test_verdict_settles:
  assumes "test_verdict ctx c lease now out ref h1 = (h', Inr r)" and "same_records h h1"
    and "c \<in> set (change_sets (hub_run h))" and "auth_inv (auth h)"
    and "change_set_status c = ChangeSetStatus.GUARD_PASSED"
  shows "(hr_outcome r = NodeOutcome.SUCCESS \<longleftrightarrow> test_passed out) \<and>
    (test_passed out \<longrightarrow> (\<exists>final. is_last_test ctx = Inr final)) \<and>
    settles h h' c ChangeSetStatus.GUARD_PASSED
      (if \<not> test_passed out then ChangeSetStatus.TEST_FAILED
       else if is_last_test ctx = Inr True then ChangeSetStatus.TEST_PASSED else ChangeSetStatus.GUARD_PASSED)"
proof (cases "test_passed out \<and> is_last_test ctx = Inr False")
  case True
  then have "h' = h1" "hr_outcome r = NodeOutcome.SUCCESS"
    using assms(1) by (auto simp: test_verdict_def job_simps guard_success_def finished_def)
  then show ?thesis using True kept_settles [OF assms(2-5)] by auto
next
  case False
  then show ?thesis
    using assms(1) move_settles [OF _ assms(2-4)] unfolding test_verdict_def
    by (auto simp: job_simps guard_success_def guard_failed_def finished_def split: if_splits)
qed

lemma risk_verdict_settles:
  assumes "risk_verdict c lease now a ref h1 = (h', Inr r)" and "same_records h h1"
    and "c \<in> set (change_sets (hub_run h))" and "auth_inv (auth h)"
    and "change_set_status c = ChangeSetStatus.TEST_PASSED"
  shows "(hr_outcome r = NodeOutcome.SUCCESS \<longleftrightarrow> \<not> blocked a) \<and>
    settles h h' c ChangeSetStatus.TEST_PASSED
      (if blocked a then ChangeSetStatus.POLICY_REJECTED else ChangeSetStatus.TEST_PASSED)"
  using assms(1) move_settles [OF _ assms(2-4)] kept_settles [OF assms(2-5)] unfolding risk_verdict_def
  by (cases "blocked a") (auto simp: job_simps guard_success_def guard_blocked_def finished_def)

lemma command_verdict_settles:
  assumes "command_verdict c lease now out ref h1 = (h', Inr r)" and "same_records h h1"
    and "c \<in> set (change_sets (hub_run h))" and "auth_inv (auth h)"
  shows "(hr_outcome r = NodeOutcome.SUCCESS \<longleftrightarrow> fst out \<noteq> None) \<and>
    settles h h' c ChangeSetStatus.GUARD_PASSED
      (if hr_outcome r = NodeOutcome.SUCCESS then ChangeSetStatus.GUARD_PASSED else ChangeSetStatus.TEST_FAILED)"
proof (cases "fst out = None")
  case True
  then show ?thesis
    using assms(1) move_settles [OF _ assms(2-4)] unfolding command_verdict_def
    by (auto simp: job_simps guard_blocked_def finished_def)
next
  case False
  then have "h' = h1" "change_set_status c = ChangeSetStatus.GUARD_PASSED" "hr_outcome r = NodeOutcome.SUCCESS"
    using assms(1) by (auto simp: command_verdict_def job_simps guard_success_def finished_def split: if_splits)
  then show ?thesis using False kept_settles [OF assms(2-4)] by auto
qed

lemma patch_guard_run:
  assumes "patch_guard_handler H tools ctx lease now h = (h', Inr r)" and "tools_ok tools" and "auth_inv (auth h)"
  shows "\<exists>source c m patch rep. source_task tools ctx h = (h, Inr (source, c, m)) \<and> stored_patch tools c = Inr patch \<and>
    rep = patch_report H tools source c m patch (consumed_resources h (change_set_task_id c)) \<and>
    (hr_outcome r = NodeOutcome.SUCCESS \<longleftrightarrow> guard_decision rep = PASSED) \<and>
    settles h h' c ChangeSetStatus.CAPTURED (verdict_status (guard_decision rep))"
proof -
  obtain source c m patch rep ref h1 where s: "source_task tools ctx h = (h, Inr (source, c, m))"
    and p: "stored_patch tools c = Inr patch"
    and rep: "rep = patch_report H tools source c m patch (consumed_resources h (change_set_task_id c))"
    and ref: "report H tools ctx c ''patch-guard'' ''report'' (patch_artifact_ok c rep) (patch_artifact_json c rep) h =
      (h1, Inr ref)"
    and v: "patch_verdict c lease now rep ref h1 = (h', Inr r)"
    using assms(1) unfolding patch_guard_handler_def
    by (auto simp: job_simps and_then_Inr dest: source_taskD(1) split: if_split_asm)
  show ?thesis
    using s p rep patch_verdict_settles [OF v report_same [OF assms(2) ref] source_taskD(2) [OF s] assms(3)] by blast
qed

text \<open>
  C24: the patch guard moves a change set as it judged it. When the handler returns, it has read one
  captured change set, the patch and the manifest of its source task; it reports success exactly if
  the check of the patch against the effective scope of that task and the consumed grant passed, and
  the change set is then \<open>guard_passed\<close>, and otherwise \<open>guard_rejected\<close> or \<open>quarantined\<close> as the check
  decided; no other change set moves.
\<close>

theorem patch_guard_moves_as_it_judged:
  assumes "patch_guard_handler H tools ctx lease now h = (h', Inr r)" and "tools_ok tools" and "auth_inv (auth h)"
  shows "\<exists>source c m patch. source_task tools ctx h = (h, Inr (source, c, m)) \<and> stored_patch tools c = Inr patch \<and>
    (let d = guard_decision (patch_report H tools source c m patch (consumed_resources h (change_set_task_id c)))
     in (hr_outcome r = NodeOutcome.SUCCESS \<longleftrightarrow> d = PASSED) \<and>
       settles h h' c ChangeSetStatus.CAPTURED (verdict_status d))"
  using patch_guard_run [OF assms] unfolding Let_def by blast

lemma sample_patch_run:
  "\<exists>h r. patch_guard_handler (\<lambda>_. replicate 64 CHR ''0'') (sample_tools [''a'']) (guard_context (sample_guard PATCH_GUARD))
     (sample_master ''alice'' 0 1) 6 (sample_guarded ChangeSetStatus.CAPTURED) = (h, Inr r) \<and>
     hr_outcome r = NodeOutcome.SUCCESS"
proof -
  let ?H = "\<lambda>_ :: string. replicate 64 CHR ''0''" and ?h = "sample_guarded ChangeSetStatus.CAPTURED"
  let ?c = "sample_captured ChangeSetStatus.CAPTURED"
  let ?r = "patch_report ?H (sample_tools [''a'']) sample_scoped ?c (sample_manifest [''a'']) ''diff'' []"
  have "guard_decision (check ?H True sample_tree (\<lambda>_. (False, True)) 100 5 (sample_manifest [''a'']) ''diff''
      (dedup ([''a''] @ [])) [''b''] [] (Some (replicate 64 CHR ''0''))) = PASSED"
    by code_simp
  then have "guard_decision (check ?H True sample_tree (\<lambda>_. (False, True)) 20971520 500 (sample_manifest [''a''])
      ''diff'' (dedup ([''a''] @ [])) [''b''] [] (Some (replicate 64 CHR ''0''))) = PASSED"
    by (rule check_limits) simp_all
  then have d: "guard_decision ?r = PASSED"
    by (simp add: patch_report_def sample_tools_def sample_scoped_def)
  have ok: "patch_artifact_ok ?c ?r"
    using d passed_report [OF d [unfolded patch_report_def]]
    by (simp add: patch_artifact_ok_def patch_report_def sample_change_set_def is_sha256_hex_def
        sample_manifest_def changed_paths_def sample_change_def list_all_iff is_hex_lower_def is_digit_def)
  have "consumed_resources ?h t = []" for t
    by (simp add: consumed_resources_def sample_guarded_def sample_pending_def)
  moreover obtain h where "move ?c ChangeSetStatus.CAPTURED ChangeSetStatus.GUARD_PASSED (sample_master ''alice'' 0 1)
      None None 6 ?h = (h, Inr ())"
    using sample_move [of ChangeSetStatus.GUARD_PASSED ChangeSetStatus.CAPTURED] by auto
  moreover have "stored_patch (sample_tools [''a'']) c = Inr ''diff''" "shared_tree (sample_tools [''a'']) [] = Some Directory" for c
    by (simp_all add: sample_tools_def sample_tree_def)
  moreover obtain ref where "report ?H (sample_tools [''a'']) (guard_context (sample_guard PATCH_GUARD)) ?c
      ''patch-guard'' ''report'' True (patch_artifact_json ?c ?r) ?h = (?h, Inr ref)"
    using sample_stored by blast
  moreover have "source_node_id (sample_guard PATCH_GUARD) = Some (node_id sample_scoped)"
    by (simp add: sample_guard_def)
  ultimately show ?thesis
    using d ok by (simp add: patch_guard_handler_def job_then_def reading_def sample_source
        patch_verdict_def and_then_def guard_success_def finished_def)
qed

lemma patch_guard_moves_as_it_judged_witness:
  "\<exists>h c. settles (sample_guarded ChangeSetStatus.CAPTURED) h c ChangeSetStatus.CAPTURED ChangeSetStatus.GUARD_PASSED"
proof -
  obtain h r where 1: "patch_guard_handler (\<lambda>_. replicate 64 CHR ''0'') (sample_tools [''a''])
      (guard_context (sample_guard PATCH_GUARD)) (sample_master ''alice'' 0 1) 6 (sample_guarded ChangeSetStatus.CAPTURED) =
      (h, Inr r)" "hr_outcome r = NodeOutcome.SUCCESS"
    using sample_patch_run by blast
  show ?thesis
    using patch_guard_moves_as_it_judged [OF 1(1) sample_tools_ok sample_guarded_inv] 1(2)
    by (auto simp: Let_def) blast
qed

subsection \<open>Tests and risk\<close>

lemma same_records_trans: "same_records h h1 \<Longrightarrow> same_records h1 h2 \<Longrightarrow> same_records h h2"
  by (simp add: same_records_def)

text \<open>
  C25: a test moves a change set as it ended. When the handler returns, the change set of its source
  task had passed the guards; success is reported exactly if the run gave no reason and its result,
  if it has one, exited with 0 within the limits; a change set that fails is \<open>test_failed\<close>, one that
  passes its last test is \<open>test_passed\<close>, one with a guard or a test of the same source still to come
  stays \<open>guard_passed\<close>; no other change set moves.
\<close>

theorem test_moves_as_it_ended:
  assumes "test_handler H tools ctx lease now h = (h', Inr r)" and "tools_ok tools" and "auth_inv (auth h)"
  shows "\<exists>source c m out h1. source_task tools ctx h = (h, Inr (source, c, m)) \<and>
    test_run tools ctx c m h = (h1, Inr out) \<and>
    (hr_outcome r = NodeOutcome.SUCCESS \<longleftrightarrow> test_passed out) \<and>
    (test_passed out \<longrightarrow> (\<exists>final. is_last_test ctx = Inr final)) \<and>
    settles h h' c ChangeSetStatus.GUARD_PASSED
      (if \<not> test_passed out then ChangeSetStatus.TEST_FAILED
       else if is_last_test ctx = Inr True then ChangeSetStatus.TEST_PASSED else ChangeSetStatus.GUARD_PASSED)"
proof -
  obtain source c m out ref h1 h2 where s: "source_task tools ctx h = (h, Inr (source, c, m))"
    and g: "change_set_status c = ChangeSetStatus.GUARD_PASSED" and t: "test_run tools ctx c m h = (h1, Inr out)"
    and ref: "report H tools ctx c ''test-result'' ''test_result'' (test_artifact_ok c out)
      (test_artifact_json c (test_kind (ctx_node ctx)) out) h1 = (h2, Inr ref)"
    and v: "test_verdict ctx c lease now out ref h2 = (h', Inr r)"
    using assms(1) unfolding test_handler_def
    by (auto simp: job_simps dest: source_taskD(1) split: if_split_asm)
  have "same_records h h2"
    using same_records_trans [OF test_run_same [OF assms(2) t] report_same [OF assms(2) ref]] .
  then show ?thesis
    using s t test_verdict_settles [OF v _ source_taskD(2) [OF s] assms(3) g] by blast
qed

lemma sample_test_run:
  "\<exists>h r. test_handler sample_hash (sample_tools [''a.md'']) (guard_context (sample_test DOCS_STATIC))
     (sample_master ''alice'' 0 1) 6 (sample_guarded ChangeSetStatus.GUARD_PASSED) = (h, Inr r)"
proof -
  let ?t = "sample_test DOCS_STATIC" and ?h = "sample_guarded ChangeSetStatus.GUARD_PASSED"
  let ?c = "sample_captured ChangeSetStatus.GUARD_PASSED"
  have "docs_static_reasons (sample_manifest [''a.md'']) = []" by code_simp
  then have "test_run (sample_tools [''a.md'']) (guard_context ?t) ?c (sample_manifest [''a.md'']) ?h =
      (?h, Inr (None, []))"
    by (simp add: test_run_def guard_context_def sample_test_def reading_def)
  moreover have "is_last_test (guard_context ?t) = Inr True"
    by (simp add: is_last_test_def guard_context_def sample_test_def successors_def sample_edge_def new_node_def
        sample_scoped_def sample_writer_def Let_def)
  moreover have "test_artifact_ok ?c (None, [])" "change_set_status ?c = ChangeSetStatus.GUARD_PASSED"
    by (simp_all add: test_artifact_ok_def sample_change_set_def)
  moreover obtain ref where "report sample_hash (sample_tools [''a.md'']) (guard_context ?t) ?c
      ''test-result'' ''test_result'' True (test_artifact_json ?c (test_kind (ctx_node (guard_context ?t))) (None, [])) ?h =
      (?h, Inr ref)"
    using sample_stored by blast
  moreover obtain h where "move ?c ChangeSetStatus.GUARD_PASSED ChangeSetStatus.TEST_PASSED (sample_master ''alice'' 0 1)
      None None 6 ?h = (h, Inr ())"
    using sample_move [of ChangeSetStatus.TEST_PASSED ChangeSetStatus.GUARD_PASSED] by auto
  moreover have "source_node_id ?t = Some (node_id sample_scoped)" by (simp add: sample_test_def)
  ultimately show ?thesis
    by (simp add: test_handler_def job_then_def sample_source test_verdict_def test_passed_def reading_def)
qed

lemma test_moves_as_it_ended_witness:
  "\<exists>h c out. settles (sample_guarded ChangeSetStatus.GUARD_PASSED) h c ChangeSetStatus.GUARD_PASSED
     (if \<not> test_passed out then ChangeSetStatus.TEST_FAILED
      else if is_last_test (guard_context (sample_test DOCS_STATIC)) = Inr True then ChangeSetStatus.TEST_PASSED
      else ChangeSetStatus.GUARD_PASSED)"
proof -
  obtain h r where 1: "test_handler sample_hash (sample_tools [''a.md'']) (guard_context (sample_test DOCS_STATIC))
     (sample_master ''alice'' 0 1) 6 (sample_guarded ChangeSetStatus.GUARD_PASSED) = (h, Inr r)"
    using sample_test_run by blast
  have 2: "auth_inv (auth (sample_guarded ChangeSetStatus.GUARD_PASSED))" by (simp add: sample_guarded_inv)
  show ?thesis
    using test_moves_as_it_ended [OF 1 sample_tools_ok 2] by blast
qed

lemma risk_moves_as_it_judged:
  assumes "risk_handler H tools ctx lease now h = (h', Inr r)" and "tools_ok tools" and "auth_inv (auth h)"
  shows "\<exists>source c m. source_task tools ctx h = (h, Inr (source, c, m)) \<and>
    (hr_outcome r = NodeOutcome.SUCCESS \<longleftrightarrow> \<not> blocked (assessment source m)) \<and>
    settles h h' c ChangeSetStatus.TEST_PASSED
      (if blocked (assessment source m) then ChangeSetStatus.POLICY_REJECTED else ChangeSetStatus.TEST_PASSED)"
proof -
  obtain source c m ref h1 where s: "source_task tools ctx h = (h, Inr (source, c, m))"
    and g: "change_set_status c = ChangeSetStatus.TEST_PASSED"
    and ref: "report H tools ctx c ''risk'' ''report'' (risk_artifact_ok c (assessment source m))
      (risk_artifact_json c (assessment source m)) h = (h1, Inr ref)"
    and v: "risk_verdict c lease now (assessment source m) ref h1 = (h', Inr r)"
    using assms(1) unfolding risk_handler_def Let_def
    by (auto simp: job_simps dest: source_taskD(1) split: if_split_asm)
  show ?thesis
    using s risk_verdict_settles [OF v report_same [OF assms(2) ref] source_taskD(2) [OF s] assms(3) g] by blast
qed

subsection \<open>Reports that do not fit\<close>

text \<open>
  A documentation test that has more than 100 reasons to fail raises instead: its report is
  longer than its model allows, so nothing is stored and the change set stays \<open>guard_passed\<close>.
\<close>

lemma long_test_reports_raise:
  assumes "source_task tools ctx h = (h, Inr (source, c, m))"
    and "change_set_status c = ChangeSetStatus.GUARD_PASSED"
    and "test_kind (ctx_node ctx) = Some DOCS_STATIC" and "100 < length (docs_static_reasons m)"
  shows "test_handler H tools ctx lease now h = (h, Inl (PyError ValidationError))"
  using assms by (simp add: test_handler_def job_then_def test_run_def reading_def report_def test_artifact_ok_def)

definition many_names :: "string list" where
  "many_names = map (\<lambda>(x, y). [x, y]) (List.product ''abcdefghijk'' ''0123456789'')"

lemma many_reasons: "docs_static_reasons (sample_manifest many_names) = map ((@) ''non_documentation_path:'') many_names"
proof -
  have "list_all (\<lambda>p. casefold (posix_suffix p) \<notin> set DOC_SUFFIXES) many_names"
    by code_simp
  then have "concat (map (\<lambda>p. report_if (casefold (posix_suffix p) \<notin> set DOC_SUFFIXES)
      (''non_documentation_path:'' @ p)) ps) = map ((@) ''non_documentation_path:'') ps"
    if "set ps \<subseteq> set many_names" for ps
    using that by (induction ps) (auto simp: list_all_iff guard_simps)
  then have 1: "concat (map (\<lambda>c. concat (map (\<lambda>p. report_if (casefold (posix_suffix p) \<notin> set DOC_SUFFIXES)
      (''non_documentation_path:'' @ p)) (change_paths c)) @
      report_if (binary c) (''binary_documentation_change:'' @ path c)) (map sample_change many_names)) =
    map ((@) ''non_documentation_path:'') many_names"
    by (simp add: comp_def sample_change_def change_paths_def guard_simps)
  have "distinct many_names"
    unfolding many_names_def distinct_map
    by (rule conjI [OF distinct_product]) (simp_all add: inj_on_def split_beta prod_eq_iff)
  then have "distinct (map ((@) ''non_documentation_path:'') many_names)"
    by (simp add: distinct_map inj_on_def)
  moreover have "many_names \<noteq> []" by (simp add: many_names_def)
  ultimately show ?thesis
    using 1 by (simp add: docs_static_reasons_def sample_manifest_def guard_simps dedup_distinct)
qed

lemma long_test_reports_raise_witness:
  "test_handler sample_hash (sample_tools many_names) (guard_context (sample_test DOCS_STATIC))
     (sample_master ''alice'' 0 1) 6 (sample_guarded ChangeSetStatus.GUARD_PASSED) =
   (sample_guarded ChangeSetStatus.GUARD_PASSED, Inl (PyError ValidationError))"
proof (rule long_test_reports_raise [OF sample_source])
  show "source_node_id (sample_test DOCS_STATIC) = Some (node_id sample_scoped)"
    by (simp add: sample_test_def)
  show "100 < length (docs_static_reasons (sample_manifest many_names))"
    unfolding many_reasons by (simp add: many_names_def)
qed (simp_all add: guard_context_def sample_test_def)

subsection \<open>The command guard\<close>

lemma guarded_command_accepts:
  "fst (guarded_command source test) = Some a \<longleftrightarrow> (\<exists>av. test_argv test = Some av \<and> validate av = Inr a)"
  by (auto simp: guarded_command_def split: option.split sum.split)

text \<open>
  The command guard accepts a test exactly if its command is an instance of a registered
  template. When the handler returns, success means that the command of the one test that follows
  the guard validates and that the change set is, and stays, \<open>guard_passed\<close>; otherwise the change set
  has become \<open>test_failed\<close>. The commands granted to the source task do not matter.
\<close>

lemma command_guard_accepts_registered_commands:
  assumes "command_guard_handler H tools ctx lease now h = (h', Inr r)" and "tools_ok tools" and "auth_inv (auth h)"
  shows "\<exists>source c m test. source_task tools ctx h = (h, Inr (source, c, m)) \<and> successor_test ctx = Inr test \<and>
    (hr_outcome r = NodeOutcome.SUCCESS \<longleftrightarrow> (\<exists>av a. test_argv test = Some av \<and> validate av = Inr a)) \<and>
    settles h h' c ChangeSetStatus.GUARD_PASSED
      (if hr_outcome r = NodeOutcome.SUCCESS then ChangeSetStatus.GUARD_PASSED else ChangeSetStatus.TEST_FAILED)"
proof -
  obtain h0 source c m test ref h1 where s0: "source_task tools ctx h = (h0, Inr (source, c, m))"
    and t: "successor_test ctx = Inr test"
    and ref: "report H tools ctx c ''command-guard'' ''report''
       (command_artifact_ok c test (fst (guarded_command source test)) (snd (guarded_command source test)))
       (command_artifact_json c test (fst (guarded_command source test)) (snd (guarded_command source test))) h0 =
       (h1, Inr ref)"
    and v: "command_verdict c lease now (guarded_command source test) ref h1 = (h', Inr r)"
    using assms(1) unfolding command_guard_handler_def Let_def
    by (auto simp: job_simps)
  have s: "source_task tools ctx h = (h, Inr (source, c, m))" using s0 source_taskD(1) [OF s0] by simp
  note ref = ref [unfolded source_taskD(1) [OF s0]]
  have "fst (guarded_command source test) \<noteq> None \<longleftrightarrow> (\<exists>av a. test_argv test = Some av \<and> validate av = Inr a)"
    using guarded_command_accepts [of source test] by auto
  then show ?thesis
    using s t command_verdict_settles [OF v report_same [OF assms(2) ref] source_taskD(2) [OF s] assms(3)] by blast
qed

lemma out_of_scope_run:
  assumes "source_task tools ctx h = (h, Inr (source, c, m))" and "successor_test ctx = Inr test"
    and "test_argv test = Some av" and "validate av = Inr a"
    and "argv a \<notin> set (opt_list (effective_allowed_commands source))"
    and "change_set_status c = ChangeSetStatus.GUARD_PASSED"
    and "command_artifact_ok c test (Some a) (Some ''compiled test argv is outside the source task command scope'')"
    and "report H tools ctx c ''command-guard'' ''report'' True (command_artifact_json c test (Some a)
      (Some ''compiled test argv is outside the source task command scope'')) h = (h1, Inr ref)"
  shows "command_guard_handler H tools ctx lease now h =
    (h1, Inr (guard_success ''CommandGuard accepted the compiled test argv.'' ref))"
proof -
  have "guarded_command source test = (Some a, Some ''compiled test argv is outside the source task command scope'')"
    using assms(3-5) by (simp add: guarded_command_def)
  then show ?thesis
    using assms(1,2,6-8) by (simp add: command_guard_handler_def job_then_def reading_def command_verdict_def)
qed

text \<open>
  C26: a test command that the source task was not granted passes the command guard: the check of the
  granted commands raises after the command has been taken as approved, and its reason reaches the
  report, which says that the command is approved, but not the result.
\<close>

theorem command_scope_is_not_enforced:
  assumes "source_task tools ctx h = (h, Inr (source, c, m))" and "successor_test ctx = Inr test"
    and "test_argv test = Some av" and "validate av = Inr a"
    and "argv a \<notin> set (opt_list (effective_allowed_commands source))"
    and "change_set_status c = ChangeSetStatus.GUARD_PASSED"
    and "command_artifact_ok c test (Some a) (Some ''compiled test argv is outside the source task command scope'')"
    and "report H tools ctx c ''command-guard'' ''report'' True (command_artifact_json c test (Some a)
      (Some ''compiled test argv is outside the source task command scope'')) h = (h1, Inr ref)"
  shows "command_guard_handler H tools ctx lease now h =
    (h1, Inr (guard_success ''CommandGuard accepted the compiled test argv.'' ref))"
  using assms by (rule out_of_scope_run)

definition sample_command :: ApprovedCommand where
  "sample_command = \<lparr>template_id = ''pytest'', argv = [''pytest'']\<rparr>"

lemma sample_approved:
  "successor_test (guard_context (sample_guard COMMAND_GUARD)) = Inr (sample_test DOCS_STATIC)"
  "test_argv (sample_test DOCS_STATIC) = Some [''pytest'']"
  "validate [''pytest''] = Inr sample_command"
proof -
  show "validate [''pytest''] = Inr sample_command" by code_simp
qed (simp_all add: successor_test_def guard_context_def sample_guard_def sample_test_def successors_def
    sample_edge_def new_node_def sample_scoped_def sample_writer_def)

abbreviation out_of_scope :: "string option" where
  "out_of_scope \<equiv> Some ''compiled test argv is outside the source task command scope''"

lemma sample_out_of_scope:
  "argv sample_command \<notin> set (opt_list (effective_allowed_commands sample_scoped))"
  "change_set_status (sample_captured ChangeSetStatus.GUARD_PASSED) = ChangeSetStatus.GUARD_PASSED"
  "command_artifact_ok (sample_captured ChangeSetStatus.GUARD_PASSED) (sample_test DOCS_STATIC)
     (Some sample_command) out_of_scope"
  by (simp_all add: command_artifact_ok_def command_argv_def sample_change_set_def sample_scoped_def
      sample_writer_def sample_command_def)

lemma sample_guard_source: "source_node_id (sample_guard t) = Some (node_id sample_scoped)"
  by (simp add: sample_guard_def)

lemma sample_command_report:
  "\<exists>ref. report sample_hash (sample_tools [''a'']) (guard_context (sample_guard COMMAND_GUARD))
     (sample_captured ChangeSetStatus.GUARD_PASSED) ''command-guard'' ''report'' True
     (command_artifact_json (sample_captured ChangeSetStatus.GUARD_PASSED) (sample_test DOCS_STATIC)
       (Some sample_command) out_of_scope)
     (sample_guarded ChangeSetStatus.GUARD_PASSED) = (sample_guarded ChangeSetStatus.GUARD_PASSED, Inr ref)"
  by (rule sample_stored)

lemma command_scope_is_not_enforced_witness:
  "\<exists>h1 r. effective_allowed_commands sample_scoped = Some [] \<and>
     command_guard_handler sample_hash (sample_tools [''a'']) (guard_context (sample_guard COMMAND_GUARD))
       (sample_master ''alice'' 0 1) 6 (sample_guarded ChangeSetStatus.GUARD_PASSED) = (h1, Inr r) \<and>
     hr_outcome r = NodeOutcome.SUCCESS"
proof -
  note run = command_scope_is_not_enforced [OF sample_source [OF sample_guard_source] sample_approved sample_out_of_scope,
      where lease = "sample_master ''alice'' 0 1" and now = 6]
  have "effective_allowed_commands sample_scoped = Some []"
    by (simp add: sample_scoped_def sample_writer_def)
  then show ?thesis
    by - (rule exE [OF sample_command_report], drule run, simp add: guard_success_def finished_def)
qed

lemma sample_command_run:
  "\<exists>h1 r. command_guard_handler sample_hash (sample_tools [''a'']) (guard_context (sample_guard COMMAND_GUARD))
     (sample_master ''alice'' 0 1) 6 (sample_guarded ChangeSetStatus.GUARD_PASSED) = (h1, Inr r) \<and>
     hr_outcome r = NodeOutcome.SUCCESS"
proof -
  note run = out_of_scope_run [OF sample_source [OF sample_guard_source] sample_approved sample_out_of_scope,
      where lease = "sample_master ''alice'' 0 1" and now = 6]
  show ?thesis
    by (rule exE [OF sample_command_report], drule run) (simp add: guard_success_def finished_def)
qed

lemma command_guard_accepts_registered_commands_witness:
  "\<exists>h c. settles (sample_guarded ChangeSetStatus.GUARD_PASSED) h c ChangeSetStatus.GUARD_PASSED ChangeSetStatus.GUARD_PASSED"
proof -
  obtain h r where 1: "command_guard_handler sample_hash (sample_tools [''a''])
      (guard_context (sample_guard COMMAND_GUARD)) (sample_master ''alice'' 0 1) 6
      (sample_guarded ChangeSetStatus.GUARD_PASSED) = (h, Inr r)" "hr_outcome r = NodeOutcome.SUCCESS"
    using sample_command_run by blast
  have 2: "auth_inv (auth (sample_guarded ChangeSetStatus.GUARD_PASSED))" by (simp add: sample_guarded_inv)
  show ?thesis
    using command_guard_accepts_registered_commands [OF 1(1) sample_tools_ok 2] 1(2) by auto
qed

end
