(* ===== verification/Git_Commits.thy ===== *)
theory Git_Commits
  imports Run_State Actions
begin

text \<open>
  The commits of \<open>workspace/git_manager.py\<close>: how an approved patch becomes a commit of the shared
  repository and how the trailers of a commit are read back. The commands of Git are a parameter,
  functions and actions on a repository whose type is a parameter too.
\<close>

datatype flow_error =
    Raised run_error \<comment> \<open>what a repository of the hub raises\<close>
  | GitManagerError | ChangeSetReconciliationRequired
  | Cancelled \<comment> \<open>the task was cancelled while it waited\<close>

subsection \<open>The commands\<close>

record 'g git =
  rev_parse :: "string \<Rightarrow> 'g \<Rightarrow> flow_error + string" \<comment> \<open>without the white space around it\<close>
  current_branch :: "'g \<Rightarrow> flow_error + string"
  staged_diff :: "'g \<Rightarrow> flow_error + bool" \<comment> \<open>whether \<open>diff --cached --quiet\<close> exits with 1\<close>
  unstaged_diff :: "'g \<Rightarrow> flow_error + bool"
  untracked_names :: "'g \<Rightarrow> flow_error + string list"
  ignored_names :: "'g \<Rightarrow> flow_error + string list"
  staged_names :: "'g \<Rightarrow> flow_error + string list"
  index_entries :: "'g \<Rightarrow> flow_error + string" \<comment> \<open>\<open>ls-files --stage\<close>\<close>
  private_tree :: "string \<Rightarrow> string \<Rightarrow> 'g \<Rightarrow> flow_error + string"
    \<comment> \<open>\<open>read-tree\<close>, \<open>apply --cached\<close> and \<open>write-tree\<close> on a private index\<close>
  commit_body :: "string \<Rightarrow> 'g \<Rightarrow> flow_error + string" \<comment> \<open>\<open>show --format=%B\<close>\<close>
  check_apply :: "string \<Rightarrow> 'g \<Rightarrow> flow_error + unit"
  apply_to_tree :: "string \<Rightarrow> ('g, flow_error, unit) action"
  add_paths :: "string list \<Rightarrow> ('g, flow_error, unit) action"
  write_tree :: "('g, flow_error, string) action"
  commit_index :: "string \<Rightarrow> ('g, flow_error, unit) action"
  restore_files :: "string \<Rightarrow> string list \<Rightarrow> ('g, flow_error, unit) action"
  remove_cached :: "string list \<Rightarrow> ('g, flow_error, unit) action"
  remove_entries :: "string list \<Rightarrow> ('g, flow_error, unit) action" \<comment> \<open>\<open>remove_worktree_entries\<close>\<close>

definition require_object_id :: "string \<Rightarrow> flow_error + string" where
  "require_object_id s = (if is_git_object_id s then Inr s else Inl GitManagerError)"

definition pathspec_problem :: "string list \<Rightarrow> bool" where
  "pathspec_problem ps \<longleftrightarrow> list_ex (\<lambda>p. p = [] \<or> CHR 0x00 \<in> set p) ps"

subsection \<open>The state of a repository\<close>

record RepositoryState =
  state_commit :: string
  staged :: bool
  unstaged :: bool
  untracked_files :: "string list"

definition dirty :: "RepositoryState \<Rightarrow> bool" where
  "dirty s \<longleftrightarrow> staged s \<or> unstaged s \<or> untracked_files s \<noteq> []"

definition repository_state :: "'g git \<Rightarrow> 'g \<Rightarrow> flow_error + RepositoryState" where
  \<comment> \<open>the branch and the ignored files are read as well, and not used by what is modelled\<close>
  "repository_state tools g =
     and_then (and_then (rev_parse tools ''HEAD^{commit}'' g) require_object_id) (\<lambda>c.
     and_then (current_branch tools g) (\<lambda>_.
     and_then (staged_diff tools g) (\<lambda>s.
     and_then (unstaged_diff tools g) (\<lambda>u.
     and_then (untracked_names tools g) (\<lambda>names.
     and_then (ignored_names tools g) (\<lambda>_.
     Inr \<lparr>state_commit = c, staged = s, unstaged = u, untracked_files = names\<rparr>))))))"

definition index_sha256 :: "(string \<Rightarrow> string) \<Rightarrow> 'g git \<Rightarrow> 'g \<Rightarrow> flow_error + string" where
  "index_sha256 H tools g = and_then (index_entries tools g) (\<lambda>b. Inr (H b))"

definition canonical_patch_tree :: "'g git \<Rightarrow> string \<Rightarrow> string \<Rightarrow> 'g \<Rightarrow> flow_error + string" where
  "canonical_patch_tree tools parent patch g =
     and_then (require_object_id parent) (\<lambda>_. and_then (private_tree tools parent patch g) require_object_id)"

definition commit_parent :: "'g git \<Rightarrow> string \<Rightarrow> 'g \<Rightarrow> flow_error + string" where
  "commit_parent tools c g =
     and_then (require_object_id c) (\<lambda>_. and_then (rev_parse tools (c @ ''^'') g) require_object_id)"

definition commit_tree :: "'g git \<Rightarrow> string \<Rightarrow> 'g \<Rightarrow> flow_error + string" where
  "commit_tree tools c g =
     and_then (require_object_id c) (\<lambda>_. and_then (rev_parse tools (c @ ''^{tree}'') g) require_object_id)"

subsection \<open>Trailers\<close>

definition line_break :: "char \<Rightarrow> bool" where
  "line_break c \<longleftrightarrow> char_code c \<in> {10, 11, 12, 13, 28, 29, 30}"

definition white_space :: "char \<Rightarrow> bool" where
  "white_space c \<longleftrightarrow> char_code c \<in> {9, 10, 11, 12, 13, 28, 29, 30, 31, 32}"

fun splitlines :: "string \<Rightarrow> string list" where
  \<comment> \<open>with empty lines that \<open>str.splitlines\<close> does not give for \<open>\r\n\<close> and at the end\<close>
  "splitlines [] = [[]]"
| "splitlines (c # s) =
     (if line_break c then [] # splitlines s
      else case splitlines s of [] \<Rightarrow> [[c]] | w # ws \<Rightarrow> (c # w) # ws)"

definition strip :: "string \<Rightarrow> string" where
  "strip s = rev (dropWhile white_space (rev (dropWhile white_space s)))"

definition trailer :: "string \<Rightarrow> (string \<times> string) option" where
  \<comment> \<open>\<open>line.split(":", 1)\<close>\<close>
  "trailer l =
     (if CHR '':'' \<notin> set l then None
      else let k = takeWhile (\<lambda>c. c \<noteq> CHR '':'') l
        in if startswith k ''Agent-Hub-'' then Some (k, strip (drop (Suc (length k)) l)) else None)"

definition metadata_of :: "string \<Rightarrow> string \<Rightarrow> string option" where
  \<comment> \<open>the first trailer with a key wins\<close>
  "metadata_of body = map_of (List.map_filter trailer (splitlines body))"

definition read_commit_metadata :: "'g git \<Rightarrow> string \<Rightarrow> 'g \<Rightarrow> flow_error + (string \<Rightarrow> string option)" where
  "read_commit_metadata tools c g =
     and_then (require_object_id c) (\<lambda>_. and_then (commit_body tools c g) (\<lambda>b. Inr (metadata_of b)))"

subsection \<open>Committing an approved patch\<close>

record CommitRequest =
  parent_of :: string
  commit_paths :: "string list"
  patch_of :: string
  patch_sha_of :: string
  post_state_of :: string
  session_of :: string
  run_of :: string
  change_set_of :: string
  approval_of :: string
  expected_index :: "string option"

definition trailers :: "CommitRequest \<Rightarrow> string \<Rightarrow> (string \<times> string) list" where
  "trailers q tree =
     [(''Agent-Hub-Session'', session_of q), (''Agent-Hub-Workflow-Run'', run_of q),
      (''Agent-Hub-Change-Set'', change_set_of q), (''Agent-Hub-Approval'', approval_of q),
      (''Agent-Hub-Patch'', patch_sha_of q), (''Agent-Hub-Post-State'', post_state_of q),
      (''Agent-Hub-Tree'', tree)]"

definition commit_message :: "CommitRequest \<Rightarrow> string \<Rightarrow> string" where
  "commit_message q tree = ''Agent Hub approved ChangeSet merge'' @ [CHR 0x0A, CHR 0x0A] @
     concat (map (\<lambda>(k, v). k @ '': '' @ v @ [CHR 0x0A]) (trailers q tree))"

definition carries :: "(string \<Rightarrow> string option) \<Rightarrow> (string \<times> string) list \<Rightarrow> bool" where
  \<comment> \<open>\<open>all(metadata.get(key) == value for \<dots>)\<close>\<close>
  "carries meta expected \<longleftrightarrow> list_all (\<lambda>(k, v). meta k = Some v) expected"

definition refuse_if :: "bool \<Rightarrow> ('g, flow_error, unit) action" where
  "refuse_if b = reading (\<lambda>_. if b then Inl GitManagerError else Inr ())"

definition stage_patch :: "(string \<Rightarrow> string) \<Rightarrow> 'g git \<Rightarrow> CommitRequest \<Rightarrow> ('g, flow_error, string) action" where
  \<comment> \<open>up to the commit: the tree that was staged is the canonical one\<close>
  "stage_patch H tools q =
     job_then (refuse_if (\<not> is_git_object_id (parent_of q) \<or> H (patch_of q) \<noteq> patch_sha_of q \<or>
       commit_paths q = [] \<or> pathspec_problem (commit_paths q))) (\<lambda>_.
     job_then (reading (repository_state tools)) (\<lambda>old.
     job_then (refuse_if (state_commit old \<noteq> parent_of q \<or> staged old)) (\<lambda>_.
     job_then (reading (\<lambda>g. case expected_index q of None \<Rightarrow> Inr ()
       | Some i \<Rightarrow> and_then (index_sha256 H tools g) (\<lambda>j. if j \<noteq> i then Inl GitManagerError else Inr ()))) (\<lambda>_.
     job_then (reading (canonical_patch_tree tools (parent_of q) (patch_of q))) (\<lambda>expected_tree.
     job_then (add_paths tools (sorted_set (commit_paths q))) (\<lambda>_.
     job_then (reading (staged_names tools)) (\<lambda>names.
     job_then (refuse_if (names = [])) (\<lambda>_.
     job_then (reading (repository_state tools)) (\<lambda>after.
     job_then (refuse_if (unstaged after \<or> untracked_files after \<noteq> [])) (\<lambda>_.
     job_then (reading (staged_diff tools)) (\<lambda>changed.
     job_then (refuse_if (\<not> changed)) (\<lambda>_.
     job_then (write_tree tools) (\<lambda>tree.
     job_then (refuse_if (\<not> is_git_object_id tree \<or> tree \<noteq> expected_tree)) (\<lambda>_.
     reading (\<lambda>_. Inr tree)))))))))))))))"

definition verify_commit :: "'g git \<Rightarrow> CommitRequest \<Rightarrow> string \<Rightarrow> 'g \<Rightarrow> flow_error + (string \<times> string)" where
  \<comment> \<open>what is checked of the commit that was made\<close>
  "verify_commit tools q tree g =
     and_then (repository_state tools g) (\<lambda>s.
       if dirty s then Inl GitManagerError
       else and_then (rev_parse tools ''HEAD^'' g) (\<lambda>p.
         if p \<noteq> parent_of q then Inl GitManagerError
         else and_then (and_then (rev_parse tools ''HEAD^{tree}'' g) require_object_id) (\<lambda>t.
           if t \<noteq> tree then Inl GitManagerError
           else and_then (read_commit_metadata tools (state_commit s) g) (\<lambda>meta.
             if \<not> carries meta (trailers q tree) then Inl GitManagerError
             else Inr (state_commit s, t)))))"

definition commit_approved_patch ::
  "(string \<Rightarrow> string) \<Rightarrow> 'g git \<Rightarrow> CommitRequest \<Rightarrow> ('g, flow_error, string \<times> string) action" where
  "commit_approved_patch H tools q =
     job_then (stage_patch H tools q) (\<lambda>tree.
     job_then (commit_index tools (commit_message q tree)) (\<lambda>_.
     reading (verify_commit tools q tree)))"

subsection \<open>What a commit stands for\<close>

lemma refuse_if_Inr [job_simps]: "refuse_if b g = (g', Inr u) \<longleftrightarrow> g' = g \<and> \<not> b"
  by (auto simp: refuse_if_def reading_simps)

lemma stage_patch_Inr:
  "stage_patch H tools q g = (g', Inr tree) \<Longrightarrow> is_git_object_id (parent_of q) \<and> H (patch_of q) = patch_sha_of q \<and>
     (\<exists>s. repository_state tools g = Inr s \<and> state_commit s = parent_of q \<and> \<not> staged s) \<and>
     canonical_patch_tree tools (parent_of q) (patch_of q) g = Inr tree"
  unfolding stage_patch_def by (auto simp: job_simps)

lemma verify_commit_Inr:
  "verify_commit tools q tree g = Inr (tip, t) \<Longrightarrow> t = tree \<and>
     (\<exists>s meta. repository_state tools g = Inr s \<and> state_commit s = tip \<and> \<not> dirty s \<and>
       rev_parse tools ''HEAD^'' g = Inr (parent_of q) \<and> rev_parse tools ''HEAD^{tree}'' g = Inr tree \<and>
       is_git_object_id tree \<and> read_commit_metadata tools tip g = Inr meta \<and> carries meta (trailers q tree))"
  unfolding verify_commit_def require_object_id_def by (auto simp: and_then_Inr split: if_splits)

lemma commit_approved_patch_Inr:
  "commit_approved_patch H tools q g = (g', Inr (tip, tree)) \<longleftrightarrow>
     (\<exists>g1 g2 t. stage_patch H tools q g = (g1, Inr t) \<and> commit_index tools (commit_message q t) g1 = (g2, Inr ()) \<and>
       g' = g2 \<and> verify_commit tools q t g' = Inr (tip, tree))"
  unfolding commit_approved_patch_def by (auto simp: job_simps)

text \<open>
  A commit is the approved patch. When \<open>commit_approved_patch\<close> returns, the bytes it was given hash to
  the approved digest, HEAD was the approved base before, and now HEAD is the commit it returns, its
  parent is that base, its tree is the one the patch has on a private index over the base, the
  repository is clean, and the trailers name everything that was approved.
\<close>

definition committed_as :: "'g git \<Rightarrow> CommitRequest \<Rightarrow> string \<Rightarrow> string \<Rightarrow> 'g \<Rightarrow> bool" where
  "committed_as tools q tip tree g \<longleftrightarrow>
     (\<exists>s meta. repository_state tools g = Inr s \<and> state_commit s = tip \<and> \<not> dirty s \<and>
       rev_parse tools ''HEAD^'' g = Inr (parent_of q) \<and> rev_parse tools ''HEAD^{tree}'' g = Inr tree \<and>
       read_commit_metadata tools tip g = Inr meta \<and> carries meta (trailers q tree))"

lemma commits_are_the_approved_patch:
  assumes "commit_approved_patch H tools q g = (g', Inr (tip, tree))"
  shows "H (patch_of q) = patch_sha_of q \<and>
    (\<exists>s. repository_state tools g = Inr s \<and> state_commit s = parent_of q) \<and>
    canonical_patch_tree tools (parent_of q) (patch_of q) g = Inr tree \<and> committed_as tools q tip tree g'"
  using assms unfolding commit_approved_patch_Inr committed_as_def
  by (elim exE conjE) (drule stage_patch_Inr, drule verify_commit_Inr, blast)

subsection \<open>Reading trailers back\<close>

definition plain :: "string \<Rightarrow> bool" where
  \<comment> \<open>one line, without white space around it\<close>
  "plain v \<longleftrightarrow> list_all (\<lambda>c. \<not> line_break c) v \<and> strip v = v"

lemma splitlines_line:
  "list_all (\<lambda>c. \<not> line_break c) l \<Longrightarrow> splitlines (l @ CHR 0x0A # s) = l # splitlines s"
  by (induction l) (auto simp: line_break_def)

lemma trailer_line:
  assumes "CHR '':'' \<notin> set k" and "startswith k ''Agent-Hub-''" and "plain v"
  shows "trailer (k @ '': '' @ v) = Some (k, v)"
proof -
  have "takeWhile (\<lambda>c. c \<noteq> CHR '':'') (k @ '': '' @ v) = k"
    using assms(1) by (auto simp: takeWhile_append)
  moreover have "strip (CHR '' '' # v) = strip v"
    by (simp add: strip_def white_space_def)
  ultimately show ?thesis using assms(2,3) by (simp add: trailer_def plain_def)
qed

lemma trailer_lines:
  assumes "list_all (\<lambda>(k, v). CHR '':'' \<notin> set k \<and> list_all (\<lambda>c. \<not> line_break c) k \<and>
    startswith k ''Agent-Hub-'' \<and> plain v) kvs"
  shows "List.map_filter trailer (splitlines (concat (map (\<lambda>(k, v). k @ '': '' @ v @ [CHR 0x0A]) kvs))) = kvs"
  using assms
proof (induction kvs)
  case Nil
  then show ?case by (simp add: trailer_def)
next
  case (Cons kv kvs)
  obtain k v where kv: "kv = (k, v)" by fastforce
  have "list_all (\<lambda>c. \<not> line_break c) (k @ '': '' @ v)"
    using Cons.prems by (simp add: kv plain_def line_break_def)
  from splitlines_line [OF this, of "concat (map (\<lambda>(k, v). k @ '': '' @ v @ [CHR 0x0A]) kvs)"]
  show ?case using Cons trailer_line [of k v] by (simp add: kv)
qed

text \<open>
  C38: the trailers of a merge commit can be read back: what \<open>read_commit_metadata\<close> finds in the
  message that \<open>commit_approved_patch\<close> writes is exactly the trailers, provided that the values are
  lines without white space around them, as identifiers and digests are.
\<close>

theorem trailers_are_read_back:
  assumes "list_all (\<lambda>(k, v). plain v) (trailers q tree)"
  shows "metadata_of (commit_message q tree) = map_of (trailers q tree) \<and>
    carries (metadata_of (commit_message q tree)) (trailers q tree)"
proof -
  let ?title = "''Agent Hub approved ChangeSet merge''"
  have "list_all (\<lambda>(k, v). CHR '':'' \<notin> set k \<and> list_all (\<lambda>c. \<not> line_break c) k \<and>
      startswith k ''Agent-Hub-'' \<and> plain v) (trailers q tree)"
    using assms by (simp add: trailers_def startswith_def line_break_def)
  note lines = trailer_lines [OF this]
  have "list_all (\<lambda>c. \<not> line_break c) ?title" by (simp add: line_break_def)
  from splitlines_line [OF this, of "CHR 0x0A # concat (map (\<lambda>(k, v). k @ '': '' @ v @ [CHR 0x0A]) (trailers q tree))"]
    splitlines_line [of "[]" "concat (map (\<lambda>(k, v). k @ '': '' @ v @ [CHR 0x0A]) (trailers q tree))"]
  have "splitlines (commit_message q tree) =
      ?title # [] # splitlines (concat (map (\<lambda>(k, v). k @ '': '' @ v @ [CHR 0x0A]) (trailers q tree)))"
    unfolding commit_message_def by simp
  moreover have "trailer ?title = None" "trailer [] = None"
    by (simp_all add: trailer_def)
  ultimately have "metadata_of (commit_message q tree) = map_of (trailers q tree)"
    using lines unfolding metadata_of_def by simp
  moreover have "carries (map_of (trailers q tree)) (trailers q tree)"
    by (simp add: carries_def trailers_def)
  ultimately show ?thesis by simp
qed

definition sample_commit_request :: CommitRequest where
  "sample_commit_request = \<lparr>parent_of = replicate 40 CHR ''0'', commit_paths = [''a.md''], patch_of = ''diff'',
     patch_sha_of = ''p'', post_state_of = ''q'', session_of = ''s'', run_of = ''r'', change_set_of = ''c'',
     approval_of = ''a'', expected_index = None\<rparr>"

lemma trailers_are_read_back_witness:
  "metadata_of (commit_message sample_commit_request ''t'') ''Agent-Hub-Approval'' = Some ''a''"
proof -
  have "list_all (\<lambda>(k, v). plain v) (trailers sample_commit_request ''t'')"
    by code_simp
  from trailers_are_read_back [OF this] show ?thesis
    by (simp add: trailers_def sample_commit_request_def)
qed

end
