(* ===== verification/Merges.thy ===== *)
theory Merges
  imports Git_Commits Approval_Manager
begin

text \<open>
  \<open>workflow/handlers/merge_patch.py\<close> with the lock of \<open>workspace/lock_manager.py\<close>: an approved
  change set is applied to the shared repository and committed. The state is a store of the hub and
  a repository. While a task waits, others run: a \<open>Schedule\<close> says what they do to both, what the
  clock shows, when the task is cancelled and when the heartbeat of its lease is found to have
  failed.
\<close>

subsection \<open>What happens around a task\<close>

record 'w Schedule =
  others :: "nat \<Rightarrow> 'w \<Rightarrow> 'w"
  interrupted :: "nat \<Rightarrow> bool"
  clock :: "nat \<Rightarrow> time"
  healthy :: "nat \<Rightarrow> bool"
  process :: int

definition pause :: "'w Schedule \<Rightarrow> nat \<Rightarrow> ('w, flow_error, unit) action" where
  \<comment> \<open>the \<open>k\<close>th \<open>await\<close>\<close>
  "pause sch k w = (others sch k w, if interrupted sch k then Inl Cancelled else Inr ())"

definition assert_healthy :: "'w Schedule \<Rightarrow> nat \<Rightarrow> ('w, flow_error, unit) action" where
  "assert_healthy sch k = reading (\<lambda>_. if healthy sch k then Inr () else Inl (Raised (LeaseError LeaseLost)))"

definition raised :: "run_error + 'a \<Rightarrow> flow_error + 'a" where
  "raised = map_sum Raised id"

definition hub_reads :: "(HubStore \<Rightarrow> run_error + 'a) \<Rightarrow> (HubStore \<times> 'g, flow_error, 'a) action" where
  "hub_reads f = on_fst (reading (\<lambda>h. raised (f h)))"

definition run_commits ::
  "(HubStore \<times> 'g) Schedule \<Rightarrow> nat \<Rightarrow> (RunStore \<Rightarrow> run_error + RunStore) \<Rightarrow> (HubStore \<times> 'g, flow_error, unit) action" where
  \<comment> \<open>the \<open>k\<close>th transaction, of the run repository. The task may be cancelled after the commit, while
      it waits for the connection to close: that wait has the number \<open>100 + k\<close>\<close>
  "run_commits sch k f = job_then (on_fst (committing (\<lambda>h. raised (and_then (f (hub_run h))
     (\<lambda>st. Inr (h\<lparr>hub_run := st\<rparr>, ())))))) (\<lambda>_. pause sch (100 + k))"

definition lock_commits ::
  "(HubStore \<times> 'g) Schedule \<Rightarrow> nat \<Rightarrow> (lock_table \<Rightarrow> lease_error + (lock_table \<times> 'a)) \<Rightarrow>
     (HubStore \<times> 'g, flow_error, 'a) action" where
  \<comment> \<open>one of the lease repository\<close>
  "lock_commits sch k f = job_then (on_fst (committing (\<lambda>h. case f (file_locks (hub_run h)) of
     Inl e \<Rightarrow> Inl (Raised (LeaseError e))
   | Inr (tab, x) \<Rightarrow> Inr (h\<lparr>hub_run := (hub_run h)\<lparr>file_locks := tab\<rparr>\<rparr>, x))))
     (\<lambda>x. job_then (pause sch (100 + k)) (\<lambda>_. reading (\<lambda>_. Inr x)))"

subsection \<open>Holding a workspace lease\<close>

definition lock_key :: "string \<Rightarrow> string" where
  \<comment> \<open>\<open>LockManager.resource_key\<close>\<close>
  "lock_key session = ''session:'' @ session @ '':integration''"

definition acquire ::
  "(HubStore \<times> 'g) Schedule \<Rightarrow> nat \<Rightarrow> string \<Rightarrow> string \<Rightarrow> string \<Rightarrow> int \<Rightarrow>
     (HubStore \<times> 'g, flow_error, WorkspaceLease) action" where
  "acquire sch k session kind opid ttl =
     (if \<not> is_entity_id session \<or> \<not> is_entity_id opid
      then reading (\<lambda>_. Inl (Raised (PyError ValidationError)))
      else lock_commits sch k (\<lambda>tab. workspace_acquire tab (lock_key session) kind opid (process sch) ttl (clock sch k)))"

definition release ::
  "(HubStore \<times> 'g) Schedule \<Rightarrow> nat \<Rightarrow> WorkspaceLease \<Rightarrow> (HubStore \<times> 'g, flow_error, unit) action" where
  "release sch k l = lock_commits sch k (\<lambda>tab. and_then (workspace_release tab l (clock sch k)) (\<lambda>tab'. Inr (tab', ())))"

definition assert_valid ::
  "(HubStore \<times> 'g) Schedule \<Rightarrow> nat \<Rightarrow> string \<Rightarrow> WorkspaceLease \<Rightarrow> (HubStore \<times> 'g, flow_error, unit) action" where
  "assert_valid sch k session l = on_fst (reading (\<lambda>h.
     if resource_key l \<noteq> lock_key session then Inl (Raised (PyError ValueError))
     else case workspace_assert_valid (file_locks (hub_run h)) l (clock sch k) of
       Some e \<Rightarrow> Inl (Raised (LeaseError e)) | None \<Rightarrow> Inr ()))"

definition uncancelled :: "'w Schedule \<Rightarrow> flow_error \<Rightarrow> flow_error" where
  \<comment> \<open>the heartbeat cancels the task when it fails; then the lease is lost\<close>
  "uncancelled sch e = (if e = Cancelled \<and> \<not> healthy sch 20 then Raised (LeaseError LeaseLost) else e)"

definition held ::
  "(HubStore \<times> 'g) Schedule \<Rightarrow> string \<Rightarrow> string \<Rightarrow> string \<Rightarrow> int \<Rightarrow>
     (WorkspaceLease \<Rightarrow> (HubStore \<times> 'g, flow_error, 'a) action) \<Rightarrow> HubStore \<times> 'g \<Rightarrow>
     (HubStore \<times> 'g) \<times> (flow_error + 'a) \<times> flow_error option" where
  \<comment> \<open>\<open>async with hold(\<dots>)\<close>: how the body ended, and what the exit raised after a body that returned.
      The settings keep the heartbeat below the life time\<close>
  "held sch session kind opid ttl body w =
     (case job_then (pause sch 20) (\<lambda>_. acquire sch 20 session kind opid ttl) w of
        (w1, Inl e) \<Rightarrow> (w1, Inl e, None)
      | (w1, Inr l) \<Rightarrow>
          (case (case body l w1 of (w2, r) \<Rightarrow> (w2, map_sum (uncancelled sch) id r)) of (w2, r) \<Rightarrow>
             (case (case r of Inl e \<Rightarrow> (w2, Inl e)
                | Inr _ \<Rightarrow> job_then (assert_healthy sch 20) (\<lambda>_. job_then (pause sch 21) (\<lambda>_.
                    job_then (assert_valid sch 21 session l) (\<lambda>_. assert_healthy sch 21))) w2) of
                (w3, exit) \<Rightarrow>
                  (case job_then (pause sch 22) (\<lambda>_. release sch 22 l) w3 of
                     (w4, gone) \<Rightarrow> (w4, r, case (exit, gone) of
                        (Inl e, _) \<Rightarrow> Some (uncancelled sch e) | (Inr _, Inl e) \<Rightarrow> Some e | _ \<Rightarrow> None)))))"

definition hold ::
  "(HubStore \<times> 'g) Schedule \<Rightarrow> string \<Rightarrow> string \<Rightarrow> string \<Rightarrow> int \<Rightarrow>
     (WorkspaceLease \<Rightarrow> (HubStore \<times> 'g, flow_error, 'a) action) \<Rightarrow> (HubStore \<times> 'g, flow_error, 'a) action" where
  "hold sch session kind opid ttl body w =
     (case held sch session kind opid ttl body w of
        (w1, r, late) \<Rightarrow> (w1, case r of Inl e \<Rightarrow> Inl e
          | Inr x \<Rightarrow> (case late of Some e \<Rightarrow> Inl e | None \<Rightarrow> Inr x)))"

subsection \<open>What is merged\<close>

record CapturedChanges =
  \<comment> \<open>of the verified change set record\<close>
  change_document :: ChangeSetDocument
  captured_manifest :: ChangeSetManifest
  created_files :: "string list"
  created_dirs :: "string list"
  modified_files :: "string list"
  deleted_files :: "string list"
  renamed_files :: "string list"
  new_untracked :: "string list"

record MergeReader =
  verified_changes :: "ChangeSetRow \<Rightarrow> run_error + CapturedChanges"
  verified_patch :: "ChangeSetRow \<Rightarrow> run_error + string" \<comment> \<open>\<open>load_patch\<close>\<close>
  time_text :: "time \<Rightarrow> string"
  verified_artifact :: artifact_reader

definition merge_paths :: "CapturedChanges \<Rightarrow> string list" where
  \<comment> \<open>\<open>_paths\<close>\<close>
  "merge_paths d = sorted_set (created_files d @ modified_files d @ deleted_files d @ renamed_files d @
     new_untracked d @ List.map_filter old_path (changes (captured_manifest d)))"

definition source_record ::
  "MergeReader \<Rightarrow> WorkflowRun \<Rightarrow> string \<Rightarrow> HubStore \<Rightarrow> run_error + (ChangeSetRow \<times> CapturedChanges)" where
  \<comment> \<open>\<open>get_for_source_node\<close>\<close>
  "source_record rd w source h =
     (case (if workflow_run_id (run (hub_run h)) = workflow_run_id w then change_set_for_source h source else None) of
        None \<Rightarrow> Inl RecordNotFound
      | Some (c, t) \<Rightarrow> and_then (verified_changes rd c) (\<lambda>d. Inr (c, d)))"

definition approved_for :: "ApprovalRecord option \<Rightarrow> ChangeSetRow \<Rightarrow> time \<Rightarrow> bool" where
  \<comment> \<open>approved, in time, and of the same base commit and patch as the approved change set\<close>
  "approved_for a c now \<longleftrightarrow>
     (case a of None \<Rightarrow> False
      | Some r \<Rightarrow> ap_status (approval r) = ApprovalStatus.APPROVED \<and> now < approval_expires_at (approval r) \<and>
          change_set_status c = ChangeSetStatus.APPROVED \<and>
          (case subject (approval r) of
             ChangeSetSubject _ base patch \<Rightarrow> base = change_set_base c \<and> patch = change_set_patch c
           | PrivilegeSubject _ \<Rightarrow> False))"

definition evidence_of ::
  "(string \<Rightarrow> string) \<Rightarrow> MergeReader \<Rightarrow> WorkflowRun \<Rightarrow> ChangeSetRow \<Rightarrow> CapturedChanges \<Rightarrow> NodeRun list \<Rightarrow>
     HubStore \<Rightarrow> run_error + (evidence_error + string)" where
  \<comment> \<open>\<open>_current_evidence_hash\<close>, with the artifact repository the application passes\<close>
  "evidence_of H rd w c d rows h =
     (case find (\<lambda>t. task_id t = change_set_task_id c) (tasks (hub_run h)) of
        None \<Rightarrow> Inl RecordNotFound
      | Some t \<Rightarrow> Inr (map_sum id (\<lambda>x. manifest_hash H (fst x))
          (build_manifest (time_text rd) (verified_artifact rd) w c (change_document d) (task_node_run_id t)
             rows (runtime_policy_artifact t)
             (list_privilege_lineage_for_run (workflow_run_id w) h))))"

definition merge_source :: "WorkflowRun \<Rightarrow> string \<Rightarrow> WorkflowNode option" where
  "merge_source w source = find (\<lambda>n. node_id n = source) (compiled_nodes (compiled_snapshot w))"

definition merge_scope :: "WorkflowNode \<Rightarrow> string list" where
  \<comment> \<open>\<open>expected_scope\<close>\<close>
  "merge_scope n = sorted_set (opt_list (effective_allowed_files n) @ opt_list (effective_new_files n))"

definition scope_drifted :: "ApprovalRecord \<Rightarrow> WorkflowNode \<Rightarrow> bool" where
  "scope_drifted r n \<longleftrightarrow> sort (approval_scope (approval r)) \<noteq> merge_scope n"

definition conflict :: "flow_error + 'a" where
  "conflict = Inl (Raised ConcurrencyConflict)"

definition approved_now :: "ChangeSetRow \<Rightarrow> time \<Rightarrow> HubStore \<Rightarrow> flow_error + ApprovalRecord" where
  "approved_now c now h =
     (let a = latest_for_change_set h (change_set_id c)
      in if \<not> approved_for a c now then conflict else Inr (the a))"

subsection \<open>Before the lock\<close>

definition admit ::
  "(HubStore \<times> 'g) Schedule \<Rightarrow> MergeReader \<Rightarrow> WorkflowRun \<Rightarrow> string \<Rightarrow>
     (HubStore \<times> 'g, flow_error, ChangeSetRow \<times> CapturedChanges) action" where
  "admit sch rd w source =
     job_then (pause sch 0) (\<lambda>_. job_then (hub_reads (source_record rd w source)) (\<lambda>(c, d).
     job_then (pause sch 1) (\<lambda>_.
     job_then (on_fst (reading (approved_now c (clock sch 1)))) (\<lambda>a.
     reading (\<lambda>_. case merge_source w source of
       None \<Rightarrow> Inl (Raised (PyError ValueError))
     | Some n \<Rightarrow>
         (if scope_drifted a n then conflict
          else if merge_paths d = [] then Inl GitManagerError
          else Inr (c, d)))))))"

subsection \<open>Under the lock\<close>

definition open_merge ::
  "(string \<Rightarrow> string) \<Rightarrow> (HubStore \<times> 'g) Schedule \<Rightarrow> 'g git \<Rightarrow> WorkflowRun \<Rightarrow> ChangeSetRow \<Rightarrow> MasterLease \<Rightarrow>
     WorkspaceLease \<Rightarrow> (HubStore \<times> 'g, flow_error, string) action" where
  \<comment> \<open>until the run says that a merge is being finalized; the result is \<open>expected_index_sha256\<close>\<close>
  "open_merge H sch tools w c lease l =
     job_then (assert_healthy sch 0) (\<lambda>_.
     job_then (on_snd (reading (repository_state tools))) (\<lambda>s.
     job_then (reading (\<lambda>_. if dirty s \<or> state_commit s \<noteq> current_commit w then conflict
       else if state_commit s \<noteq> change_set_base c then conflict else Inr ())) (\<lambda>_.
     job_then (on_snd (reading (index_sha256 H tools))) (\<lambda>i.
     job_then (pause sch 2) (\<lambda>_.
     job_then (run_commits sch 2 (begin_merge_finalizing (workflow_run_id w) l lease (clock sch 2))) (\<lambda>_.
     reading (\<lambda>_. Inr i)))))))"

definition unchanged_subject ::
  "(string \<Rightarrow> string) \<Rightarrow> MergeReader \<Rightarrow> WorkflowRun \<Rightarrow> string \<Rightarrow> ChangeSetRow \<Rightarrow> CapturedChanges \<Rightarrow>
     ApprovalRecord \<Rightarrow> HubStore \<Rightarrow> flow_error + unit" where
  \<comment> \<open>the evidence and the scope are those of the approval\<close>
  "unchanged_subject H rd w source c d a h =
     (case evidence_of H rd w c d (node_runs (hub_run h)) h of
        Inr (Inr e) \<Rightarrow>
          (if evidence_sha256 (approval a) \<noteq> e then conflict
           else case merge_source w source of
             None \<Rightarrow> conflict
           | Some n \<Rightarrow> (if scope_drifted a n then conflict else Inr ()))
      | _ \<Rightarrow> conflict)"

definition readmit ::
  "(string \<Rightarrow> string) \<Rightarrow> (HubStore \<times> 'g) Schedule \<Rightarrow> MergeReader \<Rightarrow> WorkflowRun \<Rightarrow> string \<Rightarrow>
     (HubStore \<times> 'g, flow_error, ChangeSetRow \<times> CapturedChanges \<times> ApprovalRecord) action" where
  \<comment> \<open>the change set, the approval and the evidence are read again\<close>
  "readmit H sch rd w source =
     job_then (assert_healthy sch 1) (\<lambda>_.
     job_then (pause sch 3) (\<lambda>_. job_then (hub_reads (source_record rd w source)) (\<lambda>(c, d).
     job_then (pause sch 4) (\<lambda>_. job_then (on_fst (reading (approved_now c (clock sch 4)))) (\<lambda>a.
     job_then (pause sch 5) (\<lambda>_. job_then (on_fst (reading (unchanged_subject H rd w source c d a))) (\<lambda>_.
     reading (\<lambda>_. Inr (c, d, a)))))))))"

definition merge_request ::
  "WorkflowRun \<Rightarrow> ChangeSetRow \<Rightarrow> CapturedChanges \<Rightarrow> ApprovalRecord \<Rightarrow> string \<Rightarrow> string option \<Rightarrow> CommitRequest" where
  "merge_request w c d a patch index =
     \<lparr>parent_of = change_set_base c, commit_paths = merge_paths d, patch_of = patch,
      patch_sha_of = change_set_patch c, post_state_of = post_state_hash (change_document d),
      session_of = run_session_id w, run_of = workflow_run_id w, change_set_of = change_set_id c,
      approval_of = ap_id a, expected_index = index\<rparr>"

definition publish ::
  "(string \<Rightarrow> string) \<Rightarrow> (HubStore \<times> 'g) Schedule \<Rightarrow> MergeReader \<Rightarrow> 'g git \<Rightarrow> WorkflowRun \<Rightarrow> string \<Rightarrow>
     ChangeSetRow \<Rightarrow> CapturedChanges \<Rightarrow> ApprovalRecord \<Rightarrow> (HubStore \<times> 'g, flow_error, string) action" where
  "publish H sch rd tools w index c d a =
     job_then (pause sch 6) (\<lambda>_. job_then (hub_reads (\<lambda>_. verified_patch rd c)) (\<lambda>patch.
     job_then (on_snd (reading (check_apply tools patch))) (\<lambda>_.
     job_then (on_snd (apply_to_tree tools patch)) (\<lambda>_.
     job_then (assert_healthy sch 2) (\<lambda>_.
     job_then (on_snd (commit_approved_patch H tools (merge_request w c d a patch (Some index)))) (\<lambda>(commit, _).
     reading (\<lambda>_. Inr commit)))))))"

definition finish_merge ::
  "(HubStore \<times> 'g) Schedule \<Rightarrow> NodeRun \<Rightarrow> ChangeSetRow \<Rightarrow> string \<Rightarrow> WorkspaceLease \<Rightarrow> MasterLease \<Rightarrow>
     (HubStore \<times> 'g, flow_error, unit) action" where
  "finish_merge sch r c commit l lease =
     job_then (assert_healthy sch 3) (\<lambda>_. job_then (pause sch 7) (\<lambda>_.
     run_commits sch 7 (finalize_merge (node_run_id r) (change_set_id c) commit l lease
       ''Master committed the approved ChangeSet.'' (clock sch 7))))"

subsection \<open>When it fails\<close>

definition restore_tree ::
  "'g git \<Rightarrow> ChangeSetRow \<Rightarrow> CapturedChanges \<Rightarrow> string list \<Rightarrow> ('g, flow_error, unit) action" where
  \<comment> \<open>\<open>restore\<close>, with the three commands of the Git manager it calls\<close>
  "restore_tree tools c d paths =
     (let created = sorted_set (created_files d @ new_untracked d @ renamed_files d @ created_dirs d);
          existing = filter (\<lambda>p. p \<notin> set created) paths;
          nothing = reading (\<lambda>_. Inr ())
      in job_then (refuse_if (\<not> is_git_object_id (change_set_base c))) (\<lambda>_.
         job_then (if existing = [] then nothing
           else job_then (refuse_if (pathspec_problem existing)) (\<lambda>_. restore_files tools (change_set_base c) existing)) (\<lambda>_.
         job_then (if created = [] then nothing
           else job_then (refuse_if (pathspec_problem created)) (\<lambda>_. remove_cached tools created)) (\<lambda>_.
         job_then (refuse_if ([] \<in> set created)) (\<lambda>_.
         remove_entries tools (rev (sort_key (\<lambda>p. count_list p CHR ''/'') created)))))))"

definition fenced_restore ::
  "(HubStore \<times> 'g) Schedule \<Rightarrow> int \<Rightarrow> string \<Rightarrow> WorkspaceLease \<Rightarrow> ('g, flow_error, unit) action \<Rightarrow>
     (HubStore \<times> 'g, flow_error, unit) action" where
  \<comment> \<open>\<open>LockManager.run_fenced\<close>: the lease is checked before the operation and renewed after it\<close>
  "fenced_restore sch ttl session l operation =
     job_then (assert_healthy sch 5) (\<lambda>_.
     job_then (assert_valid sch 9 session l) (\<lambda>_.
     job_then (on_snd operation) (\<lambda>_.
     job_then (lock_commits sch 10 (\<lambda>tab. and_then (workspace_heartbeat tab l ttl (clock sch 10)) (\<lambda>(tab', _). Inr (tab', ())))) (\<lambda>_.
     assert_healthy sch 6))))"

definition undo_merge ::
  "(HubStore \<times> 'g) Schedule \<Rightarrow> MergeReader \<Rightarrow> 'g git \<Rightarrow> WorkflowRun \<Rightarrow> string \<Rightarrow> MasterLease \<Rightarrow> int \<Rightarrow>
     WorkspaceLease \<Rightarrow> string list \<Rightarrow> string option \<Rightarrow> (HubStore \<times> 'g, flow_error, unit) action" where
  \<comment> \<open>the body of \<open>_recover_failure\<close>\<close>
  "undo_merge sch rd tools w source lease ttl l paths committed =
     job_then (assert_healthy sch 4) (\<lambda>_.
     job_then (on_snd (reading (repository_state tools))) (\<lambda>s.
     if committed \<noteq> None \<or> state_commit s \<noteq> current_commit w
     then reading (\<lambda>_. Inl ChangeSetReconciliationRequired)
     else job_then
       (if dirty s
        then job_then (pause sch 8) (\<lambda>_. job_then (hub_reads (source_record rd w source)) (\<lambda>(c, d).
          job_then (pause sch 9) (\<lambda>_. fenced_restore sch ttl (run_session_id w) l (restore_tree tools c d paths))))
        else reading (\<lambda>_. Inr ())) (\<lambda>_.
     job_then (on_snd (reading (repository_state tools))) (\<lambda>clean.
     if dirty clean \<or> state_commit clean \<noteq> current_commit w
     then reading (\<lambda>_. Inl ChangeSetReconciliationRequired)
     else job_then (pause sch 11) (\<lambda>_.
       run_commits sch 11 (clear_merge_finalizing (workflow_run_id w) l lease (clock sch 11)))))))"

definition recover_failure ::
  "(HubStore \<times> 'g) Schedule \<Rightarrow> MergeReader \<Rightarrow> 'g git \<Rightarrow> WorkflowRun \<Rightarrow> string \<Rightarrow> MasterLease \<Rightarrow> int \<Rightarrow>
     WorkspaceLease \<Rightarrow> string list \<Rightarrow> string option \<Rightarrow> flow_error \<Rightarrow> (HubStore \<times> 'g, flow_error, unit) action" where
  \<comment> \<open>whatever it raises itself asks for a reconciliation\<close>
  "recover_failure sch rd tools w source lease ttl l paths committed cause =
     on_error (undo_merge sch rd tools w source lease ttl l paths committed)
       (\<lambda>_. reading (\<lambda>_. Inl ChangeSetReconciliationRequired))"

subsection \<open>The handler\<close>

definition merge_body ::
  "(string \<Rightarrow> string) \<Rightarrow> (HubStore \<times> 'g) Schedule \<Rightarrow> MergeReader \<Rightarrow> 'g git \<Rightarrow> NodeExecutionContext \<Rightarrow> string \<Rightarrow>
     MasterLease \<Rightarrow> int \<Rightarrow> ChangeSetRow \<Rightarrow> CapturedChanges \<Rightarrow> WorkspaceLease \<Rightarrow> (HubStore \<times> 'g, flow_error, unit) action" where
  \<comment> \<open>\<open>changed_paths\<close> and \<open>committed\<close> are what the failure handler sees of them\<close>
  "merge_body H sch rd tools ctx source lease ttl c0 d0 l =
     (let w = ctx_run ctx; undo = recover_failure sch rd tools w source lease ttl l in
      job_then (open_merge H sch tools w c0 lease l) (\<lambda>index.
      job_then (on_error (readmit H sch rd w source) (undo (merge_paths d0) None)) (\<lambda>(c, d, a).
      job_then (on_error (publish H sch rd tools w index c d a) (undo (merge_paths d) None)) (\<lambda>commit.
      on_error (finish_merge sch (ctx_node_run ctx) c commit l lease) (undo (merge_paths d) (Some commit))))))"

definition merge_patch_handler ::
  "(string \<Rightarrow> string) \<Rightarrow> (HubStore \<times> 'g) Schedule \<Rightarrow> MergeReader \<Rightarrow> 'g git \<Rightarrow> NodeExecutionContext \<Rightarrow>
     MasterLease \<Rightarrow> int \<Rightarrow> (HubStore \<times> 'g, flow_error, NodeHandlerResult) action" where
  "merge_patch_handler H sch rd tools ctx lease ttl =
     (case source_node_id (ctx_node ctx) of
        None \<Rightarrow> reading (\<lambda>_. Inl (Raised (PyError ValueError)))
      | Some source \<Rightarrow>
          job_then (admit sch rd (ctx_run ctx) source) (\<lambda>(c, d).
          job_then (hold sch (run_session_id (ctx_run ctx)) ''merge'' (node_run_id (ctx_node_run ctx)) ttl
            (merge_body H sch rd tools ctx source lease ttl c d)) (\<lambda>_.
          reading (\<lambda>_. raised (map_sum PyError id (make_result NodeRunStatus.COMPLETED NodeOutcome.SUCCESS
            ''Master applied and committed the approved ChangeSet.'' None))))))"

end
