(* ===== verification/Recovery.thy ===== *)
theory Recovery
  imports Merges
begin

text \<open>
  \<open>workflow/recovery.py\<close>: what the hub does at its start with runs that a former process left
  behind. The finalization of a merge is judged by the durable records and by the repository.
\<close>

subsection \<open>Events\<close>

definition recovery_event :: "MasterLease \<Rightarrow> string \<Rightarrow> string \<Rightarrow> string \<Rightarrow> HubStore \<Rightarrow> HubStore" where
  "recovery_event lease act outcome reason h =
     h\<lparr>hub_run := emit (RecoveryAction (fencing_token lease) act outcome reason) (hub_run h)\<rparr>"

definition recovery_security_event :: "string \<Rightarrow> HubStore \<Rightarrow> HubStore" where
  "recovery_security_event reason h =
     h\<lparr>security_events := security_events h @ [\<lparr>security_task = None,
         security_type = ''workflow.recovery_action'', severity = INFO, security_reason = reason\<rparr>]\<rparr>"

definition emitting ::
  "(HubStore \<times> 'g) Schedule \<Rightarrow> MasterLease \<Rightarrow> string \<Rightarrow> string \<Rightarrow> string \<Rightarrow> (HubStore \<times> 'g, flow_error, unit) action" where
  \<comment> \<open>\<open>_emit\<close>: two transactions\<close>
  "emitting sch lease act outcome reason =
     job_then (pause sch 43) (\<lambda>_.
     job_then (on_fst (committing (\<lambda>h. Inr (recovery_event lease act outcome reason h, ())))) (\<lambda>_.
     job_then (pause sch 44) (\<lambda>_.
     job_then (on_fst (committing (\<lambda>h. Inr (recovery_security_event reason h, ())))) (\<lambda>_. pause sch 45))))"

subsection \<open>The judgement\<close>

datatype judgement =
    Quarantine string
  | Clear \<comment> \<open>the crash came before the commit\<close>
  | Finalize string string string \<comment> \<open>the merge node's run, the change set, the commit\<close>

definition invalid_approval :: judgement where
  "invalid_approval = Quarantine ''merge_approval_missing_or_invalid''"

definition judge_commit ::
  "MergeReader \<Rightarrow> 'g git \<Rightarrow> WorkflowRun \<Rightarrow> NodeRun \<Rightarrow> ChangeSetRow \<Rightarrow> CapturedChanges \<Rightarrow> ApprovalRecord \<Rightarrow>
     RepositoryState \<Rightarrow> 'g \<Rightarrow> flow_error + judgement" where
  \<comment> \<open>is the commit at HEAD the one this merge would have made?\<close>
  "judge_commit rd tools w r c d a s g =
     and_then (raised (verified_patch rd c)) (\<lambda>patch.
     and_then (canonical_patch_tree tools (change_set_base c) patch g) (\<lambda>expected_tree.
     and_then (read_commit_metadata tools (state_commit s) g) (\<lambda>meta.
     and_then (commit_tree tools (state_commit s) g) (\<lambda>tree.
     and_then (commit_parent tools (state_commit s) g) (\<lambda>parent.
       if \<not> dirty s \<and> parent = current_commit w \<and> current_commit w = change_set_base c \<and> tree = expected_tree \<and>
         carries meta (trailers (merge_request w c d a patch None) tree)
       then Inr (Finalize (node_run_id r) (change_set_id c) (state_commit s))
       else Inr (Quarantine ''merge finalization evidence was ambiguous''))))))"

definition merge_of :: "NodeRun list \<Rightarrow> NodeRun option" where
  "merge_of rows = find (\<lambda>r. nr_node_type r = MERGE_PATCH \<and> nr_status r = NodeRunStatus.RUNNING) rows"

definition source_of :: "WorkflowRun \<Rightarrow> NodeRun \<Rightarrow> string option" where
  "source_of w r = (case find (\<lambda>n. node_id n = nr_node_id r) (compiled_nodes (compiled_snapshot w)) of
     None \<Rightarrow> None | Some n \<Rightarrow> source_node_id n)"

definition found_record ::
  "MergeReader \<Rightarrow> WorkflowRun \<Rightarrow> string \<Rightarrow> HubStore \<Rightarrow> flow_error + (ChangeSetRow \<times> CapturedChanges) option" where
  "found_record rd w source h = (case source_record rd w source h of
     Inl RecordNotFound \<Rightarrow> Inr None | Inl e \<Rightarrow> Inl (Raised e) | Inr x \<Rightarrow> Inr (Some x))"

definition judge_approval ::
  "(string \<Rightarrow> string) \<Rightarrow> (HubStore \<times> 'g) Schedule \<Rightarrow> MergeReader \<Rightarrow> 'g git \<Rightarrow> WorkflowRun \<Rightarrow> NodeRun \<Rightarrow>
     NodeRun list \<Rightarrow> ChangeSetRow \<Rightarrow> CapturedChanges \<Rightarrow> (HubStore \<times> 'g, flow_error, judgement) action" where
  "judge_approval H sch rd tools w r rows c d =
     job_then (pause sch 31) (\<lambda>_.
     job_then (on_fst (reading (\<lambda>h. Inr (latest_for_change_set h (change_set_id c))))) (\<lambda>a.
     job_then (pause sch 32) (\<lambda>_.
     job_then (on_fst (reading (\<lambda>h. raised (evidence_of H rd w c d rows h)))) (\<lambda>evidence.
       case evidence of
         Inl ArtifactFailure \<Rightarrow> reading (\<lambda>_. Inl (Raised RuntimeError))
       | _ \<Rightarrow>
           (if \<not> approved_for a c (clock sch 32) \<or>
              evidence_sha256 (approval (the a)) \<noteq> (case evidence of Inr e \<Rightarrow> e | Inl _ \<Rightarrow> [])
            then reading (\<lambda>_. Inr invalid_approval)
            else job_then (pause sch 33) (\<lambda>_. job_then (on_snd (reading (repository_state tools))) (\<lambda>s.
              job_then (assert_healthy sch 31) (\<lambda>_.
              if state_commit s = current_commit w \<and> \<not> dirty s then reading (\<lambda>_. Inr Clear)
              else job_then (pause sch 34) (\<lambda>_. on_snd (reading (judge_commit rd tools w r c d (the a) s)))))))))))"

definition judge ::
  "(string \<Rightarrow> string) \<Rightarrow> (HubStore \<times> 'g) Schedule \<Rightarrow> MergeReader \<Rightarrow> 'g git \<Rightarrow> WorkflowRun \<Rightarrow>
     (HubStore \<times> 'g, flow_error, judgement) action" where
  "judge H sch rd tools w =
     (if cancel_requested_at w \<noteq> None
      then reading (\<lambda>_. Inr (Quarantine ''cancellation raced with merge finalization''))
      else job_then (pause sch 30) (\<lambda>_. job_then (on_fst (reading (\<lambda>h. Inr (node_runs (hub_run h))))) (\<lambda>rows.
        case merge_of rows of
          None \<Rightarrow> reading (\<lambda>_. Inr (Quarantine ''merge_finalizing_without_running_merge_node''))
        | Some r \<Rightarrow>
            (case source_of w r of
               None \<Rightarrow> reading (\<lambda>_. Inr (Quarantine ''merge_source_missing''))
             | Some i \<Rightarrow> job_then (pause sch 38) (\<lambda>_. job_then (on_fst (reading (found_record rd w i))) (\<lambda>found.
                 case found of
                   None \<Rightarrow> reading (\<lambda>_. Inr (Quarantine ''recovery ChangeSet is missing''))
                 | Some (c, d) \<Rightarrow> judge_approval H sch rd tools w r rows c d))))))"

subsection \<open>The action\<close>

definition recovered :: "string" where
  "recovered = ''commit trailer, canonical patch tree, parent, and clean repository matched''"

definition settle_merge ::
  "(HubStore \<times> 'g) Schedule \<Rightarrow> WorkflowRun \<Rightarrow> MasterLease \<Rightarrow> WorkspaceLease \<Rightarrow> judgement \<Rightarrow>
     (HubStore \<times> 'g, flow_error, judgement) action" where
  "settle_merge sch w lease l j =
     (case j of
        Quarantine _ \<Rightarrow> reading (\<lambda>_. Inr j)
      | Clear \<Rightarrow> job_then (pause sch 35) (\<lambda>_. job_then
          (run_commits sch 35 (clear_merge_finalizing (workflow_run_id w) l lease (clock sch 35)))
          (\<lambda>_. reading (\<lambda>_. Inr j)))
      | Finalize i c commit \<Rightarrow> job_then (pause sch 35) (\<lambda>_. job_then
          (run_commits sch 35 (finalize_merge i c commit l lease
            ''Recovery finalized a previously committed Master merge.'' (clock sch 35)))
          (\<lambda>_. reading (\<lambda>_. Inr j))))"

definition orphan_run_as ::
  "(HubStore \<times> 'g) Schedule \<Rightarrow> WorkflowRun \<Rightarrow> MasterLease \<Rightarrow> string \<Rightarrow> string \<Rightarrow> string \<Rightarrow>
     (HubStore \<times> 'g, flow_error, unit) action" where
  "orphan_run_as sch w lease act reason note_text =
     job_then (pause sch 40) (\<lambda>_. job_then
       (run_commits sch 40 (mark_orphaned (workflow_run_id w) lease reason None (clock sch 40)))
       (\<lambda>_. emitting sch lease act ''orphaned'' note_text))"

definition orphan ::
  "(HubStore \<times> 'g) Schedule \<Rightarrow> WorkflowRun \<Rightarrow> MasterLease \<Rightarrow> string \<Rightarrow> (HubStore \<times> 'g, flow_error, unit) action" where
  \<comment> \<open>\<open>_orphan\<close>\<close>
  "orphan sch w lease reason = orphan_run_as sch w lease ''quarantine_ambiguous_merge'' reason reason"

definition recover_finalizing ::
  "(string \<Rightarrow> string) \<Rightarrow> (HubStore \<times> 'g) Schedule \<Rightarrow> MergeReader \<Rightarrow> 'g git \<Rightarrow> WorkflowRun \<Rightarrow> MasterLease \<Rightarrow>
     (HubStore \<times> 'g, flow_error, unit) action" where
  \<comment> \<open>\<open>result\<close> is set once a transaction has run, whatever the exit of the lock raises; only a
      cancellation is not an \<open>Exception\<close>\<close>
  "recover_finalizing H sch rd tools w lease st =
     (case held sch (run_session_id w) ''recovery'' (''recovery-'' @ workflow_run_id w) 30
         (\<lambda>l. job_then (assert_healthy sch 30) (\<lambda>_. job_then (judge H sch rd tools w) (settle_merge sch w lease l))) st of
        (w1, r, late) \<Rightarrow>
          (if r = Inl Cancelled \<or> late = Some Cancelled then (w1, Inl Cancelled)
           else case r of
             Inr Clear \<Rightarrow> emitting sch lease ''clear_uncommitted_finalization'' ''retryable''
               ''crash occurred before a Master commit was published'' w1
           | Inr (Finalize _ _ _) \<Rightarrow> emitting sch lease ''finalize_committed_merge'' ''recovered'' recovered w1
           | Inr (Quarantine reason) \<Rightarrow> orphan sch w lease
               (if late = None then reason else ''merge finalization evidence was unreadable or ambiguous'') w1
           | Inl _ \<Rightarrow> orphan sch w lease ''merge finalization evidence was unreadable or ambiguous'' w1))"

definition recover_run ::
  "(string \<Rightarrow> string) \<Rightarrow> (HubStore \<times> 'g) Schedule \<Rightarrow> MergeReader \<Rightarrow> 'g git \<Rightarrow> WorkflowRun \<Rightarrow> MasterLease \<Rightarrow>
     (HubStore \<times> 'g, flow_error, unit) action" where
  \<comment> \<open>one turn of the loop of \<open>recover\<close>, with the capability broker the application passes\<close>
  "recover_run H sch rd tools w lease =
     (if cancel_requested_at w \<noteq> None \<and> merge_finalizing_at w = None
      then job_then (pause sch 36) (\<lambda>_. \<lambda>(h, g).
        case cancel_run_with_cleanup (workflow_run_id w) lease ''recovery_completed_partial_cancellation''
            (clock sch 36) h of
          Inl _ \<Rightarrow> orphan sch w lease ''partial cancellation recovery failed'' (h, g)
        | Inr h1 \<Rightarrow> job_then (pause sch 136) (\<lambda>_. emitting sch lease ''complete_partial_cancellation'' ''recovered''
            ''startup completed the durable cancellation request'') (h1, g))
      else if merge_finalizing_at w \<noteq> None then recover_finalizing H sch rd tools w lease
      else if run_status w = WorkflowRunStatus.RUNNING
      then orphan_run_as sch w lease ''quarantine_running'' ''startup_found_running_run_without_owner''
        ''startup found an unowned running workflow''
      else reading (\<lambda>_. Inr ()))"

definition recoverable :: "WorkflowRun \<Rightarrow> bool" where
  \<comment> \<open>the \<open>WHERE\<close> of \<open>list_recoverable\<close>\<close>
  "recoverable w \<longleftrightarrow>
     run_status w \<in> {WorkflowRunStatus.RUNNING, WorkflowRunStatus.WAITING_APPROVAL, WorkflowRunStatus.ORPHANED} \<or>
     merge_finalizing_at w \<noteq> None"

definition recover ::
  "(string \<Rightarrow> string) \<Rightarrow> (HubStore \<times> 'g) Schedule \<Rightarrow> MergeReader \<Rightarrow> 'g git \<Rightarrow> MasterLease \<Rightarrow>
     (HubStore \<times> 'g, flow_error, unit) action" where
  \<comment> \<open>for the run of the store\<close>
  "recover H sch rd tools lease w =
     (let r = run (hub_run (fst w))
      in if recoverable r then recover_run H sch rd tools r lease w else (w, Inr ()))"

end
