(* ===== verification/Merge_Safety.thy ===== *)
theory Merge_Safety
  imports Recovery Hub_Safety Run_Frame Run_Progress Guard_Safety
begin

text \<open>
  What merges and their recovery guarantee while other tasks run in between: what others do to the
  store is any sequence of the transactions of \<open>Hub_Steps\<close>.
\<close>

subsection \<open>Merges and recovery are made of transactions\<close>

definition polite :: "(string \<Rightarrow> string) \<Rightarrow> (AgentSpec list \<Rightarrow> string) \<Rightarrow> (HubStore \<times> 'g) Schedule \<Rightarrow> bool" where
  \<comment> \<open>the others run transactions of the hub; what they do to the repository is their affair\<close>
  "polite H cd sch \<longleftrightarrow> (\<forall>k w. hub_steps H cd (fst w) (fst (others sch k w)))"

abbreviation hub_path ::
  "(string \<Rightarrow> string) \<Rightarrow> (AgentSpec list \<Rightarrow> string) \<Rightarrow> HubStore \<times> 'g \<Rightarrow> HubStore \<times> 'g \<Rightarrow> bool" where
  "hub_path H cd \<equiv> \<lambda>w w'. hub_steps H cd (fst w) (fst w')"

interpretation path: actions "hub_path H cd" for H cd
  by unfold_locales (auto intro: rtranclp_trans)

named_theorems path_rules

lemmas [path_rules] = path.reading path.then_job path.on_error path.if_job path.split_job path.option_job

lemma keeps_toD: "keeps_to R m \<Longrightarrow> R w (fst (m w))"
  by (simp add: keeps_to_def)

lemma pause_path [path_rules]: "polite H cd sch \<Longrightarrow> keeps_to (hub_path H cd) (pause sch k)"
  by (simp add: keeps_to_def polite_def pause_def)

lemma on_snd_path [path_rules]: "keeps_to (hub_path H cd) (on_snd m)"
  by (simp add: keeps_to_def on_snd_def split_beta)

lemma on_fst_path: "(\<And>h. hub_steps H cd h (fst (m h))) \<Longrightarrow> keeps_to (hub_path H cd) (on_fst m)"
  by (simp add: keeps_to_def on_fst_def split_beta)

lemma on_fst_reading_path [path_rules]: "keeps_to (hub_path H cd) (on_fst (Actions.reading f))"
  by (rule on_fst_path) (simp add: reading_def)

lemma hub_reads_path [path_rules]: "keeps_to (hub_path H cd) (hub_reads f)"
  unfolding hub_reads_def by (rule on_fst_reading_path)

lemma raised_simps [simp]: "raised m = Inr x \<longleftrightarrow> m = Inr x" "raised m = Inl e \<longleftrightarrow> (\<exists>e'. m = Inl e' \<and> e = Raised e')"
  by (cases m; auto simp: raised_def)+

lemma run_commits_path:
  assumes "polite H cd sch" and "\<And>st st'. f st = Inr st' \<Longrightarrow> run_txn H cd st st'"
  shows "keeps_to (hub_path H cd) (run_commits sch k f)"
  unfolding run_commits_def
proof (intro path_rules assms(1), rule on_fst_path)
  fix h
  show "hub_steps H cd h (fst (Actions.committing (\<lambda>h. raised (and_then (f (hub_run h))
      (\<lambda>st. Inr (h\<lparr>hub_run := st\<rparr>, ())))) h))"
    using assms(2) by (auto simp: committing_def and_then_Inr intro: hub_step.run split: sum.split prod.split)
qed

lemma on_fst_elsewhere:
  "(\<And>h h' x. f h = Inr (h', x) \<Longrightarrow> same_records h h') \<Longrightarrow> keeps_to (hub_path H cd) (on_fst (Actions.committing f))"
  by (rule on_fst_path) (auto simp: committing_def intro!: r_into_rtranclp [of "hub_step H cd"] hub_step.elsewhere split: sum.split prod.split)

lemma lock_commits_path [path_rules]:
  assumes "polite H cd sch"
  shows "keeps_to (hub_path H cd) (lock_commits sch k f)"
  unfolding lock_commits_def
  by (intro path_rules assms on_fst_elsewhere) (auto simp: same_records_def split: sum.splits prod.splits)

lemma lock_path [path_rules]:
  "polite H cd sch \<Longrightarrow> keeps_to (hub_path H cd) (acquire sch k session kind opid ttl)"
  "polite H cd sch \<Longrightarrow> keeps_to (hub_path H cd) (release sch k l)"
  "keeps_to (hub_path H cd) (assert_valid sch k session l)"
  "keeps_to (hub_path H cd) (assert_healthy sch k)"
  unfolding acquire_def release_def assert_valid_def assert_healthy_def by (intro path_rules; assumption)+

lemma merge_txns [path_rules]:
  "polite H cd sch \<Longrightarrow> keeps_to (hub_path H cd) (run_commits sch k (begin_merge_finalizing wid l lease now))"
  "polite H cd sch \<Longrightarrow> keeps_to (hub_path H cd) (run_commits sch k (clear_merge_finalizing wid l lease now))"
  "polite H cd sch \<Longrightarrow> keeps_to (hub_path H cd) (run_commits sch k (finalize_merge i c tip l lease summary now))"
  "polite H cd sch \<Longrightarrow> keeps_to (hub_path H cd) (run_commits sch k (mark_orphaned wid lease reason only now))"
  by (rule run_commits_path, assumption, erule run_txn.intros)+

lemma held_path:
  assumes "polite H cd sch" and "\<And>l. keeps_to (hub_path H cd) (body l)"
  shows "hub_path H cd w (fst (held sch session kind opid ttl body w))"
proof -
  have a: "hub_path H cd w (fst (job_then (pause sch 20) (\<lambda>_. acquire sch 20 session kind opid ttl) w))"
    and v: "hub_path H cd w (fst (job_then (assert_healthy sch 20) (\<lambda>_. job_then (pause sch 21)
      (\<lambda>_. job_then (assert_valid sch 21 session l) (\<lambda>_. assert_healthy sch 21))) w))"
    and r: "hub_path H cd w (fst (job_then (pause sch 22) (\<lambda>_. release sch 22 l) w))"
    and bd: "hub_path H cd w (fst (body l w))" for l w
    by (rule keeps_toD, intro path_rules assms)+
  obtain w1 x where 1: "job_then (pause sch 20) (\<lambda>_. acquire sch 20 session kind opid ttl) w = (w1, x)"
    by fastforce
  show ?thesis
  proof (cases x)
    case (Inl e)
    then show ?thesis using a [of w] by (simp add: held_def 1)
  next
    case (Inr l)
    obtain w2 y where 2: "body l w1 = (w2, y)" by fastforce
    obtain w3 z where 3: "(case map_sum (uncancelled sch) id y of Inl e \<Rightarrow> (w2, Inl e)
        | Inr _ \<Rightarrow> job_then (assert_healthy sch 20) (\<lambda>_. job_then (pause sch 21) (\<lambda>_.
            job_then (assert_valid sch 21 session l) (\<lambda>_. assert_healthy sch 21))) w2) = (w3, z)"
      by fastforce
    obtain w4 u where 4: "job_then (pause sch 22) (\<lambda>_. release sch 22 l) w3 = (w4, u)" by fastforce
    have "hub_path H cd w w1" "hub_path H cd w1 w2" "hub_path H cd w3 w4"
      using a [of w] bd [of w1 l] r [of w3 l] by (simp_all add: 1 2 4)
    moreover have "hub_path H cd w2 w3"
      using 3 v [of w2 l] by (cases y) (auto simp: split_beta prod_eq_iff)
    ultimately show ?thesis
      by (simp add: held_def 1 Inr 2 3 4)
  qed
qed

lemma hold_path [path_rules]:
  "polite H cd sch \<Longrightarrow> (\<And>l. keeps_to (hub_path H cd) (body l)) \<Longrightarrow>
     keeps_to (hub_path H cd) (hold sch session kind opid ttl body)"
  using held_path [of H cd sch body] unfolding keeps_to_def hold_def split_beta fst_conv by blast

lemma recover_failure_path [path_rules]:
  "polite H cd sch \<Longrightarrow>
     keeps_to (hub_path H cd) (recover_failure sch rd tools w source lease ttl l paths committed cause)"
  unfolding recover_failure_def undo_merge_def fenced_restore_def by (intro path_rules; assumption)

lemma merge_body_path [path_rules]:
  "polite H cd sch \<Longrightarrow>
     keeps_to (hub_path H cd) (merge_body H' sch rd tools ctx source lease ttl c d l)"
  unfolding merge_body_def open_merge_def readmit_def publish_def finish_merge_def Let_def
  by (intro path_rules; assumption)

lemma merge_path:
  "polite H cd sch \<Longrightarrow> keeps_to (hub_path H cd) (merge_patch_handler H' sch rd tools ctx lease ttl)"
  unfolding merge_patch_handler_def admit_def Let_def by (intro path_rules; assumption)

lemma emitting_path [path_rules]:
  "polite H cd sch \<Longrightarrow> keeps_to (hub_path H cd) (emitting sch lease act outcome reason)"
  unfolding emitting_def
  by (intro path_rules on_fst_elsewhere)
    (auto simp: same_records_def recovery_event_def recovery_security_event_def emit_def)

lemma orphan_path [path_rules]:
  "polite H cd sch \<Longrightarrow> keeps_to (hub_path H cd) (orphan_run_as sch w lease act reason msg)"
  "polite H cd sch \<Longrightarrow> keeps_to (hub_path H cd) (orphan sch w lease reason)"
  unfolding orphan_def orphan_run_as_def by (intro path_rules; assumption)+

lemma judge_path [path_rules]:
  "polite H cd sch \<Longrightarrow> keeps_to (hub_path H cd) (judge H' sch rd tools w)"
  "polite H cd sch \<Longrightarrow> keeps_to (hub_path H cd) (settle_merge sch w lease l j)"
proof -
  assume p: "polite H cd sch"
  have "keeps_to (hub_path H cd) (judge_approval H' sch rd tools w r rows c d)" for r rows c d
    unfolding judge_approval_def
    by (intro path_rules p | rule p | (auto split: sum.split evidence_error.split intro!: path_rules p)[1])+
  then show "keeps_to (hub_path H cd) (judge H' sch rd tools w)"
    unfolding judge_def by (auto split: option.split intro!: path_rules p)
  show "keeps_to (hub_path H cd) (settle_merge sch w lease l j)"
    unfolding settle_merge_def by (cases j) (auto intro!: path_rules p)
qed

lemma recover_finalizing_path:
  assumes "polite H cd sch"
  shows "keeps_to (hub_path H cd) (recover_finalizing H' sch rd tools w lease)"
  unfolding keeps_to_def
proof
  fix st
  let ?h = "held sch (run_session_id w) ''recovery'' (''recovery-'' @ workflow_run_id w) 30
    (\<lambda>l. job_then (assert_healthy sch 30) (\<lambda>_. job_then (judge H' sch rd tools w) (settle_merge sch w lease l))) st"
  obtain w1 r late where h: "?h = (w1, r, late)" by (cases ?h) auto
  have "hub_path H cd st (fst ?h)"
    by (rule held_path [OF assms]) (intro path_rules assms)
  then have 1: "hub_path H cd st w1" unfolding h fst_conv .
  have 2: "hub_path H cd w1 (fst (emitting sch lease act out msg w1))"
    "hub_path H cd w1 (fst (orphan sch w lease msg w1))" for act out msg
    by (rule keeps_toD, intro path_rules assms)+
  show "hub_path H cd st (fst (recover_finalizing H' sch rd tools w lease st))"
    using 1 rtranclp_trans [OF 1 2(1)] rtranclp_trans [OF 1 2(2)]
    unfolding recover_finalizing_def h by (auto split: sum.split judgement.split)
qed

lemma recover_path:
  assumes "polite H cd sch"
  shows "hub_path H cd w (fst (recover H' sch rd tools lease w))"
proof -
  have c: "keeps_to (hub_path H cd) (\<lambda>(h, g).
      case cancel_run_with_cleanup wid lease reason now h of
        Inl _ \<Rightarrow> orphan sch r lease msg (h, g)
      | Inr h1 \<Rightarrow> job_then (pause sch k) (\<lambda>_. emitting sch lease act out msg2) (h1, g))"
    for wid reason now r msg k act out msg2
  proof -
    let ?m = "job_then (pause sch k) (\<lambda>_. emitting sch lease act out msg2)"
    have "hub_path H cd (h, g) (fst (?m (h1, g)))"
      if "cancel_run_with_cleanup wid lease reason now h = Inr h1" for h g h1
    proof -
      have "hub_path H cd (h1, g) (fst (?m (h1, g)))"
        by (rule keeps_toD) (intro path_rules assms)
      moreover have "hub_steps H cd h h1"
        by (rule r_into_rtranclp) (rule hub_step.cancel [OF that])
      ultimately show ?thesis by simp
    qed
    moreover have "hub_path H cd w (fst (orphan sch r lease msg w))" for w
      by (rule keeps_toD, intro path_rules assms)
    ultimately show ?thesis by (auto simp: keeps_to_def split: sum.split)
  qed
  have "keeps_to (hub_path H cd) (recover_run H' sch rd tools r lease)" for r
    unfolding recover_run_def
    by (intro path_rules recover_finalizing_path assms c)
  from keeps_toD [OF this] show ?thesis unfolding recover_def Let_def by simp
qed

subsection \<open>Finalization\<close>

lemma reconcile_run:
  assumes "reconcile lease now st = Inr st'"
  shows "merge_finalizing_at (run st') = merge_finalizing_at (run st) \<and> current_commit (run st') = current_commit (run st) \<and>
    change_sets st' = change_sets st"
proof -
  have "change_sets st' = change_sets st"
    using framesD [OF reconcile_frames [OF refl] assms] by (simp add: other_tables_def)
  moreover obtain order st1 where l: "reconcile_loop (compiled_snapshot (run st)) order lease now st = Inr st1"
    and f: "st' = st1 \<or> (\<exists>out. finish_run lease (run_target out (node_runs st1)) now st1 = Inr st')"
    using assms by (auto simp: reconcile_def Let_def and_then_Inr split: if_splits option.splits)
  moreover have "merge_finalizing_at (run st') = merge_finalizing_at (run st1) \<and>
      current_commit (run st') = current_commit (run st1)"
    using f by (auto simp: finish_run_def and_then_Inr update_run_def split: if_splits)
  ultimately show ?thesis using reconcile_loop_run [OF l] by simp
qed

lemma finalize_merged:
  assumes "finalize_merge i cs c wl lease summary now st = Inr st'"
  shows "merge_finalizing_at (run st') = None \<and> current_commit (run st') = c \<and>
    change_sets st' = map (\<lambda>x. if change_set_id x = cs \<and> change_set_status x = ChangeSetStatus.APPROVED
      then x\<lparr>change_set_status := ChangeSetStatus.MERGED\<rparr> else x) (change_sets st) \<and>
    (\<exists>x \<in> set (change_sets st). change_set_id x = cs \<and> change_set_status x = ChangeSetStatus.APPROVED)"
proof (rule finalize_merge_parts [OF assms])
  fix st1 rows st2 r
  assume u: "update_run (\<lambda>w. run_status w = WorkflowRunStatus.RUNNING \<and> merge_finalizing_at w \<noteq> None)
        (\<lambda>w. w\<lparr>current_commit := c, merge_finalizing_at := None\<rparr>)
        (st\<lparr>integration_head_commit := c\<rparr>) = Inr st1"
    and m: "mark_merged cs (change_sets st1) = Inr rows"
    and v: "update_node i [NodeRunStatus.RUNNING]
        (\<lambda>q. q\<lparr>nr_status := NodeRunStatus.COMPLETED, nr_outcome := Some NodeOutcome.SUCCESS,
           nr_error_code := None, nr_finished_at := Some now\<rparr>) (st1\<lparr>change_sets := rows\<rparr>) = Inr st2"
    and r: "reconcile lease now (append_node_state lease r NodeRunStatus.COMPLETED (Some NodeOutcome.SUCCESS)
        summary None st2) = Inr st'"
  have 1: "merge_finalizing_at (run st1) = None" "current_commit (run st1) = c" "change_sets st1 = change_sets st"
    using u by (auto simp: update_run_def split: if_splits)
  have 2: "run st2 = run st1" "change_sets st2 = rows"
    using update_nodeD(1) [OF v] by simp_all
  have "\<exists>x. filter (\<lambda>x. change_set_id x = cs \<and> change_set_status x = ChangeSetStatus.APPROVED) (change_sets st) = [x]"
    using m by (auto simp: mark_merged_def Let_def 1(3) length_Suc_conv split: if_splits)
  then have "\<exists>x \<in> set (change_sets st). change_set_id x = cs \<and> change_set_status x = ChangeSetStatus.APPROVED"
    by (metis (mono_tags, lifting) filter_eq_ConsD in_set_conv_decomp)
  moreover have "rows = map (\<lambda>x. if change_set_id x = cs \<and> change_set_status x = ChangeSetStatus.APPROVED
      then x\<lparr>change_set_status := ChangeSetStatus.MERGED\<rparr> else x) (change_sets st)"
    using m by (auto simp: mark_merged_def Let_def 1(3) split: if_splits)
  ultimately show ?thesis
    using reconcile_run [OF r] 1 2 by (simp add: append_node_state_def emit_def)
qed

subsection \<open>A merge that returns\<close>

lemma pause_Inr: "pause sch k w = (w', Inr u) \<longleftrightarrow> w' = others sch k w \<and> \<not> interrupted sch k"
  by (auto simp: pause_def)

lemma assert_healthy_Inr: "assert_healthy sch k w = (w', Inr u) \<longleftrightarrow> w' = w \<and> healthy sch k"
  by (auto simp: assert_healthy_def reading_simps)

definition put_run :: "RunStore \<Rightarrow> HubStore \<times> 'g \<Rightarrow> HubStore \<times> 'g" where
  "put_run s w = ((fst w)\<lparr>hub_run := s\<rparr>, snd w)"

definition put_locks :: "lock_table \<Rightarrow> HubStore \<times> 'g \<Rightarrow> HubStore \<times> 'g" where
  "put_locks tab w = put_run ((hub_run (fst w))\<lparr>file_locks := tab\<rparr>) w"

lemma run_commits_Inr:
  "run_commits sch k f w = (w', Inr u) \<longleftrightarrow> (\<exists>s. f (hub_run (fst w)) = Inr s \<and>
     w' = others sch (100 + k) (put_run s w) \<and> \<not> interrupted sch (100 + k))"
  by (cases w) (auto simp: run_commits_def job_simps and_then_Inr pause_Inr put_run_def)

lemma lock_commits_Inr:
  "lock_commits sch k f w = (w', Inr x) \<longleftrightarrow> (\<exists>tab. f (file_locks (hub_run (fst w))) = Inr (tab, x) \<and>
     w' = others sch (100 + k) (put_locks tab w) \<and> \<not> interrupted sch (100 + k))"
  by (cases w) (auto simp: lock_commits_def job_simps pause_Inr put_run_def put_locks_def split: sum.splits)

lemma on_fst_reading_Inr: "on_fst (Actions.reading f) w = (w', Inr x) \<longleftrightarrow> w' = w \<and> f (fst w) = Inr x"
  by (cases w; cases w') (auto simp: job_simps)

lemma on_snd_reading_Inr: "on_snd (Actions.reading f) w = (w', Inr x) \<longleftrightarrow> w' = w \<and> f (snd w) = Inr x"
  by (cases w; cases w') (auto simp: job_simps)

lemma on_snd_Inr: "on_snd m w = (w', Inr x) \<longleftrightarrow> (\<exists>g. m (snd w) = (g, Inr x) \<and> w' = (fst w, g))"
  by (cases w; cases w') (auto simp: job_simps)

lemma hub_reads_Inr: "hub_reads f w = (w', Inr x) \<longleftrightarrow> w' = w \<and> f (fst w) = Inr x"
  by (simp add: hub_reads_def on_fst_reading_Inr)

lemmas Inr_simps = job_then_simps(2) reading_simps pause_Inr assert_healthy_Inr run_commits_Inr lock_commits_Inr
  on_fst_reading_Inr on_snd_reading_Inr on_snd_Inr hub_reads_Inr

lemma approved_now_Inr:
  "approved_now c now h = Inr a \<longleftrightarrow> latest_for_change_set h (change_set_id c) = Some a \<and> approved_for (Some a) c now"
  by (cases "latest_for_change_set h (change_set_id c)")
    (auto simp: approved_now_def conflict_def approved_for_def split: if_splits)

lemma approved_for_Some:
  "approved_for (Some a) c now \<longleftrightarrow> ap_status (approval a) = ApprovalStatus.APPROVED \<and>
     now < approval_expires_at (approval a) \<and> change_set_status c = ChangeSetStatus.APPROVED \<and>
     (\<exists>cs. subject (approval a) = ChangeSetSubject cs (change_set_base c) (change_set_patch c))"
  by (cases "subject (approval a)") (auto simp: approved_for_def)

lemma unchanged_subject_Inr:
  "unchanged_subject H rd w source c d a h = Inr u \<longleftrightarrow>
     evidence_of H rd w c d (node_runs (hub_run h)) h = Inr (Inr (evidence_sha256 (approval a))) \<and>
     (\<exists>n. merge_source w source = Some n \<and> sort (approval_scope (approval a)) = merge_scope n)"
  by (auto simp: unchanged_subject_def conflict_def scope_drifted_def split: sum.splits option.splits if_splits)

definition opened_at ::
  "(HubStore \<times> 'g) Schedule \<Rightarrow> 'g git \<Rightarrow> NodeExecutionContext \<Rightarrow> MasterLease \<Rightarrow> int \<Rightarrow> HubStore \<times> 'g \<Rightarrow>
     WorkspaceLease \<Rightarrow> HubStore \<times> 'g \<Rightarrow> bool" where
  \<comment> \<open>the run of the handler from the state \<open>w\<close> to \<open>w'\<close>: it took the lease \<open>l\<close>, found the repository clean at
      the commit of the run and opened the finalization\<close>
  "opened_at sch tools ctx lease ttl w l w' \<longleftrightarrow>
     (let w0 = others sch 20 (others sch 1 (others sch 0 w)) in
      \<exists>tab s m. workspace_acquire (file_locks (hub_run (fst w0))) (lock_key (run_session_id (ctx_run ctx))) ''merge''
          (node_run_id (ctx_node_run ctx)) (process sch) ttl (clock sch 20) = Inr (tab, l) \<and>
        (let w1 = others sch 120 (put_locks tab w0); w2 = others sch 2 w1 in
         repository_state tools (snd w1) = Inr s \<and> \<not> dirty s \<and> state_commit s = current_commit (ctx_run ctx) \<and>
         begin_merge_finalizing (workflow_run_id (ctx_run ctx)) l lease (clock sch 2) (hub_run (fst w2)) = Inr m \<and>
         w' = others sch 102 (put_run m w2)))"

definition closed_after ::
  "(HubStore \<times> 'g) Schedule \<Rightarrow> WorkspaceLease \<Rightarrow> HubStore \<times> 'g \<Rightarrow> HubStore \<times> 'g \<Rightarrow> bool" where
  \<comment> \<open>the exit of the lock: the lease is valid, then released\<close>
  "closed_after sch l w w' \<longleftrightarrow>
     (let w1 = others sch 21 w; w2 = others sch 22 w1 in
      workspace_assert_valid (file_locks (hub_run (fst w1))) l (clock sch 21) = None \<and>
      (\<exists>tab. workspace_release (file_locks (hub_run (fst w2))) l (clock sch 22) = Inr tab \<and>
         w' = others sch 122 (put_locks tab w2)))"

lemma admit_Inr: "admit sch rd w source st = (st', Inr x) \<Longrightarrow> st' = others sch 1 (others sch 0 st)"
  by (clarsimp simp: admit_def Inr_simps split: prod.splits)

lemma open_merge_Inr:
  "open_merge H sch tools w c lease l st = (st', Inr i) \<Longrightarrow>
     (\<exists>s m. repository_state tools (snd st) = Inr s \<and> \<not> dirty s \<and> state_commit s = current_commit w \<and>
        begin_merge_finalizing (workflow_run_id w) l lease (clock sch 2) (hub_run (fst (others sch 2 st))) = Inr m \<and>
        st' = others sch 102 (put_run m (others sch 2 st)))"
  by (auto simp: open_merge_def Inr_simps conflict_def split: if_splits)

lemma readmit_Inr:
  "readmit H sch rd w source st = (st', Inr (c, d, a)) \<Longrightarrow>
     (let w3 = others sch 3 st; w4 = others sch 4 w3; w5 = others sch 5 w4 in
      st' = w5 \<and> source_record rd w source (fst w3) = Inr (c, d) \<and>
      latest_for_change_set (fst w4) (change_set_id c) = Some a \<and> approved_for (Some a) c (clock sch 4) \<and>
      evidence_of H rd w c d (node_runs (hub_run (fst w5))) (fst w5) = Inr (Inr (evidence_sha256 (approval a))) \<and>
      (\<exists>n. merge_source w source = Some n \<and> sort (approval_scope (approval a)) = merge_scope n))"
  by (clarsimp simp: readmit_def Inr_simps approved_now_Inr unchanged_subject_Inr Let_def)

lemma publish_Inr:
  "publish H sch rd tools w index c d a st = (st', Inr tip) \<Longrightarrow>
     (\<exists>patch g g' tree. verified_patch rd c = Inr patch \<and> apply_to_tree tools patch (snd (others sch 6 st)) = (g, Inr ()) \<and>
        commit_approved_patch H tools (merge_request w c d a patch (Some index)) g = (g', Inr (tip, tree)) \<and>
        st' = (fst (others sch 6 st), g'))"
  by (fastforce simp: publish_def Inr_simps split: prod.splits)

lemma finish_merge_Inr:
  "finish_merge sch r c tip l lease st = (st', Inr u) \<Longrightarrow>
     (\<exists>m. finalize_merge (node_run_id r) (change_set_id c) tip l lease ''Master committed the approved ChangeSet.''
        (clock sch 7) (hub_run (fst (others sch 7 st))) = Inr m \<and>
      st' = others sch 107 (put_run m (others sch 7 st)))"
  by (auto simp: finish_merge_def Inr_simps)

lemma hold_Inr:
  assumes "hold sch session kind opid ttl body w = (w', Inr x)"
  obtains l tab w2 where "workspace_acquire (file_locks (hub_run (fst (others sch 20 w)))) (lock_key session) kind opid
      (process sch) ttl (clock sch 20) = Inr (tab, l)"
    and "body l (others sch 120 (put_locks tab (others sch 20 w))) = (w2, Inr x)" and "closed_after sch l w2 w'"
proof -
  obtain r late where h: "held sch session kind opid ttl body w = (w', r, late)" and r: "r = Inr x" "late = None"
    using assms unfolding hold_def by (auto split: prod.splits sum.splits option.splits)
  obtain w1 y where 1: "job_then (pause sch 20) (\<lambda>_. acquire sch 20 session kind opid ttl) w = (w1, y)"
    by fastforce
  have "\<exists>l. y = Inr l" using h r by (cases y) (auto simp: held_def 1)
  then obtain l where y: "y = Inr l" by blast
  obtain w2 z where 2: "body l w1 = (w2, z)" by fastforce
  have "map_sum (uncancelled sch) id z = Inr x"
    using h r by (auto simp: held_def 1 y 2 split: prod.splits)
  then have z: "z = Inr x" by (cases z) simp_all
  obtain w3 e where 3: "job_then (assert_healthy sch 20) (\<lambda>_. job_then (pause sch 21) (\<lambda>_.
      job_then (assert_valid sch 21 session l) (\<lambda>_. assert_healthy sch 21))) w2 = (w3, e)"
    by fastforce
  obtain w4 g where 4: "job_then (pause sch 22) (\<lambda>_. release sch 22 l) w3 = (w4, g)" by fastforce
  have "isl e = False" "isl g = False" "w' = w4"
    using h r by (auto simp: held_def 1 y 2 z 3 4 split: sum.splits)
  then obtain u v where e: "e = Inr u" "g = Inr v" by (cases e; cases g) auto
  have "closed_after sch l w2 w'"
    using 3 4 unfolding e \<open>w' = w4\<close> closed_after_def release_def assert_valid_def
    by (auto simp: Inr_simps and_then_Inr Let_def split: if_splits option.splits sum.splits)
  moreover obtain tab where "workspace_acquire (file_locks (hub_run (fst (others sch 20 w)))) (lock_key session) kind opid
      (process sch) ttl (clock sch 20) = Inr (tab, l)" "w1 = others sch 120 (put_locks tab (others sch 20 w))"
    using 1 unfolding y acquire_def by (auto simp: Inr_simps split: if_splits)
  ultimately show thesis using that 2 z by metis
qed

lemma merge_body_Inr:
  assumes "merge_body H sch rd tools ctx source lease ttl c0 d0 l st = (st', Inr u)"
  obtains index c d a tip w1 w2 w3 where "open_merge H sch tools (ctx_run ctx) c0 lease l st = (w1, Inr index)"
    and "readmit H sch rd (ctx_run ctx) source w1 = (w2, Inr (c, d, a))"
    and "publish H sch rd tools (ctx_run ctx) index c d a w2 = (w3, Inr tip)"
    and "finish_merge sch (ctx_node_run ctx) c tip l lease w3 = (st', Inr ())"
proof -
  from assms obtain index w1 w2 k where
    o: "open_merge H sch tools (ctx_run ctx) c0 lease l st = (w1, Inr index)"
    and r: "on_error (readmit H sch rd (ctx_run ctx) source) (recover_failure sch rd tools (ctx_run ctx) source lease
      ttl l (merge_paths d0) None) w1 = (w2, Inr k)"
    and rest: "(case k of (c, d, a) \<Rightarrow>
      job_then (on_error (publish H sch rd tools (ctx_run ctx) index c d a)
        (recover_failure sch rd tools (ctx_run ctx) source lease ttl l (merge_paths d) None)) (\<lambda>commit.
      on_error (finish_merge sch (ctx_node_run ctx) c commit l lease)
        (recover_failure sch rd tools (ctx_run ctx) source lease ttl l (merge_paths d) (Some commit)))) w2 = (st', Inr ())"
    unfolding merge_body_def Let_def job_then_simps(2) by fastforce
  obtain c d a where k: "k = (c, d, a)" by (rule prod_cases3)
  show thesis using that o r rest unfolding k on_error_simps(1) prod.case job_then_simps(2) by blast
qed

text \<open>
  C9: only what was approved is merged, whatever others do in between. When the merge handler
  returns, its whole run, from the state it was called in to the state it leaves, was this one, each
  state being what the others had made of the one before. It took the lease, found the repository
  clean at the commit of the run and opened the finalization. Then the store held the change set of
  the node's source, approved; then its newest approval was approved, in time, of the base commit
  and the patch of that change set; then the evidence computed from the store was the evidence of that
  approval, and the scope of the approval is the scope of the source. The bytes it applied and
  committed hash to the approved digest: it left a clean repository at a commit whose parent is the
  approved base, whose tree is the one of that patch on that base, and whose trailers name the
  change set and the approval. The next transaction made that commit the run's current one, closed
  the finalization and took the change set from approved to merged. Then the lease was still valid
  and was released.
\<close>

theorem merges_commit_what_was_approved:
  assumes "merge_patch_handler H sch rd tools ctx lease ttl st = (st', Inr r)"
  shows "\<exists>source n l w w3 w4 w5 w6 w7 c d a cs patch index g g' tip tree m.
    source_node_id (ctx_node ctx) = Some source \<and> merge_source (ctx_run ctx) source = Some n \<and>
    opened_at sch tools ctx lease ttl st l w \<and>
    w3 = others sch 3 w \<and> source_record rd (ctx_run ctx) source (fst w3) = Inr (c, d) \<and>
    change_set_status c = ChangeSetStatus.APPROVED \<and>
    w4 = others sch 4 w3 \<and> latest_for_change_set (fst w4) (change_set_id c) = Some a \<and>
    ap_status (approval a) = ApprovalStatus.APPROVED \<and> clock sch 4 < approval_expires_at (approval a) \<and>
    subject (approval a) = ChangeSetSubject cs (change_set_base c) (change_set_patch c) \<and>
    sort (approval_scope (approval a)) = merge_scope n \<and>
    w5 = others sch 5 w4 \<and> evidence_of H rd (ctx_run ctx) c d (node_runs (hub_run (fst w5))) (fst w5) =
      Inr (Inr (evidence_sha256 (approval a))) \<and>
    w6 = others sch 6 w5 \<and> verified_patch rd c = Inr patch \<and> H patch = change_set_patch c \<and>
    apply_to_tree tools patch (snd w6) = (g, Inr ()) \<and>
    canonical_patch_tree tools (change_set_base c) patch g = Inr tree \<and>
    commit_approved_patch H tools (merge_request (ctx_run ctx) c d a patch (Some index)) g = (g', Inr (tip, tree)) \<and>
    committed_as tools (merge_request (ctx_run ctx) c d a patch (Some index)) tip tree g' \<and>
    w7 = others sch 7 (fst w6, g') \<and>
    finalize_merge (node_run_id (ctx_node_run ctx)) (change_set_id c) tip l lease
      ''Master committed the approved ChangeSet.'' (clock sch 7) (hub_run (fst w7)) = Inr m \<and>
    current_commit (run m) = tip \<and> merge_finalizing_at (run m) = None \<and>
    (\<exists>x \<in> set (change_sets (hub_run (fst w7))). change_set_id x = change_set_id c \<and>
      change_set_status x = ChangeSetStatus.APPROVED \<and>
      x\<lparr>change_set_status := ChangeSetStatus.MERGED\<rparr> \<in> set (change_sets m)) \<and>
    closed_after sch l (others sch 107 (put_run m w7)) st'"
proof -
  obtain source c0 d0 w0 u where s: "source_node_id (ctx_node ctx) = Some source"
    and ad: "admit sch rd (ctx_run ctx) source st = (w0, Inr (c0, d0))"
    and h: "hold sch (run_session_id (ctx_run ctx)) ''merge'' (node_run_id (ctx_node_run ctx)) ttl
      (merge_body H sch rd tools ctx source lease ttl c0 d0) w0 = (st', Inr u)"
    using assms by (auto simp: merge_patch_handler_def job_simps split: option.splits)
  note w0 = admit_Inr [OF ad]
  let ?w1 = "others sch 20 w0"
  from hold_Inr [OF h] obtain l tab z where
    l: "workspace_acquire (file_locks (hub_run (fst ?w1))) (lock_key (run_session_id (ctx_run ctx))) ''merge''
      (node_run_id (ctx_node_run ctx)) (process sch) ttl (clock sch 20) = Inr (tab, l)"
    and b: "merge_body H sch rd tools ctx source lease ttl c0 d0 l (others sch 120 (put_locks tab ?w1)) = (z, Inr u)"
    and z: "closed_after sch l z st'" .
  from merge_body_Inr [OF b] obtain index c d a tip w w5 y where
    o: "open_merge H sch tools (ctx_run ctx) c0 lease l (others sch 120 (put_locks tab ?w1)) = (w, Inr index)"
    and r: "readmit H sch rd (ctx_run ctx) source w = (w5, Inr (c, d, a))"
    and p: "publish H sch rd tools (ctx_run ctx) index c d a w5 = (y, Inr tip)"
    and fin: "finish_merge sch (ctx_node_run ctx) c tip l lease y = (z, Inr ())" .
  have 1: "opened_at sch tools ctx lease ttl st l w"
    using l open_merge_Inr [OF o] unfolding opened_at_def Let_def w0 by blast
  from publish_Inr [OF p] obtain patch g g' tree where v: "verified_patch rd c = Inr patch"
    and ap: "apply_to_tree tools patch (snd (others sch 6 w5)) = (g, Inr ())"
    and k: "commit_approved_patch H tools (merge_request (ctx_run ctx) c d a patch (Some index)) g = (g', Inr (tip, tree))"
    and y: "y = (fst (others sch 6 w5), g')" by blast
  have t: "H patch = change_set_patch c" "canonical_patch_tree tools (change_set_base c) patch g = Inr tree"
    "committed_as tools (merge_request (ctx_run ctx) c d a patch (Some index)) tip tree g'"
    using commits_are_the_approved_patch [OF k] by (simp_all add: merge_request_def)
  from finish_merge_Inr [OF fin] obtain m where
    f: "finalize_merge (node_run_id (ctx_node_run ctx)) (change_set_id c) tip l lease
      ''Master committed the approved ChangeSet.'' (clock sch 7) (hub_run (fst (others sch 7 y))) = Inr m"
    and z': "z = others sch 107 (put_run m (others sch 7 y))" by blast
  have x: "\<exists>x \<in> set (change_sets (hub_run (fst (others sch 7 y)))). change_set_id x = change_set_id c \<and>
      change_set_status x = ChangeSetStatus.APPROVED \<and>
      x\<lparr>change_set_status := ChangeSetStatus.MERGED\<rparr> \<in> set (change_sets m)"
    using finalize_merged [OF f] by (auto simp: image_iff)
  from readmit_Inr [OF r, unfolded Let_def approved_for_Some] obtain n cs where
    w5: "w5 = others sch 5 (others sch 4 (others sch 3 w))"
    and a: "source_record rd (ctx_run ctx) source (fst (others sch 3 w)) = Inr (c, d)"
      "latest_for_change_set (fst (others sch 4 (others sch 3 w))) (change_set_id c) = Some a"
      "ap_status (approval a) = ApprovalStatus.APPROVED" "clock sch 4 < approval_expires_at (approval a)"
      "change_set_status c = ChangeSetStatus.APPROVED"
      "subject (approval a) = ChangeSetSubject cs (change_set_base c) (change_set_patch c)"
      "evidence_of H rd (ctx_run ctx) c d (node_runs (hub_run (fst w5))) (fst w5) = Inr (Inr (evidence_sha256 (approval a)))"
      "merge_source (ctx_run ctx) source = Some n" "sort (approval_scope (approval a)) = merge_scope n"
    by blast
  show ?thesis
    by (rule exI [of _ source], rule exI [of _ n], rule exI [of _ l], rule exI [of _ w], rule exI [of _ "others sch 3 w"],
      rule exI [of _ "others sch 4 (others sch 3 w)"], rule exI [of _ w5], rule exI [of _ "others sch 6 w5"], rule exI [of _ "others sch 7 (fst (others sch 6 w5), g')"], rule exI [of _ c],
      rule exI [of _ d], rule exI [of _ a], rule exI [of _ cs], rule exI [of _ patch], rule exI [of _ index],
      rule exI [of _ g], rule exI [of _ g'], rule exI [of _ tip], rule exI [of _ tree], rule exI [of _ m],
      intro conjI refl; (rule s 1 v t ap k a w5 f [unfolded y] x [unfolded y] z [unfolded z' y]
        finalize_merged [OF f, THEN conjunct1] finalize_merged [OF f, THEN conjunct2, THEN conjunct1]))
qed

subsection \<open>A merge that fails\<close>

abbreviation finalizing :: "HubStore \<times> 'g \<Rightarrow> bool" where
  "finalizing w \<equiv> merge_finalizing_at (run (hub_run (fst w))) \<noteq> None"

definition unconcerned :: "(HubStore \<times> 'g) Schedule \<Rightarrow> bool" where
  \<comment> \<open>nobody else opens or closes the finalization of a merge\<close>
  "unconcerned sch \<longleftrightarrow> (\<forall>k w. finalizing (others sch k w) \<longleftrightarrow> finalizing w)"

definition same_flag :: "HubStore \<times> 'g \<Rightarrow> HubStore \<times> 'g \<Rightarrow> bool" where
  "same_flag w w' \<longleftrightarrow> (finalizing w' \<longleftrightarrow> finalizing w)"

interpretation flag: actions same_flag
  by unfold_locales (auto simp: same_flag_def)

named_theorems flag_rules

lemmas [flag_rules] = flag.reading flag.then_job flag.on_error flag.if_job flag.split_job flag.option_job

lemma flag_parts [flag_rules]:
  "unconcerned sch \<Longrightarrow> keeps_to same_flag (pause sch k)"
  "keeps_to same_flag (on_snd m)"
  "keeps_to same_flag (on_fst (Actions.reading f))"
  "keeps_to same_flag (hub_reads f1)"
  "keeps_to same_flag (on_fst (Actions.committing (\<lambda>h. case f2 (file_locks (hub_run h)) of
     Inl e \<Rightarrow> Inl (Raised (LeaseError e))
   | Inr (tab, x) \<Rightarrow> Inr (h\<lparr>hub_run := (hub_run h)\<lparr>file_locks := tab\<rparr>\<rparr>, x))))"
  by (auto simp: same_flag_def keeps_to_def unconcerned_def pause_def on_snd_def on_fst_def hub_reads_def reading_def
      committing_def split: prod.split sum.split)

lemma lock_flag [flag_rules]:
  "unconcerned sch \<Longrightarrow> keeps_to same_flag (acquire sch k session kind opid ttl)"
  "unconcerned sch \<Longrightarrow> keeps_to same_flag (release sch k l)"
  "keeps_to same_flag (assert_valid sch k session l)"
  "keeps_to same_flag (assert_healthy sch k)"
  unfolding acquire_def release_def assert_valid_def assert_healthy_def lock_commits_def by (intro flag_rules; assumption)+

subsubsection \<open>Until the finalization is opened\<close>

definition raises_to :: "('s \<Rightarrow> 's \<Rightarrow> bool) \<Rightarrow> ('s, 'e, 'a) action \<Rightarrow> bool" where
  \<comment> \<open>when it raises\<close>
  "raises_to R m \<longleftrightarrow> (\<forall>w w' e. m w = (w', Inl e) \<longrightarrow> R w w')"

lemma raises_then: "keeps_to same_flag m \<Longrightarrow> (\<And>x. raises_to same_flag (k x)) \<Longrightarrow> raises_to same_flag (job_then m k)"
  unfolding keeps_to_def raises_to_def job_then_simps same_flag_def by (metis fst_conv)

lemma raises_last:
  "\<not> interrupted sch (100 + k) \<Longrightarrow>
     raises_to same_flag (job_then (run_commits sch k f) (\<lambda>_. Actions.reading (\<lambda>_. Inr x)))"
  unfolding raises_to_def run_commits_def on_fst_def pause_def
  by (auto simp: job_simps committing_def same_flag_def split: sum.splits prod.splits)

lemma open_merge_raises:
  assumes "unconcerned sch" and "\<not> interrupted sch 102"
  shows "raises_to same_flag (open_merge H sch tools w c lease l)"
  unfolding open_merge_def by (intro raises_then raises_last flag_rules assms(1)) (use assms(2) in simp)

lemma admit_flag: "unconcerned sch \<Longrightarrow> keeps_to same_flag (admit sch rd w source)"
  unfolding admit_def by (intro flag_rules; assumption)

subsubsection \<open>The failure handler\<close>

definition closes :: "(HubStore \<times> 'g, 'e, 'a) action \<Rightarrow> bool" where
  \<comment> \<open>when it returns, no merge is being finalized\<close>
  "closes m \<longleftrightarrow> (\<forall>w w' x. m w = (w', Inr x) \<longrightarrow> \<not> finalizing w')"

lemma closes_rules:
  "(\<And>x. closes (k x)) \<Longrightarrow> closes (job_then m k)"
  "closes (Actions.reading (\<lambda>_. Inl e))"
  "closes m \<Longrightarrow> closes n \<Longrightarrow> closes (if b then m else n)"
  by (unfold closes_def job_then_simps reading_simps) (blast, blast, simp)

lemma closes_run:
  assumes "unconcerned sch" and f: "\<And>st st'. f st = Inr st' \<Longrightarrow> merge_finalizing_at (run st') = None"
  shows "closes (run_commits sch k f)"
  unfolding closes_def
proof (intro allI impI)
  fix w w' x
  assume "run_commits sch k f w = (w', Inr x)"
  then obtain st where "f (hub_run (fst w)) = Inr st" "w' = others sch (100 + k) (put_run st w)"
    unfolding run_commits_Inr by blast
  then show "\<not> finalizing w'"
    using assms(1) f [of "hub_run (fst w)" st] unfolding unconcerned_def by (simp add: put_run_def)
qed

lemma closes_txns:
  assumes "unconcerned sch"
  shows "closes (run_commits sch k (clear_merge_finalizing wid l lease now))"
    and "closes (run_commits sch k (finalize_merge i c tip l lease summary now))"
  by (rule closes_run [OF assms], auto simp: clear_merge_finalizing_def dest!: fencedD known_runD split: if_splits)
    (rule closes_run [OF assms], simp add: finalize_merged)

lemma undo_closes: "unconcerned sch \<Longrightarrow> closes (undo_merge sch rd tools w source lease ttl l paths committed)"
  unfolding undo_merge_def by (intro closes_rules closes_txns; assumption)

definition surfaces :: "(HubStore \<times> 'g, flow_error, 'a) action \<Rightarrow> bool" where
  \<comment> \<open>when it raises, it asks for a reconciliation or no merge is being finalized\<close>
  "surfaces m \<longleftrightarrow> (\<forall>w w' e. m w = (w', Inl e) \<longrightarrow> e = ChangeSetReconciliationRequired \<or> \<not> finalizing w')"

lemma surfaces_rules:
  "unconcerned sch \<Longrightarrow> surfaces (on_error m (recover_failure sch rd tools w source lease ttl l paths committed))"
  "surfaces n \<Longrightarrow> (\<And>x. surfaces (k x)) \<Longrightarrow> surfaces (job_then n k)"
  "(\<And>x y. surfaces (k' x y)) \<Longrightarrow> surfaces (case p of (x, y) \<Rightarrow> k' x y)"
proof -
  show "surfaces (on_error m (recover_failure sch rd tools w source lease ttl l paths committed))" if "unconcerned sch"
    using that undo_closes [of sch rd tools w source lease ttl l paths committed]
    unfolding surfaces_def closes_def recover_failure_def on_error_simps reading_simps by blast
  show "surfaces n \<Longrightarrow> (\<And>x. surfaces (k x)) \<Longrightarrow> surfaces (job_then n k)"
    unfolding surfaces_def job_then_simps by blast
  show "(\<And>x y. surfaces (k' x y)) \<Longrightarrow> surfaces (case p of (x, y) \<Rightarrow> k' x y)"
    by (cases p) simp
qed

subsubsection \<open>The body and the lock\<close>

lemma merge_body_flag:
  assumes "unconcerned sch" and "\<not> interrupted sch 102" and "\<not> finalizing st"
    and "merge_body H sch rd tools ctx source lease ttl c d l st = (st', r)"
  shows "r = Inl ChangeSetReconciliationRequired \<or> \<not> finalizing st'"
proof (cases r)
  case (Inr u)
  obtain c' tip w3 where "finish_merge sch (ctx_node_run ctx) c' tip l lease w3 = (st', Inr ())"
    by (rule merge_body_Inr [OF assms(4) [unfolded Inr]]) blast
  moreover have "closes (finish_merge sch (ctx_node_run ctx) c' tip l lease)"
    unfolding finish_merge_def by (intro closes_rules closes_txns assms(1))
  ultimately show ?thesis unfolding closes_def by blast
next
  case (Inl e)
  let ?rest = "\<lambda>index. job_then (on_error (readmit H sch rd (ctx_run ctx) source)
      (recover_failure sch rd tools (ctx_run ctx) source lease ttl l (merge_paths d) None)) (\<lambda>(c, d, a).
    job_then (on_error (publish H sch rd tools (ctx_run ctx) index c d a)
      (recover_failure sch rd tools (ctx_run ctx) source lease ttl l (merge_paths d) None)) (\<lambda>commit.
    on_error (finish_merge sch (ctx_node_run ctx) c commit l lease)
      (recover_failure sch rd tools (ctx_run ctx) source lease ttl l (merge_paths d) (Some commit))))"
  have rest: "surfaces (?rest index)" for index by (intro surfaces_rules assms(1))
  have "job_then (open_merge H sch tools (ctx_run ctx) c lease l) ?rest st = (st', Inl e)"
    using assms(4) unfolding Inl merge_body_def Let_def .
  from job_then_simps(1) [THEN iffD1, OF this] show ?thesis
  proof (elim disjE exE conjE)
    assume "open_merge H sch tools (ctx_run ctx) c lease l st = (st', Inl e)"
    then show ?thesis
      using open_merge_raises [OF assms(1,2)] assms(3) unfolding raises_to_def same_flag_def by blast
  next
    fix st1 index
    assume "?rest index st1 = (st', Inl e)"
    then show ?thesis using rest [of index] unfolding Inl surfaces_def by blast
  qed
qed

lemma hold_ends:
  assumes onward: "\<And>w1 w2 w3. R w1 w2 \<Longrightarrow> R w2 w3 \<Longrightarrow> R w1 w3"
    and a: "keeps_to R (job_then (pause sch 20) (\<lambda>_. acquire sch 20 session kind opid ttl))"
    and v: "\<And>l. keeps_to R (job_then (assert_healthy sch 20) (\<lambda>_. job_then (pause sch 21)
      (\<lambda>_. job_then (assert_valid sch 21 session l) (\<lambda>_. assert_healthy sch 21))))"
    and g: "\<And>l. keeps_to R (job_then (pause sch 22) (\<lambda>_. release sch 22 l))"
    and b: "\<And>l w1 w2 r. R w w1 \<Longrightarrow> body l w1 = (w2, r) \<Longrightarrow> r = Inl ChangeSetReconciliationRequired \<or> P w2"
    and p: "\<And>w1. R w w1 \<Longrightarrow> P w1" "\<And>w1 w2. P w1 \<Longrightarrow> R w1 w2 \<Longrightarrow> P w2"
    and h: "hold sch session kind opid ttl body w = (w', r)"
  shows "r = Inl ChangeSetReconciliationRequired \<or> P w'"
proof -
  obtain w1 x where 1: "job_then (pause sch 20) (\<lambda>_. acquire sch 20 session kind opid ttl) w = (w1, x)"
    by fastforce
  have r1: "R w w1" using keeps_toD [OF a, of w] by (simp add: 1)
  show ?thesis
  proof (cases x)
    case (Inl e)
    then show ?thesis using p(1) [OF r1] h by (simp add: hold_def held_def 1)
  next
    case (Inr l)
    obtain w2 y where 2: "body l w1 = (w2, y)" by fastforce
    obtain w3 z where 3: "(case map_sum (uncancelled sch) id y of Inl e \<Rightarrow> (w2, Inl e)
        | Inr _ \<Rightarrow> job_then (assert_healthy sch 20) (\<lambda>_. job_then (pause sch 21) (\<lambda>_.
            job_then (assert_valid sch 21 session l) (\<lambda>_. assert_healthy sch 21))) w2) = (w3, z)"
      by fastforce
    obtain w4 q where 4: "job_then (pause sch 22) (\<lambda>_. release sch 22 l) w3 = (w4, q)" by fastforce
    have r34: "R w3 w4" using keeps_toD [OF g, of w3 l] by (simp add: 4)
    have "w3 = w2 \<or> R w2 w3"
    proof (cases y)
      case Inl: (Inl e)
      then show ?thesis using 3 by simp
    next
      case Inr: (Inr u)
      have "job_then (assert_healthy sch 20) (\<lambda>_. job_then (pause sch 21) (\<lambda>_.
        job_then (assert_valid sch 21 session l) (\<lambda>_. assert_healthy sch 21))) w2 = (w3, z)"
        using 3 by (simp add: Inr)
      then show ?thesis using keeps_toD [OF v, of w2 l] by simp
    qed
    then have r24: "R w2 w4" using r34 onward by blast
    have "y = Inl ChangeSetReconciliationRequired \<or> P w2" by (rule b [OF r1 2])
    moreover have "r = Inl ChangeSetReconciliationRequired" if "y = Inl ChangeSetReconciliationRequired"
      using h that 3 4 by (auto simp: hold_def held_def 1 Inr 2 uncancelled_def)
    moreover have "w' = w4" using h by (simp add: hold_def held_def 1 Inr 2 3 4)
    ultimately show ?thesis using p(2) r24 by blast
  qed
qed

lemma handler_ends:
  assumes onward: "\<And>w1 w2 w3. R w1 w2 \<Longrightarrow> R w2 w3 \<Longrightarrow> R w1 w3"
    and d: "\<And>source. keeps_to R (admit sch rd (ctx_run ctx) source)"
    and a: "\<And>session kind opid. keeps_to R (job_then (pause sch 20) (\<lambda>_. acquire sch 20 session kind opid ttl))"
    and v: "\<And>session l. keeps_to R (job_then (assert_healthy sch 20) (\<lambda>_. job_then (pause sch 21)
      (\<lambda>_. job_then (assert_valid sch 21 session l) (\<lambda>_. assert_healthy sch 21))))"
    and g: "\<And>l. keeps_to R (job_then (pause sch 22) (\<lambda>_. release sch 22 l))"
    and b: "\<And>source c d l w1 w2 r. R st w1 \<Longrightarrow> merge_body H sch rd tools ctx source lease ttl c d l w1 = (w2, r) \<Longrightarrow>
      r = Inl ChangeSetReconciliationRequired \<or> P w2"
    and p: "P st" "\<And>w1. R st w1 \<Longrightarrow> P w1" "\<And>w1 w2. P w1 \<Longrightarrow> R w1 w2 \<Longrightarrow> P w2"
    and m: "merge_patch_handler H sch rd tools ctx lease ttl st = (st', r)"
  shows "r = Inl ChangeSetReconciliationRequired \<or> P st'"
proof (cases "source_node_id (ctx_node ctx)")
  case None
  then show ?thesis using p(1) m by (simp add: merge_patch_handler_def reading_simps)
next
  case (Some source)
  obtain w1 x where 1: "admit sch rd (ctx_run ctx) source st = (w1, x)" by fastforce
  have r1: "R st w1" using keeps_toD [OF d, of st source] by (simp add: 1)
  show ?thesis
  proof (cases x)
    case (Inl e)
    then show ?thesis using p(2) [OF r1] 1 m by (simp add: merge_patch_handler_def Some job_then_def)
  next
    case (Inr k)
    let ?hold = "hold sch (run_session_id (ctx_run ctx)) ''merge'' (node_run_id (ctx_node_run ctx)) ttl
      (merge_body H sch rd tools ctx source lease ttl (fst k) (snd k)) w1"
    obtain w2 y where 2: "?hold = (w2, y)" by fastforce
    have "y = Inl ChangeSetReconciliationRequired \<or> P w2"
      by (rule hold_ends [where R = R, OF onward a v g _ _ p(3) 2]) (use b p(2) r1 onward in blast)+
    moreover have "st' = w2" "y = Inl ChangeSetReconciliationRequired \<Longrightarrow> r = Inl ChangeSetReconciliationRequired"
      using m by (auto simp: merge_patch_handler_def Some job_then_def reading_def 1 Inr split_beta 2 split: sum.splits)
    ultimately show ?thesis by blast
  qed
qed

subsubsection \<open>What a failed merge leaves in the repository\<close>

abbreviation run_commit :: "HubStore \<times> 'g \<Rightarrow> string" where
  "run_commit w \<equiv> current_commit (run (hub_run (fst w)))"

definition same_commit :: "HubStore \<times> 'g \<Rightarrow> HubStore \<times> 'g \<Rightarrow> bool" where
  "same_commit w w' \<longleftrightarrow> run_commit w' = run_commit w"

definition untouched :: "HubStore \<times> 'g \<Rightarrow> HubStore \<times> 'g \<Rightarrow> bool" where
  \<comment> \<open>the repository and the commit of the run are the same\<close>
  "untouched w w' \<longleftrightarrow> snd w' = snd w \<and> run_commit w' = run_commit w"

definition aloof :: "(HubStore \<times> 'g) Schedule \<Rightarrow> bool" where
  \<comment> \<open>nobody else touches the repository or moves the commit of the run\<close>
  "aloof sch \<longleftrightarrow> (\<forall>k w. untouched w (others sch k w))"

definition tidy :: "'g git \<Rightarrow> HubStore \<times> 'g \<Rightarrow> bool" where
  \<comment> \<open>the repository is clean at the commit of the run\<close>
  "tidy tools w \<longleftrightarrow> (\<exists>s. repository_state tools (snd w) = Inr s \<and> \<not> dirty s \<and> state_commit s = run_commit w)"

interpretation commits: actions same_commit
  by unfold_locales (auto simp: same_commit_def)

interpretation calm: actions untouched
  by unfold_locales (auto simp: untouched_def)

named_theorems calm_rules

lemmas [calm_rules] = commits.reading commits.then_job commits.on_error commits.if_job commits.split_job
  commits.option_job calm.reading calm.then_job calm.on_error calm.if_job calm.split_job calm.option_job

lemma untouched_commit: "keeps_to untouched m \<Longrightarrow> keeps_to same_commit m"
  by (simp add: keeps_to_def untouched_def same_commit_def)

lemma calm_parts [calm_rules]:
  "aloof sch \<Longrightarrow> keeps_to untouched (pause sch k)"
  "aloof sch \<Longrightarrow> keeps_to same_commit (pause sch k)"
  "keeps_to same_commit (on_snd m)"
  "keeps_to untouched (on_snd (Actions.reading f0))"
  "keeps_to untouched (on_fst (Actions.reading f))"
  "keeps_to untouched (hub_reads f1)"
  "keeps_to same_commit (hub_reads f1)"
  "keeps_to untouched (on_fst (Actions.committing (\<lambda>h. case f2 (file_locks (hub_run h)) of
     Inl e \<Rightarrow> Inl (Raised (LeaseError e))
   | Inr (tab, x) \<Rightarrow> Inr (h\<lparr>hub_run := (hub_run h)\<lparr>file_locks := tab\<rparr>\<rparr>, x))))"
  by (auto simp: same_commit_def untouched_def keeps_to_def aloof_def pause_def on_snd_def on_fst_def hub_reads_def
      reading_def committing_def split: prod.split sum.split)

lemma calm_run:
  assumes "aloof sch" and f: "\<And>s s'. f s = Inr s' \<Longrightarrow> current_commit (run s') = current_commit (run s)"
  shows "keeps_to untouched (run_commits sch k f)"
proof -
  have "keeps_to untouched (on_fst (Actions.committing (\<lambda>h. raised (and_then (f (hub_run h))
     (\<lambda>s. Inr (h\<lparr>hub_run := s\<rparr>, ()))))) :: (HubStore \<times> 'a, flow_error, unit) action)"
    using f by (auto simp: untouched_def keeps_to_def on_fst_def committing_def and_then_Inr
      split: sum.splits prod.splits)
  then show ?thesis unfolding run_commits_def by (intro calm_rules assms(1))
qed

lemma calm_locks [calm_rules]:
  assumes "aloof sch"
  shows "keeps_to untouched (lock_commits sch k f)"
  unfolding lock_commits_def by (intro calm_rules assms)

lemma calm_lock [calm_rules]:
  "aloof sch \<Longrightarrow> keeps_to untouched (acquire sch k session kind opid ttl)"
  "aloof sch \<Longrightarrow> keeps_to untouched (release sch k l)"
  "keeps_to untouched (assert_valid sch k session l)"
  "keeps_to untouched (assert_healthy sch k)"
  unfolding acquire_def release_def assert_valid_def assert_healthy_def by (intro calm_rules; assumption)+

lemma calm_txns [calm_rules]:
  assumes "aloof sch"
  shows "keeps_to untouched (run_commits sch k (begin_merge_finalizing wid l lease now))"
    and "keeps_to untouched (run_commits sch k (clear_merge_finalizing wid l lease now))"
  by (rule calm_run [OF assms], auto simp: begin_merge_finalizing_def dest!: fencedD known_runD update_runD split: if_splits)
    (rule calm_run [OF assms], auto simp: clear_merge_finalizing_def dest!: fencedD known_runD split: if_splits)

lemmas commit_rules [calm_rules] = calm_lock [THEN untouched_commit] calm_locks [THEN untouched_commit]
  calm_txns [THEN untouched_commit]

lemma commit_parts [calm_rules]: "keeps_to same_commit (on_fst (Actions.reading f))"
  by (rule untouched_commit) (rule calm_parts)

lemma calm_steps:
  assumes "aloof sch"
  shows "keeps_to untouched (admit sch rd w source)" and "keeps_to untouched (open_merge H sch tools w c lease l)"
    and "keeps_to untouched (readmit H sch rd w source)"
    and "keeps_to same_commit (publish H sch rd tools w index c d a)"
    and "keeps_to same_commit (fenced_restore sch ttl session l m)"
  unfolding admit_def open_merge_def readmit_def publish_def fenced_restore_def
  by (intro calm_rules assms)+

lemma recover_failure_commit [calm_rules]:
  assumes "aloof sch"
  shows "keeps_to same_commit (recover_failure sch rd tools w source lease ttl l paths committed cause)"
  unfolding recover_failure_def undo_merge_def by (intro calm_rules calm_steps assms)

lemma tidy_untouched: "tidy tools w \<Longrightarrow> untouched w w' \<Longrightarrow> tidy tools w'"
  by (simp add: tidy_def untouched_def)

lemma refused_Inr:
  "(if b then Actions.reading (\<lambda>_. Inl e) else m) w = (w', Inr u) \<longleftrightarrow> \<not> b \<and> m w = (w', Inr u)"
  by (simp add: reading_simps)

lemma recover_failure_tidy:
  assumes u: "aloof sch" and "run_commit st = current_commit w"
    and "recover_failure sch rd tools w source lease ttl l paths committed cause st = (st', Inr u)"
  shows "committed = None \<and> tidy tools st'"
proof -
  let ?restore = "\<lambda>s. if dirty s
        then job_then (pause sch 8) (\<lambda>_. job_then (hub_reads (source_record rd w source)) (\<lambda>(c, d).
          job_then (pause sch 9) (\<lambda>_. fenced_restore sch ttl (run_session_id w) l (restore_tree tools c d paths))))
        else Actions.reading (\<lambda>_. Inr ())"
  have "undo_merge sch rd tools w source lease ttl l paths committed st = (st', Inr u)"
    using assms(3) by (simp add: recover_failure_def on_error_simps)
  then obtain s w1 clean x where n: "committed = None" and r: "?restore s st = (w1, Inr x)"
    and c: "repository_state tools (snd w1) = Inr clean" "\<not> dirty clean" "state_commit clean = current_commit w"
    and e: "job_then (pause sch 11) (\<lambda>_. run_commits sch 11 (clear_merge_finalizing (workflow_run_id w) l lease (clock sch 11)))
      w1 = (st', Inr u)"
    unfolding undo_merge_def job_then_simps(2) [of "assert_healthy sch 4"] assert_healthy_Inr
      job_then_simps(2) [of "on_snd (Actions.reading (repository_state tools))"] on_snd_reading_Inr refused_Inr
      job_then_simps(2) [of "If _ _ _"] de_Morgan_disj not_not
    by blast
  have "keeps_to same_commit (?restore s)" by (intro calm_rules calm_steps u)
  from keeps_toD [OF this, of st] have "run_commit w1 = current_commit w" using r assms(2) by (simp add: same_commit_def)
  then have "tidy tools w1" using c by (simp add: tidy_def)
  moreover have "keeps_to untouched (job_then (pause sch 11)
      (\<lambda>_. run_commits sch 11 (clear_merge_finalizing (workflow_run_id w) l lease (clock sch 11))))"
    by (intro calm_rules u)
  from keeps_toD [OF this, of w1] have "untouched w1 st'" by (simp add: e)
  ultimately show ?thesis using n tidy_untouched by blast
qed

definition tidies :: "'g git \<Rightarrow> string \<Rightarrow> (HubStore \<times> 'g, flow_error, 'a) action \<Rightarrow> bool" where
  \<comment> \<open>when it raises in a run at this commit, it asks for a reconciliation or the repository is clean there\<close>
  "tidies tools tip m \<longleftrightarrow> (\<forall>w w' e. run_commit w = tip \<longrightarrow> m w = (w', Inl e) \<longrightarrow>
     e = ChangeSetReconciliationRequired \<or> tidy tools w')"

lemma tidies_undone:
  assumes "aloof sch" and "committed = None \<Longrightarrow> keeps_to same_commit m"
  shows "tidies tools (current_commit w) (on_error m (recover_failure sch rd tools w source lease ttl l paths committed))"
  unfolding tidies_def
proof (intro allI impI)
  fix st st' e
  assume st: "run_commit st = current_commit w"
    and m: "on_error m (recover_failure sch rd tools w source lease ttl l paths committed) st = (st', Inl e)"
  then obtain w1 e1 where 1: "m st = (w1, Inl e1)"
    and 2: "recover_failure sch rd tools w source lease ttl l paths committed e1 w1 = (st', Inl e) \<or>
      (\<exists>u. recover_failure sch rd tools w source lease ttl l paths committed e1 w1 = (st', Inr u))"
    unfolding on_error_simps by blast
  have c: "run_commit w1 = current_commit w" if "committed = None"
    using keeps_toD [OF assms(2) [OF that], of st] st by (simp add: 1 same_commit_def)
  from 2 show "e = ChangeSetReconciliationRequired \<or> tidy tools st'"
  proof
    assume "recover_failure sch rd tools w source lease ttl l paths committed e1 w1 = (st', Inl e)"
    then show ?thesis by (auto simp: recover_failure_def on_error_simps reading_simps)
  next
    assume "\<exists>u. recover_failure sch rd tools w source lease ttl l paths committed e1 w1 = (st', Inr u)"
    then obtain u where u: "recover_failure sch rd tools w source lease ttl l paths committed e1 w1 = (st', Inr u)" by blast
    then have n: "committed = None"
      by (auto simp: recover_failure_def on_error_simps undo_merge_def job_then_simps(2) reading_simps split: if_splits)
    show ?thesis using recover_failure_tidy [OF assms(1) c [OF n] u] by blast
  qed
qed

lemma tidies_then:
  assumes "tidies tools tip m" and "keeps_to same_commit m" and "\<And>x. tidies tools tip (k x)"
  shows "tidies tools tip (job_then m k)"
  unfolding tidies_def job_then_simps
proof (intro allI impI)
  fix w w' e
  assume w: "run_commit w = tip"
    and "m w = (w', Inl e) \<or> (\<exists>w1 x. m w = (w1, Inr x) \<and> k x w1 = (w', Inl e))"
  moreover have "run_commit w1 = tip" if "m w = (w1, Inr x)" for w1 x
    using keeps_toD [OF assms(2), of w] w by (simp add: that same_commit_def)
  ultimately show "e = ChangeSetReconciliationRequired \<or> tidy tools w'"
    using assms(1,3) unfolding tidies_def by blast
qed

lemma merge_body_tidy:
  assumes u: "aloof sch" and st: "run_commit st = current_commit (ctx_run ctx)"
    and b: "merge_body H sch rd tools ctx source lease ttl c d l st = (st', r)"
  shows "r = Inl ChangeSetReconciliationRequired \<or> untouched st st' \<or> tidy tools st'"
proof (cases r)
  case (Inr x)
  obtain index c' d' a tip w2 w3 where p: "publish H sch rd tools (ctx_run ctx) index c' d' a w2 = (w3, Inr tip)"
    and f: "finish_merge sch (ctx_node_run ctx) c' tip l lease w3 = (st', Inr ())"
    by (rule merge_body_Inr [OF b [unfolded Inr]]) blast
  obtain g g' patch tree where k: "commit_approved_patch H tools (merge_request (ctx_run ctx) c' d' a patch (Some index)) g =
      (g', Inr (tip, tree))" and w3: "snd w3 = g'"
    using publish_Inr [OF p] by auto
  obtain s where s: "repository_state tools g' = Inr s" "state_commit s = tip" "\<not> dirty s"
    using commits_are_the_approved_patch [OF k] unfolding committed_as_def by blast
  obtain m where m: "finalize_merge (node_run_id (ctx_node_run ctx)) (change_set_id c') tip l lease
      ''Master committed the approved ChangeSet.'' (clock sch 7) (hub_run (fst (others sch 7 w3))) = Inr m"
    and st': "st' = others sch 107 (put_run m (others sch 7 w3))"
    using finish_merge_Inr [OF f] by blast
  have "untouched w3 (others sch 7 w3)" "untouched (put_run m (others sch 7 w3)) st'"
    using u unfolding aloof_def st' by blast+
  then have "snd st' = g'" "run_commit st' = tip"
    using finalize_merged [OF m] w3 by (simp_all add: untouched_def put_run_def)
  then show ?thesis using s by (auto simp: tidy_def)
next
  case (Inl e)
  let ?w = "ctx_run ctx"
  let ?undo = "\<lambda>d. recover_failure sch rd tools ?w source lease ttl l (merge_paths d)"
  let ?rest = "\<lambda>index. job_then (on_error (readmit H sch rd ?w source) (?undo d None)) (\<lambda>(c, d, a).
    job_then (on_error (publish H sch rd tools ?w index c d a) (?undo d None)) (\<lambda>commit.
    on_error (finish_merge sch (ctx_node_run ctx) c commit l lease) (?undo d (Some commit))))"
  have rest: "tidies tools (current_commit ?w) (?rest index)" for index
  proof (rule tidies_then)
    show "tidies tools (current_commit ?w) (on_error (readmit H sch rd ?w source) (?undo d None))"
      by (rule tidies_undone [OF u]) (rule untouched_commit [OF calm_steps(3) [OF u]])
    show "keeps_to same_commit (on_error (readmit H sch rd ?w source) (?undo d None))"
      by (intro calm_rules untouched_commit [OF calm_steps(3)] u)
    have "tidies tools (current_commit ?w)
      (job_then (on_error (publish H sch rd tools ?w index c d a) (?undo d None)) (\<lambda>commit.
        on_error (finish_merge sch (ctx_node_run ctx) c commit l lease) (?undo d (Some commit))))" for c d a
    proof (rule tidies_then)
      show "tidies tools (current_commit ?w) (on_error (publish H sch rd tools ?w index c d a) (?undo d None))"
        by (rule tidies_undone [OF u]) (rule calm_steps(4) [OF u])
      show "keeps_to same_commit (on_error (publish H sch rd tools ?w index c d a) (?undo d None))"
        by (intro calm_rules calm_steps u)
      show "tidies tools (current_commit ?w)
          (on_error (finish_merge sch (ctx_node_run ctx) c tip l lease) (?undo d (Some tip)))" for tip
        by (rule tidies_undone [OF u]) simp
    qed
    then show "tidies tools (current_commit ?w) (case k of (c, d, a) \<Rightarrow>
      job_then (on_error (publish H sch rd tools ?w index c d a) (?undo d None)) (\<lambda>commit.
        on_error (finish_merge sch (ctx_node_run ctx) c commit l lease) (?undo d (Some commit))))" for k
      by (cases k) simp
  qed
  note o = keeps_toD [OF calm_steps(2) [OF u], of st H tools ?w c lease l]
  have "job_then (open_merge H sch tools ?w c lease l) ?rest st = (st', Inl e)"
    using b unfolding Inl merge_body_def Let_def .
  from job_then_simps(1) [THEN iffD1, OF this] show ?thesis
  proof (elim disjE exE conjE)
    assume "open_merge H sch tools ?w c lease l st = (st', Inl e)"
    then show ?thesis using o by simp
  next
    fix st1 index
    assume 1: "open_merge H sch tools ?w c lease l st = (st1, Inr index)" and "?rest index st1 = (st', Inl e)"
    moreover have "run_commit st1 = current_commit ?w" using o st by (simp add: 1 untouched_def)
    ultimately show ?thesis using rest [of index] unfolding Inl tidies_def by blast
  qed
qed

text \<open>
  C10: a merge that fails does not leave the run half merged in silence. Unless the handler asks for
  a reconciliation, no merge of the run is being finalized any more when it ends, whether it returns,
  raises, is cancelled or loses its lease; for this the others are only asked not to touch the
  finalization of this run, and the task must not be cancelled in the one moment when the
  finalization is committed as opened and the handler does not know it yet. And when nobody else
  touches the repository or moves the commit of the run meanwhile, then, unless the handler asks for a
  reconciliation, it leaves both as they were or it leaves the repository clean at the commit of the
  run: the new one when the merge was recorded, the old one when the failure handler closed it.
\<close>

theorem only_reconciliation_leaves_a_merge_open:
  assumes "merge_patch_handler H sch rd tools ctx lease ttl st = (st', r)"
    and "r \<noteq> Inl ChangeSetReconciliationRequired"
  shows "(unconcerned sch \<and> \<not> interrupted sch 102 \<and> merge_finalizing_at (run (hub_run (fst st))) = None \<longrightarrow>
      merge_finalizing_at (run (hub_run (fst st'))) = None) \<and>
    (aloof sch \<and> current_commit (run (hub_run (fst st))) = current_commit (ctx_run ctx) \<longrightarrow>
      snd st' = snd st \<and> current_commit (run (hub_run (fst st'))) = current_commit (run (hub_run (fst st))) \<or>
      (\<exists>s. repository_state tools (snd st') = Inr s \<and> \<not> dirty s \<and>
         state_commit s = current_commit (run (hub_run (fst st')))))"
proof (intro conjI impI)
  assume "unconcerned sch \<and> \<not> interrupted sch 102 \<and> merge_finalizing_at (run (hub_run (fst st))) = None"
  then have u: "unconcerned sch" "\<not> interrupted sch 102" and n: "\<not> finalizing st" by auto
  have "r = Inl ChangeSetReconciliationRequired \<or> \<not> finalizing st'"
  proof (rule handler_ends [where R = same_flag and P = "\<lambda>w. \<not> finalizing w", OF flag.onward _ _ _ _ _ _ _ _ assms(1)])
    show "r = Inl ChangeSetReconciliationRequired \<or> \<not> finalizing w2"
      if "same_flag st w1" "merge_body H sch rd tools ctx source lease ttl c d l w1 = (w2, r)" for source c d l w1 w2 r
      using merge_body_flag [OF u _ that(2)] that(1) n by (simp add: same_flag_def)
  qed (use n in \<open>auto simp: same_flag_def intro!: flag_rules admit_flag u\<close>)
  then show "merge_finalizing_at (run (hub_run (fst st'))) = None" using assms(2) by blast
next
  assume "aloof sch \<and> run_commit st = current_commit (ctx_run ctx)"
  then have u: "aloof sch" and c: "run_commit st = current_commit (ctx_run ctx)" by auto
  have "r = Inl ChangeSetReconciliationRequired \<or> untouched st st' \<or> tidy tools st'"
  proof (rule handler_ends [where R = untouched and P = "\<lambda>w. untouched st w \<or> tidy tools w", OF calm.onward _ _ _ _ _ _ _ _ assms(1)])
    show "r = Inl ChangeSetReconciliationRequired \<or> untouched st w2 \<or> tidy tools w2"
      if "untouched st w1" "merge_body H sch rd tools ctx source lease ttl c d l w1 = (w2, r)" for source c d l w1 w2 r
      using merge_body_tidy [OF u _ that(2)] that(1) c calm.onward [OF that(1)] by (auto simp: untouched_def)
    show "untouched st w2 \<or> tidy tools w2" if "untouched st w1 \<or> tidy tools w1" "untouched w1 w2" for w1 w2
      using that calm.onward tidy_untouched by blast
  qed (intro calm_rules calm_steps u | simp add: untouched_def)+
  then show "snd st' = snd st \<and> run_commit st' = run_commit st \<or>
      (\<exists>s. repository_state tools (snd st') = Inr s \<and> \<not> dirty s \<and> state_commit s = run_commit st')"
    using assms(2) unfolding untouched_def tidy_def by blast
qed

subsection \<open>What recovery concludes\<close>

definition merged_at ::
  "MergeReader \<Rightarrow> 'g git \<Rightarrow> WorkflowRun \<Rightarrow> ChangeSetRow \<Rightarrow> CapturedChanges \<Rightarrow> ApprovalRecord \<Rightarrow> string \<Rightarrow> 'g \<Rightarrow> bool" where
  \<comment> \<open>the commit is the patch of the change set on its base, which is the run's commit, and its
      trailers name the change set and the approval\<close>
  "merged_at rd tools w c d a tip g \<longleftrightarrow> current_commit w = change_set_base c \<and>
     (\<exists>patch tree meta. verified_patch rd c = Inr patch \<and>
       canonical_patch_tree tools (change_set_base c) patch g = Inr tree \<and> commit_tree tools tip g = Inr tree \<and>
       commit_parent tools tip g = Inr (change_set_base c) \<and> read_commit_metadata tools tip g = Inr meta \<and>
       carries meta (trailers (merge_request w c d a patch None) tree))"

lemma judge_commit_Inr:
  "judge_commit rd tools w r c d a s g = Inr j \<Longrightarrow>
     (\<exists>reason. j = Quarantine reason) \<or>
     j = Finalize (node_run_id r) (change_set_id c) (state_commit s) \<and> \<not> dirty s \<and>
       merged_at rd tools w c d a (state_commit s) g"
  unfolding judge_commit_def merged_at_def by (auto simp: and_then_Inr split: if_splits)

lemma judge_commit_merged:
  assumes "merged_at rd tools w c d a (state_commit s) g" and "\<not> dirty s"
  shows "judge_commit rd tools w r c d a s g = Inr (Finalize (node_run_id r) (change_set_id c) (state_commit s))"
  using assms unfolding merged_at_def judge_commit_def by (auto simp: and_then_Inr)

definition borne_out ::
  "(string \<Rightarrow> string) \<Rightarrow> (HubStore \<times> 'g) Schedule \<Rightarrow> MergeReader \<Rightarrow> 'g git \<Rightarrow> WorkflowRun \<Rightarrow> HubStore \<times> 'g \<Rightarrow>
     judgement \<Rightarrow> bool" where
  \<comment> \<open>what recovery saw on its way from the state \<open>st\<close>, each state being what the others made of the one before\<close>
  "borne_out H sch rd tools w st j \<longleftrightarrow> (\<exists>reason. j = Quarantine reason) \<or>
     (let w1 = others sch 30 st; w2 = others sch 38 w1; w3 = others sch 31 w2; w4 = others sch 32 w3;
          w5 = others sch 33 w4; rows = node_runs (hub_run (fst w1))
      in cancel_requested_at w = None \<and>
       (\<exists>r i c d a cs s. merge_of rows = Some r \<and> source_of w r = Some i \<and>
         source_record rd w i (fst w2) = Inr (c, d) \<and> change_set_status c = ChangeSetStatus.APPROVED \<and>
         latest_for_change_set (fst w3) (change_set_id c) = Some a \<and>
         ap_status (approval a) = ApprovalStatus.APPROVED \<and> clock sch 32 < approval_expires_at (approval a) \<and>
         subject (approval a) = ChangeSetSubject cs (change_set_base c) (change_set_patch c) \<and>
         (case evidence_of H rd w c d rows (fst w4) of Inr (Inr e) \<Rightarrow> e | _ \<Rightarrow> []) = evidence_sha256 (approval a) \<and>
         repository_state tools (snd w5) = Inr s \<and> \<not> dirty s \<and>
         (j = Clear \<and> state_commit s = current_commit w \<or>
          j = Finalize (node_run_id r) (change_set_id c) (state_commit s) \<and>
            merged_at rd tools w c d a (state_commit s) (snd (others sch 34 w5)))))"

lemma judge_approval_Inr:
  assumes "judge_approval H sch rd tools w r rows c d st = (st', Inr j)"
  shows "(\<exists>reason. j = Quarantine reason) \<or>
    (let w3 = others sch 31 st; w4 = others sch 32 w3; w5 = others sch 33 w4
     in \<exists>a s. latest_for_change_set (fst w3) (change_set_id c) = Some a \<and> approved_for (Some a) c (clock sch 32) \<and>
       (case evidence_of H rd w c d rows (fst w4) of Inr (Inr e) \<Rightarrow> e | _ \<Rightarrow> []) = evidence_sha256 (approval a) \<and>
       repository_state tools (snd w5) = Inr s \<and> \<not> dirty s \<and>
       (j = Clear \<and> state_commit s = current_commit w \<or>
        j = Finalize (node_run_id r) (change_set_id c) (state_commit s) \<and>
          merged_at rd tools w c d a (state_commit s) (snd (others sch 34 w5))))"
proof -
  let ?w3 = "others sch 31 st" let ?w4 = "others sch 32 ?w3" let ?w5 = "others sch 33 ?w4"
  let ?ready = "\<lambda>a. job_then (pause sch 33) (\<lambda>_. job_then (on_snd (Actions.reading (repository_state tools))) (\<lambda>s.
              job_then (assert_healthy sch 31) (\<lambda>_.
              if state_commit s = current_commit w \<and> \<not> dirty s then Actions.reading (\<lambda>_. Inr Clear)
              else job_then (pause sch 34) (\<lambda>_. on_snd (Actions.reading (judge_commit rd tools w r c d (the a) s))))))"
  let ?a = "latest_for_change_set (fst ?w3) (change_set_id c)"
  from assms obtain e where e: "evidence_of H rd w c d rows (fst ?w4) = Inr e"
    and rest: "(case e of Inl ArtifactFailure \<Rightarrow> Actions.reading (\<lambda>_. Inl (Raised RuntimeError))
       | _ \<Rightarrow>
           (if \<not> approved_for ?a c (clock sch 32) \<or>
              evidence_sha256 (approval (the ?a)) \<noteq> (case e of Inr e \<Rightarrow> e | Inl _ \<Rightarrow> [])
            then Actions.reading (\<lambda>_. Inr invalid_approval) else ?ready ?a)) ?w4 = (st', Inr j)"
    unfolding judge_approval_def job_then_simps(2) pause_Inr on_fst_reading_Inr raised_simps sum.inject by blast
  show ?thesis
  proof (cases "e \<noteq> Inl ArtifactFailure \<and> approved_for ?a c (clock sch 32) \<and>
      evidence_sha256 (approval (the ?a)) = (case e of Inr e \<Rightarrow> e | Inl _ \<Rightarrow> [])")
    case False
    then have "\<exists>reason. j = Quarantine reason"
      using rest by (auto simp: reading_simps invalid_approval_def split: sum.splits evidence_error.splits if_splits)
    then show ?thesis ..
  next
    case True
    then obtain a where a: "?a = Some a" by (cases ?a) (auto simp: approved_for_def)
    have "?ready ?a ?w4 = (st', Inr j)"
      using rest True by (auto split: sum.splits evidence_error.splits)
    then obtain s where s: "repository_state tools (snd ?w5) = Inr s"
      and j: "state_commit s = current_commit w \<and> \<not> dirty s \<and> j = Clear \<or>
        judge_commit rd tools w r c d a s (snd (others sch 34 ?w5)) = Inr j"
      unfolding a option.sel by (auto simp: Inr_simps split: if_splits)
    have "(\<exists>reason. j = Quarantine reason) \<or> \<not> dirty s \<and> (j = Clear \<and> state_commit s = current_commit w \<or>
        j = Finalize (node_run_id r) (change_set_id c) (state_commit s) \<and>
          merged_at rd tools w c d a (state_commit s) (snd (others sch 34 ?w5)))"
      using j judge_commit_Inr [of rd tools w r c d a s "snd (others sch 34 ?w5)" j] by metis
    moreover have "(case evidence_of H rd w c d rows (fst ?w4) of Inr (Inr e) \<Rightarrow> e | _ \<Rightarrow> []) = evidence_sha256 (approval a)"
      using True by (simp add: e a split: sum.splits)
    ultimately show ?thesis using True s unfolding a Let_def by blast
  qed
qed

text \<open>
  C11: recovery concludes only what it has seen. When \<open>judge\<close>, called in a state, says something else
  than quarantine, then on its way from that state, each state being what the others had made of
  the one before: a merge node was running; the store held the change set of its source, approved;
  then the newest approval of that change set was approved, in time, of its base commit and patch; then the
  evidence computed from the store was the evidence of that approval; and then the repository was
  clean. When the judgement is that nothing was committed, its HEAD was the run's commit. When it is
  to finalize, it names that merge node and that change set, and HEAD was the commit that this merge would
  have made: its parent is the run's commit, which is the base of the change set, its tree is the
  one of the approved patch on that base, and its trailers name the change set and the approval.
\<close>

theorem recovery_concludes_what_it_saw:
  assumes "judge H sch rd tools w st = (st', Inr j)"
  shows "borne_out H sch rd tools w st j"
proof (cases "\<exists>reason. j = Quarantine reason")
  case True
  then show ?thesis by (simp add: borne_out_def)
next
  case False
  let ?w1 = "others sch 30 st" let ?w2 = "others sch 38 ?w1" let ?rows = "node_runs (hub_run (fst ?w1))"
  let ?found = "\<lambda>r found. case found of
      None \<Rightarrow> Actions.reading (\<lambda>_. Inr (Quarantine ''recovery ChangeSet is missing''))
    | Some (c, d) \<Rightarrow> judge_approval H sch rd tools w r ?rows c d"
  let ?rest = "case merge_of ?rows of
      None \<Rightarrow> Actions.reading (\<lambda>_. Inr (Quarantine ''merge_finalizing_without_running_merge_node''))
    | Some r \<Rightarrow> (case source_of w r of
        None \<Rightarrow> Actions.reading (\<lambda>_. Inr (Quarantine ''merge_source_missing''))
      | Some i \<Rightarrow> job_then (pause sch 38) (\<lambda>_. job_then (on_fst (Actions.reading (found_record rd w i))) (?found r)))"
  have n: "cancel_requested_at w = None"
    using assms False by (auto simp: judge_def reading_simps split: if_splits)
  from assms have rest: "?rest ?w1 = (st', Inr j)"
    unfolding judge_def n by (auto simp only: job_then_simps(2) pause_Inr on_fst_reading_Inr sum.inject simp_thms if_False)
  obtain r where r: "merge_of ?rows = Some r"
    using rest False by (cases "merge_of ?rows") (auto simp: reading_simps)
  obtain i where i: "source_of w r = Some i"
    using rest False r by (cases "source_of w r") (auto simp: reading_simps)
  obtain found where x: "found_record rd w i (fst ?w2) = Inr found" and f: "?found r found ?w2 = (st', Inr j)"
    using rest unfolding r i option.case job_then_simps(2) pause_Inr on_fst_reading_Inr by blast
  obtain c d where found: "found = Some (c, d)"
    using f False by (cases found) (auto simp: reading_simps)
  have sr: "source_record rd w i (fst ?w2) = Inr (c, d)"
    using x unfolding found by (auto simp: found_record_def split: sum.splits run_error.splits)
  have "judge_approval H sch rd tools w r ?rows c d ?w2 = (st', Inr j)"
    using f unfolding found by simp
  from judge_approval_Inr [OF this] False obtain a s where
    "latest_for_change_set (fst (others sch 31 ?w2)) (change_set_id c) = Some a" "approved_for (Some a) c (clock sch 32)"
    "(case evidence_of H rd w c d ?rows (fst (others sch 32 (others sch 31 ?w2))) of Inr (Inr e) \<Rightarrow> e | _ \<Rightarrow> []) =
      evidence_sha256 (approval a)"
    "repository_state tools (snd (others sch 33 (others sch 32 (others sch 31 ?w2)))) = Inr s" "\<not> dirty s"
    "j = Clear \<and> state_commit s = current_commit w \<or>
     j = Finalize (node_run_id r) (change_set_id c) (state_commit s) \<and> merged_at rd tools w c d a (state_commit s)
       (snd (others sch 34 (others sch 33 (others sch 32 (others sch 31 ?w2)))))"
    unfolding Let_def by blast
  then show ?thesis using n r i sr unfolding borne_out_def Let_def approved_for_Some by blast
qed

text \<open>
  What the others may do between the commit and the recovery: nothing to the objects of the commit.
\<close>

definition resolves_names :: "'g git \<Rightarrow> 'g \<Rightarrow> bool" where
  \<comment> \<open>the parent and the tree of HEAD are those of the commit that HEAD names\<close>
  "resolves_names tools g \<longleftrightarrow> (case rev_parse tools ''HEAD^{commit}'' g of Inl _ \<Rightarrow> True
     | Inr c \<Rightarrow> rev_parse tools (c @ ''^'') g = rev_parse tools ''HEAD^'' g \<and>
         rev_parse tools (c @ ''^{tree}'') g = rev_parse tools ''HEAD^{tree}'' g)"

lemma state_commitD:
  "repository_state tools g = Inr s \<Longrightarrow> rev_parse tools ''HEAD^{commit}'' g = Inr (state_commit s) \<and>
     is_git_object_id (state_commit s)"
  unfolding repository_state_def require_object_id_def by (auto simp: and_then_Inr split: if_splits)

text \<open>
  C12: recovery recognises the commit of a merge that crashed after it. In the repository that \<open>commit_approved_patch\<close> leaves
  behind when it is called for a merge on the run's commit, HEAD is the commit it made, the
  repository is clean, and \<open>judge_commit\<close> finalizes exactly that commit: what the merge handler
  writes in the trailers and checks of the tree and the parent is what recovery asks for. Git's names
  resolve as documented and the tree of a patch on a commit does not depend on HEAD.
\<close>

theorem published_commit_is_finalized:
  assumes "commit_approved_patch H tools (merge_request w c d a patch index) g = (g', Inr (tip, tree))"
    and "resolves_names tools g'"
    and "private_tree tools (change_set_base c) patch g' = private_tree tools (change_set_base c) patch g"
    and "verified_patch rd c = Inr patch" and "current_commit w = change_set_base c"
  shows "\<exists>s. repository_state tools g' = Inr s \<and> state_commit s = tip \<and> \<not> dirty s \<and>
    judge_commit rd tools w r c d a s g' = Inr (Finalize (node_run_id r) (change_set_id c) tip)"
proof -
  let ?q = "merge_request w c d a patch index"
  from assms(1) obtain g1 t where 1: "stage_patch H tools ?q g = (g1, Inr t)"
    and 2: "verify_commit tools ?q t g' = Inr (tip, tree)"
    unfolding commit_approved_patch_Inr by blast
  from verify_commit_Inr [OF 2] obtain s meta where t: "tree = t" and s: "repository_state tools g' = Inr s"
    "state_commit s = tip" "\<not> dirty s" and p: "rev_parse tools ''HEAD^'' g' = Inr (parent_of ?q)"
    and v: "rev_parse tools ''HEAD^{tree}'' g' = Inr t" "is_git_object_id t"
    and m: "read_commit_metadata tools tip g' = Inr meta" "carries meta (trailers ?q t)"
    by blast
  have base: "is_git_object_id (change_set_base c)" and c: "canonical_patch_tree tools (change_set_base c) patch g = Inr t"
    using stage_patch_Inr [OF 1] by (simp_all add: merge_request_def)
  have head: "rev_parse tools ''HEAD^{commit}'' g' = Inr tip" "is_git_object_id tip"
    using state_commitD [OF s(1)] s(2) by simp_all
  then have names: "rev_parse tools (tip @ ''^'') g' = rev_parse tools ''HEAD^'' g'"
    "rev_parse tools (tip @ ''^{tree}'') g' = rev_parse tools ''HEAD^{tree}'' g'"
    using assms(2) by (simp_all add: resolves_names_def)
  have "canonical_patch_tree tools (change_set_base c) patch g' = Inr t"
    using c unfolding canonical_patch_tree_def assms(3) .
  moreover have "commit_tree tools tip g' = Inr t"
    using head(2) v unfolding commit_tree_def names by (simp add: require_object_id_def and_then_def)
  moreover have "commit_parent tools tip g' = Inr (change_set_base c)"
    using head(2) p base unfolding commit_parent_def names
    by (simp add: require_object_id_def and_then_def merge_request_def)
  moreover have "trailers (merge_request w c d a patch None) t = trailers ?q t"
    by (simp add: trailers_def merge_request_def)
  ultimately have "merged_at rd tools w c d a (state_commit s) g'"
    using m assms(4,5) unfolding merged_at_def s(2) by metis
  from judge_commit_merged [OF this s(3), of r] show ?thesis using s by blast
qed

text \<open>
  C13: whatever the handlers and the recovery do to the store of the hub is a sequence of its
  transactions, whatever others do in between, and whatever ends them: a result, an error half way,
  a cancellation or a lost lease. It covers every guard, test and risk
  handler, the merge handler and the start of the hub, so the invariants of the transactions hold
  when they end: what is approved or merged was approved by somebody in time, and
  change sets follow their table.
\<close>

theorem handlers_and_recovery_refine_the_hub:
  assumes "tools_ok sealed" and "polite H cd sch"
  shows "hub_steps H cd h (fst (patch_guard_handler H sealed ctx lease now h)) \<and>
    hub_steps H cd h (fst (command_guard_handler H sealed ctx lease now h)) \<and>
    hub_steps H cd h (fst (test_handler H sealed ctx lease now h)) \<and>
    hub_steps H cd h (fst (risk_handler H sealed ctx lease now h)) \<and>
    hub_steps H cd (fst w) (fst (fst (merge_patch_handler H sch rd tools ctx lease ttl w))) \<and>
    hub_steps H cd (fst w) (fst (fst (recover H sch rd tools lease w)))"
  using guard_handlers_keep [OF assms(1), of H cd h ctx lease now]
    keeps_toD [OF merge_path [OF assms(2), of H rd tools ctx lease ttl], of w] recover_path [OF assms(2), of w H rd tools lease]
  by blast

subsection \<open>A merge that goes through\<close>

definition sample_git :: "(nat \<times> string) git" where
  \<comment> \<open>0: clean at the base, 1: staged, 2: committed with this message, 3: the patch is in the working tree\<close>
  "sample_git = \<lparr>
     rev_parse = (\<lambda>s (k, m).
       if s = ''HEAD^{commit}'' then Inr (replicate 40 (if k = 2 then CHR ''1'' else CHR ''0''))
       else if k = 2 \<and> (s = ''HEAD^'' \<or> s = replicate 40 CHR ''1'' @ ''^'') then Inr (replicate 40 CHR ''0'')
       else if k = 2 \<and> (s = ''HEAD^{tree}'' \<or> s = replicate 40 CHR ''1'' @ ''^{tree}'') then Inr (replicate 40 CHR ''2'')
       else Inl GitManagerError),
     current_branch = (\<lambda>_. Inr ''main''), staged_diff = (\<lambda>(k, m). Inr (k = 1)), unstaged_diff = (\<lambda>(k, m). Inr (k = 3)),
     untracked_names = (\<lambda>_. Inr []), ignored_names = (\<lambda>_. Inr []),
     staged_names = (\<lambda>(k, m). Inr (if k = 1 then [''a.md''] else [])), index_entries = (\<lambda>_. Inr ''index''),
     private_tree = (\<lambda>_ _ _. Inr (replicate 40 CHR ''2'')), commit_body = (\<lambda>_ (k, m). Inr m),
     check_apply = (\<lambda>_ _. Inr ()), apply_to_tree = (\<lambda>_ (k, m). ((3, m), Inr ())),
     add_paths = (\<lambda>_ (k, m). ((1, m), Inr ())), write_tree = (\<lambda>g. (g, Inr (replicate 40 CHR ''2''))),
     commit_index = (\<lambda>msg (k, m). ((2, msg), Inr ())), restore_files = (\<lambda>_ _ (k, m). ((0, m), Inr ())),
     remove_cached = (\<lambda>_ g. (g, Inr ())), remove_entries = (\<lambda>_ g. (g, Inr ()))\<rparr>"

definition sample_alone :: "'w Schedule" where
  \<comment> \<open>nothing happens in between\<close>
  "sample_alone = \<lparr>others = (\<lambda>_ w. w), interrupted = (\<lambda>_. False), clock = (\<lambda>_. 6), healthy = (\<lambda>_. True), process = 1\<rparr>"

definition sample_merging :: CompiledGraph where
  "sample_merging = sample_chain\<lparr>
     compiled_nodes := compiled_nodes sample_chain @
       [(new_node ''m'' MERGE_PATCH ''m'')\<lparr>source_node_id := Some ''w''\<rparr>, new_node ''o'' OUTPUT ''o''],
     compiled_edges := compiled_edges sample_chain @
       [sample_edge ''4'' ''p'' ''m'' EdgeCondition.APPROVED, sample_edge ''5'' ''m'' ''o'' SUCCESS]\<rparr>"

definition sample_merge_run :: "NodeRun" where
  "sample_merge_run = \<lparr>node_run_id = ''m'', nr_node_id = ''m'', nr_node_type = MERGE_PATCH, attempt = 1,
     nr_status = NodeRunStatus.RUNNING, nr_outcome = None, assigned_agent_id = None, output_artifact_id = None,
     nr_error_code = None, nr_created_at = 5, nr_started_at = None, nr_finished_at = None\<rparr>"

definition sample_output_run :: "NodeRun" where
  "sample_output_run = sample_merge_run\<lparr>node_run_id := ''o'', nr_node_id := ''o'', nr_node_type := OUTPUT,
     nr_status := NodeRunStatus.PENDING\<rparr>"

definition sample_merge_store :: RunStore where
  "sample_merge_store =
     \<lparr>run = \<lparr>workflow_run_id = ''r'', run_session_id = ''s'', run_base_commit = [], current_commit = replicate 40 CHR ''0'',
        author_snapshot = \<lparr>schema_version = ''1'', nodes = [], edges = []\<rparr>, author_snapshot_hash = [],
        compiled_snapshot = sample_merging, compiled_snapshot_hash = [], layout_digest = [], layout_snapshot_hash = [],
        run_policy_version = ''p'', catalog_snapshot = \<lparr>agents = [], catalog_hash = []\<rparr>, catalog_snapshot_hash = [],
        run_status = WorkflowRunStatus.RUNNING, run_started_at = None, run_finished_at = None,
        cancel_requested_at = None, merge_finalizing_at = None\<rparr>,
      node_runs = sample_rows @ [sample_merge_run, sample_output_run],
      tasks = [\<lparr>task_id = ''t'', task_node_run_id = ''w'', task_agent_id = ''a'', base_commit_of = [],
        runtime_policy_artifact = None, task_status = TaskStatus.SUCCEEDED, task_finished_at = None\<rparr>],
      artifacts = [], change_sets = [sample_change_set\<lparr>change_set_base := replicate 40 CHR ''0'',
        change_set_patch := replicate 64 CHR ''0'', change_set_status := ChangeSetStatus.APPROVED\<rparr>],
      approval_status = Map.empty, session_status = ''active'', integration_head_commit = replicate 40 CHR ''0'',
      master_leases = [''scheduler'' \<mapsto> sample_master ''alice'' 0 1], file_locks = Map.empty, run_events = []\<rparr>"

definition sample_approved :: HubStore where
  "sample_approved = \<lparr>hub_run = sample_merge_store,
     approvals = [sample_approval\<lparr>approval := \<lparr>approval_id = ''a'', approval_run_id = ''r'',
       approval_node_run_id = ''p'', subject_sha256 = ''sha'', evidence_sha256 = replicate 64 CHR ''0'',
       approval_risk = L2, approval_scope = [''a.md''], ap_status = ApprovalStatus.APPROVED,
       approval_version = 2, approval_expires_at = seconds 20,
       subject = ChangeSetSubject ''c'' (replicate 40 CHR ''0'') (replicate 64 CHR ''0'')\<rparr>\<rparr>],
     privilege_requests = [], capability_grants = [], active_grant = Map.empty, node_change_set = Map.empty,
     security_events = []\<rparr>"

definition sample_capture :: CapturedChanges where
  "sample_capture = \<lparr>change_document = \<lparr>pre_state_hash = ''x'', post_state_hash = ''y'', document_sha256 = ''z'',
     evidence_refs = []\<rparr>, captured_manifest = sample_manifest [''a.md''], created_files = [], created_dirs = [],
     modified_files = [''a.md''], deleted_files = [], renamed_files = [], new_untracked = []\<rparr>"

definition sample_merge_reader :: MergeReader where
  "sample_merge_reader = \<lparr>verified_changes = (\<lambda>_. Inr sample_capture), verified_patch = (\<lambda>_. Inr ''diff''),
     time_text = (\<lambda>_. ''t''), verified_artifact = sample_reader\<rparr>"

definition merge_context :: NodeExecutionContext where
  "merge_context = \<lparr>ctx_run = run (hub_run sample_approved), ctx_node_run = sample_merge_run,
     ctx_node = (new_node ''m'' MERGE_PATCH ''m'')\<lparr>source_node_id := Some ''w''\<rparr>, predecessors = [],
     active_predecessors = [], condition_upstream = None\<rparr>"

lemma sample_merge:
  obtains w r where "merge_patch_handler (\<lambda>_. replicate 64 CHR ''0'') sample_alone sample_merge_reader sample_git
    merge_context (sample_master ''alice'' 0 1) 30 (sample_approved, (0, [])) = (w, Inr r)"
proof -
  have "case merge_patch_handler (\<lambda>_. replicate 64 CHR ''0'') sample_alone sample_merge_reader sample_git merge_context
      (sample_master ''alice'' 0 1) 30 (sample_approved, (0, [])) of (w, Inr _) \<Rightarrow> True | _ \<Rightarrow> False"
    by code_simp
  then show thesis using that by (auto split: prod.splits sum.splits)
qed

lemma merges_commit_what_was_approved_witness:
  "\<exists>c d a cs patch index tip tree g'. change_set_status c = ChangeSetStatus.APPROVED \<and>
   ap_status (approval a) = ApprovalStatus.APPROVED \<and>
   subject (approval a) = ChangeSetSubject cs (change_set_base c) (change_set_patch c) \<and>
   committed_as sample_git (merge_request (ctx_run merge_context) c d a patch (Some index)) tip tree g'"
proof -
  obtain w r where "merge_patch_handler (\<lambda>_. replicate 64 CHR ''0'') sample_alone sample_merge_reader sample_git
    merge_context (sample_master ''alice'' 0 1) 30 (sample_approved, (0, [])) = (w, Inr r)"
    by (rule sample_merge)
  from merges_commit_what_was_approved [OF this] show ?thesis by blast
qed

lemma only_reconciliation_leaves_a_merge_open_witness:
  "\<exists>w r. merge_patch_handler (\<lambda>_. replicate 64 CHR ''0'') sample_alone sample_merge_reader sample_git
     merge_context (sample_master ''alice'' 0 1) 30 (sample_approved, (0, [])) = (w, Inr r) \<and>
   merge_finalizing_at (run (hub_run (fst w))) = None \<and>
   (snd w = (0, []) \<or> (\<exists>s. repository_state sample_git (snd w) = Inr s \<and> \<not> dirty s \<and>
      state_commit s = current_commit (run (hub_run (fst w)))))"
proof -
  obtain w r where m: "merge_patch_handler (\<lambda>_. replicate 64 CHR ''0'') sample_alone sample_merge_reader sample_git
    merge_context (sample_master ''alice'' 0 1) 30 (sample_approved, (0, [])) = (w, Inr r)"
    by (rule sample_merge)
  have "unconcerned (sample_alone :: (HubStore \<times> nat \<times> string) Schedule)"
    by (simp add: unconcerned_def sample_alone_def)
  moreover have "aloof (sample_alone :: (HubStore \<times> nat \<times> string) Schedule)"
    by (simp add: aloof_def untouched_def sample_alone_def)
  moreover have "\<not> interrupted (sample_alone :: (HubStore \<times> nat \<times> string) Schedule) 102"
    by (simp add: sample_alone_def)
  moreover have "merge_finalizing_at (run (hub_run (fst (sample_approved, 0 :: nat, [] :: string)))) = None"
    by (simp add: sample_approved_def sample_merge_store_def)
  moreover have "current_commit (run (hub_run (fst (sample_approved, 0 :: nat, [] :: string)))) =
      current_commit (ctx_run merge_context)"
    by (simp add: merge_context_def)
  ultimately have "merge_finalizing_at (run (hub_run (fst w))) = None"
    and "snd w = (0, []) \<or> (\<exists>s. repository_state sample_git (snd w) = Inr s \<and> \<not> dirty s \<and>
      state_commit s = current_commit (run (hub_run (fst w))))"
    using only_reconciliation_leaves_a_merge_open [OF m] by auto
  then show ?thesis using m by blast
qed

definition sample_row :: ChangeSetRow where
  "sample_row = sample_change_set\<lparr>change_set_base := replicate 40 CHR ''0'',
     change_set_patch := replicate 64 CHR ''0'', change_set_status := ChangeSetStatus.APPROVED\<rparr>"

definition sample_message :: string where
  "sample_message = commit_message (merge_request (run sample_merge_store) sample_row sample_capture
     (hd (approvals sample_approved)) ''diff'' None) (replicate 40 CHR ''2'')"

lemma recovery_concludes_what_it_saw_witness:
  "\<exists>j. (case j of Finalize i cs tip \<Rightarrow> i = ''m'' \<and> cs = ''c'' \<and> tip = replicate 40 CHR ''1'' | _ \<Rightarrow> False) \<and>
     borne_out (\<lambda>_. replicate 64 CHR ''0'') sample_alone sample_merge_reader sample_git (run sample_merge_store)
       (sample_approved, (2, sample_message)) j"
proof -
  have "case judge (\<lambda>_. replicate 64 CHR ''0'') sample_alone sample_merge_reader sample_git (run sample_merge_store)
      (sample_approved, (2, sample_message)) of
      (w, Inr (Finalize i cs tip)) \<Rightarrow> i = ''m'' \<and> cs = ''c'' \<and> tip = replicate 40 CHR ''1'' | _ \<Rightarrow> False"
    by code_simp
  then obtain w i cs tip where j: "judge (\<lambda>_. replicate 64 CHR ''0'') sample_alone sample_merge_reader sample_git
      (run sample_merge_store) (sample_approved, (2, sample_message)) = (w, Inr (Finalize i cs tip))"
    and r: "i = ''m'' \<and> cs = ''c'' \<and> tip = replicate 40 CHR ''1''"
    by (auto split: prod.splits sum.splits judgement.splits)
  show ?thesis using recovery_concludes_what_it_saw [OF j] r by (intro exI [of _ "Finalize i cs tip"]) simp
qed

lemma published_commit_is_finalized_witness:
  "\<exists>g' tip s. repository_state sample_git g' = Inr s \<and>
     judge_commit sample_merge_reader sample_git (run sample_merge_store) sample_merge_run sample_row sample_capture
       (hd (approvals sample_approved)) s g' = Inr (Finalize ''m'' ''c'' tip)"
proof -
  let ?q = "merge_request (run sample_merge_store) sample_row sample_capture (hd (approvals sample_approved)) ''diff'' None"
  have "case commit_approved_patch (\<lambda>_. replicate 64 CHR ''0'') sample_git ?q (3, []) of (_, Inr _) \<Rightarrow> True | _ \<Rightarrow> False"
    by code_simp
  then obtain g' tip tree where k: "commit_approved_patch (\<lambda>_. replicate 64 CHR ''0'') sample_git ?q (3, []) = (g', Inr (tip, tree))"
    by (auto split: prod.splits sum.splits)
  have "resolves_names sample_git g'"
    by (cases g') (simp add: resolves_names_def sample_git_def)
  moreover have "private_tree sample_git (change_set_base sample_row) ''diff'' g' =
      private_tree sample_git (change_set_base sample_row) ''diff'' (3, [])"
    by (simp add: sample_git_def)
  moreover have "verified_patch sample_merge_reader sample_row = Inr ''diff''"
    by (simp add: sample_merge_reader_def)
  moreover have "current_commit (run sample_merge_store) = change_set_base sample_row"
    by (simp add: sample_merge_store_def sample_row_def)
  moreover have "node_run_id sample_merge_run = ''m''" "change_set_id sample_row = ''c''"
    by (simp_all add: sample_merge_run_def sample_row_def sample_change_set_def)
  ultimately show ?thesis using published_commit_is_finalized [OF k, of sample_merge_reader sample_merge_run] by metis
qed

lemma handlers_and_recovery_refine_the_hub_witness:
  "hub_steps sample_hash sample_catalog_digest sample_approved (fst (fst (merge_patch_handler sample_hash sample_alone
     sample_merge_reader sample_git merge_context (sample_master ''alice'' 0 1) 30 (sample_approved, (0, [])))))"
proof -
  have "polite sample_hash sample_catalog_digest (sample_alone :: (HubStore \<times> nat \<times> string) Schedule)"
    by (simp add: polite_def sample_alone_def)
  then have "hub_path sample_hash sample_catalog_digest (sample_approved, 0, []) (fst (merge_patch_handler sample_hash
      sample_alone sample_merge_reader sample_git merge_context (sample_master ''alice'' 0 1) 30 (sample_approved, 0, [])))"
    using handlers_and_recovery_refine_the_hub [OF sample_tools_ok] by blast
  then show ?thesis by (simp only: fst_conv)
qed

text \<open>
  A task that is cancelled at the wrong moment leaves a merge open in silence. On the sample,
  when the cancellation arrives after the transaction of \<open>begin_merge_finalizing\<close> has committed and
  before the call returns, the failure handler returns at once, since \<open>finalizing\<close> is not yet set:
  the handler ends as cancelled, without asking for a reconciliation, the run is still being
  finalized, and the repository is clean and untouched. Only a new start of the hub closes it.
\<close>

lemma cancelled_opening_leaves_a_merge_open:
  "case merge_patch_handler (\<lambda>_. replicate 64 CHR ''0'') (sample_alone\<lparr>interrupted := (\<lambda>k. k = 102)\<rparr>) sample_merge_reader
     sample_git merge_context (sample_master ''alice'' 0 1) 30 (sample_approved, (0, [])) of
     ((h, g), r) \<Rightarrow> r = Inl Cancelled \<and> merge_finalizing_at (run (hub_run h)) \<noteq> None \<and> g = (0, [])"
  by code_simp

end
