(* ===== verification/Spec2Isabelle.thy ===== *)
theory Spec2Isabelle
  imports Path_Policy Scheduler Run_Gates Hub_Cancel Hub_Runs Approval_Manager Run_Termination Idempotency Guard_Safety
    Merge_Safety
begin

text \<open>
  A model of the core of Agent Hub, a local orchestrator that runs coding agents over a
  repository. A planner or a user draws an author graph; the hub validates it, assigns agents,
  compiles it into an executable graph in which every writing task is sealed into a chain of
  guards, tests, risk classification, human approval and merge, validates that graph again, and
  runs it under fencing leases. The theories below follow that path; a definition has the name of
  the function it models wherever HOL does not already use it.

  \<^bold>\<open>Conventions.\<close> A pydantic model is a record, with \<open>valid_\<dots>\<close> or \<open>\<dots>_constructible\<close> for
  what its constructor checks where the code relies on it; an enumeration is a datatype and its
  \<open>value\<close> a function \<open>\<dots>_value\<close>. A Python \<open>dict\<close> is a map (\<open>dict_by\<close>, where the last entry of a key
  wins), \<open>sorted\<close> is \<open>sort\<close> or \<open>sort_key\<close>, a \<open>Counter\<close> is \<open>count_list\<close>. A function that raises
  returns a sum with the error on the left; validators return the list of issues they append,
  with code, message, node and edge. Texts are lists of ASCII characters: on those, case folding
  is \<open>casefold\<close> and Unicode normalisation the identity. SHA-256 is a parameter \<open>H\<close>, the file
  system a parameter tree, the clock and the text of a pydantic exception parameters too; no
  hypothesis is made about any of them.

  \<^bold>\<open>Data and algorithms.\<close>
  \<^item> \<open>Prelude\<close>: lemmas on sorted lists, dictionaries, numerals as text and reports.
  \<^item> \<open>Protocol\<close> (\<open>protocol/common.py\<close>, \<open>workflow.py\<close>, \<open>api.py\<close>): enumerations, nodes, edges,
    author and compiled graphs, validation issues.
  \<^item> \<open>Graph_Search\<close>, \<open>Topo_Order\<close>, \<open>Dominators\<close> (\<open>_reachable_from\<close>,
    \<open>_transitive_predecessors\<close>, \<open>_contains_cycle\<close>, \<open>_dominators\<close> of \<open>workflow/validation.py\<close>): the
    loops as terminating functions, proved equal to reachability, acyclicity and dominance
    (\<open>on_every_path\<close>). The searches and Kahn's algorithm share their invariants through the
    locales \<open>closure_search\<close> and \<open>topo_sorter\<close>. The fixpoint of \<open>_dominators\<close> runs on fuel: the
    sum of the sizes of the sets decreases in every round that changes one, so one round more
    than that sum suffices, and this is proved.
  \<^item> \<open>Canonical_Json\<close> (\<open>canonical_json\<close>): the bytes that are hashed; the encoding is injective.
  \<^item> \<open>Graph_Model\<close> (\<open>workflow/graph_model.py\<close>): normalisation is idempotent and order-blind.

  \<^bold>\<open>Gates.\<close>
  \<^item> \<open>Path_Rules\<close> (\<open>path_rules.py\<close>, \<open>workflow/capability_policy.py\<close>) and \<open>Path_Policy\<close>
    (\<open>security/path_policy.py\<close>): which relative names may be granted; an accepted scope is safe.
  \<^item> \<open>Risk\<close> (\<open>security/risk_classifier.py\<close>): the risk of a change is the least level that covers
    every reason for one.
  \<^item> \<open>Command_Guard\<close> (\<open>security/command_guard.py\<close>): an accepted test command runs a registered
    executable with allowlisted options and local selectors. The locale \<open>command_gate\<close> states
    what every family of commands owes to the loop that collects them.
  \<^item> \<open>Draft_Validation\<close> (\<open>workflow/validation.py\<close>): an accepted draft is a connected dag from one
    input to one output, grants nothing, and its conditions read nodes that dominate them.
  \<^item> \<open>Router\<close> (\<open>master/router.py\<close>): the assignment is capable, best and independent of order.
  \<^item> \<open>Compiler\<close> (\<open>workflow/compiler.py\<close>): injection of the sealed chains, compilation.
  \<^item> \<open>Executable_Validation\<close> (\<open>workflow/executable_validator.py\<close>, \<open>registry.py\<close>): in an accepted
    snapshot no merge is reachable without its task, guards, tests and approval.

  \<^bold>\<open>Run time.\<close>
  \<^item> \<open>Leases\<close> (\<open>storage/leases.py\<close>): master and workspace leases as transactions on their tables.
    The locale \<open>fenced_lease\<close> derives fencing from three laws of a step relation and is
    interpreted on both tables.
  \<^item> \<open>Run_State\<close>, \<open>Run_Repository\<close>, \<open>Run_Tasks\<close>, \<open>Run_Create\<close>
    (\<open>storage/workflow_run_repository.py\<close>): \<open>RunStore\<close> holds what the transactions of one run read
    and write: the run, its node rows (in insertion order), tasks, artifacts, change sets, the
    status of approvals, leases and locks, and the events. Each method that changes state is a
    function from stores to an error or the new store; a transaction that raises changes nothing.
    An \<open>UPDATE\<close> that must change one row is \<open>update_node\<close>, \<open>update_run\<close> or \<open>update_task\<close>.
    \<open>reconcile_loop\<close> terminates because a pass that changes something leaves fewer pending rows.
  \<^item> \<open>Run_Machine\<close>: the specification, a step relation on the run and its rows: the moves of a
    node and of a run, what justifies a start, one new attempt at a time. Its invariants are
    proved by rule induction. \<open>Run_Refinement\<close> and \<open>Run_Steps\<close> prove that every transaction
    is a sequence of those steps (\<open>sim\<close>), \<open>Run_Reachable\<close> collects the transactions in \<open>run_step\<close>
    and carries the invariants over to everything reachable from a created run.
  \<^item> \<open>Run_Progress\<close>: after reconciliation a running run has a node that is ready, running or
    waiting. \<open>Run_Gates\<close>: outcomes fit statuses, and a node of a sealed chain that has started
    has all its predecessors completed.
  \<^item> \<open>Node_Handlers\<close> (\<open>workflow/handlers/base.py\<close>, \<open>deterministic.py\<close>, the result of
    \<open>approval.py\<close>), \<open>Executor\<close> (\<open>workflow/executor.py\<close>, \<open>handlers/factory.py\<close>): the handlers of agent
    tasks, guards and merges and the artifact files are parameters, functions of the store; what
    is required of them is \<open>handlers_ok\<close> or \<open>handlers_compute\<close>, which the default registry satisfies.
    \<open>bystander\<close> collects the transactions that do not act on a given running row.
  \<^item> \<open>Scheduler\<close> (\<open>workflow/scheduler.py\<close>): \<open>ticks\<close> recurses on the number of ticks left, as the
    loop does. A tick that does not stop claims a node, so pending and ready rows decrease; one
    tick more than there are such rows is enough, and with handlers that compute the default of 1000
    is, for the compiler emits at most 300 nodes.

  \<^item> \<open>Run_Termination\<close>: the \<open>while True\<close> of the reconciliation, bounded by the number of pending
    rows and one pass more, computes what \<open>reconcile_loop\<close> defines.

  \<^bold>\<open>Authority.\<close> \<open>HubStore\<close> adds to the tables of a run those of approvals, privilege requests,
  capability grants and security events, and two columns of tasks and node runs.
  \<^item> \<open>Approval_Store\<close> (\<open>protocol/privilege.py\<close>, the events), \<open>Grants\<close> and \<open>Approvals\<close>
    (\<open>storage/approval_repository.py\<close>): creating, deciding, expiring, renewing and invalidating
    approvals; privilege requests; issuing, consuming and revoking grants; the cancellation of a run
    with all of it. Unqualified column names in a join must resolve (\<open>columns_resolve\<close>), as SQLite
    demands. \<open>Change_Sets\<close> (\<open>storage/change_set_repository.py\<close>): transitions and captures.
  \<^item> \<open>Approval_Evidence\<close>, \<open>Approval_Manager\<close> (\<open>workflow/approval_evidence.py\<close>,
    \<open>approval_manager.py\<close>): the manifest an approval is bound to, and the approval itself.
    \<open>layers\<close> terminates because every layer adds targets of edges.
  \<^item> \<open>Auth_Machine\<close> is the specification of approvals and change sets, \<open>Grant_Machine\<close> that of grants.
    \<open>Statements\<close> is a calculus for transactions as sequences of statements that may fail; its
    locales are interpreted on both specifications and on the frames. \<open>Hub_Steps\<close> collects every
    transaction in \<open>hub_step\<close>, \<open>Hub_Refinement\<close> proves that it implements \<open>Auth_Machine\<close>,
    \<open>Hub_Runs\<close> (with \<open>Run_Frame\<close> and \<open>Hub_Frames\<close>) that it is a step of the run.
  \<^item> \<open>Hub_Safety\<close>, \<open>Grant_Safety\<close>, \<open>Hub_Cancel\<close>: what is approved was approved by somebody in time,
    decisions are final, a cancellation takes all of it back. Grants would be spent once, but as the
    code stands none is ever issued.
  \<^item> \<open>Patch_Guard\<close> (\<open>security/patch_guard.py\<close>): a captured change set against the scope of its task, on
    the bytes of the patch. \<open>Guards\<close> (\<open>workflow/handlers/guards.py\<close>): patch guard, command guard,
    test and risk classifier. A handler commits several transactions, so it is one of \<open>Actions\<close>: a
    function from stores to a store and a result or an error. \<open>Guard_Safety\<close>: every run of a handler
    is a sequence of transactions of the hub (locale \<open>actions\<close>), and moves one change set as it
    judged it.
  \<^item> \<open>Git_Commits\<close> (\<open>workspace/git_manager.py\<close>): how an approved patch becomes a commit, with the
    checks around it, and its trailers. The commands of Git are fields of a record over a repository
    of any type. \<open>Merges\<close> (\<open>workflow/handlers/merge_patch.py\<close>, \<open>workspace/lock_manager.py\<close>): the merge
    handler on a store of the hub and a repository. A \<open>Schedule\<close> says for every wait what other tasks
    do to both, what the clock shows, whether the task is cancelled there, before or after a commit,
    and whether the heartbeat has failed. \<open>Recovery\<close> (\<open>workflow/recovery.py\<close>): the start of the hub.
  \<^item> \<open>Merge_Safety\<close>: only what was approved is merged, told as the one run that a handler which
    returns has made from its first state to its last; a failed merge closes its finalization and leaves
    a clean repository, or asks for a reconciliation; recovery finalizes exactly the commits that the
    merge handler makes; the handlers and the recovery are sequences of transactions. What the others do
    is any such sequence (\<open>polite\<close>), or only leaves the finalization of the run alone (\<open>unconcerned\<close>), or
    the repository and the commit of the run (\<open>aloof\<close>).
  \<^item> \<open>Idempotency\<close> (\<open>storage/idempotency_repository.py\<close>): a retry is answered with the response
    that was recorded, whatever other clients do until it expires.

  The theorem at the end of this theory joins both halves: what the executable validator proves
  of a graph and what the transactions keep of a run.

  \<^bold>\<open>Not modelled\<close>: the handler of agent tasks, the capability broker, the files behind artifacts and
  captures (the guards read them through \<open>GuardTools\<close>, whose sandbox stands for the repository in
  which a test runs, the merge handler through \<open>MergeReader\<close>); cloning, capturing and sealing
  repositories; process control, HTTP, SQL plumbing; non-ASCII text. Reads that the code makes one
  after the other to compute one value, such as the evidence of an approval, are made at one
  instant. Two runs share the lease tables and the session only, so the store of one run is modelled.
\<close>

subsection \<open>Validation and execution together\<close>

text \<open>
  C6: no merge starts without a recorded approval. When the snapshot of a fresh run passes the
  executable validator, then after any sequence of transactions of the repository (starts,
  claims, completions, approvals, cancellations, recoveries, in any order) and for every merge
  node: it is the last node of the one chain that the snapshot of the run seals for the write task
  it names as its source (\<open>sealed_chain\<close>: the system nodes of that task, each entered only from the
  one before it on its happy outcome: patch guard, tests, risk classifier, approval, merge); and
  either that task and every node of this chain before the merge have a completed row, the
  approval with the outcome approved and the others with success, or no row of the merge node
  has started.
\<close>

theorem no_merge_starts_without_approval:
  assumes "validate_executable cfg (compiled_snapshot (run st0)) = Inr rep" and "ok rep"
    and "fresh_run st0" and "run_steps H cd st0 st"
    and "m \<in> set (compiled_nodes (compiled_snapshot (run st)))" and "node_type m = MERGE_PATCH"
  shows "\<exists>s patch seg risk appr. s \<in> set (compiled_nodes (compiled_snapshot (run st))) \<and>
    is_write_task s \<and> source_node_id m = Some (node_id s) \<and>
    sealed_chain (compiled_snapshot (run st)) s (patch # seg @ [risk, appr, m]) \<and>
    node_type patch = PATCH_GUARD \<and> test_segment_ok s seg \<and> node_type risk = RISK_CLASSIFIER \<and>
    node_type appr = APPROVAL \<and>
    (list_all (passed (node_runs st)) (s # patch # seg @ [risk, appr]) \<or>
     list_all (\<lambda>r. nr_node_id r \<noteq> node_id m \<or>
       nr_status r \<in> {NodeRunStatus.PENDING, NodeRunStatus.SKIPPED, NodeRunStatus.CANCELLED}) (node_runs st))"
proof -
  let ?g = "compiled_snapshot (run st0)"
  have g: "compiled_snapshot (run st) = ?g" and j: "justified ?g (node_runs st)"
    using fresh_justified [OF assms(3,4)] by auto
  note t = fresh_typed [OF assms(3,4)]
  have ok: "exec_errors cfg ?g = []"
    using assms(1,2) by (auto simp: validate_executable_def ok_def split: if_splits)
  have d: "distinct (map node_id (compiled_nodes ?g))" using exec_parts(1) [OF ok] .
  obtain s patch seg risk appr where s: "s \<in> set (compiled_nodes ?g)" "is_write_task s"
      "source_node_id m = Some (node_id s)"
    and sc: "sealed_chain ?g s (patch # seg @ [risk, appr, m])"
    using merge_sealed [OF ok, of m] assms(5,6) g by auto
  let ?k = "length seg + 3"
  have types: "node_type patch = PATCH_GUARD" "node_type risk = RISK_CLASSIFIER" "node_type appr = APPROVAL"
    "test_segment_ok s seg"
    using sc unfolding sealed_chain_def by auto
  have k: "(patch # seg @ [risk, appr, m]) ! ?k = m" by (simp add: nth_append)
  have "list_all (passed (node_runs st)) (s # patch # seg @ [risk, appr])"
    if r: "r \<in> set (node_runs st)" "nr_node_id r = node_id m" "started r" for r
  proof -
    have p: "\<forall>i \<le> ?k. passed (node_runs st) ((s # patch # seg @ [risk, appr, m]) ! i)"
      using chain_passed [OF sc d j t, of ?k r] r k by simp
    have "passed (node_runs st) ((s # patch # seg @ [risk, appr]) ! i)"
      if i: "i < length (s # patch # seg @ [risk, appr])" for i
    proof -
      have "(s # patch # seg @ [risk, appr, m]) ! i = ((s # patch # seg @ [risk, appr]) @ [m]) ! i" by simp
      also have "\<dots> = (s # patch # seg @ [risk, appr]) ! i" using i by (simp only: nth_append if_True)
      finally show ?thesis using p i by (metis Suc_eq_plus1 add_Suc_right eval_nat_numeral(3) length_Cons length_append less_Suc_eq_le list.size(3) numeral_2_eq_2)
    qed
    then show ?thesis unfolding list_all_length by blast
  qed
  then have "list_all (passed (node_runs st)) (s # patch # seg @ [risk, appr]) \<or>
     list_all (\<lambda>r. nr_node_id r \<noteq> node_id m \<or>
       nr_status r \<in> {NodeRunStatus.PENDING, NodeRunStatus.SKIPPED, NodeRunStatus.CANCELLED}) (node_runs st)"
    unfolding list_all_iff [of "\<lambda>r. nr_node_id r \<noteq> node_id m \<or> _ r"] started_def by blast
  then show ?thesis using s sc types unfolding g by blast
qed

definition sealed_graph :: CompiledGraph where
  \<comment> \<open>the instance of the executable validator, with the hashes of the sample run\<close>
  "sealed_graph = sample_compiled\<lparr>source_author_hash := replicate 64 CHR ''0'',
     integration_base_commit := replicate 40 CHR ''0'', agent_catalog_snapshot_hash := replicate 64 CHR ''c''\<rparr>"

definition sealed_store :: RunStore where
  "sealed_store = sample_store\<lparr>run := (run sample_store)\<lparr>compiled_snapshot := sealed_graph\<rparr>,
     node_runs := map (\<lambda>n. (first_attempt sample_hash ''r'' 5 n)\<lparr>node_run_id := node_id n\<rparr>)
       (sort_key node_id (compiled_nodes sealed_graph))\<rparr>"

lemma sealed_store_facts:
  "validate_executable sample_exec (compiled_snapshot (run sealed_store)) =
     Inr \<lparr>report_errors = [], report_warnings = []\<rparr>"
  "fresh_run sealed_store" "compiled_snapshot (run sealed_store) = sealed_graph"
proof -
  show c: "compiled_snapshot (run sealed_store) = sealed_graph" by (simp add: sealed_store_def)
  have "exec_errors sample_exec sealed_graph = []" by code_simp
  then show "validate_executable sample_exec (compiled_snapshot (run sealed_store)) =
     Inr \<lparr>report_errors = [], report_warnings = []\<rparr>"
    by (simp add: validate_executable_def c)
  show "fresh_run sealed_store" by code_simp
qed

lemma sealed_started:
  "\<exists>st. start_and_reconcile sample_hash sample_catalog_digest ''r'' (sample_master ''alice'' 0 1) 6 sealed_store =
     Inr st \<and> list_ex (\<lambda>r. nr_status r = NodeRunStatus.READY) (node_runs st)"
proof -
  have "snapshots_intact sample_hash sample_catalog_digest (run sealed_store)"
    by (simp add: snapshots_intact_def sealed_store_def sample_store_def catalog_in_def sample_catalog_digest_def
        Let_def sealed_graph_def sample_compiled_def)
  moreover have "master_valid sealed_store (sample_master ''alice'' 0 1) 6" "workflow_run_id (run sealed_store) = ''r''"
    by code_simp+
  moreover have "case and_then (start_run (sample_master ''alice'' 0 1) 6 sealed_store) (\<lambda>st'.
      if run_status (run st') = WorkflowRunStatus.RUNNING then reconcile (sample_master ''alice'' 0 1) 6 st'
      else Inr st') of Inl _ \<Rightarrow> False
    | Inr st \<Rightarrow> list_ex (\<lambda>r. nr_status r = NodeRunStatus.READY) (node_runs st)"
    by code_simp
  ultimately show ?thesis
    by (auto simp: start_and_reconcile_def fenced_def known_run_def split: sum.splits)
qed

lemma no_merge_starts_without_approval_witness:
  "\<exists>(st :: RunStore) m appr. run_steps sample_hash sample_catalog_digest sealed_store st \<and>
     list_ex (\<lambda>r. nr_status r = NodeRunStatus.READY) (node_runs st) \<and>
     m \<in> set (compiled_nodes sealed_graph) \<and> node_type m = MERGE_PATCH \<and> node_type appr = APPROVAL \<and>
     (passed (node_runs st) appr \<or> list_all (\<lambda>r. nr_node_id r \<noteq> node_id m \<or>
       nr_status r \<in> {NodeRunStatus.PENDING, NodeRunStatus.SKIPPED, NodeRunStatus.CANCELLED}) (node_runs st))"
proof -
  obtain st where s: "start_and_reconcile sample_hash sample_catalog_digest ''r'' (sample_master ''alice'' 0 1) 6
      sealed_store = Inr st"
    and r: "list_ex (\<lambda>r. nr_status r = NodeRunStatus.READY) (node_runs st)"
    using sealed_started by blast
  have st: "run_steps sample_hash sample_catalog_digest sealed_store st"
    by (rule r_into_rtranclp) (rule run_step.txn [OF run_txn.start [OF s]])
  have "list_ex (\<lambda>n. node_type n = MERGE_PATCH) (compiled_nodes sealed_graph)" by code_simp
  then obtain m where m: "m \<in> set (compiled_nodes sealed_graph)" "node_type m = MERGE_PATCH"
    by (auto simp: list_ex_iff)
  have "ok \<lparr>report_errors = [], report_warnings = []\<rparr>" by (simp add: ok_def)
  moreover have "m \<in> set (compiled_nodes (compiled_snapshot (run st)))"
    using fresh_justified(2) [OF sealed_store_facts(2) st] sealed_store_facts(3) m(1) by simp
  ultimately obtain s patch seg risk appr where a: "node_type appr = APPROVAL"
    and d: "list_all (passed (node_runs st)) (s # patch # seg @ [risk, appr]) \<or>
     list_all (\<lambda>r. nr_node_id r \<noteq> node_id m \<or>
       nr_status r \<in> {NodeRunStatus.PENDING, NodeRunStatus.SKIPPED, NodeRunStatus.CANCELLED}) (node_runs st)"
    using no_merge_starts_without_approval [OF sealed_store_facts(1) _ sealed_store_facts(2) st _ m(2)] by blast
  then have "passed (node_runs st) appr \<or> list_all (\<lambda>r. nr_node_id r \<noteq> node_id m \<or>
       nr_status r \<in> {NodeRunStatus.PENDING, NodeRunStatus.SKIPPED, NodeRunStatus.CANCELLED}) (node_runs st)"
    by auto
  then show ?thesis using st r m a by blast
qed

end
